(* ===== verification/Prelude.thy ===== *)
theory Prelude
  imports Main "HOL-Library.Word"
begin

text \<open>
  What every component theory of the development shares: the machine integer types, the result
  type of C code that may fault, loops over an explicit list of indices, the errno values the
  sources return, and the generic lemmas that carry the component proofs.

  A C function that may run into undefined behaviour (a null or out-of-range access, a failed
  \<open>BUG_ON\<close>, an unbounded recursion) is a function into a sum: \<open>Inl\<close> is the fault and \<open>Inr\<close>
  the normal return. \<open>bindR\<close> sequences such functions and \<open>foldR\<close> runs one over a list, stopping
  at the first fault.
\<close>

named_theorems bindR_simps

type_synonym u8 = "8 word"
type_synonym u16 = "16 word"
type_synonym u32 = "32 word"
type_synonym u64 = "64 word"

section \<open>Computations that may fault\<close>

definition bindR :: "'e + 'a \<Rightarrow> ('a \<Rightarrow> 'e + 'b) \<Rightarrow> 'e + 'b" where
  "bindR m f = (case m of Inl e \<Rightarrow> Inl e | Inr x \<Rightarrow> f x)"

lemma bindR_Inr [simp, bindR_simps]: "bindR (Inr x) f = f x"
  by (simp add: bindR_def)

lemma bindR_Inl [simp, bindR_simps]: "bindR (Inl e) f = Inl e"
  by (simp add: bindR_def)

lemma bindR_eq_Inr: "bindR m f = Inr y \<longleftrightarrow> (\<exists>x. m = Inr x \<and> f x = Inr y)"
  by (cases m) auto

lemma bindR_eq_Inl: "bindR m f = Inl e \<longleftrightarrow> m = Inl e \<or> (\<exists>x. m = Inr x \<and> f x = Inl e)"
  by (cases m) auto

lemma bindR_InrE:
  assumes "bindR m f = Inr y"
  obtains x where "m = Inr x" and "f x = Inr y"
  using assms by (auto simp: bindR_eq_Inr)

lemma bindR_cong [fundef_cong]:
  "m = m' \<Longrightarrow> (\<And>x. m' = Inr x \<Longrightarrow> f x = f' x) \<Longrightarrow> bindR m f = bindR m' f'"
  by (cases m') auto

lemma bindR_if: "bindR (if b then m else m') f = (if b then bindR m f else bindR m' f)"
  by simp

fun foldR :: "('a \<Rightarrow> 's \<Rightarrow> 'e + 's) \<Rightarrow> 'a list \<Rightarrow> 's \<Rightarrow> 'e + 's" where
  "foldR f [] s = Inr s"
| "foldR f (x # xs) s = bindR (f x s) (foldR f xs)"

lemma foldR_append: "foldR f (xs @ ys) s = bindR (foldR f xs s) (foldR f ys)"
  by (induction xs arbitrary: s) (auto simp: bindR_def split: sum.splits)

text \<open>A loop whose body keeps an invariant keeps it.\<close>

lemma foldR_inv:
  assumes "foldR f xs s = Inr t" and "P s"
    and "\<And>x s t. x \<in> set xs \<Longrightarrow> P s \<Longrightarrow> f x s = Inr t \<Longrightarrow> P t"
  shows "P t"
  using assms
proof (induction xs arbitrary: s)
  case Nil
  then show ?case by simp
next
  case (Cons x xs)
  from Cons.prems(1) obtain s' where step: "f x s = Inr s'" and rest: "foldR f xs s' = Inr t"
    by (auto elim: bindR_InrE)
  from Cons.prems(2,3) step have "P s'" by auto
  then show ?case using Cons.IH [OF rest] Cons.prems(3) by auto
qed

text \<open>A loop whose body never faults under an invariant runs to its end.\<close>

lemma foldR_total:
  assumes "P s" and "\<And>x s. x \<in> set xs \<Longrightarrow> P s \<Longrightarrow> \<exists>t. f x s = Inr t \<and> P t"
  shows "\<exists>t. foldR f xs s = Inr t \<and> P t"
  using assms
proof (induction xs arbitrary: s)
  case Nil
  then show ?case by simp
next
  case (Cons x xs)
  then obtain s' where "f x s = Inr s'" and "P s'" by fastforce
  then show ?case using Cons.IH [of s'] Cons.prems(2) by auto
qed

section \<open>C integers\<close>

text \<open>\<open>(int) x\<close> for an unsigned 64-bit \<open>x\<close>: the low 32 bits read as two's complement.\<close>

definition to_int :: "u64 \<Rightarrow> int" where
  "to_int x = sint (ucast x :: u32)"

text \<open>\<open>(unsigned long) i\<close> for an \<open>int\<close>: sign extension to 64 bits.\<close>

definition int_to_ulong :: "int \<Rightarrow> u64" where
  "int_to_ulong i = word_of_int i"

lemma to_int_small:
  assumes "unat x < 2 ^ 31"
  shows "to_int x = int (unat x)"
proof -
  have u: "uint x < 2 ^ 31"
    using assms by (metis of_nat_less_iff of_nat_numeral of_nat_power uint_nat)
  have "sint (ucast x :: u32) = signed_take_bit 31 (uint x)"
    by (simp add: sint_uint unsigned_ucast_eq take_bit_word_eq_self signed_take_bit_take_bit
        take_bit_int_eq_self u unsigned_take_bit_eq)
  also have "\<dots> = uint x"
    using u by (intro signed_take_bit_int_eq_self) (auto intro: order_trans [of _ 0])
  finally have "sint (ucast x :: u32) = int (unat x)" by simp
  then show ?thesis by (simp add: to_int_def)
qed

text \<open>An offset below the page size, added to a page address by \<open>|\<close>.\<close>

lemma low_bits_or:
  fixes p :: u64
  assumes "and p 0xFFF = 0" and "0 \<le> offset" and "offset < 4096"
  shows "unat (or (and p (not 0xFFF)) (word_of_int offset)) = unat p + nat offset"
proof -
  let ?o = "word_of_int offset :: u64"
  have uo: "unat ?o = nat offset"
    using assms by (simp add: unat_eq_nat_uint uint_word_of_int take_bit_int_eq_self)
  have m: "(0xFFF :: u64) = mask 12" by (simp add: mask_eq_exp_minus_1)
  have p: "take_bit 12 p = 0" using assms(1) by (simp add: m flip: take_bit_eq_mask)
  have o: "take_bit 12 ?o = ?o"
  proof (rule word_unat_eq_iff [THEN iffD2])
    have "unat (take_bit 12 ?o) = take_bit 12 (nat offset)" using uo by (metis unsigned_take_bit_eq)
    also have "\<dots> = nat offset" using assms by (simp add: take_bit_nat_eq_self)
    finally show "unat (take_bit 12 ?o) = unat ?o" using uo by simp
  qed
  have pb: "bit p n \<Longrightarrow> \<not> n < 12" for n
    using p by (metis bit_0_eq bit_take_bit_iff bot_apply bot_bool_def)
  have ob: "bit ?o n \<Longrightarrow> n < 12" for n using o by (metis bit_take_bit_iff)
  have p': "and p (not 0xFFF) = p"
    by (rule bit_word_eqI) (auto simp: bit_and_iff bit_not_iff m bit_mask_iff dest: pb)
  have "and p ?o = 0"
    by (rule bit_word_eqI) (auto simp: bit_and_iff dest: pb ob)
  then have plus: "or p ?o = p + ?o" using word_plus_and_or [of p ?o] by simp
  have "unat p mod 4096 = 0"
  proof -
    have "take_bit 12 (unat p) = unat (take_bit 12 p)" by (simp only: unsigned_take_bit_eq)
    with p show ?thesis by (simp add: take_bit_eq_mod)
  qed
  moreover have "unat p < 2 ^ 64" using unsigned_less [of p] by simp
  ultimately have "unat p + unat ?o < 2 ^ 64" using uo assms by auto
  then have "unat (p + ?o) = unat p + unat ?o" by (simp add: unat_word_ariths)
  with plus p' uo show ?thesis by simp
qed

lemma page_offset:
  fixes a b :: nat
  assumes "a mod 4096 = 0" and "b \<le> 4064"
  shows "(a + b) mod 4096 + 32 \<le> 4096" and "(a + b) div 4096 = a div 4096"
proof -
  from assms(1) obtain k where "a = 4096 * k" by auto
  with assms(2) show "(a + b) mod 4096 + 32 \<le> 4096" and "(a + b) div 4096 = a div 4096"
    by simp_all
qed

section \<open>errno\<close>

abbreviation EPERM :: int where "EPERM \<equiv> 1"
abbreviation EINTR :: int where "EINTR \<equiv> 4"
abbreviation EIO :: int where "EIO \<equiv> 5"
abbreviation EAGAIN :: int where "EAGAIN \<equiv> 11"
abbreviation EACCES :: int where "EACCES \<equiv> 13"
abbreviation EFAULT :: int where "EFAULT \<equiv> 14"
abbreviation EINVAL :: int where "EINVAL \<equiv> 22"
abbreviation ENOSPC :: int where "ENOSPC \<equiv> 28"
abbreviation ENOTSUP :: int where "ENOTSUP \<equiv> 95"

end
