(* ===== verification/Did_State.thy ===== *)
theory Did_State
  imports Prelude
begin

text \<open>
  The state of the guest kernel module \<open>guest-share-pid/did.c\<close> (direct interrupt delivery), and
  the kernel it runs in. \<open>did_slot\<close> is \<open>struct did\<close>, \<open>apic_ops\<close> the six function pointers that
  both \<open>struct ipi\<close> and the kernel's \<open>struct apic\<close> have, \<open>clock_event\<close> the fields of
  \<open>struct clock_event_device\<close> the module reads or writes. \<open>world\<close> collects what the module
  calls but does not define: hypercalls, allocators, clocks, user memory. A call whose answer may
  vary is answered from the history of the calls made so far (\<open>events\<close>), so a theorem for every
  world is a theorem for every behaviour of the host.

  PIR memory is addressed by absolute bit: bit \<open>i\<close> of the byte at address \<open>a\<close> is \<open>8 * a + i\<close>.
\<close>

section \<open>Types\<close>

text \<open>A pointer to a clock event handler: null, the module's own, or one of the kernel's.\<close>

datatype handler = Null_handler | Timer_interrupt_handler | Kernel_handler nat

text \<open>\<open>Did_fn\<close> in a slot of an \<open>apic_ops\<close> is the function the module installs in that slot.\<close>

datatype ipi_fn = Null_fn | Did_fn | Kernel_fn nat

record apic_ops =
  op_send_IPI :: ipi_fn
  op_send_IPI_mask :: ipi_fn
  op_send_IPI_mask_allbutself :: ipi_fn
  op_send_IPI_allbutself :: ipi_fn
  op_send_IPI_all :: ipi_fn
  op_send_IPI_self :: ipi_fn

text \<open>A call through one of the six pointers, with its arguments; a mask is its cpus in order.\<close>

datatype ipi_req =
    Send_IPI int int
  | Send_IPI_mask "nat list" int
  | Send_IPI_mask_allbutself "nat list" int
  | Send_IPI_allbutself int
  | Send_IPI_all int
  | Send_IPI_self int

fun slot_of :: "apic_ops \<Rightarrow> ipi_req \<Rightarrow> ipi_fn" where
  "slot_of ops (Send_IPI _ _) = op_send_IPI ops"
| "slot_of ops (Send_IPI_mask _ _) = op_send_IPI_mask ops"
| "slot_of ops (Send_IPI_mask_allbutself _ _) = op_send_IPI_mask_allbutself ops"
| "slot_of ops (Send_IPI_allbutself _) = op_send_IPI_allbutself ops"
| "slot_of ops (Send_IPI_all _) = op_send_IPI_all ops"
| "slot_of ops (Send_IPI_self _) = op_send_IPI_self ops"

record did_slot =
  pid :: u64
  start :: u64
  did_mult :: u32
  did_shift :: u32
  did_event_handler :: handler

record clock_event =
  ce_event_handler :: handler
  ce_mult :: u32
  ce_shift :: u32
  ce_next_event :: int

datatype fault =
    Null_deref
  | Out_of_bounds
  | Bug_on
  | Stack_overflow

datatype event =
    Hypercall nat u64
  | Kcalloc_dids nat
  | Kmalloc_page
  | Kzalloc_ipi
  | Kfree_page u64
  | Kfree_dids
  | Kfree_ipi
  | Read_byte u64
  | Ktime_get
  | Call_handler nat
  | Call_ipi nat ipi_req
  | Apic_write_TMICT nat
  | Misc_register
  | Misc_deregister

record kernel =
  dipi :: bool
  ncpus :: nat
  lapic_events :: u64
  dids :: "did_slot list option"
  ipi :: "apic_ops option"
  apic :: apic_ops
  lapic :: "nat \<Rightarrow> clock_event"
  x86_cpu_to_apicid :: "nat \<Rightarrow> u16"
  cr0 :: u64
  irqs_enabled :: bool
  pir :: "nat set"
  events :: "event list"

record world =
  w_hypercall :: "event list \<Rightarrow> nat \<Rightarrow> u64 \<Rightarrow> u64"
  w_alloc :: "event list \<Rightarrow> u64"
  w_ktime :: "event list \<Rightarrow> int"
  w_virt_to_phys :: "u64 \<Rightarrow> u64"
  w_cpu :: nat
  w_online :: "nat list"
  w_local_timer_vector :: u32
  w_posted_intr_vector :: int
  w_rdmsr_apic_id :: "nat \<Rightarrow> int"
  w_user_ipi :: "u64 \<Rightarrow> (int \<times> int) option"
  w_kallsyms :: "string \<Rightarrow> u64"
  w_misc_register :: int
  w_pgd_offset :: "u64 \<Rightarrow> u64 \<Rightarrow> u64"
  w_pud_offset :: "u64 \<Rightarrow> u64 \<Rightarrow> u64"
  w_pmd_offset :: "u64 \<Rightarrow> u64 \<Rightarrow> u64"
  w_pte_offset :: "u64 \<Rightarrow> u64 \<Rightarrow> u64"
  w_entry_none :: "u64 \<Rightarrow> bool"

type_synonym 'a kres = "fault + 'a"

abbreviation PAGE_SIZE :: nat where "PAGE_SIZE \<equiv> 4096"

section \<open>Access to the module's state\<close>

definition record_event :: "event \<Rightarrow> kernel \<Rightarrow> kernel" where
  "record_event e s = s\<lparr>events := events s @ [e]\<rparr>"

text \<open>\<open>dids[cpu]\<close>: the array may be null, and the index may be outside it.\<close>

definition did_at :: "kernel \<Rightarrow> int \<Rightarrow> did_slot kres" where
  "did_at s cpu =
     (case dids s of
        None \<Rightarrow> Inl Null_deref
      | Some ds \<Rightarrow> if 0 \<le> cpu \<and> nat cpu < length ds then Inr (ds ! nat cpu) else Inl Out_of_bounds)"

definition did_update :: "int \<Rightarrow> (did_slot \<Rightarrow> did_slot) \<Rightarrow> kernel \<Rightarrow> kernel kres" where
  "did_update cpu f s =
     bindR (did_at s cpu) (\<lambda>d. Inr (s\<lparr>dids := map_option (\<lambda>ds. ds[nat cpu := f d]) (dids s)\<rparr>))"

text \<open>\<open>this_cpu_ptr(lapic_events)\<close>; \<open>lapic_events\<close> is null when the symbol was not found.\<close>

definition this_evt :: "world \<Rightarrow> kernel \<Rightarrow> clock_event kres" where
  "this_evt w s = (if lapic_events s = 0 then Inl Null_deref else Inr (lapic s (w_cpu w)))"

definition evt_update :: "world \<Rightarrow> (clock_event \<Rightarrow> clock_event) \<Rightarrow> kernel \<Rightarrow> kernel kres" where
  "evt_update w f s =
     bindR (this_evt w s) (\<lambda>e. Inr (s\<lparr>lapic := (lapic s)(w_cpu w := f e)\<rparr>))"

definition kvm_hypercall :: "world \<Rightarrow> nat \<Rightarrow> u64 \<Rightarrow> kernel \<Rightarrow> u64 \<times> kernel" where
  "kvm_hypercall w nr arg s = (w_hypercall w (events s) nr arg, record_event (Hypercall nr arg) s)"

text \<open>
  The state of a loaded module: the array has one slot per cpu, and the current cpu is one of
  them. \<open>did_wf\<close> is the part every operation keeps; \<open>did_ready\<close> says the module's
  initialisation succeeded.
\<close>

definition did_wf :: "kernel \<Rightarrow> bool" where
  "did_wf s \<longleftrightarrow> (case dids s of None \<Rightarrow> True | Some ds \<Rightarrow> length ds = ncpus s)"

definition did_ready :: "world \<Rightarrow> kernel \<Rightarrow> bool" where
  "did_ready w s \<longleftrightarrow> did_wf s \<and> dids s \<noteq> None \<and> ipi s \<noteq> None \<and> lapic_events s \<noteq> 0 \<and> w_cpu w < ncpus s"

abbreviation slot :: "kernel \<Rightarrow> nat \<Rightarrow> did_slot" where
  "slot s i \<equiv> the (dids s) ! i"

section \<open>Lemmas\<close>

lemma record_event_simps [simp]:
  "dipi (record_event e s) = dipi s" "ncpus (record_event e s) = ncpus s"
  "lapic_events (record_event e s) = lapic_events s" "dids (record_event e s) = dids s"
  "ipi (record_event e s) = ipi s" "apic (record_event e s) = apic s"
  "lapic (record_event e s) = lapic s" "x86_cpu_to_apicid (record_event e s) = x86_cpu_to_apicid s"
  "cr0 (record_event e s) = cr0 s" "irqs_enabled (record_event e s) = irqs_enabled s"
  "pir (record_event e s) = pir s" "events (record_event e s) = events s @ [e]"
  by (simp_all add: record_event_def)

lemma did_ready_simps:
  assumes "did_ready w s"
  shows "\<exists>ds. dids s = Some ds \<and> length ds = ncpus s" and "w_cpu w < ncpus s"
    and "lapic_events s \<noteq> 0" and "\<exists>i. ipi s = Some i"
  using assms by (auto simp: did_ready_def did_wf_def)

lemma did_at_ready:
  "did_ready w s \<Longrightarrow> did_at s (int (w_cpu w)) = Inr (slot s (w_cpu w))"
  by (auto simp: did_ready_def did_wf_def did_at_def)

lemma did_at_nth:
  "dids s = Some ds \<Longrightarrow> i < length ds \<Longrightarrow> did_at s (int i) = Inr (ds ! i)"
  by (simp add: did_at_def)

lemma did_update_nth:
  "dids s = Some ds \<Longrightarrow> i < length ds \<Longrightarrow>
     did_update (int i) f s = Inr (s\<lparr>dids := Some (ds[i := f (ds ! i)])\<rparr>)"
  by (simp add: did_update_def did_at_nth)

lemma did_update_InrE:
  assumes "did_update cpu f s = Inr t"
  obtains ds where "dids s = Some ds" and "0 \<le> cpu" and "nat cpu < length ds"
    and "t = s\<lparr>dids := Some (ds[nat cpu := f (ds ! nat cpu)])\<rparr>"
  using assms by (auto simp: did_update_def did_at_def bindR_eq_Inr split: option.splits if_splits)

lemma this_evt_ready: "did_ready w s \<Longrightarrow> this_evt w s = Inr (lapic s (w_cpu w))"
  by (simp add: did_ready_def this_evt_def)

lemma evt_update_ready:
  "lapic_events s \<noteq> 0 \<Longrightarrow>
     evt_update w f s = Inr (s\<lparr>lapic := (lapic s)(w_cpu w := f (lapic s (w_cpu w)))\<rparr>)"
  by (simp add: evt_update_def this_evt_def)

lemma evt_update_InrE:
  assumes "evt_update w f s = Inr t"
  obtains "lapic_events s \<noteq> 0" and "t = s\<lparr>lapic := (lapic s)(w_cpu w := f (lapic s (w_cpu w)))\<rparr>"
  using assms by (auto simp: evt_update_def this_evt_def split: if_splits)

lemmas did_access = did_at_ready did_at_nth did_update_nth this_evt_ready evt_update_ready

lemma did_wf_update:
  assumes "did_wf s" and "did_update cpu f s = Inr t"
  shows "did_wf t"
  using assms by (auto simp: did_wf_def elim!: did_update_InrE split: option.splits)

lemma did_wf_evt_update:
  assumes "did_wf s" and "evt_update w f s = Inr t"
  shows "did_wf t"
  using assms by (auto simp: did_wf_def elim!: evt_update_InrE split: option.splits)

lemma did_wf_record_event [simp]: "did_wf (record_event e s) = did_wf s"
  by (simp add: did_wf_def split: option.splits)

lemma kvm_hypercall_simps [simp]:
  "snd (kvm_hypercall w nr arg s) = record_event (Hypercall nr arg) s"
  "fst (kvm_hypercall w nr arg s) = w_hypercall w (events s) nr arg"
  by (simp_all add: kvm_hypercall_def)

end
