(* ===== verification/Did_Ipi.thy ===== *)
theory Did_Ipi
  imports Did_State
begin

text \<open>
  Direct inter-processor interrupts (\<open>did.c\<close>: \<open>set_posted_interrupt\<close>, the six \<open>did_send_IPI*\<close>
  functions, \<open>set_apic_ipi\<close>, \<open>restore_apic_ipi\<close>, \<open>send_ipi\<close> and the read-only-memory window around
  the update of \<open>apic\<close>). A call through a function pointer of \<open>apic\<close> or \<open>ipi\<close> is \<open>call_ipi\<close>, whose
  fuel is the depth of the kernel stack: the saved pointers may be the module's own functions, and
  then the calls never end.
\<close>

section \<open>Posting a vector\<close>

text \<open>
  \<open>__set_bit(vector, pid)\<close> sets bit \<open>vector mod 64\<close> of the 64-bit word \<open>vector div 64\<close> words after
  \<open>pid\<close>. The first page of the address space is not mapped.
\<close>

definition set_posted_interrupt :: "u32 \<Rightarrow> u64 \<Rightarrow> kernel \<Rightarrow> kernel kres" where
  "set_posted_interrupt vector p s =
     (if unat p + 8 * (unat vector div 64) < PAGE_SIZE then Inl Null_deref
      else Inr (s\<lparr>pir := insert (8 * unat p + unat vector) (pir s)\<rparr>))"

text \<open>The \<open>u32\<close> that an \<open>int\<close> vector becomes when it is passed on.\<close>

definition vec32 :: "int \<Rightarrow> u32" where
  "vec32 v = word_of_int v"

definition post_to :: "int \<Rightarrow> int \<Rightarrow> kernel \<Rightarrow> kernel kres" where
  "post_to vector cpu s =
     bindR (did_at s cpu) (\<lambda>d. set_posted_interrupt (vec32 vector) (start d) s)"

section \<open>The functions the module installs\<close>

text \<open>\<open>call req\<close> is a call through the saved pointer \<open>ipi->\<dots>\<close> for \<open>req\<close>.\<close>

definition did_send_IPI ::
  "(ipi_req \<Rightarrow> kernel \<Rightarrow> kernel kres) \<Rightarrow> world \<Rightarrow> int \<Rightarrow> int \<Rightarrow> kernel \<Rightarrow> kernel kres" where
  "did_send_IPI call w cpu vector s =
     (if dipi s
      then bindR (post_to vector cpu s) (call (Send_IPI cpu (w_posted_intr_vector w)))
      else call (Send_IPI cpu vector) s)"

definition did_send_IPI_mask ::
  "(ipi_req \<Rightarrow> kernel \<Rightarrow> kernel kres) \<Rightarrow> world \<Rightarrow> nat list \<Rightarrow> int \<Rightarrow> kernel \<Rightarrow> kernel kres" where
  "did_send_IPI_mask call w cpus vector s =
     (if dipi s
      then bindR (foldR (\<lambda>cpu. post_to vector (int cpu)) cpus s)
             (call (Send_IPI_mask cpus (w_posted_intr_vector w)))
      else call (Send_IPI_mask cpus vector) s)"

definition did_send_IPI_mask_allbutself ::
  "(ipi_req \<Rightarrow> kernel \<Rightarrow> kernel kres) \<Rightarrow> world \<Rightarrow> nat list \<Rightarrow> int \<Rightarrow> kernel \<Rightarrow> kernel kres" where
  "did_send_IPI_mask_allbutself call w cpus vector s =
     (if dipi s
      then bindR (foldR (\<lambda>query_cpu s. if query_cpu = w_cpu w then Inr s
                                       else post_to vector (int query_cpu) s) cpus s)
             (call (Send_IPI_mask cpus (w_posted_intr_vector w)))
      else call (Send_IPI_mask cpus vector) s)"

definition did_send_IPI_allbutself ::
  "(ipi_req \<Rightarrow> kernel \<Rightarrow> kernel kres) \<Rightarrow> world \<Rightarrow> int \<Rightarrow> kernel \<Rightarrow> kernel kres" where
  "did_send_IPI_allbutself call w vector = did_send_IPI_mask_allbutself call w (w_online w) vector"

definition did_send_IPI_all ::
  "(ipi_req \<Rightarrow> kernel \<Rightarrow> kernel kres) \<Rightarrow> world \<Rightarrow> int \<Rightarrow> kernel \<Rightarrow> kernel kres" where
  "did_send_IPI_all call w vector = did_send_IPI_mask call w (w_online w) vector"

definition did_send_IPI_self ::
  "(ipi_req \<Rightarrow> kernel \<Rightarrow> kernel kres) \<Rightarrow> world \<Rightarrow> int \<Rightarrow> kernel \<Rightarrow> kernel kres" where
  "did_send_IPI_self call w vector s =
     (if dipi s
      then bindR (post_to vector (int (w_cpu w)) s) (call (Send_IPI_self (w_posted_intr_vector w)))
      else call (Send_IPI_self vector) s)"

fun did_fn ::
  "(ipi_req \<Rightarrow> kernel \<Rightarrow> kernel kres) \<Rightarrow> world \<Rightarrow> ipi_req \<Rightarrow> kernel \<Rightarrow> kernel kres" where
  "did_fn call w (Send_IPI cpu vector) = did_send_IPI call w cpu vector"
| "did_fn call w (Send_IPI_mask cpus vector) = did_send_IPI_mask call w cpus vector"
| "did_fn call w (Send_IPI_mask_allbutself cpus vector) =
     did_send_IPI_mask_allbutself call w cpus vector"
| "did_fn call w (Send_IPI_allbutself vector) = did_send_IPI_allbutself call w vector"
| "did_fn call w (Send_IPI_all vector) = did_send_IPI_all call w vector"
| "did_fn call w (Send_IPI_self vector) = did_send_IPI_self call w vector"

text \<open>Calling a pointer with \<open>fuel\<close> frames of stack left.\<close>

fun call_ipi :: "nat \<Rightarrow> world \<Rightarrow> ipi_fn \<Rightarrow> ipi_req \<Rightarrow> kernel \<Rightarrow> kernel kres" where
  "call_ipi 0 w f req s = Inl Stack_overflow"
| "call_ipi (Suc fuel) w f req s =
     (case f of
        Null_fn \<Rightarrow> Inl Null_deref
      | Kernel_fn k \<Rightarrow> Inr (record_event (Call_ipi k req) s)
      | Did_fn \<Rightarrow>
          did_fn (\<lambda>req' s'. case ipi s' of
                     None \<Rightarrow> Inl Null_deref
                   | Some ops \<Rightarrow> call_ipi fuel w (slot_of ops req') req' s') w req s)"

section \<open>Installing and removing them\<close>

text \<open>Bit 16 of \<open>cr0\<close> is the write-protect bit.\<close>

abbreviation X86_CR0_WP :: u64 where "X86_CR0_WP \<equiv> 0x10000"

definition x86_rare_write_begin :: "kernel \<Rightarrow> kernel kres" where
  "x86_rare_write_begin s =
     (let c = xor (cr0 s) X86_CR0_WP
      in if and c X86_CR0_WP \<noteq> 0 then Inl Bug_on else Inr (s\<lparr>cr0 := c\<rparr>))"

definition x86_rare_write_end :: "kernel \<Rightarrow> kernel kres" where
  "x86_rare_write_end s =
     (let c = xor (cr0 s) X86_CR0_WP
      in if \<not> (and c X86_CR0_WP \<noteq> 0) then Inl Bug_on else Inr (s\<lparr>cr0 := c\<rparr>))"

definition rare_write_begin :: "kernel \<Rightarrow> kernel kres" where
  "rare_write_begin s = x86_rare_write_begin (s\<lparr>irqs_enabled := False\<rparr>)"

definition rare_write_end :: "kernel \<Rightarrow> kernel kres" where
  "rare_write_end s = bindR (x86_rare_write_end s) (\<lambda>s. Inr (s\<lparr>irqs_enabled := True\<rparr>))"

definition did_ops :: apic_ops where
  "did_ops = \<lparr>op_send_IPI = Did_fn, op_send_IPI_mask = Did_fn, op_send_IPI_mask_allbutself = Did_fn,
     op_send_IPI_allbutself = Did_fn, op_send_IPI_all = Did_fn, op_send_IPI_self = Did_fn\<rparr>"

definition set_apic_ipi :: "kernel \<Rightarrow> kernel kres" where
  "set_apic_ipi s =
     (case ipi s of
        None \<Rightarrow> Inl Null_deref
      | Some _ \<Rightarrow>
          bindR (rare_write_begin (s\<lparr>ipi := Some (apic s)\<rparr>)) (\<lambda>s.
            rare_write_end (s\<lparr>apic := did_ops\<rparr>)))"

definition restore_apic_ipi :: "kernel \<Rightarrow> kernel kres" where
  "restore_apic_ipi s =
     bindR (rare_write_begin s) (\<lambda>s.
       case ipi s of
         None \<Rightarrow> Inl Null_deref
       | Some ops \<Rightarrow> rare_write_end (s\<lparr>apic := ops\<rparr>))"

text \<open>
  \<open>send_ipi\<close>: the ioctl argument is the user address of an \<open>ipi_t\<close>; \<open>copy_from_user\<close> may fail.
\<close>

definition send_ipi :: "nat \<Rightarrow> world \<Rightarrow> u64 \<Rightarrow> kernel \<Rightarrow> (int \<times> kernel) kres" where
  "send_ipi fuel w arg s =
     (case w_user_ipi w arg of
        None \<Rightarrow> Inr (- EACCES, s)
      | Some (cpu, vector) \<Rightarrow>
          bindR (call_ipi fuel w (op_send_IPI (apic s)) (Send_IPI cpu vector) s) (\<lambda>s. Inr (0, s)))"

section \<open>Lemmas\<close>

subsection \<open>Posting\<close>

text \<open>The PIR bit of a slot for a vector, and when the slot can take it.\<close>

definition pir_bit :: "did_slot \<Rightarrow> int \<Rightarrow> nat" where
  "pir_bit d v = 8 * unat (start d) + unat (vec32 v)"

definition can_post :: "kernel \<Rightarrow> int \<Rightarrow> int \<Rightarrow> bool" where
  "can_post s v cpu \<longleftrightarrow>
     (case did_at s cpu of
        Inl _ \<Rightarrow> False
      | Inr d \<Rightarrow> PAGE_SIZE \<le> unat (start d) + 8 * (unat (vec32 v) div 64))"

lemma did_at_pir [simp]: "did_at (s\<lparr>pir := x\<rparr>) c = did_at s c"
  by (simp add: did_at_def)

lemma can_post_pir [simp]: "can_post (s\<lparr>pir := x\<rparr>) v c = can_post s v c"
  by (simp add: can_post_def)

lemma post_to_ok:
  assumes "can_post s v cpu"
  shows "post_to v cpu s = Inr (s\<lparr>pir := insert (pir_bit (slot s (nat cpu)) v) (pir s)\<rparr>)"
  using assms
  by (auto simp: can_post_def post_to_def did_at_def set_posted_interrupt_def pir_bit_def
      split: option.splits sum.splits if_splits)

lemma post_to_fails:
  assumes "\<not> can_post s v cpu"
  shows "\<exists>e. post_to v cpu s = Inl e"
  using assms
  by (auto simp: can_post_def post_to_def did_at_def set_posted_interrupt_def
      split: option.splits sum.splits if_splits)

text \<open>A loop that posts to every cpu of a list, except those it skips.\<close>

lemma post_loop:
  assumes "\<And>c. c \<in> set cpus \<Longrightarrow> \<not> skip c \<Longrightarrow> can_post s v (int c)"
  shows "foldR (\<lambda>c s. if skip c then Inr s else post_to v (int c) s) cpus s =
    Inr (s\<lparr>pir := pir s \<union> (\<lambda>c. pir_bit (slot s c) v) ` {c \<in> set cpus. \<not> skip c}\<rparr>)"
  using assms
proof (induction cpus arbitrary: s)
  case Nil
  then show ?case by simp
next
  case (Cons c cpus)
  show ?case
  proof (cases "skip c")
    case True
    then have "{x \<in> set (c # cpus). \<not> skip x} = {x \<in> set cpus. \<not> skip x}" by auto
    with True Cons show ?thesis by simp
  next
    case False
    let ?s = "s\<lparr>pir := insert (pir_bit (slot s c) v) (pir s)\<rparr>"
    have "foldR (\<lambda>c s. if skip c then Inr s else post_to v (int c) s) cpus ?s =
      Inr (?s\<lparr>pir := pir ?s \<union> (\<lambda>c. pir_bit (slot ?s c) v) ` {c \<in> set cpus. \<not> skip c}\<rparr>)"
      using Cons.prems by (intro Cons.IH) simp
    moreover have "{x \<in> set (c # cpus). \<not> skip x} = insert c {x \<in> set cpus. \<not> skip x}"
      using False by auto
    ultimately show ?thesis
      using False Cons.prems by (simp add: post_to_ok)
  qed
qed

lemma post_loop_all:
  assumes "\<And>c. c \<in> set cpus \<Longrightarrow> can_post s v (int c)"
  shows "foldR (\<lambda>c. post_to v (int c)) cpus s =
    Inr (s\<lparr>pir := pir s \<union> (\<lambda>c. pir_bit (slot s c) v) ` set cpus\<rparr>)"
  using post_loop [of cpus "\<lambda>_. False" s v] assms by simp

text \<open>Two slots on different pages never share a PIR bit for a vector below 256.\<close>

lemma pir_bit_page:
  assumes "unat (vec32 v) < 256" and "unat (start d) mod 4096 + 32 \<le> 4096"
  shows "pir_bit d v div (8 * 4096) = unat (start d) div 4096"
proof -
  let ?a = "unat (start d)" and ?x = "unat (vec32 v)"
  have "?a mod 4096 + ?x div 8 < 4096" using assms by linarith
  then have "(?a + ?x div 8) div 4096 = ?a div 4096"
    using div_mult_mod_eq [of ?a 4096] by linarith
  moreover have "pir_bit d v div 8 = ?a + ?x div 8"
    unfolding pir_bit_def by linarith
  ultimately show ?thesis
    by (simp add: div_mult2_eq)
qed

subsection \<open>The calls\<close>

lemma did_call_saved:
  assumes "ipi s = Some ops" and "slot_of ops req = Kernel_fn k"
  shows "(case ipi s of None \<Rightarrow> Inl Null_deref
          | Some ops \<Rightarrow> call_ipi (Suc fuel) w (slot_of ops req) req s) =
         Inr (record_event (Call_ipi k req) s)"
  using assms by simp

text \<open>With the kernel's functions saved, two frames are enough and more change nothing.\<close>

definition saved_genuine :: "kernel \<Rightarrow> bool" where
  "saved_genuine s \<longleftrightarrow> (case ipi s of None \<Rightarrow> False
     | Some ops \<Rightarrow> \<forall>f \<in> {op_send_IPI ops, op_send_IPI_mask ops, op_send_IPI_mask_allbutself ops,
         op_send_IPI_allbutself ops, op_send_IPI_all ops, op_send_IPI_self ops}. \<exists>k. f = Kernel_fn k)"

lemma saved_genuineE:
  assumes "saved_genuine s"
  obtains ops where "ipi s = Some ops" and "\<And>req. \<exists>k. slot_of ops req = Kernel_fn k"
proof -
  from assms obtain ops where ops: "ipi s = Some ops"
    and all: "\<forall>f \<in> {op_send_IPI ops, op_send_IPI_mask ops, op_send_IPI_mask_allbutself ops,
         op_send_IPI_allbutself ops, op_send_IPI_all ops, op_send_IPI_self ops}. \<exists>k. f = Kernel_fn k"
    by (auto simp: saved_genuine_def split: option.splits)
  have "\<exists>k. slot_of ops req = Kernel_fn k" for req
    using all by (cases req) auto
  with ops that show thesis by blast
qed

lemma post_to_frame:
  assumes "post_to v c s = Inr t"
  shows "ipi t = ipi s \<and> dids t = dids s \<and> dipi t = dipi s \<and> events t = events s"
  using assms
  by (auto simp: post_to_def set_posted_interrupt_def bindR_eq_Inr split: if_splits)

lemma foldR_post_frame:
  assumes "foldR (\<lambda>c s. if skip c then Inr s else post_to v (int c) s) cpus s = Inr t"
  shows "ipi t = ipi s"
proof -
  have "ipi t = ipi s \<and> dids t = dids s \<and> dipi t = dipi s \<and> events t = events s"
    using assms by (rule foldR_inv) (auto split: if_splits dest!: post_to_frame)
  then show ?thesis by simp
qed

lemma foldR_post_all_frame:
  "foldR (\<lambda>c. post_to v (int c)) cpus s = Inr t \<Longrightarrow> ipi t = ipi s"
  using foldR_post_frame [of "\<lambda>_. False" v cpus s t] by simp

lemma did_fn_cong:
  assumes "\<And>req' t. ipi t = ipi s \<Longrightarrow> call req' t = call' req' t"
  shows "did_fn call w req s = did_fn call' w req s"
proof (cases req)
  case (Send_IPI c v)
  then show ?thesis
    using assms by (auto simp: did_send_IPI_def dest: post_to_frame intro!: bindR_cong)
next
  case (Send_IPI_mask m v)
  then show ?thesis
    using assms by (auto simp: did_send_IPI_mask_def dest: foldR_post_all_frame intro!: bindR_cong)
next
  case (Send_IPI_mask_allbutself m v)
  then show ?thesis
    using assms
    by (auto simp: did_send_IPI_mask_allbutself_def dest: foldR_post_frame intro!: bindR_cong)
next
  case (Send_IPI_allbutself v)
  then show ?thesis
    using assms
    by (auto simp: did_send_IPI_allbutself_def did_send_IPI_mask_allbutself_def
        dest: foldR_post_frame intro!: bindR_cong)
next
  case (Send_IPI_all v)
  then show ?thesis
    using assms
    by (auto simp: did_send_IPI_all_def did_send_IPI_mask_def
        dest: foldR_post_all_frame intro!: bindR_cong)
next
  case (Send_IPI_self v)
  then show ?thesis
    using assms by (auto simp: did_send_IPI_self_def dest: post_to_frame intro!: bindR_cong)
qed

lemma call_ipi_enough:
  assumes "saved_genuine s"
  shows "call_ipi (Suc (Suc n)) w f req s = call_ipi 2 w f req s"
proof -
  from assms obtain ops where ops: "ipi s = Some ops"
    and genuine: "\<And>req. \<exists>k. slot_of ops req = Kernel_fn k"
    by (rule saved_genuineE) blast
  show ?thesis
  proof (cases f)
    case Did_fn
    have "did_fn (\<lambda>req' s'. case ipi s' of None \<Rightarrow> Inl Null_deref
                   | Some ops \<Rightarrow> call_ipi (Suc n) w (slot_of ops req') req' s') w req s =
          did_fn (\<lambda>req' s'. case ipi s' of None \<Rightarrow> Inl Null_deref
                   | Some ops \<Rightarrow> call_ipi (Suc 0) w (slot_of ops req') req' s') w req s"
    proof (rule did_fn_cong)
      fix req' and t :: kernel
      assume "ipi t = ipi s"
      with ops genuine [of req'] show
        "(case ipi t of None \<Rightarrow> Inl Null_deref
            | Some ops \<Rightarrow> call_ipi (Suc n) w (slot_of ops req') req' t) =
         (case ipi t of None \<Rightarrow> Inl Null_deref
            | Some ops \<Rightarrow> call_ipi (Suc 0) w (slot_of ops req') req' t)"
        by auto
    qed
    with Did_fn show ?thesis by (simp add: numeral_2_eq_2)
  qed (simp_all add: numeral_2_eq_2)
qed

end
