(* ===== verification/Hook.thy ===== *)
theory Hook
  imports Prelude
begin

text \<open>
  The contract of a hook with one saved value: \<open>install\<close> saves the live value and puts the
  module's own in its place, \<open>restore\<close> writes the saved value back. The guest module has three
  (the timer handler, the clock factors, the interrupt functions of \<open>apic\<close>), each interpreted
  where it is modelled. \<open>ready\<close> is what the two operations need in order not to fault.
\<close>

locale saved_hook =
  fixes live :: "'s \<Rightarrow> 'v"
    and saved :: "'s \<Rightarrow> 'v"
    and ours :: "'s \<Rightarrow> 'v"
    and ready :: "'s \<Rightarrow> bool"
    and install :: "'s \<Rightarrow> 'e + 's"
    and restore :: "'s \<Rightarrow> 'e + 's"
  assumes install_law: "ready s \<Longrightarrow>
      \<exists>t. install s = Inr t \<and> ready t \<and> live t = ours s \<and> saved t = live s"
    and restore_law: "ready s \<Longrightarrow>
      \<exists>t. restore s = Inr t \<and> ready t \<and> live t = saved s \<and> saved t = saved s"
begin

lemma hook_roundtrip:
  assumes "ready s"
  shows "\<exists>t u. install s = Inr t \<and> restore t = Inr u \<and> ready u \<and> live t = ours s \<and> live u = live s"
proof -
  obtain t where t: "install s = Inr t" "ready t" "live t = ours s" "saved t = live s"
    using install_law [OF assms] by blast
  obtain u where "restore t = Inr u" "ready u" "live u = saved t"
    using restore_law [OF t(2)] by blast
  with t show ?thesis by auto
qed

lemma restore_idempotent:
  assumes "ready s"
  shows "\<exists>t u. restore s = Inr t \<and> restore t = Inr u \<and> live u = live t"
proof -
  obtain t where t: "restore s = Inr t" "ready t" "live t = saved s" "saved t = saved s"
    using restore_law [OF assms] by blast
  obtain u where "restore t = Inr u" "live u = saved t"
    using restore_law [OF t(2)] by blast
  with t show ?thesis by auto
qed

text \<open>The saved value is lost by a second \<open>install\<close>: \<open>restore\<close> then leaves the module's own.\<close>

lemma double_install_leaks:
  assumes "ready s"
  shows "\<exists>t u v. install s = Inr t \<and> install t = Inr u \<and> restore u = Inr v \<and>
           saved u = ours s \<and> live v = ours s"
proof -
  obtain t where t: "install s = Inr t" "ready t" "live t = ours s"
    using install_law [OF assms] by blast
  obtain u where u: "install t = Inr u" "ready u" "saved u = live t"
    using install_law [OF t(2)] by blast
  obtain v where "restore u = Inr v" "live v = saved u"
    using restore_law [OF u(2)] by blast
  with t u show ?thesis by auto
qed

end

end
