(* ===== verification/Did_Timer.thy ===== *)
theory Did_Timer
  imports Did_Ipi Hook
begin

text \<open>
  Timer interrupts and the hypercalls that set them up (\<open>did.c\<close>: the clock event handler hook, the
  clock factors, mapping and unmapping the posted-interrupt page, \<open>hc_setup_dtid\<close> and
  \<open>hc_restore_dtid\<close>). A C function returning \<open>bool\<close> or \<open>int\<close> returns the value with the state.
\<close>

abbreviation KVM_HC_SETUP_DTID :: nat where "KVM_HC_SETUP_DTID \<equiv> 100"
abbreviation KVM_HC_RESTORE_DTID :: nat where "KVM_HC_RESTORE_DTID \<equiv> 101"
abbreviation KVM_HC_MAP_PID :: nat where "KVM_HC_MAP_PID \<equiv> 200"
abbreviation KVM_HC_UNMAP_PID :: nat where "KVM_HC_UNMAP_PID \<equiv> 201"
abbreviation KVM_HC_PAGE_WALK :: nat where "KVM_HC_PAGE_WALK \<equiv> 202"
abbreviation KVM_HC_GET_CLOCKEVENT_MULT :: nat where "KVM_HC_GET_CLOCKEVENT_MULT \<equiv> 400"
abbreviation KVM_HC_GET_CLOCKEVENT_SHIFT :: nat where "KVM_HC_GET_CLOCKEVENT_SHIFT \<equiv> 401"

section \<open>The timer interrupt\<close>

definition pi_set_timer_interrupt :: "world \<Rightarrow> u64 \<Rightarrow> kernel \<Rightarrow> kernel kres" where
  "pi_set_timer_interrupt w p s = set_posted_interrupt (w_local_timer_vector w) p s"

definition bypass_early_timer_interrupt ::
  "world \<Rightarrow> int \<Rightarrow> int \<Rightarrow> kernel \<Rightarrow> (bool \<times> kernel) kres" where
  "bypass_early_timer_interrupt w cpu next_event s =
     (if dids s = None then Inr (False, s)
      else bindR (did_at s cpu) (\<lambda>d.
        if start d = 0 then Inr (False, s)
        else bindR (pi_set_timer_interrupt w (start d) s) (\<lambda>s.
          Inr (w_ktime w (events s) < next_event, record_event Ktime_get s))))"

text \<open>\<open>call h\<close> is the call through the function pointer \<open>h\<close>.\<close>

definition timer_interrupt_handler ::
  "(handler \<Rightarrow> kernel \<Rightarrow> kernel kres) \<Rightarrow> world \<Rightarrow> kernel \<Rightarrow> kernel kres" where
  "timer_interrupt_handler call w s =
     bindR (this_evt w s) (\<lambda>evt.
     bindR (bypass_early_timer_interrupt w (int (w_cpu w)) (ce_next_event evt) s) (\<lambda>(bypass, s).
       if bypass then Inr s
       else bindR (did_at s (int (w_cpu w))) (\<lambda>d. call (did_event_handler d) s)))"

fun call_handler :: "nat \<Rightarrow> world \<Rightarrow> handler \<Rightarrow> kernel \<Rightarrow> kernel kres" where
  "call_handler 0 w h s = Inl Stack_overflow"
| "call_handler (Suc fuel) w h s =
     (case h of
        Null_handler \<Rightarrow> Inl Null_deref
      | Kernel_handler k \<Rightarrow> Inr (record_event (Call_handler k) s)
      | Timer_interrupt_handler \<Rightarrow> timer_interrupt_handler (call_handler fuel w) w s)"

definition set_timer_event_handler :: "world \<Rightarrow> kernel \<Rightarrow> kernel kres" where
  "set_timer_event_handler w s =
     bindR (this_evt w s) (\<lambda>evt.
     bindR (did_update (int (w_cpu w)) (\<lambda>d. d\<lparr>did_event_handler := ce_event_handler evt\<rparr>) s) (\<lambda>s.
       evt_update w (\<lambda>e. e\<lparr>ce_event_handler := Timer_interrupt_handler\<rparr>) s))"

definition restore_timer_event_handler :: "world \<Rightarrow> kernel \<Rightarrow> kernel kres" where
  "restore_timer_event_handler w s =
     bindR (did_at s (int (w_cpu w))) (\<lambda>d.
       evt_update w (\<lambda>e. e\<lparr>ce_event_handler := did_event_handler d\<rparr>) s)"

section \<open>Mapping the posted-interrupt page\<close>

text \<open>\<open>(pid & ~0xFFF) | offset\<close>\<close>

definition pid_start :: "u64 \<Rightarrow> int \<Rightarrow> u64" where
  "pid_start p offset = or (and p (not 0xFFF)) (int_to_ulong offset)"

definition hc_map_posted_interrupt_descriptor :: "world \<Rightarrow> kernel \<Rightarrow> (bool \<times> kernel) kres" where
  "hc_map_posted_interrupt_descriptor w s =
     (let cpu = int (w_cpu w) in
      bindR (did_at s cpu) (\<lambda>d.
        let (r, s) = kvm_hypercall w KVM_HC_MAP_PID (w_virt_to_phys w (pid d)) s;
            offset = to_int r
        in if 0 \<le> offset
           then bindR (did_update cpu (\<lambda>d'. d'\<lparr>start := pid_start (pid d) offset\<rparr>) s) (\<lambda>s. Inr (True, s))
           else Inr (False, s)))"

definition hc_unmap_posted_interrupt_descriptor :: "world \<Rightarrow> kernel \<Rightarrow> (bool \<times> kernel) kres" where
  "hc_unmap_posted_interrupt_descriptor w s =
     (let cpu = int (w_cpu w) in
      bindR (did_at s cpu) (\<lambda>d.
        let (r, s) = kvm_hypercall w KVM_HC_UNMAP_PID (w_virt_to_phys w (pid d)) s;
            res = to_int r
        in if res \<noteq> 0
           then bindR (did_update cpu (\<lambda>d'. d'\<lparr>start := 0\<rparr>) s) (\<lambda>s. Inr (True, s))
           else Inr (False, s)))"

definition hc_page_walk :: "world \<Rightarrow> kernel \<Rightarrow> (bool \<times> kernel) kres" where
  "hc_page_walk w s =
     bindR (did_at s (int (w_cpu w))) (\<lambda>d.
       let (r, s) = kvm_hypercall w KVM_HC_PAGE_WALK (w_virt_to_phys w (pid d)) s
       in Inr (to_int r \<noteq> 0, s))"

section \<open>Clock factors\<close>

definition hc_get_clockevent_factor :: "world \<Rightarrow> string \<Rightarrow> kernel \<Rightarrow> u64 \<times> kernel" where
  "hc_get_clockevent_factor w query s =
     (if query = ''mult'' then kvm_hypercall w KVM_HC_GET_CLOCKEVENT_MULT 0 s
      else if query = ''shift'' then kvm_hypercall w KVM_HC_GET_CLOCKEVENT_SHIFT 0 s
      else (0, s))"

definition set_clockevent_factor :: "world \<Rightarrow> kernel \<Rightarrow> (int \<times> kernel) kres" where
  "set_clockevent_factor w s =
     (let (m, s) = hc_get_clockevent_factor w ''mult'' s;
          (h, s) = hc_get_clockevent_factor w ''shift'' s;
          mult = ucast m :: u32; shift = ucast h :: u32
      in if 0 < mult \<and> 0 < shift
         then bindR (this_evt w s) (\<lambda>evt.
              bindR (did_update (int (w_cpu w))
                       (\<lambda>d. d\<lparr>did_mult := ce_mult evt, did_shift := ce_shift evt\<rparr>) s) (\<lambda>s.
              bindR (evt_update w (\<lambda>e. e\<lparr>ce_mult := mult, ce_shift := shift\<rparr>) s) (\<lambda>s.
                Inr (0, s))))
         else Inr (- EAGAIN, s))"

definition restore_clockevent_factor :: "world \<Rightarrow> kernel \<Rightarrow> kernel kres" where
  "restore_clockevent_factor w s =
     bindR (did_at s (int (w_cpu w))) (\<lambda>d.
       evt_update w (\<lambda>e. e\<lparr>ce_mult := did_mult d, ce_shift := did_shift d\<rparr>) s)"

section \<open>Direct timer interrupt delivery\<close>

definition hc_setup_dtid :: "world \<Rightarrow> kernel \<Rightarrow> (int \<times> kernel) kres" where
  "hc_setup_dtid w s =
     (let cpu = int (w_cpu w) in
      bindR (did_at s cpu) (\<lambda>d0.
        let (r, s) = kvm_hypercall w KVM_HC_SETUP_DTID (w_virt_to_phys w (pid d0)) s;
            offset = to_int r
        in if 0 \<le> offset
           then bindR (set_clockevent_factor w s) (\<lambda>(ret, s).
                bindR (set_timer_event_handler w s) (\<lambda>s.
                bindR (did_update cpu (\<lambda>d. d\<lparr>start := pid_start (pid d0) offset\<rparr>) s) (\<lambda>s.
                bindR (did_at s cpu) (\<lambda>d.
                bindR (pi_set_timer_interrupt w (start d) s) (\<lambda>s.
                  Inr (ret, record_event (Apic_write_TMICT 0x616d) s))))))
           else Inr (- EAGAIN, s)))"

definition hc_restore_dtid :: "world \<Rightarrow> kernel \<Rightarrow> (bool \<times> kernel) kres" where
  "hc_restore_dtid w s =
     (let cpu = int (w_cpu w) in
      bindR (did_at s cpu) (\<lambda>d0.
        let (r, s) = kvm_hypercall w KVM_HC_RESTORE_DTID (w_virt_to_phys w (pid d0)) s
        in if to_int r \<noteq> 0
           then bindR (restore_clockevent_factor w s) (\<lambda>s.
                bindR (restore_timer_event_handler w s) (\<lambda>s.
                bindR (did_update cpu (\<lambda>d. d\<lparr>start := 0\<rparr>) (record_event (Apic_write_TMICT 0x616d) s))
                  (\<lambda>s. Inr (True, s))))
           else Inr (False, s)))"

section \<open>Lemmas\<close>

text \<open>A mapping offset inside the page stays inside the page.\<close>

lemma pid_start_page:
  assumes "and p 0xFFF = 0" and "0 \<le> offset" and "offset < 4096"
  shows "unat (pid_start p offset) = unat p + nat offset"
  using low_bits_or [OF assms] by (simp add: pid_start_def int_to_ulong_def)

lemma did_ready_record_event [simp]: "did_ready w (record_event e s) = did_ready w s"
  by (simp add: did_ready_def)

text \<open>In a ready state the accesses of the current cpu never fault, and updates keep it ready.\<close>

lemma ready_did_update:
  assumes "did_ready w s"
  shows "\<exists>t. did_update (int (w_cpu w)) f s = Inr t \<and> did_ready w t \<and>
     slot t (w_cpu w) = f (slot s (w_cpu w)) \<and> (\<forall>i. i \<noteq> w_cpu w \<longrightarrow> slot t i = slot s i) \<and>
     lapic t = lapic s \<and> ipi t = ipi s \<and> events t = events s \<and> pir t = pir s \<and>
     lapic_events t = lapic_events s"
  using assms by (auto simp: did_ready_def did_wf_def did_update_nth)

lemma ready_evt_update:
  assumes "did_ready w s"
  shows "\<exists>t. evt_update w f s = Inr t \<and> did_ready w t \<and> dids t = dids s \<and>
     lapic t = (lapic s)(w_cpu w := f (lapic s (w_cpu w)))"
  using assms by (auto simp: did_ready_def did_wf_def evt_update_ready)

subsection \<open>The hooks\<close>

lemma set_timer_ready:
  assumes "did_ready w s"
  shows "set_timer_event_handler w s =
    Inr (s\<lparr>dids := Some ((the (dids s))[w_cpu w :=
             (slot s (w_cpu w))\<lparr>did_event_handler := ce_event_handler (lapic s (w_cpu w))\<rparr>]),
           lapic := (lapic s)(w_cpu w :=
             (lapic s (w_cpu w))\<lparr>ce_event_handler := Timer_interrupt_handler\<rparr>)\<rparr>)"
  using assms
  by (auto simp: set_timer_event_handler_def did_ready_def did_wf_def this_evt_def did_update_nth
      evt_update_ready)

lemma restore_timer_ready:
  assumes "did_ready w s"
  shows "restore_timer_event_handler w s =
    Inr (s\<lparr>lapic := (lapic s)(w_cpu w :=
             (lapic s (w_cpu w))\<lparr>ce_event_handler := did_event_handler (slot s (w_cpu w))\<rparr>)\<rparr>)"
  using assms
  by (auto simp: restore_timer_event_handler_def did_ready_def did_wf_def did_at_nth evt_update_ready)

lemma restore_factor_ready:
  assumes "did_ready w s"
  shows "restore_clockevent_factor w s =
    Inr (s\<lparr>lapic := (lapic s)(w_cpu w :=
             (lapic s (w_cpu w))\<lparr>ce_mult := did_mult (slot s (w_cpu w)),
                                 ce_shift := did_shift (slot s (w_cpu w))\<rparr>)\<rparr>)"
  using assms
  by (auto simp: restore_clockevent_factor_def did_ready_def did_wf_def did_at_nth evt_update_ready)

text \<open>The two factors the hypervisor would answer in state \<open>s\<close>.\<close>

definition hc_factors :: "world \<Rightarrow> kernel \<Rightarrow> u32 \<times> u32" where
  "hc_factors w s =
     (let (m, s) = hc_get_clockevent_factor w ''mult'' s;
          (h, s) = hc_get_clockevent_factor w ''shift'' s
      in (ucast m, ucast h))"

definition factors_available :: "world \<Rightarrow> kernel \<Rightarrow> bool" where
  "factors_available w s \<longleftrightarrow> 0 < fst (hc_factors w s) \<and> 0 < snd (hc_factors w s)"

definition after_factor_calls :: "kernel \<Rightarrow> kernel" where
  "after_factor_calls s = record_event (Hypercall KVM_HC_GET_CLOCKEVENT_SHIFT 0)
     (record_event (Hypercall KVM_HC_GET_CLOCKEVENT_MULT 0) s)"

lemma after_factor_calls_simps [simp]:
  "did_ready w (after_factor_calls s) = did_ready w s" "dids (after_factor_calls s) = dids s"
  "lapic (after_factor_calls s) = lapic s" "pir (after_factor_calls s) = pir s"
  "lapic_events (after_factor_calls s) = lapic_events s" "ipi (after_factor_calls s) = ipi s"
  "ncpus (after_factor_calls s) = ncpus s" "apic (after_factor_calls s) = apic s"
  by (simp_all add: after_factor_calls_def)

lemma set_factor_unavailable:
  assumes "\<not> factors_available w s"
  shows "set_clockevent_factor w s = Inr (- EAGAIN, after_factor_calls s)"
  using assms
  by (auto simp: set_clockevent_factor_def factors_available_def hc_factors_def
      hc_get_clockevent_factor_def kvm_hypercall_def after_factor_calls_def)

lemma set_factor_ready:
  assumes "did_ready w s" and "factors_available w s"
  shows "set_clockevent_factor w s =
    Inr (0, (after_factor_calls s)\<lparr>dids := Some ((the (dids s))[w_cpu w :=
             (slot s (w_cpu w))\<lparr>did_mult := ce_mult (lapic s (w_cpu w)),
                                did_shift := ce_shift (lapic s (w_cpu w))\<rparr>]),
           lapic := (lapic s)(w_cpu w :=
             (lapic s (w_cpu w))\<lparr>ce_mult := fst (hc_factors w s), ce_shift := snd (hc_factors w s)\<rparr>)\<rparr>)"
proof -
  from assms(1) obtain ds where ds: "dids s = Some ds" "w_cpu w < length ds" "lapic_events s \<noteq> 0"
    by (auto simp: did_ready_def did_wf_def)
  show ?thesis
    using assms(2) ds
    by (simp add: set_clockevent_factor_def factors_available_def hc_factors_def
        hc_get_clockevent_factor_def kvm_hypercall_def after_factor_calls_def this_evt_def
        did_update_nth evt_update_ready Let_def)
qed

end
