(* ===== verification/Did_Module.thy ===== *)
theory Did_Module
  imports Did_Timer
begin

text \<open>
  The module as the guest sees it: allocation and release of its pages, the x2APIC id commands,
  the page walk, the ioctl dispatcher of \<open>/dev/did\<close> with the command codes of \<open>did.h\<close>, and
  \<open>my_init\<close> and \<open>my_exit\<close>. Printing to the kernel log is left out; a print that reads the state
  through a pointer keeps the read, since that is where it can fault.
\<close>

section \<open>Pages\<close>

definition zero_slot :: did_slot where
  "zero_slot = \<lparr>pid = 0, start = 0, did_mult = 0, did_shift = 0, did_event_handler = Null_handler\<rparr>"

definition zero_ops :: apic_ops where
  "zero_ops = \<lparr>op_send_IPI = Null_fn, op_send_IPI_mask = Null_fn,
     op_send_IPI_mask_allbutself = Null_fn, op_send_IPI_allbutself = Null_fn,
     op_send_IPI_all = Null_fn, op_send_IPI_self = Null_fn\<rparr>"

text \<open>One turn of the loop that gives every slot a page.\<close>

definition alloc_page :: "world \<Rightarrow> nat \<Rightarrow> bool \<times> kernel \<Rightarrow> bool \<times> kernel" where
  "alloc_page w i = (\<lambda>(ret, s).
     let page = w_alloc w (events s); s = record_event Kmalloc_page s
     in if page \<noteq> 0
        then (ret, s\<lparr>dids := map_option (\<lambda>ds. ds[i := (ds ! i)\<lparr>pid := page\<rparr>]) (dids s)\<rparr>)
        else (False, s))"

definition allocate :: "world \<Rightarrow> kernel \<Rightarrow> bool \<times> kernel" where
  "allocate w s =
     (let a = w_alloc w (events s);
          s = record_event (Kcalloc_dids (ncpus s)) s;
          (ret, s) =
            (if a \<noteq> 0
             then fold (alloc_page w) [0..<ncpus s]
                    (True, s\<lparr>dids := Some (replicate (ncpus s) zero_slot)\<rparr>)
             else (False, s\<lparr>dids := None\<rparr>));
          b = w_alloc w (events s);
          s = record_event Kzalloc_ipi s
      in if b = 0 then (False, s\<lparr>ipi := None\<rparr>) else (ret, s\<lparr>ipi := Some zero_ops\<rparr>))"

definition touch_one :: "nat \<Rightarrow> kernel \<Rightarrow> kernel kres" where
  "touch_one i s =
     bindR (did_at s (int i)) (\<lambda>d.
       if pid d \<noteq> 0
       then Inr (record_event (Read_byte (pid d + of_nat PAGE_SIZE - 1)) (record_event (Read_byte (pid d)) s))
       else Inr s)"

definition touch_page :: "kernel \<Rightarrow> kernel kres" where
  "touch_page s = (if dids s \<noteq> None then foldR touch_one [0..<ncpus s] s else Inr s)"

definition free_one :: "nat \<Rightarrow> kernel \<Rightarrow> kernel kres" where
  "free_one i s =
     bindR (did_at s (int i)) (\<lambda>d.
       did_update (int i) (\<lambda>_. zero_slot) (record_event (Kfree_page (pid d)) s))"

definition deallocate :: "kernel \<Rightarrow> kernel kres" where
  "deallocate s =
     bindR (if dids s \<noteq> None
            then bindR (foldR free_one [0..<ncpus s] s) (\<lambda>s.
                   Inr ((record_event Kfree_dids s)\<lparr>dids := None\<rparr>))
            else Inr s) (\<lambda>s.
       Inr (if ipi s \<noteq> None then (record_event Kfree_ipi s)\<lparr>ipi := None\<rparr> else s))"

definition print_did :: "kernel \<Rightarrow> kernel kres" where
  "print_did s = foldR (\<lambda>i s. bindR (did_at s (int i)) (\<lambda>_. Inr s)) [0..<ncpus s] s"

section \<open>x2APIC ids\<close>

abbreviation set_apicid :: "world \<Rightarrow> u16 \<Rightarrow> kernel \<Rightarrow> kernel" where
  "set_apicid w x s \<equiv> s\<lparr>x86_cpu_to_apicid := (x86_cpu_to_apicid s)(w_cpu w := x)\<rparr>"

definition set_x2apic_id :: "world \<Rightarrow> kernel \<Rightarrow> kernel" where
  "set_x2apic_id w s = set_apicid w (word_of_int (w_rdmsr_apic_id w (w_cpu w))) s"

definition restore_x2apic_id :: "world \<Rightarrow> kernel \<Rightarrow> kernel" where
  "restore_x2apic_id w s = set_apicid w (of_nat (w_cpu w)) s"

definition set_x2apic_id2 :: "world \<Rightarrow> u64 \<Rightarrow> kernel \<Rightarrow> kernel" where
  "set_x2apic_id2 w apicid s = set_apicid w (ucast apicid) s"

definition kvm_hypercall0 :: "world \<Rightarrow> nat \<Rightarrow> kernel \<Rightarrow> kernel" where
  "kvm_hypercall0 w nr s = snd (kvm_hypercall w nr 0 s)"

definition hc_set_x2apic_id :: "world \<Rightarrow> kernel \<Rightarrow> kernel" where
  "hc_set_x2apic_id w s = set_x2apic_id w (kvm_hypercall0 w 300 s)"

definition hc_restore_x2apic_id :: "world \<Rightarrow> kernel \<Rightarrow> kernel" where
  "hc_restore_x2apic_id w s = restore_x2apic_id w (kvm_hypercall0 w 301 s)"

definition hypercall_disable_intercept_wrmsr_icr :: "world \<Rightarrow> kernel \<Rightarrow> kernel" where
  "hypercall_disable_intercept_wrmsr_icr w s = kvm_hypercall0 w 302 s"

definition hypercall_enable_intercept_wrmsr_icr :: "world \<Rightarrow> kernel \<Rightarrow> kernel" where
  "hypercall_enable_intercept_wrmsr_icr w s = kvm_hypercall0 w 303 s"

definition hc_set_cpu_exec_vmcs :: "world \<Rightarrow> kernel \<Rightarrow> kernel" where
  "hc_set_cpu_exec_vmcs w s = kvm_hypercall0 w 304 s"

definition hc_restore_cpu_exec_vmcs :: "world \<Rightarrow> kernel \<Rightarrow> kernel" where
  "hc_restore_cpu_exec_vmcs w s = kvm_hypercall0 w 305 s"

section \<open>The page walk\<close>

text \<open>
  The four levels; \<open>None\<close> is the null pointer returned when an entry on the way is empty. Reading
  \<open>mm->pgd\<close> faults when \<open>mm\<close> is null.
\<close>

definition page_walk :: "world \<Rightarrow> u64 \<Rightarrow> u64 \<Rightarrow> u64 option kres" where
  "page_walk w mm addr =
     (if mm = 0 then Inl Null_deref
      else let pgd = w_pgd_offset w mm addr in
        if w_entry_none w pgd then Inr None
        else let pud = w_pud_offset w pgd addr in
          if w_entry_none w pud then Inr None
          else let pmd = w_pmd_offset w pud addr in
            if w_entry_none w pmd then Inr None
            else let pte = w_pte_offset w pmd addr in
              if w_entry_none w pte then Inr None
              else Inr (Some pte))"

section \<open>The device\<close>

text \<open>
  The commands of \<open>did.h\<close>. The encoding of \<open>linux/ioctl.h\<close> puts the direction at bit 30, the size at
  bit 16, the type at bit 8 and the number at bit 0; the numbers of \<open>did.h\<close> are wider than their
  eight bits and run into the type.
\<close>

datatype ioctl_cmd =
    HC_MAP_PID | HC_UNMAP_PID | HC_PAGE_WALK | HC_SETUP_DTID | HC_RESTORE_DTID
  | HC_SET_X2APIC_ID | HC_RESTORE_X2APIC_ID
  | HC_DISABLE_INTERCEPT_WRMSR_ICR | HC_ENABLE_INTERCEPT_WRMSR_ICR
  | HC_GET_CLOCKEVENT_MULT | HC_GET_CLOCKEVENT_SHIFT
  | HC_SET_CPU_EXEC_VMCS | HC_RESTORE_CPU_EXEC_VMCS
  | SET_TIMER_EVENT_HANDLER | RESTORE_TIMER_EVENT_HANDLER | PRINT_DID
  | SET_CLOCKEVENT_FACTOR | RESTORE_CLOCKEVENT_FACTOR
  | SET_APIC_IPI | RESTORE_APIC_IPI | GET_X2APIC_ID | SET_X2APIC_ID | SET_X2APIC_ID2
  | RESTORE_X2APIC_ID | SEND_IPI | PAGE_WALK_INIT_MM

definition all_ioctl_cmds :: "ioctl_cmd list" where
  "all_ioctl_cmds =
     [SET_TIMER_EVENT_HANDLER, RESTORE_TIMER_EVENT_HANDLER, PRINT_DID, SET_CLOCKEVENT_FACTOR,
      RESTORE_CLOCKEVENT_FACTOR, SET_APIC_IPI, RESTORE_APIC_IPI, GET_X2APIC_ID, SET_X2APIC_ID,
      RESTORE_X2APIC_ID, SET_X2APIC_ID2, SEND_IPI, HC_SET_CPU_EXEC_VMCS, HC_RESTORE_CPU_EXEC_VMCS,
      HC_GET_CLOCKEVENT_MULT, HC_GET_CLOCKEVENT_SHIFT, HC_MAP_PID, HC_UNMAP_PID, HC_PAGE_WALK,
      HC_SETUP_DTID, HC_RESTORE_DTID, HC_SET_X2APIC_ID, HC_RESTORE_X2APIC_ID,
      HC_DISABLE_INTERCEPT_WRMSR_ICR, HC_ENABLE_INTERCEPT_WRMSR_ICR, PAGE_WALK_INIT_MM]"

definition IO_k :: "nat \<Rightarrow> nat" where
  "IO_k nr = or 0x6b00 nr"

definition IOW_k :: "nat \<Rightarrow> nat \<Rightarrow> nat" where
  "IOW_k nr sz = or (or (or 0x40000000 (sz * 0x10000)) 0x6b00) nr"

fun ioctl_code :: "ioctl_cmd \<Rightarrow> nat" where
  "ioctl_code HC_MAP_PID = IO_k 1000"
| "ioctl_code HC_UNMAP_PID = IO_k 1001"
| "ioctl_code HC_PAGE_WALK = IO_k 1002"
| "ioctl_code HC_SETUP_DTID = IO_k 1003"
| "ioctl_code HC_RESTORE_DTID = IO_k 1004"
| "ioctl_code HC_SET_X2APIC_ID = IO_k 1005"
| "ioctl_code HC_RESTORE_X2APIC_ID = IO_k 1006"
| "ioctl_code HC_DISABLE_INTERCEPT_WRMSR_ICR = IO_k 1007"
| "ioctl_code HC_ENABLE_INTERCEPT_WRMSR_ICR = IO_k 1008"
| "ioctl_code HC_GET_CLOCKEVENT_MULT = IO_k 1009"
| "ioctl_code HC_GET_CLOCKEVENT_SHIFT = IO_k 1010"
| "ioctl_code HC_SET_CPU_EXEC_VMCS = IO_k 1011"
| "ioctl_code HC_RESTORE_CPU_EXEC_VMCS = IO_k 1012"
| "ioctl_code SET_TIMER_EVENT_HANDLER = IO_k 2000"
| "ioctl_code RESTORE_TIMER_EVENT_HANDLER = IO_k 2001"
| "ioctl_code PRINT_DID = IO_k 2002"
| "ioctl_code SET_CLOCKEVENT_FACTOR = IO_k 2003"
| "ioctl_code RESTORE_CLOCKEVENT_FACTOR = IO_k 2004"
| "ioctl_code SET_APIC_IPI = IO_k 3000"
| "ioctl_code RESTORE_APIC_IPI = IO_k 3001"
| "ioctl_code GET_X2APIC_ID = IO_k 3002"
| "ioctl_code SET_X2APIC_ID = IO_k 3003"
| "ioctl_code SET_X2APIC_ID2 = IO_k 3004"
| "ioctl_code RESTORE_X2APIC_ID = IO_k 3005"
| "ioctl_code SEND_IPI = IOW_k 3006 8"
| "ioctl_code PAGE_WALK_INIT_MM = IO_k 4000"

text \<open>\<open>ret = -EAGAIN\<close> unless the callee returned true.\<close>

definition again_unless :: "(bool \<times> kernel) kres \<Rightarrow> (int \<times> kernel) kres" where
  "again_unless m = bindR m (\<lambda>(ok, s). Inr (if ok then 0 else - EAGAIN, s))"

abbreviation ok0 :: "kernel kres \<Rightarrow> (int \<times> kernel) kres" where
  "ok0 m \<equiv> bindR m (\<lambda>s. Inr (0, s))"

text \<open>The body of each case of the switch.\<close>

fun ioctl_body :: "nat \<Rightarrow> world \<Rightarrow> ioctl_cmd \<Rightarrow> u64 \<Rightarrow> kernel \<Rightarrow> (int \<times> kernel) kres" where
  "ioctl_body fuel w SET_TIMER_EVENT_HANDLER arg s = ok0 (set_timer_event_handler w s)"
| "ioctl_body fuel w RESTORE_TIMER_EVENT_HANDLER arg s = ok0 (restore_timer_event_handler w s)"
| "ioctl_body fuel w PRINT_DID arg s = ok0 (print_did s)"
| "ioctl_body fuel w SET_CLOCKEVENT_FACTOR arg s = set_clockevent_factor w s"
| "ioctl_body fuel w RESTORE_CLOCKEVENT_FACTOR arg s = ok0 (restore_clockevent_factor w s)"
| "ioctl_body fuel w SET_APIC_IPI arg s = ok0 (set_apic_ipi s)"
| "ioctl_body fuel w RESTORE_APIC_IPI arg s = ok0 (restore_apic_ipi s)"
| "ioctl_body fuel w GET_X2APIC_ID arg s = Inr (0, s)"
| "ioctl_body fuel w SET_X2APIC_ID arg s = Inr (0, set_x2apic_id w s)"
| "ioctl_body fuel w RESTORE_X2APIC_ID arg s = Inr (0, restore_x2apic_id w s)"
| "ioctl_body fuel w SET_X2APIC_ID2 arg s = Inr (0, set_x2apic_id2 w arg s)"
| "ioctl_body fuel w SEND_IPI arg s = bindR (send_ipi fuel w arg s) (\<lambda>(_, s). Inr (0, s))"
| "ioctl_body fuel w HC_SET_CPU_EXEC_VMCS arg s = Inr (0, hc_set_cpu_exec_vmcs w s)"
| "ioctl_body fuel w HC_RESTORE_CPU_EXEC_VMCS arg s = Inr (0, hc_restore_cpu_exec_vmcs w s)"
| "ioctl_body fuel w HC_GET_CLOCKEVENT_MULT arg s =
     Inr (0, snd (hc_get_clockevent_factor w ''mult'' s))"
| "ioctl_body fuel w HC_GET_CLOCKEVENT_SHIFT arg s =
     Inr (0, snd (hc_get_clockevent_factor w ''shift'' s))"
| "ioctl_body fuel w HC_MAP_PID arg s = again_unless (hc_map_posted_interrupt_descriptor w s)"
| "ioctl_body fuel w HC_UNMAP_PID arg s = again_unless (hc_unmap_posted_interrupt_descriptor w s)"
| "ioctl_body fuel w HC_PAGE_WALK arg s = again_unless (hc_page_walk w s)"
| "ioctl_body fuel w HC_SETUP_DTID arg s = hc_setup_dtid w s"
| "ioctl_body fuel w HC_RESTORE_DTID arg s = again_unless (hc_restore_dtid w s)"
| "ioctl_body fuel w HC_SET_X2APIC_ID arg s = Inr (0, hc_set_x2apic_id w s)"
| "ioctl_body fuel w HC_RESTORE_X2APIC_ID arg s = Inr (0, hc_restore_x2apic_id w s)"
| "ioctl_body fuel w HC_DISABLE_INTERCEPT_WRMSR_ICR arg s =
     Inr (0, hypercall_disable_intercept_wrmsr_icr w s)"
| "ioctl_body fuel w HC_ENABLE_INTERCEPT_WRMSR_ICR arg s =
     Inr (0, hypercall_enable_intercept_wrmsr_icr w s)"
| "ioctl_body fuel w PAGE_WALK_INIT_MM arg s =
     bindR (page_walk w (w_kallsyms w ''init_mm'') (w_kallsyms w ''apic_x2apic_phys'')) (\<lambda>_.
     bindR (page_walk w (w_kallsyms w ''init_mm'') (w_kallsyms w ''apic'')) (\<lambda>_.
       Inr (0, s)))"

definition my_ioctl :: "nat \<Rightarrow> world \<Rightarrow> nat \<Rightarrow> u64 \<Rightarrow> kernel \<Rightarrow> (int \<times> kernel) kres" where
  "my_ioctl fuel w cmd arg s =
     (case find (\<lambda>c. ioctl_code c = cmd) all_ioctl_cmds of
        None \<Rightarrow> Inr (- EINVAL, s)
      | Some c \<Rightarrow> ioctl_body fuel w c arg s)"

definition my_init :: "world \<Rightarrow> kernel \<Rightarrow> (int \<times> kernel) kres" where
  "my_init w s =
     (let ret = w_misc_register w; s = record_event Misc_register s
      in if 0 \<le> ret
         then let s = s\<lparr>lapic_events := w_kallsyms w ''lapic_events'', ncpus := length (w_online w)\<rparr>
              in bindR (touch_page (snd (allocate w s))) (\<lambda>s. Inr (ret, s))
         else Inr (ret, s))"

definition my_exit :: "kernel \<Rightarrow> kernel kres" where
  "my_exit s = bindR (deallocate s) (\<lambda>s. Inr (record_event Misc_deregister s))"

section \<open>Lemmas\<close>

subsection \<open>The command codes\<close>

lemma all_ioctl_cmds_complete: "c \<in> set all_ioctl_cmds"
  by (cases c) (simp_all add: all_ioctl_cmds_def)

lemma ioctl_codes_distinct: "distinct (map ioctl_code all_ioctl_cmds)"
  by (simp add: all_ioctl_cmds_def IO_k_def IOW_k_def)

lemma ioctl_code_inj: "ioctl_code c = ioctl_code d \<longleftrightarrow> c = d"
  using ioctl_codes_distinct all_ioctl_cmds_complete [of c] all_ioctl_cmds_complete [of d]
  by (auto simp: distinct_map dest: inj_onD)

lemma my_ioctl_code: "my_ioctl fuel w (ioctl_code c) arg s = ioctl_body fuel w c arg s"
proof -
  have "find (\<lambda>d. ioctl_code d = ioctl_code c) xs = (if c \<in> set xs then Some c else None)" for xs
    by (induction xs) (auto simp: ioctl_code_inj)
  then show ?thesis by (simp add: my_ioctl_def all_ioctl_cmds_complete)
qed

lemma my_ioctl_unknown:
  assumes "\<And>c. cmd \<noteq> ioctl_code c"
  shows "my_ioctl fuel w cmd arg s = Inr (- EINVAL, s)"
proof -
  have "find (\<lambda>c. ioctl_code c = cmd) all_ioctl_cmds = None"
    using assms [THEN not_sym] by (simp add: find_None_iff)
  then show ?thesis by (simp add: my_ioctl_def)
qed

end
