(* ===== verification/Did_Frame.thy ===== *)
theory Did_Frame
  imports Did_Module
begin

text \<open>
  What no command of the device touches: the pages of the slots, their number, and the pages
  already given back. Every operation is shown to keep them, then every ioctl and every sequence
  of ioctls; allocation and release are the only operations that do not.
\<close>

named_theorems keeps_intros

text \<open>The page addresses given to \<open>kfree\<close> so far.\<close>

definition freed :: "kernel \<Rightarrow> u64 list" where
  "freed s = concat (map (\<lambda>e. case e of Kfree_page p \<Rightarrow> [p] | _ \<Rightarrow> []) (events s))"

text \<open>
  The calls of the allocator in the log, each with the answer that world \<open>w\<close> gave at that point of
  the log (the answer of a call that only frees is not used).
\<close>

fun is_mem :: "event \<Rightarrow> bool" where
  "is_mem (Kcalloc_dids n) = True"
| "is_mem Kmalloc_page = True"
| "is_mem Kzalloc_ipi = True"
| "is_mem (Kfree_page p) = True"
| "is_mem Kfree_dids = True"
| "is_mem Kfree_ipi = True"
| "is_mem e = False"

definition mem_log :: "world \<Rightarrow> kernel \<Rightarrow> (event \<times> u64) list" where
  "mem_log w s = map (\<lambda>i. (events s ! i, w_alloc w (take i (events s))))
     (filter (\<lambda>i. is_mem (events s ! i)) [0..<length (events s)])"

text \<open>What the allocator answered to the calls of one kind, and how often one call was made.\<close>

definition answers :: "(event \<Rightarrow> bool) \<Rightarrow> world \<Rightarrow> kernel \<Rightarrow> u64 list" where
  "answers k w s = map snd (filter (\<lambda>(e, a). k e) (mem_log w s))"

fun is_calloc :: "event \<Rightarrow> bool" where
  "is_calloc (Kcalloc_dids n) = True"
| "is_calloc e = False"

abbreviation granted :: "(event \<Rightarrow> bool) \<Rightarrow> world \<Rightarrow> kernel \<Rightarrow> nat" where
  "granted k w s \<equiv> length (filter (\<lambda>a. a \<noteq> 0) (answers k w s))"

abbreviation pages_given :: "world \<Rightarrow> kernel \<Rightarrow> u64 list" where
  "pages_given \<equiv> answers (\<lambda>e. e = Kmalloc_page)"

definition calls :: "event \<Rightarrow> kernel \<Rightarrow> nat" where
  "calls k s = count_list (events s) k"

definition keeps_pages :: "kernel \<Rightarrow> kernel \<Rightarrow> bool" where
  "keeps_pages s t \<longleftrightarrow>
     map_option (map pid) (dids t) = map_option (map pid) (dids s) \<and> ncpus t = ncpus s \<and>
     (ipi t = None \<longleftrightarrow> ipi s = None) \<and> freed t = freed s \<and> (\<forall>w. mem_log w t = mem_log w s) \<and>
     (\<forall>k. is_mem k \<longrightarrow> calls k t = calls k s)"

lemma keeps_pages_refl [simp]: "keeps_pages s s"
  by (simp add: keeps_pages_def)

lemma keeps_pages_trans: "keeps_pages s t \<Longrightarrow> keeps_pages t u \<Longrightarrow> keeps_pages s u"
  by (simp add: keeps_pages_def)

lemma keeps_pages_wf: "keeps_pages s t \<Longrightarrow> did_wf s \<Longrightarrow> did_wf t"
  by (cases "dids s"; cases "dids t") (auto simp: keeps_pages_def did_wf_def dest: arg_cong [of _ _ length])

lemma freed_update [simp]:
  "freed (s\<lparr>dids := x\<rparr>) = freed s" "freed (s\<lparr>lapic := l\<rparr>) = freed s" "freed (s\<lparr>pir := p\<rparr>) = freed s"
  "freed (s\<lparr>apic := a\<rparr>) = freed s" "freed (s\<lparr>ipi := i\<rparr>) = freed s" "freed (s\<lparr>cr0 := c\<rparr>) = freed s"
  "freed (s\<lparr>irqs_enabled := b\<rparr>) = freed s" "freed (s\<lparr>x86_cpu_to_apicid := m\<rparr>) = freed s"
  "freed (s\<lparr>lapic_events := e\<rparr>) = freed s" "freed (s\<lparr>ncpus := n\<rparr>) = freed s"
  by (simp_all add: freed_def)

lemma mem_log_events: "events t = events s \<Longrightarrow> mem_log w t = mem_log w s"
  by (simp add: mem_log_def)

lemma calls_events: "events t = events s \<Longrightarrow> calls k t = calls k s"
  by (simp add: calls_def)

lemma log_update [simp]:
  "mem_log w (s\<lparr>dids := x\<rparr>) = mem_log w s" "mem_log w (s\<lparr>lapic := l\<rparr>) = mem_log w s"
  "mem_log w (s\<lparr>pir := p\<rparr>) = mem_log w s" "mem_log w (s\<lparr>apic := a\<rparr>) = mem_log w s"
  "mem_log w (s\<lparr>ipi := i\<rparr>) = mem_log w s" "mem_log w (s\<lparr>cr0 := c\<rparr>) = mem_log w s"
  "mem_log w (s\<lparr>irqs_enabled := b\<rparr>) = mem_log w s" "mem_log w (s\<lparr>x86_cpu_to_apicid := m\<rparr>) = mem_log w s"
  "mem_log w (s\<lparr>lapic_events := e\<rparr>) = mem_log w s" "mem_log w (s\<lparr>ncpus := n\<rparr>) = mem_log w s"
  "calls k (s\<lparr>dids := x\<rparr>) = calls k s" "calls k (s\<lparr>lapic := l\<rparr>) = calls k s"
  "calls k (s\<lparr>pir := p\<rparr>) = calls k s" "calls k (s\<lparr>apic := a\<rparr>) = calls k s"
  "calls k (s\<lparr>ipi := i\<rparr>) = calls k s" "calls k (s\<lparr>cr0 := c\<rparr>) = calls k s"
  "calls k (s\<lparr>irqs_enabled := b\<rparr>) = calls k s" "calls k (s\<lparr>x86_cpu_to_apicid := m\<rparr>) = calls k s"
  "calls k (s\<lparr>lapic_events := e\<rparr>) = calls k s" "calls k (s\<lparr>ncpus := n\<rparr>) = calls k s"
  by (simp_all add: mem_log_def calls_def)

lemma mem_log_record_event:
  "mem_log w (record_event e s) = mem_log w s @ (if is_mem e then [(e, w_alloc w (events s))] else [])"
proof -
  let ?n = "length (events s)"
  have "filter (\<lambda>i. is_mem ((events s @ [e]) ! i)) [0..<?n] = filter (\<lambda>i. is_mem (events s ! i)) [0..<?n]"
    by (rule filter_cong) (auto simp: nth_append)
  moreover have "map (\<lambda>i. ((events s @ [e]) ! i, w_alloc w (take i (events s @ [e]))))
      (filter (\<lambda>i. is_mem (events s ! i)) [0..<?n]) = mem_log w s"
    unfolding mem_log_def by (rule map_cong) (auto simp: nth_append)
  ultimately show ?thesis by (simp add: mem_log_def record_event_def)
qed

lemma answers_record_event:
  "answers k w (record_event e s) =
     answers k w s @ (if is_mem e \<and> k e then [w_alloc w (events s)] else [])"
  by (auto simp: answers_def mem_log_record_event)

lemma calls_record_event: "calls k (record_event e s) = calls k s + (if e = k then 1 else 0)"
  by (simp add: calls_def record_event_def)

lemma freed_record_event:
  "freed (record_event e s) = freed s @ (case e of Kfree_page p \<Rightarrow> [p] | _ \<Rightarrow> [])"
  by (simp add: freed_def)

lemma freed_record_event_other [simp]:
  "(\<And>p. e \<noteq> Kfree_page p) \<Longrightarrow> freed (record_event e s) = freed s"
  by (simp add: freed_record_event split: event.splits)

lemma keeps_record_event [simp]:
  "\<not> is_mem e \<Longrightarrow> keeps_pages s (record_event e t) = keeps_pages s t"
proof -
  assume e: "\<not> is_mem e"
  then have f: "freed (record_event e t) = freed t"
    by (intro freed_record_event_other) auto
  have "is_mem k \<longrightarrow> calls k (record_event e t) = calls k t" for k
    using e by (auto simp: calls_record_event)
  then show ?thesis
    using e f by (simp add: keeps_pages_def mem_log_record_event cong: imp_cong)
qed

lemma keeps_field_update [simp]:
  "keeps_pages s (t\<lparr>lapic := l\<rparr>) = keeps_pages s t" "keeps_pages s (t\<lparr>pir := p\<rparr>) = keeps_pages s t"
  "keeps_pages s (t\<lparr>apic := a\<rparr>) = keeps_pages s t" "keeps_pages s (t\<lparr>cr0 := c\<rparr>) = keeps_pages s t"
  "keeps_pages s (t\<lparr>irqs_enabled := b\<rparr>) = keeps_pages s t"
  "keeps_pages s (t\<lparr>x86_cpu_to_apicid := m\<rparr>) = keeps_pages s t"
  by (simp_all add: keeps_pages_def)

section \<open>The operations\<close>

lemma keeps_did_update:
  assumes "did_update cpu f s = Inr t" and "\<And>d. pid (f d) = pid d"
  shows "keeps_pages s t"
proof -
  obtain ds where ds: "dids s = Some ds" and i: "nat cpu < length ds"
    and t: "t = s\<lparr>dids := Some (ds[nat cpu := f (ds ! nat cpu)])\<rparr>"
    by (rule did_update_InrE [OF assms(1)])
  have "map pid (ds[nat cpu := f (ds ! nat cpu)]) = map pid ds"
    using i assms(2) by (simp add: map_update list_update_same_conv)
  with ds t show ?thesis by (simp add: keeps_pages_def)
qed

lemma keeps_evt_update: "evt_update w f s = Inr t \<Longrightarrow> keeps_pages s t"
  by (elim evt_update_InrE) simp

lemma keeps_post_to: "post_to v c s = Inr t \<Longrightarrow> keeps_pages s t"
  by (auto simp: post_to_def set_posted_interrupt_def bindR_eq_Inr split: if_splits)

lemma keeps_pi_set_timer: "pi_set_timer_interrupt w p s = Inr t \<Longrightarrow> keeps_pages s t"
  by (auto simp: pi_set_timer_interrupt_def set_posted_interrupt_def split: if_splits)

lemma keeps_foldR:
  assumes "foldR f xs s = Inr t" and "\<And>x s t. f x s = Inr t \<Longrightarrow> keeps_pages s t"
  shows "keeps_pages s t"
  using assms(1)
proof (rule foldR_inv [where P = "keeps_pages s"])
  show "keeps_pages s s" by simp
next
  fix x u v
  assume "keeps_pages s u" and "f x u = Inr v"
  with assms(2) show "keeps_pages s v" by (blast intro: keeps_pages_trans)
qed

lemma keeps_post_all:
  "foldR (\<lambda>c. post_to v (int c)) cpus s = Inr t \<Longrightarrow> keeps_pages s t"
  by (erule keeps_foldR) (rule keeps_post_to)

lemma keeps_post_skip:
  "foldR (\<lambda>c s. if c = me then Inr s else post_to v (int c) s) cpus s = Inr t \<Longrightarrow> keeps_pages s t"
  by (erule keeps_foldR) (auto split: if_splits dest: keeps_post_to)

lemma keeps_did_fn:
  assumes "\<And>req s t. call req s = Inr t \<Longrightarrow> keeps_pages s t" and "did_fn call w req s = Inr t"
  shows "keeps_pages s t"
  using assms(2)
  by (cases req)
    (auto simp: did_send_IPI_def did_send_IPI_mask_def did_send_IPI_mask_allbutself_def
      did_send_IPI_allbutself_def did_send_IPI_all_def did_send_IPI_self_def
      bindR_eq_Inr split: if_splits dest!: assms(1) keeps_post_to keeps_post_all keeps_post_skip
      intro: keeps_pages_trans)

lemma keeps_call_ipi: "call_ipi fuel w f req s = Inr t \<Longrightarrow> keeps_pages s t"
proof (induction fuel arbitrary: f req s t)
  case 0
  then show ?case by simp
next
  case (Suc fuel)
  show ?case
  proof (cases f)
    case Did_fn
    with Suc.prems show ?thesis
      by (auto elim!: keeps_did_fn [rotated] split: option.splits dest: Suc.IH)
  qed (use Suc.prems in auto)
qed

lemma keeps_send_ipi: "send_ipi fuel w arg s = Inr (r, t) \<Longrightarrow> keeps_pages s t"
  by (auto simp: send_ipi_def bindR_eq_Inr split: option.splits dest: keeps_call_ipi)

lemma keeps_apic_ipi:
  "set_apic_ipi s = Inr t \<Longrightarrow> keeps_pages s t"
  "restore_apic_ipi s = Inr t \<Longrightarrow> keeps_pages s t"
  by (auto simp: set_apic_ipi_def restore_apic_ipi_def rare_write_begin_def rare_write_end_def
      x86_rare_write_begin_def x86_rare_write_end_def keeps_pages_def bindR_eq_Inr Let_def
      split: option.splits if_splits)

lemma keeps_timer_hook:
  "set_timer_event_handler w s = Inr t \<Longrightarrow> keeps_pages s t"
  "restore_timer_event_handler w s = Inr t \<Longrightarrow> keeps_pages s t"
  by (auto simp: set_timer_event_handler_def restore_timer_event_handler_def bindR_eq_Inr
      dest!: keeps_did_update keeps_evt_update intro: keeps_pages_trans)

lemma keeps_kvm_hypercall: "kvm_hypercall w nr arg s = (r, t) \<Longrightarrow> keeps_pages s t"
  by (auto simp: kvm_hypercall_def)

lemma keeps_get_factor: "hc_get_clockevent_factor w q s = (r, t) \<Longrightarrow> keeps_pages s t"
  by (auto simp: hc_get_clockevent_factor_def split: if_splits dest: keeps_kvm_hypercall)

lemma keeps_set_factor:
  assumes "set_clockevent_factor w s = Inr (r, t)"
  shows "keeps_pages s t"
proof -
  obtain m s1 where m: "hc_get_clockevent_factor w ''mult'' s = (m, s1)" by fastforce
  obtain h s2 where h: "hc_get_clockevent_factor w ''shift'' s1 = (h, s2)" by fastforce
  have "keeps_pages s2 t"
    using assms m h
    by (auto simp: set_clockevent_factor_def Let_def bindR_eq_Inr split: if_splits
        dest!: keeps_did_update keeps_evt_update intro: keeps_pages_trans)
  with keeps_get_factor [OF m] keeps_get_factor [OF h] show ?thesis
    by (blast intro: keeps_pages_trans)
qed

lemma keeps_restore_factor: "restore_clockevent_factor w s = Inr t \<Longrightarrow> keeps_pages s t"
  by (auto simp: restore_clockevent_factor_def bindR_eq_Inr dest: keeps_evt_update)

lemma keeps_map_pid:
  "hc_map_posted_interrupt_descriptor w s = Inr (b, t) \<Longrightarrow> keeps_pages s t"
  "hc_unmap_posted_interrupt_descriptor w s = Inr (b, t) \<Longrightarrow> keeps_pages s t"
  "hc_page_walk w s = Inr (b, t) \<Longrightarrow> keeps_pages s t"
  by (auto simp: hc_map_posted_interrupt_descriptor_def hc_unmap_posted_interrupt_descriptor_def
      hc_page_walk_def kvm_hypercall_def bindR_eq_Inr Let_def split: if_splits prod.splits
      dest!: keeps_did_update intro: keeps_pages_trans [rotated])

lemma keeps_setup_dtid:
  assumes "hc_setup_dtid w s = Inr (r, t)"
  shows "keeps_pages s t"
  using assms
  by (auto simp: hc_setup_dtid_def kvm_hypercall_def bindR_eq_Inr Let_def split: if_splits prod.splits
      dest!: keeps_did_update keeps_set_factor keeps_timer_hook keeps_pi_set_timer)
    (metis keeps_pages_trans keeps_record_event keeps_pages_refl is_mem.simps)+

lemma keeps_restore_dtid:
  assumes "hc_restore_dtid w s = Inr (r, t)"
  shows "keeps_pages s t"
  using assms
  by (auto simp: hc_restore_dtid_def kvm_hypercall_def bindR_eq_Inr Let_def split: if_splits prod.splits
      dest!: keeps_did_update keeps_restore_factor keeps_timer_hook)
    (metis keeps_pages_trans keeps_record_event keeps_pages_refl is_mem.simps)+

section \<open>Every command\<close>

lemma keeps_set_apicid:
  "keeps_pages s (set_x2apic_id w s)" "keeps_pages s (restore_x2apic_id w s)"
  "keeps_pages s (set_x2apic_id2 w a s)" "keeps_pages s (kvm_hypercall0 w nr s)"
  by (simp_all add: set_x2apic_id_def restore_x2apic_id_def set_x2apic_id2_def kvm_hypercall0_def)

lemma keeps_hc_only:
  "keeps_pages s (hc_set_x2apic_id w s)" "keeps_pages s (hc_restore_x2apic_id w s)"
  "keeps_pages s (hypercall_disable_intercept_wrmsr_icr w s)"
  "keeps_pages s (hypercall_enable_intercept_wrmsr_icr w s)"
  "keeps_pages s (hc_set_cpu_exec_vmcs w s)" "keeps_pages s (hc_restore_cpu_exec_vmcs w s)"
  by (auto simp: hc_set_x2apic_id_def hc_restore_x2apic_id_def
      hypercall_disable_intercept_wrmsr_icr_def hypercall_enable_intercept_wrmsr_icr_def
      hc_set_cpu_exec_vmcs_def hc_restore_cpu_exec_vmcs_def
      intro: keeps_pages_trans keeps_set_apicid)

lemma keeps_print_did: "print_did s = Inr t \<Longrightarrow> keeps_pages s t"
  unfolding print_did_def by (erule keeps_foldR) (auto simp: bindR_eq_Inr)

lemma keeps_again: 
  assumes "again_unless m = Inr (r, t)" and "\<And>b t. m = Inr (b, t) \<Longrightarrow> keeps_pages s t"
  shows "keeps_pages s t"
  using assms by (auto simp: again_unless_def bindR_eq_Inr)

lemma keeps_ioctl_body: "ioctl_body fuel w c arg s = Inr (r, t) \<Longrightarrow> keeps_pages s t"
  by (cases c)
    (auto simp: bindR_eq_Inr keeps_set_apicid keeps_hc_only
      dest: keeps_timer_hook keeps_set_factor keeps_restore_factor keeps_apic_ipi keeps_send_ipi
        keeps_setup_dtid keeps_print_did
      elim!: keeps_again intro: keeps_map_pid keeps_restore_dtid
        keeps_get_factor [OF prod.collapse [symmetric]])

lemma keeps_my_ioctl: "my_ioctl fuel w cmd arg s = Inr (r, t) \<Longrightarrow> keeps_pages s t"
  by (auto simp: my_ioctl_def split: option.splits dest: keeps_ioctl_body)

text \<open>A session: ioctls issued one after the other, from any cpu each.\<close>

fun ioctl_session :: "(nat \<times> world \<times> nat \<times> u64) list \<Rightarrow> kernel \<Rightarrow> kernel kres" where
  "ioctl_session [] s = Inr s"
| "ioctl_session ((fuel, w, cmd, arg) # cs) s =
     bindR (my_ioctl fuel w cmd arg s) (\<lambda>(_, s). ioctl_session cs s)"

lemma keeps_session: "ioctl_session cs s = Inr t \<Longrightarrow> keeps_pages s t"
  by (induction cs s rule: ioctl_session.induct)
    (auto simp: bindR_eq_Inr intro: keeps_pages_trans dest: keeps_my_ioctl)

section \<open>Allocation and release\<close>

text \<open>
  Every answer of the allocator is accounted for: the pages it gave are those already passed to
  \<open>kfree\<close> followed by those in the slots, in order and with the null answers of failed requests; the
  slot array and the saved functions were given once more than freed exactly while they are held.
\<close>

definition held_pages :: "kernel \<Rightarrow> u64 list" where
  "held_pages s = (case dids s of None \<Rightarrow> [] | Some ds \<Rightarrow> map pid ds)"

definition pages_accounted :: "world \<Rightarrow> kernel \<Rightarrow> bool" where
  "pages_accounted w s \<longleftrightarrow> pages_given w s = freed s @ held_pages s \<and>
     granted is_calloc w s = calls Kfree_dids s + (if dids s = None then 0 else 1) \<and>
     granted (\<lambda>e. e = Kzalloc_ipi) w s = calls Kfree_ipi s + (if ipi s = None then 0 else 1)"

lemma pages_accounted_fresh: "events s = [] \<Longrightarrow> dids s = None \<Longrightarrow> ipi s = None \<Longrightarrow> pages_accounted w s"
  by (simp add: pages_accounted_def answers_def mem_log_def freed_def calls_def held_pages_def)

lemma keeps_pages_accounted: "keeps_pages s t \<Longrightarrow> pages_accounted w s \<Longrightarrow> pages_accounted w t"
  by (cases "dids s"; cases "dids t") (auto simp: keeps_pages_def pages_accounted_def answers_def held_pages_def)

lemma answers_update [simp]:
  "answers k w (s\<lparr>dids := x\<rparr>) = answers k w s" "answers k w (s\<lparr>ipi := i\<rparr>) = answers k w s"
  "answers k w (s\<lparr>lapic_events := e\<rparr>) = answers k w s" "answers k w (s\<lparr>ncpus := n\<rparr>) = answers k w s"
  by (simp_all add: answers_def)

definition tallies :: "world \<Rightarrow> kernel \<Rightarrow> u64 list \<times> u64 list \<times> u64 list \<times> nat \<times> nat" where
  "tallies w s = (pages_given w s, answers is_calloc w s, answers (\<lambda>e. e = Kzalloc_ipi) w s,
     calls Kfree_dids s, calls Kfree_ipi s)"

lemma tallies_update [simp]:
  "tallies w (s\<lparr>dids := x\<rparr>) = tallies w s" "tallies w (s\<lparr>ipi := i\<rparr>) = tallies w s"
  "tallies w (s\<lparr>lapic_events := e\<rparr>) = tallies w s" "tallies w (s\<lparr>ncpus := n\<rparr>) = tallies w s"
  by (simp_all add: tallies_def)

lemma tallies_free_page [simp]: "tallies w (record_event (Kfree_page p) s) = tallies w s"
  by (simp add: tallies_def answers_record_event calls_record_event)

lemma tallies_other [simp]: "\<not> is_mem e \<Longrightarrow> tallies w (record_event e s) = tallies w s"
  by (cases e) (simp_all add: tallies_def answers_record_event calls_record_event)

lemma accounted_tallies:
  "pages_accounted w s \<longleftrightarrow> (case tallies w s of (p, a, i, fa, fi) \<Rightarrow> p = freed s @ held_pages s \<and>
     length (filter (\<lambda>a. a \<noteq> 0) a) = fa + (if dids s = None then 0 else 1) \<and>
     length (filter (\<lambda>a. a \<noteq> 0) i) = fi + (if ipi s = None then 0 else 1))"
  by (simp add: pages_accounted_def tallies_def)

lemma accounted_other [simp]: "\<not> is_mem e \<Longrightarrow> pages_accounted w (record_event e s) = pages_accounted w s"
  by (cases e) (simp_all add: accounted_tallies held_pages_def)

lemma free_one_ok:
  assumes "dids s = Some ds" and "i < length ds"
  shows "free_one i s =
    Inr ((record_event (Kfree_page (pid (ds ! i))) s)\<lparr>dids := Some (ds[i := zero_slot])\<rparr>)"
  using assms by (simp add: free_one_def did_at_nth did_update_nth)

lemma free_loop:
  assumes "dids s = Some ds" and "k \<le> length ds"
  shows "\<exists>t. foldR free_one [0..<k] s = Inr t \<and> dids t = Some (replicate k zero_slot @ drop k ds) \<and>
    freed t = freed s @ map pid (take k ds) \<and> ncpus t = ncpus s \<and> ipi t = ipi s \<and>
    (\<forall>w. tallies w t = tallies w s)"
  using assms(2)
proof (induction k)
  case 0
  with assms(1) show ?case by simp
next
  case (Suc k)
  then obtain t where t: "foldR free_one [0..<k] s = Inr t"
    "dids t = Some (replicate k zero_slot @ drop k ds)" "freed t = freed s @ map pid (take k ds)"
    "ncpus t = ncpus s" "ipi t = ipi s" "\<And>w. tallies w t = tallies w s" by auto
  have k: "k < length ds" using Suc.prems by simp
  have split: "drop k ds = ds ! k # drop (Suc k) ds" using k by (simp add: Cons_nth_drop_Suc)
  have len: "k < length (replicate k zero_slot @ drop k ds)" using k by simp
  have "free_one k t = Inr ((record_event (Kfree_page (pid (ds ! k))) t)
      \<lparr>dids := Some ((replicate k zero_slot @ drop k ds)[k := zero_slot])\<rparr>)"
    using free_one_ok [OF t(2) len] k by (simp add: nth_append)
  moreover have "(replicate k zero_slot @ drop k ds)[k := zero_slot] =
      replicate (Suc k) zero_slot @ drop (Suc k) ds"
    using split by (simp add: list_update_append replicate_append_same [symmetric])
  ultimately show ?case
    using t k by (simp add: foldR_append freed_record_event take_Suc_conv_app_nth)
qed

lemma deallocate_ok:
  assumes "did_wf s" and "pages_accounted w s"
  shows "\<exists>t. deallocate s = Inr t \<and> dids t = None \<and> ipi t = None \<and> pages_accounted w t \<and>
    pages_given w t = pages_given w s \<and> answers is_calloc w t = answers is_calloc w s"
proof (cases "dids s")
  case None
  with assms(2) show ?thesis
    by (cases "ipi s") (simp_all add: deallocate_def pages_accounted_def held_pages_def
        answers_record_event calls_record_event)
next
  case (Some ds)
  with assms(1) have len: "length ds = ncpus s" by (simp add: did_wf_def)
  from free_loop [OF Some order_refl] obtain t where t:
    "foldR free_one [0..<length ds] s = Inr t" "freed t = freed s @ map pid ds" "ipi t = ipi s"
    "tallies w t = tallies w s" by auto
  with Some len assms(2) show ?thesis
    by (cases "ipi s") (auto simp: deallocate_def pages_accounted_def held_pages_def tallies_def
        answers_record_event calls_record_event)
qed

text \<open>The allocation loop: the page of each slot is the allocator's answer, null when it failed.\<close>

lemma alloc_page_eq:
  assumes "dids s = Some ds" and "k < length ds" and "pid (ds ! k) = 0"
  shows "\<exists>ret' t. alloc_page w k (ret, s) = (ret', t) \<and>
    dids t = Some (ds[k := (ds ! k)\<lparr>pid := w_alloc w (events s)\<rparr>]) \<and> ipi t = ipi s \<and> ncpus t = ncpus s \<and>
    freed t = freed s \<and> pages_given w t = pages_given w s @ [w_alloc w (events s)] \<and>
    snd (tallies w t) = snd (tallies w s)"
proof -
  have "ds[k := (ds ! k)\<lparr>pid := 0\<rparr>] = ds"
    using assms(3) by (metis did_slot.surjective did_slot.update_convs(1) list_update_id)
  with assms(1) show ?thesis
    by (cases "w_alloc w (events s) = 0")
      (auto simp: alloc_page_def Let_def tallies_def answers_record_event calls_record_event
        freed_record_event)
qed

lemma alloc_loop:
  assumes "dids s = Some (replicate n zero_slot)" and "k \<le> n"
  shows "\<exists>ret' t ds. fold (alloc_page w) [0..<k] (ret, s) = (ret', t) \<and> dids t = Some ds \<and>
    length ds = n \<and> map pid ds = map pid (take k ds) @ replicate (n - k) 0 \<and>
    pages_given w t = pages_given w s @ map pid (take k ds) \<and> ipi t = ipi s \<and> ncpus t = ncpus s \<and>
    freed t = freed s \<and> snd (tallies w t) = snd (tallies w s)"
  using assms(2)
proof (induction k)
  case 0
  with assms(1) show ?case by (simp add: zero_slot_def)
next
  case (Suc k)
  then obtain r t ds where t: "fold (alloc_page w) [0..<k] (ret, s) = (r, t)" "dids t = Some ds"
    "length ds = n" "map pid ds = map pid (take k ds) @ replicate (n - k) 0"
    "pages_given w t = pages_given w s @ map pid (take k ds)" "ipi t = ipi s" "ncpus t = ncpus s"
    "freed t = freed s" "snd (tallies w t) = snd (tallies w s)" by auto
  have k: "k < length ds" using Suc.prems t(3) by simp
  let ?p = "w_alloc w (events t)" and ?ds = "ds[k := (ds ! k)\<lparr>pid := w_alloc w (events t)\<rparr>]"
  have "pid (ds ! k) = (map pid (take k ds) @ replicate (n - k) 0) ! k"
    using k t(4) by (metis nth_map)
  then have zero: "pid (ds ! k) = 0" using k t(3) by (simp add: nth_append)
  obtain r' u where u: "alloc_page w k (r, t) = (r', u)" "dids u = Some ?ds" "ipi u = ipi t"
    "ncpus u = ncpus t" "freed u = freed t" "pages_given w u = pages_given w t @ [?p]"
    "snd (tallies w u) = snd (tallies w t)" using alloc_page_eq [OF t(2) k zero] by blast
  have taken: "map pid (take (Suc k) ?ds) = map pid (take k ds) @ [?p]"
    using k by (simp add: take_Suc_conv_app_nth)
  have "map pid ?ds = (map pid (take k ds) @ replicate (n - k) 0)[k := ?p]"
    by (simp add: map_update t(4) [symmetric])
  also have "\<dots> = map pid (take (Suc k) ?ds) @ replicate (n - Suc k) 0"
    using k t(3) Suc.prems unfolding taken
    by (simp add: list_update_append Suc_diff_Suc [symmetric] del: Suc_diff_Suc)
  finally have "map pid ?ds = map pid (take (Suc k) ?ds) @ replicate (n - Suc k) 0" .
  then show ?case
    using t u taken by (intro exI [of _ r'] exI [of _ u] exI [of _ ?ds]) simp
qed

lemma allocate_ok:
  assumes "pages_accounted w s" and "dids s = None" and "ipi s = None"
  shows "did_wf (snd (allocate w s)) \<and> pages_accounted w (snd (allocate w s)) \<and>
    ncpus (snd (allocate w s)) = ncpus s \<and> freed (snd (allocate w s)) = freed s \<and>
    calls Kfree_dids (snd (allocate w s)) = calls Kfree_dids s"
proof -
  let ?s = "record_event (Kcalloc_dids (ncpus s)) s"
  let ?g = "w_alloc w (events s)"
  have t0: "tallies w ?s = (pages_given w s, answers is_calloc w s @ [?g],
      answers (\<lambda>e. e = Kzalloc_ipi) w s, calls Kfree_dids s, calls Kfree_ipi s)"
    by (simp add: tallies_def answers_record_event calls_record_event)
  have zalloc: "tallies w (record_event Kzalloc_ipi u) = (case tallies w u of (p, a, i, fa, fi) \<Rightarrow>
      (p, a, i @ [w_alloc w (events u)], fa, fi))" for u
    by (simp add: tallies_def answers_record_event calls_record_event)
  show ?thesis
  proof (cases "?g = 0")
    case True
    with assms t0 show ?thesis
      by (simp add: allocate_def Let_def accounted_tallies zalloc held_pages_def did_wf_def
          freed_record_event)
        (simp add: tallies_def calls_record_event)
  next
    case False
    let ?u = "?s\<lparr>dids := Some (replicate (ncpus s) zero_slot)\<rparr>"
    obtain r t ds where t: "fold (alloc_page w) [0..<ncpus s] (True, ?u) = (r, t)" "dids t = Some ds"
      "length ds = ncpus s" "pages_given w t = pages_given w ?u @ map pid ds" "ipi t = ipi ?u"
      "ncpus t = ncpus ?u" "freed t = freed ?u" "snd (tallies w t) = snd (tallies w ?u)"
      using alloc_loop [of ?u "ncpus s" "ncpus s" w True] by simp force
    show ?thesis
      using assms False t t0
      by (simp add: allocate_def Let_def accounted_tallies zalloc held_pages_def did_wf_def
          freed_record_event)
        (simp add: tallies_def calls_record_event)
  qed
qed

lemma touch_page_ok:
  assumes "did_wf s"
  shows "\<exists>t. touch_page s = Inr t \<and> keeps_pages s t"
proof (cases "dids s")
  case None
  then show ?thesis by (simp add: touch_page_def)
next
  case (Some ds)
  with assms have len: "length ds = ncpus s" by (simp add: did_wf_def)
  have "\<exists>t. foldR touch_one [0..<ncpus s] s = Inr t \<and> dids t = dids s \<and> keeps_pages s t"
  proof (rule foldR_total)
    show "dids s = dids s \<and> keeps_pages s s" by simp
  next
    fix i t
    assume "i \<in> set [0..<ncpus s]" and "dids t = dids s \<and> keeps_pages s t"
    then show "\<exists>u. touch_one i t = Inr u \<and> dids u = dids s \<and> keeps_pages s u"
      using Some len by (simp add: touch_one_def did_at_nth)
  qed
  with Some show ?thesis by (auto simp: touch_page_def)
qed

lemma my_init_ok:
  assumes "did_wf s" and "pages_accounted w s" and "dids s = None" and "ipi s = None"
  shows "\<exists>t. my_init w s = Inr (w_misc_register w, t) \<and> did_wf t \<and> pages_accounted w t \<and>
    freed t = freed s \<and> calls Kfree_dids t = calls Kfree_dids s \<and>
    (0 \<le> w_misc_register w \<longrightarrow> ncpus t = length (w_online w))"
proof (cases "0 \<le> w_misc_register w")
  case True
  let ?s = "(record_event Misc_register s)
    \<lparr>lapic_events := w_kallsyms w ''lapic_events'', ncpus := length (w_online w)\<rparr>"
  have "pages_accounted w ?s" using assms(2)
    by (simp add: accounted_tallies held_pages_def)
  then have a: "did_wf (snd (allocate w ?s))" "pages_accounted w (snd (allocate w ?s))"
    and b: "ncpus (snd (allocate w ?s)) = length (w_online w)" "freed (snd (allocate w ?s)) = freed s"
      "calls Kfree_dids (snd (allocate w ?s)) = calls Kfree_dids s"
    using allocate_ok [of w ?s] assms(3,4) by (auto simp: calls_record_event)
  from touch_page_ok [OF a(1)] obtain t where t: "touch_page (snd (allocate w ?s)) = Inr t"
    "keeps_pages (snd (allocate w ?s)) t" by auto
  have "did_wf t" "pages_accounted w t"
    using a t(2) by (auto intro: keeps_pages_wf keeps_pages_accounted)
  with True t b show ?thesis by (simp add: my_init_def Let_def keeps_pages_def)
next
  case False
  with assms(1,2) show ?thesis by (simp add: my_init_def Let_def calls_record_event)
qed

end
