(* ===== verification/Did_Dtid.thy ===== *)
theory Did_Dtid
  imports Did_Frame
begin

text \<open>
  What setting up and removing direct timer delivery leaves behind: each step of \<open>hc_setup_dtid\<close>
  and \<open>hc_restore_dtid\<close> described on a ready state, and the interpretations of the hook contract
  for the timer handler, the clock factors and the interrupt functions of \<open>apic\<close>.
\<close>

section \<open>One step at a time\<close>

text \<open>What a step on the current cpu leaves alone.\<close>

definition same_elsewhere :: "world \<Rightarrow> kernel \<Rightarrow> kernel \<Rightarrow> bool" where
  "same_elsewhere w s t \<longleftrightarrow>
     (\<forall>i. i \<noteq> w_cpu w \<longrightarrow> slot t i = slot s i) \<and> (\<forall>c. c \<noteq> w_cpu w \<longrightarrow> lapic t c = lapic s c) \<and>
     pid (slot t (w_cpu w)) = pid (slot s (w_cpu w)) \<and>
     ce_next_event (lapic t (w_cpu w)) = ce_next_event (lapic s (w_cpu w))"

lemma same_elsewhere_refl [simp]: "same_elsewhere w s s"
  by (simp add: same_elsewhere_def)

lemma same_elsewhere_trans: "same_elsewhere w s t \<Longrightarrow> same_elsewhere w t u \<Longrightarrow> same_elsewhere w s u"
  by (simp add: same_elsewhere_def)

lemma same_elsewhere_events [simp]: "same_elsewhere w s (record_event e t) = same_elsewhere w s t"
  by (simp add: same_elsewhere_def)

lemma factor_step:
  assumes ready: "did_ready w s" and step: "set_clockevent_factor w s = Inr (r, t)"
  shows "did_ready w t \<and> same_elsewhere w s t \<and> pir t = pir s \<and> (r = 0 \<or> r = - EAGAIN) \<and>
    did_event_handler (slot t (w_cpu w)) = did_event_handler (slot s (w_cpu w)) \<and>
    ce_event_handler (lapic t (w_cpu w)) = ce_event_handler (lapic s (w_cpu w)) \<and>
    start (slot t (w_cpu w)) = start (slot s (w_cpu w)) \<and>
    (r = 0 \<longrightarrow> did_mult (slot t (w_cpu w)) = ce_mult (lapic s (w_cpu w)) \<and>
                did_shift (slot t (w_cpu w)) = ce_shift (lapic s (w_cpu w)) \<and>
                0 < ce_mult (lapic t (w_cpu w)) \<and> 0 < ce_shift (lapic t (w_cpu w))) \<and>
    (r \<noteq> 0 \<longrightarrow> dids t = dids s \<and> lapic t = lapic s)"
proof (cases "factors_available w s")
  case True
  with ready step set_factor_ready [OF ready True] show ?thesis
    by (auto simp: did_ready_def did_wf_def same_elsewhere_def factors_available_def)
next
  case False
  with ready step set_factor_unavailable [OF False] show ?thesis
    by (auto simp: same_elsewhere_def)
qed

lemma timer_step:
  assumes ready: "did_ready w s" and step: "set_timer_event_handler w s = Inr t"
  shows "did_ready w t \<and> same_elsewhere w s t \<and> pir t = pir s \<and>
    slot t (w_cpu w) = (slot s (w_cpu w))\<lparr>did_event_handler := ce_event_handler (lapic s (w_cpu w))\<rparr> \<and>
    lapic t (w_cpu w) = (lapic s (w_cpu w))\<lparr>ce_event_handler := Timer_interrupt_handler\<rparr>"
  using step set_timer_ready [OF ready] ready
  by (auto simp: did_ready_def did_wf_def same_elsewhere_def)

lemma start_step:
  assumes ready: "did_ready w s" and step: "did_update (int (w_cpu w)) (\<lambda>d. d\<lparr>start := x\<rparr>) s = Inr t"
  shows "did_ready w t \<and> same_elsewhere w s t \<and> pir t = pir s \<and> lapic t = lapic s \<and>
    slot t (w_cpu w) = (slot s (w_cpu w))\<lparr>start := x\<rparr>"
  using step ready
  by (auto simp: did_ready_def did_wf_def same_elsewhere_def did_update_nth)

lemma setup_dtid_success:
  assumes ready: "did_ready w s" and set_up: "hc_setup_dtid w s = Inr (0, t)"
  shows "did_ready w t \<and> same_elsewhere w s t \<and>
    did_event_handler (slot t (w_cpu w)) = ce_event_handler (lapic s (w_cpu w)) \<and>
    did_mult (slot t (w_cpu w)) = ce_mult (lapic s (w_cpu w)) \<and>
    did_shift (slot t (w_cpu w)) = ce_shift (lapic s (w_cpu w)) \<and>
    ce_event_handler (lapic t (w_cpu w)) = Timer_interrupt_handler \<and>
    0 < ce_mult (lapic t (w_cpu w)) \<and> 0 < ce_shift (lapic t (w_cpu w)) \<and>
    pir t = insert (8 * unat (start (slot t (w_cpu w))) + unat (w_local_timer_vector w)) (pir s)"
proof -
  let ?c = "w_cpu w"
  let ?d = "slot s ?c"
  let ?arg = "w_virt_to_phys w (pid ?d)"
  let ?s0 = "record_event (Hypercall KVM_HC_SETUP_DTID ?arg) s"
  let ?off = "to_int (w_hypercall w (events s) KVM_HC_SETUP_DTID ?arg)"
  from set_up obtain s1 s2 s3 d s4 where
    s1: "set_clockevent_factor w ?s0 = Inr (0, s1)" and
    s2: "set_timer_event_handler w s1 = Inr s2" and
    s3: "did_update (int ?c) (\<lambda>d. d\<lparr>start := pid_start (pid ?d) ?off\<rparr>) s2 = Inr s3" and
    d: "did_at s3 (int ?c) = Inr d" and
    s4: "pi_set_timer_interrupt w (start d) s3 = Inr s4" and
    t: "t = record_event (Apic_write_TMICT 0x616d) s4"
    using did_at_ready [OF ready]
    by (auto simp: hc_setup_dtid_def kvm_hypercall_def Let_def bindR_eq_Inr split: if_splits prod.splits)
  have f: "did_ready w ?s0" using ready by simp
  note f1 = factor_step [OF f s1]
  then have r1: "did_ready w s1" by blast
  note f2 = timer_step [OF r1 s2]
  then have r2: "did_ready w s2" by blast
  note f3 = start_step [OF r2 s3]
  then have r3: "did_ready w s3" by blast
  have d': "d = slot s3 ?c" using d did_at_ready [OF r3] by simp
  have s4': "s4 = s3\<lparr>pir := insert (8 * unat (start d) + unat (w_local_timer_vector w)) (pir s3)\<rparr>"
    using s4 by (simp add: pi_set_timer_interrupt_def set_posted_interrupt_def split: if_splits)
  have elsewhere: "same_elsewhere w s s3"
    using f1 f2 f3 by (auto simp: same_elsewhere_def)
  show ?thesis
    using f1 f2 f3 elsewhere r3 unfolding t s4' d'
    by (auto simp: did_ready_def did_wf_def same_elsewhere_def)
qed

lemma setup_dtid_failure:
  assumes ready: "did_ready w s" and set_up: "hc_setup_dtid w s = Inr (- EAGAIN, t)"
  shows "did_ready w t \<and> did_mult (slot t (w_cpu w)) = did_mult (slot s (w_cpu w)) \<and>
    did_shift (slot t (w_cpu w)) = did_shift (slot s (w_cpu w))"
proof -
  let ?c = "w_cpu w"
  let ?arg = "w_virt_to_phys w (pid (slot s ?c))"
  let ?s0 = "record_event (Hypercall KVM_HC_SETUP_DTID ?arg) s"
  let ?off = "to_int (w_hypercall w (events s) KVM_HC_SETUP_DTID ?arg)"
  have r0: "did_ready w ?s0" using ready by simp
  show ?thesis
  proof (cases "0 \<le> ?off")
    case False
    with set_up did_at_ready [OF ready] have "t = ?s0"
      by (simp add: hc_setup_dtid_def kvm_hypercall_def Let_def)
    with ready show ?thesis by simp
  next
    case True
    with set_up did_at_ready [OF ready] obtain s1 s2 s3 d s4 where
      s1: "set_clockevent_factor w ?s0 = Inr (- EAGAIN, s1)" and
      s2: "set_timer_event_handler w s1 = Inr s2" and
      s3: "did_update (int ?c) (\<lambda>d. d\<lparr>start := pid_start (pid (slot s ?c)) ?off\<rparr>) s2 = Inr s3" and
      d: "did_at s3 (int ?c) = Inr d" and
      s4: "pi_set_timer_interrupt w (start d) s3 = Inr s4" and
      t: "t = record_event (Apic_write_TMICT 0x616d) s4"
      by (auto simp: hc_setup_dtid_def kvm_hypercall_def Let_def bindR_eq_Inr split: if_splits prod.splits)
    note f1 = factor_step [OF r0 s1]
    then have r1: "did_ready w s1" by blast
    note f2 = timer_step [OF r1 s2]
    then have r2: "did_ready w s2" by blast
    note f3 = start_step [OF r2 s3]
    have "did_ready w s4 \<and> slot s4 ?c = slot s3 ?c"
      using s4 f3 by (auto simp: pi_set_timer_interrupt_def set_posted_interrupt_def did_ready_def
          did_wf_def split: if_splits option.splits)
    then show ?thesis using f1 f2 f3 unfolding t by simp
  qed
qed

lemma restore_dtid_success:
  assumes ready: "did_ready w s" and restore: "hc_restore_dtid w s = Inr (True, t)"
  shows "did_ready w t \<and> same_elsewhere w s t \<and>
    ce_event_handler (lapic t (w_cpu w)) = did_event_handler (slot s (w_cpu w)) \<and>
    ce_mult (lapic t (w_cpu w)) = did_mult (slot s (w_cpu w)) \<and>
    ce_shift (lapic t (w_cpu w)) = did_shift (slot s (w_cpu w)) \<and>
    start (slot t (w_cpu w)) = 0 \<and> pir t = pir s"
proof -
  let ?c = "w_cpu w"
  let ?arg = "w_virt_to_phys w (pid (slot s ?c))"
  let ?s0 = "record_event (Hypercall KVM_HC_RESTORE_DTID ?arg) s"
  from restore obtain s1 s2 where
    s1: "restore_clockevent_factor w ?s0 = Inr s1" and
    s2: "restore_timer_event_handler w s1 = Inr s2" and
    t: "did_update (int ?c) (\<lambda>d. d\<lparr>start := 0\<rparr>) (record_event (Apic_write_TMICT 0x616d) s2) = Inr t"
    using did_at_ready [OF ready]
    by (auto simp: hc_restore_dtid_def kvm_hypercall_def Let_def bindR_eq_Inr split: if_splits prod.splits)
  have r0: "did_ready w ?s0" using ready by simp
  have s1': "s1 = ?s0\<lparr>lapic := (lapic s)(?c := (lapic s ?c)
      \<lparr>ce_mult := did_mult (slot s ?c), ce_shift := did_shift (slot s ?c)\<rparr>)\<rparr>"
    using s1 restore_factor_ready [OF r0] by simp
  then have r1: "did_ready w s1" using ready by (auto simp: did_ready_def did_wf_def)
  have s2': "s2 = s1\<lparr>lapic := (lapic s1)(?c := (lapic s1 ?c)
      \<lparr>ce_event_handler := did_event_handler (slot s1 ?c)\<rparr>)\<rparr>"
    using s2 restore_timer_ready [OF r1] by simp
  then have "did_ready w s2" using r1 by (auto simp: did_ready_def did_wf_def)
  then have r2: "did_ready w (record_event (Apic_write_TMICT 0x616d) s2)" by simp
  show ?thesis
    using start_step [OF r2 t] unfolding s2' s1' by (auto simp: same_elsewhere_def)
qed

section \<open>The hooks of the module\<close>

text \<open>The timer handler of the current cpu.\<close>

interpretation timer_hook: saved_hook
  "\<lambda>s. ce_event_handler (lapic s (w_cpu w))" "\<lambda>s. did_event_handler (slot s (w_cpu w))"
  "\<lambda>_. Timer_interrupt_handler" "did_ready w"
  "set_timer_event_handler w" "restore_timer_event_handler w" for w
proof unfold_locales
  fix s
  assume ready: "did_ready w s"
  from set_timer_ready [OF ready] obtain t where t: "set_timer_event_handler w s = Inr t" by blast
  from timer_step [OF ready t]
  have "did_ready w t" and "ce_event_handler (lapic t (w_cpu w)) = Timer_interrupt_handler"
    and "did_event_handler (slot t (w_cpu w)) = ce_event_handler (lapic s (w_cpu w))" by simp_all
  with t show "\<exists>t. set_timer_event_handler w s = Inr t \<and> did_ready w t \<and>
      ce_event_handler (lapic t (w_cpu w)) = Timer_interrupt_handler \<and>
      did_event_handler (slot t (w_cpu w)) = ce_event_handler (lapic s (w_cpu w))" by blast
  from ready show "\<exists>t. restore_timer_event_handler w s = Inr t \<and> did_ready w t \<and>
      ce_event_handler (lapic t (w_cpu w)) = did_event_handler (slot s (w_cpu w)) \<and>
      did_event_handler (slot t (w_cpu w)) = did_event_handler (slot s (w_cpu w))"
    by (simp add: restore_timer_ready) (simp add: did_ready_def did_wf_def split: option.splits)
qed

text \<open>The clock factors of the current cpu, when the hypervisor always offers positive ones.\<close>

definition factor_ready :: "world \<Rightarrow> kernel \<Rightarrow> bool" where
  "factor_ready w s \<longleftrightarrow> did_ready w s \<and>
     (\<forall>h. 0 < (ucast (w_hypercall w h KVM_HC_GET_CLOCKEVENT_MULT 0) :: u32) \<and>
          0 < (ucast (w_hypercall w h KVM_HC_GET_CLOCKEVENT_SHIFT 0) :: u32))"

lemma factor_ready_available: "factor_ready w s \<Longrightarrow> factors_available w s"
  by (simp add: factor_ready_def factors_available_def hc_factors_def hc_get_clockevent_factor_def
      kvm_hypercall_def)

interpretation factor_hook: saved_hook
  "\<lambda>s. (ce_mult (lapic s (w_cpu w)), ce_shift (lapic s (w_cpu w)))"
  "\<lambda>s. (did_mult (slot s (w_cpu w)), did_shift (slot s (w_cpu w)))"
  "hc_factors w" "factor_ready w"
  "\<lambda>s. bindR (set_clockevent_factor w s) (\<lambda>(_, s). Inr s)" "restore_clockevent_factor w" for w
proof unfold_locales
  fix s
  assume ready: "factor_ready w s"
  then have r: "did_ready w s" by (simp add: factor_ready_def)
  from ready r show "\<exists>t. bindR (set_clockevent_factor w s) (\<lambda>(_, s). Inr s) = Inr t \<and> factor_ready w t \<and>
      (ce_mult (lapic t (w_cpu w)), ce_shift (lapic t (w_cpu w))) = hc_factors w s \<and>
      (did_mult (slot t (w_cpu w)), did_shift (slot t (w_cpu w))) =
      (ce_mult (lapic s (w_cpu w)), ce_shift (lapic s (w_cpu w)))"
    using set_factor_ready [OF r factor_ready_available [OF ready]]
    by (auto simp: factor_ready_def did_ready_def did_wf_def)
  from ready r show "\<exists>t. restore_clockevent_factor w s = Inr t \<and> factor_ready w t \<and>
      (ce_mult (lapic t (w_cpu w)), ce_shift (lapic t (w_cpu w))) =
      (did_mult (slot s (w_cpu w)), did_shift (slot s (w_cpu w))) \<and>
      (did_mult (slot t (w_cpu w)), did_shift (slot t (w_cpu w))) =
      (did_mult (slot s (w_cpu w)), did_shift (slot s (w_cpu w)))"
    using restore_factor_ready [OF r] by (auto simp: factor_ready_def did_ready_def did_wf_def)
qed

text \<open>
  The six pointers of \<open>apic\<close>, when the page is write-protected. The window in which it is not is
  closed again, and interrupts are on.
\<close>

definition apic_ready :: "kernel \<Rightarrow> bool" where
  "apic_ready s \<longleftrightarrow> ipi s \<noteq> None \<and> and (cr0 s) X86_CR0_WP \<noteq> 0"

lemma cr0_window:
  fixes c :: u64
  assumes "and c X86_CR0_WP \<noteq> 0"
  shows "and (xor c X86_CR0_WP) X86_CR0_WP = 0" and "xor (xor c X86_CR0_WP) X86_CR0_WP = c"
proof -
  have wp: "X86_CR0_WP = 2 ^ 16" by simp
  have b: "bit X86_CR0_WP n \<longleftrightarrow> n < 64 \<and> n = 16" for n
    by (simp only: wp bit_exp_iff) simp
  have "bit c 16"
  proof (rule ccontr)
    assume no: "\<not> bit c 16"
    have "and c X86_CR0_WP = 0"
    proof (rule bit_word_eqI)
      fix n
      show "bit (and c X86_CR0_WP) n = bit 0 n"
        using no by (simp only: bit_and_iff b bit_0_eq bot_apply) auto
    qed
    with assms show False by simp
  qed
  then show "and (xor c X86_CR0_WP) X86_CR0_WP = 0"
  proof (intro bit_word_eqI)
    fix n
    assume "bit c 16"
    then show "bit (and (xor c X86_CR0_WP) X86_CR0_WP) n = bit 0 n"
      by (simp only: bit_and_iff bit_xor_iff b bit_0_eq bot_apply) auto
  qed
  show "xor (xor c X86_CR0_WP) X86_CR0_WP = c"
    by (simp add: xor.assoc)
qed

lemma set_apic_ready:
  assumes "apic_ready s"
  shows "set_apic_ipi s = Inr (s\<lparr>ipi := Some (apic s), apic := did_ops, irqs_enabled := True\<rparr>)"
  using assms cr0_window [of "cr0 s"]
  by (auto simp: apic_ready_def set_apic_ipi_def rare_write_begin_def rare_write_end_def
      x86_rare_write_begin_def x86_rare_write_end_def Let_def)

lemma restore_apic_ready:
  assumes "apic_ready s"
  shows "restore_apic_ipi s = Inr (s\<lparr>apic := the (ipi s), irqs_enabled := True\<rparr>)"
  using assms cr0_window [of "cr0 s"]
  by (auto simp: apic_ready_def restore_apic_ipi_def rare_write_begin_def rare_write_end_def
      x86_rare_write_begin_def x86_rare_write_end_def Let_def)

interpretation apic_hook: saved_hook
  "apic" "\<lambda>s. the (ipi s)" "\<lambda>_. did_ops" apic_ready set_apic_ipi restore_apic_ipi
  by unfold_locales (auto simp: set_apic_ready restore_apic_ready apic_ready_def)

end
