(* ===== verification/Did_Props.thy ===== *)
theory Did_Props
  imports Did_Dtid
begin

text \<open>
  The properties of the guest module. Each theorem with hypotheses is followed by a witness on the
  two-cpu guest below, whose host answers every hypercall with success.
\<close>

section \<open>A concrete guest\<close>

definition guest_world :: world where
  "guest_world =
     \<lparr>w_hypercall = (\<lambda>_ nr _. if nr = KVM_HC_SETUP_DTID then 64 else if nr = KVM_HC_MAP_PID then 32 else 5),
      w_alloc = (\<lambda>es. 0x10000 + 4096 * of_nat (length es)),
      w_ktime = (\<lambda>_. 1000), w_virt_to_phys = (\<lambda>p. p), w_cpu = 0, w_online = [0, 1],
      w_local_timer_vector = 0xef, w_posted_intr_vector = 0xf2, w_rdmsr_apic_id = (\<lambda>c. int c),
      w_user_ipi = (\<lambda>a. if a = 0 then None else Some (1, 0x31)),
      w_kallsyms = (\<lambda>_. 0xffff0000), w_misc_register = 0,
      w_pgd_offset = (\<lambda>m a. a), w_pud_offset = (\<lambda>m a. a), w_pmd_offset = (\<lambda>m a. a),
      w_pte_offset = (\<lambda>m a. a), w_entry_none = (\<lambda>e. e = 0)\<rparr>"

definition kernel_ops :: apic_ops where
  "kernel_ops = \<lparr>op_send_IPI = Kernel_fn 1, op_send_IPI_mask = Kernel_fn 2,
     op_send_IPI_mask_allbutself = Kernel_fn 3, op_send_IPI_allbutself = Kernel_fn 4,
     op_send_IPI_all = Kernel_fn 5, op_send_IPI_self = Kernel_fn 6\<rparr>"

definition guest_clock :: clock_event where
  "guest_clock = \<lparr>ce_event_handler = Kernel_handler 7, ce_mult = 100, ce_shift = 20, ce_next_event = 2000\<rparr>"

definition guest_slot :: "u64 \<Rightarrow> u64 \<Rightarrow> did_slot" where
  "guest_slot p st = \<lparr>pid = p, start = st, did_mult = 0, did_shift = 0, did_event_handler = Kernel_handler 7\<rparr>"

definition guest :: kernel where
  "guest =
     \<lparr>dipi = True, ncpus = 2, lapic_events = 0xffff0000,
      dids = Some [guest_slot 0x10000 0x10040, guest_slot 0x11000 0x11040], ipi = Some kernel_ops,
      apic = kernel_ops, lapic = (\<lambda>_. guest_clock), x86_cpu_to_apicid = of_nat, cr0 = 0x80050033,
      irqs_enabled = True, pir = {}, events = []\<rparr>"

lemmas guest_simps = guest_world_def guest_def guest_clock_def guest_slot_def kernel_ops_def

lemma guest_ready: "did_ready guest_world guest"
  by (simp add: guest_simps did_ready_def did_wf_def)

lemmas did_eval = guest_simps hc_setup_dtid_def hc_restore_dtid_def kvm_hypercall_def
  set_clockevent_factor_def hc_get_clockevent_factor_def restore_clockevent_factor_def
  set_timer_event_handler_def restore_timer_event_handler_def pi_set_timer_interrupt_def
  set_posted_interrupt_def pid_start_def int_to_ulong_def to_int_def did_update_def did_at_def
  evt_update_def this_evt_def record_event_def

section \<open>Direct timer delivery\<close>

text \<open>C1: Setting up direct timer delivery on a cpu (\<open>hc_setup_dtid\<close> returning 0) installs the
  module's timer handler with the hypervisor's positive clock factors and posts the timer vector,
  and removing it again (\<open>hc_restore_dtid\<close> returning true) puts back exactly the clock event device
  the kernel had, unmaps the descriptor, keeps the page, and touches no other cpu.\<close>

theorem dtid_roundtrip:
  assumes "did_ready w s" and "hc_setup_dtid w s = Inr (0, t)" and "hc_restore_dtid w t = Inr (True, u)"
  shows "ce_event_handler (lapic t (w_cpu w)) = Timer_interrupt_handler \<and>
    0 < ce_mult (lapic t (w_cpu w)) \<and> 0 < ce_shift (lapic t (w_cpu w)) \<and>
    8 * unat (start (slot t (w_cpu w))) + unat (w_local_timer_vector w) \<in> pir t \<and>
    lapic u = lapic s \<and>
    start (slot u (w_cpu w)) = 0 \<and> pid (slot u (w_cpu w)) = pid (slot s (w_cpu w)) \<and>
    (\<forall>i. i \<noteq> w_cpu w \<longrightarrow> slot u i = slot s i)"
proof -
  note a = setup_dtid_success [OF assms(1,2)]
  then have "did_ready w t" by blast
  note b = restore_dtid_success [OF this assms(3)]
  have "lapic u c = lapic s c" for c
    using a b by (cases "c = w_cpu w") (auto simp: same_elsewhere_def intro: clock_event.equality)
  then have "lapic u = lapic s" by blast
  with a b show ?thesis by (auto simp: same_elsewhere_def)
qed

theorem dtid_roundtrip_witness:
  "\<exists>t u. did_ready guest_world guest \<and> hc_setup_dtid guest_world guest = Inr (0, t) \<and>
     hc_restore_dtid guest_world t = Inr (True, u) \<and> lapic u = lapic guest"
proof -
  obtain t where t: "hc_setup_dtid guest_world guest = Inr (0, t)" by (simp add: did_eval)
  then have "\<exists>u. hc_restore_dtid guest_world t = Inr (True, u)" by (auto simp: did_eval)
  then obtain u where u: "hc_restore_dtid guest_world t = Inr (True, u)" by blast
  from dtid_roundtrip [OF guest_ready t u] guest_ready t u show ?thesis by blast
qed

text \<open>When \<open>hc_setup_dtid\<close> fails (it returns -EAGAIN) on a cpu whose factors were never saved, a
  later successful \<open>hc_restore_dtid\<close> writes the zero of the fresh slot into the live clock
  multiplier and shift: the two commands do not undo each other on the failure path.\<close>

theorem dtid_failed_setup_zeroes_clock:
  assumes "did_ready w s" and "did_mult (slot s (w_cpu w)) = 0" and "did_shift (slot s (w_cpu w)) = 0"
    and "hc_setup_dtid w s = Inr (- EAGAIN, t)" and "hc_restore_dtid w t = Inr (True, u)"
  shows "ce_mult (lapic u (w_cpu w)) = 0 \<and> ce_shift (lapic u (w_cpu w)) = 0"
proof -
  note a = setup_dtid_failure [OF assms(1,4)]
  then have "did_ready w t" by blast
  from restore_dtid_success [OF this assms(5)] a assms(2,3) show ?thesis by simp
qed

text \<open>The same guest, on a host that offers no clock factors.\<close>

definition no_factor_world :: world where
  "no_factor_world = guest_world\<lparr>w_hypercall := (\<lambda>_ nr _. if nr = KVM_HC_SETUP_DTID then 64
     else if nr = KVM_HC_RESTORE_DTID then 1 else 0)\<rparr>"

theorem dtid_failed_setup_zeroes_clock_witness:
  "\<exists>t u. hc_setup_dtid no_factor_world guest = Inr (- EAGAIN, t) \<and>
     hc_restore_dtid no_factor_world t = Inr (True, u) \<and>
     ce_mult (lapic guest 0) = 100 \<and> ce_mult (lapic u (w_cpu no_factor_world)) = 0"
proof -
  have r: "did_ready no_factor_world guest"
    by (simp add: no_factor_world_def guest_simps did_ready_def did_wf_def)
  have m: "did_mult (slot guest (w_cpu no_factor_world)) = 0"
    and h: "did_shift (slot guest (w_cpu no_factor_world)) = 0"
    by (simp_all add: no_factor_world_def guest_simps)
  obtain t where t: "hc_setup_dtid no_factor_world guest = Inr (- EAGAIN, t)"
    by (simp add: no_factor_world_def did_eval)
  then have "\<exists>u. hc_restore_dtid no_factor_world t = Inr (True, u)"
    by (auto simp: no_factor_world_def did_eval)
  then obtain u where u: "hc_restore_dtid no_factor_world t = Inr (True, u)" by blast
  from dtid_failed_setup_zeroes_clock [OF r m h t u] t u show ?thesis
    by (auto simp: guest_simps)
qed

section \<open>Timer interrupts\<close>

text \<open>C4: With the descriptor mapped and the kernel's handler saved, a timer interrupt always posts
  the timer vector again, and then runs the saved kernel handler exactly once unless it came before
  the next programmed event, when it runs no handler at all.\<close>

theorem timer_interrupt_delivery:
  assumes "did_ready w s" and "PAGE_SIZE \<le> unat (start (slot s (w_cpu w)))"
    and "did_event_handler (slot s (w_cpu w)) = Kernel_handler k"
  shows "call_handler (Suc (Suc n)) w Timer_interrupt_handler s =
    (let posted = record_event Ktime_get (s\<lparr>pir := insert
           (8 * unat (start (slot s (w_cpu w))) + unat (w_local_timer_vector w)) (pir s)\<rparr>)
     in Inr (if w_ktime w (events s) < ce_next_event (lapic s (w_cpu w)) then posted
             else record_event (Call_handler k) posted))"
proof -
  from assms(1) obtain ds where ds: "dids s = Some ds" "w_cpu w < length ds" "lapic_events s \<noteq> 0"
    by (auto simp: did_ready_def did_wf_def)
  with assms(2) have "start (ds ! w_cpu w) \<noteq> 0" by auto
  with ds assms(2,3) show ?thesis
    by (simp add: timer_interrupt_handler_def bypass_early_timer_interrupt_def this_evt_def
        pi_set_timer_interrupt_def set_posted_interrupt_def did_at_nth did_at_def Let_def)
qed

theorem timer_interrupt_delivery_witness:
  "call_handler (Suc (Suc 0)) guest_world Timer_interrupt_handler guest =
     Inr (record_event Ktime_get (guest\<lparr>pir := {8 * 0x10040 + 0xef}\<rparr>))"
proof -
  have a: "PAGE_SIZE \<le> unat (start (slot guest (w_cpu guest_world)))"
    and b: "did_event_handler (slot guest (w_cpu guest_world)) = Kernel_handler 7"
    by (simp_all add: guest_simps)
  show ?thesis
    using timer_interrupt_delivery [OF guest_ready a b, of 0]
    by (simp add: guest_simps del: call_handler.simps)
qed

text \<open>Installing the timer handler twice saves the module's own handler as the kernel's: removing
  it does not bring the kernel's handler back, and while the descriptor is not mapped every timer
  interrupt on that cpu recurses until the stack is exhausted, however deep the stack.\<close>

theorem timer_double_install:
  assumes "did_ready w s" and "start (slot s (w_cpu w)) = 0"
  shows "\<exists>t u v. set_timer_event_handler w s = Inr t \<and> set_timer_event_handler w t = Inr u \<and>
    restore_timer_event_handler w u = Inr v \<and>
    ce_event_handler (lapic v (w_cpu w)) = Timer_interrupt_handler \<and>
    (\<forall>fuel. call_handler fuel w Timer_interrupt_handler u = Inl Stack_overflow)"
proof -
  obtain t u v where steps: "set_timer_event_handler w s = Inr t" "set_timer_event_handler w t = Inr u"
      "restore_timer_event_handler w u = Inr v"
    and saved: "did_event_handler (slot u (w_cpu w)) = Timer_interrupt_handler"
    and live: "ce_event_handler (lapic v (w_cpu w)) = Timer_interrupt_handler"
    using timer_hook.double_install_leaks [OF assms(1)] by blast
  note a = timer_step [OF assms(1) steps(1)]
  then have "did_ready w t" by blast
  note b = timer_step [OF this steps(2)]
  have ready: "did_ready w u" and unmapped: "start (slot u (w_cpu w)) = 0"
    using a b assms(2) by simp_all
  have "call_handler fuel w Timer_interrupt_handler u = Inl Stack_overflow" for fuel
  proof (induction fuel)
    case (Suc fuel)
    from did_ready_simps(1) [OF ready] obtain ds where "dids u = Some ds" by blast
    with Suc saved unmapped show ?case
      by (simp add: timer_interrupt_handler_def bypass_early_timer_interrupt_def
          did_at_ready [OF ready] this_evt_ready [OF ready])
  qed simp
  with steps live show ?thesis by blast
qed

definition unmapped_guest :: kernel where
  "unmapped_guest = guest\<lparr>dids := Some [guest_slot 0x10000 0, guest_slot 0x11000 0]\<rparr>"

theorem timer_double_install_witness:
  "start (slot unmapped_guest 0) = 0 \<and> (\<exists>t u. set_timer_event_handler guest_world unmapped_guest = Inr t \<and>
     set_timer_event_handler guest_world t = Inr u \<and>
     call_handler 100 guest_world Timer_interrupt_handler u = Inl Stack_overflow)"
proof -
  have r: "did_ready guest_world unmapped_guest"
    by (simp add: unmapped_guest_def guest_simps did_ready_def did_wf_def)
  have z: "start (slot unmapped_guest (w_cpu guest_world)) = 0"
    by (simp add: unmapped_guest_def guest_simps)
  from timer_double_install [OF r z] z show ?thesis by (auto simp: guest_world_def)
qed

text \<open>When the hypervisor maps the descriptor of a page-aligned page at an offset that leaves
  room for the 256 PIR bits, every PIR bit the module sets through the mapping lies in that very
  page.\<close>

theorem map_pid_in_page:
  assumes "did_ready w s" and "hc_map_posted_interrupt_descriptor w s = Inr (True, t)"
    and "and (pid (slot s (w_cpu w))) 0xFFF = 0"
    and "to_int (w_hypercall w (events s) KVM_HC_MAP_PID (w_virt_to_phys w (pid (slot s (w_cpu w))))) \<le> 4096 - 32"
    and "unat (vec32 v) < 256"
  shows "pir_bit (slot t (w_cpu w)) v div (8 * PAGE_SIZE) = unat (pid (slot t (w_cpu w))) div PAGE_SIZE"
proof -
  let ?p = "pid (slot s (w_cpu w))"
  let ?off = "to_int (w_hypercall w (events s) KVM_HC_MAP_PID (w_virt_to_phys w ?p))"
  let ?s = "record_event (Hypercall KVM_HC_MAP_PID (w_virt_to_phys w ?p)) s"
  have off: "0 \<le> ?off" and upd: "did_update (int (w_cpu w)) (\<lambda>d. d\<lparr>start := pid_start ?p ?off\<rparr>) ?s = Inr t"
    using assms(1,2) by (auto simp: hc_map_posted_interrupt_descriptor_def did_at_ready
        kvm_hypercall_def Let_def bindR_eq_Inr split: if_splits)
  have "did_ready w ?s" using assms(1) by simp
  note st = start_step [OF this upd]
  have start: "unat (start (slot t (w_cpu w))) = unat ?p + nat ?off"
    using st pid_start_page [OF assms(3) off] assms(4) by simp
  have page: "unat ?p mod 4096 = 0"
  proof -
    have "take_bit 12 ?p = 0"
      using assms(3) by (simp add: take_bit_eq_mask mask_eq_exp_minus_1)
    then have "take_bit 12 (unat ?p) = 0" by (simp only: unsigned_take_bit_eq [symmetric]) simp
    then show ?thesis by (simp add: take_bit_eq_mod)
  qed
  have "nat ?off \<le> 4064" using off assms(4) by simp
  then have "unat (start (slot t (w_cpu w))) mod 4096 + 32 \<le> 4096"
    and same: "unat (start (slot t (w_cpu w))) div 4096 = unat ?p div 4096"
    using page_offset [OF page, of "nat ?off"] unfolding start by blast+
  with pir_bit_page [OF assms(5)] have
    "pir_bit (slot t (w_cpu w)) v div (8 * 4096) = unat ?p div 4096" by simp
  then show ?thesis using st by simp
qed

theorem map_pid_in_page_witness:
  "\<exists>t. hc_map_posted_interrupt_descriptor guest_world guest = Inr (True, t) \<and>
     pir_bit (slot t (w_cpu guest_world)) 0x31 div (8 * PAGE_SIZE) = unat (pid (slot t (w_cpu guest_world))) div PAGE_SIZE"
proof -
  have "\<exists>t. hc_map_posted_interrupt_descriptor guest_world guest = Inr (True, t)"
    by (simp add: hc_map_posted_interrupt_descriptor_def did_eval)
  then obtain t where t: "hc_map_posted_interrupt_descriptor guest_world guest = Inr (True, t)" by blast
  have "and (pid (slot guest (w_cpu guest_world))) 0xFFF = 0"
    and "to_int (w_hypercall guest_world (events guest) KVM_HC_MAP_PID
           (w_virt_to_phys guest_world (pid (slot guest (w_cpu guest_world))))) \<le> 4096 - 32"
    and "unat (vec32 0x31) < 256"
    by (simp_all add: did_eval vec32_def)
  from map_pid_in_page [OF guest_ready t this] t show ?thesis by blast
qed

end
