(* ===== verification/Did_Ipi_Props.thy ===== *)
theory Did_Ipi_Props
  imports Did_Props
begin

text \<open>
  The properties of the guest module's interrupt functions and of its life cycle: what each direct
  IPI posts and which cpus it notifies, installing and removing the functions, and the pages from
  \<open>my_init\<close> over any sequence of ioctls to \<open>my_exit\<close>.
\<close>

section \<open>Direct IPIs\<close>

lemma saved_op:
  assumes "saved_genuine s"
  obtains ops k where "ipi s = Some ops" and "slot_of ops req = Kernel_fn k"
  by (rule saved_genuineE [OF assms]) blast

text \<open>C3: With direct IPIs on and the kernel's functions saved, an IPI to a cpu whose descriptor is
  mapped sets exactly the bit of its vector in that cpu's descriptor, and then makes exactly one call
  of the kernel's saved function, with the posted-interrupt vector instead of the caller's.\<close>

theorem ipi_posts_and_notifies:
  assumes "saved_genuine s" and "dipi s" and "can_post s vector cpu"
  shows "\<exists>k. call_ipi (Suc (Suc n)) w Did_fn (Send_IPI cpu vector) s =
    Inr (record_event (Call_ipi k (Send_IPI cpu (w_posted_intr_vector w)))
      (s\<lparr>pir := insert (pir_bit (slot s (nat cpu)) vector) (pir s)\<rparr>))"
proof -
  obtain ops k where "ipi s = Some ops"
    and "slot_of ops (Send_IPI cpu (w_posted_intr_vector w)) = Kernel_fn k"
    using assms(1) by (rule saved_op)
  with assms(2) show ?thesis
    by (intro exI [of _ k]) (simp add: did_send_IPI_def post_to_ok [OF assms(3)])
qed

lemma guest_genuine: "saved_genuine guest"
  by (simp add: saved_genuine_def guest_simps)

theorem ipi_posts_and_notifies_witness:
  "\<exists>k t. call_ipi 2 guest_world Did_fn (Send_IPI 1 0x31) guest = Inr t \<and>
     pir t = {8 * 0x11040 + 0x31} \<and> events t = [Call_ipi k (Send_IPI 1 0xf2)]"
proof -
  have "dipi guest" and "can_post guest 0x31 1"
    by (simp_all add: guest_simps can_post_def did_at_def vec32_def)
  from ipi_posts_and_notifies [OF guest_genuine this, of 0 guest_world]
  obtain k where k: "call_ipi (Suc (Suc 0)) guest_world Did_fn (Send_IPI 1 0x31) guest =
    Inr (record_event (Call_ipi k (Send_IPI 1 (w_posted_intr_vector guest_world)))
      (guest\<lparr>pir := insert (pir_bit (slot guest (nat 1)) 0x31) (pir guest)\<rparr>))" by blast
  have b: "pir_bit (slot guest (nat 1)) 0x31 = 8 * 0x11040 + 0x31"
    by (simp add: guest_simps pir_bit_def vec32_def)
  have e: "events guest = []" "pir guest = {}" "w_posted_intr_vector guest_world = 0xf2"
    by (simp_all add: guest_simps)
  show ?thesis
    using k unfolding b by (auto simp: numeral_2_eq_2 e simp del: call_ipi.simps)
qed

text \<open>The "all but self" IPI posts its vector to every other cpu of the mask and not to the sender,
  but then calls the kernel's function for the whole mask: the sender is notified too. With direct
  IPIs off the caller's own vector is sent to the whole mask, sender included.\<close>

theorem ipi_allbutself_notifies_self:
  assumes "saved_genuine s"
    and "\<And>c. c \<in> set cpus \<Longrightarrow> c \<noteq> w_cpu w \<Longrightarrow> can_post s vector (int c)"
  shows "\<exists>k. call_ipi (Suc (Suc n)) w Did_fn (Send_IPI_mask_allbutself cpus vector) s =
    Inr (if dipi s
         then record_event (Call_ipi k (Send_IPI_mask cpus (w_posted_intr_vector w)))
           (s\<lparr>pir := pir s \<union> (\<lambda>c. pir_bit (slot s c) vector) ` {c \<in> set cpus. c \<noteq> w_cpu w}\<rparr>)
         else record_event (Call_ipi k (Send_IPI_mask cpus vector)) s)"
proof -
  obtain ops where ops: "ipi s = Some ops" and "\<And>req. \<exists>k. slot_of ops req = Kernel_fn k"
    using assms(1) by (rule saved_genuineE) blast
  then obtain k where k: "op_send_IPI_mask ops = Kernel_fn k"
    by (metis slot_of.simps(2))
  have loop: "foldR (\<lambda>c s. if c = w_cpu w then Inr s else post_to vector (int c) s) cpus s =
    Inr (s\<lparr>pir := pir s \<union> (\<lambda>c. pir_bit (slot s c) vector) ` {c \<in> set cpus. c \<noteq> w_cpu w}\<rparr>)"
    by (rule post_loop) (rule assms(2))
  show ?thesis
    using ops k loop by (intro exI [of _ k]) (simp add: did_send_IPI_mask_allbutself_def)
qed

theorem ipi_allbutself_notifies_self_witness:
  "\<exists>k t. call_ipi 2 guest_world Did_fn (Send_IPI_mask_allbutself [0, 1] 0x31) guest = Inr t \<and>
     w_cpu guest_world = 0 \<and> pir t = {8 * 0x11040 + 0x31} \<and>
     events t = [Call_ipi k (Send_IPI_mask [0, 1] 0xf2)]"
proof -
  have "can_post guest 0x31 (int c)" if "c \<in> set [0, 1]" for c
    using that by (auto simp: guest_simps can_post_def did_at_def vec32_def)
  then obtain k where k: "call_ipi (Suc (Suc 0)) guest_world Did_fn (Send_IPI_mask_allbutself [0, 1] 0x31) guest =
      Inr (if dipi guest
         then record_event (Call_ipi k (Send_IPI_mask [0, 1] (w_posted_intr_vector guest_world)))
           (guest\<lparr>pir := pir guest \<union> (\<lambda>c. pir_bit (slot guest c) 0x31) `
             {c \<in> set [0, 1]. c \<noteq> w_cpu guest_world}\<rparr>)
         else record_event (Call_ipi k (Send_IPI_mask [0, 1] 0x31)) guest)"
    using ipi_allbutself_notifies_self [OF guest_genuine, of "[0, 1]" guest_world "0x31" 0] by blast
  have one: "{c. (c = 0 \<or> c = Suc 0) \<and> 0 < c} = {Suc 0}" by auto
  have b: "pir_bit (slot guest (Suc 0)) 0x31 = 8 * 0x11040 + 0x31"
    by (simp add: guest_simps pir_bit_def vec32_def)
  have e: "events guest = []" "pir guest = {}" "w_posted_intr_vector guest_world = 0xf2" "dipi guest"
      "w_cpu guest_world = 0"
    by (simp_all add: guest_simps)
  show ?thesis
    using k by (simp add: numeral_2_eq_2 e one b del: call_ipi.simps)
qed

section \<open>Installing the interrupt functions\<close>

text \<open>A saved set of pointers that is the module's own never reaches the kernel.\<close>

lemma own_ops_slot [simp]: "slot_of did_ops req = Did_fn"
  by (cases req) (simp_all add: did_ops_def)

lemma post_to_ipi: "post_to v c s = Inr t \<Longrightarrow> ipi t = ipi s"
  using post_to_frame by blast

lemma did_fn_fails:
  assumes "ipi s = Some ops" and "\<And>req t. ipi t = Some ops \<Longrightarrow> \<exists>e. call req t = Inl e"
  shows "\<exists>e. did_fn call w req s = Inl e"
proof -
  have tail: "\<exists>e. bindR m (call req') = Inl e"
    if "\<And>t. m = Inr t \<Longrightarrow> ipi t = Some ops" for m :: "kernel kres" and req'
    using that assms(2) by (cases m) auto
  show ?thesis
  proof (cases req)
    case (Send_IPI c v)
    show ?thesis
      using assms tail [of "post_to v c s"]
      by (simp add: Send_IPI did_send_IPI_def post_to_ipi)
  next
    case (Send_IPI_mask m v)
    show ?thesis
      using assms tail [of "foldR (\<lambda>cpu. post_to v (int cpu)) m s"]
      by (simp add: Send_IPI_mask did_send_IPI_mask_def foldR_post_all_frame)
  next
    case (Send_IPI_mask_allbutself m v)
    show ?thesis
      using assms tail [of "foldR (\<lambda>q s. if q = w_cpu w then Inr s else post_to v (int q) s) m s"]
      by (simp add: Send_IPI_mask_allbutself did_send_IPI_mask_allbutself_def foldR_post_frame)
  next
    case (Send_IPI_allbutself v)
    show ?thesis
      using assms tail [of "foldR (\<lambda>q s. if q = w_cpu w then Inr s else post_to v (int q) s) (w_online w) s"]
      by (simp add: Send_IPI_allbutself did_send_IPI_allbutself_def did_send_IPI_mask_allbutself_def
          foldR_post_frame)
  next
    case (Send_IPI_all v)
    show ?thesis
      using assms tail [of "foldR (\<lambda>cpu. post_to v (int cpu)) (w_online w) s"]
      by (simp add: Send_IPI_all did_send_IPI_all_def did_send_IPI_mask_def foldR_post_all_frame)
  next
    case (Send_IPI_self v)
    show ?thesis
      using assms tail [of "post_to v (int (w_cpu w)) s"]
      by (simp add: Send_IPI_self did_send_IPI_self_def post_to_ipi)
  qed
qed

lemma own_ops_never_return:
  "ipi s = Some did_ops \<Longrightarrow> \<exists>e. call_ipi fuel w Did_fn req s = Inl e"
proof (induction fuel arbitrary: req s)
  case (Suc fuel)
  show ?case
    unfolding call_ipi.simps ipi_fn.simps
    by (rule did_fn_fails [OF Suc.prems]) (simp add: Suc.IH)
qed simp

text \<open>On a write-protected kernel, installing the interrupt functions (\<open>set_apic_ipi\<close>) and removing
  them (\<open>restore_apic_ipi\<close>) leaves the kernel's six pointers, the protection bit and the rest of
  \<open>cr0\<close> as they were, interrupts enabled, and in between all six pointers are the module's.\<close>

theorem apic_hook_roundtrip:
  assumes "apic_ready s"
  shows "\<exists>t u. set_apic_ipi s = Inr t \<and> restore_apic_ipi t = Inr u \<and>
    (\<forall>req. slot_of (apic t) req = Did_fn) \<and> apic u = apic s \<and> cr0 u = cr0 s \<and> irqs_enabled u"
proof -
  obtain t u where t: "set_apic_ipi s = Inr t" and u: "restore_apic_ipi t = Inr u"
    and ours: "apic t = did_ops" and kept: "apic u = apic s"
    using apic_hook.hook_roundtrip [OF assms] by blast
  have "t = s\<lparr>ipi := Some (apic s), apic := did_ops, irqs_enabled := True\<rparr>"
    using t set_apic_ready [OF assms] by simp
  then have "apic_ready t" and "cr0 t = cr0 s" using assms by (simp_all add: apic_ready_def)
  then have "cr0 u = cr0 s \<and> irqs_enabled u" using u restore_apic_ready by auto
  with t u ours kept show ?thesis by auto
qed

lemma guest_apic_ready: "apic_ready guest"
  by (simp add: apic_ready_def guest_simps)

theorem apic_hook_roundtrip_witness:
  "\<exists>t u. set_apic_ipi guest = Inr t \<and> restore_apic_ipi t = Inr u \<and> apic u = kernel_ops \<and>
     cr0 u = 0x80050033"
proof -
  have "apic guest = kernel_ops" and "cr0 guest = 0x80050033" by (simp_all add: guest_def)
  with apic_hook_roundtrip [OF guest_apic_ready] show ?thesis by auto
qed

text \<open>Installing the interrupt functions twice makes the module's own functions the saved ones:
  removing them no longer brings the kernel's back, and every IPI of every kind faults or exhausts
  the stack, whatever the depth of the stack.\<close>

theorem apic_double_install:
  assumes "apic_ready s"
  shows "\<exists>t u v. set_apic_ipi s = Inr t \<and> set_apic_ipi t = Inr u \<and> restore_apic_ipi u = Inr v \<and>
    apic v = did_ops \<and> (\<forall>fuel w req. \<exists>e. call_ipi fuel w (slot_of (apic v) req) req v = Inl e)"
proof -
  obtain t u v where steps: "set_apic_ipi s = Inr t" "set_apic_ipi t = Inr u" "restore_apic_ipi u = Inr v"
    and saved: "the (ipi u) = did_ops" and live: "apic v = did_ops"
    using apic_hook.double_install_leaks [OF assms] by blast
  have t: "t = s\<lparr>ipi := Some (apic s), apic := did_ops, irqs_enabled := True\<rparr>"
    using steps(1) set_apic_ready [OF assms] by simp
  then have rt: "apic_ready t" using assms by (simp add: apic_ready_def)
  have u: "u = t\<lparr>ipi := Some (apic t), apic := did_ops, irqs_enabled := True\<rparr>"
    using steps(2) set_apic_ready [OF rt] by simp
  then have ru: "apic_ready u" using rt by (simp add: apic_ready_def)
  have "ipi v = Some did_ops"
    using steps(3) restore_apic_ready [OF ru] u t by auto
  with steps live own_ops_never_return show ?thesis by fastforce
qed

theorem apic_double_install_witness:
  "\<exists>t u v. set_apic_ipi guest = Inr t \<and> set_apic_ipi t = Inr u \<and> restore_apic_ipi u = Inr v \<and>
     (\<exists>e. call_ipi 50 guest_world (op_send_IPI (apic v)) (Send_IPI 1 0x31) v = Inl e)"
proof -
  obtain t u v where steps: "set_apic_ipi guest = Inr t" "set_apic_ipi t = Inr u"
      "restore_apic_ipi u = Inr v"
    and never: "\<And>fuel w req. \<exists>e. call_ipi fuel w (slot_of (apic v) req) req v = Inl e"
    using apic_double_install [OF guest_apic_ready] by blast
  from never [where fuel = 50 and w = guest_world and req = "Send_IPI 1 0x31"] steps show ?thesis by auto
qed

section \<open>The device and its life cycle\<close>

text \<open>C2: Load the module (\<open>my_init\<close>, with nothing logged before it and any answers of the allocator,
  failures included), issue any sequence of ioctls, from whichever cpus and with whatever answers of
  the host, and unload it: unloading never faults, and \<open>kfree\<close> has then been given, in order, exactly
  the answers the allocator gave to the page requests (each page once, and null for a request that
  failed), one request per cpu when the slot array was granted and none otherwise; the slot array and
  the saved functions are freed exactly when they were granted, and neither is left.\<close>

theorem module_no_leak:
  assumes "events s = []" and "dids s = None" and "ipi s = None"
    and "my_init w s = Inr (0, t)" and "ioctl_session cs t = Inr u"
  shows "\<exists>v. my_exit u = Inr v \<and> dids v = None \<and> ipi v = None \<and>
    freed v = answers (\<lambda>e. e = Kmalloc_page) w v \<and>
    length (freed v) = (if granted is_calloc w v = 0 then 0 else length (w_online w)) \<and>
    calls Kfree_dids v = granted is_calloc w v \<and>
    calls Kfree_ipi v = granted (\<lambda>e. e = Kzalloc_ipi) w v"
proof -
  have none: "freed s = []" "calls Kfree_dids s = 0"
    using assms(1) by (simp_all add: freed_def calls_def)
  have t: "did_wf t" "pages_accounted w t" "freed t = []" "calls Kfree_dids t = 0"
    "ncpus t = length (w_online w)"
    using my_init_ok [OF _ pages_accounted_fresh, of s w] none assms(1-4) by (auto simp: did_wf_def)
  have k: "keeps_pages t u" using assms(5) by (rule keeps_session)
  then have same: "tallies w u = tallies w t" by (simp add: keeps_pages_def tallies_def answers_def)
  have "did_wf u" "pages_accounted w u"
    using k t by (auto intro: keeps_pages_wf keeps_pages_accounted)
  from deallocate_ok [OF this] obtain v where v: "deallocate u = Inr v" "dids v = None" "ipi v = None"
    "pages_accounted w v" "pages_given w v = pages_given w u" "answers is_calloc w v = answers is_calloc w u"
    by blast
  have "length (pages_given w t) = (if granted is_calloc w t = 0 then 0 else length (w_online w))"
    using t by (auto simp: pages_accounted_def held_pages_def did_wf_def split: option.splits)
  with v same show ?thesis
    by (auto simp: my_exit_def pages_accounted_def held_pages_def tallies_def
        answers_record_event calls_record_event)
qed

definition unloaded_guest :: kernel where
  "unloaded_guest = guest\<lparr>dids := None, ipi := None, ncpus := 0, lapic_events := 0\<rparr>"

lemma no_such_code: "0 \<notin> range ioctl_code"
proof
  assume "0 \<in> range ioctl_code"
  then obtain c where "ioctl_code c = 0" by (metis imageE)
  then show False by (cases c) (simp_all add: IO_k_def IOW_k_def)
qed

lemma my_ioctl_zero: "my_ioctl fuel w 0 arg s = Inr (- EINVAL, s)"
  using no_such_code by (intro my_ioctl_unknown) (metis rangeI)

theorem module_no_leak_witness:
  "\<exists>t u v. my_init guest_world unloaded_guest = Inr (0, t) \<and>
     ioctl_session [(2, guest_world, ioctl_code SET_X2APIC_ID, 0), (2, guest_world, 0, 0)] t = Inr u \<and>
     my_exit u = Inr v \<and> freed v = [0x12000, 0x13000] \<and>
     answers (\<lambda>e. e = Kmalloc_page) guest_world v = [0x12000, 0x13000] \<and> calls Kfree_dids v = 1"
proof -
  have a: "events unloaded_guest = []" "dids unloaded_guest = None" "ipi unloaded_guest = None"
    by (simp_all add: unloaded_guest_def guest_simps)
  have "case my_init guest_world unloaded_guest of Inl _ \<Rightarrow> False
      | Inr (r, t) \<Rightarrow> r = 0 \<and> (case my_exit (set_x2apic_id guest_world t) of Inl _ \<Rightarrow> False
        | Inr v \<Rightarrow> freed v = [0x12000, 0x13000] \<and> calls Kfree_dids v = 1)"
    by code_simp
  then obtain t v where t: "my_init guest_world unloaded_guest = Inr (0, t)"
    and v: "my_exit (set_x2apic_id guest_world t) = Inr v"
      "freed v = [0x12000, 0x13000]" "calls Kfree_dids v = 1"
    by (cases "my_exit (set_x2apic_id guest_world (snd (projr (my_init guest_world unloaded_guest))))")
      (auto split: sum.splits)
  have u: "ioctl_session [(2, guest_world, ioctl_code SET_X2APIC_ID, 0), (2, guest_world, 0, 0)] t =
      Inr (set_x2apic_id guest_world t)"
    unfolding ioctl_session.simps my_ioctl_code
    by (simp add: my_ioctl_zero)
  from module_no_leak [OF a t u] t u v show ?thesis by auto
qed

text \<open>The dispatcher of the device: each command code of \<open>did.h\<close> runs the body of its own case (the
  overlapping type and number fields notwithstanding, no two codes are equal), and any other code
  returns -EINVAL and changes nothing.\<close>

theorem ioctl_dispatch:
  "(\<forall>c. my_ioctl fuel w (ioctl_code c) arg s = ioctl_body fuel w c arg s) \<and>
   (\<forall>cmd. cmd \<notin> range ioctl_code \<longrightarrow> my_ioctl fuel w cmd arg s = Inr (- EINVAL, s))"
  by (auto simp: my_ioctl_code image_iff intro: my_ioctl_unknown)

theorem ioctl_dispatch_witness:
  "my_ioctl 2 guest_world 0 0 guest = Inr (- EINVAL, guest)"
  using ioctl_dispatch [of 2 guest_world 0 guest] no_such_code by blast

text \<open>The module loads although its allocations failed (\<open>my_init\<close> drops the result of
  \<open>allocate\<close>), and the first command that reads a slot then dereferences a null pointer.\<close>

theorem init_ignores_allocation_failure:
  assumes "\<And>es. w_alloc w es = 0" and "w_misc_register w = 0" and "w_online w \<noteq> []"
  shows "\<exists>t. my_init w s = Inr (0, t) \<and> dids t = None \<and> ipi t = None \<and>
    (\<forall>fuel arg. my_ioctl fuel w (ioctl_code PRINT_DID) arg t = Inl Null_deref)"
proof -
  obtain t where t: "my_init w s = Inr (0, t)" "dids t = None" "ipi t = None" "ncpus t = length (w_online w)"
    using assms(1,2) by (simp add: my_init_def allocate_def touch_page_def Let_def)
  with assms(3) have "[0..<ncpus t] = 0 # [Suc 0..<ncpus t]"
    by (simp add: upt_conv_Cons)
  with t have "print_did t = Inl Null_deref"
    by (simp add: print_did_def did_at_def)
  then have "my_ioctl fuel w (ioctl_code PRINT_DID) arg t = Inl Null_deref" for fuel arg
    by (simp only: my_ioctl_code) simp
  with t show ?thesis by blast
qed

theorem init_ignores_allocation_failure_witness:
  "\<exists>t. my_init (guest_world\<lparr>w_alloc := (\<lambda>_. 0)\<rparr>) unloaded_guest = Inr (0, t) \<and>
     my_ioctl 2 (guest_world\<lparr>w_alloc := (\<lambda>_. 0)\<rparr>) (ioctl_code PRINT_DID) 0 t = Inl Null_deref"
  using init_ignores_allocation_failure [of "guest_world\<lparr>w_alloc := (\<lambda>_. 0)\<rparr>" unloaded_guest]
  by (auto simp: guest_world_def)

end
