(* ===== verification/C_Lib.thy ===== *)
theory C_Lib
  imports Prelude
begin

text \<open>
  What the user programs use of the C library: \<open>strtoul\<close>, \<open>strtol\<close> and \<open>atoi\<close> on a 64-bit machine,
  the \<open>ioctl\<close> wrapper that turns a negative return of the driver into -1 with \<open>errno\<close>, the ioctl
  number encoding, and the contract every driver of the repository keeps (\<open>ioctl_device\<close>).
\<close>

section \<open>Numbers in strings\<close>

definition isspace_c :: "char \<Rightarrow> bool" where
  "isspace_c c \<longleftrightarrow> of_char c = (32 :: nat) \<or> (9 \<le> (of_char c :: nat) \<and> (of_char c :: nat) \<le> 13)"

definition digit_val :: "nat \<Rightarrow> char \<Rightarrow> nat option" where
  "digit_val base c =
     (let n = of_char c :: nat;
          d = (if 48 \<le> n \<and> n \<le> 57 then n - 48
               else if 97 \<le> n \<and> n \<le> 122 then n - 87
               else if 65 \<le> n \<and> n \<le> 90 then n - 55
               else base)
      in if d < base then Some d else None)"

fun read_digits :: "nat \<Rightarrow> nat \<Rightarrow> string \<Rightarrow> nat" where
  "read_digits base acc [] = acc"
| "read_digits base acc (c # cs) =
     (case digit_val base c of None \<Rightarrow> acc | Some d \<Rightarrow> read_digits base (acc * base + d) cs)"

text \<open>An optional \<open>0x\<close> in base 16 counts only when a digit follows.\<close>

fun skip_prefix :: "nat \<Rightarrow> string \<Rightarrow> string" where
  "skip_prefix base (z # x # d # cs) =
     (if base = 16 \<and> z = CHR ''0'' \<and> (x = CHR ''x'' \<or> x = CHR ''X'') \<and> digit_val 16 d \<noteq> None
      then d # cs else z # x # d # cs)"
| "skip_prefix base cs = cs"

fun read_sign :: "string \<Rightarrow> bool \<times> string" where
  "read_sign (c # cs) =
     (if c = CHR ''-'' then (True, cs) else if c = CHR ''+'' then (False, cs) else (False, c # cs))"
| "read_sign [] = (False, [])"

definition read_number :: "nat \<Rightarrow> string \<Rightarrow> bool \<times> nat" where
  "read_number base s =
     (let (neg, t) = read_sign (dropWhile isspace_c s) in (neg, read_digits base 0 (skip_prefix base t)))"

definition strtoul :: "nat \<Rightarrow> string \<Rightarrow> u64" where
  "strtoul base s =
     (let (neg, n) = read_number base s
      in if 2 ^ 64 \<le> n then - 1 else if neg then - of_nat n else of_nat n)"

definition strtol :: "nat \<Rightarrow> string \<Rightarrow> int" where
  "strtol base s =
     (let (neg, n) = read_number base s
      in if neg then max (- (2 ^ 63)) (- int n) else min (2 ^ 63 - 1) (int n))"

text \<open>\<open>atoi\<close> is \<open>(int) strtol(s, NULL, 10)\<close>.\<close>

definition atoi :: "string \<Rightarrow> int" where
  "atoi s = to_int (int_to_ulong (strtol 10 s))"

section \<open>ioctl\<close>

text \<open>\<open>_IOR(type, nr, size)\<close> of \<open>linux/ioctl.h\<close>.\<close>

definition IOR_k :: "nat \<Rightarrow> nat \<Rightarrow> nat" where
  "IOR_k nr sz = or (or (or 0x80000000 (sz * 0x10000)) 0x6b00) nr"

text \<open>The value the C library returns for a driver's return, and \<open>errno\<close> when it is -1.\<close>

definition ioctl_result :: "int \<Rightarrow> int \<times> int option" where
  "ioctl_result r = (if - 4095 \<le> r \<and> r < 0 then (- 1, Some (- r)) else (r, None))"

text \<open>
  A driver's \<open>unlocked_ioctl\<close>: a command outside \<open>codes\<close> is refused and changes nothing, and every
  return is 0 or a negated errno.
\<close>

locale ioctl_device =
  fixes dev :: "nat \<Rightarrow> u64 \<Rightarrow> 's \<Rightarrow> 'e + int \<times> 's"
    and codes :: "nat set"
  assumes unknown_law: "cmd \<notin> codes \<Longrightarrow> dev cmd arg s = Inr (- EINVAL, s)"
    and errno_law: "dev cmd arg s = Inr (r, t) \<Longrightarrow> - 4095 \<le> r \<and> r \<le> 0"
begin

lemma user_fails_iff:
  "dev cmd arg s = Inr (r, t) \<Longrightarrow> fst (ioctl_result r) < 0 \<longleftrightarrow> r < 0"
  using errno_law by (auto simp: ioctl_result_def)

lemma user_errno:
  "dev cmd arg s = Inr (r, t) \<Longrightarrow> r < 0 \<Longrightarrow> ioctl_result r = (- 1, Some (- r))"
  using errno_law by (auto simp: ioctl_result_def)

lemma user_ok:
  "dev cmd arg s = Inr (r, t) \<Longrightarrow> \<not> r < 0 \<Longrightarrow> ioctl_result r = (0, None)"
  using errno_law [of cmd arg s r t] by (auto simp: ioctl_result_def)

lemma unknown_user: "cmd \<notin> codes \<Longrightarrow> \<exists>r. dev cmd arg s = Inr (r, s) \<and> ioctl_result r = (- 1, Some EINVAL)"
  using unknown_law by (simp add: ioctl_result_def)

end

end
