(* ===== verification/Run_Did.thy ===== *)
theory Run_Did
  imports Did_Ipi_Props C_Lib
begin

text \<open>
  The command line program \<open>guest-share-pid/run_did.c\<close> that drives \<open>/dev/did\<close>: the options of its
  usage text, the options it accepts with the command each issues, and \<open>main\<close> run against the
  module's own dispatcher. What is printed is a list of messages.
\<close>

datatype message = Usage | Perror string | No_such_option string

text \<open>The names the usage text lists.\<close>

definition usage_options :: "string list" where
  "usage_options =
     [''set_event_handler'', ''restore_event_handler'', ''print_did'', ''set_clockevent_factor'',
      ''restore_clockevent_factor'', ''set_apic_ipi'', ''restore_apic_ipi'', ''page_talk_init_mm'',
      ''set_x2apic_id'', ''get_x2apic_id'', ''restore_x2apic_id'', ''send_ipi'',
      ''hc_set_cpu_exec_vmcs'', ''hc_restore_cpu_exec_vmcs'', ''hc_get_clockevent_mult'',
      ''hc_get_clockevent_shift'', ''hc_map_pid'', ''hc_unmap_pid'', ''hc_page_walk'',
      ''hc_set_x2apic_id'', ''hc_restore_x2apic_id'', ''hc_setup_dtid'', ''hc_restore_dtid'',
      ''hc_disable_intercept_wrmsr_icr'', ''enable_intercept_wrmsr_icr'']"

text \<open>The tests of the \<open>if\<close> chain, in its order, with the command each issues.\<close>

definition accepted_options :: "(string \<times> ioctl_cmd) list" where
  "accepted_options =
     [(''set_event_handler'', SET_TIMER_EVENT_HANDLER),
      (''restore_event_handler'', RESTORE_TIMER_EVENT_HANDLER),
      (''print_did'', PRINT_DID),
      (''set_clockevent_factor'', SET_CLOCKEVENT_FACTOR),
      (''restore_clockevent_factor'', RESTORE_CLOCKEVENT_FACTOR),
      (''set_apic_ipi'', SET_APIC_IPI),
      (''restore_apic_ipi'', RESTORE_APIC_IPI),
      (''get_x2apic_id'', GET_X2APIC_ID),
      (''set_x2apic_id'', SET_X2APIC_ID),
      (''restore_x2apic_id'', RESTORE_X2APIC_ID),
      (''set_x2apic_id2'', SET_X2APIC_ID2),
      (''page_walk_init_mm'', PAGE_WALK_INIT_MM),
      (''send_ipi'', SEND_IPI),
      (''hc_set_cpu_exec_vmcs'', HC_SET_CPU_EXEC_VMCS),
      (''hc_restore_cpu_exec_vmcs'', HC_RESTORE_CPU_EXEC_VMCS),
      (''hc_get_clockevent_mult'', HC_GET_CLOCKEVENT_MULT),
      (''hc_get_clockevent_shift'', HC_GET_CLOCKEVENT_SHIFT),
      (''hc_map_pid'', HC_MAP_PID),
      (''hc_unmap_pid'', HC_UNMAP_PID),
      (''hc_page_walk'', HC_PAGE_WALK),
      (''hc_set_x2apic_id'', HC_SET_X2APIC_ID),
      (''hc_restore_x2apic_id'', HC_RESTORE_X2APIC_ID),
      (''hc_setup_dtid'', HC_SETUP_DTID),
      (''hc_restore_dtid'', HC_RESTORE_DTID),
      (''hc_disable_intercept_wrmsr_icr'', HC_DISABLE_INTERCEPT_WRMSR_ICR),
      (''hc_enable_intercept_wrmsr_icr'', HC_ENABLE_INTERCEPT_WRMSR_ICR)]"

text \<open>\<open>argv[i]\<close> used as a string: \<open>argv[argc]\<close> is null.\<close>

definition argv_at :: "string list \<Rightarrow> nat \<Rightarrow> string kres" where
  "argv_at argv i = (if i < length argv then Inr (argv ! i) else Inl Null_deref)"

text \<open>
  The third argument of the \<open>ioctl\<close> call and the user memory it points to. The \<open>ipi_t\<close> of
  \<open>send_ipi\<close> is a local variable at address \<open>frame\<close>. The commands issued without a third argument
  leave it unspecified; their cases do not read it, and 0 stands for it.
\<close>

definition ioctl_arg :: "u64 \<Rightarrow> world \<Rightarrow> ioctl_cmd \<Rightarrow> string list \<Rightarrow> (u64 \<times> world) kres" where
  "ioctl_arg frame w c argv =
     (if c = SET_X2APIC_ID2
      then bindR (argv_at argv 2) (\<lambda>a. Inr (strtoul 16 a, w))
      else if c = SEND_IPI
      then bindR (argv_at argv 2) (\<lambda>a. bindR (argv_at argv 3) (\<lambda>b.
             Inr (frame, w\<lparr>w_user_ipi := (w_user_ipi w)(frame := Some (atoi a, to_int (strtoul 16 b)))\<rparr>)))
      else Inr (0, w))"

text \<open>\<open>main\<close>: \<open>fd\<close> is what \<open>open\<close> returned; the result is the exit value, the messages and the kernel.\<close>

definition run_did ::
  "nat \<Rightarrow> u64 \<Rightarrow> int \<Rightarrow> world \<Rightarrow> string list \<Rightarrow> kernel \<Rightarrow> (int \<times> message list \<times> kernel) kres" where
  "run_did fuel frame fd w argv s =
     (if length argv < 2 then Inr (- 1, [Usage], s)
      else if fd < 0 then Inr (- 2, [Perror ''open''], s)
      else case map_of accepted_options (argv ! 1) of
          None \<Rightarrow> Inr (0, [No_such_option (argv ! 1)], s)
        | Some c \<Rightarrow>
            bindR (ioctl_arg frame w c argv) (\<lambda>(arg, w).
            bindR (my_ioctl fuel w (ioctl_code c) arg s) (\<lambda>(r, s).
              let (res, errno) = ioctl_result r
              in if res < 0 then Inr (- the errno, [Perror ''ioctl''], s) else Inr (0, [], s))))"

section \<open>Lemmas\<close>

lemma set_factor_errno: "set_clockevent_factor w s = Inr (r, t) \<Longrightarrow> r = 0 \<or> r = - EAGAIN"
  by (auto simp: set_clockevent_factor_def Let_def bindR_eq_Inr split: prod.splits if_splits)

lemma setup_dtid_errno: "hc_setup_dtid w s = Inr (r, t) \<Longrightarrow> r = 0 \<or> r = - EAGAIN"
  by (auto simp: hc_setup_dtid_def kvm_hypercall_def Let_def bindR_eq_Inr
      split: prod.splits if_splits dest: set_factor_errno)

lemma again_errno: "again_unless m = Inr (r, t) \<Longrightarrow> r = 0 \<or> r = - EAGAIN"
  by (auto simp: again_unless_def bindR_eq_Inr split: if_splits)

lemma ioctl_body_errno: "ioctl_body fuel w c arg s = Inr (r, t) \<Longrightarrow> r = 0 \<or> r = - EAGAIN"
  by (cases c) (auto simp: bindR_eq_Inr dest: set_factor_errno setup_dtid_errno again_errno)

lemma my_ioctl_errno: "my_ioctl fuel w cmd arg s = Inr (r, t) \<Longrightarrow> r \<in> {0, - EAGAIN, - EINVAL}"
  by (auto simp: my_ioctl_def split: option.splits dest: ioctl_body_errno)

interpretation did_device: ioctl_device "my_ioctl fuel w" "range ioctl_code" for fuel w
proof unfold_locales
  fix cmd arg and s :: kernel
  assume "cmd \<notin> range ioctl_code"
  then show "my_ioctl fuel w cmd arg s = Inr (- EINVAL, s)"
    by (intro my_ioctl_unknown) auto
next
  fix cmd arg and s t :: kernel and r
  assume "my_ioctl fuel w cmd arg s = Inr (r, t)"
  then show "- 4095 \<le> r \<and> r \<le> 0" by (auto dest: my_ioctl_errno)
qed

section \<open>Properties\<close>

text \<open>Running the program with an option it accepts and the arguments that option needs issues
  exactly that option's command to the module; the program fails exactly when the module's command
  fails, its exit value is then the module's negative error number, and the kernel state is the one
  the command left.\<close>

theorem run_did_option:
  assumes "map_of accepted_options op = Some c" and "0 \<le> fd"
    and "ioctl_arg frame w c (prog # op # args) = Inr (arg, w')"
    and "ioctl_body fuel w' c arg s = Inr (r, t)"
  shows "run_did fuel frame fd w (prog # op # args) s =
    Inr (r, if r < 0 then [Perror ''ioctl''] else [], t) \<and> (r = 0 \<or> r = - EAGAIN)"
proof -
  have i: "my_ioctl fuel w' (ioctl_code c) arg s = Inr (r, t)"
    using assms(4) by (simp only: my_ioctl_code)
  have r: "r = 0 \<or> r = - EAGAIN" by (rule ioctl_body_errno [OF assms(4)])
  show ?thesis
  proof (cases "r < 0")
    case True
    with assms(1-3) i r did_device.user_errno [OF i] show ?thesis
      by (simp add: run_did_def del: ioctl_code.simps)
  next
    case False
    with assms(1-3) i r did_device.user_ok [OF i] show ?thesis
      by (auto simp: run_did_def simp del: ioctl_code.simps)
  qed
qed

theorem run_did_option_witness:
  "\<exists>t. run_did 2 0x7ff0 3 guest_world [''run_did'', ''send_ipi'', ''1'', ''0x31''] guest = Inr (0, [], t) \<and>
     events t = [Call_ipi 1 (Send_IPI 1 0x31)]"
proof -
  let ?w = "guest_world\<lparr>w_user_ipi := (w_user_ipi guest_world)(0x7ff0 := Some (1, 0x31))\<rparr>"
  have o: "map_of accepted_options ''send_ipi'' = Some SEND_IPI" by (simp add: accepted_options_def)
  have a: "atoi ''1'' = 1" by code_simp
  have b: "to_int (strtoul 16 ''0x31'') = 0x31"
    by (simp add: strtoul_def read_number_def isspace_c_def digit_val_def to_int_def)
  have arg: "ioctl_arg 0x7ff0 guest_world SEND_IPI (''run_did'' # ''send_ipi'' # [''1'', ''0x31'']) =
      Inr (0x7ff0, ?w)"
    by (simp add: ioctl_arg_def argv_at_def a b)
  have body: "ioctl_body 2 ?w SEND_IPI 0x7ff0 guest =
      Inr (0, record_event (Call_ipi 1 (Send_IPI 1 0x31)) guest)"
    by (simp add: send_ipi_def guest_def kernel_ops_def numeral_2_eq_2)
  from run_did_option [OF o _ arg body, of 3] show ?thesis by (simp add: guest_def)
qed

text \<open>The usage text and the program disagree: of the options the text lists, exactly
  \<open>page_talk_init_mm\<close> and \<open>enable_intercept_wrmsr_icr\<close> are not accepted. Running one of them prints
  that there is no such option, issues no command, and still exits with 0.\<close>

theorem run_did_usage:
  "filter (\<lambda>op. map_of accepted_options op = None) usage_options =
     [''page_talk_init_mm'', ''enable_intercept_wrmsr_icr''] \<and>
   (map_of accepted_options op = None \<longrightarrow> 0 \<le> fd \<longrightarrow>
      run_did fuel frame fd w (prog # op # args) s = Inr (0, [No_such_option op], s))"
  by (simp add: usage_options_def accepted_options_def run_did_def)

theorem run_did_usage_witness:
  "run_did 2 0 3 guest_world [''run_did'', ''page_talk_init_mm''] guest =
     Inr (0, [No_such_option ''page_talk_init_mm''], guest)"
proof -
  have "map_of accepted_options ''page_talk_init_mm'' = None" by (simp add: accepted_options_def)
  with run_did_usage [of "''page_talk_init_mm''" 3] show ?thesis by simp
qed

end
