(* ===== verification/Vmcs.thy ===== *)
theory Vmcs
  imports C_Lib
begin

text \<open>
  Reading and writing VMCS fields from user space: the driver \<open>vmcs_configuration.c\<close> of
  \<open>/dev/vmcs_configuration\<close> and the program \<open>run_vmcs_configuration.c\<close>. The hypervisor's
  \<open>vmcs_read64\<close> and \<open>vmcs_write64\<close> are the functions \<open>rd\<close> and \<open>wr\<close> on an abstract hypervisor state
  \<open>'h\<close>; user memory maps an address to the \<open>vmcs_field_t\<close> there, when the page is mapped.
\<close>

record vmcs_field =
  vf_field :: u64
  vf_value :: u64

record 'h vmcs_sys =
  hyp :: 'h
  umem :: "u64 \<Rightarrow> vmcs_field option"
  uwritable :: "u64 \<Rightarrow> bool"

type_synonym 'h reader = "u64 \<Rightarrow> 'h \<Rightarrow> u64"
type_synonym 'h writer = "u64 \<Rightarrow> u64 \<Rightarrow> 'h \<Rightarrow> 'h"

section \<open>The driver\<close>

definition read_vm_exec_control :: "'h reader \<Rightarrow> u64 \<Rightarrow> 'h vmcs_sys \<Rightarrow> int \<times> 'h vmcs_sys" where
  "read_vm_exec_control rd arg s =
     (case umem s arg of
        None \<Rightarrow> (- EACCES, s)
      | Some data \<Rightarrow>
          let data = data\<lparr>vf_value := rd (vf_field data) (hyp s)\<rparr>
          in if uwritable s arg then (0, s\<lparr>umem := (umem s)(arg := Some data)\<rparr>) else (- EACCES, s))"

definition write_vm_exec_control :: "'h writer \<Rightarrow> u64 \<Rightarrow> 'h vmcs_sys \<Rightarrow> int \<times> 'h vmcs_sys" where
  "write_vm_exec_control wr arg s =
     (case umem s arg of
        None \<Rightarrow> (- EACCES, s)
      | Some data \<Rightarrow> (0, s\<lparr>hyp := wr (vf_field data) (vf_value data) (hyp s)\<rparr>))"

definition READ_VM_EXEC_CONTROL :: nat where
  "READ_VM_EXEC_CONTROL = IOR_k 1 8"

definition WRITE_VM_EXEC_CONTROL :: nat where
  "WRITE_VM_EXEC_CONTROL = IOR_k 2 8"

definition vmcs_ioctl ::
  "'h reader \<Rightarrow> 'h writer \<Rightarrow> nat \<Rightarrow> u64 \<Rightarrow> 'h vmcs_sys \<Rightarrow> int \<times> 'h vmcs_sys" where
  "vmcs_ioctl rd wr cmd arg s =
     (if cmd = READ_VM_EXEC_CONTROL then (0, snd (read_vm_exec_control rd arg s))
      else if cmd = WRITE_VM_EXEC_CONTROL then (0, snd (write_vm_exec_control wr arg s))
      else (- EINVAL, s))"

text \<open>\<open>my_initialize\<close> returns minus the error of \<open>misc_register\<close>.\<close>

definition vmcs_initialize :: "int \<Rightarrow> int" where
  "vmcs_initialize is_error = (if is_error < 0 then - is_error else 0)"

section \<open>The program\<close>

datatype vmcs_out = Out_usage | Out_perror string | Out_value u64 | Out_no_such_operation

definition read_vmcs_field ::
  "'h reader \<Rightarrow> 'h writer \<Rightarrow> u64 \<Rightarrow> 'h vmcs_sys \<Rightarrow> vmcs_out list \<times> 'h vmcs_sys" where
  "read_vmcs_field rd wr data s =
     (let (r, s) = vmcs_ioctl rd wr READ_VM_EXEC_CONTROL data s
      in (if fst (ioctl_result r) < 0 then [Out_perror ''ioctl''] else [], s))"

definition write_vmcs_field ::
  "'h reader \<Rightarrow> 'h writer \<Rightarrow> u64 \<Rightarrow> 'h vmcs_sys \<Rightarrow> vmcs_out list \<times> 'h vmcs_sys" where
  "write_vmcs_field rd wr data s =
     (let (r, s) = vmcs_ioctl rd wr WRITE_VM_EXEC_CONTROL data s
      in (if fst (ioctl_result r) < 0 then [Out_perror ''ioctl''] else [], s))"

definition print_field :: "u64 \<Rightarrow> 'h vmcs_sys \<Rightarrow> vmcs_out list" where
  "print_field data s = (case umem s data of None \<Rightarrow> [] | Some d \<Rightarrow> [Out_value (vf_value d)])"

text \<open>
  \<open>1 << shift\<close> in \<open>int\<close>: bit 31 is the sign bit, and a shift of 32 or more is undefined
  (\<open>None\<close>). The result is converted to 64 bits for the exclusive or.
\<close>

definition shifted_one :: "int \<Rightarrow> u64 option" where
  "shifted_one sh =
     (if 0 \<le> sh \<and> sh < 31 then Some (int_to_ulong (2 ^ nat sh))
      else if sh = 31 then Some (int_to_ulong (- (2 ^ 31))) else None)"

text \<open>
  \<open>main\<close>, with its local \<open>data\<close> at address \<open>data\<close> and the descriptor or \<open>errno\<close> that \<open>open\<close> gave;
  \<open>None\<close> is the undefined shift.
\<close>

definition run_vmcs ::
  "'h reader \<Rightarrow> 'h writer \<Rightarrow> u64 \<Rightarrow> int + int \<Rightarrow> string list \<Rightarrow> 'h vmcs_sys \<Rightarrow>
     (int \<times> vmcs_out list \<times> 'h vmcs_sys) option" where
  "run_vmcs rd wr data fd argv s =
     (if length argv < 3 then Some (1, [Out_usage], s)
      else case fd of
        Inl errno \<Rightarrow> Some (errno, [Out_perror ''open''], s)
      | Inr _ \<Rightarrow>
          let op = argv ! 1;
              field = int_to_ulong (strtol 16 (argv ! 2));
              shift = (if length argv = 4 then atoi (argv ! 3) else 0);
              s = s\<lparr>umem := (umem s)(data := Some \<lparr>vf_field = field, vf_value = 0\<rparr>),
                    uwritable := (uwritable s)(data := True)\<rparr>
          in if op = ''r''
             then let (o1, s) = read_vmcs_field rd wr data s in Some (0, o1 @ print_field data s, s)
             else if op = ''w''
             then if 0 \<le> shift
                  then let (o1, s) = read_vmcs_field rd wr data s
                       in case shifted_one shift of
                         None \<Rightarrow> None
                       | Some one \<Rightarrow>
                           let s = s\<lparr>umem := (umem s)(data :=
                                 map_option (\<lambda>d. d\<lparr>vf_value := xor (vf_value d) one\<rparr>) (umem s data))\<rparr>;
                               (o2, s) = write_vmcs_field rd wr data s
                           in Some (0, o1 @ o2 @ print_field data s, s)
                  else Some (0, [], s)
             else Some (0, [Out_no_such_operation], s))"

section \<open>Lemmas\<close>

lemma vmcs_codes [simp]: "WRITE_VM_EXEC_CONTROL \<noteq> READ_VM_EXEC_CONTROL"
  by (simp add: WRITE_VM_EXEC_CONTROL_def READ_VM_EXEC_CONTROL_def IOR_k_def)

interpretation vmcs_device: ioctl_device "\<lambda>cmd arg s. Inr (vmcs_ioctl rd wr cmd arg s)"
  "{READ_VM_EXEC_CONTROL, WRITE_VM_EXEC_CONTROL}" for rd wr
  by unfold_locales (auto simp: vmcs_ioctl_def split: if_splits)

text \<open>
  What VMREAD and VMWRITE promise of one writable field of \<open>k\<close> bits (16, 32 or 64; a high-half encoding
  is a field of 32 bits) of the current VMCS: a read is zero-extended, and gives back the low \<open>k\<close> bits
  of the last write to that field. Nothing is assumed of any other encoding: narrower fields, read-only
  fields and aliases of this field may behave as they like.
\<close>

definition stored_field :: "'h reader \<Rightarrow> 'h writer \<Rightarrow> u64 \<Rightarrow> nat \<Rightarrow> 'h \<Rightarrow> bool" where
  "stored_field rd wr f k h \<longleftrightarrow>
     rd f h = take_bit k (rd f h) \<and> (\<forall>v. rd f (wr f v h) = take_bit k v) \<and>
     (\<forall>v w. rd f (wr f w (wr f v h)) = take_bit k w)"

lemma stored_fieldD:
  assumes "stored_field rd wr f k h"
  shows "take_bit k (rd f h) = rd f h" and "rd f (wr f v h) = take_bit k v"
    and "rd f (wr f w (wr f v h)) = take_bit k w"
  using assms by (simp_all add: stored_field_def)

lemma run_vmcs_w:
  assumes "shifted_one (atoi sh) = Some one" and "0 \<le> atoi sh"
  shows "\<exists>t. run_vmcs rd wr data (Inr fd) [prog, ''w'', fld, sh] s =
      Some (0, [Out_value (xor (rd (int_to_ulong (strtol 16 fld)) (hyp s)) one)], t) \<and>
    hyp t = wr (int_to_ulong (strtol 16 fld)) (xor (rd (int_to_ulong (strtol 16 fld)) (hyp s)) one) (hyp s)"
  using assms
  by (simp add: run_vmcs_def read_vmcs_field_def write_vmcs_field_def vmcs_ioctl_def
      read_vm_exec_control_def write_vm_exec_control_def print_field_def ioctl_result_def Let_def)

text \<open>The bits that \<open>1 << BIT\<close> selects once it is converted to 64 bits.\<close>

definition flips :: "int \<Rightarrow> nat \<Rightarrow> bool" where
  "flips sh n \<longleftrightarrow> n < 64 \<and> (n = nat sh \<or> sh = 31 \<and> 31 \<le> n)"

lemma shifted_one_bits:
  assumes "0 \<le> sh" and "sh \<le> 31"
  obtains one where "shifted_one sh = Some one" and "\<And>n. bit one n = flips sh n"
proof (cases "sh = 31")
  case True
  have "shifted_one sh = Some (push_bit 31 (mask 33))"
    by (simp add: True shifted_one_def int_to_ulong_def push_bit_eq_mult mask_eq_exp_minus_1)
  moreover have "bit (push_bit 31 (mask 33) :: u64) n = flips sh n" for n
    by (auto simp: True flips_def bit_push_bit_iff bit_mask_iff)
  ultimately show thesis by (rule that)
next
  case False
  with assms have "shifted_one sh = Some (push_bit (nat sh) 1)"
    by (simp add: shifted_one_def int_to_ulong_def push_bit_eq_mult)
  moreover have "bit (push_bit (nat sh) 1 :: u64) n = flips sh n" for n
    using assms False by (auto simp: flips_def bit_push_bit_iff bit_exp_iff)
  ultimately show thesis by (rule that)
qed

lemma xor_twice: "take_bit k (xor (take_bit k (xor a b)) b) = take_bit k (a :: u64)"
  by (rule bit_eqI) (auto simp: bit_take_bit_iff bit_xor_iff)

lemma run_vmcs_outside:
  "atoi sh < 0 \<Longrightarrow> \<exists>t. run_vmcs rd wr data (Inr fd) [prog, ''w'', fld, sh] s = Some (0, [], t) \<and> hyp t = hyp s"
  "31 < atoi sh \<Longrightarrow> run_vmcs rd wr data (Inr fd) [prog, ''w'', fld, sh] s = None"
  by (simp_all add: run_vmcs_def read_vmcs_field_def vmcs_ioctl_def
      read_vm_exec_control_def shifted_one_def ioctl_result_def Let_def)

section \<open>Properties\<close>

text \<open>C7: Running \<open>run_vmcs_configuration w FIELD BIT\<close> with \<open>0 \<le> BIT \<le> 31\<close>, FIELD naming a writable field
  of \<open>k\<close> bits (a read is zero-extended and gives the low \<open>k\<close> bits of the last write to that same field;
  nothing is assumed of other fields), prints one value: the field with bit BIT flipped, and with bits
  31 to 63 all flipped when BIT is 31, whose \<open>1 << 31\<close> is sign-extended. The hypervisor writes that
  value to FIELD and does nothing else; the field then has exactly those flipped bits that lie below
  \<open>k\<close>, and a second run gives it its old value back. A negative BIT writes nothing, and a BIT above
  31 reaches an undefined shift.\<close>

theorem vmcs_toggle:
  assumes "f = int_to_ulong (strtol 16 fld)"
  shows "(\<forall>k. 0 \<le> atoi sh \<longrightarrow> atoi sh \<le> 31 \<longrightarrow> stored_field rd wr f k (hyp s) \<longrightarrow>
      (\<exists>v w t u. run_vmcs rd wr data (Inr fd) [prog, ''w'', fld, sh] s = Some (0, [Out_value v], t) \<and>
        hyp t = wr f v (hyp s) \<and>
        (\<forall>n. bit v n = (bit (rd f (hyp s)) n \<noteq> flips (atoi sh) n)) \<and>
        (\<forall>n. bit (rd f (hyp t)) n = (bit (rd f (hyp s)) n \<noteq> (n < k \<and> flips (atoi sh) n))) \<and>
        run_vmcs rd wr data (Inr fd) [prog, ''w'', fld, sh] t = Some (0, [Out_value w], u) \<and>
        rd f (hyp u) = rd f (hyp s))) \<and>
    (atoi sh < 0 \<longrightarrow> (\<exists>t. run_vmcs rd wr data (Inr fd) [prog, ''w'', fld, sh] s = Some (0, [], t) \<and>
      hyp t = hyp s)) \<and>
    (31 < atoi sh \<longrightarrow> run_vmcs rd wr data (Inr fd) [prog, ''w'', fld, sh] s = None)"
proof (intro conjI allI impI)
  fix k assume range: "0 \<le> atoi sh" "atoi sh \<le> 31" and law: "stored_field rd wr f k (hyp s)"
  obtain one where one: "shifted_one (atoi sh) = Some one" and bits: "\<And>n. bit one n = flips (atoi sh) n"
    using shifted_one_bits [OF range] by blast
  note run = run_vmcs_w [OF one range(1), where fld = fld, folded assms]
  obtain t where t: "run_vmcs rd wr data (Inr fd) [prog, ''w'', fld, sh] s =
      Some (0, [Out_value (xor (rd f (hyp s)) one)], t)" and ht: "hyp t = wr f (xor (rd f (hyp s)) one) (hyp s)"
    using run by blast
  obtain u where u: "run_vmcs rd wr data (Inr fd) [prog, ''w'', fld, sh] t =
      Some (0, [Out_value (xor (rd f (hyp t)) one)], u)" and hu: "hyp u = wr f (xor (rd f (hyp t)) one) (hyp t)"
    using run by blast
  have ft: "rd f (hyp t) = take_bit k (xor (rd f (hyp s)) one)"
    unfolding ht by (rule stored_fieldD(2) [OF law])
  have "rd f (hyp u) = take_bit k (xor (rd f (hyp t)) one)"
    unfolding hu unfolding ht by (rule stored_fieldD(3) [OF law])
  then have same: "rd f (hyp u) = rd f (hyp s)"
    by (simp only: ft xor_twice stored_fieldD(1) [OF law])
  have "bit (rd f (hyp s)) n \<longrightarrow> n < k" for n
    by (subst stored_fieldD(1) [OF law, symmetric]) (simp add: bit_take_bit_iff)
  then have "bit (rd f (hyp t)) n = (bit (rd f (hyp s)) n \<noteq> (n < k \<and> flips (atoi sh) n))" for n
    by (auto simp: ft bit_take_bit_iff bit_xor_iff bits)
  moreover have "bit (xor (rd f (hyp s)) one) n = (bit (rd f (hyp s)) n \<noteq> flips (atoi sh) n)" for n
    by (simp add: bit_xor_iff bits)
  ultimately show "\<exists>v w t u. run_vmcs rd wr data (Inr fd) [prog, ''w'', fld, sh] s = Some (0, [Out_value v], t) \<and>
        hyp t = wr f v (hyp s) \<and>
        (\<forall>n. bit v n = (bit (rd f (hyp s)) n \<noteq> flips (atoi sh) n)) \<and>
        (\<forall>n. bit (rd f (hyp t)) n = (bit (rd f (hyp s)) n \<noteq> (n < k \<and> flips (atoi sh) n))) \<and>
        run_vmcs rd wr data (Inr fd) [prog, ''w'', fld, sh] t = Some (0, [Out_value w], u) \<and>
        rd f (hyp u) = rd f (hyp s)"
    using t ht u same by blast
qed (auto simp: run_vmcs_outside)

text \<open>A 32-bit field of a hypervisor that truncates writes and aliases every other encoding to it.\<close>

definition cell_rd :: "u64 reader" where
  "cell_rd f h = h"

definition cell_wr :: "u64 writer" where
  "cell_wr f v h = take_bit 32 v"

lemma cell_stored: "stored_field cell_rd cell_wr f 32 0"
  by (simp add: stored_field_def cell_rd_def cell_wr_def)

definition vmcs_machine :: "u64 vmcs_sys" where
  "vmcs_machine = \<lparr>hyp = 0, umem = Map.empty, uwritable = (\<lambda>_. False)\<rparr>"

theorem vmcs_toggle_witness:
  "\<exists>v t. run_vmcs cell_rd cell_wr 0x7ff0 (Inr 3) [''run'', ''w'', ''4000'', ''31''] vmcs_machine =
      Some (0, [Out_value v], t) \<and> bit v 63 \<and> bit (hyp t) 31 \<and> \<not> bit (hyp t) 32 \<and> \<not> bit (hyp t) 30"
proof -
  have a: "atoi ''31'' = 31" by code_simp
  have law: "stored_field cell_rd cell_wr (int_to_ulong (strtol 16 ''4000'')) 32 (hyp vmcs_machine)"
    by (simp add: vmcs_machine_def cell_stored)
  have range: "0 \<le> atoi ''31''" "atoi ''31'' \<le> 31" by (simp_all add: a)
  from vmcs_toggle [OF refl, of "''31''", THEN conjunct1, rule_format, OF range law,
      of "0x7ff0" 3 "''run''", unfolded a]
  obtain v t where
    "run_vmcs cell_rd cell_wr 0x7ff0 (Inr 3) [''run'', ''w'', ''4000'', ''31''] vmcs_machine =
      Some (0, [Out_value v], t)" and
    "\<And>n. bit v n = (bit (cell_rd (int_to_ulong (strtol 16 ''4000'')) (hyp vmcs_machine)) n \<noteq> flips 31 n)" and
    "\<And>n. bit (cell_rd (int_to_ulong (strtol 16 ''4000'')) (hyp t)) n =
      (bit (cell_rd (int_to_ulong (strtol 16 ''4000'')) (hyp vmcs_machine)) n \<noteq> (n < 32 \<and> flips 31 n))"
    by auto
  then show ?thesis by (intro exI [of _ v] exI [of _ t]) (simp add: cell_rd_def vmcs_machine_def flips_def)
qed

end
