(* ===== verification/Vmx.thy ===== *)
theory Vmx
  imports C_Lib
begin

text \<open>
  Turning the interception of x2APIC registers on and off: the driver \<open>vmx_configuration.c\<close> of
  \<open>/dev/vmx_configuration\<close> and the program \<open>run_vmx_configuration.c\<close>. The hypervisor's two functions
  are \<open>en\<close> and \<open>dis\<close> on an abstract hypervisor state.
\<close>

record msr_x2apic =
  mx_msr :: u32
  mx_type :: int
  mx_apicv_active :: bool

record 'h vmx_sys =
  vhyp :: 'h
  vmem :: "u64 \<Rightarrow> msr_x2apic option"

type_synonym 'h intercept = "u32 \<Rightarrow> int \<Rightarrow> bool \<Rightarrow> 'h \<Rightarrow> 'h"

abbreviation MSR_TYPE_R :: int where "MSR_TYPE_R \<equiv> 1"
abbreviation MSR_TYPE_W :: int where "MSR_TYPE_W \<equiv> 2"

section \<open>The driver\<close>

definition enable_intercept_msr_x2apic :: "'h intercept \<Rightarrow> u64 \<Rightarrow> 'h vmx_sys \<Rightarrow> int \<times> 'h vmx_sys" where
  "enable_intercept_msr_x2apic en arg s =
     (case vmem s arg of
        None \<Rightarrow> (- EACCES, s)
      | Some data \<Rightarrow> (0, s\<lparr>vhyp := en (mx_msr data) (mx_type data) (mx_apicv_active data) (vhyp s)\<rparr>))"

definition disable_intercept_msr_x2apic :: "'h intercept \<Rightarrow> u64 \<Rightarrow> 'h vmx_sys \<Rightarrow> int \<times> 'h vmx_sys" where
  "disable_intercept_msr_x2apic dis arg s =
     (case vmem s arg of
        None \<Rightarrow> (- EACCES, s)
      | Some data \<Rightarrow> (0, s\<lparr>vhyp := dis (mx_msr data) (mx_type data) (mx_apicv_active data) (vhyp s)\<rparr>))"

definition VMX_ENABLE_INTERCEPT_MSR_X2APIC :: nat where
  "VMX_ENABLE_INTERCEPT_MSR_X2APIC = IOR_k 1 8"

definition VMX_DISABLE_INTERCEPT_MSR_X2APIC :: nat where
  "VMX_DISABLE_INTERCEPT_MSR_X2APIC = IOR_k 2 8"

definition vmx_ioctl ::
  "'h intercept \<Rightarrow> 'h intercept \<Rightarrow> nat \<Rightarrow> u64 \<Rightarrow> 'h vmx_sys \<Rightarrow> int \<times> 'h vmx_sys" where
  "vmx_ioctl en dis cmd arg s =
     (if cmd = VMX_ENABLE_INTERCEPT_MSR_X2APIC then (0, snd (enable_intercept_msr_x2apic en arg s))
      else if cmd = VMX_DISABLE_INTERCEPT_MSR_X2APIC then (0, snd (disable_intercept_msr_x2apic dis arg s))
      else (- EINVAL, s))"

definition vmx_initialize :: "int \<Rightarrow> int" where
  "vmx_initialize is_error = (if is_error < 0 then - is_error else 0)"

section \<open>The program\<close>

datatype vmx_out = Vmx_usage | Vmx_perror string | Vmx_no_such_type | Vmx_no_such_action

definition issue_ioctl ::
  "'h intercept \<Rightarrow> 'h intercept \<Rightarrow> nat \<Rightarrow> u64 \<Rightarrow> 'h vmx_sys \<Rightarrow> vmx_out list \<times> 'h vmx_sys" where
  "issue_ioctl en dis cmd data s =
     (let (r, s) = vmx_ioctl en dis cmd data s
      in (if fst (ioctl_result r) < 0 then [Vmx_perror ''ioctl''] else [], s))"

definition run_vmx ::
  "'h intercept \<Rightarrow> 'h intercept \<Rightarrow> u64 \<Rightarrow> int + int \<Rightarrow> string list \<Rightarrow> 'h vmx_sys \<Rightarrow>
     int \<times> vmx_out list \<times> 'h vmx_sys" where
  "run_vmx en dis data fd argv s =
     (if length argv < 4 then (1, [Vmx_usage], s)
      else let action = argv ! 1; ty = argv ! 2;
               msr = ucast (strtoul 16 (argv ! 3)) :: u32
           in if ty \<noteq> ''r'' \<and> ty \<noteq> ''w'' then (1, [Vmx_no_such_type], s)
              else let access_type = (if ty = ''r'' then MSR_TYPE_R else MSR_TYPE_W)
                   in case fd of
                        Inl errno \<Rightarrow> (errno, [Vmx_perror ''open''], s)
                      | Inr _ \<Rightarrow>
                          let s = s\<lparr>vmem := (vmem s)(data := Some \<lparr>mx_msr = msr,
                                mx_type = access_type, mx_apicv_active = True\<rparr>)\<rparr>
                          in if action = ''enable''
                             then let (out, s) = issue_ioctl en dis VMX_ENABLE_INTERCEPT_MSR_X2APIC data s
                                  in (0, out, s)
                             else if action = ''disable''
                             then let (out, s) = issue_ioctl en dis VMX_DISABLE_INTERCEPT_MSR_X2APIC data s
                                  in (0, out, s)
                             else (1, [Vmx_no_such_action], s))"

section \<open>Properties\<close>

lemma vmx_codes [simp]: "VMX_DISABLE_INTERCEPT_MSR_X2APIC \<noteq> VMX_ENABLE_INTERCEPT_MSR_X2APIC"
  by (simp add: VMX_DISABLE_INTERCEPT_MSR_X2APIC_def VMX_ENABLE_INTERCEPT_MSR_X2APIC_def IOR_k_def)

interpretation vmx_device: ioctl_device "\<lambda>cmd arg s. Inr (vmx_ioctl en dis cmd arg s)"
  "{VMX_ENABLE_INTERCEPT_MSR_X2APIC, VMX_DISABLE_INTERCEPT_MSR_X2APIC}" for en dis
  by unfold_locales (auto simp: vmx_ioctl_def split: if_splits)

text \<open>With four arguments and the device open, the program changes the hypervisor exactly when the
  action is \<open>enable\<close> or \<open>disable\<close> and the type is \<open>r\<close> or \<open>w\<close>, and then by exactly one call of the
  matching function with the register number, the access type and APICv active; it returns 0 then
  and 1 otherwise.\<close>

theorem vmx_command:
  "vhyp (snd (snd (run_vmx en dis data (Inr fd) [prog, action, ty, msr] s))) =
     (if ty \<in> {''r'', ''w''} \<and> action = ''enable''
      then en (ucast (strtoul 16 msr)) (if ty = ''r'' then MSR_TYPE_R else MSR_TYPE_W) True (vhyp s)
      else if ty \<in> {''r'', ''w''} \<and> action = ''disable''
      then dis (ucast (strtoul 16 msr)) (if ty = ''r'' then MSR_TYPE_R else MSR_TYPE_W) True (vhyp s)
      else vhyp s) \<and>
   fst (run_vmx en dis data (Inr fd) [prog, action, ty, msr] s) =
     (if ty \<in> {''r'', ''w''} \<and> action \<in> {''enable'', ''disable''} then 0 else 1)"
  by (simp add: run_vmx_def issue_ioctl_def vmx_ioctl_def enable_intercept_msr_x2apic_def
      disable_intercept_msr_x2apic_def Let_def)

end
