(* ===== verification/Agent.thy ===== *)
theory Agent
  imports C_Lib
begin

text \<open>
  What the four migration agents share: the system calls they make, an environment that answers each
  call from the calls made before it (the other machines, the network and the scripts), and programs
  that run against it. A program ends with a value, or stops: by \<open>exit\<close>, by writing beyond a buffer,
  or, for its endless loops, when the fuel of the model is used up. The trace holds every call made,
  in order; what is printed is left out.
\<close>

text \<open>
  The address a socket is connected to: the one \<open>inet_pton\<close> parsed from the text, or, when it refused
  the text with 0, the bytes \<open>memset(&address, '0', \<dots>)\<close> left there.
\<close>

datatype in_addr = Parsed string | Filled

datatype sys_call =
    Socket
  | Setsockopt int
  | Inet_pton string
  | Connect int in_addr nat
  | Bind int nat
  | Listen int
  | Accept int
  | Send int string
  | Read int nat
  | System string
  | Sleep nat
  | Close int

datatype stop = Exit int | Overflow | No_fuel

type_synonym trace = "sys_call list"
type_synonym env = "trace \<Rightarrow> sys_call \<Rightarrow> int \<times> string"
type_synonym 'a agent = "trace \<Rightarrow> (stop + 'a) \<times> trace"

section \<open>Programs\<close>

definition ret :: "'a \<Rightarrow> 'a agent" where
  "ret x tr = (Inr x, tr)"

definition stop_with :: "stop \<Rightarrow> 'a agent" where
  "stop_with e tr = (Inl e, tr)"

definition bindA :: "'a agent \<Rightarrow> ('a \<Rightarrow> 'b agent) \<Rightarrow> 'b agent" where
  "bindA m f tr = (case m tr of (Inl e, tr) \<Rightarrow> (Inl e, tr) | (Inr x, tr) \<Rightarrow> f x tr)"

definition seqA :: "'a agent \<Rightarrow> 'b agent \<Rightarrow> 'b agent" where
  "seqA m n = bindA m (\<lambda>_. n)"

text \<open>A call whose return is not looked at, and one after which a negative return exits with 1.\<close>

definition do_call :: "env \<Rightarrow> sys_call \<Rightarrow> (int \<times> string) agent" where
  "do_call env c tr = (Inr (env tr c), tr @ [c])"

definition must :: "env \<Rightarrow> sys_call \<Rightarrow> int agent" where
  "must env c = bindA (do_call env c) (\<lambda>(r, _). if r < 0 then stop_with (Exit 1) else ret r)"

text \<open>The C string in a zeroed buffer of \<open>n\<close> bytes after a \<open>read\<close> that answered so many bytes.\<close>

definition reply :: "nat \<Rightarrow> int \<times> string \<Rightarrow> string" where
  "reply n = (\<lambda>(r, bytes). takeWhile (\<lambda>c. c \<noteq> CHR 0x00) (take (min n (nat r)) bytes))"

text \<open>\<open>memset(buffer, 0, size)\<close> and \<open>read(fd, buffer, size)\<close>, exiting on error; the C string read.\<close>

definition read_cstring :: "env \<Rightarrow> int \<Rightarrow> nat \<Rightarrow> string agent" where
  "read_cstring env fd n = bindA (do_call env (Read fd n)) (\<lambda>a.
     if fst a < 0 then stop_with (Exit 1) else ret (reply n a))"

text \<open>\<open>do { r = connect(\<dots>); } while (r < 0);\<close>\<close>

fun connect_loop :: "nat \<Rightarrow> env \<Rightarrow> sys_call \<Rightarrow> unit agent" where
  "connect_loop 0 env c = stop_with No_fuel"
| "connect_loop (Suc fuel) env c =
     bindA (do_call env c) (\<lambda>(r, _). if r < 0 then connect_loop fuel env c else ret ())"

text \<open>\<open>memset(&address, '0', \<dots>)\<close> and \<open>inet_pton\<close>, exiting only on a negative return.\<close>

definition parse_addr :: "env \<Rightarrow> string \<Rightarrow> in_addr agent" where
  "parse_addr env text = bindA (must env (Inet_pton text)) (\<lambda>r. ret (if r = 0 then Filled else Parsed text))"

text \<open>\<open>snprintf(buffer, bound, \<dots>)\<close> into a buffer of \<open>sz\<close> bytes.\<close>

definition snprintf :: "nat \<Rightarrow> nat \<Rightarrow> string \<Rightarrow> string agent" where
  "snprintf sz bound text =
     (if bound = 0 then ret []
      else if sz < min bound (length text + 1) then stop_with Overflow
      else ret (take (bound - 1) text))"

text \<open>\<open>%d\<close>\<close>

fun show_nat :: "nat \<Rightarrow> string" where
  "show_nat n = (if n < 10 then [char_of (48 + n)] else show_nat (n div 10) @ [char_of (48 + n mod 10)])"

definition show_int :: "int \<Rightarrow> string" where
  "show_int i = (if i < 0 then ''-'' @ show_nat (nat (- i)) else show_nat (nat i))"

section \<open>Lemmas\<close>

named_theorems agent_steps

lemma ret_iff [agent_steps]: "ret x tr = (r, t) \<longleftrightarrow> r = Inr x \<and> t = tr"
  by (auto simp: ret_def)

lemma stop_with_iff [agent_steps]: "stop_with e tr = (r, t) \<longleftrightarrow> r = Inl e \<and> t = tr"
  by (auto simp: stop_with_def)

lemma bindA_iff [agent_steps]:
  "bindA m f tr = (r, t) \<longleftrightarrow>
     (\<exists>e. m tr = (Inl e, t) \<and> r = Inl e) \<or> (\<exists>x u. m tr = (Inr x, u) \<and> f x u = (r, t))"
  by (auto simp: bindA_def split: prod.splits sum.splits)

lemma seqA_iff [agent_steps]:
  "seqA m n tr = (r, t) \<longleftrightarrow>
     (\<exists>e. m tr = (Inl e, t) \<and> r = Inl e) \<or> (\<exists>x u. m tr = (Inr x, u) \<and> n u = (r, t))"
  by (simp add: seqA_def bindA_iff)

lemma do_call_iff [agent_steps]: "do_call env c tr = (r, t) \<longleftrightarrow> r = Inr (env tr c) \<and> t = tr @ [c]"
  by (auto simp: do_call_def)

lemma must_iff [agent_steps]:
  "must env c tr = (r, t) \<longleftrightarrow> t = tr @ [c] \<and>
     r = (if fst (env tr c) < 0 then Inl (Exit 1) else Inr (fst (env tr c)))"
  by (cases "env tr c") (auto simp: must_def bindA_def do_call_def stop_with_def ret_def)

lemma read_cstring_iff [agent_steps]:
  "read_cstring env fd n tr = (r, t) \<longleftrightarrow> t = tr @ [Read fd n] \<and>
     r = (if fst (env tr (Read fd n)) < 0 then Inl (Exit 1)
          else Inr (reply n (env tr (Read fd n))))"
  by (auto simp: read_cstring_def bindA_def do_call_def stop_with_def ret_def)

lemma parse_addr_iff [agent_steps]:
  "parse_addr env text tr = (r, t) \<longleftrightarrow> t = tr @ [Inet_pton text] \<and>
     r = (if fst (env tr (Inet_pton text)) < 0 then Inl (Exit 1)
          else if fst (env tr (Inet_pton text)) = 0 then Inr Filled else Inr (Parsed text))"
  by (auto simp: parse_addr_def bindA_iff must_iff ret_iff)

text \<open>The next step of a program whose first part is known.\<close>

lemma bindA_Inr: "m tr = (Inr x, u) \<Longrightarrow> bindA m f tr = f x u"
  by (simp add: bindA_def)

lemma bindA_Inl: "m tr = (Inl e, u) \<Longrightarrow> bindA m f tr = (Inl e, u)"
  by (simp add: bindA_def)

lemma seqA_Inr: "m tr = (Inr x, u) \<Longrightarrow> seqA m n tr = n u"
  by (simp add: seqA_def bindA_def)

lemma seqA_Inl: "m tr = (Inl e, u) \<Longrightarrow> seqA m n tr = (Inl e, u)"
  by (simp add: seqA_def bindA_def)

lemmas step_known = bindA_Inr bindA_Inl seqA_Inr seqA_Inl

text \<open>The loop makes the same call over and over, and only ends when one of them succeeds.\<close>

lemma connect_loop_trace:
  assumes "connect_loop fuel env c tr = (r, t)"
  shows "\<exists>k. t = tr @ replicate k c \<and> (r = Inl No_fuel \<and> k = fuel \<or>
    r = Inr () \<and> 0 < k \<and> 0 \<le> fst (env (tr @ replicate (k - 1) c) c))"
  using assms
proof (induction fuel arbitrary: tr)
  case 0
  then show ?case by (simp add: stop_with_iff)
next
  case (Suc fuel)
  show ?case
  proof (cases "fst (env tr c) < 0")
    case True
    with Suc.prems have "connect_loop fuel env c (tr @ [c]) = (r, t)"
      by (auto simp: bindA_def do_call_def split: prod.splits)
    from Suc.IH [OF this] obtain k where k: "t = (tr @ [c]) @ replicate k c"
      "r = Inl No_fuel \<and> k = fuel \<or> r = Inr () \<and> 0 < k \<and> 0 \<le> fst (env ((tr @ [c]) @ replicate (k - 1) c) c)"
      by blast
    have "replicate k c = c # replicate (k - 1) c" if "0 < k" using that by (cases k) simp_all
    with k show ?thesis by (intro exI [of _ "Suc k"]) auto
  next
    case False
    with Suc.prems show ?thesis
      by (intro exI [of _ 1]) (auto simp: bindA_def do_call_def ret_def split: prod.splits if_splits)
  qed
qed

lemma connect_loop_InrE:
  assumes "connect_loop fuel env c tr = (Inr x, t)"
  obtains k where "t = tr @ replicate (Suc k) c" and "0 \<le> fst (env (tr @ replicate k c) c)"
proof -
  from connect_loop_trace [OF assms] obtain k where "t = tr @ replicate k c" "0 < k"
    "0 \<le> fst (env (tr @ replicate (k - 1) c) c)" by auto
  then show thesis using that [of "k - 1"] by simp
qed

text \<open>It ends once an attempt succeeds, and never when none does.\<close>

lemma connect_loop_succeeds:
  assumes "0 \<le> fst (env (tr @ replicate k c) c)" and "k < fuel"
  shows "\<exists>t. connect_loop fuel env c tr = (Inr (), t)"
  using assms
proof (induction fuel arbitrary: tr k)
  case (Suc fuel)
  show ?case
  proof (cases "fst (env tr c) < 0")
    case True
    with Suc.prems(1) obtain j where k: "k = Suc j" by (cases k) auto
    have "\<exists>t. connect_loop fuel env c (tr @ [c]) = (Inr (), t)"
      using Suc.IH [of "tr @ [c]" j] Suc.prems by (simp add: k)
    then show ?thesis using True by (auto simp: bindA_def do_call_def split: prod.splits)
  next
    case False
    then show ?thesis by (auto simp: bindA_def do_call_def ret_def split: prod.splits)
  qed
qed simp

lemma connect_loop_never:
  assumes "\<And>k. fst (env (tr @ replicate k c) c) < 0"
  shows "connect_loop fuel env c tr = (Inl No_fuel, tr @ replicate fuel c)"
  using assms
proof (induction fuel arbitrary: tr)
  case 0
  then show ?case by (simp add: stop_with_def)
next
  case (Suc fuel)
  have "fst (env ((tr @ [c]) @ replicate k c) c) < 0" for k
    using Suc.prems [of "Suc k"] by (simp add: replicate_append_same)
  from Suc.IH [OF this] Suc.prems [of 0] show ?case
    by (auto simp: bindA_def do_call_def split: prod.splits)
qed

text \<open>The scripts run so far.\<close>

definition scripts :: "trace \<Rightarrow> string list" where
  "scripts tr = concat (map (\<lambda>c. case c of System s \<Rightarrow> [s] | _ \<Rightarrow> []) tr)"

lemma scripts_append [simp]: "scripts (a @ b) = scripts a @ scripts b"
  by (simp add: scripts_def)

lemma scripts_Cons [simp]:
  "scripts (c # tr) = (case c of System s \<Rightarrow> [s] | _ \<Rightarrow> []) @ scripts tr"
  by (simp add: scripts_def)

lemma scripts_Nil [simp]: "scripts [] = []"
  by (simp add: scripts_def)

lemma scripts_replicate [simp]: "(\<And>s. c \<noteq> System s) \<Longrightarrow> scripts (replicate k c) = []"
  by (induction k) (auto split: sys_call.splits)

end
