(* ===== verification/Source_Agent.thy ===== *)
theory Source_Agent
  imports Agent
begin

text \<open>
  The source machine's migration agent, \<open>source_migration_agent.c\<close>, and the older variant
  \<open>source_migration_agent_alb.c\<close>. \<open>main\<close> is cut where the code connects to the guest, connects to the
  destination and opens its own port, and serves the destination's connection.
\<close>

abbreviation SRC_PORT1 :: nat where "SRC_PORT1 \<equiv> 7777"
abbreviation SRC_PORT2 :: nat where "SRC_PORT2 \<equiv> 9797"
abbreviation SRC_PORT3 :: nat where "SRC_PORT3 \<equiv> 3535"
abbreviation SRC_SIZE :: nat where "SRC_SIZE \<equiv> 150"

definition src_sockets :: "env \<Rightarrow> (int \<times> int \<times> int) agent" where
  "src_sockets env =
     bindA (must env Socket) (\<lambda>fd1. bindA (must env Socket) (\<lambda>fd2. bindA (must env Socket) (\<lambda>fd3.
       ret (fd1, fd2, fd3))))"

text \<open>Connect to the guest, send it the message, read its answer.\<close>

definition src_guest :: "nat \<Rightarrow> env \<Rightarrow> int \<Rightarrow> string list \<Rightarrow> string agent" where
  "src_guest fuel env fd1 argv =
     bindA (parse_addr env (argv ! 1)) (\<lambda>a.
     seqA (connect_loop fuel env (Connect fd1 a SRC_PORT1))
     (seqA (do_call env (Send fd1 (argv ! 3)))
       (read_cstring env fd1 SRC_SIZE)))"

text \<open>Connect to the destination, send it the message, and open the agent's own port.\<close>

definition src_destination :: "nat \<Rightarrow> env \<Rightarrow> int \<Rightarrow> int \<Rightarrow> string list \<Rightarrow> unit agent" where
  "src_destination fuel env fd2 fd3 argv =
     bindA (parse_addr env (argv ! 2)) (\<lambda>a.
     seqA (connect_loop fuel env (Connect fd3 a SRC_PORT2))
     (seqA (do_call env (Send fd3 (argv ! 3)))
     (seqA (must env (Setsockopt fd2))
     (seqA (must env (Bind fd2 SRC_PORT3))
     (seqA (must env (Listen fd2)) (ret ()))))))"

text \<open>The command line written into the buffer; the bound counts the format's spaces as \<open>background\<close>.\<close>

definition src_command1 :: string where
  "src_command1 = ''bash prepare_and_migrate.sh''"

definition migrate_line :: "string \<Rightarrow> string" where
  "migrate_line dest = src_command1 @ '' '' @ dest @ '' '' @ show_int 1111"

definition src_bound :: "string \<Rightarrow> nat" where
  "src_bound dest = length src_command1 + 1 + length dest + 1 + 4 + 1"

text \<open>One turn of the loop that waits for the destination.\<close>

definition src_serve :: "env \<Rightarrow> int \<Rightarrow> string list \<Rightarrow> unit agent" where
  "src_serve env fd2 argv =
     bindA (must env (Accept fd2)) (\<lambda>socket1.
     seqA (read_cstring env socket1 SRC_SIZE)
     (bindA (snprintf SRC_SIZE (src_bound (argv ! 2)) (migrate_line (argv ! 2))) (\<lambda>buffer.
     seqA (do_call env (System buffer))
     (seqA (do_call env (System ''bash send_hotplug_command.sh''))
     (seqA (do_call env (System ''bash migration_status.sh'')) (ret ()))))))"

definition source_agent :: "nat \<Rightarrow> env \<Rightarrow> string list \<Rightarrow> int agent" where
  "source_agent fuel env argv =
     (if length argv \<noteq> 4 then stop_with (Exit 1)
      else bindA (src_sockets env) (\<lambda>(fd1, fd2, fd3).
      bindA (src_guest fuel env fd1 argv) (\<lambda>buffer.
      seqA (if buffer = ''prepared''
            then seqA (src_destination fuel env fd2 fd3 argv) (src_serve env fd2 argv)
            else ret ())
      (seqA (do_call env (Close fd3)) (seqA (do_call env (Close fd2)) (seqA (do_call env (Close fd1))
        (ret 0)))))))"

section \<open>The older variant\<close>

text \<open>It does not send the hotplug command, and its loop has no \<open>break\<close>.\<close>

definition alb_serve :: "env \<Rightarrow> int \<Rightarrow> string list \<Rightarrow> unit agent" where
  "alb_serve env fd2 argv =
     bindA (must env (Accept fd2)) (\<lambda>socket1.
     seqA (read_cstring env socket1 SRC_SIZE)
     (bindA (snprintf SRC_SIZE (src_bound (argv ! 2)) (migrate_line (argv ! 2))) (\<lambda>buffer.
     seqA (do_call env (System buffer))
     (seqA (do_call env (System ''bash migration_status.sh'')) (ret ())))))"

fun alb_loop :: "nat \<Rightarrow> env \<Rightarrow> int \<Rightarrow> string list \<Rightarrow> unit agent" where
  "alb_loop 0 env fd2 argv = stop_with No_fuel"
| "alb_loop (Suc fuel) env fd2 argv = seqA (alb_serve env fd2 argv) (alb_loop fuel env fd2 argv)"

definition source_agent_alb :: "nat \<Rightarrow> env \<Rightarrow> string list \<Rightarrow> int agent" where
  "source_agent_alb fuel env argv =
     (if length argv \<noteq> 4 then stop_with (Exit 1)
      else bindA (src_sockets env) (\<lambda>(fd1, fd2, fd3).
      bindA (src_guest fuel env fd1 argv) (\<lambda>buffer.
      seqA (if buffer = ''prepared''
            then seqA (src_destination fuel env fd2 fd3 argv) (alb_loop fuel env fd2 argv)
            else ret ())
      (seqA (do_call env (Close fd3)) (seqA (do_call env (Close fd2)) (seqA (do_call env (Close fd1))
        (ret 0)))))))"

section \<open>Lemmas\<close>

lemma src_command1_length [simp]: "length src_command1 = 27"
  by (simp add: src_command1_def)

lemma port_digits: "show_int 1111 = ''1111''"
  by code_simp

lemma migrate_line_length: "length (migrate_line dest) = 33 + length dest"
  by (simp add: migrate_line_def port_digits)

text \<open>The bound of the \<open>snprintf\<close> is exactly what the line needs, so it is never cut.\<close>

lemma migrate_snprintf:
  "snprintf SRC_SIZE (src_bound dest) (migrate_line dest) =
     (if length dest \<le> 116 then ret (migrate_line dest) else stop_with Overflow)"
  by (auto simp: snprintf_def src_bound_def migrate_line_length)

text \<open>No part before the destination's connection runs a script.\<close>

lemma connect_no_scripts:
  "connect_loop fuel env (Connect fd a p) tr = (r, t) \<Longrightarrow> scripts t = scripts tr"
  by (auto dest!: connect_loop_trace)

lemma src_sockets_no_scripts: "src_sockets env tr = (r, t) \<Longrightarrow> scripts t = scripts tr"
  by (auto simp: src_sockets_def agent_steps)

lemma src_guest_no_scripts: "src_guest fuel env fd argv tr = (r, t) \<Longrightarrow> scripts t = scripts tr"
  by (auto simp: src_guest_def agent_steps dest!: connect_no_scripts)

lemma src_destination_no_scripts:
  "src_destination fuel env fd2 fd3 argv tr = (r, t) \<Longrightarrow> scripts t = scripts tr"
  by (auto simp: src_destination_def agent_steps dest!: connect_no_scripts split: if_splits)

lemmas src_no_scripts = src_sockets_no_scripts src_guest_no_scripts src_destination_no_scripts

text \<open>The trace of each part when it goes on.\<close>

lemma src_sockets_Inr: "src_sockets env tr = (Inr x, t) \<Longrightarrow> t = tr @ [Socket, Socket, Socket]"
  by (auto simp: src_sockets_def agent_steps split: if_splits)

lemma src_guest_Inr:
  assumes "src_guest fuel env fd argv tr = (Inr buffer, t)"
  shows "\<exists>a m u. u = tr @ [Inet_pton (argv ! 1)] @ replicate (Suc m) (Connect fd a SRC_PORT1) @
      [Send fd (argv ! 3)] \<and> t = u @ [Read fd SRC_SIZE] \<and>
    buffer = reply SRC_SIZE (env u (Read fd SRC_SIZE))"
  using assms
  by (auto simp: src_guest_def agent_steps split: if_splits elim!: connect_loop_InrE)

lemma src_destination_Inr:
  assumes "src_destination fuel env fd2 fd3 argv tr = (Inr x, t)"
  shows "\<exists>a m. t = tr @ [Inet_pton (argv ! 2)] @ replicate (Suc m) (Connect fd3 a SRC_PORT2) @
      [Send fd3 (argv ! 3), Setsockopt fd2, Bind fd2 SRC_PORT3, Listen fd2]"
  using assms
  by (auto simp: src_destination_def agent_steps split: if_splits elim!: connect_loop_InrE)

lemma src_serve_trace:
  assumes "src_serve env fd2 argv tr = (r, t)"
  shows "(scripts t = scripts tr \<and> (\<forall>x. r \<noteq> Inr x)) \<or>
    (\<exists>s. r = Inr () \<and> t = tr @ [Accept fd2, Read s SRC_SIZE, System (migrate_line (argv ! 2)),
       System ''bash send_hotplug_command.sh'', System ''bash migration_status.sh''])"
  using assms
  by (auto simp: src_serve_def agent_steps migrate_snprintf split: if_splits)

text \<open>An environment in which every call but \<open>connect\<close> succeeds, and that within \<open>fuel\<close> attempts.\<close>

definition obliging :: "nat \<Rightarrow> env \<Rightarrow> bool" where
  "obliging fuel env \<longleftrightarrow>
     (\<forall>tr c. (\<forall>fd a p. c \<noteq> Connect fd a p) \<longrightarrow> 0 \<le> fst (env tr c)) \<and>
     (\<forall>tr fd a p. \<exists>k < fuel. 0 \<le> fst (env (tr @ replicate k (Connect fd a p)) (Connect fd a p)))"

lemma obliging_ok:
  assumes "obliging fuel env"
  shows "\<not> fst (env tr Socket) < 0" "\<not> fst (env tr (Setsockopt fd)) < 0"
    "\<not> fst (env tr (Inet_pton x)) < 0" "\<not> fst (env tr (Bind fd p)) < 0"
    "\<not> fst (env tr (Listen fd)) < 0" "\<not> fst (env tr (Accept fd)) < 0"
    "\<not> fst (env tr (Read fd n)) < 0"
  using assms by (auto simp: obliging_def not_less)

lemma obliging_connect:
  assumes "obliging fuel env"
  shows "\<exists>t. connect_loop fuel env (Connect fd a p) tr = (Inr (), t)"
proof -
  from assms obtain k where "k < fuel" "0 \<le> fst (env (tr @ replicate k (Connect fd a p)) (Connect fd a p))"
    unfolding obliging_def by blast
  then show ?thesis by (rule connect_loop_succeeds [rotated])
qed

lemma parse_addr_ok:
  assumes "obliging fuel env"
  shows "\<exists>a. parse_addr env x tr = (Inr a, tr @ [Inet_pton x])"
  using obliging_ok [OF assms] by (simp add: parse_addr_iff)

lemma src_sockets_ok:
  assumes "obliging fuel env"
  shows "\<exists>fds t. src_sockets env tr = (Inr fds, t)"
  using obliging_ok [OF assms] by (auto simp: src_sockets_def agent_steps)

lemma src_guest_ok:
  assumes "obliging fuel env"
  shows "\<exists>buffer t. src_guest fuel env fd argv tr = (Inr buffer, t)"
proof -
  obtain a where a: "parse_addr env (argv ! 1) tr = (Inr a, tr @ [Inet_pton (argv ! 1)])"
    using parse_addr_ok [OF assms] by blast
  obtain u where "connect_loop fuel env (Connect fd a SRC_PORT1) (tr @ [Inet_pton (argv ! 1)]) = (Inr (), u)"
    using obliging_connect [OF assms] by blast
  with a obliging_ok [OF assms] show ?thesis
    by (auto simp: src_guest_def bindA_Inr seqA_Inr agent_steps)
qed

lemma src_destination_ok:
  assumes "obliging fuel env"
  shows "\<exists>t. src_destination fuel env fd2 fd3 argv tr = (Inr (), t)"
proof -
  obtain a where a: "parse_addr env (argv ! 2) tr = (Inr a, tr @ [Inet_pton (argv ! 2)])"
    using parse_addr_ok [OF assms] by blast
  obtain u where "connect_loop fuel env (Connect fd3 a SRC_PORT2) (tr @ [Inet_pton (argv ! 2)]) = (Inr (), u)"
    using obliging_connect [OF assms] by blast
  with a obliging_ok [OF assms] show ?thesis
    by (auto simp: src_destination_def bindA_Inr seqA_Inr agent_steps)
qed

lemma src_serve_ok:
  assumes "obliging fuel env"
  shows "\<exists>t. src_serve env fd2 argv tr =
    (if length (argv ! 2) \<le> 116 then Inr () else Inl Overflow, t) \<and>
    (length (argv ! 2) \<le> 116 \<or> scripts t = scripts tr)"
  using obliging_ok [OF assms]
  by (auto simp: src_serve_def agent_steps migrate_snprintf)

text \<open>How either variant gets to run a script, whatever it does with the destination's connection.\<close>

lemma src_until_serve:
  assumes run: "bindA (src_sockets env) (\<lambda>(fd1, fd2, fd3).
      bindA (src_guest fuel env fd1 argv) (\<lambda>buffer.
      seqA (if buffer = ''prepared''
            then seqA (src_destination fuel env fd2 fd3 argv) (serve fd2)
            else ret ())
      (seqA (do_call env (Close fd3)) (seqA (do_call env (Close fd2)) (seqA (do_call env (Close fd1))
        (ret 0)))))) [] = (r, t)"
    and ran: "scripts t \<noteq> []"
  obtains fd1 fd2 fd3 t1 t2 t3 x t4 where
    "src_sockets env [] = (Inr (fd1, fd2, fd3), t1)"
    and "src_guest fuel env fd1 argv t1 = (Inr ''prepared'', t2)"
    and "src_destination fuel env fd2 fd3 argv t2 = (Inr (), t3)"
    and "serve fd2 t3 = (x, t4)" and "scripts t3 = []"
    and "x = Inr () \<and> r = Inr (0 :: int) \<and> t = t4 @ [Close fd3, Close fd2, Close fd1] \<or>
      (\<exists>e. x = Inl e \<and> r = Inl e \<and> t = t4)"
proof -
  obtain x1 t1 where s1: "src_sockets env [] = (x1, t1)" by fastforce
  note q1 = src_sockets_no_scripts [OF s1]
  with run ran s1 obtain fd1 fd2 fd3 where x1: "x1 = Inr (fd1, fd2, fd3)"
    by (cases x1) (auto simp: bindA_def)
  obtain x2 t2 where s2: "src_guest fuel env fd1 argv t1 = (x2, t2)" by fastforce
  note q2 = src_guest_no_scripts [OF s2]
  with run ran s1 s2 x1 q1 obtain buffer where x2: "x2 = Inr buffer"
    by (cases x2) (auto simp: bindA_def)
  have buffer: "buffer = ''prepared''"
    using run ran s1 s2 x1 x2 q1 q2
    by (cases "buffer = ''prepared''") (auto simp: bindA_Inr agent_steps)
  obtain x3 t3 where s3: "src_destination fuel env fd2 fd3 argv t2 = (x3, t3)" by fastforce
  note q3 = src_destination_no_scripts [OF s3]
  have x3: "x3 = Inr ()"
    using run ran s1 s2 s3 x1 x2 q1 q2 q3 buffer
    by (cases x3) (auto simp: bindA_Inr agent_steps)
  obtain x t4 where s4: "serve fd2 t3 = (x, t4)" by fastforce
  have "x = Inr () \<and> r = Inr 0 \<and> t = t4 @ [Close fd3, Close fd2, Close fd1] \<or>
      (\<exists>e. x = Inl e \<and> r = Inl e \<and> t = t4)"
    using run s1 s2 s3 s4 x1 x2 x3 buffer
    by (cases x) (auto simp: bindA_Inr agent_steps)
  with s1 s2 s3 s4 x1 x2 x3 buffer q1 q2 q3 that show thesis by auto
qed

section \<open>Properties\<close>

text \<open>C5: Whatever the machines and the network do, the source agent runs a script only after the guest
  answered exactly \<open>prepared\<close>, and then its whole run is this one: it connected to the guest (retrying),
  sent the message, read that answer, connected to the destination, sent it the message, opened its own
  port, accepted the destination's connection, and ran the migration, hotplug and status scripts once
  each, in this order, with the destination and port 1111 on the migration's command line.\<close>

theorem source_migration_order:
  assumes "source_agent fuel env argv [] = (r, t)" and "scripts t \<noteq> []"
  shows "\<exists>fd1 fd2 fd3 a1 a2 m n s u.
    u = [Socket, Socket, Socket, Inet_pton (argv ! 1)] @ replicate (Suc m) (Connect fd1 a1 SRC_PORT1) @
        [Send fd1 (argv ! 3)] \<and>
    reply SRC_SIZE (env u (Read fd1 SRC_SIZE)) = ''prepared'' \<and>
    t = u @ [Read fd1 SRC_SIZE, Inet_pton (argv ! 2)] @ replicate (Suc n) (Connect fd3 a2 SRC_PORT2) @
        [Send fd3 (argv ! 3), Setsockopt fd2, Bind fd2 SRC_PORT3, Listen fd2, Accept fd2, Read s SRC_SIZE,
         System (''bash prepare_and_migrate.sh '' @ argv ! 2 @ '' 1111''),
         System ''bash send_hotplug_command.sh'', System ''bash migration_status.sh'',
         Close fd3, Close fd2, Close fd1] \<and>
    r = Inr 0"
proof -
  from assms have four: "length argv = 4"
    by (auto simp: source_agent_def agent_steps split: if_splits)
  with assms(1) have run: "bindA (src_sockets env) (\<lambda>(fd1, fd2, fd3).
      bindA (src_guest fuel env fd1 argv) (\<lambda>buffer.
      seqA (if buffer = ''prepared''
            then seqA (src_destination fuel env fd2 fd3 argv) (src_serve env fd2 argv)
            else ret ())
      (seqA (do_call env (Close fd3)) (seqA (do_call env (Close fd2)) (seqA (do_call env (Close fd1))
        (ret 0)))))) [] = (r, t)" by (simp add: source_agent_def)
  obtain fd1 fd2 fd3 t1 t2 t3 x t4 where
    socks: "src_sockets env [] = (Inr (fd1, fd2, fd3), t1)"
    and guest: "src_guest fuel env fd1 argv t1 = (Inr ''prepared'', t2)"
    and dest: "src_destination fuel env fd2 fd3 argv t2 = (Inr (), t3)"
    and serve: "src_serve env fd2 argv t3 = (x, t4)" and quiet3: "scripts t3 = []"
    and x: "x = Inr () \<and> r = Inr (0 :: int) \<and> t = t4 @ [Close fd3, Close fd2, Close fd1] \<or>
      (\<exists>e. x = Inl e \<and> r = Inl e \<and> t = t4)"
    using src_until_serve [OF run assms(2)] by blast
  from x src_serve_trace [OF serve] quiet3 assms(2) obtain s where
    t4: "t4 = t3 @ [Accept fd2, Read s SRC_SIZE, System (migrate_line (argv ! 2)),
       System ''bash send_hotplug_command.sh'', System ''bash migration_status.sh'']"
    and r: "r = Inr 0" and t: "t = t4 @ [Close fd3, Close fd2, Close fd1]"
    by auto
  from src_guest_Inr [OF guest] obtain a1 m u where
    u: "u = t1 @ [Inet_pton (argv ! 1)] @ replicate (Suc m) (Connect fd1 a1 SRC_PORT1) @ [Send fd1 (argv ! 3)]"
    and t2: "t2 = u @ [Read fd1 SRC_SIZE]" and "''prepared'' = reply SRC_SIZE (env u (Read fd1 SRC_SIZE))" by blast
  moreover from src_destination_Inr [OF dest] obtain a2 n where
    "t3 = t2 @ [Inet_pton (argv ! 2)] @ replicate (Suc n) (Connect fd3 a2 SRC_PORT2) @
      [Send fd3 (argv ! 3), Setsockopt fd2, Bind fd2 SRC_PORT3, Listen fd2]" by blast
  moreover note src_sockets_Inr [OF socks] t t4 r
  ultimately show ?thesis
    by (intro exI [of _ fd1] exI [of _ fd2] exI [of _ fd3] exI [of _ a1] exI [of _ a2] exI [of _ m]
        exI [of _ n] exI [of _ s] exI [of _ u]) (simp add: migrate_line_def src_command1_def port_digits)
qed

text \<open>The other machines, answering everything at once.\<close>

definition lan :: env where
  "lan tr c = (case c of
     Read fd n \<Rightarrow> (8, ''prepared'') | Socket \<Rightarrow> (3 + int (length tr), []) | Inet_pton x \<Rightarrow> (1, []) | _ \<Rightarrow> (0, []))"

lemma lan_obliging: "obliging 1 lan"
  by (auto simp: obliging_def lan_def split: sys_call.splits)

lemma lan_run: "scripts (snd (source_agent 1 lan [''agent'', ''10.0.0.2'', ''10.0.0.3'', ''prepare''] [])) \<noteq> []"
  by code_simp

theorem source_migration_order_witness:
  "\<exists>t. source_agent 1 lan [''agent'', ''10.0.0.2'', ''10.0.0.3'', ''prepare''] [] = (Inr 0, t) \<and>
     System ''bash prepare_and_migrate.sh 10.0.0.3 1111'' \<in> set t"
proof -
  obtain r t where run: "source_agent 1 lan [''agent'', ''10.0.0.2'', ''10.0.0.3'', ''prepare''] [] = (r, t)"
    by fastforce
  with lan_run have "scripts t \<noteq> []" by simp
  from source_migration_order [OF run this] run show ?thesis by auto
qed

text \<open>C6: When every call succeeds and each connection within the bound, the source agent ends: with 0 and
  no script run when the guest's answer is not \<open>prepared\<close>; with 0 and the three scripts run when it is
  and the destination's text has at most 116 characters; and by writing beyond its 150-byte buffer when
  the text is longer, which \<open>inet_pton\<close> refusing it (with 0, not a negative number) does not prevent.\<close>

theorem source_agent_ends:
  assumes "obliging fuel env" and "length argv = 4"
  shows "\<exists>t buffer. source_agent fuel env argv [] =
      (if buffer = ''prepared'' \<and> 116 < length (argv ! 2) then Inl Overflow else Inr 0, t) \<and>
    (scripts t \<noteq> [] \<longleftrightarrow> buffer = ''prepared'' \<and> length (argv ! 2) \<le> 116) \<and>
    (\<exists>tr fd. buffer = reply SRC_SIZE (env tr (Read fd SRC_SIZE)))"
proof -
  obtain fd1 fd2 fd3 t1 where socks: "src_sockets env [] = (Inr (fd1, fd2, fd3), t1)"
    using src_sockets_ok [OF assms(1), of "[]"] by auto
  obtain buffer t2 where guest: "src_guest fuel env fd1 argv t1 = (Inr buffer, t2)"
    using src_guest_ok [OF assms(1), of fd1 argv t1] by blast
  obtain t3 where dest: "src_destination fuel env fd2 fd3 argv t2 = (Inr (), t3)"
    using src_destination_ok [OF assms(1), of fd2 fd3 argv t2] by blast
  obtain t4 where serve: "src_serve env fd2 argv t3 =
      (if length (argv ! 2) \<le> 116 then Inr () else Inl Overflow, t4)"
    and quiet4: "length (argv ! 2) \<le> 116 \<or> scripts t4 = scripts t3"
    using src_serve_ok [OF assms(1), of fd2 argv t3] by blast
  have quiet: "scripts t2 = []" "scripts t3 = []"
    using src_no_scripts(1) [OF socks] src_no_scripts(2) [OF guest] src_no_scripts(3) [OF dest] by simp_all
  have run4: "length (argv ! 2) \<le> 116 \<Longrightarrow> scripts t4 \<noteq> []"
    using src_serve_trace [OF serve] by auto
  have b: "\<exists>tr fd. buffer = reply SRC_SIZE (env tr (Read fd SRC_SIZE))"
    using src_guest_Inr [OF guest] by blast
  show ?thesis
  proof (cases "buffer = ''prepared''")
    case True
    have "source_agent fuel env argv [] = seqA (\<lambda>_. (if length (argv ! 2) \<le> 116 then Inr () else Inl Overflow, t4))
      (seqA (do_call env (Close fd3)) (seqA (do_call env (Close fd2)) (seqA (do_call env (Close fd1)) (ret 0)))) t2"
      using assms(2) socks guest dest serve True
      by (simp add: source_agent_def bindA_Inr seqA_Inr) (simp add: seqA_def bindA_def)
    then show ?thesis
      using True b quiet quiet4 run4
      by (intro exI [of _ "if length (argv ! 2) \<le> 116 then t4 @ [Close fd3, Close fd2, Close fd1] else t4"]
          exI [of _ buffer]) (auto simp: seqA_def bindA_def do_call_def ret_def)
  next
    case False
    then have "source_agent fuel env argv [] = (Inr 0, t2 @ [Close fd3, Close fd2, Close fd1])"
      using assms(2) socks guest
      by (simp add: source_agent_def bindA_Inr) (simp add: seqA_def bindA_def do_call_def ret_def)
    with False b quiet show ?thesis
      by (intro exI [of _ "t2 @ [Close fd3, Close fd2, Close fd1]"] exI [of _ buffer]) auto
  qed
qed

theorem source_agent_ends_witness:
  "\<exists>r t. source_agent 1 lan [''agent'', ''10.0.0.2'', replicate 117 CHR ''1'', ''prepare''] [] = (r, t) \<and>
     r = Inl Overflow"
proof -
  have four: "length [''agent'', ''10.0.0.2'', replicate 117 CHR ''1'', ''prepare''] = 4" by simp
  have all: "reply SRC_SIZE (lan tr (Read fd SRC_SIZE)) = ''prepared''" for tr fd
    by (simp add: lan_def reply_def)
  from source_agent_ends [OF lan_obliging four] all show ?thesis by auto
qed

section \<open>The older variant\<close>

lemma alb_serve_trace:
  assumes "alb_serve env fd2 argv tr = (r, t)"
  shows "(scripts t = scripts tr \<and> (\<forall>x. r \<noteq> Inr x)) \<or>
    (r = Inr () \<and> scripts t = scripts tr @ [migrate_line (argv ! 2), ''bash migration_status.sh''])"
  using assms
  by (auto simp: alb_serve_def agent_steps migrate_snprintf split: if_splits)

lemma alb_loop_scripts:
  assumes "alb_loop fuel env fd2 argv tr = (r, t)"
  shows "(\<forall>x. r \<noteq> Inr x) \<and> (\<exists>k \<le> fuel. scripts t = scripts tr @
      concat (replicate k [migrate_line (argv ! 2), ''bash migration_status.sh'']) \<and> (r = Inl No_fuel \<longrightarrow> k = fuel))"
  using assms
proof (induction fuel arbitrary: tr)
  case 0
  then show ?case by (simp add: agent_steps)
next
  case (Suc fuel)
  obtain x u where serve: "alb_serve env fd2 argv tr = (x, u)" by fastforce
  show ?case
  proof (cases x)
    case (Inl e)
    moreover have "e \<noteq> No_fuel" using serve Inl
      by (auto simp: alb_serve_def agent_steps migrate_snprintf split: if_splits)
    ultimately show ?thesis using Suc.prems serve alb_serve_trace [OF serve]
      by (auto simp: agent_steps intro: exI [of _ 0])
  next
    case (Inr y)
    with serve Suc.prems have "alb_loop fuel env fd2 argv u = (r, t)" by (simp add: seqA_Inr)
    from Suc.IH [OF this] obtain k where k: "k \<le> fuel" "scripts t = scripts u @
      concat (replicate k [migrate_line (argv ! 2), ''bash migration_status.sh''])"
      "r = Inl No_fuel \<longrightarrow> k = fuel" "\<forall>x. r \<noteq> Inr x" by blast
    with alb_serve_trace [OF serve] Inr show ?thesis
      by (intro conjI exI [of _ "Suc k"]) auto
  qed
qed

text \<open>The older variant never reaches its end once it served a destination: its loop has no way out, so
  for as long as it runs, each further connection to its port starts the whole migration again.\<close>

theorem source_alb_never_ends:
  assumes "source_agent_alb fuel env argv [] = (r, t)" and "scripts t \<noteq> []"
  shows "(\<forall>x. r \<noteq> Inr x) \<and>
    (\<exists>k. 0 < k \<and> k \<le> fuel \<and> (r = Inl No_fuel \<longrightarrow> k = fuel) \<and>
       scripts t = concat (replicate k [migrate_line (argv ! 2), ''bash migration_status.sh'']))"
proof -
  from assms have four: "length argv = 4"
    by (auto simp: source_agent_alb_def agent_steps split: if_splits)
  with assms(1) have run: "bindA (src_sockets env) (\<lambda>(fd1, fd2, fd3).
      bindA (src_guest fuel env fd1 argv) (\<lambda>buffer.
      seqA (if buffer = ''prepared''
            then seqA (src_destination fuel env fd2 fd3 argv) (alb_loop fuel env fd2 argv)
            else ret ())
      (seqA (do_call env (Close fd3)) (seqA (do_call env (Close fd2)) (seqA (do_call env (Close fd1))
        (ret 0)))))) [] = (r, t)" by (simp add: source_agent_alb_def)
  obtain fd2 t3 x t4 where loop: "alb_loop fuel env fd2 argv t3 = (x, t4)" and quiet3: "scripts t3 = []"
    and x: "x = Inr () \<or> (\<exists>e. x = Inl e \<and> r = Inl e \<and> t = t4)"
    by (rule src_until_serve [OF run assms(2)]) blast
  note al = alb_loop_scripts [OF loop]
  with x obtain e where e: "x = Inl e" "r = Inl e" "t = t4" by blast
  from al obtain k where k: "k \<le> fuel" "r = Inl No_fuel \<longrightarrow> k = fuel"
    "scripts t = concat (replicate k [migrate_line (argv ! 2), ''bash migration_status.sh''])"
    using e quiet3 by auto
  with assms(2) have "0 < k" by (cases k) simp_all
  with k e(2) show ?thesis by auto
qed

theorem source_alb_never_ends_witness:
  "\<exists>r t. source_agent_alb 3 lan [''agent'', ''10.0.0.2'', ''10.0.0.3'', ''prepare''] [] = (r, t) \<and>
     (\<forall>x. r \<noteq> Inr x) \<and> 0 < length (scripts t)"
proof -
  obtain r t where run: "source_agent_alb 3 lan [''agent'', ''10.0.0.2'', ''10.0.0.3'', ''prepare''] [] = (r, t)"
    by fastforce
  have "scripts (snd (source_agent_alb 3 lan [''agent'', ''10.0.0.2'', ''10.0.0.3'', ''prepare''] [])) \<noteq> []"
    by code_simp
  with run have "scripts t \<noteq> []" by simp
  from source_alb_never_ends [OF run this] run this show ?thesis by auto
qed

end
