(* ===== verification/Guest_Agent.thy ===== *)
theory Guest_Agent
  imports Agent
begin

text \<open>
  The guest's migration agent, \<open>guest_migration_agent.c\<close>: its two ports, the endless loop that waits for
  the source machine, and what it does for one \<open>prepare\<close>. The loop around the destination's connection
  ends with \<open>break\<close>, so it is one turn.
\<close>

abbreviation GUEST_PORT1 :: nat where "GUEST_PORT1 \<equiv> 7777"
abbreviation GUEST_PORT2 :: nat where "GUEST_PORT2 \<equiv> 1818"
abbreviation GUEST_SIZE :: nat where "GUEST_SIZE \<equiv> 100"

definition guest_setup :: "env \<Rightarrow> (int \<times> int) agent" where
  "guest_setup env =
     bindA (must env Socket) (\<lambda>fd1. bindA (must env Socket) (\<lambda>fd2.
     seqA (must env (Setsockopt fd1))
     (seqA (must env (Bind fd1 GUEST_PORT1))
     (seqA (must env (Listen fd1)) (ret (fd1, fd2))))))"

text \<open>Open the second port.\<close>

definition guest_open :: "env \<Rightarrow> int \<Rightarrow> unit agent" where
  "guest_open env fd2 =
     seqA (must env (Setsockopt fd2))
     (seqA (must env (Bind fd2 GUEST_PORT2))
     (seqA (must env (Listen fd2)) (ret ())))"

text \<open>The destination's connection.\<close>

definition guest_serve :: "env \<Rightarrow> int \<Rightarrow> string list \<Rightarrow> unit agent" where
  "guest_serve env fd2 argv =
     bindA (must env (Accept fd2)) (\<lambda>socket2.
     seqA (read_cstring env socket2 GUEST_SIZE)
     (seqA (do_call env (Send socket2 (argv ! 2)))
     (seqA (do_call env (System ''bash check_vfio_interface_up.sh''))
     (seqA (do_call env (System ''bash setup_dest_bonding_driver.sh'')) (ret ())))))"

definition guest_turn :: "env \<Rightarrow> int \<Rightarrow> int \<Rightarrow> string list \<Rightarrow> unit agent" where
  "guest_turn env fd1 fd2 argv =
     bindA (must env (Accept fd1)) (\<lambda>socket1.
     bindA (read_cstring env socket1 GUEST_SIZE) (\<lambda>buffer.
       if buffer = ''prepare''
       then seqA (do_call env (System ''bash remove_vfio_interface.sh''))
            (seqA (do_call env (Send socket1 (argv ! 2)))
            (seqA (guest_open env fd2) (guest_serve env fd2 argv)))
       else ret ()))"

fun guest_loop :: "nat \<Rightarrow> env \<Rightarrow> int \<Rightarrow> int \<Rightarrow> string list \<Rightarrow> unit agent" where
  "guest_loop 0 env fd1 fd2 argv = stop_with No_fuel"
| "guest_loop (Suc fuel) env fd1 fd2 argv =
     seqA (guest_turn env fd1 fd2 argv) (guest_loop fuel env fd1 fd2 argv)"

definition guest_agent :: "nat \<Rightarrow> env \<Rightarrow> string list \<Rightarrow> int agent" where
  "guest_agent fuel env argv =
     (if length argv \<noteq> 4 then stop_with (Exit 1)
      else bindA (guest_setup env) (\<lambda>(fd1, fd2).
      seqA (guest_loop fuel env fd1 fd2 argv)
      (seqA (do_call env (Close fd2)) (seqA (do_call env (Close fd1)) (ret 0)))))"

section \<open>Lemmas\<close>

text \<open>A socket that has been bound, in a trace.\<close>

definition bound :: "env \<Rightarrow> int \<Rightarrow> trace \<Rightarrow> bool" where
  "bound env fd tr \<longleftrightarrow> (\<exists>pre p post. tr = pre @ Bind fd p # post \<and> 0 \<le> fst (env pre (Bind fd p)))"

text \<open>What the documentation of \<open>bind\<close> says (EINVAL: the socket is already bound to an address).\<close>

definition binds_once :: "env \<Rightarrow> bool" where
  "binds_once env \<longleftrightarrow> (\<forall>fd p tr. bound env fd tr \<longrightarrow> fst (env tr (Bind fd p)) < 0)"

lemma bound_append: "bound env fd tr \<Longrightarrow> bound env fd (tr @ more)"
  by (fastforce simp: bound_def)

lemma guest_setup_quiet: "guest_setup env tr = (r, t) \<Longrightarrow> scripts t = scripts tr \<and> r \<noteq> Inl No_fuel"
  by (auto simp: guest_setup_def agent_steps split: if_splits)

lemma guest_open_bound:
  assumes "binds_once env" and "bound env fd2 tr" and "guest_open env fd2 tr = (r, t)"
  shows "r = Inl (Exit 1) \<and> scripts t = scripts tr"
proof -
  have "fst (env (tr @ [Setsockopt fd2]) (Bind fd2 GUEST_PORT2)) < 0"
    using assms(1) bound_append [OF assms(2)] by (auto simp: binds_once_def)
  with assms(3) show ?thesis by (auto simp: guest_open_def agent_steps split: if_splits)
qed

lemma guest_open_Inr:
  assumes "guest_open env fd2 tr = (Inr x, t)"
  shows "bound env fd2 t \<and> scripts t = scripts tr"
proof -
  from assms have t: "t = (tr @ [Setsockopt fd2]) @ Bind fd2 GUEST_PORT2 # [Listen fd2]"
    and "0 \<le> fst (env (tr @ [Setsockopt fd2]) (Bind fd2 GUEST_PORT2))"
    by (auto simp: guest_open_def agent_steps split: if_splits)
  then have "bound env fd2 t" unfolding bound_def by blast
  with t show ?thesis by simp
qed

lemma guest_open_Inl: "guest_open env fd2 tr = (Inl e, t) \<Longrightarrow> scripts t = scripts tr \<and> e = Exit 1"
  by (auto simp: guest_open_def agent_steps split: if_splits)

text \<open>A turn once the second port is bound: nothing, or one more removal and then the end.\<close>

lemma guest_turn_bound:
  assumes once: "binds_once env" and b: "bound env fd2 tr" and run: "guest_turn env fd1 fd2 argv tr = (r, t)"
  shows "(scripts t = scripts tr \<and> (r = Inr () \<and> bound env fd2 t \<or> r = Inl (Exit 1))) \<or>
    (scripts t = scripts tr @ [''bash remove_vfio_interface.sh''] \<and> r = Inl (Exit 1))"
  using run b
  by (auto simp: guest_turn_def agent_steps bound_append split: if_splits
      dest!: guest_open_bound [OF once, rotated] intro: bound_append)

lemma guest_loop_bound:
  assumes "binds_once env" and "bound env fd2 tr" and "guest_loop fuel env fd1 fd2 argv tr = (r, t)"
  shows "(scripts t = scripts tr \<and> (\<forall>x. r \<noteq> Inr x)) \<or>
    (scripts t = scripts tr @ [''bash remove_vfio_interface.sh''] \<and> r = Inl (Exit 1))"
  using assms(2,3)
proof (induction fuel arbitrary: tr)
  case 0
  then show ?case by (simp add: agent_steps)
next
  case (Suc fuel)
  obtain x u where turn: "guest_turn env fd1 fd2 argv tr = (x, u)" by fastforce
  note g = guest_turn_bound [OF assms(1) Suc.prems(1) turn]
  show ?case
  proof (cases x)
    case (Inl e)
    with g turn Suc.prems(2) show ?thesis by (auto simp: agent_steps)
  next
    case (Inr y)
    with g turn Suc.prems(2) have "bound env fd2 u" "scripts u = scripts tr"
      "guest_loop fuel env fd1 fd2 argv u = (r, t)" by (auto simp: agent_steps)
    with Suc.IH [of u] show ?thesis by auto
  qed
qed

abbreviation guest_scripts :: "string list" where
  "guest_scripts \<equiv> [''bash remove_vfio_interface.sh'', ''bash check_vfio_interface_up.sh'',
     ''bash setup_dest_bonding_driver.sh'']"

lemma guest_serve_cases:
  assumes "guest_serve env fd2 argv tr = (r, t)"
  shows "(r = Inl (Exit 1) \<and> scripts t = scripts tr) \<or>
    (r = Inr () \<and> scripts t = scripts tr @ tl guest_scripts \<and> (\<exists>more. t = tr @ more))"
  using assms by (auto simp: guest_serve_def agent_steps split: if_splits)

lemma guest_turn_first:
  assumes run: "guest_turn env fd1 fd2 argv tr = (r, t)"
  shows "(scripts t = scripts tr \<and> r \<noteq> Inl No_fuel) \<or>
    (scripts t = scripts tr @ take 1 guest_scripts \<and> r = Inl (Exit 1)) \<or>
    (scripts t = scripts tr @ guest_scripts \<and> r = Inr () \<and> bound env fd2 t)"
proof -
  obtain x1 t1 where a: "must env (Accept fd1) tr = (x1, t1)" by fastforce
  show ?thesis
  proof (cases x1)
    case (Inl e)
    with a run show ?thesis by (auto simp: guest_turn_def agent_steps split: if_splits)
  next
    case (Inr s)
    obtain x2 t2 where b: "read_cstring env s GUEST_SIZE t1 = (x2, t2)" by fastforce
    have q: "scripts t2 = scripts tr" using a b Inr by (auto simp: agent_steps)
    show ?thesis
    proof (cases "x2 = Inr ''prepare''")
      case False
      show ?thesis
      proof (cases x2)
        case (Inl e)
        with b have "e = Exit 1" by (auto simp: agent_steps split: if_splits)
        with a b \<open>x1 = Inr s\<close> run q Inl show ?thesis
          by (auto simp: guest_turn_def step_known)
      next
        case (Inr buffer)
        with a b \<open>x1 = Inr s\<close> run q False show ?thesis
          by (simp add: guest_turn_def step_known ret_iff)
      qed
    next
      case True
      let ?t3 = "t2 @ [System ''bash remove_vfio_interface.sh'', Send s (argv ! 2)]"
      have rest: "seqA (guest_open env fd2) (guest_serve env fd2 argv) ?t3 = (r, t)"
        using run a b Inr True by (auto simp: guest_turn_def bindA_def seqA_def do_call_def)
      obtain x4 t4 where c: "guest_open env fd2 ?t3 = (x4, t4)" by fastforce
      show ?thesis
      proof (cases x4)
        case (Inl e)
        with c rest q guest_open_Inl [of env fd2 ?t3 e t4] show ?thesis by (auto simp: agent_steps)
      next
        case (Inr y)
        with c have o: "bound env fd2 t4" "scripts t4 = scripts ?t3"
          using guest_open_Inr [of env fd2 ?t3 y t4] by auto
        have "guest_serve env fd2 argv t4 = (r, t)" using rest c Inr by (auto simp: agent_steps)
        from guest_serve_cases [OF this] o q show ?thesis by (auto intro: bound_append)
      qed
    qed
  qed
qed

section \<open>Properties\<close>

text \<open>Where \<open>bind\<close> refuses a socket that is already bound, as it is documented to, the guest agent can
  serve one migration only: over any run it runs the scripts \<open>remove\<close>, \<open>check\<close> and \<open>bonding\<close> in that
  order at most once each, and a second \<open>prepare\<close> takes the interface down once more and then ends the
  agent with an error. It never ends normally.\<close>

theorem guest_one_migration:
  assumes "binds_once env" and "guest_agent fuel env argv [] = (r, t)"
  shows "(\<exists>k \<le> 4. scripts t = take k (guest_scripts @ [''bash remove_vfio_interface.sh'']) \<and>
      (k = 4 \<longrightarrow> r = Inl (Exit 1))) \<and> (\<forall>x. r \<noteq> Inr x)"
proof -
  have loop: "(\<exists>k \<le> 4. scripts t = take k (guest_scripts @ [''bash remove_vfio_interface.sh'']) \<and>
      (k = 4 \<longrightarrow> x = Inl (Exit 1))) \<and> (\<forall>y. x \<noteq> Inr y)"
    if "guest_loop fuel env fd1 fd2 argv tr = (x, t)" and "scripts tr = []" for fuel fd1 fd2 tr t and x :: "stop + unit"
    using that
  proof (induction fuel arbitrary: tr)
    case 0
    then show ?case by (auto simp: agent_steps)
  next
    case (Suc fuel)
    obtain z u where turn: "guest_turn env fd1 fd2 argv tr = (z, u)" by fastforce
    from guest_turn_first [OF turn] Suc.prems(2) consider
      (quiet) "scripts u = []" | (broken) "scripts u = take 1 guest_scripts" "z = Inl (Exit 1)"
      | (served) "scripts u = guest_scripts" "z = Inr ()" "bound env fd2 u" by auto
    then show ?case
    proof cases
      case quiet
      with Suc turn show ?thesis
        by (cases z) (auto simp: agent_steps intro: exI [of _ 0])
    next
      case broken
      with Suc.prems turn show ?thesis
        by (auto simp: agent_steps intro!: exI [of _ 1])
    next
      case served
      with Suc.prems turn have "guest_loop fuel env fd1 fd2 argv u = (x, t)" by (auto simp: agent_steps)
      from guest_loop_bound [OF assms(1) served(3) this] served(1) show ?thesis
        by (auto intro: exI [of _ 3] exI [of _ 4])
    qed
  qed
  show ?thesis
  proof (cases "length argv = 4")
    case False
    with assms(2) show ?thesis by (auto simp: guest_agent_def agent_steps intro: exI [of _ 0])
  next
    case True
    obtain z u where s: "guest_setup env [] = (z, u)" by fastforce
    from guest_setup_quiet [OF s] have q: "scripts u = []" by simp
    show ?thesis
    proof (cases z)
      case (Inl e)
      with True s q assms(2) show ?thesis
        by (auto simp: guest_agent_def bindA_def intro: exI [of _ 0])
    next
      case (Inr fds)
      obtain fd1 fd2 where fds: "fds = (fd1, fd2)" by fastforce
      obtain x t' where l: "guest_loop fuel env fd1 fd2 argv u = (x, t')" by fastforce
      from loop [OF l q] obtain e where "x = Inl e" by (cases x) auto
      with True s Inr fds l assms(2) have "r = Inl e" "t = t'" "x = Inl e"
        by (auto simp: guest_agent_def bindA_def seqA_def)
      with loop [OF l q] show ?thesis by auto
    qed
  qed
qed

text \<open>Two migrations in a row, on a network that follows the documentation of \<open>bind\<close>.\<close>

fun bound_in :: "int \<Rightarrow> trace \<Rightarrow> bool" where
  "bound_in fd [] = False"
| "bound_in fd (c # tr) = ((case c of Bind g p \<Rightarrow> g = fd | _ \<Rightarrow> False) \<or> bound_in fd tr)"

definition guest_lan :: env where
  "guest_lan tr c = (case c of
     Read fd n \<Rightarrow> (7, ''prepare'') | Socket \<Rightarrow> (3 + int (length tr), [])
   | Bind fd p \<Rightarrow> (if bound_in fd tr then - 1 else 0, []) | _ \<Rightarrow> (0, []))"

lemma bound_in_append: "bound_in fd (pre @ Bind fd p # post)"
  by (induction pre) auto

lemma guest_lan_once: "binds_once guest_lan"
  by (auto simp: binds_once_def bound_def guest_lan_def bound_in_append)

theorem guest_one_migration_witness:
  "\<exists>t. guest_agent 3 guest_lan [''agent'', ''h'', ''prepared'', ''d''] [] = (Inl (Exit 1), t) \<and>
     scripts t = guest_scripts @ [''bash remove_vfio_interface.sh'']"
proof -
  obtain r t where run: "guest_agent 3 guest_lan [''agent'', ''h'', ''prepared'', ''d''] [] = (r, t)"
    by fastforce
  have "length (scripts (snd (guest_agent 3 guest_lan [''agent'', ''h'', ''prepared'', ''d''] []))) = 4"
    by code_simp
  with run have four: "length (scripts t) = 4" by simp
  from guest_one_migration [OF guest_lan_once run] obtain k where
    k: "k \<le> 4" "scripts t = take k (guest_scripts @ [''bash remove_vfio_interface.sh''])"
       "k = 4 \<longrightarrow> r = Inl (Exit 1)" by blast
  with four have "k = 4" by simp
  with k run show ?thesis by simp
qed

end
