(* ===== verification/Dest_Agent.thy ===== *)
theory Dest_Agent
  imports Agent
begin

text \<open>
  The destination machine's migration agent, \<open>destination_migration_agent.c\<close>: one message per accepted
  connection, three kinds of message. The first buffer is overwritten by the command line of
  \<open>prepare\<close>, and the tests for the other two kinds read it afterwards.
\<close>

abbreviation DEST_PORT1 :: nat where "DEST_PORT1 \<equiv> 9797"
abbreviation DEST_PORT2 :: nat where "DEST_PORT2 \<equiv> 1818"
abbreviation DEST_SIZE :: nat where "DEST_SIZE \<equiv> 150"

text \<open>The second \<open>socket\<close> is followed by a second test of the first descriptor.\<close>

definition dest_setup :: "env \<Rightarrow> (int \<times> int) agent" where
  "dest_setup env =
     bindA (must env Socket) (\<lambda>fd1.
     bindA (do_call env Socket) (\<lambda>(fd2, _).
     if fd1 < 0 then stop_with (Exit 1)
     else seqA (must env (Setsockopt fd1))
       (seqA (must env (Bind fd1 DEST_PORT1))
       (seqA (must env (Listen fd1)) (ret (fd1, fd2))))))"

definition dest_command1 :: string where
  "dest_command1 = ''bash prepare_destination_for_migration.sh''"

definition vm_image :: string where
  "vm_image = ''/spoorti/vm-images/c3po.qcow2''"

definition dest_interface :: string where
  "dest_interface = ''enp7s0f1''"

definition mac_address :: string where
  "mac_address = ''00:25:90:d8:aa:ee''"

text \<open>\<open>"%s %d %d %s %d %s %d %s %s"\<close>\<close>

definition dest_line :: string where
  "dest_line = dest_command1 @ '' '' @ show_int 1 @ '' '' @ show_int 1024 @ '' '' @ vm_image @ '' '' @
     show_int 1 @ '' '' @ dest_interface @ '' '' @ show_int 0 @ '' '' @ mac_address @ '' '' @ ''&''"

definition dest_bound :: nat where
  "dest_bound = length dest_command1 + length mac_address + length vm_image + length dest_interface +
     length ''&'' * 5 + 4 * 4"

text \<open>The message \<open>prepare\<close>; the buffer holds the command line afterwards.\<close>

definition dest_prepare :: "env \<Rightarrow> string agent" where
  "dest_prepare env =
     bindA (snprintf DEST_SIZE dest_bound dest_line) (\<lambda>buffer.
     seqA (do_call env (System buffer))
     (seqA (do_call env (System ''bash check_destination_status.sh'')) (ret buffer)))"

definition dest_hotplug :: "env \<Rightarrow> unit agent" where
  "dest_hotplug env =
     seqA (do_call env (Sleep 2)) (seqA (do_call env (System ''bash hotplug_top_half_vf.sh'')) (ret ()))"

text \<open>The message \<open>Done\<close>: connect to the guest, tell it, hear from it, and plug the device.\<close>

definition dest_done :: "nat \<Rightarrow> env \<Rightarrow> int \<Rightarrow> string list \<Rightarrow> unit agent" where
  "dest_done fuel env fd2 argv =
     bindA (parse_addr env (argv ! 1)) (\<lambda>a.
     seqA (connect_loop fuel env (Connect fd2 a DEST_PORT2))
     (seqA (do_call env (Send fd2 (argv ! 3)))
     (seqA (read_cstring env fd2 DEST_SIZE)
     (seqA (do_call env (System ''bash hotplug_bottom_half_vf.sh'')) (ret ())))))"

definition dest_turn :: "nat \<Rightarrow> env \<Rightarrow> int \<Rightarrow> int \<Rightarrow> string list \<Rightarrow> unit agent" where
  "dest_turn fuel env fd1 fd2 argv =
     bindA (must env (Accept fd1)) (\<lambda>socket1.
     bindA (read_cstring env socket1 DEST_SIZE) (\<lambda>buffer.
     bindA (if buffer = ''prepare'' then dest_prepare env else ret buffer) (\<lambda>buffer.
     seqA (if buffer = ''hotplug'' then dest_hotplug env else ret ())
       (if buffer = ''Done'' then dest_done fuel env fd2 argv else ret ()))))"

fun dest_loop :: "nat \<Rightarrow> env \<Rightarrow> int \<Rightarrow> int \<Rightarrow> string list \<Rightarrow> unit agent" where
  "dest_loop 0 env fd1 fd2 argv = stop_with No_fuel"
| "dest_loop (Suc fuel) env fd1 fd2 argv =
     seqA (dest_turn fuel env fd1 fd2 argv) (dest_loop fuel env fd1 fd2 argv)"

definition destination_agent :: "nat \<Rightarrow> env \<Rightarrow> string list \<Rightarrow> int agent" where
  "destination_agent fuel env argv =
     (if length argv \<noteq> 4 then stop_with (Exit 1)
      else bindA (dest_setup env) (\<lambda>(fd1, fd2).
      seqA (dest_loop fuel env fd1 fd2 argv)
      (seqA (do_call env (Close fd2)) (seqA (do_call env (Close fd1)) (ret 0)))))"

section \<open>Lemmas\<close>

lemma dest_line_text:
  "dest_line = ''bash prepare_destination_for_migration.sh 1 1024 /spoorti/vm-images/c3po.qcow2 1 enp7s0f1 0 00:25:90:d8:aa:ee &''"
  by code_simp

text \<open>The command line fits both the bound and the buffer, so it is run whole.\<close>

lemma dest_prepare_runs:
  "dest_prepare env tr =
     (Inr dest_line, tr @ [System dest_line, System ''bash check_destination_status.sh''])"
proof -
  have "length dest_line = 111" by (simp add: dest_line_text)
  moreover have "dest_bound = 116"
    by (simp add: dest_bound_def dest_command1_def mac_address_def vm_image_def dest_interface_def)
  ultimately have "snprintf DEST_SIZE dest_bound dest_line = ret dest_line"
    by (simp add: snprintf_def)
  then show ?thesis by (simp add: dest_prepare_def bindA_def seqA_def do_call_def ret_def)
qed

lemma dest_line_other: "dest_line \<noteq> ''hotplug''" "dest_line \<noteq> ''Done''"
  by (simp_all add: dest_line_text)

lemma dest_connect_quiet:
  "connect_loop fuel env (Connect fd a p) tr = (r, t) \<Longrightarrow> scripts t = scripts tr"
  by (auto dest!: connect_loop_trace)

lemma dest_done_cases:
  assumes "dest_done fuel env fd2 argv tr = (r, t)"
  shows "(scripts t = scripts tr \<and> (r = Inl (Exit 1) \<or> r = Inl No_fuel)) \<or>
    (scripts t = scripts tr @ [''bash hotplug_bottom_half_vf.sh''] \<and> r = Inr ())"
proof -
  obtain x1 t1 where a: "parse_addr env (argv ! 1) tr = (x1, t1)" by fastforce
  then have q1: "scripts t1 = scripts tr" by (auto simp: agent_steps)
  show ?thesis
  proof (cases x1)
    case (Inl e)
    with a q1 assms show ?thesis by (auto simp: dest_done_def agent_steps split: if_splits)
  next
    case (Inr ad)
    obtain x2 t2 where b: "connect_loop fuel env (Connect fd2 ad DEST_PORT2) t1 = (x2, t2)" by fastforce
    note q2 = dest_connect_quiet [OF b]
    show ?thesis
    proof (cases x2)
      case (Inl e)
      with b have "e = No_fuel" by (auto dest: connect_loop_trace)
      with a b q1 q2 Inr Inl assms show ?thesis by (auto simp: dest_done_def bindA_def seqA_def)
    next
      case (Inr y)
      with a b q1 q2 \<open>x1 = Inr ad\<close> assms show ?thesis
        by (simp add: dest_done_def step_known) (auto simp: agent_steps split: if_splits)
    qed
  qed
qed

text \<open>What the scripts of a message are, by its text.\<close>

definition scripts_for :: "string \<Rightarrow> string list" where
  "scripts_for m =
     (if m = ''prepare'' then [dest_line, ''bash check_destination_status.sh'']
      else if m = ''hotplug'' then [''bash hotplug_top_half_vf.sh'']
      else if m = ''Done'' then [''bash hotplug_bottom_half_vf.sh'']
      else [])"

lemma dest_hotplug_runs:
  "dest_hotplug env tr = (Inr (), tr @ [Sleep 2, System ''bash hotplug_top_half_vf.sh''])"
  by (simp add: dest_hotplug_def seqA_def bindA_def do_call_def ret_def)

text \<open>The rest of a turn, once the message is read.\<close>

lemma dest_dispatch:
  assumes "bindA (if m = ''prepare'' then dest_prepare env else ret m) (\<lambda>buffer.
     seqA (if buffer = ''hotplug'' then dest_hotplug env else ret ())
       (if buffer = ''Done'' then dest_done fuel env fd2 argv else ret ())) tr = (r, t)"
  shows "(r = Inr () \<and> scripts t = scripts tr @ scripts_for m) \<or>
    (m = ''Done'' \<and> scripts t = scripts tr \<and> (r = Inl (Exit 1) \<or> r = Inl No_fuel))"
proof -
  consider "m = ''prepare''" | "m = ''hotplug''" | "m = ''Done''"
    | "m \<noteq> ''prepare'' \<and> m \<noteq> ''hotplug'' \<and> m \<noteq> ''Done''" by blast
  then show ?thesis
  proof cases
    case 1
    with assms show ?thesis
      by (simp add: bindA_Inr [OF dest_prepare_runs] dest_line_other seqA_iff ret_iff scripts_for_def)
  next
    case 2
    with assms show ?thesis
      by (auto simp: bindA_iff seqA_iff ret_iff dest_hotplug_runs scripts_for_def)
  next
    case 3
    then have "dest_done fuel env fd2 argv tr = (r, t)"
      using assms by (simp add: bindA_def seqA_def ret_def)
    from dest_done_cases [OF this] 3 show ?thesis by (auto simp: scripts_for_def)
  next
    case 4
    with assms show ?thesis by (auto simp: bindA_def seqA_def ret_def scripts_for_def)
  qed
qed

lemma dest_turn_cases:
  assumes "dest_turn fuel env fd1 fd2 argv tr = (r, t)"
  shows "(\<exists>s u. u = tr @ [Accept fd1] \<and> r = Inr () \<and>
      scripts t = scripts tr @ scripts_for (reply DEST_SIZE (env u (Read s DEST_SIZE)))) \<or>
    (scripts t = scripts tr \<and> (r = Inl (Exit 1) \<or> r = Inl No_fuel))"
proof -
  obtain x1 t1 where a: "must env (Accept fd1) tr = (x1, t1)" by fastforce
  show ?thesis
  proof (cases x1)
    case (Inl e)
    with a assms show ?thesis by (auto simp: dest_turn_def agent_steps split: if_splits)
  next
    case (Inr s)
    with a have t1: "t1 = tr @ [Accept fd1]" by (auto simp: agent_steps)
    obtain x2 t2 where b: "read_cstring env s DEST_SIZE t1 = (x2, t2)" by fastforce
    then have q: "scripts t2 = scripts tr" using t1 by (auto simp: agent_steps)
    show ?thesis
    proof (cases x2)
      case (Inl e)
      with a b Inr assms q show ?thesis
        by (auto simp: dest_turn_def step_known read_cstring_iff split: if_splits)
    next
      case (Inr m)
      with b have m: "m = reply DEST_SIZE (env t1 (Read s DEST_SIZE))"
        by (auto simp: read_cstring_iff split: if_splits)
      have "bindA (if m = ''prepare'' then dest_prepare env else ret m) (\<lambda>buffer.
         seqA (if buffer = ''hotplug'' then dest_hotplug env else ret ())
           (if buffer = ''Done'' then dest_done fuel env fd2 argv else ret ())) t2 = (r, t)"
        using a b Inr \<open>x1 = Inr s\<close> assms by (simp add: dest_turn_def step_known)
      from dest_dispatch [OF this] q m t1 show ?thesis by auto
    qed
  qed
qed

section \<open>Properties\<close>

text \<open>For each connection it serves, the destination agent does exactly what the message asks:
  \<open>prepare\<close> runs the preparation script with its whole command line (the \<open>snprintf\<close> bound and the
  buffer never cut it) and then the status check, \<open>hotplug\<close> the top half, \<open>Done\<close> the bottom half, and
  anything else nothing; although the message's buffer is overwritten by the command line, no message
  is ever taken for two. When the turn does not end normally no script was run.\<close>

theorem dest_message:
  assumes "dest_turn fuel env fd1 fd2 argv tr = (r, t)"
  shows "(\<exists>s. r = Inr () \<and> scripts t = scripts tr @
      (let m = reply DEST_SIZE (env (tr @ [Accept fd1]) (Read s DEST_SIZE)) in
       if m = ''prepare'' then
         [''bash prepare_destination_for_migration.sh 1 1024 /spoorti/vm-images/c3po.qcow2 1 enp7s0f1 0 00:25:90:d8:aa:ee &'',
          ''bash check_destination_status.sh'']
       else if m = ''hotplug'' then [''bash hotplug_top_half_vf.sh'']
       else if m = ''Done'' then [''bash hotplug_bottom_half_vf.sh'']
       else [])) \<or>
    (scripts t = scripts tr \<and> (r = Inl (Exit 1) \<or> r = Inl No_fuel))"
  using dest_turn_cases [OF assms] unfolding scripts_for_def dest_line_text Let_def by blast

definition dest_lan :: "string \<Rightarrow> env" where
  "dest_lan m tr c = (case c of
     Read fd n \<Rightarrow> (int (length m), m) | Socket \<Rightarrow> (3 + int (length tr), [])
   | Connect fd a p \<Rightarrow> (if c \<in> set tr then - 1 else 0, []) | _ \<Rightarrow> (0, []))"

theorem dest_message_witness:
  "\<exists>t. dest_turn 1 (dest_lan ''hotplug'') 3 4 [''a'', ''g'', ''m'', ''n''] [] = (Inr (), t) \<and>
     scripts t = [''bash hotplug_top_half_vf.sh'']"
proof -
  obtain r t where run: "dest_turn 1 (dest_lan ''hotplug'') 3 4 [''a'', ''g'', ''m'', ''n''] [] = (r, t)"
    by fastforce
  have "scripts (snd (dest_turn 1 (dest_lan ''hotplug'') 3 4 [''a'', ''g'', ''m'', ''n''] [])) \<noteq> []"
    by code_simp
  with run have some: "scripts t \<noteq> []" by simp
  have m: "reply DEST_SIZE (dest_lan ''hotplug'' u (Read s DEST_SIZE)) = ''hotplug''" for u s
    by (simp add: dest_lan_def reply_def)
  from dest_message [OF run] some m run show ?thesis by auto
qed

text \<open>What the documentation of \<open>connect\<close> says (EISCONN: the socket is already connected).\<close>

definition connected :: "env \<Rightarrow> int \<Rightarrow> trace \<Rightarrow> bool" where
  "connected env fd tr \<longleftrightarrow>
     (\<exists>pre a p post. tr = pre @ Connect fd a p # post \<and> 0 \<le> fst (env pre (Connect fd a p)))"

definition connects_once :: "env \<Rightarrow> bool" where
  "connects_once env \<longleftrightarrow> (\<forall>fd a p tr. connected env fd tr \<longrightarrow> fst (env tr (Connect fd a p)) < 0)"

lemma connected_append: "connected env fd tr \<Longrightarrow> connected env fd (tr @ more)"
  by (fastforce simp: connected_def)

lemma dest_done_connected:
  assumes "connects_once env" and "connected env fd2 tr" and "dest_done fuel env fd2 argv tr = (r, t)"
  shows "scripts t = scripts tr \<and> (r = Inl (Exit 1) \<or> r = Inl No_fuel)"
proof -
  have "fst (env ((tr @ [Inet_pton (argv ! 1)]) @ replicate k c) (Connect fd2 a DEST_PORT2)) < 0" for k a c
    using assms(1) connected_append [OF assms(2), of "[Inet_pton (argv ! 1)] @ replicate k c"]
    by (auto simp: connects_once_def)
  then have stuck: "connect_loop fuel env (Connect fd2 a DEST_PORT2) (tr @ [Inet_pton (argv ! 1)]) =
      (Inl No_fuel, (tr @ [Inet_pton (argv ! 1)]) @ replicate fuel (Connect fd2 a DEST_PORT2))" for a
    by (rule connect_loop_never)
  with assms(3) show ?thesis
    by (auto simp: dest_done_def bindA_iff parse_addr_iff seqA_iff split: if_splits)
qed

lemma dest_done_Inr:
  assumes "dest_done fuel env fd2 argv tr = (Inr x, t)"
  shows "connected env fd2 t \<and> scripts t = scripts tr @ [''bash hotplug_bottom_half_vf.sh'']"
proof -
  from assms obtain a k where k: "0 \<le> fst (env ((tr @ [Inet_pton (argv ! 1)]) @ replicate k (Connect fd2 a DEST_PORT2))
      (Connect fd2 a DEST_PORT2))"
    and t: "t = (tr @ [Inet_pton (argv ! 1)]) @ replicate (Suc k) (Connect fd2 a DEST_PORT2) @
      [Send fd2 (argv ! 3), Read fd2 DEST_SIZE, System ''bash hotplug_bottom_half_vf.sh'']"
    by (auto simp: dest_done_def agent_steps split: if_splits elim!: connect_loop_InrE)
  have "replicate (Suc k) (Connect fd2 a DEST_PORT2) =
      replicate k (Connect fd2 a DEST_PORT2) @ [Connect fd2 a DEST_PORT2]"
    by (simp add: replicate_append_same)
  with t have "t = ((tr @ [Inet_pton (argv ! 1)]) @ replicate k (Connect fd2 a DEST_PORT2)) @
      Connect fd2 a DEST_PORT2 # [Send fd2 (argv ! 3), Read fd2 DEST_SIZE, System ''bash hotplug_bottom_half_vf.sh'']"
    by simp
  with k t show ?thesis unfolding connected_def by fastforce
qed

text \<open>Programs only add to the trace.\<close>

definition extends :: "'a agent \<Rightarrow> bool" where
  "extends m \<longleftrightarrow> (\<forall>tr r t. m tr = (r, t) \<longrightarrow> (\<exists>more. t = tr @ more))"

lemma extends_basic: "extends (ret y)" "extends (stop_with e)" "extends (do_call env c)" "extends (must env c)"
  "extends (read_cstring env fd n)" "extends (parse_addr env x)"
  by (auto simp: extends_def agent_steps)

lemma extends_connect: "extends (connect_loop fuel env c)"
  by (auto simp: extends_def dest!: connect_loop_trace)

lemma extends_bind:
  assumes "extends m" and "\<And>x. extends (f x)"
  shows "extends (bindA m f)"
  unfolding extends_def
proof (intro allI impI)
  fix tr r t
  assume run: "bindA m f tr = (r, t)"
  obtain x u where m: "m tr = (x, u)" by fastforce
  with assms(1) obtain more where u: "u = tr @ more" unfolding extends_def by blast
  show "\<exists>more. t = tr @ more"
  proof (cases x)
    case (Inl e)
    with run m u show ?thesis by (auto simp: bindA_Inl)
  next
    case (Inr y)
    with run m have "f y u = (r, t)" by (simp add: bindA_Inr)
    with assms(2) obtain more' where "t = u @ more'" unfolding extends_def by blast
    with u show ?thesis by simp
  qed
qed

lemma extends_seq: "extends m \<Longrightarrow> extends n \<Longrightarrow> extends (seqA m n)"
  unfolding seqA_def by (rule extends_bind)

lemma extends_if: "extends m \<Longrightarrow> extends n \<Longrightarrow> extends (if b then m else n)"
  by simp

lemmas extends_intros = extends_basic extends_connect extends_bind extends_seq extends_if

lemma extends_prepare: "extends (dest_prepare env)"
  by (simp add: extends_def dest_prepare_runs)

lemma extends_turn: "extends (dest_turn fuel env fd1 fd2 argv)"
  unfolding dest_turn_def dest_hotplug_def dest_done_def
  by (rule extends_intros extends_prepare)+

abbreviation bottom_halves :: "trace \<Rightarrow> nat" where
  "bottom_halves tr \<equiv> count_list (scripts tr) ''bash hotplug_bottom_half_vf.sh''"

lemma bottom_for: "count_list (scripts_for m) ''bash hotplug_bottom_half_vf.sh'' = (if m = ''Done'' then 1 else 0)"
  by (simp add: scripts_for_def dest_line_text)

lemma dest_turn_bottom:
  assumes once: "connects_once env" and run: "dest_turn fuel env fd1 fd2 argv tr = (r, t)"
  shows "bottom_halves t = bottom_halves tr \<or>
    (\<not> connected env fd2 tr \<and> connected env fd2 t \<and> bottom_halves t = Suc (bottom_halves tr))"
proof -
  obtain x1 t1 where a: "must env (Accept fd1) tr = (x1, t1)" by fastforce
  show ?thesis
  proof (cases x1)
    case (Inl e)
    with a run show ?thesis by (auto simp: dest_turn_def agent_steps split: if_splits)
  next
    case (Inr s)
    obtain x2 t2 where b: "read_cstring env s DEST_SIZE t1 = (x2, t2)" by fastforce
    from a b have t2: "t2 = tr @ [Accept fd1, Read s DEST_SIZE]" by (auto simp: agent_steps)
    show ?thesis
    proof (cases x2)
      case (Inl e)
      with a b \<open>x1 = Inr s\<close> run t2 show ?thesis by (simp add: dest_turn_def step_known) auto
    next
      case (Inr m)
      have rest: "bindA (if m = ''prepare'' then dest_prepare env else ret m) (\<lambda>buffer.
         seqA (if buffer = ''hotplug'' then dest_hotplug env else ret ())
           (if buffer = ''Done'' then dest_done fuel env fd2 argv else ret ())) t2 = (r, t)"
        using a b Inr \<open>x1 = Inr s\<close> run by (simp add: dest_turn_def step_known)
      show ?thesis
      proof (cases "m = ''Done''")
        case False
        with dest_dispatch [OF rest] t2 show ?thesis by (auto simp: bottom_for)
      next
        case True
        then have d: "dest_done fuel env fd2 argv t2 = (r, t)"
          using rest by (simp add: bindA_def seqA_def ret_def)
        show ?thesis
        proof (cases r)
          case (Inl e)
          with dest_done_cases [OF d] t2 show ?thesis by auto
        next
          case (Inr y)
          with d have *: "dest_done fuel env fd2 argv t2 = (Inr y, t)" by simp
          have "\<not> connected env fd2 tr"
          proof
            assume "connected env fd2 tr"
            then have "connected env fd2 t2" unfolding t2 by (rule connected_append)
            from dest_done_connected [OF once this d] Inr show False by simp
          qed
          with dest_done_Inr [OF *] t2 show ?thesis by simp
        qed
      qed
    qed
  qed
qed

lemma dest_loop_bottom:
  assumes once: "connects_once env"
  shows "dest_loop fuel env fd1 fd2 argv tr = (r, t) \<Longrightarrow>
    bottom_halves tr = 0 \<or> (bottom_halves tr = 1 \<and> connected env fd2 tr) \<Longrightarrow>
    bottom_halves t \<le> 1 \<and> (\<forall>x. r \<noteq> Inr x)"
proof (induction fuel arbitrary: tr)
  case 0
  then show ?case by (auto simp: agent_steps)
next
  case (Suc fuel)
  obtain x u where turn: "dest_turn fuel env fd1 fd2 argv tr = (x, u)" by fastforce
  from extends_turn turn obtain more where u: "u = tr @ more" unfolding extends_def by blast
  have inv: "bottom_halves u = 0 \<or> (bottom_halves u = 1 \<and> connected env fd2 u)"
    using dest_turn_bottom [OF once turn] Suc.prems(2) u by (auto intro: connected_append)
  show ?case
  proof (cases x)
    case (Inl e)
    with Suc.prems(1) turn inv show ?thesis by (auto simp: step_known)
  next
    case (Inr y)
    with Suc.prems(1) turn have "dest_loop fuel env fd1 fd2 argv u = (r, t)" by (simp add: step_known)
    then show ?thesis using inv by (rule Suc.IH)
  qed
qed

text \<open>Where \<open>connect\<close> refuses a socket that is already connected, as it is documented to, the
  destination agent plugs the device once only: over any run the bottom half script runs at most once,
  however many \<open>Done\<close> messages come, since after the first one the connection is retried for ever on
  the connected socket. The agent never ends normally.\<close>

theorem dest_one_bottom_half:
  assumes "connects_once env" and "destination_agent fuel env argv [] = (r, t)"
  shows "count_list (scripts t) ''bash hotplug_bottom_half_vf.sh'' \<le> 1 \<and> (\<forall>x. r \<noteq> Inr x)"
proof (cases "length argv = 4")
  case False
  with assms(2) show ?thesis by (auto simp: destination_agent_def agent_steps)
next
  case True
  obtain z u where s: "dest_setup env [] = (z, u)" by fastforce
  then have q: "scripts u = []" by (auto simp: dest_setup_def agent_steps split: if_splits prod.splits)
  show ?thesis
  proof (cases z)
    case (Inl e)
    with True s q assms(2) show ?thesis by (auto simp: destination_agent_def step_known)
  next
    case (Inr fds)
    obtain fd1 fd2 where fds: "fds = (fd1, fd2)" by fastforce
    obtain x t' where l: "dest_loop fuel env fd1 fd2 argv u = (x, t')" by fastforce
    note b = dest_loop_bottom [OF assms(1) l]
    from b q obtain e where "x = Inl e" by (cases x) auto
    with True s Inr fds l assms(2) have "r = Inl e" "t = t'"
      by (auto simp: destination_agent_def step_known)
    with b q show ?thesis by auto
  qed
qed

text \<open>\<open>Done\<close> after \<open>Done\<close>, on a network that follows the documentation of \<open>connect\<close>.\<close>

fun connected_in :: "int \<Rightarrow> trace \<Rightarrow> bool" where
  "connected_in fd [] = False"
| "connected_in fd (c # tr) = ((case c of Connect g a p \<Rightarrow> g = fd | _ \<Rightarrow> False) \<or> connected_in fd tr)"

definition done_lan :: env where
  "done_lan tr c = (case c of
     Read fd n \<Rightarrow> (4, ''Done'') | Socket \<Rightarrow> (3 + int (length tr), [])
   | Connect fd a p \<Rightarrow> (if connected_in fd tr then - 1 else 0, []) | _ \<Rightarrow> (0, []))"

lemma connected_in_append: "connected_in fd (pre @ Connect fd a p # post)"
  by (induction pre) auto

lemma done_lan_once: "connects_once done_lan"
  by (auto simp: connects_once_def connected_def done_lan_def connected_in_append)

theorem dest_one_bottom_half_witness:
  "\<exists>r t. destination_agent 5 done_lan [''agent'', ''g'', ''switch'', ''connected''] [] = (r, t) \<and>
     count_list (scripts t) ''bash hotplug_bottom_half_vf.sh'' = 1"
proof -
  obtain r t where run: "destination_agent 5 done_lan [''agent'', ''g'', ''switch'', ''connected''] [] = (r, t)"
    by fastforce
  have "0 < count_list (scripts (snd (destination_agent 5 done_lan [''agent'', ''g'', ''switch'', ''connected''] [])))
      ''bash hotplug_bottom_half_vf.sh''" by code_simp
  with run have "0 < count_list (scripts t) ''bash hotplug_bottom_half_vf.sh''" by simp
  with dest_one_bottom_half [OF done_lan_once run] run show ?thesis by force
qed

end
