(* ===== verification/Qdev_Realize.thy ===== *)
theory Qdev_Realize
  imports Prelude
begin

text \<open>
  Realizing a device: \<open>device_set_realized\<close> of \<open>hw/core/qdev.c\<close> and the two halves it is split into for
  the hotplug of a passthrough NIC, \<open>osnet_device_set_realized_top_half\<close> and \<open>_bottom_half\<close>, with
  \<open>device_unparent\<close> that undoes a device. The class callbacks, hotplug handler, migration registry
  and child buses are outside this code: \<open>fails\<close> says, from the calls made so far, whether a call
  fails. A device's state holds, beside the fields of \<open>DeviceState\<close>, what has been set up for it and
  not taken down again: its class's \<open>realize\<close> (\<open>q_cb\<close>), its migration state (\<open>q_vmstate\<close>), the device
  listeners that were told of it and not told of its end (\<open>q_listeners\<close>), the hotplug handler's \<open>plug\<close>
  (\<open>q_plugged\<close>, which no code of this part undoes) and the realized flags of its child buses. A call
  that takes something down and fails leaves it up.
\<close>

datatype qevent =
    Check_migratable | Add_unattached int | Pre_plug | Realize_cb | Listener_realize | Plug
  | Vmstate_register | Bus_realized nat bool | Reset_cb | Vmstate_unregister | Unrealize_cb
  | Listener_unrealize | Bus_unparent | Bus_remove_child | Device_deleted_event | Opts_del

type_synonym outcome = "qevent list \<Rightarrow> qevent \<Rightarrow> bool"

record dev_class =
  dc_hotpluggable :: bool
  dc_realize :: bool
  dc_unrealize :: bool
  dc_reset :: bool
  dc_vmsd :: bool
  dc_ctrl :: bool

record qdev =
  q_realized :: bool
  q_hotplugged :: bool
  q_pending_deleted :: bool
  q_parent :: bool
  q_parent_bus :: bool
  q_opts :: bool
  q_cb :: bool
  q_vmstate :: bool
  q_listeners :: bool
  q_plugged :: bool
  q_buses :: "bool list"
  q_unattached :: int
  q_osnet_unattached :: int
  q_log :: "qevent list"

section \<open>Single calls\<close>

definition log_ev :: "qevent \<Rightarrow> qdev \<Rightarrow> qdev" where
  "log_ev e s = s\<lparr>q_log := q_log s @ [e]\<rparr>"

text \<open>A call that may fail; \<open>upd\<close> is what it sets up when it does not.\<close>

definition attempt :: "outcome \<Rightarrow> qevent \<Rightarrow> (qdev \<Rightarrow> qdev) \<Rightarrow> qdev \<Rightarrow> bool \<times> qdev" where
  "attempt fails e upd s = (if fails (q_log s) e then (True, log_ev e s) else (False, upd (log_ev e s)))"

definition call_if :: "bool \<Rightarrow> (qdev \<Rightarrow> bool \<times> qdev) \<Rightarrow> qdev \<Rightarrow> bool \<times> qdev" where
  "call_if b m s = (if b then m s else (False, s))"

text \<open>\<open>device_reset\<close>\<close>

definition device_reset :: "dev_class \<Rightarrow> qdev \<Rightarrow> qdev" where
  "device_reset dc s = (if dc_reset dc then log_ev Reset_cb s else s)"

text \<open>Set \<open>realized\<close> of the child buses from number \<open>i\<close> on, up to the first that fails.\<close>

fun realize_buses :: "outcome \<Rightarrow> nat list \<Rightarrow> qdev \<Rightarrow> bool \<times> qdev" where
  "realize_buses fails [] s = (False, s)"
| "realize_buses fails (i # is) s =
     (case attempt fails (Bus_realized i True) (\<lambda>s. s\<lparr>q_buses := (q_buses s)[i := True]\<rparr>) s of
        (True, s) \<Rightarrow> (True, s)
      | (False, s) \<Rightarrow> realize_buses fails is s)"

text \<open>Clear it for all of them; the flag returned is whether any failed.\<close>

fun unrealize_buses :: "outcome \<Rightarrow> nat list \<Rightarrow> qdev \<Rightarrow> bool \<times> qdev" where
  "unrealize_buses fails [] s = (False, s)"
| "unrealize_buses fails (i # is) s =
     (let (e, s) = attempt fails (Bus_realized i False) (\<lambda>s. s\<lparr>q_buses := (q_buses s)[i := False]\<rparr>) s;
          (e', s) = unrealize_buses fails is s
      in (e \<or> e', s))"

abbreviation all_buses :: "qdev \<Rightarrow> nat list" where
  "all_buses s \<equiv> [0..<length (q_buses s)]"

definition vmstate_unregister :: "dev_class \<Rightarrow> qdev \<Rightarrow> qdev" where
  "vmstate_unregister dc s = (if dc_vmsd dc then (log_ev Vmstate_unregister s)\<lparr>q_vmstate := False\<rparr> else s)"

section \<open>Unrealizing\<close>

text \<open>The branch of \<open>device_set_realized\<close> for \<open>!value && dev->realized\<close>, up to the assignment.\<close>

definition unrealize_branch :: "outcome \<Rightarrow> dev_class \<Rightarrow> qdev \<Rightarrow> bool \<times> qdev" where
  "unrealize_branch fails dc s =
     (let (e1, s) = unrealize_buses fails (all_buses s) s;
          s = vmstate_unregister dc s;
          (e2, s) = call_if (dc_unrealize dc) (attempt fails Unrealize_cb (\<lambda>s. s\<lparr>q_cb := False\<rparr>)) s;
          s = (log_ev Listener_unrealize (s\<lparr>q_pending_deleted := True\<rparr>))\<lparr>q_listeners := False\<rparr>
      in if e1 \<or> e2 then (True, s) else (False, s\<lparr>q_realized := False\<rparr>))"

definition set_realized_false :: "outcome \<Rightarrow> dev_class \<Rightarrow> qdev \<Rightarrow> bool \<times> qdev" where
  "set_realized_false fails dc s =
     (if q_hotplugged s \<and> \<not> dc_hotpluggable dc then (True, s)
      else if q_realized s then unrealize_branch fails dc s
      else (False, s))"

text \<open>\<open>device_unparent\<close>, the class's \<open>unparent\<close> callback; only called for an object with a parent.\<close>

definition device_unparent :: "outcome \<Rightarrow> dev_class \<Rightarrow> qdev \<Rightarrow> qdev" where
  "device_unparent fails dc s =
     (let s = (if q_realized s then snd (set_realized_false fails dc s) else s);
          s = fold (\<lambda>_. log_ev Bus_unparent) (q_buses s) s;
          s = s\<lparr>q_buses := []\<rparr>;
          s = (if q_parent_bus s then (log_ev Bus_remove_child s)\<lparr>q_parent_bus := False\<rparr> else s);
          s = (if q_pending_deleted s then log_ev Device_deleted_event s else s)
      in (log_ev Opts_del s)\<lparr>q_opts := False\<rparr>)"

definition object_unparent :: "outcome \<Rightarrow> dev_class \<Rightarrow> qdev \<Rightarrow> qdev" where
  "object_unparent fails dc s =
     (if q_parent s then (device_unparent fails dc s)\<lparr>q_parent := False\<rparr> else s)"

section \<open>Realizing in one go\<close>

text \<open>The label \<open>post_realize_fail\<close>; the error of the class's \<open>unrealize\<close> is not asked for.\<close>

definition post_realize_fail :: "outcome \<Rightarrow> dev_class \<Rightarrow> qdev \<Rightarrow> qdev" where
  "post_realize_fail fails dc s =
     snd (call_if (dc_unrealize dc) (attempt fails Unrealize_cb (\<lambda>s. s\<lparr>q_cb := False\<rparr>)) s)"

definition child_realize_fail :: "outcome \<Rightarrow> dev_class \<Rightarrow> qdev \<Rightarrow> qdev" where
  "child_realize_fail fails dc s =
     post_realize_fail fails dc (vmstate_unregister dc (snd (unrealize_buses fails (all_buses s) s)))"

text \<open>
  From \<open>check_migratable\<close> to the class's \<open>realize\<close>, common to \<open>device_set_realized\<close> and the top half.
  The first component is whether it failed, the second whether the device was given a parent here.
\<close>

definition realize_class ::
  "outcome \<Rightarrow> dev_class \<Rightarrow> (qdev \<Rightarrow> int) \<Rightarrow> ((int \<Rightarrow> int) \<Rightarrow> qdev \<Rightarrow> qdev) \<Rightarrow> qdev \<Rightarrow> bool \<times> bool \<times> qdev" where
  "realize_class fails dc count count_update s =
     (case attempt fails Check_migratable id s of
        (True, s) \<Rightarrow> (True, False, s)
      | (False, s) \<Rightarrow>
          let unattached_parent = \<not> q_parent s;
              s = (if unattached_parent
                   then count_update (\<lambda>n. n + 1) ((log_ev (Add_unattached (count s)) s)\<lparr>q_parent := True\<rparr>)
                   else s)
          in case call_if (dc_ctrl dc) (attempt fails Pre_plug id) s of
               (True, s) \<Rightarrow> (True, unattached_parent, s)
             | (False, s) \<Rightarrow>
                 let (e, s) = call_if (dc_realize dc) (attempt fails Realize_cb (\<lambda>s. s\<lparr>q_cb := True\<rparr>)) s
                 in (e, unattached_parent, s))"

text \<open>The label \<open>fail\<close>.\<close>

definition fail_path ::
  "outcome \<Rightarrow> dev_class \<Rightarrow> ((int \<Rightarrow> int) \<Rightarrow> qdev \<Rightarrow> qdev) \<Rightarrow> bool \<Rightarrow> qdev \<Rightarrow> qdev" where
  "fail_path fails dc count_update unattached_parent s =
     (if unattached_parent then count_update (\<lambda>n. n - 1) (object_unparent fails dc s) else s)"

text \<open>
  From the listeners to the child buses: what the bottom half shares with \<open>device_set_realized\<close>.
  On failure the labels \<open>child_realize_fail\<close> and \<open>post_realize_fail\<close> have been run.
\<close>

definition realize_rest :: "outcome \<Rightarrow> dev_class \<Rightarrow> qdev \<Rightarrow> bool \<times> qdev" where
  "realize_rest fails dc s =
     (case call_if (dc_ctrl dc) (attempt fails Plug (\<lambda>s. s\<lparr>q_plugged := True\<rparr>))
             ((log_ev Listener_realize s)\<lparr>q_listeners := True\<rparr>) of
        (True, s) \<Rightarrow> (True, post_realize_fail fails dc s)
      | (False, s) \<Rightarrow>
          (case call_if (dc_vmsd dc) (attempt fails Vmstate_register (\<lambda>s. s\<lparr>q_vmstate := True\<rparr>)) s of
             (True, s) \<Rightarrow> (True, post_realize_fail fails dc s)
           | (False, s) \<Rightarrow>
               (case realize_buses fails (all_buses s) s of
                  (True, s) \<Rightarrow> (True, child_realize_fail fails dc s)
                | (False, s) \<Rightarrow> (False, s))))"

definition set_realized_true :: "outcome \<Rightarrow> dev_class \<Rightarrow> qdev \<Rightarrow> bool \<times> qdev" where
  "set_realized_true fails dc s =
     (if q_hotplugged s \<and> \<not> dc_hotpluggable dc then (True, s)
      else if q_realized s then (False, s)
      else case realize_class fails dc q_unattached q_unattached_update s of
          (True, unattached, s) \<Rightarrow> (True, fail_path fails dc q_unattached_update unattached s)
        | (False, unattached, s) \<Rightarrow>
            (case realize_rest fails dc s of
               (True, s) \<Rightarrow> (True, fail_path fails dc q_unattached_update unattached s)
             | (False, s) \<Rightarrow>
                 (False, ((if q_hotplugged s then device_reset dc s else s)
                   \<lparr>q_pending_deleted := False\<rparr>)\<lparr>q_realized := True\<rparr>)))"

definition device_set_realized :: "outcome \<Rightarrow> dev_class \<Rightarrow> bool \<Rightarrow> qdev \<Rightarrow> bool \<times> qdev" where
  "device_set_realized fails dc value s =
     (if value then set_realized_true fails dc s else set_realized_false fails dc s)"

section \<open>Realizing in two halves\<close>

definition osnet_device_set_realized_top_half :: "outcome \<Rightarrow> dev_class \<Rightarrow> bool \<Rightarrow> qdev \<Rightarrow> bool \<times> qdev" where
  "osnet_device_set_realized_top_half fails dc value s =
     (if q_hotplugged s \<and> \<not> dc_hotpluggable dc then (True, s)
      else if value \<and> \<not> q_realized s
      then case realize_class fails dc q_osnet_unattached q_osnet_unattached_update s of
          (True, unattached, s) \<Rightarrow> (True, fail_path fails dc q_osnet_unattached_update unattached s)
        | (False, unattached, s) \<Rightarrow> (False, if q_hotplugged s then device_reset dc s else s)
      else (False, s))"

text \<open>The bottom half tests nothing and never hands its error to the caller.\<close>

definition osnet_device_set_realized_bottom_half :: "outcome \<Rightarrow> dev_class \<Rightarrow> bool \<Rightarrow> qdev \<Rightarrow> bool \<times> qdev" where
  "osnet_device_set_realized_bottom_half fails dc value s =
     (case realize_rest fails dc s of
        (True, s) \<Rightarrow> (False, s)
      | (False, s) \<Rightarrow> (False, s\<lparr>q_pending_deleted := False\<rparr>))"

section \<open>Lemmas\<close>

text \<open>A device nothing has been set up for, and one fully set up.\<close>

definition clean :: "qdev \<Rightarrow> bool" where
  "clean s \<longleftrightarrow> \<not> q_realized s \<and> \<not> q_cb s \<and> \<not> q_vmstate s \<and> \<not> q_listeners s \<and> \<not> q_plugged s \<and>
     True \<notin> set (q_buses s)"

definition set_up :: "dev_class \<Rightarrow> qdev \<Rightarrow> bool" where
  "set_up dc s \<longleftrightarrow> (q_cb s \<longleftrightarrow> dc_realize dc) \<and> (q_vmstate s \<longleftrightarrow> dc_vmsd dc) \<and> q_listeners s \<and>
     (q_plugged s \<longleftrightarrow> dc_ctrl dc) \<and> False \<notin> set (q_buses s)"

lemma log_ev_simps [simp]:
  "q_realized (log_ev e s) = q_realized s" "q_hotplugged (log_ev e s) = q_hotplugged s"
  "q_pending_deleted (log_ev e s) = q_pending_deleted s" "q_parent (log_ev e s) = q_parent s"
  "q_parent_bus (log_ev e s) = q_parent_bus s" "q_opts (log_ev e s) = q_opts s" "q_cb (log_ev e s) = q_cb s"
  "q_vmstate (log_ev e s) = q_vmstate s" "q_buses (log_ev e s) = q_buses s"
  "q_listeners (log_ev e s) = q_listeners s" "q_plugged (log_ev e s) = q_plugged s"
  "q_unattached (log_ev e s) = q_unattached s" "q_osnet_unattached (log_ev e s) = q_osnet_unattached s"
  "q_log (log_ev e s) = q_log s @ [e]"
  by (simp_all add: log_ev_def)

lemma reset_simps [simp]:
  "q_realized (device_reset dc s) = q_realized s" "q_hotplugged (device_reset dc s) = q_hotplugged s"
  "q_cb (device_reset dc s) = q_cb s" "q_vmstate (device_reset dc s) = q_vmstate s"
  "q_listeners (device_reset dc s) = q_listeners s" "q_plugged (device_reset dc s) = q_plugged s"
  "q_buses (device_reset dc s) = q_buses s" "q_parent (device_reset dc s) = q_parent s"
  by (simp_all add: device_reset_def)

text \<open>What the bus loops do to the flags, and that they touch nothing else but the log.\<close>

definition same_but_buses :: "qdev \<Rightarrow> qdev \<Rightarrow> bool" where
  "same_but_buses s t \<longleftrightarrow> t = s\<lparr>q_buses := q_buses t, q_log := q_log t\<rparr>"

lemma realize_buses_other:
  "realize_buses fails is s = (e, t) \<Longrightarrow> same_but_buses s t \<and> length (q_buses t) = length (q_buses s)"
proof (induction "is" arbitrary: s)
  case Nil
  then show ?case by (simp add: same_but_buses_def)
next
  case (Cons i "is")
  show ?case
  proof (cases "fails (q_log s) (Bus_realized i True)")
    case True
    with Cons.prems show ?thesis by (auto simp: attempt_def log_ev_def same_but_buses_def)
  next
    case False
    let ?s = "(log_ev (Bus_realized i True) s)\<lparr>q_buses := (q_buses s)[i := True]\<rparr>"
    from False Cons.prems have "realize_buses fails is ?s = (e, t)"
      by (simp add: attempt_def)
    from Cons.IH [OF this] show ?thesis by (simp add: same_but_buses_def log_ev_def)
  qed
qed

lemma realize_buses_ok:
  "realize_buses fails [k..<length (q_buses s)] s = (False, t) \<Longrightarrow>
     q_buses t = take k (q_buses s) @ replicate (length (q_buses s) - k) True"
proof (induction "length (q_buses s) - k" arbitrary: k s)
  case 0
  then show ?case by simp
next
  case (Suc n)
  then have k: "k < length (q_buses s)" by simp
  let ?s = "(log_ev (Bus_realized k True) s)\<lparr>q_buses := (q_buses s)[k := True]\<rparr>"
  have up: "[k..<length (q_buses s)] = k # [Suc k..<length (q_buses s)]"
    using k by (simp add: upt_conv_Cons)
  with Suc.prems have run: "realize_buses fails [Suc k..<length (q_buses ?s)] ?s = (False, t)"
    by (auto simp: attempt_def split: if_splits)
  have n: "n = length (q_buses ?s) - Suc k" using Suc.hyps(2) by simp
  from Suc.hyps(1) [OF n run] have "q_buses t = take (Suc k) ((q_buses s)[k := True]) @
      replicate (length (q_buses s) - Suc k) True" by simp
  also have "take (Suc k) ((q_buses s)[k := True]) = take k (q_buses s) @ [True]"
    using k by (simp add: take_Suc_conv_app_nth)
  finally show ?case using k
    by (simp add: Suc_diff_Suc [symmetric])
qed

text \<open>A bus is still up afterwards only if it was up and, if it was asked down, that call failed.\<close>

lemma unrealize_buses_left:
  "unrealize_buses fails is s = (e, t) \<Longrightarrow> same_but_buses s t \<and>
    length (q_buses t) = length (q_buses s) \<and>
    (\<forall>j < length (q_buses s). q_buses t ! j \<longrightarrow> q_buses s ! j \<and>
       (j \<in> set is \<longrightarrow> e \<and> (\<exists>h. fails h (Bus_realized j False))))"
proof (induction "is" arbitrary: s e)
  case Nil
  then show ?case by (simp add: same_but_buses_def)
next
  case (Cons i "is")
  let ?f = "fails (q_log s) (Bus_realized i False)"
  let ?s = "(log_ev (Bus_realized i False) s)\<lparr>q_buses := (q_buses s)[i := ?f \<and> q_buses s ! i]\<rparr>"
  have first: "attempt fails (Bus_realized i False) (\<lambda>s. s\<lparr>q_buses := (q_buses s)[i := False]\<rparr>) s = (?f, ?s)"
    by (auto simp: attempt_def log_ev_def)
  obtain e' where run: "unrealize_buses fails is ?s = (e', t)" and e: "e = (?f \<or> e')"
    using Cons.prems unfolding unrealize_buses.simps first by (auto simp: Let_def split: prod.splits)
  note ih = Cons.IH [OF run]
  have "q_buses s ! j \<and> (j \<in> set (i # is) \<longrightarrow> e \<and> (\<exists>h. fails h (Bus_realized j False)))"
    if "j < length (q_buses s)" and "q_buses t ! j" for j
  proof -
    from ih that have "q_buses ?s ! j" and "j \<in> set is \<longrightarrow> e' \<and> (\<exists>h. fails h (Bus_realized j False))"
      by simp_all
    with e that(1) show ?thesis 
      by (cases "i < length (q_buses s)") (auto simp: nth_list_update not_less split: if_splits)
  qed
  with ih show ?case by (auto simp: same_but_buses_def log_ev_def)
qed

lemma all_unrealized:
  assumes "unrealize_buses fails (all_buses s) s = (e, t)"
  shows "same_but_buses s t \<and> (True \<in> set (q_buses t) \<longrightarrow> e \<and> (\<exists>h i. fails h (Bus_realized i False)))"
  using unrealize_buses_left [OF assms] by (simp add: in_set_conv_nth) blast

text \<open>One call at a time.\<close>

lemma attempt_cases:
  "attempt fails e upd s = (b, t) \<longleftrightarrow>
     (if fails (q_log s) e then b \<and> t = log_ev e s else \<not> b \<and> t = upd (log_ev e s))"
  by (auto simp: attempt_def)

lemma call_if_cases: "call_if c m s = (b, t) \<longleftrightarrow> (if c then m s = (b, t) else \<not> b \<and> t = s)"
  by (auto simp: call_if_def)

text \<open>The part up to the class's \<open>realize\<close>: what it leaves, failed or not.\<close>

definition unattached_counter ::
  "(qdev \<Rightarrow> int) \<Rightarrow> ((int \<Rightarrow> int) \<Rightarrow> qdev \<Rightarrow> qdev) \<Rightarrow> bool" where
  "unattached_counter count upd \<longleftrightarrow>
     (count = q_unattached \<and> upd = q_unattached_update) \<or>
     (count = q_osnet_unattached \<and> upd = q_osnet_unattached_update)"

lemma realize_class_left:
  assumes "realize_class fails dc count upd s = (e, un, t)" and "unattached_counter count upd"
  shows "q_realized t = q_realized s \<and> q_hotplugged t = q_hotplugged s \<and> q_vmstate t = q_vmstate s \<and>
    q_buses t = q_buses s \<and> q_pending_deleted t = q_pending_deleted s \<and>
    q_listeners t = q_listeners s \<and> q_plugged t = q_plugged s \<and>
    q_cb t = (q_cb s \<or> (\<not> e \<and> dc_realize dc)) \<and> (un \<longrightarrow> q_parent t \<and> \<not> q_parent s) \<and>
    (\<not> un \<longrightarrow> q_parent t = q_parent s \<and> (e \<or> q_parent s)) \<and>
    count t = count s + (if un then 1 else 0)"
proof -
  define s2 where "s2 = (if q_parent s then log_ev Check_migratable s
    else upd (\<lambda>n. n + 1) ((log_ev (Add_unattached (count (log_ev Check_migratable s)))
      (log_ev Check_migratable s))\<lparr>q_parent := True\<rparr>))"
  obtain e3 s3 where s3: "call_if (dc_ctrl dc) (attempt fails Pre_plug id) s2 = (e3, s3)" by fastforce
  then have s3f: "s3 = (if dc_ctrl dc then log_ev Pre_plug s2 else s2)"
    by (auto simp: call_if_cases attempt_cases split: if_splits)
  obtain e4 s4 where s4: "call_if (dc_realize dc) (attempt fails Realize_cb (\<lambda>s. s\<lparr>q_cb := True\<rparr>)) s3 = (e4, s4)"
    by fastforce
  then have s4f: "s4 = (if dc_realize dc then (if e4 then log_ev Realize_cb s3
      else (log_ev Realize_cb s3)\<lparr>q_cb := True\<rparr>) else s3)" "\<not> dc_realize dc \<Longrightarrow> \<not> e4"
    by (auto simp: call_if_cases attempt_cases split: if_splits)
  have two: "q_listeners s2 = q_listeners s" "q_plugged s2 = q_plugged s" "q_realized s2 = q_realized s" "q_hotplugged s2 = q_hotplugged s" "q_vmstate s2 = q_vmstate s"
    "q_buses s2 = q_buses s" "q_pending_deleted s2 = q_pending_deleted s" "q_cb s2 = q_cb s" "q_parent s2"
    "count s2 = count s + (if q_parent s then 0 else 1)"
    using assms(2) by (auto simp: unattached_counter_def s2_def)
  have cnt: "count (log_ev e t) = count t" "count (log_ev e t\<lparr>q_cb := b\<rparr>) = count t" for e t b
    using assms(2) by (auto simp: unattached_counter_def)
  have three: "q_listeners s3 = q_listeners s" "q_plugged s3 = q_plugged s" "q_realized s3 = q_realized s" "q_hotplugged s3 = q_hotplugged s" "q_vmstate s3 = q_vmstate s"
    "q_buses s3 = q_buses s" "q_pending_deleted s3 = q_pending_deleted s" "q_cb s3 = q_cb s" "q_parent s3"
    "count s3 = count s + (if q_parent s then 0 else 1)"
    unfolding s3f by (cases "dc_ctrl dc"; simp add: two cnt)+
  have four: "q_listeners s4 = q_listeners s" "q_plugged s4 = q_plugged s" "q_realized s4 = q_realized s" "q_hotplugged s4 = q_hotplugged s" "q_vmstate s4 = q_vmstate s"
    "q_buses s4 = q_buses s" "q_pending_deleted s4 = q_pending_deleted s" "q_parent s4"
    "q_cb s4 = (q_cb s \<or> (\<not> e4 \<and> dc_realize dc))" "count s4 = count s + (if q_parent s then 0 else 1)"
    using three cnt by (cases "dc_realize dc"; cases e4; simp add: s4f(1))+
  have step: "realize_class fails dc count upd s =
      (case call_if (dc_ctrl dc) (attempt fails Pre_plug id) s2 of
         (True, s') \<Rightarrow> (True, \<not> q_parent s, s')
       | (False, s') \<Rightarrow> let (e, s'') = call_if (dc_realize dc)
             (attempt fails Realize_cb (\<lambda>s. s\<lparr>q_cb := True\<rparr>)) s' in (e, \<not> q_parent s, s''))"
    if "\<not> fails (q_log s) Check_migratable"
    using that unfolding realize_class_def attempt_def [of _ Check_migratable] s2_def Let_def log_ev_simps
    by (simp cong: prod.case_cong bool.case_cong)
  consider (mig) "fails (q_log s) Check_migratable" | (pre) "\<not> fails (q_log s) Check_migratable" "e3"
    | (rest) "\<not> fails (q_log s) Check_migratable" "\<not> e3" by blast
  then show ?thesis
  proof cases
    case mig
    with assms(1) have "e" "\<not> un" "t = log_ev Check_migratable s"
      by (auto simp: realize_class_def attempt_def)
    with assms(2) show ?thesis by (auto simp: unattached_counter_def)
  next
    case pre
    with assms(1) s3 have "e" "un = (\<not> q_parent s)" "t = s3" by (simp_all add: step)
    with three show ?thesis by simp
  next
    case rest
    with assms(1) s3 s4 have "e = e4" "un = (\<not> q_parent s)" "t = s4" by (simp_all add: step)
    with four show ?thesis by simp
  qed
qed

text \<open>The rest: everything set up, or what it set up taken down again.\<close>

lemma same_but_busesD:
  assumes "same_but_buses s t"
  shows "q_realized t = q_realized s" "q_hotplugged t = q_hotplugged s" "q_parent t = q_parent s"
    "q_unattached t = q_unattached s" "q_osnet_unattached t = q_osnet_unattached s"
    "q_pending_deleted t = q_pending_deleted s" "q_cb t = q_cb s" "q_vmstate t = q_vmstate s"
    "q_parent_bus t = q_parent_bus s" "q_opts t = q_opts s"
    "q_listeners t = q_listeners s" "q_plugged t = q_plugged s"
  by (subst assms [unfolded same_but_buses_def], simp)+

lemma post_realize_failD:
  fixes fails dc s
  defines "t \<equiv> post_realize_fail fails dc s"
  shows "q_realized t = q_realized s" "q_hotplugged t = q_hotplugged s" "q_parent t = q_parent s"
    "q_unattached t = q_unattached s" "q_osnet_unattached t = q_osnet_unattached s"
    "q_pending_deleted t = q_pending_deleted s" "q_vmstate t = q_vmstate s" "q_buses t = q_buses s"
    "q_listeners t = q_listeners s" "q_plugged t = q_plugged s"
    "q_cb t \<Longrightarrow> q_cb s" "q_cb t \<Longrightarrow> dc_unrealize dc \<Longrightarrow> \<exists>h. fails h Unrealize_cb"
  by (auto simp: t_def post_realize_fail_def call_if_def attempt_def split: if_splits)

lemma vmstate_unregister_simps:
  fixes dc s
  defines "t \<equiv> vmstate_unregister dc s"
  shows "q_realized t = q_realized s" "q_hotplugged t = q_hotplugged s" "q_parent t = q_parent s"
    "q_unattached t = q_unattached s" "q_osnet_unattached t = q_osnet_unattached s"
    "q_pending_deleted t = q_pending_deleted s" "q_vmstate t = (q_vmstate s \<and> \<not> dc_vmsd dc)"
    "q_buses t = q_buses s" "q_listeners t = q_listeners s" "q_plugged t = q_plugged s" "q_cb t = q_cb s"
  by (simp_all add: t_def vmstate_unregister_def)

text \<open>The hotplug handler after the listeners, and the migration state.\<close>

lemma plug_step:
  assumes "call_if (dc_ctrl dc) (attempt fails Plug (\<lambda>s. s\<lparr>q_plugged := True\<rparr>))
      ((log_ev Listener_realize s)\<lparr>q_listeners := True\<rparr>) = (e, t)"
  defines "f \<equiv> fails (q_log s @ [Listener_realize]) Plug"
  shows "e = (dc_ctrl dc \<and> f)" "q_realized t = q_realized s" "q_hotplugged t = q_hotplugged s"
    "q_parent t = q_parent s" "q_unattached t = q_unattached s" "q_osnet_unattached t = q_osnet_unattached s"
    "q_pending_deleted t = q_pending_deleted s" "q_cb t = q_cb s" "q_buses t = q_buses s" "q_listeners t"
    "q_plugged t = (q_plugged s \<or> dc_ctrl dc \<and> \<not> f)" "q_vmstate t = q_vmstate s"
  using assms by (auto simp: call_if_cases attempt_cases split: if_splits)

lemma vmstate_step:
  assumes "call_if (dc_vmsd dc) (attempt fails Vmstate_register (\<lambda>s. s\<lparr>q_vmstate := True\<rparr>)) s = (e, t)"
    and "\<not> q_vmstate s"
  shows "q_realized t = q_realized s" "q_hotplugged t = q_hotplugged s"
    "q_parent t = q_parent s" "q_unattached t = q_unattached s" "q_osnet_unattached t = q_osnet_unattached s"
    "q_pending_deleted t = q_pending_deleted s" "q_cb t = q_cb s" "q_buses t = q_buses s"
    "q_listeners t = q_listeners s" "q_plugged t = q_plugged s" "q_vmstate t = (dc_vmsd dc \<and> \<not> e)"
  using assms by (auto simp: call_if_cases attempt_cases split: if_splits)

lemma realize_rest_left:
  assumes "realize_rest fails dc s = (e, t)" and "\<not> q_vmstate s" and "True \<notin> set (q_buses s)"
  shows "q_realized t = q_realized s \<and> q_hotplugged t = q_hotplugged s \<and> q_parent t = q_parent s \<and>
    q_unattached t = q_unattached s \<and> q_osnet_unattached t = q_osnet_unattached s \<and>
    q_pending_deleted t = q_pending_deleted s \<and> q_listeners t \<and>
    q_plugged t = (q_plugged s \<or> dc_ctrl dc \<and> \<not> fails (q_log s @ [Listener_realize]) Plug) \<and>
    (if e then \<not> q_vmstate t \<and> (q_cb t \<longrightarrow> q_cb s \<and> (dc_unrealize dc \<longrightarrow> (\<exists>h. fails h Unrealize_cb))) \<and>
       (True \<in> set (q_buses t) \<longrightarrow> (\<exists>h i. fails h (Bus_realized i False)))
     else q_cb t = q_cb s \<and> q_vmstate t = dc_vmsd dc \<and> q_plugged t = (q_plugged s \<or> dc_ctrl dc) \<and>
       False \<notin> set (q_buses t))"
proof -
  obtain e1 s1 where s1: "call_if (dc_ctrl dc) (attempt fails Plug (\<lambda>s. s\<lparr>q_plugged := True\<rparr>))
      ((log_ev Listener_realize s)\<lparr>q_listeners := True\<rparr>) = (e1, s1)"
    by fastforce
  note f1 = plug_step [OF s1]
  obtain e2 s2 where s2:
    "call_if (dc_vmsd dc) (attempt fails Vmstate_register (\<lambda>s. s\<lparr>q_vmstate := True\<rparr>)) s1 = (e2, s2)"
    by fastforce
  have "\<not> q_vmstate s1" using assms(2) f1 by simp
  note f2 = vmstate_step [OF s2 this, unfolded f1]
  obtain e3 s3 where s3: "realize_buses fails (all_buses s2) s2 = (e3, s3)" by fastforce
  obtain e4 s4 where s4: "unrealize_buses fails (all_buses s3) s3 = (e4, s4)" by fastforce
  note o3 = realize_buses_other [OF s3] and o4 = all_unrealized [OF s4]
  note same3 = same_but_busesD [OF o3 [THEN conjunct1]]
  note same4 = same_but_busesD [OF o4 [THEN conjunct1]]
  have cb: "q_cb (post_realize_fail fails dc x) \<longrightarrow> q_cb x \<and> (dc_unrealize dc \<longrightarrow> (\<exists>h. fails h Unrealize_cb))"
    for x using post_realize_failD(11,12) by blast
  consider (plug) "e1" | (vmstate) "\<not> e1" "e2" | (bus) "\<not> e1" "\<not> e2" "e3" | (ok) "\<not> e1" "\<not> e2" "\<not> e3"
    by blast
  then show ?thesis
  proof cases
    case plug
    then have "e" "t = post_realize_fail fails dc s1"
      using assms(1) s1 by (simp_all add: realize_rest_def)
    with cb [of s1] assms(2,3) plug f1(1) show ?thesis by (simp add: f1(2-) post_realize_failD(1-10))
  next
    case vmstate
    then have "e" "t = post_realize_fail fails dc s2"
      using assms(1) s1 s2 by (simp_all add: realize_rest_def)
    with cb [of s2] assms(2,3) vmstate f1(1) show ?thesis
      by (simp add: f1(2-) f2 post_realize_failD(1-10))
  next
    case bus
    then have "e" "t = post_realize_fail fails dc (vmstate_unregister dc s4)"
      using assms(1) s1 s2 s3 s4 by (simp_all add: realize_rest_def child_realize_fail_def)
    with cb [of "vmstate_unregister dc s4"] assms(2) bus f1(1) o4 show ?thesis
      by (simp add: f1(2-) f2 post_realize_failD(1-10) same3 same4 vmstate_unregister_simps)
  next
    case ok
    then have "\<not> e" "t = s3"
      using assms(1) s1 s2 s3 by (simp_all add: realize_rest_def)
    moreover have "q_buses s3 = replicate (length (q_buses s2)) True"
      using realize_buses_ok [of fails 0 s2 s3] s3 ok by simp
    ultimately show ?thesis using assms(2) ok f1(1) by (auto simp: f1(2-) f2 same3)
  qed
qed

section \<open>Properties\<close>

text \<open>Unparenting a device that is not realized.\<close>

definition unparent_log :: "qdev \<Rightarrow> qevent list" where
  "unparent_log s = replicate (length (q_buses s)) Bus_unparent @
     (if q_parent_bus s then [Bus_remove_child] else []) @
     (if q_pending_deleted s then [Device_deleted_event] else []) @ [Opts_del]"

lemma fold_log_ev: "fold (\<lambda>_. log_ev e) bs s = s\<lparr>q_log := q_log s @ replicate (length bs) e\<rparr>"
  by (induction bs arbitrary: s) (simp_all add: log_ev_def)

lemma device_unparent_eq:
  "\<not> q_realized s \<Longrightarrow> device_unparent fails dc s =
     s\<lparr>q_buses := [], q_parent_bus := False, q_opts := False, q_log := q_log s @ unparent_log s\<rparr>"
  by (cases "q_parent_bus s"; cases "q_pending_deleted s")
    (simp_all add: device_unparent_def fold_log_ev unparent_log_def log_ev_def Let_def)

lemma fail_path_left:
  fixes fails dc un
  assumes "\<not> q_realized s" and "unattached_counter count upd"
  defines "t \<equiv> fail_path fails dc upd un s"
  shows "\<not> q_realized t" "q_cb t = q_cb s" "q_vmstate t = q_vmstate s" "q_listeners t = q_listeners s"
    "q_plugged t = q_plugged s" "set (q_buses t) \<subseteq> set (q_buses s)"
    "count t = count s - (if un then 1 else 0)" "un \<Longrightarrow> \<not> q_parent t" "\<not> un \<Longrightarrow> q_parent t = q_parent s"
  using assms(1,2)
  by (auto simp: t_def fail_path_def object_unparent_def device_unparent_eq unattached_counter_def)

lemma fail_path_clean:
  assumes "clean s" and "unattached_counter count upd"
  shows "clean (fail_path fails dc upd un s)"
proof -
  have "\<not> q_realized s" using assms(1) by (simp add: clean_def)
  from fail_path_left [OF this assms(2), where fails = fails and dc = dc and un = un] assms(1) show ?thesis
    by (auto simp: clean_def)
qed

lemma set_realized_true_eq:
  assumes "\<not> (q_hotplugged s \<and> \<not> dc_hotpluggable dc)" and "\<not> q_realized s"
  shows "device_set_realized fails dc True s =
    (case realize_class fails dc q_unattached q_unattached_update s of
        (True, unattached, s) \<Rightarrow> (True, fail_path fails dc q_unattached_update unattached s)
      | (False, unattached, s) \<Rightarrow>
          (case realize_rest fails dc s of
             (True, s) \<Rightarrow> (True, fail_path fails dc q_unattached_update unattached s)
           | (False, s) \<Rightarrow>
               (False, ((if q_hotplugged s then device_reset dc s else s)
                 \<lparr>q_pending_deleted := False\<rparr>)\<lparr>q_realized := True\<rparr>)))"
  using assms by (simp only: device_set_realized_def set_realized_true_def if_True if_False refl simp_thms)

text \<open>How far an attempt to realize came: past the class's \<open>realize\<close>, and past the hotplug handler.\<close>

abbreviation class_part :: "outcome \<Rightarrow> dev_class \<Rightarrow> qdev \<Rightarrow> bool \<times> bool \<times> qdev" where
  "class_part fails dc s \<equiv> realize_class fails dc q_unattached q_unattached_update s"

definition class_done :: "outcome \<Rightarrow> dev_class \<Rightarrow> qdev \<Rightarrow> bool" where
  "class_done fails dc s \<longleftrightarrow> (q_hotplugged s \<longrightarrow> dc_hotpluggable dc) \<and> \<not> fst (class_part fails dc s)"

definition plug_done :: "outcome \<Rightarrow> dev_class \<Rightarrow> qdev \<Rightarrow> bool" where
  "plug_done fails dc s \<longleftrightarrow> class_done fails dc s \<and> dc_ctrl dc \<and>
     \<not> fails (q_log (snd (snd (class_part fails dc s))) @ [Listener_realize]) Plug"

lemma realize_result:
  assumes "device_set_realized fails dc True s = (e, t)" and "clean s"
  shows "if e then \<not> q_realized t \<and> \<not> q_vmstate t \<and> q_unattached t = q_unattached s \<and>
      q_parent t = q_parent s \<and> q_listeners t = class_done fails dc s \<and> q_plugged t = plug_done fails dc s \<and>
      (q_cb t \<longrightarrow> class_done fails dc s \<and> dc_realize dc \<and>
         (dc_unrealize dc \<longrightarrow> (\<exists>h. fails h Unrealize_cb))) \<and>
      (True \<in> set (q_buses t) \<longrightarrow> (\<exists>h i. fails h (Bus_realized i False)))
    else q_realized t \<and> set_up dc t \<and> q_parent t \<and> \<not> q_pending_deleted t"
proof (cases "q_hotplugged s \<and> \<not> dc_hotpluggable dc")
  case True
  with assms show ?thesis
    by (auto simp: device_set_realized_def set_realized_true_def clean_def class_done_def plug_done_def)
next
  case False
  have cnt: "unattached_counter q_unattached q_unattached_update" by (simp add: unattached_counter_def)
  have fresh: "\<not> q_realized s" using assms(2) by (simp add: clean_def)
  obtain e1 un s1 where s1: "class_part fails dc s = (e1, un, s1)" by (metis prod_cases3)
  note c1 = realize_class_left [OF s1 cnt]
  obtain e2 s2 where s2: "realize_rest fails dc s1 = (e2, s2)" by fastforce
  have "\<not> q_vmstate s1" "True \<notin> set (q_buses s1)" using c1 assms(2) by (simp_all add: clean_def)
  note c2 = realize_rest_left [OF s2 this]
  note run = assms(1) [unfolded set_realized_true_eq [OF False fresh] s1]
  have far: "class_done fails dc s = (\<not> e1)"
    "plug_done fails dc s = (\<not> e1 \<and> dc_ctrl dc \<and> \<not> fails (q_log s1 @ [Listener_realize]) Plug)"
    using False s1 by (auto simp: class_done_def plug_done_def)
  consider (early) "e1" | (rest) "\<not> e1" "e2" | (ok) "\<not> e1" "\<not> e2" by blast
  then show ?thesis
  proof cases
    case early
    then have e: e and t: "t = fail_path fails dc q_unattached_update un s1" using run by simp_all
    have "\<not> q_realized s1" using c1 fresh by simp
    note left = fail_path_left [OF this cnt, where fails = fails and dc = dc and un = un, folded t]
    have place: "q_parent t = q_parent s" "q_unattached t = q_unattached s"
      using left(7-9) c1 by (cases un; simp)+
    have "True \<notin> set (q_buses t)" using left(6) c1 assms(2) by (auto simp: clean_def)
    then show ?thesis using e left(1-5) c1 assms(2) early far place by (simp add: clean_def)
  next
    case rest
    then have e: e and t: "t = fail_path fails dc q_unattached_update un s2" using run s2 by simp_all
    have "\<not> q_realized s2" using c1 c2 fresh by simp
    note left = fail_path_left [OF this cnt, where fails = fails and dc = dc and un = un, folded t]
    have place: "q_parent t = q_parent s" "q_unattached t = q_unattached s"
      using left(7-9) c1 c2 by (cases un; simp)+
    have "True \<in> set (q_buses t) \<longrightarrow> (\<exists>h i. fails h (Bus_realized i False))"
      using left(6) c2 rest by auto
    then show ?thesis using e left(1-5) c1 c2 assms(2) rest far place by (simp add: clean_def)
  next
    case ok
    then have "\<not> e" and t: "t = ((if q_hotplugged s2 then device_reset dc s2 else s2)
        \<lparr>q_pending_deleted := False\<rparr>)\<lparr>q_realized := True\<rparr>"
      using run s2 by simp_all
    moreover have "set_up dc s2" and "q_parent s2"
      using c1 c2 ok assms(2) by (auto simp: set_up_def clean_def)
    ultimately show ?thesis unfolding t by (simp add: set_up_def)
  qed
qed

text \<open>C9: Realizing a device that nothing is set up for either succeeds, and then the class's \<open>realize\<close>, the
  listeners, the hotplug handler, the migration state and every child bus are in place and the device
  is marked realized; or it fails, whatever calls fail, and then the device is not realized, has no
  migration state, and its place in the object tree and the count of unattached devices are as
  before. What a failure can leave is this: the listeners stay told of the device as soon as
  the class's \<open>realize\<close> had succeeded, and the hotplug handler keeps it plugged when its \<open>plug\<close> had,
  since nothing undoes these two; the class stays realized only when it has no \<open>unrealize\<close> or that
  failed, and a child bus only when taking it down failed, errors that are dropped.\<close>

theorem realize_outcome:
  assumes "device_set_realized fails dc True s = (e, t)" and "clean s"
  shows "if e then \<not> q_realized t \<and> \<not> q_vmstate t \<and> q_unattached t = q_unattached s \<and>
      q_parent t = q_parent s \<and> q_listeners t = class_done fails dc s \<and> q_plugged t = plug_done fails dc s \<and>
      (q_cb t \<longrightarrow> class_done fails dc s \<and> dc_realize dc \<and>
         (dc_unrealize dc \<longrightarrow> (\<exists>h. fails h Unrealize_cb))) \<and>
      (True \<in> set (q_buses t) \<longrightarrow> (\<exists>h i. fails h (Bus_realized i False)))
    else q_realized t \<and> set_up dc t \<and> q_parent t \<and> \<not> q_pending_deleted t"
  using assms by (rule realize_result)

text \<open>A hotplugged NIC with two child buses whose second bus cannot be realized.\<close>

definition nic_class :: dev_class where
  "nic_class = \<lparr>dc_hotpluggable = True, dc_realize = True, dc_unrealize = True, dc_reset = True,
     dc_vmsd = True, dc_ctrl = True\<rparr>"

definition nic :: qdev where
  "nic = \<lparr>q_realized = False, q_hotplugged = True, q_pending_deleted = False, q_parent = True,
     q_parent_bus = True, q_opts = True, q_cb = False, q_vmstate = False,
     q_listeners = False, q_plugged = False, q_buses = [False, False],
     q_unattached = 3, q_osnet_unattached = 3, q_log = []\<rparr>"

definition second_bus_fails :: outcome where
  "second_bus_fails h e = (e = Bus_realized 1 True)"

theorem realize_outcome_witness:
  "\<exists>t. device_set_realized second_bus_fails nic_class True nic = (True, t) \<and>
     Realize_cb \<in> set (q_log t) \<and> \<not> q_cb t \<and> True \<notin> set (q_buses t) \<and> q_unattached t = 3 \<and>
     q_listeners t \<and> q_plugged t"
proof -
  obtain e t where run: "device_set_realized second_bus_fails nic_class True nic = (e, t)" by fastforce
  have "clean nic" by (simp add: clean_def nic_def)
  note r = realize_outcome [OF run this]
  have "fst (device_set_realized second_bus_fails nic_class True nic) \<and>
      Realize_cb \<in> set (q_log (snd (device_set_realized second_bus_fails nic_class True nic))) \<and>
      class_done second_bus_fails nic_class nic \<and> plug_done second_bus_fails nic_class nic"
    by code_simp
  moreover have "dc_unrealize nic_class" and "\<not> second_bus_fails h Unrealize_cb"
    and "\<not> second_bus_fails h (Bus_realized i False)" for h i
    by (simp_all add: nic_class_def second_bus_fails_def)
  ultimately show ?thesis using run r by (auto simp: nic_def)
qed

subsection \<open>The two halves together\<close>

text \<open>The events of the two parts when no call fails.\<close>

definition class_log :: "dev_class \<Rightarrow> bool \<Rightarrow> int \<Rightarrow> qevent list" where
  "class_log dc parent n = Check_migratable # (if parent then [] else [Add_unattached n]) @
     (if dc_ctrl dc then [Pre_plug] else []) @ (if dc_realize dc then [Realize_cb] else [])"

definition rest_log :: "dev_class \<Rightarrow> nat \<Rightarrow> qevent list" where
  "rest_log dc n = Listener_realize # (if dc_ctrl dc then [Plug] else []) @
     (if dc_vmsd dc then [Vmstate_register] else []) @ map (\<lambda>i. Bus_realized i True) [0..<n]"

definition reset_log :: "dev_class \<Rightarrow> bool \<Rightarrow> qevent list" where
  "reset_log dc hotplugged = (if hotplugged \<and> dc_reset dc then [Reset_cb] else [])"

abbreviation nothing_fails :: outcome where
  "nothing_fails \<equiv> \<lambda>_ _. False"

lemma buses_nothing_fails:
  "realize_buses nothing_fails is s =
     (False, s\<lparr>q_buses := fold (\<lambda>i bs. bs[i := True]) is (q_buses s),
               q_log := q_log s @ map (\<lambda>i. Bus_realized i True) is\<rparr>)"
  by (induction "is" arbitrary: s) (auto simp: attempt_def log_ev_def)

lemma rest_nothing_fails:
  "realize_rest nothing_fails dc s =
     (False, s\<lparr>q_vmstate := q_vmstate s \<or> dc_vmsd dc, q_listeners := True,
               q_plugged := q_plugged s \<or> dc_ctrl dc,
               q_buses := fold (\<lambda>i bs. bs[i := True]) (all_buses s) (q_buses s),
               q_log := q_log s @ rest_log dc (length (q_buses s))\<rparr>)"
  by (cases "dc_ctrl dc"; cases "dc_vmsd dc")
    (simp_all add: realize_rest_def call_if_def attempt_def log_ev_def buses_nothing_fails rest_log_def)

lemma class_nothing_fails:
  "realize_class nothing_fails dc count upd s =
     (False, \<not> q_parent s,
      let s = (if q_parent s then log_ev Check_migratable s
               else upd (\<lambda>n. n + 1) ((log_ev (Add_unattached (count (log_ev Check_migratable s)))
                      (log_ev Check_migratable s))\<lparr>q_parent := True\<rparr>));
          s = (if dc_ctrl dc then log_ev Pre_plug s else s)
      in if dc_realize dc then (log_ev Realize_cb s)\<lparr>q_cb := True\<rparr> else s)"
  by (cases "q_parent s"; cases "dc_ctrl dc"; cases "dc_realize dc")
    (simp_all add: realize_class_def call_if_def attempt_def)

text \<open>
  When whether a call fails depends on the call alone, what a part does depends on the fields it reads
  alone: not on the log so far, the realized flag and the counters of unattached devices.
\<close>

definition frame :: "qevent list \<Rightarrow> bool \<Rightarrow> int \<Rightarrow> int \<Rightarrow> qdev \<Rightarrow> qdev" where
  "frame l r a b s = s\<lparr>q_log := l, q_realized := r, q_unattached := a, q_osnet_unattached := b\<rparr>"

definition framed :: "(qdev \<Rightarrow> bool \<times> qdev) \<Rightarrow> bool" where
  "framed m \<longleftrightarrow> (\<forall>s. \<exists>L. q_log (snd (m s)) = q_log s @ L \<and>
     (\<forall>l r a b. m (frame l r a b s) = (fst (m s), frame (l @ L) r a b (snd (m s)))))"

lemma frame_simps [simp]:
  "q_buses (frame l r a b s) = q_buses s" "q_log (frame l r a b s) = l"
  "log_ev e (frame l r a b s) = frame (l @ [e]) r a b (log_ev e s)"
  by (simp_all add: frame_def log_ev_def)

lemma framed_pure: "(\<And>l r a b x. g (frame l r a b x) = frame l r a b (g x)) \<Longrightarrow>
    (\<And>x. q_log (g x) = q_log x) \<Longrightarrow> framed (\<lambda>s. (e, g s))"
  by (simp add: framed_def)

lemma framed_Pair: "framed (\<lambda>s. (e, s))"
  by (simp add: framed_def)

lemma framed_log: "(\<And>l r a b x. g (frame l r a b x) = frame l r a b (g x)) \<Longrightarrow>
    (\<And>x. q_log (g x) = q_log x) \<Longrightarrow> framed (\<lambda>s. (e, g (log_ev ev s)))"
  by (simp add: framed_def)

lemma framed_seq:
  assumes "framed m" and "\<And>e. framed (k e)"
  shows "framed (\<lambda>s. case m s of (e, s) \<Rightarrow> k e s)"
  unfolding framed_def
proof
  fix s
  obtain e x where m: "m s = (e, x)" by fastforce
  obtain L where L: "q_log x = q_log s @ L" "\<And>l r a b. m (frame l r a b s) = (e, frame (l @ L) r a b x)"
    using assms(1) m unfolding framed_def by (metis fst_conv snd_conv)
  obtain M where M: "q_log (snd (k e x)) = q_log x @ M"
    "\<And>l r a b. k e (frame l r a b x) = (fst (k e x), frame (l @ M) r a b (snd (k e x)))"
    using assms(2) [of e] unfolding framed_def by metis
  show "\<exists>L. q_log (snd (case m s of (e, s) \<Rightarrow> k e s)) = q_log s @ L \<and>
      (\<forall>l r a b. (case m (frame l r a b s) of (e, s) \<Rightarrow> k e s) =
        (fst (case m s of (e, s) \<Rightarrow> k e s), frame (l @ L) r a b (snd (case m s of (e, s) \<Rightarrow> k e s))))"
    using L M by (intro exI [of _ "L @ M"]) (simp add: m)
qed

lemma framed_case:
  assumes "framed m" and "framed A" and "framed B"
  shows "framed (\<lambda>s. case m s of (True, s) \<Rightarrow> A s | (False, s) \<Rightarrow> B s)"
proof -
  have "framed (\<lambda>s. case m s of (e, s) \<Rightarrow> (if e then A else B) s)"
    using assms by (intro framed_seq) simp_all
  moreover have "(case p of (True, s) \<Rightarrow> A s | (False, s) \<Rightarrow> B s) = (case p of (e, s) \<Rightarrow> (if e then A else B) s)"
    for p by (cases p; cases "fst p") simp_all
  ultimately show ?thesis by simp
qed

lemma framed_dep:
  assumes "\<And>x. framed (m x)" and "\<And>l r a b s. g (frame l r a b s) = g s"
  shows "framed (\<lambda>s. m (g s) s)"
  using assms unfolding framed_def by simp

lemma framed_attempt:
  assumes "\<And>l r a b x. upd (frame l r a b x) = frame l r a b (upd x)" and "\<And>x. q_log (upd x) = q_log x"
  shows "framed (attempt (\<lambda>_. f) e upd)"
  using assms by (simp add: framed_def attempt_def)

lemma framed_call_if: "framed m \<Longrightarrow> framed (call_if c m)"
  by (cases c) (simp_all add: call_if_def [abs_def] framed_def)

lemma framed_realize_buses: "framed (realize_buses (\<lambda>_. f) is)"
proof (induction "is")
  case Nil
  then show ?case by (simp add: framed_def)
next
  case (Cons i "is")
  have "framed (\<lambda>s. case attempt (\<lambda>_. f) (Bus_realized i True) (\<lambda>s. s\<lparr>q_buses := (q_buses s)[i := True]\<rparr>) s of
        (True, s) \<Rightarrow> (True, s) | (False, s) \<Rightarrow> realize_buses (\<lambda>_. f) is s)"
    by (intro framed_case framed_attempt Cons.IH framed_pure) (simp_all add: frame_def)
  then show ?case by simp
qed

lemma framed_unrealize_buses: "framed (unrealize_buses (\<lambda>_. f) is)"
proof (induction "is")
  case Nil
  then show ?case by (simp add: framed_def)
next
  case (Cons i "is")
  have tail: "framed (\<lambda>s. case unrealize_buses (\<lambda>_. f) is s of (e', s) \<Rightarrow> (e \<or> e', s))" for e
    by (rule framed_seq [OF Cons.IH framed_Pair])
  have "framed (attempt (\<lambda>_. f) (Bus_realized i False) (\<lambda>s. s\<lparr>q_buses := (q_buses s)[i := False]\<rparr>))"
    by (rule framed_attempt) (simp_all add: frame_def)
  from framed_seq [OF this tail] show ?case by (simp add: Let_def)
qed

lemma framed_snd: "framed m \<Longrightarrow> framed (\<lambda>s. (e, snd (m s)))"
  unfolding framed_def by (metis fst_conv snd_conv)

lemma framed_post_realize_fail: "framed (\<lambda>s. (e, post_realize_fail (\<lambda>_. f) dc s))"
  unfolding post_realize_fail_def
  by (intro framed_snd framed_call_if framed_attempt) (simp_all add: frame_def)

lemma framed_then:
  assumes "framed (\<lambda>s. (e, g s))" and "framed (\<lambda>s. (e, h s))"
  shows "framed (\<lambda>s. (e, h (g s)))"
  using framed_seq [OF assms(1), of "\<lambda>_ s. (e, h s)"] assms(2) by simp

lemma framed_child_realize_fail: "framed (\<lambda>s. (e, child_realize_fail (\<lambda>_. f) dc s))"
proof -
  have vm: "framed (\<lambda>s. (e, vmstate_unregister dc s))"
    by (cases "dc_vmsd dc") (simp_all add: vmstate_unregister_def framed_def frame_def log_ev_def)
  have down: "framed (\<lambda>s. unrealize_buses (\<lambda>_. f) (all_buses s) s)"
    by (rule framed_dep [where g = all_buses, OF framed_unrealize_buses]) simp
  show ?thesis
    unfolding child_realize_fail_def
    by (rule framed_then [OF framed_then [OF framed_snd [OF down] vm] framed_post_realize_fail])
qed

lemma framed_realize_rest: "framed (realize_rest (\<lambda>_. f) dc)"
proof -
  have "framed (\<lambda>s. realize_buses (\<lambda>_. f) (all_buses s) s)"
    by (rule framed_dep [where g = all_buses, OF framed_realize_buses]) simp
  note buses = framed_case [OF this framed_child_realize_fail framed_Pair]
  have "framed (call_if (dc_vmsd dc) (attempt (\<lambda>_. f) Vmstate_register (\<lambda>s. s\<lparr>q_vmstate := True\<rparr>)))"
    by (intro framed_call_if framed_attempt) (simp_all add: frame_def)
  note vm = framed_case [OF this framed_post_realize_fail buses]
  have "framed (call_if (dc_ctrl dc) (attempt (\<lambda>_. f) Plug (\<lambda>s. s\<lparr>q_plugged := True\<rparr>)))"
    by (intro framed_call_if framed_attempt) (simp_all add: frame_def)
  note plug = framed_case [OF this framed_post_realize_fail vm]
  have "framed (\<lambda>s. (False, (log_ev Listener_realize s)\<lparr>q_listeners := True\<rparr>))"
    by (rule framed_log) (simp_all add: frame_def)
  from framed_seq [OF this plug] show ?thesis by (simp add: realize_rest_def [abs_def])
qed

text \<open>The common part of both, counting in one counter or the other.\<close>

definition exchange :: "qdev \<Rightarrow> qdev" where
  "exchange s = s\<lparr>q_unattached := q_osnet_unattached s, q_osnet_unattached := q_unattached s\<rparr>"

lemma exchange_simps [simp]:
  "q_hotplugged (exchange s) = q_hotplugged s" "q_realized (exchange s) = q_realized s"
  "q_log (exchange s) = q_log s"
  by (simp_all add: exchange_def)

lemma bottom_half_silent: "\<exists>v. osnet_device_set_realized_bottom_half fails dc value s = (False, v)"
  by (simp add: osnet_device_set_realized_bottom_half_def split: prod.split bool.split)

lemma class_counters:
  assumes "q_osnet_unattached s = q_unattached s" and "class_part (\<lambda>_. f) dc s = (e, un, c)"
  shows "realize_class (\<lambda>_. f) dc q_osnet_unattached q_osnet_unattached_update s = (e, un, exchange c) \<and>
    (\<exists>C. q_log c = q_log s @ C)"
proof -
  define x where "x = (if q_parent s then s\<lparr>q_log := q_log s @ [Check_migratable]\<rparr>
    else s\<lparr>q_parent := True, q_log := q_log s @ [Check_migratable, Add_unattached (q_unattached s)]\<rparr>)"
  define n where "n = q_unattached s + (if q_parent s then 0 else 1)"
  define P where "P = (if dc_ctrl dc then [Pre_plug] else [])"
  define R where "R = (if dc_realize dc then [Realize_cb] else [])"
  have step: "realize_class (\<lambda>_. f) dc cnt upd s =
      (if f Check_migratable then (True, False, log_ev Check_migratable s)
       else if dc_ctrl dc \<and> f Pre_plug then (True, \<not> q_parent s, (w x)\<lparr>q_log := q_log x @ P\<rparr>)
       else (dc_realize dc \<and> f Realize_cb, \<not> q_parent s,
         (w x)\<lparr>q_log := q_log x @ P @ R, q_cb := q_cb s \<or> dc_realize dc \<and> \<not> f Realize_cb\<rparr>))"
    if "cnt = q_unattached \<and> upd = q_unattached_update \<and> w = q_unattached_update (\<lambda>_. n) \<or>
      cnt = q_osnet_unattached \<and> upd = q_osnet_unattached_update \<and> w = q_osnet_unattached_update (\<lambda>_. n)"
    for cnt upd w
    using that assms(1) unfolding x_def n_def P_def R_def realize_class_def call_if_def attempt_def
    by (cases "q_parent s"; cases "f Realize_cb") (auto simp: log_ev_def Let_def)
  have same: "q_osnet_unattached x = q_unattached x" and "\<exists>C. q_log x = q_log s @ C"
    using assms(1) by (simp_all add: x_def)
  then obtain C where C: "q_log x = q_log s @ C" by blast
  have ex: "exchange (log_ev Check_migratable s) = log_ev Check_migratable s"
    "exchange (x\<lparr>q_unattached := n, q_log := l\<rparr>) = x\<lparr>q_osnet_unattached := n, q_log := l\<rparr>"
    "exchange (x\<lparr>q_unattached := n, q_log := l, q_cb := d\<rparr>) = x\<lparr>q_osnet_unattached := n, q_log := l, q_cb := d\<rparr>"
    for l d using same assms(1) by (simp_all add: exchange_def log_ev_def)
  note a = step [of q_unattached q_unattached_update "q_unattached_update (\<lambda>_. n)", simplified]
  note b = step [of q_osnet_unattached q_osnet_unattached_update "q_osnet_unattached_update (\<lambda>_. n)", simplified]
  show ?thesis
    using assms(2) unfolding a b by (auto simp: ex C split: if_splits)
qed

lemma fail_path_exchange:
  assumes "\<not> q_realized c"
  shows "fail_path (\<lambda>_. f) dc q_osnet_unattached_update un (exchange c) =
    exchange (fail_path (\<lambda>_. f) dc q_unattached_update un c)"
  using assms
  by (simp add: fail_path_def object_unparent_def device_unparent_eq exchange_def unparent_log_def)

lemma fail_path_undone:
  assumes "\<not> q_realized c"
  shows "\<exists>U. q_log (fail_path fails dc q_unattached_update un c) = q_log c @ U \<and>
    set U \<subseteq> {Bus_unparent, Bus_remove_child, Device_deleted_event, Opts_del} \<and> (\<not> un \<longrightarrow> U = [])"
  using assms
  by (auto simp: fail_path_def object_unparent_def device_unparent_eq unparent_log_def)

lemma top_half_eq:
  assumes "\<not> (q_hotplugged s \<and> \<not> dc_hotpluggable dc)" and "\<not> q_realized s"
  shows "osnet_device_set_realized_top_half fails dc True s =
    (case realize_class fails dc q_osnet_unattached q_osnet_unattached_update s of
        (True, unattached, s) \<Rightarrow> (True, fail_path fails dc q_osnet_unattached_update unattached s)
      | (False, unattached, s) \<Rightarrow> (False, if q_hotplugged s then device_reset dc s else s))"
  using assms
  by (simp only: osnet_device_set_realized_top_half_def if_True if_False refl simp_thms)

lemma reset_frame:
  "(if h then device_reset dc s else s) =
     frame (q_log s @ reset_log dc h) (q_realized s) (q_unattached s) (q_osnet_unattached s) s"
  by (simp add: device_reset_def reset_log_def log_ev_def frame_def)

text \<open>The bottom half after a top half that did not fail.\<close>

lemma bottom_half_frame:
  assumes "realize_rest (\<lambda>_. f) dc c = (e, x)"
  obtains R where "q_log x = q_log c @ R"
    and "q_realized x = q_realized c" "q_unattached x = q_unattached c"
      "q_osnet_unattached x = q_osnet_unattached c"
    and "osnet_device_set_realized_bottom_half (\<lambda>_. f) dc True
      ((if h then device_reset dc (exchange c) else exchange c)\<lparr>q_realized := True\<rparr>) =
        (False, (frame (q_log c @ reset_log dc h @ R) True (q_osnet_unattached c) (q_unattached c) x)
          \<lparr>q_pending_deleted := e \<and> q_pending_deleted x\<rparr>)"
proof -
  obtain R where R: "q_log x = q_log c @ R"
    "\<And>l r a b. realize_rest (\<lambda>_. f) dc (frame l r a b c) = (e, frame (l @ R) r a b x)"
    using framed_realize_rest [of f dc] assms unfolding framed_def by (metis fst_conv snd_conv)
  have "frame (q_log c) (q_realized c) (q_unattached c) (q_osnet_unattached c) c = c" by (simp add: frame_def)
  with R(2) [of "q_log c" "q_realized c" "q_unattached c" "q_osnet_unattached c"] assms
  have x: "x = frame (q_log c @ R) (q_realized c) (q_unattached c) (q_osnet_unattached c) x" by simp
  have "q_realized x = q_realized c" "q_unattached x = q_unattached c"
    "q_osnet_unattached x = q_osnet_unattached c" by (subst x, simp add: frame_def)+
  moreover have "(if h then device_reset dc (exchange c) else exchange c)\<lparr>q_realized := True\<rparr> =
      frame (q_log c @ reset_log dc h) True (q_osnet_unattached c) (q_unattached c) c"
    by (simp add: reset_frame) (simp add: frame_def exchange_def)
  ultimately show thesis using R
    by (intro that [of R]) (cases e; simp add: osnet_device_set_realized_bottom_half_def frame_def)+
qed

lemma rest_keeps:
  assumes "realize_rest fails dc s = (e, t)"
  shows "q_hotplugged t = q_hotplugged s" "q_parent t = q_parent s"
proof -
  obtain e1 s1 where s1: "call_if (dc_ctrl dc) (attempt fails Plug (\<lambda>s. s\<lparr>q_plugged := True\<rparr>))
      ((log_ev Listener_realize s)\<lparr>q_listeners := True\<rparr>) = (e1, s1)" by fastforce
  obtain e2 s2 where s2:
    "call_if (dc_vmsd dc) (attempt fails Vmstate_register (\<lambda>s. s\<lparr>q_vmstate := True\<rparr>)) s1 = (e2, s2)"
    by fastforce
  then have f2: "q_hotplugged s2 = q_hotplugged s1" "q_parent s2 = q_parent s1"
    by (auto simp: call_if_cases attempt_cases split: if_splits)
  obtain e3 s3 where s3: "realize_buses fails (all_buses s2) s2 = (e3, s3)" by fastforce
  obtain e4 s4 where s4: "unrealize_buses fails (all_buses s3) s3 = (e4, s4)" by fastforce
  note f3 = same_but_busesD [OF realize_buses_other [OF s3, THEN conjunct1]]
  note f4 = same_but_busesD [OF all_unrealized [OF s4, THEN conjunct1]]
  have "t \<in> {post_realize_fail fails dc s1, post_realize_fail fails dc s2,
      post_realize_fail fails dc (vmstate_unregister dc s4), s3}"
    using assms s1 s2 s3 s4 by (cases e1; cases e2; cases e3) (simp_all add: realize_rest_def child_realize_fail_def)
  then show "q_hotplugged t = q_hotplugged s" "q_parent t = q_parent s"
    by (auto simp: post_realize_failD(1-10) vmstate_unregister_simps plug_step(3,4) [OF s1] f2 f3 f4)
qed

lemma nothing_fails_logs:
  "fst (class_part nothing_fails dc s) = False"
  "q_log (snd (snd (class_part nothing_fails dc s))) = q_log s @ class_log dc (q_parent s) (q_unattached s)"
  "q_buses (snd (snd (class_part nothing_fails dc s))) = q_buses s"
  "realize_rest nothing_fails dc c = (e, x) \<Longrightarrow> \<not> e \<and> q_log x = q_log c @ rest_log dc (length (q_buses c))"
  by (cases "q_parent s"; cases "dc_ctrl dc"; cases "dc_realize dc";
      simp add: class_nothing_fails class_log_def log_ev_def)+ (auto simp: rest_nothing_fails)

text \<open>C8: The top half, the handler's assignment and the bottom half against \<open>device_set_realized\<close>, for any
  choice \<open>f\<close> of the calls that fail (each call failing or not whatever was called before it, and each
  side counting its unattached devices in a counter of its own, \<open>exchange\<close>). The top half fails
  exactly when the part of \<open>device_set_realized\<close> up to the class's \<open>realize\<close> fails, and then leaves the
  same device after the same calls. Otherwise both make the same calls \<open>C\<close> and then \<open>R\<close> in the same
  order, except that the halves reset the device between them and not at the end; when none fails
  they leave the same device. When one of \<open>R\<close> fails, \<open>device_set_realized\<close> reports it and undoes the
  device's place in the tree (calls \<open>U\<close>), while the halves report nothing and leave the device it
  leaves, but marked realized, and in the tree if it was put there.\<close>

theorem halves_match_realize:
  assumes "\<not> q_realized s" and "q_hotplugged s \<longrightarrow> dc_hotpluggable dc"
    and "q_osnet_unattached s = q_unattached s"
  shows "\<exists>e t e1 u v C R U. device_set_realized (\<lambda>_. f) dc True s = (e, t) \<and>
    osnet_device_set_realized_top_half (\<lambda>_. f) dc True s = (e1, u) \<and>
    osnet_device_set_realized_bottom_half (\<lambda>_. f) dc True (u\<lparr>q_realized := True\<rparr>) = (False, v) \<and>
    e1 = fst (class_part (\<lambda>_. f) dc s) \<and> (e1 \<longrightarrow> e \<and> u = exchange t) \<and>
    (\<not> e1 \<longrightarrow>
      q_log t = q_log s @ C @ R @ (if e then U else reset_log dc (q_hotplugged s)) \<and>
      q_log v = q_log s @ C @ reset_log dc (q_hotplugged s) @ R \<and>
      set U \<subseteq> {Bus_unparent, Bus_remove_child, Device_deleted_event, Opts_del} \<and> (q_parent s \<longrightarrow> U = []) \<and>
      (\<not> e \<longrightarrow> v = (exchange t)\<lparr>q_log := q_log v\<rparr>) \<and>
      (e \<and> q_parent s \<longrightarrow> v = (exchange t)\<lparr>q_log := q_log v, q_realized := True\<rparr>) \<and>
      (e \<and> \<not> q_parent s \<longrightarrow> \<not> q_parent t \<and> q_parent v \<and> q_realized v \<and> q_cb v = q_cb t \<and>
        q_vmstate v = q_vmstate t \<and> q_listeners v = q_listeners t \<and> q_plugged v = q_plugged t)) \<and>
    (f = (\<lambda>_. False) \<longrightarrow> \<not> e \<and> \<not> e1 \<and> C = class_log dc (q_parent s) (q_unattached s) \<and>
      R = rest_log dc (length (q_buses s)))"
proof -
  have guard: "\<not> (q_hotplugged s \<and> \<not> dc_hotpluggable dc)" using assms(2) by simp
  have cnt: "unattached_counter q_unattached q_unattached_update" by (simp add: unattached_counter_def)
  obtain e1 un c where c: "class_part (\<lambda>_. f) dc s = (e1, un, c)" by (metis prod_cases3)
  note left = realize_class_left [OF c cnt]
  from class_counters [OF assms(3) c] obtain C where d: "q_log c = q_log s @ C"
    "realize_class (\<lambda>_. f) dc q_osnet_unattached q_osnet_unattached_update s = (e1, un, exchange c)" by blast
  have fresh: "\<not> q_realized c" using left assms(1) by simp
  have top: "osnet_device_set_realized_top_half (\<lambda>_. f) dc True s =
      (e1, if e1 then exchange (fail_path (\<lambda>_. f) dc q_unattached_update un c)
           else if q_hotplugged s then device_reset dc (exchange c) else exchange c)"
    using left by (cases e1) (simp_all add: top_half_eq [OF guard assms(1)] d(2) fail_path_exchange [OF fresh])
  note one = set_realized_true_eq [OF guard assms(1), of "\<lambda>_. f", unfolded c]
  obtain e x where x: "realize_rest (\<lambda>_. f) dc c = (e, x)" by fastforce
  obtain R where R: "q_log x = q_log c @ R" and same: "q_realized x = q_realized c"
      "q_unattached x = q_unattached c" "q_osnet_unattached x = q_osnet_unattached c" and bottom: "osnet_device_set_realized_bottom_half (\<lambda>_. f) dc True
      ((if q_hotplugged s then device_reset dc (exchange c) else exchange c)\<lparr>q_realized := True\<rparr>) =
        (False, (frame (q_log c @ reset_log dc (q_hotplugged s) @ R) True (q_osnet_unattached c)
          (q_unattached c) x)\<lparr>q_pending_deleted := e \<and> q_pending_deleted x\<rparr>)"
    using bottom_half_frame [OF x] by blast
  have none: "\<not> e1 \<and> \<not> e \<and> C = class_log dc (q_parent s) (q_unattached s) \<and>
      R = rest_log dc (length (q_buses s))" if "f = (\<lambda>_. False)"
    using nothing_fails_logs [of dc s] nothing_fails_logs(4) [of dc c e x] c x d(1) R that by simp
  have un: "un = (\<not> q_parent s)" if "\<not> e1" using that left by (cases un) simp_all
  consider (early) "e1" | (rest) "\<not> e1" "e" | (ok) "\<not> e1" "\<not> e" by blast
  then show ?thesis
  proof cases
    case early
    let ?t = "fail_path (\<lambda>_. f) dc q_unattached_update un c"
    obtain v where v: "osnet_device_set_realized_bottom_half (\<lambda>_. f) dc True
        ((exchange ?t)\<lparr>q_realized := True\<rparr>) = (False, v)" using bottom_half_silent by blast
    show ?thesis
      using early one top none v c
      by (intro exI [of _ True] exI [of _ ?t] exI [of _ "exchange ?t"] exI [of _ v]) auto
  next
    case rest
    let ?t = "fail_path (\<lambda>_. f) dc q_unattached_update un x"
    have notreal: "\<not> q_realized x" using same fresh by simp
    obtain U where U: "q_log ?t = q_log x @ U"
      "set U \<subseteq> {Bus_unparent, Bus_remove_child, Device_deleted_event, Opts_del}" "\<not> un \<Longrightarrow> U = []"
      using fail_path_undone [OF notreal] by blast
    let ?u = "if q_hotplugged s then device_reset dc (exchange c) else exchange c"
    let ?v = "frame (q_log c @ reset_log dc (q_hotplugged s) @ R) True (q_osnet_unattached c) (q_unattached c) x"
    have d1: "device_set_realized (\<lambda>_. f) dc True s = (True, ?t)" using one x rest by simp
    have b1: "osnet_device_set_realized_bottom_half (\<lambda>_. f) dc True (?u\<lparr>q_realized := True\<rparr>) = (False, ?v)"
      using bottom rest by (simp add: frame_def)
    have kept: "?v = (exchange ?t)\<lparr>q_log := q_log ?v, q_realized := True\<rparr>" if "q_parent s"
      using that un rest same by (simp add: fail_path_def frame_def exchange_def)
    note undone = fail_path_left [OF notreal cnt, where fails = "\<lambda>_. f" and dc = dc and un = un]
    have "q_parent x" using rest_keeps(2) [OF x] left rest by auto
    then have lost: "\<not> q_parent ?t \<and> q_parent ?v \<and> q_realized ?v \<and> q_cb ?v = q_cb ?t \<and>
        q_vmstate ?v = q_vmstate ?t \<and> q_listeners ?v = q_listeners ?t \<and> q_plugged ?v = q_plugged ?t"
      if "\<not> q_parent s" using that un rest undone by (simp add: frame_def)
    show ?thesis
      by (rule exI [of _ True], rule exI [of _ ?t], rule exI [of _ False], rule exI [of _ ?u],
          rule exI [of _ ?v], rule exI [of _ C], rule exI [of _ R], rule exI [of _ U], intro conjI)
        (use d1 b1 kept lost top rest none U un c d(1) R in auto)
  next
    case ok
    let ?t = "((if q_hotplugged x then device_reset dc x else x)\<lparr>q_pending_deleted := False\<rparr>)\<lparr>q_realized := True\<rparr>"
    let ?u = "if q_hotplugged s then device_reset dc (exchange c) else exchange c"
    let ?v = "(frame (q_log c @ reset_log dc (q_hotplugged s) @ R) True (q_osnet_unattached c) (q_unattached c) x)
        \<lparr>q_pending_deleted := False\<rparr>"
    have d1: "device_set_realized (\<lambda>_. f) dc True s = (False, ?t)" using one x ok by simp
    have b1: "osnet_device_set_realized_bottom_half (\<lambda>_. f) dc True (?u\<lparr>q_realized := True\<rparr>) = (False, ?v)"
      using bottom ok by simp
    have hot: "q_hotplugged x = q_hotplugged s" using rest_keeps(1) [OF x] left by simp
    have kept: "?v = (exchange ?t)\<lparr>q_log := q_log ?v\<rparr>"
      using same by (simp add: reset_frame) (simp add: frame_def exchange_def)
    have log: "q_log ?t = q_log s @ C @ R @ reset_log dc (q_hotplugged s)"
      using R d(1) by (simp add: reset_frame hot)
    show ?thesis
      by (rule exI [of _ False], rule exI [of _ ?t], rule exI [of _ False], rule exI [of _ ?u],
          rule exI [of _ ?v], rule exI [of _ C], rule exI [of _ R], rule exI [of _ "[]"], intro conjI)
        (use d1 b1 kept log top ok none c d(1) R in auto)
  qed
qed

theorem halves_match_realize_witness:
  "\<exists>t u v. device_set_realized (\<lambda>_ e. e = Bus_realized 1 True) nic_class True nic = (True, t) \<and>
     osnet_device_set_realized_top_half (\<lambda>_ e. e = Bus_realized 1 True) nic_class True nic = (False, u) \<and>
     osnet_device_set_realized_bottom_half (\<lambda>_ e. e = Bus_realized 1 True) nic_class True
       (u\<lparr>q_realized := True\<rparr>) = (False, v) \<and>
     v = (exchange t)\<lparr>q_log := q_log v, q_realized := True\<rparr>"
proof -
  have "\<not> q_realized nic" and "q_hotplugged nic \<longrightarrow> dc_hotpluggable nic_class"
    and "q_osnet_unattached nic = q_unattached nic" by (simp_all add: nic_def nic_class_def)
  note halves = halves_match_realize [OF this, of "\<lambda>e. e = Bus_realized 1 True"]
  have "fst (device_set_realized (\<lambda>_ e. e = Bus_realized 1 True) nic_class True nic) \<and>
      \<not> fst (class_part (\<lambda>_ e. e = Bus_realized 1 True) nic_class nic) \<and> q_parent nic" by code_simp
  with halves show ?thesis by fastforce
qed

subsection \<open>Unrealizing\<close>

text \<open>A device that was realized and is then unrealized without an error has nothing left set up but the
  hotplug handler's \<open>plug\<close>: its class callback, listeners, migration state and child buses are down, it
  is not marked realized, and the event announcing its deletion is due.\<close>

theorem unrealize_cleans:
  assumes "device_set_realized fails dc True s = (False, t)" and "clean s" and "dc_unrealize dc"
    and "device_set_realized fails' dc False t = (False, u)"
  shows "clean (u\<lparr>q_plugged := False\<rparr>) \<and> q_plugged u = dc_ctrl dc \<and> q_pending_deleted u \<and> q_parent u"
proof -
  have t: "q_realized t" "set_up dc t" "q_parent t"
    using realize_result [OF assms(1,2)] by simp_all
  then have run: "unrealize_branch fails' dc t = (False, u)"
    using assms(4) by (simp add: device_set_realized_def set_realized_false_def split: if_splits)
  obtain e1 s1 where s1: "unrealize_buses fails' (all_buses t) t = (e1, s1)" by fastforce
  note b = all_unrealized [OF s1]
  note same = same_but_busesD [OF b [THEN conjunct1]]
  obtain e2 s2 where s2: "attempt fails' Unrealize_cb (\<lambda>s. s\<lparr>q_cb := False\<rparr>) (vmstate_unregister dc s1) = (e2, s2)"
    by fastforce
  from run s1 s2 assms(3) have "\<not> e2" "\<not> e1"
    and u: "u = ((log_ev Listener_unrealize (s2\<lparr>q_pending_deleted := True\<rparr>))\<lparr>q_listeners := False\<rparr>)
      \<lparr>q_realized := False\<rparr>"
    by (auto simp: unrealize_branch_def call_if_def Let_def split: if_splits)
  with s2 have s2f: "s2 = (log_ev Unrealize_cb (vmstate_unregister dc s1))\<lparr>q_cb := False\<rparr>"
    by (auto simp: attempt_cases split: if_splits)
  show ?thesis
    using t b same \<open>\<not> e1\<close> unfolding u s2f by (auto simp: clean_def set_up_def vmstate_unregister_def)
qed

theorem unrealize_cleans_witness:
  "\<exists>t u. device_set_realized nothing_fails nic_class True nic = (False, t) \<and>
     device_set_realized nothing_fails nic_class False t = (False, u) \<and> clean (u\<lparr>q_plugged := False\<rparr>)"
proof -
  obtain e t where t: "device_set_realized nothing_fails nic_class True nic = (e, t)" by fastforce
  obtain e' u where u: "device_set_realized nothing_fails nic_class False t = (e', u)" by fastforce
  have "\<not> fst (device_set_realized nothing_fails nic_class True nic)"
    and "\<not> fst (device_set_realized nothing_fails nic_class False
       (snd (device_set_realized nothing_fails nic_class True nic)))" by code_simp+
  with t u have ok: "device_set_realized nothing_fails nic_class True nic = (False, t)"
    "device_set_realized nothing_fails nic_class False t = (False, u)" by auto
  have "clean nic" and "dc_unrealize nic_class"
    by (simp_all add: clean_def nic_def nic_class_def)
  from unrealize_cleans [OF ok(1) this ok(2)] ok show ?thesis by blast
qed

end
