(* ===== verification/Osnet_Handlers.thy ===== *)
theory Osnet_Handlers
  imports Qdev_Realize
begin

text \<open>
  The monitor commands of the split hotplug: \<open>find_device_state\<close> and the \<open>qmp_osnet_*\<close> handlers of
  \<open>qdev-monitor.c\<close>, and the \<open>hmp_osnet_*\<close> commands of \<open>hmp.c\<close>. The object tree is reached through the
  path lookups \<open>resolve\<close> and \<open>resolve_device\<close>, which give the number of an object; devices are kept by
  number. An error pointer is a flag: storing an error through one that already holds an error is
  refused by \<open>error_set\<close>, which aborts the program.
\<close>

datatype crash = Null_device | Error_abort

record machine =
  resolve :: "string \<Rightarrow> nat option"
  resolve_device :: "string \<Rightarrow> nat option"
  is_device :: "nat \<Rightarrow> bool"
  peripheral :: string
  dev_of :: "nat \<Rightarrow> qdev"
  class_of :: "nat \<Rightarrow> dev_class"

text \<open>
  \<open>find_device_state\<close>: the device found, if any, and the error flag of the pointer it was given.
\<close>

definition find_device_state :: "machine \<Rightarrow> string \<Rightarrow> bool \<Rightarrow> crash + (nat option \<times> bool)" where
  "find_device_state m ident err =
     (let obj = (if ident \<noteq> [] \<and> hd ident = CHR ''/'' then resolve m ident
                 else resolve_device m (peripheral m @ ''/'' @ ident))
      in case obj of
           None \<Rightarrow> if err then Inl Error_abort else Inr (None, True)
         | Some d \<Rightarrow> if \<not> is_device m d then (if err then Inl Error_abort else Inr (None, True))
                    else Inr (Some d, err))"

definition set_dev :: "nat \<Rightarrow> qdev \<Rightarrow> machine \<Rightarrow> machine" where
  "set_dev d q m = m\<lparr>dev_of := (dev_of m)(d := q)\<rparr>"

text \<open>
  \<open>qmp_osnet_vfio_nic_realize_top_half\<close> and \<open>_bottom_half\<close>. Their \<open>errp\<close> is never written, so the flag
  returned for it is always \<open>False\<close>; the local error is dropped. A null device is dereferenced.
\<close>

definition qmp_osnet_vfio_nic_realize_top_half ::
  "outcome \<Rightarrow> string \<Rightarrow> machine \<Rightarrow> crash + (bool \<times> machine)" where
  "qmp_osnet_vfio_nic_realize_top_half fails ident m =
     bindR (find_device_state m ident False) (\<lambda>(dev, err).
       case dev of
         None \<Rightarrow> Inl Null_device
       | Some d \<Rightarrow>
           let (local_err, q) = osnet_device_set_realized_top_half fails (class_of m d) True (dev_of m d)
           in Inr (False, set_dev d (q\<lparr>q_realized := True\<rparr>) m))"

definition qmp_osnet_vfio_nic_realize_bottom_half ::
  "outcome \<Rightarrow> string \<Rightarrow> machine \<Rightarrow> crash + (bool \<times> machine)" where
  "qmp_osnet_vfio_nic_realize_bottom_half fails ident m =
     bindR (find_device_state m ident False) (\<lambda>(dev, err).
       case dev of
         None \<Rightarrow> Inl Null_device
       | Some d \<Rightarrow>
           let (local_err, q) = osnet_device_set_realized_bottom_half fails (class_of m d) True (dev_of m d)
           in Inr (False, set_dev d q m))"

text \<open>
  The monitor commands; the flag returned is whether an error was reported. \<open>add\<close> stands for
  \<open>qmp_osnet_device_add\<close> on the same arguments: the error flag it leaves and the machine.
\<close>

definition hmp_osnet_vfio_nic_create ::
  "(machine \<Rightarrow> bool \<times> machine) \<Rightarrow> string \<Rightarrow> machine \<Rightarrow> crash + (bool \<times> machine)" where
  "hmp_osnet_vfio_nic_create add ident m =
     (let (err, m) = add m
      in bindR (find_device_state m ident err) (\<lambda>(dev, err). Inr (dev = None \<and> err, m)))"

definition hmp_osnet_vfio_nic_realize_top_half ::
  "outcome \<Rightarrow> string \<Rightarrow> machine \<Rightarrow> crash + (bool \<times> machine)" where
  "hmp_osnet_vfio_nic_realize_top_half fails ident m = qmp_osnet_vfio_nic_realize_top_half fails ident m"

definition hmp_osnet_vfio_nic_realize_bottom_half ::
  "outcome \<Rightarrow> string \<Rightarrow> machine \<Rightarrow> crash + (bool \<times> machine)" where
  "hmp_osnet_vfio_nic_realize_bottom_half fails ident m = qmp_osnet_vfio_nic_realize_bottom_half fails ident m"

definition hmp_osnet_vfio_nic_reset :: "string \<Rightarrow> machine \<Rightarrow> crash + (bool \<times> machine)" where
  "hmp_osnet_vfio_nic_reset ident m =
     bindR (find_device_state m ident False) (\<lambda>(dev, err).
       case dev of
         None \<Rightarrow> Inl Null_device
       | Some d \<Rightarrow> Inr (False,
           if q_hotplugged (dev_of m d) then set_dev d (device_reset (class_of m d) (dev_of m d)) m else m))"

section \<open>Lemmas\<close>

definition finds :: "machine \<Rightarrow> string \<Rightarrow> nat \<Rightarrow> bool" where
  "finds m ident d \<longleftrightarrow> find_device_state m ident False = Inr (Some d, False)"

lemma finds_set_dev [simp]: "finds (set_dev e q m) ident d = finds m ident d"
  by (simp add: finds_def find_device_state_def set_dev_def split: option.splits)

lemma set_dev_simps [simp]:
  "dev_of (set_dev d q m) d = q" "class_of (set_dev d q m) = class_of m"
  by (simp_all add: set_dev_def)

lemma top_half_run:
  assumes "finds m ident d"
  shows "hmp_osnet_vfio_nic_realize_top_half fails ident m = Inr (False, set_dev d
    ((snd (osnet_device_set_realized_top_half fails (class_of m d) True (dev_of m d)))\<lparr>q_realized := True\<rparr>) m)"
  using assms
  by (simp add: finds_def hmp_osnet_vfio_nic_realize_top_half_def qmp_osnet_vfio_nic_realize_top_half_def
      split: prod.splits)

lemma bottom_half_run:
  assumes "finds m ident d"
  shows "hmp_osnet_vfio_nic_realize_bottom_half fails ident m = Inr (False, set_dev d
    (snd (osnet_device_set_realized_bottom_half fails (class_of m d) True (dev_of m d))) m)"
  using assms
  by (simp add: finds_def hmp_osnet_vfio_nic_realize_bottom_half_def
      qmp_osnet_vfio_nic_realize_bottom_half_def split: prod.splits)

text \<open>A failed top half takes down whatever it set up.\<close>

lemma top_half_failed:
  assumes "osnet_device_set_realized_top_half fails dc True s = (True, t)" and "clean s"
  shows "clean t"
proof (cases "q_hotplugged s \<and> \<not> dc_hotpluggable dc")
  case True
  with assms show ?thesis by (simp add: osnet_device_set_realized_top_half_def)
next
  case False
  have cnt: "unattached_counter q_osnet_unattached q_osnet_unattached_update"
    by (simp add: unattached_counter_def)
  obtain e1 un s1 where s1: "realize_class fails dc q_osnet_unattached q_osnet_unattached_update s = (e1, un, s1)"
    by (metis prod_cases3)
  note c1 = realize_class_left [OF s1 cnt]
  have start: "osnet_device_set_realized_top_half fails dc True s =
      (case realize_class fails dc q_osnet_unattached q_osnet_unattached_update s of
          (True, unattached, s) \<Rightarrow> (True, fail_path fails dc q_osnet_unattached_update unattached s)
        | (False, unattached, s) \<Rightarrow> (False, if q_hotplugged s then device_reset dc s else s))"
    using False assms(2)
    by (simp only: osnet_device_set_realized_top_half_def clean_def if_True if_False refl simp_thms)
  with assms(1) s1 have e: "e1" and t: "t = fail_path fails dc q_osnet_unattached_update un s1"
    by (cases e1; simp)+
  have "clean s1" using c1 assms(2) e by (simp add: clean_def)
  from fail_path_clean [OF this cnt] t show ?thesis by simp
qed

section \<open>Properties\<close>

text \<open>C10: A failed top half is reported nowhere and leaves a device that claims to be realized: when any of
  its calls fails, the monitor command reports no error and the device is marked realized although its
  class's \<open>realize\<close> is not in effect and nothing is set up. The bottom half then plugs that device all
  the same, and when its own calls succeed registers its migration state and realizes its buses.\<close>

theorem top_half_failure_is_lost:
  assumes "finds m ident d" and "clean (dev_of m d)"
    and "fst (osnet_device_set_realized_top_half fails (class_of m d) True (dev_of m d))"
  shows "\<exists>m1 m2. hmp_osnet_vfio_nic_realize_top_half fails ident m = Inr (False, m1) \<and>
    q_realized (dev_of m1 d) \<and> clean ((dev_of m1 d)\<lparr>q_realized := False\<rparr>) \<and>
    hmp_osnet_vfio_nic_realize_bottom_half nothing_fails ident m1 = Inr (False, m2) \<and>
    q_realized (dev_of m2 d) \<and> \<not> q_cb (dev_of m2 d) \<and>
    (q_vmstate (dev_of m2 d) \<longleftrightarrow> dc_vmsd (class_of m d)) \<and>
    (dc_ctrl (class_of m d) \<longrightarrow> Plug \<in> set (q_log (dev_of m2 d)))"
proof -
  obtain t where t: "osnet_device_set_realized_top_half fails (class_of m d) True (dev_of m d) = (True, t)"
    using assms(3) by (cases "osnet_device_set_realized_top_half fails (class_of m d) True (dev_of m d)") auto
  have c: "clean t" by (rule top_half_failed [OF t assms(2)])
  let ?m1 = "set_dev d (t\<lparr>q_realized := True\<rparr>) m"
  have one: "hmp_osnet_vfio_nic_realize_top_half fails ident m = Inr (False, ?m1)"
    using top_half_run [OF assms(1), of fails] t by simp
  have "finds ?m1 ident d" using assms(1) by simp
  note two = bottom_half_run [OF this, of nothing_fails]
  show ?thesis
    using one two c
    by (simp add: osnet_device_set_realized_bottom_half_def rest_nothing_fails clean_def rest_log_def)
qed

text \<open>A machine with the NIC of the previous section under the name \<open>net0\<close>.\<close>

definition host :: machine where
  "host = \<lparr>resolve = (\<lambda>_. None),
     resolve_device = (\<lambda>p. if p = ''/machine/peripheral/net0'' then Some 0 else None),
     is_device = (\<lambda>_. True), peripheral = ''/machine/peripheral'', dev_of = (\<lambda>_. nic),
     class_of = (\<lambda>_. nic_class)\<rparr>"

definition realize_fails :: outcome where
  "realize_fails h e = (e = Realize_cb)"

lemma host_finds: "finds host ''net0'' 0"
  by (simp add: finds_def find_device_state_def host_def)

lemma host_clean: "clean (dev_of host 0)"
  by (simp add: host_def nic_def clean_def)

theorem top_half_failure_is_lost_witness:
  "\<exists>m1. hmp_osnet_vfio_nic_realize_top_half realize_fails ''net0'' host = Inr (False, m1) \<and>
     q_realized (dev_of m1 0) \<and> \<not> q_cb (dev_of m1 0)"
proof -
  have "fst (osnet_device_set_realized_top_half realize_fails (class_of host 0) True (dev_of host 0))"
    by code_simp
  from top_half_failure_is_lost [OF host_finds host_clean this] show ?thesis
    by (auto simp: clean_def)
qed

text \<open>A failed bottom half is reported nowhere either, and leaves a device that is marked realized and whose
  listeners were told of it, without migration state; its class stays realized only when it has no
  \<open>unrealize\<close> or that failed.\<close>

theorem bottom_half_failure_is_lost:
  assumes "finds m ident d" and "q_realized (dev_of m d)" and "\<not> q_vmstate (dev_of m d)"
    and "True \<notin> set (q_buses (dev_of m d))"
    and "fst (realize_rest fails (class_of m d) (dev_of m d))"
  shows "\<exists>m'. hmp_osnet_vfio_nic_realize_bottom_half fails ident m = Inr (False, m') \<and>
    q_realized (dev_of m' d) \<and> q_listeners (dev_of m' d) \<and> \<not> q_vmstate (dev_of m' d) \<and>
    (q_cb (dev_of m' d) \<longrightarrow> dc_unrealize (class_of m d) \<longrightarrow> (\<exists>h. fails h Unrealize_cb))"
proof -
  obtain t where t: "realize_rest fails (class_of m d) (dev_of m d) = (True, t)"
    using assms(5) by (cases "realize_rest fails (class_of m d) (dev_of m d)") auto
  note l = realize_rest_left [OF t assms(3,4)]
  have "osnet_device_set_realized_bottom_half fails (class_of m d) True (dev_of m d) = (False, t)"
    using t by (simp add: osnet_device_set_realized_bottom_half_def)
  with bottom_half_run [OF assms(1), of fails] l assms(2) show ?thesis by simp
qed

definition realized_host :: machine where
  "realized_host = set_dev 0 (nic\<lparr>q_realized := True, q_cb := True\<rparr>) host"

theorem bottom_half_failure_is_lost_witness:
  "\<exists>m'. hmp_osnet_vfio_nic_realize_bottom_half second_bus_fails ''net0'' realized_host = Inr (False, m') \<and>
     q_realized (dev_of m' 0) \<and> \<not> q_cb (dev_of m' 0)"
proof -
  have "finds realized_host ''net0'' 0" by (simp add: realized_host_def host_finds)
  moreover have "q_realized (dev_of realized_host 0)" "\<not> q_vmstate (dev_of realized_host 0)"
    "True \<notin> set (q_buses (dev_of realized_host 0))" "dc_unrealize (class_of realized_host 0)"
    by (simp_all add: realized_host_def host_def nic_def nic_class_def)
  moreover have "\<not> second_bus_fails h Unrealize_cb" for h by (simp add: second_bus_fails_def)
  moreover have "fst (realize_rest second_bus_fails (class_of realized_host 0) (dev_of realized_host 0))"
    by code_simp
  ultimately show ?thesis
    using bottom_half_failure_is_lost [of realized_host "''net0''" 0 second_bus_fails] by blast
qed

text \<open>An unknown device crashes the monitor: both halves and the reset command dereference the null
  device that \<open>find_device_state\<close> reports, and \<open>create\<close> aborts when the addition failed before the
  lookup fails too, because the second error is stored over the first. When the addition failed but a
  device of that name exists already, \<open>create\<close> reports no error at all.\<close>

theorem unknown_device_crashes:
  "(find_device_state m ident False = Inr (None, True) \<longrightarrow>
     hmp_osnet_vfio_nic_realize_top_half fails ident m = Inl Null_device \<and>
     hmp_osnet_vfio_nic_realize_bottom_half fails ident m = Inl Null_device \<and>
     hmp_osnet_vfio_nic_reset ident m = Inl Null_device \<and>
     hmp_osnet_vfio_nic_create (Pair True) ident m = Inl Error_abort) \<and>
   (finds m ident d \<longrightarrow> hmp_osnet_vfio_nic_create (Pair True) ident m = Inr (False, m))"
  by (auto simp: hmp_osnet_vfio_nic_realize_top_half_def hmp_osnet_vfio_nic_realize_bottom_half_def
      qmp_osnet_vfio_nic_realize_top_half_def qmp_osnet_vfio_nic_realize_bottom_half_def
      hmp_osnet_vfio_nic_reset_def hmp_osnet_vfio_nic_create_def finds_def find_device_state_def Let_def
      split: option.splits if_splits)

theorem unknown_device_crashes_witness:
  "hmp_osnet_vfio_nic_reset ''net1'' host = Inl Null_device \<and>
   hmp_osnet_vfio_nic_create (Pair True) ''net1'' host = Inl Error_abort"
proof -
  have "find_device_state host ''net1'' False = Inr (None, True)"
    by (simp add: find_device_state_def host_def)
  with unknown_device_crashes [of host "''net1''"] show ?thesis by blast
qed

end
