(* ===== verification/Qdev_Find.thy ===== *)
theory Qdev_Find
  imports Prelude
begin

text \<open>
  Finding devices, buses and device classes by name: the searches of \<open>hw/core/qdev.c\<close> and
  \<open>qdev-monitor.c\<close> over the tree of buses and devices, the alias table, and the bus path of
  \<open>device_add bus=\<dots>\<close>. A bus has an address of its own, since names need not be unique. The subtype
  relation of the object model is the parameter \<open>is_a\<close>.
\<close>

datatype dev = Dev (dev_id: "string option") (dev_type: string) (child_buses: "bus list")
  and bus = Bus (bus_addr: nat) (bus_name: string) (bus_type: string) (bus_max_index: nat)
      (bus_max_dev: nat) (bus_hotpluggable: bool) (bus_kids: "dev list")

section \<open>Aliases\<close>

datatype arch_mask = Any_arch | S390X | Not_S390X

text \<open>\<open>arch_mask && !(arch_mask & arch_type)\<close> for the one machine type the program is built for.\<close>

definition arch_skips :: "bool \<Rightarrow> arch_mask \<Rightarrow> bool" where
  "arch_skips s390x m = (case m of Any_arch \<Rightarrow> False | S390X \<Rightarrow> \<not> s390x | Not_S390X \<Rightarrow> s390x)"

text \<open>The rows: type name, alias, mask.\<close>

definition qdev_alias_table :: "(string \<times> string \<times> arch_mask) list" where
  "qdev_alias_table =
     [(''e1000'', ''e1000-82540em'', Any_arch),
      (''ich9-ahci'', ''ahci'', Any_arch),
      (''kvm-pci-assign'', ''pci-assign'', Any_arch),
      (''lsi53c895a'', ''lsi'', Any_arch),
      (''virtio-9p-ccw'', ''virtio-9p'', S390X),
      (''virtio-9p-pci'', ''virtio-9p'', Not_S390X),
      (''virtio-balloon-ccw'', ''virtio-balloon'', S390X),
      (''virtio-balloon-pci'', ''virtio-balloon'', Not_S390X),
      (''virtio-blk-ccw'', ''virtio-blk'', S390X),
      (''virtio-blk-pci'', ''virtio-blk'', Not_S390X),
      (''virtio-gpu-ccw'', ''virtio-gpu'', S390X),
      (''virtio-gpu-pci'', ''virtio-gpu'', Not_S390X),
      (''virtio-input-host-ccw'', ''virtio-input-host'', S390X),
      (''virtio-input-host-pci'', ''virtio-input-host'', Not_S390X),
      (''virtio-keyboard-ccw'', ''virtio-keyboard'', S390X),
      (''virtio-keyboard-pci'', ''virtio-keyboard'', Not_S390X),
      (''virtio-mouse-ccw'', ''virtio-mouse'', S390X),
      (''virtio-mouse-pci'', ''virtio-mouse'', Not_S390X),
      (''virtio-net-ccw'', ''virtio-net'', S390X),
      (''virtio-net-pci'', ''virtio-net'', Not_S390X),
      (''virtio-rng-ccw'', ''virtio-rng'', S390X),
      (''virtio-rng-pci'', ''virtio-rng'', Not_S390X),
      (''virtio-scsi-ccw'', ''virtio-scsi'', S390X),
      (''virtio-scsi-pci'', ''virtio-scsi'', Not_S390X),
      (''virtio-serial-ccw'', ''virtio-serial'', S390X),
      (''virtio-serial-pci'', ''virtio-serial'', Not_S390X),
      (''virtio-tablet-ccw'', ''virtio-tablet'', S390X),
      (''virtio-tablet-pci'', ''virtio-tablet'', Not_S390X)]"

definition qdev_class_get_alias :: "bool \<Rightarrow> string \<Rightarrow> string option" where
  "qdev_class_get_alias s390x ty =
     map_option (\<lambda>(_, a, _). a)
       (find (\<lambda>(t, _, m). \<not> arch_skips s390x m \<and> t = ty) qdev_alias_table)"

definition qdev_class_has_alias :: "bool \<Rightarrow> string \<Rightarrow> bool" where
  "qdev_class_has_alias s390x ty \<longleftrightarrow> qdev_class_get_alias s390x ty \<noteq> None"

definition find_typename_by_alias :: "bool \<Rightarrow> string \<Rightarrow> string option" where
  "find_typename_by_alias s390x al =
     map_option (\<lambda>(t, _, _). t)
       (find (\<lambda>(_, a, m). \<not> arch_skips s390x m \<and> a = al) qdev_alias_table)"

section \<open>Searching the tree\<close>

definition qbus_is_full :: "bus \<Rightarrow> bool" where
  "qbus_is_full b \<longleftrightarrow> bus_max_dev b \<noteq> 0 \<and> bus_max_dev b \<le> bus_max_index b"

text \<open>
  \<open>qbus_find_recursive\<close>, with its two nested loops; \<open>match\<close> is the comparison with the name or the
  subtype test. A loop gives its \<open>pick\<close> and whether it returned from the function.
\<close>

fun qbus_find_recursive :: "(bus \<Rightarrow> bool) \<Rightarrow> bus \<Rightarrow> bus option"
  and find_kids :: "(bus \<Rightarrow> bool) \<Rightarrow> dev list \<Rightarrow> bus option \<Rightarrow> bus option \<times> bool"
  and find_buses :: "(bus \<Rightarrow> bool) \<Rightarrow> bus list \<Rightarrow> bus option \<Rightarrow> bus option \<times> bool" where
  "qbus_find_recursive match (Bus a n t i m h kids) =
     (let b = Bus a n t i m h kids
      in if match b \<and> \<not> qbus_is_full b then Some b
         else fst (find_kids match kids (if match b then Some b else None)))"
| "find_kids match [] pick = (pick, False)"
| "find_kids match (Dev i t buses # kids) pick =
     (case find_buses match buses pick of
        (pick, True) \<Rightarrow> (pick, True)
      | (pick, False) \<Rightarrow> find_kids match kids pick)"
| "find_buses match [] pick = (pick, False)"
| "find_buses match (b # buses) pick =
     (case qbus_find_recursive match b of
        Some r \<Rightarrow> if \<not> qbus_is_full r then (Some r, True)
                  else find_buses match buses (if pick = None then Some r else pick)
      | None \<Rightarrow> find_buses match buses pick)"

fun qdev_find_recursive :: "string \<Rightarrow> bus \<Rightarrow> dev option"
  and find_dev_kids :: "string \<Rightarrow> dev list \<Rightarrow> dev option"
  and find_dev_buses :: "string \<Rightarrow> bus list \<Rightarrow> dev option" where
  "qdev_find_recursive ident (Bus a n t i m h kids) = find_dev_kids ident kids"
| "find_dev_kids ident [] = None"
| "find_dev_kids ident (Dev i t buses # kids) =
     (if i = Some ident then Some (Dev i t buses)
      else case find_dev_buses ident buses of
             Some r \<Rightarrow> Some r
           | None \<Rightarrow> find_dev_kids ident kids)"
| "find_dev_buses ident [] = None"
| "find_dev_buses ident (b # buses) =
     (case qdev_find_recursive ident b of Some r \<Rightarrow> Some r | None \<Rightarrow> find_dev_buses ident buses)"

definition qbus_find_bus :: "dev \<Rightarrow> string \<Rightarrow> bus option" where
  "qbus_find_bus d elem = find (\<lambda>b. bus_name b = elem) (child_buses d)"

text \<open>By id, then by driver name, then by driver alias.\<close>

definition qbus_find_dev :: "bool \<Rightarrow> bus \<Rightarrow> string \<Rightarrow> dev option" where
  "qbus_find_dev s390x b elem =
     (case find (\<lambda>d. dev_id d = Some elem) (bus_kids b) of
        Some d \<Rightarrow> Some d
      | None \<Rightarrow>
          (case find (\<lambda>d. dev_type d = elem) (bus_kids b) of
             Some d \<Rightarrow> Some d
           | None \<Rightarrow> find (\<lambda>d. qdev_class_has_alias s390x (dev_type d) \<and>
                              qdev_class_get_alias s390x (dev_type d) = Some elem) (bus_kids b)))"

section \<open>Bus paths\<close>

datatype find_error =
    Assertion_failed | Bus_not_found string | Device_not_found string | Multiple_child_buses string
  | No_child_bus string | Bus_full string

text \<open>\<open>sscanf(path, "%127[^/]%n", elem, &len)\<close> on a text that does not begin with a slash.\<close>

definition scan_elem :: "string \<Rightarrow> string" where
  "scan_elem path = take 127 (takeWhile (\<lambda>c. c \<noteq> CHR ''/'') path)"

abbreviation skip_slashes :: "string \<Rightarrow> string" where
  "skip_slashes \<equiv> dropWhile (\<lambda>c. c = CHR ''/'')"

text \<open>\<open>assert(path[pos] == '/' || !path[pos])\<close>\<close>

definition at_separator :: "string \<Rightarrow> bool" where
  "at_separator path \<longleftrightarrow> path = [] \<or> hd path = CHR ''/''"

lemma scan_elem_shorter:
  assumes "skip_slashes path \<noteq> []"
  shows "length (drop (length (scan_elem (skip_slashes path))) (skip_slashes path)) < length path"
proof -
  have "hd (skip_slashes path) \<noteq> CHR ''/''" using assms by (rule hd_dropWhile)
  then have "scan_elem (skip_slashes path) \<noteq> []"
    using assms by (cases "skip_slashes path") (auto simp: scan_elem_def)
  then have "0 < length (scan_elem (skip_slashes path))" by simp
  moreover have "0 < length (skip_slashes path)" using assms by (simp only: length_greater_0_conv not_False_eq_True)
  moreover have "length (skip_slashes path) \<le> length path" by (rule length_dropWhile_le)
  ultimately show ?thesis by (simp only: length_drop)
qed

text \<open>The endless loop of \<open>qbus_find\<close>: each turn consumes at least one character.\<close>

function follow_path :: "bool \<Rightarrow> bus \<Rightarrow> string \<Rightarrow> find_error + bus" where
  "follow_path s390x b path =
     (if \<not> at_separator path then Inl Assertion_failed
      else let p1 = skip_slashes path
      in if p1 = [] then Inr b
      else let elem = scan_elem p1; p2 = drop (length elem) p1
      in case qbus_find_dev s390x b elem of
           None \<Rightarrow> Inl (Device_not_found elem)
         | Some d \<Rightarrow>
             if \<not> at_separator p2 then Inl Assertion_failed
             else let p3 = skip_slashes p2
             in if p3 = []
                then (case child_buses d of
                        [c] \<Rightarrow> Inr c
                      | [] \<Rightarrow> Inl (No_child_bus elem)
                      | _ \<Rightarrow> Inl (Multiple_child_buses elem))
                else let elem2 = scan_elem p3
                     in case qbus_find_bus d elem2 of
                          None \<Rightarrow> Inl (Bus_not_found elem2)
                        | Some c \<Rightarrow> follow_path s390x c (drop (length elem2) p3))"
  by pat_completeness auto

termination
proof (relation "measure (\<lambda>(_, _, path). length path)", goal_cases)
  case 1
  show ?case by simp
next
  case (2 s390x b path p1 elem p2 d p3 elem2 c)
  have "length p2 < length path"
    using scan_elem_shorter [of path] 2 by simp
  moreover have "length (drop (length elem2) p3) < length p2"
    using scan_elem_shorter [of p2] 2 by simp
  ultimately show ?case using 2 by simp
qed

declare follow_path.simps [simp del]

definition qbus_find :: "bool \<Rightarrow> bus \<Rightarrow> string \<Rightarrow> find_error + bus" where
  "qbus_find s390x sysbus path =
     bindR (if path \<noteq> [] \<and> hd path = CHR ''/'' then Inr (sysbus, path)
            else let elem = scan_elem path
                 in case qbus_find_recursive (\<lambda>b. bus_name b = elem) sysbus of
                      None \<Rightarrow> Inl (Bus_not_found elem)
                    | Some b \<Rightarrow> Inr (b, drop (length elem) path)) (\<lambda>(b, rest).
     bindR (follow_path s390x b rest) (\<lambda>b.
       if qbus_is_full b then Inl (Bus_full path) else Inr b))"

section \<open>Lemmas\<close>

text \<open>The buses and the devices of a tree, in the order the searches meet them.\<close>

fun buses_of :: "bus \<Rightarrow> bus list" and buses_of_devs :: "dev list \<Rightarrow> bus list"
  and buses_of_buses :: "bus list \<Rightarrow> bus list" where
  "buses_of (Bus a n t i m h kids) = Bus a n t i m h kids # buses_of_devs kids"
| "buses_of_devs [] = []"
| "buses_of_devs (Dev i t buses # kids) = buses_of_buses buses @ buses_of_devs kids"
| "buses_of_buses [] = []"
| "buses_of_buses (b # buses) = buses_of b @ buses_of_buses buses"

fun devs_of :: "bus \<Rightarrow> dev list" and devs_of_devs :: "dev list \<Rightarrow> dev list"
  and devs_of_buses :: "bus list \<Rightarrow> dev list" where
  "devs_of (Bus a n t i m h kids) = devs_of_devs kids"
| "devs_of_devs [] = []"
| "devs_of_devs (Dev i t buses # kids) = Dev i t buses # devs_of_buses buses @ devs_of_devs kids"
| "devs_of_buses [] = []"
| "devs_of_buses (b # buses) = devs_of b @ devs_of_buses buses"

text \<open>The bus the comment of \<open>qbus_find_recursive\<close> asks for.\<close>

definition preferred :: "(bus \<Rightarrow> bool) \<Rightarrow> bus list \<Rightarrow> bus option" where
  "preferred match bs =
     (case find (\<lambda>b. match b \<and> \<not> qbus_is_full b) bs of
        Some b \<Rightarrow> Some b
      | None \<Rightarrow> find match bs)"

lemma find_append: "find P (xs @ ys) = (case find P xs of Some x \<Rightarrow> Some x | None \<Rightarrow> find P ys)"
  by (induction xs) auto

lemma find_Some_P: "find P xs = Some x \<Longrightarrow> P x \<and> x \<in> set xs"
  by (auto simp: find_Some_iff)

text \<open>What a loop does to its \<open>pick\<close>.\<close>

definition picks :: "(bus \<Rightarrow> bool) \<Rightarrow> bus list \<Rightarrow> bus option \<Rightarrow> bus option \<times> bool" where
  "picks match bs pick =
     (case find (\<lambda>b. match b \<and> \<not> qbus_is_full b) bs of
        Some b \<Rightarrow> (Some b, True)
      | None \<Rightarrow> (if pick = None then find match bs else pick, False))"

lemma find_free_match:
  assumes "find (\<lambda>b. match b \<and> \<not> qbus_is_full b) bs = None" and "find match bs = Some r"
  shows "qbus_is_full r"
  using assms find_Some_P [OF assms(2)] by (auto simp: find_None_iff)

lemma find_none_free:
  assumes "find match bs = None"
  shows "find (\<lambda>b. match b \<and> \<not> qbus_is_full b) bs = None"
  using assms by (auto simp: find_None_iff)

lemma picks_append:
  "picks match (xs @ ys) pick =
     (case picks match xs pick of (p, True) \<Rightarrow> (p, True) | (p, False) \<Rightarrow> picks match ys p)"
  by (cases "find (\<lambda>b. match b \<and> \<not> qbus_is_full b) xs"; cases "find match xs"; cases pick)
    (simp_all add: picks_def find_append split: option.splits)

lemma picks_preferred:
  "(case preferred match xs of
      Some r \<Rightarrow> if \<not> qbus_is_full r then (Some r, True)
                else picks match ys (if pick = None then Some r else pick)
    | None \<Rightarrow> picks match ys pick) = picks match (xs @ ys) pick"
proof (cases "find (\<lambda>b. match b \<and> \<not> qbus_is_full b) xs")
  case (Some x)
  with find_Some_P [OF Some] show ?thesis by (simp add: preferred_def picks_def find_append)
next
  case None
  show ?thesis
  proof (cases "find match xs")
    case (Some r)
    with find_free_match [OF None Some] None show ?thesis
      by (cases pick) (simp_all add: preferred_def picks_def find_append split: option.splits)
  next
    case none: None
    with None show ?thesis
      by (cases pick) (simp_all add: preferred_def picks_def find_append split: option.splits)
  qed
qed

lemma preferred_picks:
  assumes "\<not> (match b \<and> \<not> qbus_is_full b)"
  shows "fst (picks match bs (if match b then Some b else None)) = preferred match (b # bs)"
  using assms by (auto simp: preferred_def picks_def split: option.splits)

lemma find_recursive_spec:
  "qbus_find_recursive match b = preferred match (buses_of b)"
  "find_kids match kids pick = picks match (buses_of_devs kids) pick"
  "find_buses match buses pick = picks match (buses_of_buses buses) pick"
proof (induction match b and match kids pick and match buses pick
    rule: qbus_find_recursive_find_kids_find_buses.induct)
  case (1 match a n t i m h kids)
  let ?b = "Bus a n t i m h kids"
  show ?case
  proof (cases "match ?b \<and> \<not> qbus_is_full ?b")
    case True
    then show ?thesis by (simp add: preferred_def)
  next
    case False
    show ?thesis
      unfolding qbus_find_recursive.simps Let_def if_not_P [OF False] 1 [OF refl False]
        preferred_picks [of match ?b "buses_of_devs kids", OF False] buses_of.simps ..
  qed
next
  case (2 match pick)
  then show ?case by (simp add: picks_def)
next
  case (3 match i t buses kids pick)
  show ?case
  proof (cases "picks match (buses_of_buses buses) pick")
    case (Pair p b)
    with 3 show ?thesis by (cases b) (simp_all add: picks_append)
  qed
next
  case (4 match pick)
  then show ?case by (simp add: picks_def)
next
  case (5 match b buses pick)
  show ?case
  proof (cases "preferred match (buses_of b)")
    case None
    with 5 picks_preferred [where match = match and xs = "buses_of b" and ys = "buses_of_buses buses" and pick = pick] show ?thesis by simp
  next
    case (Some r)
    with 5 picks_preferred [where match = match and xs = "buses_of b" and ys = "buses_of_buses buses" and pick = pick] show ?thesis
      by (cases "qbus_is_full r") simp_all
  qed
qed

lemma find_dev_spec:
  "qdev_find_recursive ident b = find (\<lambda>d. dev_id d = Some ident) (devs_of b)"
  "find_dev_kids ident kids = find (\<lambda>d. dev_id d = Some ident) (devs_of_devs kids)"
  "find_dev_buses ident buses = find (\<lambda>d. dev_id d = Some ident) (devs_of_buses buses)"
  by (induction ident b and ident kids and ident buses
      rule: qdev_find_recursive_find_dev_kids_find_dev_buses.induct)
    (auto simp: find_append split: option.splits)

text \<open>Following a path stays in the tree.\<close>

lemma buses_of_self: "b \<in> set (buses_of b)"
  by (cases b) simp

lemma buses_of_sub:
  "d \<in> set kids \<Longrightarrow> c \<in> set (child_buses d) \<Longrightarrow> set (buses_of c) \<subseteq> set (buses_of_devs kids)"
proof (induction kids)
  case (Cons k kids)
  have sub: "c \<in> set bs \<Longrightarrow> set (buses_of c) \<subseteq> set (buses_of_buses bs)" for bs
    by (induction bs) auto
  show ?case
  proof (cases "d = k")
    case True
    with Cons.prems(2) sub show ?thesis by (cases k) fastforce
  next
    case False
    with Cons show ?thesis by (cases k) auto
  qed
qed simp

lemma buses_of_trans:
  "c \<in> set (buses_of b) \<Longrightarrow> set (buses_of c) \<subseteq> set (buses_of b)"
  "c \<in> set (buses_of_devs kids) \<Longrightarrow> set (buses_of c) \<subseteq> set (buses_of_devs kids)"
  "c \<in> set (buses_of_buses buses) \<Longrightarrow> set (buses_of c) \<subseteq> set (buses_of_buses buses)"
  by (induction b and kids and buses rule: buses_of_buses_of_devs_buses_of_buses.induct) auto

lemma child_in_tree:
  assumes "d \<in> set (bus_kids b)" and "c \<in> set (child_buses d)"
  shows "set (buses_of c) \<subseteq> set (buses_of b)"
  using buses_of_sub [OF assms] by (cases b) auto

lemma qbus_find_dev_kid: "qbus_find_dev s390x b elem = Some d \<Longrightarrow> d \<in> set (bus_kids b)"
  by (auto simp: qbus_find_dev_def split: option.splits dest: find_Some_P)

lemma follow_path_step:
  assumes "follow_path s390x b path = Inr c" and "p1 = skip_slashes path"
  shows "(p1 = [] \<and> c = b) \<or>
    (\<exists>d. d \<in> set (bus_kids b) \<and> (child_buses d = [c] \<or>
      (\<exists>e rest. e \<in> set (child_buses d) \<and> follow_path s390x e rest = Inr c \<and> length rest < length path)))"
proof (cases "p1 = []")
  case True
  with assms show ?thesis
    by (subst (asm) follow_path.simps) (simp split: if_splits)
next
  case False
  define p2 where "p2 = drop (length (scan_elem p1)) p1"
  define p3 where "p3 = skip_slashes p2"
  from assms(1) False have sep: "at_separator path"
    by (subst (asm) follow_path.simps) (simp split: if_splits)
  have run: "(case qbus_find_dev s390x b (scan_elem p1) of
       None \<Rightarrow> Inl (Device_not_found (scan_elem p1))
     | Some d \<Rightarrow> if \<not> at_separator p2 then Inl Assertion_failed
         else if p3 = [] then (case child_buses d of [c] \<Rightarrow> Inr c | [] \<Rightarrow> Inl (No_child_bus (scan_elem p1))
                                | _ \<Rightarrow> Inl (Multiple_child_buses (scan_elem p1)))
         else (case qbus_find_bus d (scan_elem p3) of
             None \<Rightarrow> Inl (Bus_not_found (scan_elem p3))
           | Some c \<Rightarrow> follow_path s390x c (drop (length (scan_elem p3)) p3))) = Inr c"
    using assms(1) False sep
    by (subst (asm) follow_path.simps) (simp only: Let_def assms(2) [symmetric] p2_def [symmetric]
        p3_def [symmetric] if_False if_True simp_thms)
  from run obtain d where d: "qbus_find_dev s390x b (scan_elem p1) = Some d"
    by (auto split: option.splits)
  note kid = qbus_find_dev_kid [OF d]
  have short2: "length p2 < length path"
    using scan_elem_shorter [of path] False by (simp add: p2_def assms(2))
  show ?thesis
  proof (cases "p3 = []")
    case True
    with run d have "child_buses d = [c]" by (auto split: if_splits list.splits)
    with kid show ?thesis by blast
  next
    case more: False
    with run d obtain e where e: "qbus_find_bus d (scan_elem p3) = Some e"
      and rest: "follow_path s390x e (drop (length (scan_elem p3)) p3) = Inr c"
      by (auto split: if_splits option.splits)
    have "e \<in> set (child_buses d)" using e by (auto simp: qbus_find_bus_def dest: find_Some_P)
    moreover have "length (drop (length (scan_elem p3)) p3) < length path"
      using scan_elem_shorter [of p2] more short2 by (simp add: p3_def)
    ultimately show ?thesis using kid rest by blast
  qed
qed

lemma follow_path_in_tree:
  "follow_path s390x b path = Inr c \<Longrightarrow> c \<in> set (buses_of b)"
proof (induction "length path" arbitrary: path b rule: less_induct)
  case less
  from follow_path_step [OF less.prems refl] consider "c = b"
    | d where "d \<in> set (bus_kids b)" "child_buses d = [c]"
    | d e rest where "d \<in> set (bus_kids b)" "e \<in> set (child_buses d)"
        "follow_path s390x e rest = Inr c" "length rest < length path" by blast
  then show ?case
  proof cases
    case 1
    then show ?thesis by (simp add: buses_of_self)
  next
    case 2
    with child_in_tree [of d b c] buses_of_self [of c] show ?thesis by auto
  next
    case 3
    with less.hyps [of rest e] child_in_tree [of d b e] show ?thesis by blast
  qed
qed

end
