(* ===== verification/Qdev_Add.thy ===== *)
theory Qdev_Add
  imports Qdev_Find
begin

text \<open>
  Adding a device (\<open>qdev-monitor.c\<close>): choosing the device class and the bus, creating the object and
  setting its properties, for \<open>qdev_device_add\<close>, which also realizes it, and for
  \<open>osnet_qdev_device_add\<close>, which leaves that to the split hotplug; and the two monitor handlers. The
  object model is outside: the result is the list of its operations performed, with \<open>prop_ok\<close> and
  \<open>realize_ok\<close> saying which of them succeed after the operations so far.
\<close>

record class_info =
  ci_device :: bool
  ci_abstract :: bool
  ci_user_creatable :: bool
  ci_hotpluggable :: bool
  ci_bus_type :: "string option"

datatype obj_op =
    New string | Set_parent_bus nat | Set_id "string option" | Set_prop string string | Set_opts
  | Set_realized | Clear_opts | Unparent | Unref | Opts_del

datatype add_error =
    Missing_driver | Not_a_device string string | Abstract_type | Not_pluggable | Bus_error find_error
  | Wrong_bus string | No_bus string | No_hotplug string | Property_error string | Realize_error
  | Bad_options

record add_env =
  class_by_name :: "string \<Rightarrow> class_info option"
  is_a :: "string \<Rightarrow> string \<Rightarrow> bool"
  on_s390x :: bool
  qdev_hotplug :: bool
  sysbus :: bus
  prop_ok :: "obj_op list \<Rightarrow> string \<Rightarrow> string \<Rightarrow> bool"
  realize_ok :: "obj_op list \<Rightarrow> bool"

record opts =
  o_driver :: "string option"
  o_bus :: "string option"
  o_id :: "string option"
  o_all :: "(string \<times> string) list"

section \<open>The class and the bus\<close>

definition qdev_get_device_class :: "add_env \<Rightarrow> string \<Rightarrow> add_error + (string \<times> class_info)" where
  "qdev_get_device_class env driver =
     (let (name, oc) =
            (case class_by_name env driver of
               Some c \<Rightarrow> (driver, Some c)
             | None \<Rightarrow> (case find_typename_by_alias (on_s390x env) driver of
                          Some t \<Rightarrow> (t, class_by_name env t)
                        | None \<Rightarrow> (driver, None)))
      in case oc of
           None \<Rightarrow> Inl (Not_a_device driver name)
         | Some c \<Rightarrow>
             if \<not> ci_device c then Inl (Not_a_device driver name)
             else if ci_abstract c then Inl Abstract_type
             else if \<not> ci_user_creatable c \<or> (qdev_hotplug env \<and> \<not> ci_hotpluggable c) then Inl Not_pluggable
             else Inr (name, c))"

text \<open>The part of both functions that finds the bus.\<close>

definition device_bus :: "add_env \<Rightarrow> string \<Rightarrow> class_info \<Rightarrow> string option \<Rightarrow> add_error + bus option" where
  "device_bus env driver dc path =
     bindR (case path of
              Some p \<Rightarrow>
                (case qbus_find (on_s390x env) (sysbus env) p of
                   Inl e \<Rightarrow> Inl (Bus_error e)
                 | Inr b \<Rightarrow>
                     if (case ci_bus_type dc of None \<Rightarrow> False | Some t \<Rightarrow> is_a env (bus_type b) t)
                     then Inr (Some b) else Inl (Wrong_bus driver))
            | None \<Rightarrow>
                (case ci_bus_type dc of
                   None \<Rightarrow> Inr None
                 | Some t \<Rightarrow>
                     (case qbus_find_recursive (\<lambda>b. is_a env (bus_type b) t) (sysbus env) of
                        None \<Rightarrow> Inl (No_bus driver)
                      | Some b \<Rightarrow> if qbus_is_full b then Inl (No_bus driver) else Inr (Some b)))) (\<lambda>bus.
       case bus of
         None \<Rightarrow> Inr None
       | Some b \<Rightarrow> if qdev_hotplug env \<and> \<not> bus_hotpluggable b then Inl (No_hotplug (bus_name b)) else Inr (Some b))"

section \<open>The device\<close>

text \<open>\<open>set_property\<close>: false when the property could not be set.\<close>

definition set_property :: "add_env \<Rightarrow> string \<Rightarrow> string \<Rightarrow> obj_op list \<Rightarrow> bool \<times> obj_op list" where
  "set_property env name val ops =
     (if name = ''driver'' then (True, ops)
      else if name = ''bus'' then (True, ops)
      else (prop_ok env ops name val, ops @ [Set_prop name val]))"

text \<open>\<open>qemu_opt_foreach\<close> stops at the first that fails.\<close>

fun set_properties :: "add_env \<Rightarrow> (string \<times> string) list \<Rightarrow> obj_op list \<Rightarrow> add_error option \<times> obj_op list" where
  "set_properties env [] ops = (None, ops)"
| "set_properties env ((name, val) # props) ops =
     (case set_property env name val ops of
        (True, ops) \<Rightarrow> set_properties env props ops
      | (False, ops) \<Rightarrow> (Some (Property_error name), ops))"

definition osnet_qdev_device_add :: "add_env \<Rightarrow> opts \<Rightarrow> obj_op list \<Rightarrow> (add_error + unit) \<times> obj_op list" where
  "osnet_qdev_device_add env opts ops =
     (case o_driver opts of
        None \<Rightarrow> (Inl Missing_driver, ops)
      | Some driver \<Rightarrow>
          (case qdev_get_device_class env driver of
             Inl e \<Rightarrow> (Inl e, ops)
           | Inr (driver, dc) \<Rightarrow>
               (case device_bus env driver dc (o_bus opts) of
                  Inl e \<Rightarrow> (Inl e, ops)
                | Inr bus \<Rightarrow>
                    let ops = ops @ [New driver];
                        ops = (case bus of None \<Rightarrow> ops | Some b \<Rightarrow> ops @ [Set_parent_bus (bus_addr b)]);
                        ops = ops @ [Set_id (o_id opts)]
                    in case set_properties env (o_all opts) ops of
                         (Some e, ops) \<Rightarrow> (Inl e, ops @ [Unparent, Unref])
                       | (None, ops) \<Rightarrow> (Inr (), ops @ [Set_opts]))))"

definition qdev_device_add :: "add_env \<Rightarrow> opts \<Rightarrow> obj_op list \<Rightarrow> (add_error + unit) \<times> obj_op list" where
  "qdev_device_add env opts ops =
     (case o_driver opts of
        None \<Rightarrow> (Inl Missing_driver, ops)
      | Some driver \<Rightarrow>
          (case qdev_get_device_class env driver of
             Inl e \<Rightarrow> (Inl e, ops)
           | Inr (driver, dc) \<Rightarrow>
               (case device_bus env driver dc (o_bus opts) of
                  Inl e \<Rightarrow> (Inl e, ops)
                | Inr bus \<Rightarrow>
                    let ops = ops @ [New driver];
                        ops = (case bus of None \<Rightarrow> ops | Some b \<Rightarrow> ops @ [Set_parent_bus (bus_addr b)]);
                        ops = ops @ [Set_id (o_id opts)]
                    in case set_properties env (o_all opts) ops of
                         (Some e, ops) \<Rightarrow> (Inl e, ops @ [Unparent, Unref])
                       | (None, ops) \<Rightarrow>
                           let ops = ops @ [Set_opts];
                               ok = realize_ok env ops;
                               ops = ops @ [Set_realized]
                           in if \<not> ok then (Inl Realize_error, ops @ [Clear_opts, Unparent, Unref])
                              else (Inr (), ops))))"

section \<open>The handlers\<close>

text \<open>
  \<open>opts_ok\<close>: whether the arguments could be turned into options; \<open>help\<close>: whether the command came from
  the human monitor and was answered with a help text. The first component is the error, if any.
\<close>

definition handle_add ::
  "(opts \<Rightarrow> obj_op list \<Rightarrow> (add_error + unit) \<times> obj_op list) \<Rightarrow> bool \<Rightarrow> bool \<Rightarrow> opts \<Rightarrow> add_error option \<times> obj_op list" where
  "handle_add add opts_ok help opts =
     (if \<not> opts_ok then (Some Bad_options, [])
      else if help then (None, [Opts_del])
      else case add opts [] of
          (Inl e, ops) \<Rightarrow> (Some e, ops @ [Opts_del])
        | (Inr _, ops) \<Rightarrow> (None, ops @ [Unref]))"

definition qmp_device_add :: "add_env \<Rightarrow> bool \<Rightarrow> bool \<Rightarrow> opts \<Rightarrow> add_error option \<times> obj_op list" where
  "qmp_device_add env = handle_add (qdev_device_add env)"

definition qmp_osnet_device_add :: "add_env \<Rightarrow> bool \<Rightarrow> bool \<Rightarrow> opts \<Rightarrow> add_error option \<times> obj_op list" where
  "qmp_osnet_device_add env = handle_add (osnet_qdev_device_add env)"

section \<open>Lemmas\<close>

lemma set_properties_ops:
  "set_properties env props ops = (e, t) \<Longrightarrow> \<exists>mo. t = ops @ mo \<and> (\<forall>x \<in> set mo. \<exists>n v. x = Set_prop n v)"
proof (induction props arbitrary: ops)
  case (Cons p props)
  obtain name val where p: "p = (name, val)" by fastforce
  obtain ok ops' where s: "set_property env name val ops = (ok, ops')" by fastforce
  then obtain m where m: "ops' = ops @ m" "\<forall>x \<in> set m. \<exists>n v. x = Set_prop n v"
    by (auto simp: set_property_def split: if_splits)
  show ?case
  proof (cases ok)
    case True
    with Cons.prems p s have "set_properties env props ops' = (e, t)" by simp
    from Cons.IH [OF this] m show ?thesis by fastforce
  next
    case False
    with Cons.prems p s m show ?thesis by auto
  qed
qed simp

lemma named_bus_found:
  assumes "qbus_find_recursive match b = Some c"
  shows "match c \<and> c \<in> set (buses_of b)"
proof (cases "find (\<lambda>b. match b \<and> \<not> qbus_is_full b) (buses_of b)")
  case None
  with assms have "find match (buses_of b) = Some c"
    by (simp add: find_recursive_spec(1) preferred_def)
  from find_Some_P [OF this] show ?thesis by simp
next
  case (Some x)
  with assms have "x = c" by (simp add: find_recursive_spec(1) preferred_def)
  with find_Some_P [OF Some] show ?thesis by simp
qed

lemma qbus_find_in_tree:
  assumes "qbus_find s390x b path = Inr c"
  shows "c \<in> set (buses_of b) \<and> \<not> qbus_is_full c"
proof -
  have "\<exists>d rest. d \<in> set (buses_of b) \<and> follow_path s390x d rest = Inr c \<and> \<not> qbus_is_full c"
  proof (cases "path \<noteq> [] \<and> hd path = CHR ''/''")
    case True
    with assms buses_of_self [of b] show ?thesis
      by (auto simp: qbus_find_def bindR_eq_Inr split: if_splits)
  next
    case False
    with assms show ?thesis
      by (auto simp: qbus_find_def bindR_eq_Inr Let_def split: if_splits option.splits dest!: named_bus_found)
  qed
  then obtain d rest where d: "d \<in> set (buses_of b)" and f: "follow_path s390x d rest = Inr c"
    and free: "\<not> qbus_is_full c" by blast
  from follow_path_in_tree [OF f] buses_of_trans(1) [OF d] free show ?thesis by auto
qed

text \<open>The two lookups of the alias table agree: the type an alias stands for has that alias.\<close>

lemma alias_roundtrip:
  assumes "find_typename_by_alias s390x al = Some ty"
  shows "qdev_class_get_alias s390x ty = Some al"
proof -
  obtain a m where find: "find (\<lambda>(_, a, m). \<not> arch_skips s390x m \<and> a = al) qdev_alias_table = Some (ty, a, m)"
    using assms by (auto simp: find_typename_by_alias_def)
  from find_Some_P [OF find] have row: "(ty, al, m) \<in> set qdev_alias_table" "\<not> arch_skips s390x m" by auto
  have distinct: "distinct (map fst qdev_alias_table)" by (simp add: qdev_alias_table_def)
  have "find (\<lambda>(t, _, m). \<not> arch_skips s390x m \<and> t = ty) xs = Some (ty, al, m)"
    if "(ty, al, m) \<in> set xs" "distinct (map fst xs)" for xs
    using that row(2) by (induction xs) (auto simp: image_iff)
  with row distinct show ?thesis by (fastforce simp: qdev_class_get_alias_def)
qed

section \<open>Properties\<close>

text \<open>C13: The recursive search for a bus gives what its comment promises: among the buses of the tree below
  the root, in preorder, the first that matches and can take another device; when every match is full,
  the first match; and nothing exactly when there is no match.\<close>

theorem find_bus_prefers_free:
  "qbus_find_recursive match b =
     (case find (\<lambda>c. match c \<and> \<not> qbus_is_full c) (buses_of b) of
        Some c \<Rightarrow> Some c
      | None \<Rightarrow> find match (buses_of b))"
  by (simp add: find_recursive_spec(1) preferred_def)

text \<open>A new device only ever goes to a bus of the tree that has room, is of the bus type its class asks
  for, and, once the machine runs, can be hotplugged to, whether the bus was named by a path or
  searched for.\<close>

theorem device_bus_fits:
  assumes "device_bus env driver dc path = Inr (Some b)"
  shows "b \<in> set (buses_of (sysbus env)) \<and> \<not> qbus_is_full b \<and>
    (\<exists>t. ci_bus_type dc = Some t \<and> is_a env (bus_type b) t) \<and> (qdev_hotplug env \<longrightarrow> bus_hotpluggable b)"
proof (cases path)
  case None
  with assms obtain t where t: "ci_bus_type dc = Some t"
    and q: "qbus_find_recursive (\<lambda>b. is_a env (bus_type b) t) (sysbus env) = Some b" "\<not> qbus_is_full b"
    and h: "qdev_hotplug env \<longrightarrow> bus_hotpluggable b"
    by (auto simp: device_bus_def bindR_eq_Inr split: option.splits if_splits)
  from named_bus_found [OF q(1)] t q h show ?thesis by simp
next
  case (Some p)
  with assms have q: "qbus_find (on_s390x env) (sysbus env) p = Inr b"
    and t: "\<exists>t. ci_bus_type dc = Some t \<and> is_a env (bus_type b) t"
    and h: "qdev_hotplug env \<longrightarrow> bus_hotpluggable b"
    by (auto simp: device_bus_def bindR_eq_Inr split: option.splits if_splits sum.splits)
  from qbus_find_in_tree [OF q] t h show ?thesis by simp
qed

text \<open>A machine with a full PCI bus behind which a bridge offers a second one.\<close>

definition pci1 :: bus where
  "pci1 = Bus 2 ''pci.1'' ''PCI'' 1 32 True []"

definition main_bus :: bus where
  "main_bus = Bus 0 ''main'' ''System'' 1 0 False
     [Dev None ''i440FX-pcihost''
        [Bus 1 ''pci.0'' ''PCI'' 32 32 True [Dev (Some ''br'') ''pci-bridge'' [pci1]]]]"

definition vfio_class :: class_info where
  "vfio_class = \<lparr>ci_device = True, ci_abstract = False, ci_user_creatable = True, ci_hotpluggable = True,
     ci_bus_type = Some ''PCI''\<rparr>"

definition pc :: add_env where
  "pc = \<lparr>class_by_name = (\<lambda>n. if n = ''vfio-pci'' then Some vfio_class else None), is_a = (=),
     on_s390x = False, qdev_hotplug = True, sysbus = main_bus, prop_ok = (\<lambda>_ n _. n \<noteq> ''bad''),
     realize_ok = (\<lambda>_. False)\<rparr>"

theorem device_bus_fits_witness:
  "device_bus pc ''vfio-pci'' vfio_class None = Inr (Some pci1) \<and> \<not> qbus_is_full pci1 \<and>
   device_bus pc ''vfio-pci'' vfio_class (Some ''pci.0/br'') = Inr (Some pci1)"
proof -
  have run: "device_bus pc ''vfio-pci'' vfio_class None = Inr (Some pci1)"
    by (simp add: device_bus_def vfio_class_def pc_def main_bus_def pci1_def qbus_is_full_def)
  moreover have "device_bus pc ''vfio-pci'' vfio_class (Some ''pci.0/br'') = Inr (Some pci1)"
    by (simp add: device_bus_def vfio_class_def pc_def main_bus_def pci1_def qbus_is_full_def
        qbus_find_def scan_elem_def follow_path.simps at_separator_def qbus_find_dev_def)
  ultimately show ?thesis using device_bus_fits [OF run] by blast
qed

text \<open>C11: \<open>qdev_device_add\<close> is \<open>osnet_qdev_device_add\<close> followed by realizing the device: the same tests
  with the same errors, the same operations in the same order, and then \<open>realized\<close> is set, and on
  failure the device's options are cleared and it is unparented and released.\<close>

theorem device_add_splits:
  "qdev_device_add env opts ops =
     (case osnet_qdev_device_add env opts ops of
        (Inl e, ops') \<Rightarrow> (Inl e, ops')
      | (Inr _, ops') \<Rightarrow>
          if realize_ok env ops' then (Inr (), ops' @ [Set_realized])
          else (Inl Realize_error, ops' @ [Set_realized, Clear_opts, Unparent, Unref]))"
  by (simp add: qdev_device_add_def osnet_qdev_device_add_def Let_def split: option.splits sum.splits prod.splits)

lemma add_ops_shape:
  assumes "osnet_qdev_device_add env opts [] = (r, ops)"
  shows "(\<exists>e. r = Inl e \<and> ops = []) \<or>
    (\<exists>d pre mo. (\<forall>x \<in> set pre. (\<exists>a. x = Set_parent_bus a) \<or> (\<exists>i. x = Set_id i)) \<and>
      (\<forall>x \<in> set mo. \<exists>n v. x = Set_prop n v) \<and>
      ((r = Inr () \<and> ops = New d # pre @ mo @ [Set_opts]) \<or>
       (\<exists>e. r = Inl e \<and> ops = New d # pre @ mo @ [Unparent, Unref])))"
proof (cases "o_driver opts")
  case None
  with assms show ?thesis by (auto simp: osnet_qdev_device_add_def)
next
  case (Some driver)
  show ?thesis
  proof (cases "qdev_get_device_class env driver")
    case (Inl e)
    with Some assms show ?thesis by (auto simp: osnet_qdev_device_add_def)
  next
    case (Inr q)
    obtain d dc where q: "q = (d, dc)" by fastforce
    show ?thesis
    proof (cases "device_bus env d dc (o_bus opts)")
      case (Inl e)
      with Some q assms \<open>qdev_get_device_class env driver = Inr q\<close> show ?thesis
        by (auto simp: osnet_qdev_device_add_def)
    next
      case bus: (Inr b)
      define pre where "pre = (case b of None \<Rightarrow> [] | Some c \<Rightarrow> [Set_parent_bus (bus_addr c)]) @ [Set_id (o_id opts)]"
      obtain e t where t: "set_properties env (o_all opts) (New d # pre) = (e, t)" by fastforce
      from set_properties_ops [OF this] obtain mo where mo: "t = (New d # pre) @ mo"
        "\<forall>x \<in> set mo. \<exists>n v. x = Set_prop n v" by blast
      have "(r, ops) = (case e of Some e \<Rightarrow> (Inl e, t @ [Unparent, Unref]) | None \<Rightarrow> (Inr (), t @ [Set_opts]))"
        using assms Some Inr q bus t
        by (cases b; cases e) (simp_all add: osnet_qdev_device_add_def pre_def)
      moreover have "\<forall>x \<in> set pre. (\<exists>a. x = Set_parent_bus a) \<or> (\<exists>i. x = Set_id i)"
        by (auto simp: pre_def split: option.splits)
      ultimately show ?thesis using mo
        by (intro disjI2 exI [of _ d] exI [of _ pre] exI [of _ mo]) (auto split: option.splits)
    qed
  qed
qed

lemma count_pre:
  "\<forall>x \<in> set pre. (\<exists>a. x = Set_parent_bus a) \<or> (\<exists>i. x = Set_id i) \<Longrightarrow>
     count_list pre Unref = 0 \<and> count_list pre Unparent = 0 \<and> count_list pre Opts_del = 0 \<and>
     filter (\<lambda>x. \<exists>d. x = New d) pre = []"
  by (induction pre) auto

lemma count_morere:
  "\<forall>x \<in> set mo. \<exists>n v. x = Set_prop n v \<Longrightarrow>
     count_list mo Unref = 0 \<and> count_list mo Unparent = 0 \<and> count_list mo Opts_del = 0 \<and>
     filter (\<lambda>x. \<exists>d. x = New d) mo = []"
  by (induction mo) auto

text \<open>C12: Neither handler leaks: on every path each object created is released exactly once by the handler,
  is unparented exactly when the command fails, and the options are deleted exactly once when it fails
  after they were built, and not at all (they belong to the device) when it succeeds.\<close>

theorem device_add_no_leak:
  assumes "h \<in> {qmp_device_add env, qmp_osnet_device_add env}" and "h opts_ok help opts = (e, ops)"
  shows "count_list ops Unref = length (filter (\<lambda>x. \<exists>d. x = New d) ops) \<and>
    count_list ops Unparent = (if e = None then 0 else length (filter (\<lambda>x. \<exists>d. x = New d) ops)) \<and>
    count_list ops Opts_del = (if opts_ok \<and> (help \<or> e \<noteq> None) then 1 else 0)"
proof (cases "\<not> opts_ok \<or> help")
  case True
  with assms show ?thesis
    by (auto simp: qmp_device_add_def qmp_osnet_device_add_def handle_add_def)
next
  case False
  obtain r p where add: "osnet_qdev_device_add env opts [] = (r, p)" by fastforce
  from add_ops_shape [OF add] show ?thesis
  proof (elim disjE exE conjE)
    fix x
    assume "r = Inl x" and "p = []"
    with False assms add show ?thesis
      by (auto simp: qmp_device_add_def qmp_osnet_device_add_def handle_add_def device_add_splits)
  next
    fix d pre mo
    assume k: "\<forall>x \<in> set pre. (\<exists>a. x = Set_parent_bus a) \<or> (\<exists>i. x = Set_id i)"
      "\<forall>x \<in> set mo. \<exists>n v. x = Set_prop n v" and "r = Inr ()" "p = New d # pre @ mo @ [Set_opts]"
    with False assms add count_pre [OF k(1)] count_morere [OF k(2)] show ?thesis
      by (auto simp: qmp_device_add_def qmp_osnet_device_add_def handle_add_def device_add_splits
          count_list_append split: if_splits)
  next
    fix d pre mo x
    assume k: "\<forall>x \<in> set pre. (\<exists>a. x = Set_parent_bus a) \<or> (\<exists>i. x = Set_id i)"
      "\<forall>x \<in> set mo. \<exists>n v. x = Set_prop n v" and "r = Inl x" "p = New d # pre @ mo @ [Unparent, Unref]"
    with False assms add count_pre [OF k(1)] count_morere [OF k(2)] show ?thesis
      by (auto simp: qmp_device_add_def qmp_osnet_device_add_def handle_add_def device_add_splits
          count_list_append)
  qed
qed

theorem device_add_no_leak_witness:
  "\<exists>ops. qmp_device_add pc True False \<lparr>o_driver = Some ''vfio-pci'', o_bus = None, o_id = Some ''net0'',
      o_all = [(''driver'', ''vfio-pci''), (''host'', ''03:10.1'')]\<rparr> = (Some Realize_error, ops) \<and>
    count_list ops Unref = 1 \<and> count_list ops Unparent = 1 \<and> count_list ops Opts_del = 1"
proof -
  let ?o = "\<lparr>o_driver = Some ''vfio-pci'', o_bus = None, o_id = Some ''net0'',
      o_all = [(''driver'', ''vfio-pci''), (''host'', ''03:10.1'')]\<rparr>"
  obtain e ops where run: "qmp_device_add pc True False ?o = (e, ops)" by fastforce
  have "qmp_device_add pc \<in> {qmp_device_add pc, qmp_osnet_device_add pc}" by simp
  note leak = device_add_no_leak [of "qmp_device_add pc" pc, OF this run]
  have "device_bus pc ''vfio-pci'' vfio_class None = Inr (Some pci1)"
    using device_bus_fits_witness by blast
  then have "e = Some Realize_error \<and> length (filter (\<lambda>x. \<exists>d. x = New d) ops) = 1"
    using run by (auto simp: qmp_device_add_def handle_add_def qdev_device_add_def qdev_get_device_class_def
        pc_def vfio_class_def set_property_def)
  with leak run show ?thesis by simp
qed

end
