(* ===== verification/Vfio_State.thy ===== *)
theory Vfio_State
  imports Prelude "HOL-Library.Multiset"
begin

text \<open>
  The interrupt state of a passthrough device, \<open>VFIOPCIDevice\<close> of
  \<open>qemu-2.9.1-modified-files/hw/vfio/pci.h\<close>: the mode, the INTx state, the MSI/MSI-X vectors and the
  pending bits. What the device code takes from the kernel, from KVM, from the PCI core and from
  QEMU's main loop is a \<open>vfio_host\<close>: a function of the calls made so far that answers each call.

  Three fields stand for what the host keeps of the calls: \<open>held\<close> lists the resources obtained and not
  yet given back (event file descriptors, KVM interrupt routes, irqfds), \<open>handlers\<close> the main loop's
  handler of each file descriptor, and \<open>trigger\<close> the eventfd that the VFIO kernel driver signals for
  each interrupt, \<open>- 1\<close> for none.
\<close>

section \<open>The device\<close>

datatype irq_mode = INT_NONE | INT_INTx | INT_MSI | INT_MSIX

text \<open>\<open>VFIOMSIVector\<close>. Memory from \<open>g_new0\<close> is \<open>zero_vector\<close>: note that \<open>virq\<close> is 0 there, not -1.\<close>

record msi_vector =
  interrupt_fd :: int
  kvm_interrupt_fd :: int
  virq :: int
  in_use :: bool

definition zero_vector :: msi_vector where
  "zero_vector = \<lparr>interrupt_fd = 0, kvm_interrupt_fd = 0, virq = 0, in_use = False\<rparr>"

datatype irq_index = IRQ_INTX | IRQ_MSI | IRQ_MSIX

datatype irq_handler = Intx_Interrupt | Msi_Interrupt nat

datatype route_mode = ROUTE_ENABLED | ROUTE_DISABLED | ROUTE_INVERTED

record intx_route =
  route_mode :: route_mode
  route_irq :: int

datatype notifier_kind = For_Intx | For_Unmask | For_Vector | For_Kvm

text \<open>The calls into the host. Those whose answer is not used are recorded for their order.\<close>

datatype host_call =
  Notifier_Init notifier_kind
| Notifier_Cleanup int
| Test_And_Clear int
| Set_Fd_Handler int "irq_handler option"
| Set_Trigger irq_index nat "int list"
| Set_Unmask int
| Disable_Irqindex irq_index
| Mask_Irqindex irq_index
| Unmask_Irqindex irq_index
| Irqfd_Assign int int int
| Irqfd_Deassign int int
| Add_Msi_Route nat
| Release_Virq int
| Add_Irqfd int int
| Remove_Irqfd int int
| Update_Msi_Route int nat
| Commit_Routes
| Irq_Assert
| Irq_Deassert
| Region_Mmaps nat bool
| Timer_Mod nat
| Timer_Del
| Pba_Enabled bool
| Msix_Vector_Use nat
| Msix_Vector_Unuse nat
| Msix_Is_Masked nat
| Set_Vector_Notifiers
| Unset_Vector_Notifiers
| Notify_Msi nat
| Notify_Msix nat
| Nr_Vectors_Allocated
| Read_Interrupt_Pin
| Set_Interrupt_Pin nat

datatype resource = Fd int | Virq int | Irqfd int int

record vfio_irq =
  interrupt :: irq_mode
  intx_pending :: bool
  kvm_accel :: bool
  intx_pin :: nat
  intx_fd :: int
  unmask_fd :: int
  intx_route :: intx_route
  msi_vectors :: "msi_vector list"
  nr_vectors :: nat
  msix_pending :: "bool list"
  held :: "resource list"
  handlers :: "int \<Rightarrow> irq_handler option"
  trigger :: "irq_index \<Rightarrow> nat \<Rightarrow> int"
  calls :: "host_call list"

text \<open>
  The host and the device's options. \<open>unmasked\<close> lists the vectors for which the MSI-X core runs the
  use or release notifier while the notifiers are set or unset; \<open>routing\<close> is
  \<open>pci_device_route_intx_to_irq\<close>.
\<close>

record vfio_host =
  answer :: "host_call list \<Rightarrow> host_call \<Rightarrow> int"
  unmasked :: "host_call list \<Rightarrow> nat list"
  routing :: "host_call list \<Rightarrow> nat \<Rightarrow> intx_route"
  msix_entries :: nat
  mmap_timeout :: nat
  irqfds_enabled :: bool
  resamplefds_enabled :: bool
  no_kvm_intx :: bool
  no_kvm_msi :: bool
  no_kvm_msix :: bool

datatype vfio_fault = Out_Of_Bounds | Aborted | Out_Of_Fuel

section \<open>Calls\<close>

definition act :: "host_call \<Rightarrow> vfio_irq \<Rightarrow> vfio_irq" where
  "act c s = s\<lparr>calls := c # calls s\<rparr>"

definition ask :: "vfio_host \<Rightarrow> host_call \<Rightarrow> vfio_irq \<Rightarrow> int \<times> vfio_irq" where
  "ask h c s = (answer h (calls s) c, act c s)"

definition acquire :: "resource \<Rightarrow> vfio_irq \<Rightarrow> vfio_irq" where
  "acquire r s = s\<lparr>held := r # held s\<rparr>"

definition discard :: "resource \<Rightarrow> vfio_irq \<Rightarrow> vfio_irq" where
  "discard r s = s\<lparr>held := remove1 r (held s)\<rparr>"

text \<open>\<open>event_notifier_init\<close>: a negative answer is the error, any other one the new descriptor.\<close>

definition event_notifier_init :: "vfio_host \<Rightarrow> notifier_kind \<Rightarrow> vfio_irq \<Rightarrow> int \<times> vfio_irq" where
  "event_notifier_init h k s =
     (let (r, s) = ask h (Notifier_Init k) s in (r, if r < 0 then s else acquire (Fd r) s))"

definition event_notifier_cleanup :: "int \<Rightarrow> vfio_irq \<Rightarrow> vfio_irq" where
  "event_notifier_cleanup fd s = discard (Fd fd) (act (Notifier_Cleanup fd) s)"

definition qemu_set_fd_handler :: "int \<Rightarrow> irq_handler option \<Rightarrow> vfio_irq \<Rightarrow> vfio_irq" where
  "qemu_set_fd_handler fd f s = (act (Set_Fd_Handler fd f) s)\<lparr>handlers := (handlers s)(fd := f)\<rparr>"

text \<open>\<open>VFIO_DEVICE_SET_IRQS\<close> with \<open>VFIO_IRQ_SET_ACTION_TRIGGER\<close> and a list of eventfds.\<close>

definition arm :: "irq_index \<Rightarrow> nat \<Rightarrow> int list \<Rightarrow> (irq_index \<Rightarrow> nat \<Rightarrow> int) \<Rightarrow> irq_index \<Rightarrow> nat \<Rightarrow> int" where
  "arm idx start fds t = (\<lambda>i n.
     if i = idx \<and> start \<le> n \<and> n < start + length fds then fds ! (n - start) else t i n)"

definition set_trigger :: "vfio_host \<Rightarrow> irq_index \<Rightarrow> nat \<Rightarrow> int list \<Rightarrow> vfio_irq \<Rightarrow> int \<times> vfio_irq" where
  "set_trigger h idx start fds s =
     (let (r, s) = ask h (Set_Trigger idx start fds) s in
      (r, if r = 0 then s\<lparr>trigger := arm idx start fds (trigger s)\<rparr> else s))"

definition vfio_disable_irqindex :: "irq_index \<Rightarrow> vfio_irq \<Rightarrow> vfio_irq" where
  "vfio_disable_irqindex idx s =
     (act (Disable_Irqindex idx) s)\<lparr>trigger := (trigger s)(idx := \<lambda>_. - 1)\<rparr>"

text \<open>\<open>vfio_mmap_set_enabled\<close>: every BAR, \<open>PCI_ROM_SLOT\<close> of them.\<close>

definition vfio_mmap_set_enabled :: "bool \<Rightarrow> vfio_irq \<Rightarrow> vfio_irq" where
  "vfio_mmap_set_enabled b s = foldl (\<lambda>s i. act (Region_Mmaps i b) s) s [0..<6]"

section \<open>What the calls leave alone\<close>

lemmas call_defs = act_def ask_def acquire_def discard_def event_notifier_init_def
  event_notifier_cleanup_def qemu_set_fd_handler_def set_trigger_def vfio_disable_irqindex_def

lemma mmap_same [simp]:
  "interrupt (vfio_mmap_set_enabled b s) = interrupt s"
  "intx_pending (vfio_mmap_set_enabled b s) = intx_pending s"
  "kvm_accel (vfio_mmap_set_enabled b s) = kvm_accel s"
  "intx_fd (vfio_mmap_set_enabled b s) = intx_fd s"
  "unmask_fd (vfio_mmap_set_enabled b s) = unmask_fd s"
  "msi_vectors (vfio_mmap_set_enabled b s) = msi_vectors s"
  "nr_vectors (vfio_mmap_set_enabled b s) = nr_vectors s"
  "msix_pending (vfio_mmap_set_enabled b s) = msix_pending s"
  "held (vfio_mmap_set_enabled b s) = held s"
  "handlers (vfio_mmap_set_enabled b s) = handlers s"
  "trigger (vfio_mmap_set_enabled b s) = trigger s"
  by (simp_all add: vfio_mmap_set_enabled_def act_def upt_rec)

end
