(* ===== verification/Vfio_Irq.thy ===== *)
theory Vfio_Irq
  imports Vfio_State
begin

text \<open>
  The interrupt code of \<open>hw/vfio/pci.c\<close>: INTx with its KVM bypass, MSI and MSI-X vectors, and the
  transitions between the modes. Disabling MSI or MSI-X enables INTx, and enabling INTx disables
  whatever is enabled: the functions are recursive through \<open>vfio_disable_interrupts\<close>, which here takes
  a bound on the nesting; two levels are always enough, as the theory \<open>Vfio_Accounting\<close> shows.
\<close>

section \<open>INTx\<close>

definition vfio_intx_mmap_enable :: "vfio_host \<Rightarrow> vfio_irq \<Rightarrow> vfio_irq" where
  "vfio_intx_mmap_enable h s =
     (if intx_pending s then act (Timer_Mod (mmap_timeout h)) s else vfio_mmap_set_enabled True s)"

definition vfio_intx_interrupt :: "vfio_host \<Rightarrow> vfio_irq \<Rightarrow> vfio_irq" where
  "vfio_intx_interrupt h s =
     (let (r, s) = ask h (Test_And_Clear (intx_fd s)) s in
      if r = 0 then s
      else
        let s = act Irq_Assert (s\<lparr>intx_pending := True\<rparr>);
            s = vfio_mmap_set_enabled False s
        in if mmap_timeout h \<noteq> 0 then act (Timer_Mod (mmap_timeout h)) s else s)"

definition vfio_intx_eoi :: "vfio_irq \<Rightarrow> vfio_irq" where
  "vfio_intx_eoi s =
     (if \<not> intx_pending s then s
      else act (Unmask_Irqindex IRQ_INTX) (act Irq_Deassert (s\<lparr>intx_pending := False\<rparr>)))"

text \<open>The labels of \<open>vfio_intx_enable_kvm\<close>, from the last one up.\<close>

definition kvm_fail :: "vfio_irq \<Rightarrow> vfio_irq" where
  "kvm_fail s = act (Unmask_Irqindex IRQ_INTX)
     (qemu_set_fd_handler (intx_fd s) (Some Intx_Interrupt) s)"

definition kvm_fail_irqfd :: "vfio_irq \<Rightarrow> vfio_irq" where
  "kvm_fail_irqfd s = kvm_fail (event_notifier_cleanup (unmask_fd s) s)"

definition kvm_fail_vfio :: "vfio_irq \<Rightarrow> vfio_irq" where
  "kvm_fail_vfio s = kvm_fail_irqfd (act (Irqfd_Deassign (intx_fd s) (route_irq (intx_route s))) s)"

definition vfio_intx_enable_kvm :: "vfio_host \<Rightarrow> vfio_irq \<Rightarrow> vfio_irq" where
  "vfio_intx_enable_kvm h s =
     (if no_kvm_intx h \<or> \<not> irqfds_enabled h \<or> route_mode (intx_route s) \<noteq> ROUTE_ENABLED
         \<or> \<not> resamplefds_enabled h
      then s
      else
        let s = qemu_set_fd_handler (intx_fd s) None s;
            s = act (Mask_Irqindex IRQ_INTX) s;
            s = act Irq_Deassert (s\<lparr>intx_pending := False\<rparr>);
            (r, s) = event_notifier_init h For_Unmask s
        in if r < 0 then kvm_fail s
           else
             let s = s\<lparr>unmask_fd := r\<rparr>;
                 (e, s) = ask h (Irqfd_Assign (intx_fd s) (route_irq (intx_route s)) r) s
             in if e \<noteq> 0 then kvm_fail_irqfd s
                else
                  let (e, s) = ask h (Set_Unmask r) s
                  in if e \<noteq> 0 then kvm_fail_vfio s
                     else (act (Unmask_Irqindex IRQ_INTX) s)\<lparr>kvm_accel := True\<rparr>)"

definition vfio_intx_disable_kvm :: "vfio_irq \<Rightarrow> vfio_irq" where
  "vfio_intx_disable_kvm s =
     (if \<not> kvm_accel s then s
      else
        let s = act (Mask_Irqindex IRQ_INTX) s;
            s = act Irq_Deassert (s\<lparr>intx_pending := False\<rparr>);
            s = act (Irqfd_Deassign (intx_fd s) (route_irq (intx_route s))) s;
            s = event_notifier_cleanup (unmask_fd s) s;
            s = qemu_set_fd_handler (intx_fd s) (Some Intx_Interrupt) s
        in act (Unmask_Irqindex IRQ_INTX) (s\<lparr>kvm_accel := False\<rparr>))"

definition vfio_intx_update :: "vfio_host \<Rightarrow> vfio_irq \<Rightarrow> vfio_irq" where
  "vfio_intx_update h s =
     (if interrupt s \<noteq> INT_INTx then s
      else
        let route = routing h (calls s) (intx_pin s) in
        if route = intx_route s then s
        else
          let s = (vfio_intx_disable_kvm s)\<lparr>intx_route := route\<rparr> in
          if route_mode route \<noteq> ROUTE_ENABLED then s
          else vfio_intx_eoi (vfio_intx_enable_kvm h s))"

text \<open>
  \<open>vfio_intx_enable\<close>: its set-up once everything is disabled, and the whole function, with \<open>dis\<close> for
  its call of \<open>vfio_disable_interrupts\<close>. The pin is what the configuration space gives; the returned
  number is \<open>0\<close> or a negative errno: a call that fails answers the negated errno it sets.
\<close>

definition intx_setup :: "vfio_host \<Rightarrow> nat \<Rightarrow> vfio_irq \<Rightarrow> int \<times> vfio_irq" where
  "intx_setup h pin s =
     (let s = act (Set_Interrupt_Pin pin) (s\<lparr>intx_pin := pin - 1\<rparr>);
          s = (if irqfds_enabled h \<and> resamplefds_enabled h
               then s\<lparr>intx_route := routing h (calls s) (intx_pin s)\<rparr> else s);
          (r, s) = event_notifier_init h For_Intx s
      in if r < 0 then (r, s)
         else
           let s = qemu_set_fd_handler r (Some Intx_Interrupt) (s\<lparr>intx_fd := r\<rparr>);
               (e, s) = set_trigger h IRQ_INTX 0 [r] s
           in if e \<noteq> 0 then (min e (- 1), event_notifier_cleanup r (qemu_set_fd_handler r None s))
              else (0, (vfio_intx_enable_kvm h s)\<lparr>interrupt := INT_INTx\<rparr>))"

definition intx_enable_with ::
    "(vfio_irq \<Rightarrow> vfio_fault + vfio_irq) \<Rightarrow> vfio_host \<Rightarrow> vfio_irq \<Rightarrow> vfio_fault + int \<times> vfio_irq" where
  "intx_enable_with dis h s =
     (let (v, s) = ask h Read_Interrupt_Pin s;
          pin = nat (v mod 256)
      in if pin = 0 then Inr (0, s) else bindR (dis s) (\<lambda>s. Inr (intx_setup h pin s)))"

definition vfio_intx_disable :: "vfio_irq \<Rightarrow> vfio_irq" where
  "vfio_intx_disable s =
     (let s = act Timer_Del s;
          s = vfio_intx_disable_kvm s;
          s = vfio_disable_irqindex IRQ_INTX s;
          s = act Irq_Deassert (s\<lparr>intx_pending := False\<rparr>);
          s = vfio_mmap_set_enabled True s;
          s = qemu_set_fd_handler (intx_fd s) None s;
          s = event_notifier_cleanup (intx_fd s) s
      in s\<lparr>interrupt := INT_NONE\<rparr>)"

section \<open>MSI and MSI-X vectors\<close>

definition vfio_msi_interrupt :: "vfio_host \<Rightarrow> nat \<Rightarrow> vfio_irq \<Rightarrow> vfio_fault + vfio_irq" where
  "vfio_msi_interrupt h nr s =
     (if length (msi_vectors s) \<le> nr then Inl Out_Of_Bounds
      else
        let (r, s) = ask h (Test_And_Clear (interrupt_fd (msi_vectors s ! nr))) s in
        if r = 0 then Inr s
        else if interrupt s = INT_MSIX then
          (let (m, s) = ask h (Msix_Is_Masked nr) s;
               s = (if m \<noteq> 0
                    then act (Pba_Enabled True) (s\<lparr>msix_pending := (msix_pending s)[nr := True]\<rparr>)
                    else s)
           in Inr (act (Notify_Msix nr) s))
        else if interrupt s = INT_MSI then Inr (act (Notify_Msi nr) s)
        else Inl Aborted)"

text \<open>The descriptor that \<open>vfio_enable_vectors\<close> passes for a vector.\<close>

definition vector_fd :: "bool \<Rightarrow> msi_vector \<Rightarrow> int" where
  "vector_fd masked v =
     (if in_use v then if virq v < 0 \<or> masked then interrupt_fd v else kvm_interrupt_fd v else - 1)"

definition vfio_enable_vectors ::
    "vfio_host \<Rightarrow> bool \<Rightarrow> vfio_irq \<Rightarrow> vfio_fault + int \<times> vfio_irq" where
  "vfio_enable_vectors h msix s =
     (if length (msi_vectors s) < nr_vectors s then Inl Out_Of_Bounds
      else Inr (set_trigger h (if msix then IRQ_MSIX else IRQ_MSI) 0
             (map (\<lambda>i. vector_fd (msix \<and> answer h (calls s) (Msix_Is_Masked i) \<noteq> 0) (msi_vectors s ! i))
                  [0..<nr_vectors s]) s))"

definition vfio_add_kvm_msi_virq ::
    "vfio_host \<Rightarrow> nat \<Rightarrow> bool \<Rightarrow> msi_vector \<Rightarrow> vfio_irq \<Rightarrow> msi_vector \<times> vfio_irq" where
  "vfio_add_kvm_msi_virq h n msix v s =
     (if msix \<and> no_kvm_msix h \<or> \<not> msix \<and> no_kvm_msi h then (v, s)
      else
        let (r, s) = event_notifier_init h For_Kvm s in
        if r < 0 then (v, s)
        else
          let v = v\<lparr>kvm_interrupt_fd := r\<rparr>;
              (q, s) = ask h (Add_Msi_Route n) s
          in if q < 0 then (v, event_notifier_cleanup r s)
             else
               let s = acquire (Virq q) s;
                   (e, s) = ask h (Add_Irqfd r q) s
               in if e < 0
                  then (v, event_notifier_cleanup r (discard (Virq q) (act (Release_Virq q) s)))
                  else (v\<lparr>virq := q\<rparr>, acquire (Irqfd r q) s))"

definition vfio_remove_kvm_msi_virq :: "msi_vector \<Rightarrow> vfio_irq \<Rightarrow> msi_vector \<times> vfio_irq" where
  "vfio_remove_kvm_msi_virq v s =
     (let s = discard (Irqfd (kvm_interrupt_fd v) (virq v)) (act (Remove_Irqfd (kvm_interrupt_fd v) (virq v)) s);
          s = discard (Virq (virq v)) (act (Release_Virq (virq v)) s)
      in (v\<lparr>virq := - 1\<rparr>, event_notifier_cleanup (kvm_interrupt_fd v) s))"

definition vfio_update_kvm_msi_virq :: "msi_vector \<Rightarrow> nat \<Rightarrow> vfio_irq \<Rightarrow> vfio_irq" where
  "vfio_update_kvm_msi_virq v n s = act Commit_Routes (act (Update_Msi_Route (virq v) n) s)"

text \<open>
  \<open>vfio_msix_vector_do_use\<close> in the order of its parts: the vector's first use, its KVM route
  (\<open>msg\<close> says whether a message is given), the trigger, and the pending bits.
\<close>

definition use_first :: "vfio_host \<Rightarrow> nat \<Rightarrow> msi_vector \<Rightarrow> vfio_irq \<Rightarrow> msi_vector \<times> vfio_irq" where
  "use_first h nr v s =
     (if in_use v then (v, s)
      else
        let (r, s) = event_notifier_init h For_Vector s in
        (v\<lparr>virq := - 1, interrupt_fd := if r < 0 then interrupt_fd v else r, in_use := True\<rparr>,
         act (Msix_Vector_Use nr) s))"

definition use_route :: "vfio_host \<Rightarrow> nat \<Rightarrow> bool \<Rightarrow> msi_vector \<Rightarrow> vfio_irq \<Rightarrow> msi_vector \<times> vfio_irq" where
  "use_route h nr msg v s =
     (if virq v \<ge> 0
      then if \<not> msg then vfio_remove_kvm_msi_virq v s else (v, vfio_update_kvm_msi_virq v nr s)
      else if msg then vfio_add_kvm_msi_virq h nr True v s else (v, s))"

definition use_trigger :: "vfio_host \<Rightarrow> nat \<Rightarrow> vfio_irq \<Rightarrow> vfio_fault + vfio_irq" where
  "use_trigger h nr s =
     (if nr_vectors s < nr + 1
      then bindR (vfio_enable_vectors h True ((vfio_disable_irqindex IRQ_MSIX s)\<lparr>nr_vectors := nr + 1\<rparr>))
             (\<lambda>(_, s). Inr s)
      else
        let v = msi_vectors s ! nr in
        Inr (snd (set_trigger h IRQ_MSIX nr
               [if virq v \<ge> 0 then kvm_interrupt_fd v else interrupt_fd v] s)))"

definition use_pending :: "nat \<Rightarrow> vfio_irq \<Rightarrow> vfio_irq" where
  "use_pending nr s =
     (let s = s\<lparr>msix_pending := (msix_pending s)[nr := False]\<rparr> in
      if True \<in> set (take (nr_vectors s) (msix_pending s)) then s else act (Pba_Enabled False) s)"

definition vfio_msix_vector_do_use ::
    "vfio_host \<Rightarrow> nat \<Rightarrow> bool \<Rightarrow> irq_handler option \<Rightarrow> vfio_irq \<Rightarrow> vfio_fault + vfio_irq" where
  "vfio_msix_vector_do_use h nr msg handler s =
     (if length (msi_vectors s) \<le> nr then Inl Out_Of_Bounds
      else
        let (v, s) = use_first h nr (msi_vectors s ! nr) s;
            s = qemu_set_fd_handler (interrupt_fd v) handler s;
            (v, s) = use_route h nr msg v s;
            s = s\<lparr>msi_vectors := (msi_vectors s)[nr := v]\<rparr>
        in bindR (use_trigger h nr s) (\<lambda>s. Inr (use_pending nr s)))"

definition vfio_msix_vector_use :: "vfio_host \<Rightarrow> nat \<Rightarrow> vfio_irq \<Rightarrow> vfio_fault + vfio_irq" where
  "vfio_msix_vector_use h nr s = vfio_msix_vector_do_use h nr True (Some (Msi_Interrupt nr)) s"

definition vfio_msix_vector_release :: "vfio_host \<Rightarrow> nat \<Rightarrow> vfio_irq \<Rightarrow> vfio_fault + vfio_irq" where
  "vfio_msix_vector_release h nr s =
     (if length (msi_vectors s) \<le> nr then Inl Out_Of_Bounds
      else
        let v = msi_vectors s ! nr in
        Inr (if virq v \<ge> 0 then snd (set_trigger h IRQ_MSIX nr [interrupt_fd v] s) else s))"

section \<open>Changing the mode\<close>

text \<open>One vector of the loop of \<open>vfio_msi_disable_common\<close>, and of the failure path of \<open>vfio_msi_enable\<close>.\<close>

definition free_vector :: "nat \<Rightarrow> vfio_irq \<Rightarrow> vfio_fault + vfio_irq" where
  "free_vector i s =
     (if length (msi_vectors s) \<le> i then Inl Out_Of_Bounds
      else
        let v = msi_vectors s ! i;
            (v, s) = (if virq v \<ge> 0 then vfio_remove_kvm_msi_virq v s else (v, s));
            s = s\<lparr>msi_vectors := (msi_vectors s)[i := v]\<rparr>
        in Inr (event_notifier_cleanup (interrupt_fd v) (qemu_set_fd_handler (interrupt_fd v) None s)))"

definition free_used_vector :: "nat \<Rightarrow> vfio_irq \<Rightarrow> vfio_fault + vfio_irq" where
  "free_used_vector i s =
     (if length (msi_vectors s) \<le> i then Inl Out_Of_Bounds
      else if in_use (msi_vectors s ! i) then free_vector i s else Inr s)"

definition msi_disable_common_with ::
    "(vfio_irq \<Rightarrow> vfio_fault + vfio_irq) \<Rightarrow> vfio_host \<Rightarrow> vfio_irq \<Rightarrow> vfio_fault + vfio_irq" where
  "msi_disable_common_with dis h s =
     bindR (foldR free_used_vector [0..<nr_vectors s] s) (\<lambda>s.
       bindR (intx_enable_with dis h (s\<lparr>msi_vectors := [], nr_vectors := 0, interrupt := INT_NONE\<rparr>))
         (\<lambda>(_, s). Inr s))"

definition release_used_vector :: "vfio_host \<Rightarrow> nat \<Rightarrow> vfio_irq \<Rightarrow> vfio_fault + vfio_irq" where
  "release_used_vector h i s =
     (if length (msi_vectors s) \<le> i then Inl Out_Of_Bounds
      else if in_use (msi_vectors s ! i)
      then bindR (vfio_msix_vector_release h i s) (\<lambda>s. Inr (act (Msix_Vector_Unuse i) s))
      else Inr s)"

text \<open>
  \<open>msix_unset_vector_notifiers\<close> runs the release notifier for the unmasked vectors,
  \<open>msix_set_vector_notifiers\<close> the use notifier.
\<close>

definition msix_unset_vector_notifiers :: "vfio_host \<Rightarrow> vfio_irq \<Rightarrow> vfio_fault + vfio_irq" where
  "msix_unset_vector_notifiers h s =
     foldR (vfio_msix_vector_release h) (unmasked h (calls s)) (act Unset_Vector_Notifiers s)"

definition msix_set_vector_notifiers :: "vfio_host \<Rightarrow> vfio_irq \<Rightarrow> vfio_fault + vfio_irq" where
  "msix_set_vector_notifiers h s =
     foldR (vfio_msix_vector_use h) (unmasked h (calls s)) (act Set_Vector_Notifiers s)"

definition msix_disable_with ::
    "(vfio_irq \<Rightarrow> vfio_fault + vfio_irq) \<Rightarrow> vfio_host \<Rightarrow> vfio_irq \<Rightarrow> vfio_fault + vfio_irq" where
  "msix_disable_with dis h s =
     bindR (msix_unset_vector_notifiers h s) (\<lambda>s.
     bindR (foldR (release_used_vector h) [0..<nr_vectors s] s) (\<lambda>s.
     bindR (msi_disable_common_with dis h
              (if nr_vectors s \<noteq> 0 then vfio_disable_irqindex IRQ_MSIX s else s)) (\<lambda>s.
     Inr (s\<lparr>msix_pending := replicate (msix_entries h) False\<rparr>))))"

definition msi_disable_with ::
    "(vfio_irq \<Rightarrow> vfio_fault + vfio_irq) \<Rightarrow> vfio_host \<Rightarrow> vfio_irq \<Rightarrow> vfio_fault + vfio_irq" where
  "msi_disable_with dis h s = msi_disable_common_with dis h (vfio_disable_irqindex IRQ_MSI s)"

fun disable_interrupts :: "nat \<Rightarrow> vfio_host \<Rightarrow> vfio_irq \<Rightarrow> vfio_fault + vfio_irq" where
  "disable_interrupts 0 h s = Inl Out_Of_Fuel"
| "disable_interrupts (Suc n) h s =
     bindR (if interrupt s = INT_MSIX then msix_disable_with (disable_interrupts n h) h s
            else if interrupt s = INT_MSI then msi_disable_with (disable_interrupts n h) h s
            else Inr s)
       (\<lambda>s. if interrupt s = INT_INTx then Inr (vfio_intx_disable s) else Inr s)"

definition vfio_disable_interrupts :: "vfio_host \<Rightarrow> vfio_irq \<Rightarrow> vfio_fault + vfio_irq" where
  "vfio_disable_interrupts h s = disable_interrupts 2 h s"

definition vfio_intx_enable :: "vfio_host \<Rightarrow> vfio_irq \<Rightarrow> vfio_fault + int \<times> vfio_irq" where
  "vfio_intx_enable h s = intx_enable_with (vfio_disable_interrupts h) h s"

definition vfio_msi_disable :: "vfio_host \<Rightarrow> vfio_irq \<Rightarrow> vfio_fault + vfio_irq" where
  "vfio_msi_disable h s = msi_disable_with (vfio_disable_interrupts h) h s"

definition vfio_msix_disable :: "vfio_host \<Rightarrow> vfio_irq \<Rightarrow> vfio_fault + vfio_irq" where
  "vfio_msix_disable h s = msix_disable_with (vfio_disable_interrupts h) h s"

definition vfio_msix_enable :: "vfio_host \<Rightarrow> vfio_irq \<Rightarrow> vfio_fault + vfio_irq" where
  "vfio_msix_enable h s =
     bindR (vfio_disable_interrupts h s) (\<lambda>s.
     bindR (vfio_msix_vector_do_use h 0 False None
              (s\<lparr>msi_vectors := replicate (msix_entries h) zero_vector, interrupt := INT_MSIX\<rparr>)) (\<lambda>s.
     bindR (vfio_msix_vector_release h 0 s) (msix_set_vector_notifiers h)))"

text \<open>
  \<open>vfio_msi_enable\<close>. The kernel may grant fewer vectors than asked for: then everything is freed and
  the whole set-up runs again with the number granted. \<open>msi_attempt\<close> is one round; its first argument
  bounds the number of rounds.
\<close>

definition setup_vector :: "vfio_host \<Rightarrow> nat \<Rightarrow> vfio_irq \<Rightarrow> vfio_fault + vfio_irq" where
  "setup_vector h i s =
     (if length (msi_vectors s) \<le> i then Inl Out_Of_Bounds
      else
        let v = (msi_vectors s ! i)\<lparr>virq := - 1, in_use := True\<rparr>;
            (r, s) = event_notifier_init h For_Vector s;
            v = (if r < 0 then v else v\<lparr>interrupt_fd := r\<rparr>);
            s = qemu_set_fd_handler (interrupt_fd v) (Some (Msi_Interrupt i)) s;
            (v, s) = vfio_add_kvm_msi_virq h i False v s
        in Inr (s\<lparr>msi_vectors := (msi_vectors s)[i := v]\<rparr>))"

fun msi_attempt :: "nat \<Rightarrow> vfio_host \<Rightarrow> vfio_irq \<Rightarrow> vfio_fault + vfio_irq" where
  "msi_attempt 0 h s = Inl Out_Of_Fuel"
| "msi_attempt (Suc n) h s =
     bindR (foldR (setup_vector h) [0..<nr_vectors s]
              (s\<lparr>msi_vectors := replicate (nr_vectors s) zero_vector\<rparr>)) (\<lambda>s.
     bindR (vfio_enable_vectors h False (s\<lparr>interrupt := INT_MSI\<rparr>)) (\<lambda>(ret, s).
       if ret = 0 then Inr s
       else bindR (foldR free_vector [0..<nr_vectors s] s) (\<lambda>s.
         let s = s\<lparr>msi_vectors := []\<rparr> in
         if ret > 0 \<and> ret \<noteq> int (nr_vectors s)
         then msi_attempt n h (s\<lparr>nr_vectors := nat ret\<rparr>)
         else Inr (s\<lparr>nr_vectors := 0, interrupt := INT_NONE\<rparr>))))"

definition vfio_msi_enable :: "vfio_host \<Rightarrow> vfio_irq \<Rightarrow> vfio_fault + vfio_irq" where
  "vfio_msi_enable h s =
     bindR (vfio_disable_interrupts h s) (\<lambda>s.
       let (k, s) = ask h Nr_Vectors_Allocated s
       in msi_attempt (Suc (nat k)) h (s\<lparr>nr_vectors := nat k\<rparr>))"

definition update_vector :: "nat \<Rightarrow> vfio_irq \<Rightarrow> vfio_fault + vfio_irq" where
  "update_vector i s =
     (if length (msi_vectors s) \<le> i then Inl Out_Of_Bounds
      else
        let v = msi_vectors s ! i in
        Inr (if \<not> in_use v \<or> virq v < 0 then s else vfio_update_kvm_msi_virq v i s))"

definition vfio_update_msi :: "vfio_irq \<Rightarrow> vfio_fault + vfio_irq" where
  "vfio_update_msi s = foldR update_vector [0..<nr_vectors s] s"

end
