(* ===== verification/Vfio_Accounting.thy ===== *)
theory Vfio_Accounting
  imports Vfio_Irq
begin

text \<open>
  What the interrupt code holds of the host, in every mode: each event descriptor, KVM route and irqfd
  obtained is owned by the INTx state or by one used vector, and nothing else is held. The lemmas
  account for one function after the other; \<open>R\<close> is always what the rest of the device holds.
\<close>

section \<open>Ownership\<close>

text \<open>
  A used vector owns its interrupt descriptor, unless none could be had: \<open>event_notifier_init\<close> failed,
  and the zeroed vector went into use with descriptor 0, which is not its own.
\<close>

definition vec_res :: "msi_vector \<Rightarrow> resource list" where
  "vec_res v =
     (if in_use v
      then (if interrupt_fd v = 0 then [] else [Fd (interrupt_fd v)]) @
        (if virq v \<ge> 0
         then [Fd (kvm_interrupt_fd v), Virq (virq v), Irqfd (kvm_interrupt_fd v) (virq v)] else [])
      else [])"

definition vecs_res :: "msi_vector list \<Rightarrow> resource multiset" where
  "vecs_res vs = mset (concat (map vec_res vs))"

definition intx_res :: "vfio_irq \<Rightarrow> resource list" where
  "intx_res s =
     (if interrupt s = INT_INTx
      then Fd (intx_fd s) # (if kvm_accel s then [Fd (unmask_fd s)] else []) else [])"

definition handler_fds :: "vfio_irq \<Rightarrow> int set" where
  "handler_fds s =
     (if interrupt s = INT_INTx then {intx_fd s} else {})
     \<union> interrupt_fd ` {v \<in> set (msi_vectors s). in_use v}"

lemma vecs_res_simps [simp]:
  "vecs_res [] = {#}" "vecs_res (v # vs) = mset (vec_res v) + vecs_res vs"
  "vecs_res (vs @ ws) = vecs_res vs + vecs_res ws"
  by (simp_all add: vecs_res_def)

lemma vecs_res_split: "vecs_res vs = vecs_res (take n vs) + vecs_res (drop n vs)"
  by (metis append_take_drop_id vecs_res_simps(3))

lemma vec_res_zero [simp]: "vec_res zero_vector = []"
  by (simp add: vec_res_def zero_vector_def)

lemma vecs_res_zero [simp]: "vecs_res (replicate n zero_vector) = {#}"
  by (induction n) auto

text \<open>A vector taken out of the list, and put back changed.\<close>

definition others :: "nat \<Rightarrow> msi_vector list \<Rightarrow> resource multiset" where
  "others i vs = vecs_res (take i vs) + vecs_res (drop (Suc i) vs)"

lemma vecs_res_nth: "i < length vs \<Longrightarrow> vecs_res vs = others i vs + mset (vec_res (vs ! i))"
  using arg_cong [where f = vecs_res, OF id_take_nth_drop [of i vs]] by (simp add: others_def)

lemma vecs_res_update: "i < length vs \<Longrightarrow> vecs_res (vs[i := v]) = others i vs + mset (vec_res v)"
  by (simp add: upd_conv_take_nth_drop others_def)

text \<open>The fields that the calls into the host do not change.\<close>

definition core :: "vfio_irq \<Rightarrow> irq_mode \<times> bool \<times> int \<times> int \<times> msi_vector list \<times> nat" where
  "core s = (interrupt s, kvm_accel s, intx_fd s, unmask_fd s, msi_vectors s, nr_vectors s)"

lemma intx_res_core: "core s = core t \<Longrightarrow> intx_res s = intx_res t"
  by (simp add: core_def intx_res_def)

lemma core_calls [simp]:
  "core (act c s) = core s" "core (snd (ask h c s)) = core s" "core (acquire r s) = core s"
  "core (discard r s) = core s" "core (event_notifier_cleanup fd s) = core s"
  "core (qemu_set_fd_handler fd f s) = core s" "core (snd (event_notifier_init h k s)) = core s"
  "core (snd (set_trigger h i st fds s)) = core s" "core (vfio_disable_irqindex i s) = core s"
  "core (vfio_mmap_set_enabled b s) = core s"
  by (simp_all add: core_def call_defs Let_def)

lemma held_calls [simp]:
  "held (act c s) = held s" "held (snd (ask h c s)) = held s" "held (acquire r s) = r # held s"
  "held (discard r s) = remove1 r (held s)"
  "held (event_notifier_cleanup fd s) = remove1 (Fd fd) (held s)"
  "held (qemu_set_fd_handler fd f s) = held s"
  "held (snd (set_trigger h i st fds s)) = held s" "held (vfio_disable_irqindex i s) = held s"
  by (simp_all add: call_defs Let_def)

lemma handlers_calls [simp]:
  "handlers (act c s) = handlers s" "handlers (snd (ask h c s)) = handlers s"
  "handlers (acquire r s) = handlers s" "handlers (discard r s) = handlers s"
  "handlers (event_notifier_cleanup fd s) = handlers s"
  "handlers (qemu_set_fd_handler fd f s) = (handlers s)(fd := f)"
  "handlers (snd (event_notifier_init h k s)) = handlers s"
  "handlers (snd (set_trigger h i st fds s)) = handlers s"
  "handlers (vfio_disable_irqindex i s) = handlers s"
  by (simp_all add: call_defs Let_def)

lemma trigger_calls [simp]:
  "trigger (act c s) = trigger s" "trigger (snd (ask h c s)) = trigger s"
  "trigger (acquire r s) = trigger s" "trigger (discard r s) = trigger s"
  "trigger (event_notifier_cleanup fd s) = trigger s"
  "trigger (qemu_set_fd_handler fd f s) = trigger s"
  "trigger (snd (event_notifier_init h k s)) = trigger s"
  "trigger (vfio_disable_irqindex i s) = (trigger s)(i := \<lambda>_. - 1)"
  by (simp_all add: call_defs Let_def)

lemma init_cases:
  assumes "event_notifier_init h k s = (r, t)"
  obtains "r < 0" and "held t = held s" and "core t = core s" and "handlers t = handlers s"
    and "trigger t = trigger s"
  | "0 \<le> r" and "held t = Fd r # held s" and "core t = core s" and "handlers t = handlers s"
    and "trigger t = trigger s"
proof (cases "r < 0")
  case True
  with assms have "held t = held s" by (auto simp: call_defs Let_def)
  with True assms show thesis using that(1) by (metis core_calls(7) handlers_calls(7) trigger_calls(7) snd_conv)
next
  case False
  with assms have "held t = Fd r # held s" by (auto simp: call_defs Let_def)
  with False assms show thesis using that(2) by (metis core_calls(7) handlers_calls(7) trigger_calls(7) snd_conv not_less)
qed

lemma ask_same:
  assumes "ask h c s = (r, t)"
  shows "core t = core s" and "held t = held s" and "handlers t = handlers s" and "trigger t = trigger s"
  using assms by (metis core_calls(2) snd_conv, metis held_calls(2) snd_conv,
      metis handlers_calls(2) snd_conv, metis trigger_calls(2) snd_conv)

section \<open>The host\<close>

text \<open>
  What the code relies on: a new event descriptor is never 0, which QEMU has open from its start
  (creating one may fail at any time), the MSI-X core calls the notifiers for vectors of the device,
  and \<open>VFIO_DEVICE_SET_IRQS\<close> grants at most what was asked for.
\<close>

definition host_ok :: "vfio_host \<Rightarrow> bool" where
  "host_ok h \<longleftrightarrow> (\<forall>l k. answer h l (Notifier_Init k) \<noteq> 0)
     \<and> (\<forall>l. set (unmasked h l) \<subseteq> {..<msix_entries h}) \<and> 0 < msix_entries h
     \<and> (\<forall>l fds. answer h l (Set_Trigger IRQ_MSI 0 fds) \<le> int (length fds))"

text \<open>Descriptor 0 is never among what is held.\<close>

abbreviation no_zero :: "vfio_irq \<Rightarrow> bool" where
  "no_zero s \<equiv> Fd 0 \<notin> set (held s)"

lemma no_zero_mset: "no_zero s \<longleftrightarrow> Fd 0 \<notin># mset (held s)"
  by simp

lemma host_ok_notifier:
  assumes "host_ok h" and "event_notifier_init h k s = (r, t)"
  shows "r \<noteq> 0" and "no_zero s \<Longrightarrow> no_zero t"
proof -
  have r: "r = answer h (calls s) (Notifier_Init k)"
    using assms(2) by (auto simp: event_notifier_init_def ask_def Let_def)
  with assms(1) show nz: "r \<noteq> 0" by (simp add: host_ok_def)
  from assms(2) show "no_zero s \<Longrightarrow> no_zero t" using nz by (cases rule: init_cases) auto
qed

section \<open>KVM routes\<close>

lemma add_virq_accounted:
  assumes "host_ok h" and "vfio_add_kvm_msi_virq h n m v s = (v', t)" and "in_use v" and "virq v < 0"
    and "mset (held s) = R + mset (vec_res v)" and "no_zero s"
  shows "mset (held t) = R + mset (vec_res v')" and "core t = core s" and "handlers t = handlers s"
    and "trigger t = trigger s" and "in_use v'" and "interrupt_fd v' = interrupt_fd v" and "no_zero t"
proof -
  have "mset (held t) = R + mset (vec_res v') \<and> core t = core s \<and> handlers t = handlers s
     \<and> trigger t = trigger s \<and> in_use v' \<and> interrupt_fd v' = interrupt_fd v \<and> no_zero t"
  proof (cases "m \<and> no_kvm_msix h \<or> \<not> m \<and> no_kvm_msi h")
    case True
    then show ?thesis using assms(2-) by (auto simp: vfio_add_kvm_msi_virq_def)
  next
    case False
    obtain r s1 where i: "event_notifier_init h For_Kvm s = (r, s1)" by (meson surj_pair)
    obtain q s2 where q: "ask h (Add_Msi_Route n) s1 = (q, s2)" by (meson surj_pair)
    obtain e s3 where e: "ask h (Add_Irqfd r q) (acquire (Virq q) s2) = (e, s3)" by (meson surj_pair)
    note parts = ask_same [OF q] ask_same [OF e]
    note nz = host_ok_notifier [OF assms(1) i]
    from i show ?thesis
    proof (cases rule: init_cases)
      case 1
      with assms(2-) False i show ?thesis by (simp add: vfio_add_kvm_msi_virq_def)
    next
      case 2
      with assms(2-) False i q e parts nz show ?thesis
        by (auto simp: vfio_add_kvm_msi_virq_def vec_res_def Let_def split: if_splits)
    qed
  qed
  then show "mset (held t) = R + mset (vec_res v')" and "core t = core s" and "handlers t = handlers s"
    and "trigger t = trigger s" and "in_use v'" and "interrupt_fd v' = interrupt_fd v" and "no_zero t" by auto
qed

lemma no_zero_less: "mset (held t) \<subseteq># mset (held s) \<Longrightarrow> no_zero s \<Longrightarrow> no_zero t"
  using mset_subset_eqD [of "mset (held t)" "mset (held s)" "Fd 0"] by auto

lemma remove_virq_accounted:
  assumes "vfio_remove_kvm_msi_virq v s = (v', t)" and "in_use v" and "virq v \<ge> 0"
    and "mset (held s) = R + mset (vec_res v)" and "no_zero s"
  shows "mset (held t) = R + mset (vec_res v')" and "core t = core s" and "handlers t = handlers s"
    and "trigger t = trigger s" and "v' = v\<lparr>virq := - 1\<rparr>" and "no_zero t"
proof -
  show held: "mset (held t) = R + mset (vec_res v')" and "core t = core s" and "handlers t = handlers s"
    and "trigger t = trigger s" and v': "v' = v\<lparr>virq := - 1\<rparr>"
    using assms(1-4) by (auto simp: vfio_remove_kvm_msi_virq_def vec_res_def Let_def)
  have "mset (vec_res v') \<subseteq># mset (vec_res v)" by (simp add: v' vec_res_def)
  then have "mset (held t) \<subseteq># mset (held s)" using held assms(4) by simp
  then show "no_zero t" using assms(5) by (rule no_zero_less)
qed

section \<open>Freeing the vectors\<close>

definition shell :: "vfio_irq \<Rightarrow> irq_mode \<times> bool \<times> int \<times> int \<times> nat" where
  "shell s = (interrupt s, kvm_accel s, intx_fd s, unmask_fd s, nr_vectors s)"

lemma shell_core: "core s = core t \<Longrightarrow> shell s = shell t"
  by (simp add: core_def shell_def)

lemma vectors_core: "core s = core t \<Longrightarrow> msi_vectors s = msi_vectors t"
  by (simp add: core_def)

lemma intx_res_shell: "shell s = shell t \<Longrightarrow> intx_res s = intx_res t"
  by (simp add: shell_def intx_res_def)

lemma free_vector_accounted:
  assumes "i < length (msi_vectors s)" and "in_use (msi_vectors s ! i)"
    and "mset (held s) = R + mset (vec_res (msi_vectors s ! i))" and "no_zero s"
  obtains t v where "free_vector i s = Inr t" and "mset (held t) = R"
    and "msi_vectors t = (msi_vectors s)[i := v]" and "shell t = shell s"
    and "handlers t = (handlers s)(interrupt_fd (msi_vectors s ! i) := None)"
    and "trigger t = trigger s"
proof -
  let ?v = "msi_vectors s ! i"
  obtain v s1 where rm: "(if virq ?v \<ge> 0 then vfio_remove_kvm_msi_virq ?v s else (?v, s)) = (v, s1)"
    by (meson surj_pair)
  let ?fd = "if interrupt_fd ?v = 0 then {#} else {#Fd (interrupt_fd ?v)#}"
  have s1: "mset (held s1) = R + ?fd \<and> core s1 = core s \<and> handlers s1 = handlers s
      \<and> trigger s1 = trigger s \<and> interrupt_fd v = interrupt_fd ?v"
  proof (cases "virq ?v \<ge> 0")
    case True
    with rm have "vfio_remove_kvm_msi_virq ?v s = (v, s1)" by simp
    note rv = remove_virq_accounted [OF this assms(2) True assms(3,4)]
    with assms(2) show ?thesis by (simp add: vec_res_def)
  next
    case False
    with rm assms show ?thesis by (auto simp: vec_res_def)
  qed
  let ?t = "event_notifier_cleanup (interrupt_fd v) (qemu_set_fd_handler (interrupt_fd v) None
    (s1\<lparr>msi_vectors := (msi_vectors s1)[i := v]\<rparr>))"
  have vs: "msi_vectors s1 = msi_vectors s" using s1 by (auto intro: vectors_core)
  have "free_vector i s = Inr ?t"
    using assms(1) rm by (simp add: free_vector_def Let_def)
  moreover have "mset (held ?t) = R"
  proof (cases "interrupt_fd ?v = 0")
    case True
    have "Fd 0 \<notin># R" using assms(3,4) no_zero_mset by (metis union_iff)
    then show ?thesis using s1 True by (simp add: diff_single_trivial)
  qed (use s1 in simp)
  moreover have "msi_vectors ?t = (msi_vectors s)[i := v]" using vs by (simp add: call_defs)
  moreover have "shell ?t = shell s"
    using s1 by (simp add: call_defs shell_def core_def)
  moreover have "handlers ?t = (handlers s)(interrupt_fd ?v := None)" using s1 by simp
  moreover have "trigger ?t = trigger s" using s1 by simp
  ultimately show thesis using that by blast
qed

text \<open>The loop over the first \<open>n\<close> vectors frees those of them that are in use.\<close>

lemma free_vectors_loop:
  assumes "n \<le> length (msi_vectors s)" and "mset (held s) = R + vecs_res (msi_vectors s)" and "no_zero s"
  shows "\<exists>t. foldR free_used_vector [0..<n] s = Inr t \<and> mset (held t) = R + vecs_res (drop n (msi_vectors s))
    \<and> length (msi_vectors t) = length (msi_vectors s) \<and> drop n (msi_vectors t) = drop n (msi_vectors s)
    \<and> shell t = shell s \<and> trigger t = trigger s
    \<and> handlers t = (\<lambda>fd. if fd \<in> interrupt_fd ` {v \<in> set (take n (msi_vectors s)). in_use v}
                         then None else handlers s fd)"
  using assms(1)
proof (induction n)
  case 0
  then show ?case using assms(2) by simp
next
  case (Suc n)
  let ?vs = "msi_vectors s"
  from Suc obtain t where t: "foldR free_used_vector [0..<n] s = Inr t"
      "mset (held t) = R + vecs_res (drop n ?vs)" "length (msi_vectors t) = length ?vs"
      "drop n (msi_vectors t) = drop n ?vs" "shell t = shell s" "trigger t = trigger s"
      "handlers t = (\<lambda>fd. if fd \<in> interrupt_fd ` {v \<in> set (take n ?vs). in_use v} then None else handlers s fd)"
    by auto
  from Suc.prems have n: "n < length ?vs" by simp
  have dn: "drop n ?vs = ?vs ! n # drop (Suc n) ?vs" using n by (rule Cons_nth_drop_Suc [symmetric])
  have nth: "msi_vectors t ! n = ?vs ! n"
    using t(3,4) n by (metis Cons_nth_drop_Suc list.inject)
  have ds: "drop (Suc n) (msi_vectors t) = drop (Suc n) ?vs"
    using t(4) by (metis drop_Suc tl_drop)
  have tk: "take (Suc n) ?vs = take n ?vs @ [?vs ! n]" using n by (rule take_Suc_conv_app_nth)
  show ?case
  proof (cases "in_use (?vs ! n)")
    case False
    have "free_used_vector n t = Inr t" using False n t(3) nth by (simp add: free_used_vector_def)
    moreover have "mset (held t) = R + vecs_res (drop (Suc n) ?vs)"
      using t(2) False by (simp add: dn vec_res_def)
    moreover have "handlers t = (\<lambda>fd. if fd \<in> interrupt_fd ` {v \<in> set (take (Suc n) ?vs). in_use v}
        then None else handlers s fd)"
      unfolding t(7) tk using False by (intro ext) auto
    ultimately show ?thesis using t ds by (auto simp: foldR_append)
  next
    case True
    have h: "mset (held t) = (R + vecs_res (drop (Suc n) ?vs)) + mset (vec_res (msi_vectors t ! n))"
      using t(2) nth by (simp add: dn ac_simps)
    have "mset (held t) \<subseteq># mset (held s)"
      unfolding t(2) assms(2) by (simp add: vecs_res_split [of ?vs n])
    then have nz: "no_zero t" using assms(3) by (rule no_zero_less)
    obtain u v where u: "free_vector n t = Inr u" "mset (held u) = R + vecs_res (drop (Suc n) ?vs)"
        "msi_vectors u = (msi_vectors t)[n := v]" "shell u = shell t"
        "handlers u = (handlers t)(interrupt_fd (msi_vectors t ! n) := None)" "trigger u = trigger t"
      using free_vector_accounted [of n t, OF _ _ h nz] n t(3) True nth by auto
    have "free_used_vector n t = Inr u" using u(1) True n t(3) nth by (simp add: free_used_vector_def)
    moreover have "handlers u = (\<lambda>fd. if fd \<in> interrupt_fd ` {v \<in> set (take (Suc n) ?vs). in_use v}
        then None else handlers s fd)"
      unfolding u(5) t(7) tk nth using True by (intro ext) auto
    moreover have "drop (Suc n) (msi_vectors u) = drop (Suc n) ?vs"
      using u(3) ds by simp
    ultimately show ?thesis using t u by (auto simp: foldR_append)
  qed
qed

lemma free_vectors_loop_all:
  assumes "n \<le> length (msi_vectors s)" and "mset (held s) = R + vecs_res (msi_vectors s)"
    and "no_zero s" and "\<forall>v \<in> set (msi_vectors s). in_use v"
  shows "foldR free_vector [0..<n] s = foldR free_used_vector [0..<n] s"
  using assms(1)
proof (induction n)
  case 0
  then show ?case by simp
next
  case (Suc n)
  from Suc.prems free_vectors_loop [OF _ assms(2,3), of n] obtain t where
    t: "foldR free_used_vector [0..<n] s = Inr t" "length (msi_vectors t) = length (msi_vectors s)"
      "drop n (msi_vectors t) = drop n (msi_vectors s)" by auto
  from Suc.prems have n: "n < length (msi_vectors s)" by simp
  have "msi_vectors t ! n = msi_vectors s ! n"
    using t(2,3) n by (metis Cons_nth_drop_Suc list.inject)
  with assms(4) n have "in_use (msi_vectors t ! n)" by auto
  then have "free_used_vector n t = free_vector n t" using t(2) n by (simp add: free_used_vector_def)
  with Suc.IH n t(1) show ?case
    by (cases "free_vector n t") (simp_all add: foldR_append)
qed

section \<open>Using vectors\<close>

text \<open>A vector goes into use: with a descriptor of its own, or with 0 when it was unused and zeroed.\<close>

lemma use_first_accounted:
  assumes "host_ok h" and "use_first h nr v s = (v', t)" and "mset (held s) = R + mset (vec_res v)"
    and "no_zero s" and "\<not> in_use v \<Longrightarrow> interrupt_fd v = 0"
  shows "mset (held t) = R + mset (vec_res v')" and "core t = core s" and "handlers t = handlers s"
    and "trigger t = trigger s" and "in_use v'" and "in_use v \<Longrightarrow> v' = v" and "no_zero t"
proof -
  have "mset (held t) = R + mset (vec_res v') \<and> core t = core s \<and> handlers t = handlers s
    \<and> trigger t = trigger s \<and> in_use v' \<and> (in_use v \<longrightarrow> v' = v) \<and> no_zero t"
  proof (cases "in_use v")
    case True
    with assms(2-4) show ?thesis by (auto simp: use_first_def)
  next
    case False
    obtain r s1 where i: "event_notifier_init h For_Vector s = (r, s1)" by (meson surj_pair)
    note k = host_ok_notifier [OF assms(1) i]
    from False i assms(2) have v': "v' = v\<lparr>virq := - 1, interrupt_fd := if r < 0 then interrupt_fd v else r,
        in_use := True\<rparr>" "t = act (Msix_Vector_Use nr) s1"
      by (auto simp: use_first_def Let_def)
    from i show ?thesis
    proof (cases rule: init_cases)
      case 1
      with False k assms(3-5) v' show ?thesis by (simp add: vec_res_def)
    next
      case 2
      with False k assms(3-4) v' show ?thesis by (simp add: vec_res_def)
    qed
  qed
  then show "mset (held t) = R + mset (vec_res v')" and "core t = core s" and "handlers t = handlers s"
    and "trigger t = trigger s" and "in_use v'" and "in_use v \<Longrightarrow> v' = v" and "no_zero t" by auto
qed

lemma use_route_accounted:
  assumes "host_ok h" and "use_route h nr m v s = (v', t)" and "in_use v"
    and "mset (held s) = R + mset (vec_res v)" and "no_zero s"
  shows "mset (held t) = R + mset (vec_res v')" and "core t = core s" and "handlers t = handlers s"
    and "trigger t = trigger s" and "in_use v'" and "interrupt_fd v' = interrupt_fd v" and "no_zero t"
proof -
  have "mset (held t) = R + mset (vec_res v') \<and> core t = core s \<and> handlers t = handlers s
    \<and> trigger t = trigger s \<and> in_use v' \<and> interrupt_fd v' = interrupt_fd v \<and> no_zero t"
  proof (cases "virq v \<ge> 0")
    case True
    show ?thesis
    proof (cases m)
      case m: True
      with True assms(2-) show ?thesis
        by (auto simp: use_route_def vfio_update_kvm_msi_virq_def)
    next
      case False
      with True assms(2) have "vfio_remove_kvm_msi_virq v s = (v', t)" by (simp add: use_route_def)
      from remove_virq_accounted [OF this assms(3) True assms(4,5)] assms(3) show ?thesis by simp
    qed
  next
    case False
    then have neg: "virq v < 0" by simp
    show ?thesis
    proof (cases m)
      case True
      with False assms(2) have "vfio_add_kvm_msi_virq h nr True v s = (v', t)" by (simp add: use_route_def)
      from add_virq_accounted [OF assms(1) this assms(3) neg assms(4,5)] show ?thesis by simp
    next
      case m: False
      with False assms(2-) show ?thesis by (auto simp: use_route_def)
    qed
  qed
  then show "mset (held t) = R + mset (vec_res v')" and "core t = core s" and "handlers t = handlers s"
    and "trigger t = trigger s" and "in_use v'" and "interrupt_fd v' = interrupt_fd v" and "no_zero t" by auto
qed

text \<open>Arming changes the trigger of one interrupt index only.\<close>

definition armed_only :: "irq_index \<Rightarrow> (irq_index \<Rightarrow> nat \<Rightarrow> int) \<Rightarrow> bool" where
  "armed_only idx t \<longleftrightarrow> (\<forall>i n. i \<noteq> idx \<longrightarrow> t i n = - 1)"

lemma armed_only_arm: "armed_only idx t \<Longrightarrow> armed_only idx (arm idx st fds t)"
  by (simp add: armed_only_def arm_def)

lemma armed_only_set [simp]:
  "armed_only idx (trigger s) \<Longrightarrow> armed_only idx (trigger (snd (set_trigger h idx st fds s)))"
  by (simp add: set_trigger_def ask_def Let_def armed_only_arm act_def)

lemma armed_only_disable: "armed_only idx t \<Longrightarrow> t(idx := \<lambda>_. - 1) = (\<lambda>_ _. - 1)"
  by (intro ext) (auto simp: armed_only_def)

lemma use_trigger_accounted:
  assumes "nr < length (msi_vectors s)"
  obtains t where "use_trigger h nr s = Inr t" and "held t = held s" and "handlers t = handlers s"
    and "core t = core (s\<lparr>nr_vectors := max (nr_vectors s) (nr + 1)\<rparr>)"
    and "armed_only IRQ_MSIX (trigger s) \<Longrightarrow> armed_only IRQ_MSIX (trigger t)"
proof (cases "nr_vectors s < nr + 1")
  case True
  let ?s = "(vfio_disable_irqindex IRQ_MSIX s)\<lparr>nr_vectors := nr + 1\<rparr>"
  obtain fds where e: "vfio_enable_vectors h True ?s = Inr (set_trigger h IRQ_MSIX 0 fds ?s)"
    using assms by (simp add: vfio_enable_vectors_def call_defs)
  let ?t = "snd (set_trigger h IRQ_MSIX 0 fds ?s)"
  have "use_trigger h nr s = Inr ?t"
    using True e by (simp add: use_trigger_def bindR_def split: prod.splits)
  moreover have "held ?t = held s" "handlers ?t = handlers s" by (simp_all add: call_defs Let_def)
  moreover have "core ?t = core (s\<lparr>nr_vectors := max (nr_vectors s) (nr + 1)\<rparr>)"
    using True by (simp add: core_def call_defs Let_def)
  moreover have "armed_only IRQ_MSIX (trigger s) \<Longrightarrow> armed_only IRQ_MSIX (trigger ?t)"
    by (rule armed_only_set) (simp add: armed_only_def call_defs)
  ultimately show thesis using that by blast
next
  case False
  define fds where "fds = [if virq (msi_vectors s ! nr) \<ge> 0 then kvm_interrupt_fd (msi_vectors s ! nr)
    else interrupt_fd (msi_vectors s ! nr)]"
  let ?t = "snd (set_trigger h IRQ_MSIX nr fds s)"
  from False have "s\<lparr>nr_vectors := max (nr_vectors s) (nr + 1)\<rparr> = s" by (simp add: max_def)
  moreover have "use_trigger h nr s = Inr ?t"
    using False by (simp add: use_trigger_def fds_def Let_def)
  ultimately show thesis by (intro that [of ?t]) simp_all
qed

end
