(* ===== verification/Vfio_Modes.thy ===== *)
theory Vfio_Modes
  imports Vfio_Accounting
begin

text \<open>
  The interrupt modes of a passthrough device and the transitions between them: an invariant for each
  mode, what every operation does to it, and the properties of the interrupt code.
\<close>

section \<open>The invariant of each mode\<close>

definition idle :: "vfio_irq \<Rightarrow> bool" where
  "idle s \<longleftrightarrow> interrupt s = INT_NONE \<and> \<not> kvm_accel s \<and> msi_vectors s = [] \<and> nr_vectors s = 0
     \<and> held s = [] \<and> handlers s = (\<lambda>_. None) \<and> trigger s = (\<lambda>_ _. - 1)"

definition in_intx :: "vfio_irq \<Rightarrow> bool" where
  "in_intx s \<longleftrightarrow> interrupt s = INT_INTx \<and> msi_vectors s = [] \<and> nr_vectors s = 0
     \<and> mset (held s) = mset (intx_res s) \<and> (\<forall>fd. fd \<noteq> intx_fd s \<longrightarrow> handlers s fd = None)
     \<and> armed_only IRQ_INTX (trigger s)"

definition vectors_owned :: "vfio_irq \<Rightarrow> bool" where
  "vectors_owned s \<longleftrightarrow> \<not> kvm_accel s \<and> mset (held s) = vecs_res (msi_vectors s) \<and> no_zero s
     \<and> (\<forall>fd. handlers s fd \<noteq> None \<longrightarrow> fd \<in> interrupt_fd ` {v \<in> set (msi_vectors s). in_use v})"

definition in_msi :: "vfio_irq \<Rightarrow> bool" where
  "in_msi s \<longleftrightarrow> interrupt s = INT_MSI \<and> vectors_owned s \<and> length (msi_vectors s) = nr_vectors s
     \<and> (\<forall>v \<in> set (msi_vectors s). in_use v) \<and> armed_only IRQ_MSI (trigger s)"

definition msix_shape :: "vfio_host \<Rightarrow> vfio_irq \<Rightarrow> bool" where
  "msix_shape h s \<longleftrightarrow> interrupt s = INT_MSIX \<and> vectors_owned s \<and> length (msi_vectors s) = msix_entries h
     \<and> nr_vectors s \<le> msix_entries h \<and> (\<forall>i < msix_entries h. in_use (msi_vectors s ! i) \<longrightarrow> i < nr_vectors s)
     \<and> (\<forall>i < msix_entries h. \<not> in_use (msi_vectors s ! i) \<longrightarrow> interrupt_fd (msi_vectors s ! i) = 0)
     \<and> armed_only IRQ_MSIX (trigger s)"

definition in_msix :: "vfio_host \<Rightarrow> vfio_irq \<Rightarrow> bool" where
  "in_msix h s \<longleftrightarrow> msix_shape h s \<and> 0 < nr_vectors s"

definition accounted :: "vfio_host \<Rightarrow> vfio_irq \<Rightarrow> bool" where
  "accounted h s = (case interrupt s of INT_NONE \<Rightarrow> idle s | INT_INTx \<Rightarrow> in_intx s
     | INT_MSI \<Rightarrow> in_msi s | INT_MSIX \<Rightarrow> in_msix h s)"

lemma accounted_intro:
  "idle s \<Longrightarrow> accounted h s" "in_intx s \<Longrightarrow> accounted h s" "in_msi s \<Longrightarrow> accounted h s"
  "in_msix h s \<Longrightarrow> accounted h s"
  by (simp_all add: accounted_def idle_def in_intx_def in_msi_def in_msix_def msix_shape_def)

definition view :: "vfio_irq \<Rightarrow> _" where
  "view s = (core s, held s, handlers s, trigger s)"

lemma view_act [simp]: "view (act c s) = view s"
  by (simp add: view_def)

lemma view_ask: "ask h c s = (r, t) \<Longrightarrow> view t = view s"
  by (auto simp: ask_def)

lemma view_mmap [simp]: "view (vfio_mmap_set_enabled b s) = view s"
  by (simp add: view_def)

lemma idle_view: "view t = view s \<Longrightarrow> idle t = idle s"
  by (simp add: view_def core_def idle_def)

lemma accounted_view: "view t = view s \<Longrightarrow> accounted h t = accounted h s"
  by (simp add: view_def core_def accounted_def idle_def in_intx_def in_msi_def in_msix_def
      msix_shape_def vectors_owned_def intx_res_def split: irq_mode.splits)

section \<open>INTx\<close>

lemma enable_kvm_intx:
  assumes "intx_fd s = fd" and "\<not> kvm_accel s" and "msi_vectors s = []" and "nr_vectors s = 0"
    and "held s = [Fd fd]" and "\<forall>x. x \<noteq> fd \<longrightarrow> handlers s x = None" and "armed_only IRQ_INTX (trigger s)"
  shows "in_intx ((vfio_intx_enable_kvm h s)\<lparr>interrupt := INT_INTx\<rparr>)"
proof (cases "no_kvm_intx h \<or> \<not> irqfds_enabled h \<or> route_mode (intx_route s) \<noteq> ROUTE_ENABLED
    \<or> \<not> resamplefds_enabled h")
  case True
  with assms show ?thesis by (auto simp: vfio_intx_enable_kvm_def in_intx_def intx_res_def)
next
  case False
  define s0 where "s0 = act Irq_Deassert ((act (Mask_Irqindex IRQ_INTX)
    (qemu_set_fd_handler (intx_fd s) None s))\<lparr>intx_pending := False\<rparr>)"
  have s0: "intx_fd s0 = fd" "\<not> kvm_accel s0" "msi_vectors s0 = []" "nr_vectors s0 = 0"
      "held s0 = [Fd fd]" "\<forall>x. x \<noteq> fd \<longrightarrow> handlers s0 x = None" "armed_only IRQ_INTX (trigger s0)"
    using assms by (simp_all add: s0_def call_defs)
  obtain r s1 where i: "event_notifier_init h For_Unmask s0 = (r, s1)" by (meson surj_pair)
  have unf: "vfio_intx_enable_kvm h s =
      (if r < 0 then kvm_fail s1
       else let s = s1\<lparr>unmask_fd := r\<rparr>;
                (e, s) = ask h (Irqfd_Assign (intx_fd s) (route_irq (intx_route s)) r) s
            in if e \<noteq> 0 then kvm_fail_irqfd s
               else let (e, s) = ask h (Set_Unmask r) s
                    in if e \<noteq> 0 then kvm_fail_vfio s
                       else (act (Unmask_Irqindex IRQ_INTX) s)\<lparr>kvm_accel := True\<rparr>)"
    using False i by (simp add: vfio_intx_enable_kvm_def s0_def Let_def)
  from i show ?thesis
  proof (cases rule: init_cases)
    case 1
    with s0 unf show ?thesis
      by (auto simp: in_intx_def intx_res_def kvm_fail_def call_defs core_def)
  next
    case 2
    with s0 unf show ?thesis
      by (auto simp: in_intx_def intx_res_def kvm_fail_def kvm_fail_irqfd_def kvm_fail_vfio_def
          call_defs core_def Let_def)
  qed
qed

lemma enable_kvm_mode: "interrupt s = m \<Longrightarrow> interrupt (vfio_intx_enable_kvm h s) = m"
  by (simp add: vfio_intx_enable_kvm_def kvm_fail_def kvm_fail_irqfd_def kvm_fail_vfio_def call_defs
      Let_def split_def)

lemma intx_setup_idle:
  assumes "idle s" and made: "intx_setup h pin s = (q, t)"
  shows "idle t \<or> in_intx t"
proof -
  define s2 where "s2 = act (Set_Interrupt_Pin pin) (s\<lparr>intx_pin := pin - 1\<rparr>)"
  define s3 where "s3 = (if irqfds_enabled h \<and> resamplefds_enabled h
    then s2\<lparr>intx_route := routing h (calls s2) (intx_pin s2)\<rparr> else s2)"
  have s3: "idle s3" using assms(1) by (simp add: s3_def s2_def idle_def act_def)
  obtain r s4 where i: "event_notifier_init h For_Intx s3 = (r, s4)" by (meson surj_pair)
  have unf: "intx_setup h pin s = (if r < 0 then (r, s4)
     else let s = qemu_set_fd_handler r (Some Intx_Interrupt) (s4\<lparr>intx_fd := r\<rparr>);
              (e, s) = set_trigger h IRQ_INTX 0 [r] s
          in if e \<noteq> 0 then (min e (- 1), event_notifier_cleanup r (qemu_set_fd_handler r None s))
             else (0, (vfio_intx_enable_kvm h s)\<lparr>interrupt := INT_INTx\<rparr>))"
    using i unfolding intx_setup_def s2_def s3_def by (simp only: Let_def prod.case)
  from i show ?thesis
  proof (cases rule: init_cases)
    case 1
    then have "idle s4" using s3 by (simp add: idle_def core_def)
    with 1 unf made show ?thesis by auto
  next
    case 2
    define s5 where "s5 = qemu_set_fd_handler r (Some Intx_Interrupt) (s4\<lparr>intx_fd := r\<rparr>)"
    obtain e s6 where e: "set_trigger h IRQ_INTX 0 [r] s5 = (e, s6)" by (meson surj_pair)
    have s5: "interrupt s5 = INT_NONE" "intx_fd s5 = r" "\<not> kvm_accel s5" "msi_vectors s5 = []" "nr_vectors s5 = 0"
      "held s5 = [Fd r]" "\<forall>x. x \<noteq> r \<longrightarrow> handlers s5 x = None" "trigger s5 = (\<lambda>_ _. - 1)"
      using 2 s3 by (simp_all add: s5_def idle_def core_def call_defs)
    have c6: "core s6 = core s5" "held s6 = held s5" "handlers s6 = handlers s5"
      using e core_calls(8) [of h IRQ_INTX 0 "[r]" s5] by (auto simp: call_defs Let_def)
    have t6: "armed_only IRQ_INTX (trigger s6)"
      using armed_only_set [of IRQ_INTX s5 h 0 "[r]"] e s5(8) by (simp add: armed_only_def)
    show ?thesis
    proof (cases "e = 0")
      case True
      have "in_intx ((vfio_intx_enable_kvm h s6)\<lparr>interrupt := INT_INTx\<rparr>)"
        using c6 s5 t6 by (intro enable_kvm_intx) (simp_all add: core_def)
      with True 2 e unf made show ?thesis by (simp add: s5_def)
    next
      case False
      then have "trigger s6 = trigger s5" using e by (auto simp: call_defs Let_def)
      then have "idle (event_notifier_cleanup r (qemu_set_fd_handler r None s6))"
        using c6 s5 by (auto simp: idle_def core_def call_defs)
      with False 2 e unf made show ?thesis by (auto simp: s5_def)
    qed
  qed
qed

text \<open>What is called for \<open>vfio_disable_interrupts\<close> does not matter when nothing is enabled.\<close>

lemma intx_enable_idle:
  assumes "idle s"
  obtains r t where "\<And>dis. (\<And>u. idle u \<Longrightarrow> dis u = Inr u) \<Longrightarrow> intx_enable_with dis h s = Inr (r, t)"
    and "idle t \<or> in_intx t"
proof -
  obtain v s1 where v: "ask h Read_Interrupt_Pin s = (v, s1)" by (meson surj_pair)
  have s1: "idle s1" using idle_view [OF view_ask [OF v]] assms(1) by simp
  obtain r t where rt: "intx_setup h (nat (v mod 256)) s1 = (r, t)" by (meson surj_pair)
  show thesis
  proof (cases "nat (v mod 256) = 0")
    case True
    then show ?thesis using v s1 that by (simp add: intx_enable_with_def)
  next
    case False
    then have "intx_enable_with dis h s = Inr (r, t)" if "\<And>u. idle u \<Longrightarrow> dis u = Inr u" for dis
      using v that [OF s1] rt by (simp add: intx_enable_with_def)
    then show ?thesis using intx_setup_idle [OF s1 rt] that by blast
  qed
qed

lemma intx_disable_idle:
  assumes "in_intx s"
  shows "idle (vfio_intx_disable s)"
proof -
  define s1 where "s1 = vfio_intx_disable_kvm (act Timer_Del s)"
  have "mset (held s1) = {#Fd (intx_fd s)#}"
    using assms by (cases "kvm_accel s")
      (simp_all add: s1_def vfio_intx_disable_kvm_def in_intx_def intx_res_def call_defs Let_def)
  then have "held s1 = [Fd (intx_fd s)]" by simp
  moreover have "interrupt s1 = INT_INTx \<and> intx_fd s1 = intx_fd s \<and> \<not> kvm_accel s1
    \<and> msi_vectors s1 = [] \<and> nr_vectors s1 = 0 \<and> (\<forall>fd. fd \<noteq> intx_fd s \<longrightarrow> handlers s1 fd = None)
    \<and> armed_only IRQ_INTX (trigger s1)"
    using assms by (cases "kvm_accel s")
      (simp_all add: s1_def vfio_intx_disable_kvm_def in_intx_def call_defs Let_def)
  ultimately show ?thesis
    unfolding vfio_intx_disable_def s1_def [symmetric] Let_def
    by (auto simp: idle_def call_defs armed_only_def fun_eq_iff)
qed

section \<open>MSI and MSI-X\<close>

lemma idle_disable: "idle s \<Longrightarrow> disable_interrupts (Suc n) h s = Inr s"
  by (simp add: idle_def)

text \<open>What the clean-up common to MSI and MSI-X needs: owned vectors, none used beyond the count.\<close>

lemma disable_common:
  assumes own: "vectors_owned s" and n: "nr_vectors s \<le> length (msi_vectors s)"
    and beyond: "\<forall>i < length (msi_vectors s). in_use (msi_vectors s ! i) \<longrightarrow> i < nr_vectors s"
    and tr: "trigger s = (\<lambda>_ _. - 1)"
  obtains t where "\<And>dis. (\<And>u. idle u \<Longrightarrow> dis u = Inr u) \<Longrightarrow> msi_disable_common_with dis h s = Inr t"
    and "idle t \<or> in_intx t"
proof -
  let ?vs = "msi_vectors s" and ?n = "nr_vectors s"
  have "mset (held s) = {#} + vecs_res ?vs" "no_zero s" using own by (simp_all add: vectors_owned_def)
  from free_vectors_loop [OF n this] obtain u where u: "foldR free_used_vector [0..<?n] s = Inr u"
    "mset (held u) = vecs_res (drop ?n ?vs)" "shell u = shell s" "trigger u = trigger s"
    "handlers u = (\<lambda>fd. if fd \<in> interrupt_fd ` {v \<in> set (take ?n ?vs). in_use v} then None else handlers s fd)"
    by auto
  have unused: "\<not> in_use v" if "v \<in> set (drop ?n ?vs)" for v
  proof -
    from that obtain j where "j < length (drop ?n ?vs)" and "v = drop ?n ?vs ! j" by (metis in_set_conv_nth)
    with beyond show ?thesis by (metis add.commute le_add2 length_drop less_diff_conv not_less nth_drop n)
  qed
  have "concat (map vec_res (drop ?n ?vs)) = []" using unused by (simp add: vec_res_def)
  then have "vecs_res (drop ?n ?vs) = {#}" unfolding vecs_res_def by (rule arg_cong [where f = mset, THEN trans]) simp
  then have held: "held u = []" using u(2) by simp
  have "{v \<in> set ?vs. in_use v} = {v \<in> set (take ?n ?vs). in_use v}"
    using unused by (metis (lifting) Un_iff append_take_drop_id set_append)
  then have "handlers u = (\<lambda>_. None)"
    using own u(5) by (auto simp: vectors_owned_def fun_eq_iff)
  with held u(3,4) tr own
  have "idle (u\<lparr>msi_vectors := [], nr_vectors := 0, interrupt := INT_NONE\<rparr>)"
    by (auto simp: idle_def shell_def vectors_owned_def)
  from intx_enable_idle [OF this, of h] obtain r t where
    e: "\<And>dis. (\<And>u. idle u \<Longrightarrow> dis u = Inr u) \<Longrightarrow> intx_enable_with dis h
      (u\<lparr>msi_vectors := [], nr_vectors := 0, interrupt := INT_NONE\<rparr>) = Inr (r, t)"
    and t: "idle t \<or> in_intx t" by blast
  from u(1) e have "msi_disable_common_with dis h s = Inr t" if "\<And>u. idle u \<Longrightarrow> dis u = Inr u" for dis
    using that by (simp add: msi_disable_common_with_def)
  with t that show thesis by blast
qed

lemma msi_disable_leaves:
  assumes "in_msi s \<or> idle s"
  obtains t where "\<And>dis. (\<And>u. idle u \<Longrightarrow> dis u = Inr u) \<Longrightarrow> msi_disable_with dis h s = Inr t"
    and "idle t \<or> in_intx t"
proof -
  let ?s = "vfio_disable_irqindex IRQ_MSI s"
  have same: "nr_vectors ?s = nr_vectors s" "msi_vectors ?s = msi_vectors s" "kvm_accel ?s = kvm_accel s"
    by (simp_all add: call_defs)
  have "vectors_owned ?s" "nr_vectors ?s \<le> length (msi_vectors ?s)"
    "\<forall>i < length (msi_vectors ?s). in_use (msi_vectors ?s ! i) \<longrightarrow> i < nr_vectors ?s"
    using assms(1) by (auto simp: in_msi_def idle_def vectors_owned_def same)
  moreover have "trigger ?s = (\<lambda>_ _. - 1)"
    using assms(1) armed_only_disable [of IRQ_MSI "trigger s"]
    by (auto simp: in_msi_def idle_def armed_only_def)
  ultimately have "vectors_owned ?s" "nr_vectors ?s \<le> length (msi_vectors ?s)"
    "\<forall>i < length (msi_vectors ?s). in_use (msi_vectors ?s ! i) \<longrightarrow> i < nr_vectors ?s"
    "trigger ?s = (\<lambda>_ _. - 1)" by blast+
  from disable_common [OF this] that show thesis unfolding msi_disable_with_def by blast
qed

lemma release_shape:
  assumes "msix_shape h s" and "nr < msix_entries h"
  obtains t where "vfio_msix_vector_release h nr s = Inr t" and "msix_shape h t" and "core t = core s"
    and "held t = held s"
proof -
  define t where "t = (if virq (msi_vectors s ! nr) \<ge> 0
    then snd (set_trigger h IRQ_MSIX nr [interrupt_fd (msi_vectors s ! nr)] s) else s)"
  have r: "vfio_msix_vector_release h nr s = Inr t"
    using assms by (simp add: vfio_msix_vector_release_def msix_shape_def t_def Let_def)
  have c: "core t = core s" "held t = held s" "handlers t = handlers s"
    by (simp_all add: t_def)
  have "armed_only IRQ_MSIX (trigger t)" using assms by (simp add: t_def msix_shape_def)
  with assms(1) c have "msix_shape h t"
    by (simp add: msix_shape_def vectors_owned_def core_def)
  with r c that show thesis by blast
qed

lemma release_loop:
  assumes "in_msix h s" and "set is \<subseteq> {..<msix_entries h}"
  shows "\<exists>t. foldR (vfio_msix_vector_release h) is s = Inr t \<and> in_msix h t"
proof (rule foldR_total [where P = "in_msix h", OF assms(1)])
  fix x s assume "x \<in> set is" and s: "in_msix h s"
  with assms(2) have "x < msix_entries h" by auto
  with s obtain t where "vfio_msix_vector_release h x s = Inr t" "msix_shape h t" "core t = core s"
    using release_shape [of h s x] by (auto simp: in_msix_def)
  with s show "\<exists>t. vfio_msix_vector_release h x s = Inr t \<and> in_msix h t"
    by (auto simp: in_msix_def core_def)
qed

lemma msix_shape_view: "view t = view s \<Longrightarrow> msix_shape h t = msix_shape h s"
  by (simp add: view_def core_def msix_shape_def vectors_owned_def)

lemma release_used_loop:
  assumes "in_msix h s" and "set is \<subseteq> {..<msix_entries h}"
  shows "\<exists>t. foldR (release_used_vector h) is s = Inr t \<and> in_msix h t"
proof (rule foldR_total [where P = "in_msix h", OF assms(1)])
  fix x s assume "x \<in> set is" and s: "in_msix h s"
  with assms(2) have x: "x < msix_entries h" by auto
  with s have len: "length (msi_vectors s) = msix_entries h" by (simp add: in_msix_def msix_shape_def)
  from s x obtain t where t: "vfio_msix_vector_release h x s = Inr t" "msix_shape h t" "core t = core s"
    using release_shape [of h s x] by (auto simp: in_msix_def)
  then have "in_msix h (act (Msix_Vector_Unuse x) t)"
    using s msix_shape_view [OF view_act, of h "Msix_Vector_Unuse x" t]
    by (simp add: in_msix_def core_def act_def)
  with t x len s show "\<exists>t. release_used_vector h x s = Inr t \<and> in_msix h t"
    by (simp add: release_used_vector_def)
qed

lemma msix_disable_leaves:
  assumes ok: "host_ok h" and s: "in_msix h s"
  obtains t where "\<And>dis. (\<And>u. idle u \<Longrightarrow> dis u = Inr u) \<Longrightarrow> msix_disable_with dis h s = Inr t"
    and "idle t \<or> in_intx t"
proof -
  have "in_msix h (act Unset_Vector_Notifiers s)"
    using s msix_shape_view [OF view_act, of h Unset_Vector_Notifiers s]
    by (simp add: in_msix_def act_def)
  moreover have "set (unmasked h (calls s)) \<subseteq> {..<msix_entries h}" using ok by (simp add: host_ok_def)
  ultimately obtain u where u: "msix_unset_vector_notifiers h s = Inr u" "in_msix h u"
    unfolding msix_unset_vector_notifiers_def using release_loop by blast
  have "set [0..<nr_vectors u] \<subseteq> {..<msix_entries h}" using u(2) by (auto simp: in_msix_def msix_shape_def)
  from release_used_loop [OF u(2) this] obtain w where
    w: "foldR (release_used_vector h) [0..<nr_vectors u] u = Inr w" "in_msix h w" by blast
  let ?w = "vfio_disable_irqindex IRQ_MSIX w"
  have same: "nr_vectors ?w = nr_vectors w" "msi_vectors ?w = msi_vectors w" "kvm_accel ?w = kvm_accel w"
    by (simp_all add: call_defs)
  have "vectors_owned ?w" "nr_vectors ?w \<le> length (msi_vectors ?w)"
    "\<forall>i < length (msi_vectors ?w). in_use (msi_vectors ?w ! i) \<longrightarrow> i < nr_vectors ?w"
    using w(2) by (auto simp: in_msix_def msix_shape_def vectors_owned_def same)
  moreover have "trigger ?w = (\<lambda>_ _. - 1)"
    using w(2) armed_only_disable [of IRQ_MSIX "trigger w"] by (simp add: in_msix_def msix_shape_def)
  ultimately obtain t where
    t: "\<And>dis. (\<And>u. idle u \<Longrightarrow> dis u = Inr u) \<Longrightarrow> msi_disable_common_with dis h ?w = Inr t"
      "idle t \<or> in_intx t"
    using disable_common by blast
  let ?t = "t\<lparr>msix_pending := replicate (msix_entries h) False\<rparr>"
  have "nr_vectors w \<noteq> 0" using w(2) by (simp add: in_msix_def)
  then have "msix_disable_with dis h s = Inr ?t" if "\<And>u. idle u \<Longrightarrow> dis u = Inr u" for dis
    using u(1) w(1) t(1) [OF that] by (simp add: msix_disable_with_def)
  moreover have "idle ?t \<or> in_intx ?t"
    using t(2) by (auto simp: idle_def in_intx_def intx_res_def)
  ultimately show thesis using that by blast
qed

text \<open>Two levels of nesting are enough for \<open>vfio_disable_interrupts\<close>, from every mode.\<close>

lemma disable_interrupts_idle:
  assumes ok: "host_ok h" and s: "accounted h s"
  obtains t where "\<And>n. disable_interrupts (Suc (Suc n)) h s = Inr t" and "idle t"
proof -
  have dis: "disable_interrupts (Suc n) h t = Inr t" if "idle t" for n t using that by (rule idle_disable)
  have last: "\<exists>t. (if interrupt u = INT_INTx then Inr (vfio_intx_disable u) else Inr u) = (Inr t :: vfio_fault + vfio_irq) \<and> idle t"
    if "idle u \<or> in_intx u" for u
    using that intx_disable_idle [of u] by (auto simp: idle_def in_intx_def)
  have step: "disable_interrupts (Suc (Suc n)) h s =
     bindR (if interrupt s = INT_MSIX then msix_disable_with (disable_interrupts (Suc n) h) h s
            else if interrupt s = INT_MSI then msi_disable_with (disable_interrupts (Suc n) h) h s
            else Inr s)
       (\<lambda>s. if interrupt s = INT_INTx then Inr (vfio_intx_disable s) else Inr s)" for n
    by (rule disable_interrupts.simps(2))
  have "\<exists>u. (idle u \<or> in_intx u) \<and> (\<forall>n.
      (if interrupt s = INT_MSIX then msix_disable_with (disable_interrupts (Suc n) h) h s
       else if interrupt s = INT_MSI then msi_disable_with (disable_interrupts (Suc n) h) h s
       else Inr s) = Inr u)"
  proof (cases "interrupt s")
    case INT_MSI
    with s have "in_msi s \<or> idle s" by (simp add: accounted_def)
    from msi_disable_leaves [OF this, of h] obtain u where
      "\<And>n. msi_disable_with (disable_interrupts (Suc n) h) h s = Inr u" "idle u \<or> in_intx u"
      using dis by metis
    with INT_MSI show ?thesis by auto
  next
    case INT_MSIX
    with s have "in_msix h s" by (simp add: accounted_def)
    from msix_disable_leaves [OF ok this] obtain u where
      "\<And>n. msix_disable_with (disable_interrupts (Suc n) h) h s = Inr u" "idle u \<or> in_intx u"
      using dis by metis
    with INT_MSIX show ?thesis by auto
  qed (use s in \<open>auto simp: accounted_def\<close>)
  then obtain u where u: "idle u \<or> in_intx u" and eq: "\<And>n.
      (if interrupt s = INT_MSIX then msix_disable_with (disable_interrupts (Suc n) h) h s
       else if interrupt s = INT_MSI then msi_disable_with (disable_interrupts (Suc n) h) h s
       else Inr s) = Inr u" by blast
  from last [OF u] obtain t where
    t: "(if interrupt u = INT_INTx then Inr (vfio_intx_disable u) else Inr u) = (Inr t :: vfio_fault + vfio_irq)"
      "idle t" by blast
  have "disable_interrupts (Suc (Suc n)) h s = Inr t" for n
    unfolding step eq bindR_Inr by (rule t(1))
  with t(2) that show thesis by blast
qed

lemma vfio_disable_idle:
  assumes "host_ok h" and "accounted h s"
  obtains t where "vfio_disable_interrupts h s = Inr t" and "idle t"
  using disable_interrupts_idle [OF assms] by (metis vfio_disable_interrupts_def numeral_2_eq_2)

lemma vfio_disable_when_idle: "idle t \<Longrightarrow> vfio_disable_interrupts h t = Inr t"
  unfolding vfio_disable_interrupts_def numeral_2_eq_2 by (rule idle_disable)

section \<open>Enabling MSI-X\<close>

lemma do_use_shape:
  assumes ok: "host_ok h" and s: "msix_shape h s" and nr: "nr < msix_entries h"
  obtains t where "vfio_msix_vector_do_use h nr m handler s = Inr t" and "in_msix h t"
proof -
  let ?vs = "msi_vectors s"
  have len: "length ?vs = msix_entries h" using s by (simp add: msix_shape_def)
  have h0: "mset (held s) = others nr ?vs + mset (vec_res (?vs ! nr))"
    using s nr len vecs_res_nth [of nr ?vs] by (simp add: msix_shape_def vectors_owned_def)
  obtain v1 s1 where u1: "use_first h nr (?vs ! nr) s = (v1, s1)" by (meson surj_pair)
  have z: "no_zero s" "\<not> in_use (?vs ! nr) \<Longrightarrow> interrupt_fd (?vs ! nr) = 0"
    using s nr by (simp_all add: msix_shape_def vectors_owned_def)
  note a1 = use_first_accounted [OF ok u1 h0 z]
  define s2 where "s2 = qemu_set_fd_handler (interrupt_fd v1) handler s1"
  have h2: "mset (held s2) = others nr ?vs + mset (vec_res v1)" "no_zero s2"
    using a1 by (simp_all add: s2_def)
  obtain v3 s3 where u3: "use_route h nr m v1 s2 = (v3, s3)" by (meson surj_pair)
  note a3 = use_route_accounted [OF ok u3 a1(5) h2]
  have c3: "core s3 = core s" "trigger s3 = trigger s" "handlers s3 = (handlers s)(interrupt_fd v3 := handler)"
    using a1 a3 by (simp_all add: s2_def)
  define s4 where "s4 = s3\<lparr>msi_vectors := (msi_vectors s3)[nr := v3]\<rparr>"
  have vs4: "msi_vectors s4 = ?vs[nr := v3]" using vectors_core [OF c3(1)] by (simp add: s4_def)
  have "nr < length (msi_vectors s4)" using nr len by (simp add: vs4)
  then obtain t where t: "use_trigger h nr s4 = Inr t" "held t = held s4" "handlers t = handlers s4"
    "core t = core (s4\<lparr>nr_vectors := max (nr_vectors s4) (nr + 1)\<rparr>)"
    "armed_only IRQ_MSIX (trigger s4) \<Longrightarrow> armed_only IRQ_MSIX (trigger t)"
    using use_trigger_accounted by metis
  have sh4: "shell s4 = shell s" using shell_core [OF c3(1)] by (simp add: s4_def shell_def)
  have vt: "msi_vectors t = ?vs[nr := v3]" "interrupt t = INT_MSIX" "\<not> kvm_accel t"
    "nr_vectors t = max (nr_vectors s) (nr + 1)"
    using t(4) vs4 sh4 s by (auto simp: core_def shell_def msix_shape_def vectors_owned_def)
  have held: "mset (held t) = vecs_res (?vs[nr := v3])"
    using a3(1) nr len by (simp add: t(2) s4_def vecs_res_update)
  have "fd \<in> interrupt_fd ` {v \<in> set (?vs[nr := v3]). in_use v}" if "handlers t fd \<noteq> None" for fd
  proof (cases "fd = interrupt_fd v3")
    case True
    then show ?thesis using a3(5) nr len by (auto intro!: set_update_memI)
  next
    case False
    with that t(3) c3(3) have "handlers s fd \<noteq> None" by (simp add: s4_def)
    with s obtain v where v: "v \<in> set ?vs" "in_use v" "fd = interrupt_fd v"
      by (auto simp: msix_shape_def vectors_owned_def)
    have "v \<noteq> ?vs ! nr"
    proof
      assume "v = ?vs ! nr"
      with v a1(6) a3(6) False show False by simp
    qed
    with v(1) have "v \<in> set (?vs[nr := v3])"
      by (metis in_set_conv_nth length_list_update nth_list_update_neq)
    with v show ?thesis by blast
  qed
  moreover have "no_zero t" using a3(7) t(2) by (simp add: s4_def)
  ultimately have "vectors_owned t" using held vt by (simp add: vectors_owned_def)
  moreover have "armed_only IRQ_MSIX (trigger t)"
    using t(5) s c3(2) by (simp add: s4_def msix_shape_def)
  moreover have "\<forall>i < msix_entries h. in_use (?vs[nr := v3] ! i) \<longrightarrow> i < max (nr_vectors s) (nr + 1)"
  proof (intro allI impI)
    fix i assume "i < msix_entries h" and "in_use (?vs[nr := v3] ! i)"
    with s show "i < max (nr_vectors s) (nr + 1)"
      by (cases "i = nr") (auto simp: msix_shape_def)
  qed
  moreover have "\<forall>i < msix_entries h. \<not> in_use (?vs[nr := v3] ! i) \<longrightarrow> interrupt_fd (?vs[nr := v3] ! i) = 0"
  proof (intro allI impI)
    fix i assume "i < msix_entries h" and "\<not> in_use (?vs[nr := v3] ! i)"
    with s a3(5) len nr show "interrupt_fd (?vs[nr := v3] ! i) = 0"
      by (cases "i = nr") (auto simp: msix_shape_def)
  qed
  ultimately have "in_msix h t"
    using vt nr len s by (simp add: in_msix_def msix_shape_def)
  then have "in_msix h (use_pending nr t)"
    by (simp add: use_pending_def Let_def in_msix_def msix_shape_def vectors_owned_def act_def)
  moreover have "vfio_msix_vector_do_use h nr m handler s = Inr (use_pending nr t)"
    using u1 u3 t(1) nr len by (simp add: vfio_msix_vector_do_use_def s2_def s4_def)
  ultimately show thesis using that by blast
qed

lemma use_loop:
  assumes "host_ok h" and "in_msix h s" and "set is \<subseteq> {..<msix_entries h}"
  shows "\<exists>t. foldR (vfio_msix_vector_use h) is s = Inr t \<and> in_msix h t"
proof (rule foldR_total [where P = "in_msix h", OF assms(2)])
  fix x s assume "x \<in> set is" and s: "in_msix h s"
  with assms(3) have x: "x < msix_entries h" by auto
  from s have "msix_shape h s" by (simp add: in_msix_def)
  from do_use_shape [OF assms(1) this x] show "\<exists>t. vfio_msix_vector_use h x s = Inr t \<and> in_msix h t"
    by (metis vfio_msix_vector_use_def)
qed

lemma msix_enable_in_msix:
  assumes ok: "host_ok h" and s: "accounted h s"
  obtains t where "vfio_msix_enable h s = Inr t" and "in_msix h t"
proof -
  from vfio_disable_idle [OF assms] obtain s1 where s1: "vfio_disable_interrupts h s = Inr s1" "idle s1" .
  define s2 where "s2 = s1\<lparr>msi_vectors := replicate (msix_entries h) zero_vector, interrupt := INT_MSIX\<rparr>"
  have "\<not> in_use zero_vector" "interrupt_fd zero_vector = 0" by (simp_all add: zero_vector_def)
  then have "msix_shape h s2"
    using s1(2) by (auto simp: s2_def msix_shape_def idle_def vectors_owned_def armed_only_def)
  moreover have e: "0 < msix_entries h" using ok by (simp add: host_ok_def)
  ultimately obtain s3 where s3: "vfio_msix_vector_do_use h 0 False None s2 = Inr s3" "in_msix h s3"
    using do_use_shape [OF ok] by metis
  have "set [0::nat] \<subseteq> {..<msix_entries h}" using e by simp
  from release_loop [OF s3(2) this] obtain s4 where
    s4: "vfio_msix_vector_release h 0 s3 = Inr s4" "in_msix h s4"
    by (auto simp: bindR_eq_Inr)
  have "in_msix h (act Set_Vector_Notifiers s4)"
    using s4(2) msix_shape_view [OF view_act, of h Set_Vector_Notifiers s4]
    by (simp add: in_msix_def act_def)
  moreover have "set (unmasked h (calls s4)) \<subseteq> {..<msix_entries h}" using ok by (simp add: host_ok_def)
  ultimately obtain t where t: "msix_set_vector_notifiers h s4 = Inr t" "in_msix h t"
    unfolding msix_set_vector_notifiers_def using use_loop [OF ok] by blast
  have "vfio_msix_enable h s = Inr t"
    using s1(1) s3(1) s4(1) t(1) by (simp add: vfio_msix_enable_def s2_def)
  with t(2) that show thesis by blast
qed

end
