(* ===== verification/Vfio_Reach.thy ===== *)
theory Vfio_Reach
  imports Vfio_Modes
begin

text \<open>
  Enabling MSI, with the rounds in which the kernel grants fewer vectors than asked for, and the
  reachable states of the interrupt code: every step keeps the invariant of the modes.
\<close>

section \<open>Enabling MSI\<close>

lemma setup_vector_accounted:
  assumes ok: "host_ok h" and i: "i < length (msi_vectors s)" and new: "msi_vectors s ! i = zero_vector"
    and nz: "no_zero s"
  obtains t v where "setup_vector h i s = Inr t" and "msi_vectors t = (msi_vectors s)[i := v]"
    and "in_use v" and "mset (held t) = mset (held s) + mset (vec_res v)" and "shell t = shell s"
    and "handlers t = (handlers s)(interrupt_fd v := Some (Msi_Interrupt i))" and "trigger t = trigger s"
    and "no_zero t"
proof -
  obtain r s1 where e: "event_notifier_init h For_Vector s = (r, s1)" by (meson surj_pair)
  note n1 = host_ok_notifier [OF ok e]
  define v1 where "v1 = zero_vector\<lparr>virq := - 1, in_use := True, interrupt_fd := if r < 0 then 0 else r\<rparr>"
  have fd: "interrupt_fd v1 = (if r < 0 then 0 else r)" by (simp add: v1_def)
  define s2 where "s2 = qemu_set_fd_handler (interrupt_fd v1) (Some (Msi_Interrupt i)) s1"
  obtain v t0 where k: "vfio_add_kvm_msi_virq h i False v1 s2 = (v, t0)" by (meson surj_pair)
  have a1: "mset (held s1) = mset (held s) + mset (vec_res v1)" "core s1 = core s"
    "handlers s1 = handlers s" "trigger s1 = trigger s"
    using e n1(1) by (cases rule: init_cases; simp add: v1_def vec_res_def)+
  have "mset (held s2) = mset (held s) + mset (vec_res v1)" "in_use v1" "virq v1 < 0" "no_zero s2"
    using a1 n1(2) nz by (simp_all add: s2_def v1_def)
  note a2 = add_virq_accounted [OF ok k this(2,3,1,4)]
  define t where "t = t0\<lparr>msi_vectors := (msi_vectors t0)[i := v]\<rparr>"
  have c: "core t0 = core s" using a2 a1 by (simp add: s2_def)
  have "(if r < 0 then (msi_vectors s ! i)\<lparr>virq := - 1, in_use := True\<rparr>
      else (msi_vectors s ! i)\<lparr>virq := - 1, in_use := True\<rparr>\<lparr>interrupt_fd := r\<rparr>) = v1"
    by (simp add: new v1_def zero_vector_def)
  then have "setup_vector h i s = Inr t"
    using i e k by (simp add: setup_vector_def s2_def t_def Let_def)
  moreover have "msi_vectors t = (msi_vectors s)[i := v]" using vectors_core [OF c] by (simp add: t_def)
  moreover have "shell t = shell s" using shell_core [OF c] by (simp add: t_def shell_def)
  ultimately show thesis using that a1 a2 by (simp add: t_def s2_def)
qed

lemma setup_loop:
  assumes ok: "host_ok h" and "n \<le> k" and "msi_vectors s = replicate k zero_vector"
    and "held s = []" and "handlers s = (\<lambda>_. None)"
  shows "\<exists>t ws. foldR (setup_vector h) [0..<n] s = Inr t \<and> length ws = n \<and> (\<forall>v \<in> set ws. in_use v)
    \<and> msi_vectors t = ws @ replicate (k - n) zero_vector \<and> mset (held t) = vecs_res ws
    \<and> (\<forall>fd. handlers t fd \<noteq> None \<longrightarrow> fd \<in> interrupt_fd ` set ws) \<and> shell t = shell s
    \<and> trigger t = trigger s \<and> no_zero t"
  using assms(2)
proof (induction n)
  case 0
  then show ?case using assms by simp
next
  case (Suc n)
  then obtain t ws where t: "foldR (setup_vector h) [0..<n] s = Inr t" "length ws = n"
    "\<forall>v \<in> set ws. in_use v" "msi_vectors t = ws @ replicate (k - n) zero_vector"
    "mset (held t) = vecs_res ws" "\<forall>fd. handlers t fd \<noteq> None \<longrightarrow> fd \<in> interrupt_fd ` set ws"
    "shell t = shell s" "trigger t = trigger s" "no_zero t" by auto
  from Suc.prems have "k - n = Suc (k - Suc n)" by simp
  with t(4) have vs: "msi_vectors t = ws @ zero_vector # replicate (k - Suc n) zero_vector" by simp
  then have "n < length (msi_vectors t)" "msi_vectors t ! n = zero_vector" using t(2) by auto
  from setup_vector_accounted [OF ok this t(9)] obtain u v where u: "setup_vector h n t = Inr u"
    "msi_vectors u = (msi_vectors t)[n := v]" "in_use v" "mset (held u) = mset (held t) + mset (vec_res v)"
    "shell u = shell t" "handlers u = (handlers t)(interrupt_fd v := Some (Msi_Interrupt n))"
    "trigger u = trigger t" "no_zero u" .
  have "msi_vectors u = (ws @ [v]) @ replicate (k - Suc n) zero_vector"
    using u(2) vs t(2) by (simp add: list_update_append)
  moreover have "\<forall>fd. handlers u fd \<noteq> None \<longrightarrow> fd \<in> interrupt_fd ` set (ws @ [v])"
    using u(6) t(6) by auto
  moreover have "foldR (setup_vector h) [0..<Suc n] s = Inr u" using t(1) u(1) by (simp add: foldR_append)
  moreover have "mset (held u) = vecs_res (ws @ [v])" using t(5) u(4) by simp
  moreover have "\<forall>x \<in> set (ws @ [v]). in_use x" "length (ws @ [v]) = Suc n" using t(2,3) u(3) by auto
  moreover have "shell u = shell s" "trigger u = trigger s" "no_zero u" using t u by auto
  ultimately show ?case by blast
qed

definition msi_start :: "vfio_irq \<Rightarrow> bool" where
  "msi_start s \<longleftrightarrow> interrupt s \<in> {INT_NONE, INT_MSI} \<and> \<not> kvm_accel s \<and> held s = []
     \<and> handlers s = (\<lambda>_. None) \<and> trigger s = (\<lambda>_ _. - 1)"

definition msi_routed :: "vfio_irq \<Rightarrow> bool" where
  "msi_routed s \<longleftrightarrow> (\<forall>i < nr_vectors s. trigger s IRQ_MSI i = vector_fd False (msi_vectors s ! i))"

lemma attempt_outcome:
  assumes ok: "host_ok h" and "msi_start s" and "nr_vectors s < n"
  shows "\<exists>t. msi_attempt n h s = Inr t
    \<and> (idle t \<or> in_msi t \<and> nr_vectors t \<le> nr_vectors s \<and> msi_routed t)"
  using assms(2,3)
proof (induction n arbitrary: s)
  case 0
  then show ?case by simp
next
  case (Suc n)
  let ?k = "nr_vectors s"
  let ?s = "s\<lparr>msi_vectors := replicate ?k zero_vector\<rparr>"
  have "held ?s = []" "handlers ?s = (\<lambda>_. None)" "msi_vectors ?s = replicate ?k zero_vector"
    using Suc.prems(1) by (simp_all add: msi_start_def)
  from setup_loop [OF ok order_refl this(3,1,2)] obtain u ws where
    u: "foldR (setup_vector h) [0..<?k] ?s = Inr u" "length ws = ?k" "\<forall>v \<in> set ws. in_use v"
      "msi_vectors u = ws" "mset (held u) = vecs_res ws"
      "\<forall>fd. handlers u fd \<noteq> None \<longrightarrow> fd \<in> interrupt_fd ` set ws" "shell u = shell ?s" "trigger u = trigger ?s"
      "no_zero u" by auto
  have nu: "nr_vectors u = ?k" "kvm_accel u = kvm_accel s"
    using u(7) by (simp_all add: shell_def)
  define u1 where "u1 = u\<lparr>interrupt := INT_MSI\<rparr>"
  define fds where "fds = map (\<lambda>i. vector_fd False (ws ! i)) [0..<?k]"
  obtain ret w where w: "set_trigger h IRQ_MSI 0 fds u1 = (ret, w)" by (meson surj_pair)
  have e: "vfio_enable_vectors h False u1 = Inr (ret, w)"
    using w u(2,4) nu by (simp add: vfio_enable_vectors_def u1_def fds_def)
  have cw: "core w = core u1" "held w = held u1" "handlers w = handlers u1"
    using w core_calls(8) [of h IRQ_MSI 0 fds u1] held_calls(7) [of h IRQ_MSI 0 fds u1]
      handlers_calls(8) [of h IRQ_MSI 0 fds u1] by auto
  have vw: "msi_vectors w = ws" "interrupt w = INT_MSI" "nr_vectors w = ?k" "\<not> kvm_accel w"
    using cw(1) u(4) nu Suc.prems(1) by (simp_all add: core_def u1_def msi_start_def)
  have used: "{v \<in> set ws. in_use v} = set ws" using u(3) by auto
  show ?case
  proof (cases "ret = 0")
    case True
    then have tr: "trigger w = arm IRQ_MSI 0 fds (trigger u)"
      using w by (auto simp: set_trigger_def ask_def act_def u1_def Let_def)
    have "armed_only IRQ_MSI (trigger u)" using u(8) Suc.prems(1) by (simp add: msi_start_def armed_only_def)
    then have "in_msi w"
      using u cw vw used by (simp add: in_msi_def vectors_owned_def tr armed_only_arm u1_def)
    moreover have "msi_routed w" using vw by (simp add: msi_routed_def tr arm_def fds_def)
    ultimately show ?thesis using True u(1) e vw by (auto simp: u1_def)
  next
    case False
    then have tr: "trigger w = trigger u" using w by (auto simp: set_trigger_def ask_def act_def u1_def Let_def)
    have kw: "?k \<le> length (msi_vectors w)" and hw: "mset (held w) = {#} + vecs_res (msi_vectors w)"
      using u(2,5) vw cw by (simp_all add: u1_def)
    have zw: "no_zero w" using u(9) cw by (simp add: u1_def)
    have "\<forall>v \<in> set (msi_vectors w). in_use v" using u(3) vw by simp
    note all = free_vectors_loop_all [OF kw hw zw this]
    from free_vectors_loop [OF kw hw zw] obtain x where x: "foldR free_used_vector [0..<?k] w = Inr x"
      "mset (held x) = vecs_res (drop ?k ws)" "shell x = shell w" "trigger x = trigger w"
      "handlers x = (\<lambda>fd. if fd \<in> interrupt_fd ` {v \<in> set (take ?k ws). in_use v} then None else handlers w fd)"
      using vw by auto
    have hx: "handlers x = (\<lambda>_. None)"
      using x(5) u(2,6) used cw by (auto simp: u1_def fun_eq_iff)
    have sx: "msi_start (x\<lparr>msi_vectors := [], nr_vectors := m\<rparr>)" "nr_vectors x = ?k" for m
      using x hx vw tr u(2,8) Suc.prems(1) by (simp_all add: msi_start_def shell_def)
    have step: "msi_attempt (Suc n) h s =
        (if ret > 0 \<and> ret \<noteq> int ?k then msi_attempt n h (x\<lparr>msi_vectors := [], nr_vectors := nat ret\<rparr>)
         else Inr (x\<lparr>msi_vectors := [], nr_vectors := 0, interrupt := INT_NONE\<rparr>))"
      using u(1) e False x(1) all vw sx(2) by (simp add: u1_def Let_def)
    show ?thesis
    proof (cases "ret > 0 \<and> ret \<noteq> int ?k")
      case True
      have "ret \<le> int (length fds)"
      proof -
        have "ret = answer h (calls u1) (Set_Trigger IRQ_MSI 0 fds)"
          using w by (auto simp: set_trigger_def ask_def Let_def)
        then show ?thesis using ok by (simp add: host_ok_def)
      qed
      with True have "nat ret < ?k" by (auto simp: fds_def)
      with Suc.prems(2) have "nr_vectors (x\<lparr>msi_vectors := [], nr_vectors := nat ret\<rparr>) < n" by simp
      from Suc.IH [OF sx(1) this] \<open>nat ret < ?k\<close> show ?thesis using step True by auto
    next
      case False
      have "idle (x\<lparr>msi_vectors := [], nr_vectors := 0, interrupt := INT_NONE\<rparr>)"
        using sx(1) [of 0] by (simp add: msi_start_def idle_def)
      then show ?thesis using step False by auto
    qed
  qed
qed

lemma msi_enable_result:
  assumes ok: "host_ok h" and "accounted h s"
  obtains t where "vfio_msi_enable h s = Inr t" and "idle t \<or> in_msi t \<and> msi_routed t"
proof -
  from vfio_disable_idle [OF assms] obtain s1 where s1: "vfio_disable_interrupts h s = Inr s1" "idle s1" .
  obtain k s2 where k: "ask h Nr_Vectors_Allocated s1 = (k, s2)" by (meson surj_pair)
  have "idle s2" using idle_view [OF view_ask [OF k]] s1(2) by simp
  then have "msi_start (s2\<lparr>nr_vectors := nat k\<rparr>)" by (simp add: msi_start_def idle_def)
  from attempt_outcome [OF ok this, of "Suc (nat k)"] obtain t where
    t: "msi_attempt (Suc (nat k)) h (s2\<lparr>nr_vectors := nat k\<rparr>) = Inr t" "idle t \<or> in_msi t \<and> msi_routed t"
    by auto
  have "vfio_msi_enable h s = Inr t"
    using s1(1) k t(1) unfolding vfio_msi_enable_def by (simp only: bindR_Inr Let_def prod.case)
  with t(2) that show thesis by blast
qed

section \<open>Reachable states\<close>

text \<open>
  The calls into the interrupt code of a realized device, each in the modes in which they come from a
  guest that never has MSI and MSI-X enabled together. The code does not test the mode: \<open>Vfio_Guest\<close>
  has the same calls without any condition on it, made by the path that leads to them, and derives
  these steps; without the rule on the guest they do not hold (\<open>Vfio_Write_Props\<close>).
\<close>

inductive irq_step :: "vfio_host \<Rightarrow> vfio_irq \<Rightarrow> vfio_irq \<Rightarrow> bool" for h where
  step_intx_enable: "vfio_intx_enable h s = Inr (r, t) \<Longrightarrow> irq_step h s t"
| step_disable: "vfio_disable_interrupts h s = Inr t \<Longrightarrow> irq_step h s t"
| step_msi_enable: "vfio_msi_enable h s = Inr t \<Longrightarrow> irq_step h s t"
| step_msi_disable: "interrupt s \<in> {INT_NONE, INT_MSI} \<Longrightarrow> vfio_msi_disable h s = Inr t \<Longrightarrow> irq_step h s t"
| step_update_msi: "interrupt s = INT_MSI \<Longrightarrow> vfio_update_msi s = Inr t \<Longrightarrow> irq_step h s t"
| step_msix_enable: "vfio_msix_enable h s = Inr t \<Longrightarrow> irq_step h s t"
| step_msix_disable: "interrupt s = INT_MSIX \<Longrightarrow> vfio_msix_disable h s = Inr t \<Longrightarrow> irq_step h s t"
| step_use: "interrupt s = INT_MSIX \<Longrightarrow> vfio_msix_vector_use h nr s = Inr t \<Longrightarrow> irq_step h s t"
| step_release: "interrupt s = INT_MSIX \<Longrightarrow> vfio_msix_vector_release h nr s = Inr t \<Longrightarrow> irq_step h s t"
| step_msi_interrupt: "vfio_msi_interrupt h nr s = Inr t \<Longrightarrow> irq_step h s t"
| step_intx_interrupt: "irq_step h s (vfio_intx_interrupt h s)"
| step_intx_eoi: "irq_step h s (vfio_intx_eoi s)"
| step_mmap_timer: "irq_step h s (vfio_intx_mmap_enable h s)"
| step_intx_update: "irq_step h s (vfio_intx_update h s)"

definition irq_initial :: "vfio_irq \<Rightarrow> bool" where
  "irq_initial s \<longleftrightarrow> interrupt s = INT_NONE \<and> \<not> kvm_accel s \<and> msi_vectors s = [] \<and> nr_vectors s = 0
     \<and> held s = [] \<and> handlers s = (\<lambda>_. None) \<and> trigger s = (\<lambda>_ _. - 1)"

inductive irq_reachable :: "vfio_host \<Rightarrow> vfio_irq \<Rightarrow> bool" for h where
  irq_start: "irq_initial s \<Longrightarrow> irq_reachable h s"
| irq_next: "irq_reachable h s \<Longrightarrow> irq_step h s t \<Longrightarrow> irq_reachable h t"

inductive_cases irq_stepE: "irq_step h s t"

lemmas irq_step_cases = irq_stepE [consumes 1, case_names
  step_intx_enable step_disable step_msi_enable step_msi_disable step_update_msi step_msix_enable step_msix_disable
  step_use step_release step_msi_interrupt step_intx_interrupt step_intx_eoi step_mmap_timer step_intx_update]

lemma view_small_steps:
  "view (vfio_intx_interrupt h s) = view s" "view (vfio_intx_eoi s) = view s"
  "view (vfio_intx_mmap_enable h s) = view s"
proof -
  have p: "view (s\<lparr>intx_pending := b\<rparr>) = view s" for b and s :: vfio_irq
    by (simp add: view_def core_def)
  obtain r s1 where a: "ask h (Test_And_Clear (intx_fd s)) s = (r, s1)" by (meson surj_pair)
  show "view (vfio_intx_interrupt h s) = view s"
    using view_ask [OF a] by (simp add: vfio_intx_interrupt_def a p Let_def)
  show "view (vfio_intx_eoi s) = view s" by (simp add: vfio_intx_eoi_def p)
  show "view (vfio_intx_mmap_enable h s) = view s" by (simp add: vfio_intx_mmap_enable_def)
qed

lemma view_msi_interrupt:
  assumes "vfio_msi_interrupt h nr s = Inr t"
  shows "view t = view s"
proof -
  have p: "view (s\<lparr>msix_pending := b\<rparr>) = view s" for b and s :: vfio_irq
    by (simp add: view_def core_def)
  have a: "view (snd (ask h c s)) = view s" for c s
    by (rule view_ask [OF surjective_pairing])
  from assms show ?thesis
    by (auto simp: vfio_msi_interrupt_def p a split_def Let_def split: if_splits)
qed

lemma view_update_msi:
  assumes "vfio_update_msi s = Inr t"
  shows "view t = view s"
proof -
  have "view t = view s" if "foldR update_vector is s = Inr t" for "is"
    using that by (rule foldR_inv [where P = "\<lambda>u. view u = view s"])
      (auto simp: update_vector_def vfio_update_kvm_msi_virq_def Let_def split: if_splits)
  then show ?thesis using assms by (simp add: vfio_update_msi_def)
qed

lemma intx_update_keeps:
  assumes "in_intx s"
  shows "in_intx (vfio_intx_update h s)"
proof -
  define route where "route = routing h (calls s) (intx_pin s)"
  define s1 where "s1 = (vfio_intx_disable_kvm s)\<lparr>intx_route := route\<rparr>"
  have "mset (held s1) = {#Fd (intx_fd s)#}"
    using assms by (cases "kvm_accel s")
      (simp_all add: s1_def vfio_intx_disable_kvm_def in_intx_def intx_res_def call_defs Let_def)
  then have h1: "held s1 = [Fd (intx_fd s)]" by simp
  have s1: "interrupt s1 = INT_INTx" "intx_fd s1 = intx_fd s" "\<not> kvm_accel s1"
    "msi_vectors s1 = []" "nr_vectors s1 = 0" "\<forall>fd. fd \<noteq> intx_fd s \<longrightarrow> handlers s1 fd = None"
    "armed_only IRQ_INTX (trigger s1)"
    using assms by (cases "kvm_accel s";
      simp add: s1_def vfio_intx_disable_kvm_def in_intx_def call_defs Let_def)+
  have stop: "in_intx s1" using s1 h1 by (simp add: in_intx_def intx_res_def)
  have go: "in_intx ((vfio_intx_enable_kvm h s1)\<lparr>interrupt := INT_INTx\<rparr>)"
    using s1 h1 by (intro enable_kvm_intx) simp_all
  have "interrupt (vfio_intx_enable_kvm h s1) = INT_INTx"
    using s1(1) by (rule enable_kvm_mode)
  then have "(vfio_intx_enable_kvm h s1)\<lparr>interrupt := INT_INTx\<rparr> = vfio_intx_enable_kvm h s1"
    by (cases "vfio_intx_enable_kvm h s1") simp
  with go have "in_intx (vfio_intx_enable_kvm h s1)" by simp
  moreover have "in_intx (vfio_intx_eoi u) = in_intx u" for u
    using view_small_steps(2) [of u] by (simp add: view_def core_def in_intx_def intx_res_def)
  ultimately show ?thesis
    using assms stop by (simp add: vfio_intx_update_def route_def [symmetric] s1_def [symmetric] Let_def)
qed

lemma initial_idle: "irq_initial s = idle s"
  by (auto simp: irq_initial_def idle_def)

lemma intx_enable_accounted:
  assumes "host_ok h" and s: "accounted h s"
  obtains r t where "vfio_intx_enable h s = Inr (r, t)" and "accounted h t"
proof -
  obtain v s1 where v: "ask h Read_Interrupt_Pin s = (v, s1)" by (meson surj_pair)
  have s1: "accounted h s1" using accounted_view [OF view_ask [OF v]] s by simp
  from vfio_disable_idle [OF assms(1) s1] obtain s2 where
    s2: "vfio_disable_interrupts h s1 = Inr s2" "idle s2" .
  show thesis
  proof (cases "nat (v mod 256) = 0")
    case True
    then have "vfio_intx_enable h s = Inr (0, s1)"
      using v by (simp add: vfio_intx_enable_def intx_enable_with_def)
    then show ?thesis using s1 that by blast
  next
    case False
    obtain r t where rt: "intx_setup h (nat (v mod 256)) s2 = (r, t)" by (meson surj_pair)
    have "vfio_intx_enable h s = Inr (r, t)"
      using v s2(1) False rt by (simp add: vfio_intx_enable_def intx_enable_with_def)
    then show ?thesis using intx_setup_idle [OF s2(2) rt] that accounted_intro by blast
  qed
qed

lemma step_accounted:
  assumes ok: "host_ok h" and "irq_step h s t" and acc: "accounted h s"
  shows "accounted h t"
  using assms(2)
proof (cases rule: irq_step_cases)
  case (step_intx_enable r)
  from intx_enable_accounted [OF ok acc] obtain q u where
    "vfio_intx_enable h s = Inr (q, u)" "accounted h u" .
  with step_intx_enable show ?thesis by simp
next
  case step_disable
  from vfio_disable_idle [OF ok acc] obtain u where "vfio_disable_interrupts h s = Inr u" "idle u" .
  with step_disable accounted_intro(1) show ?thesis by auto
next
  case step_msi_enable
  from msi_enable_result [OF ok acc] obtain u where
    "vfio_msi_enable h s = Inr u" "idle u \<or> in_msi u \<and> msi_routed u" .
  with step_msi_enable accounted_intro(1,3) show ?thesis by auto
next
  case step_msi_disable
  with acc have "in_msi s \<or> idle s" by (auto simp: accounted_def)
  then obtain u where "vfio_msi_disable h s = Inr u" "idle u \<or> in_intx u"
    unfolding vfio_msi_disable_def using msi_disable_leaves [of s h] vfio_disable_when_idle by metis
  with step_msi_disable(2) accounted_intro(1,2) show ?thesis by auto
next
  case step_update_msi
  with accounted_view [OF view_update_msi] acc show ?thesis by blast
next
  case step_msix_enable
  from msix_enable_in_msix [OF ok acc] obtain u where "vfio_msix_enable h s = Inr u" "in_msix h u" .
  with step_msix_enable accounted_intro(4) show ?thesis by auto
next
  case step_msix_disable
  with acc have "in_msix h s" by (simp add: accounted_def)
  then obtain u where "vfio_msix_disable h s = Inr u" "idle u \<or> in_intx u"
    unfolding vfio_msix_disable_def using msix_disable_leaves [OF ok] vfio_disable_when_idle by metis
  with step_msix_disable(2) accounted_intro(1,2) show ?thesis by auto
next
  case (step_use nr)
  with acc have s: "msix_shape h s" by (simp add: accounted_def in_msix_def)
  then have "nr < msix_entries h"
    using step_use(2) by (auto simp: vfio_msix_vector_use_def vfio_msix_vector_do_use_def msix_shape_def split: if_splits)
  from do_use_shape [OF ok s this] obtain u where "vfio_msix_vector_use h nr s = Inr u" "in_msix h u"
    unfolding vfio_msix_vector_use_def by blast
  with step_use(2) accounted_intro(4) show ?thesis by auto
next
  case (step_release nr)
  with acc have s: "in_msix h s" by (simp add: accounted_def)
  then have "nr < msix_entries h"
    using step_release(2) by (auto simp: vfio_msix_vector_release_def in_msix_def msix_shape_def split: if_splits)
  with release_loop [OF s, of "[nr]"] step_release(2) show ?thesis by (simp add: accounted_intro(4))
next
  case (step_msi_interrupt nr)
  with accounted_view [OF view_msi_interrupt] acc show ?thesis by blast
next
  case step_intx_interrupt
  with accounted_view [OF view_small_steps(1)] acc show ?thesis by blast
next
  case step_intx_eoi
  with accounted_view [OF view_small_steps(2)] acc show ?thesis by blast
next
  case step_mmap_timer
  with accounted_view [OF view_small_steps(3)] acc show ?thesis by blast
next
  case step_intx_update
  then show ?thesis using acc intx_update_keeps [of s h]
    by (cases "interrupt s = INT_INTx") (auto simp: accounted_def vfio_intx_update_def in_intx_def)
qed

lemma reachable_accounted:
  assumes "irq_reachable h s" and "host_ok h"
  shows "accounted h s"
  using assms
proof (induction rule: irq_reachable.induct)
  case (irq_start s)
  then show ?case by (simp add: initial_idle accounted_intro(1))
next
  case (irq_next s t)
  then show ?case by (blast intro: step_accounted)
qed

end
