(* ===== verification/Vfio_Irq_Props.thy ===== *)
theory Vfio_Irq_Props
  imports Vfio_Reach
begin

text \<open>
  Properties of single operations of the interrupt code of \<open>hw/vfio/pci.c\<close>: disabling needs no more
  than two levels of nesting, MSI set-up ends however few vectors the kernel grants, masking a vector
  keeps its KVM route. What holds over the whole life of the interrupts is in \<open>Vfio_Guest\<close>. The last property is about a failure that the code only reports.
\<close>

section \<open>An example host\<close>

text \<open>A host on which every call succeeds, and a device with two MSI-X vectors.\<close>

definition demo_host :: vfio_host where
  "demo_host = \<lparr>answer = (\<lambda>l c. case c of Notifier_Init _ \<Rightarrow> 100 + int (length l)
       | Add_Msi_Route n \<Rightarrow> 5 + int n | Nr_Vectors_Allocated \<Rightarrow> 2 | Read_Interrupt_Pin \<Rightarrow> 1 | _ \<Rightarrow> 0),
     unmasked = (\<lambda>_. []), routing = (\<lambda>_ _. \<lparr>route_mode = ROUTE_ENABLED, route_irq = 9\<rparr>),
     msix_entries = 2, mmap_timeout = 1100, irqfds_enabled = True, resamplefds_enabled = True,
     no_kvm_intx = False, no_kvm_msi = False, no_kvm_msix = False\<rparr>"

definition demo_start :: vfio_irq where
  "demo_start = \<lparr>interrupt = INT_NONE, intx_pending = False, kvm_accel = False, intx_pin = 0,
     intx_fd = 0, unmask_fd = 0, intx_route = \<lparr>route_mode = ROUTE_DISABLED, route_irq = 0\<rparr>,
     msi_vectors = [], nr_vectors = 0, msix_pending = [False, False], held = [],
     handlers = (\<lambda>_. None), trigger = (\<lambda>_ _. - 1), calls = []\<rparr>"

text \<open>The device after the guest has enabled MSI-X and unmasked vector 1.\<close>

definition demo_msix :: vfio_irq where
  "demo_msix = (case bindR (vfio_msix_enable demo_host demo_start) (vfio_msix_vector_use demo_host 1) of
     Inl _ \<Rightarrow> demo_start | Inr t \<Rightarrow> t)"

lemma demo_ok: "host_ok demo_host"
  by (simp add: host_ok_def demo_host_def)

lemma demo_reachable: "irq_reachable demo_host demo_start"
  by (rule irq_start) (simp add: irq_initial_def demo_start_def)

lemma demo_steps:
  "bindR (vfio_msix_enable demo_host demo_start) (vfio_msix_vector_use demo_host 1) = Inr demo_msix"
proof -
  have "\<not> isl (bindR (vfio_msix_enable demo_host demo_start) (vfio_msix_vector_use demo_host 1))"
    by code_simp
  then show ?thesis by (auto simp: demo_msix_def split: sum.splits)
qed

lemma demo_msix_mode: "interrupt demo_msix = INT_MSIX"
  by code_simp

lemma demo_msix_reachable: "irq_reachable demo_host demo_msix"
proof -
  from demo_steps obtain t where t: "vfio_msix_enable demo_host demo_start = Inr t"
    "vfio_msix_vector_use demo_host 1 t = Inr demo_msix" by (auto simp: bindR_eq_Inr)
  from irq_next [OF demo_reachable step_msix_enable [OF t(1)]] have r: "irq_reachable demo_host t" .
  from msix_enable_in_msix [OF demo_ok] demo_reachable t(1) have "interrupt t = INT_MSIX"
    by (metis Inr_inject in_msix_def msix_shape_def reachable_accounted demo_ok)
  from irq_next [OF r step_use [OF this t(2)]] show ?thesis .
qed

section \<open>Properties\<close>

text \<open>The recursion of \<open>vfio_disable_interrupts\<close> through \<open>vfio_intx_enable\<close> never goes deeper than
  one nested call: any bound from two levels on gives the same result, and never runs out.\<close>

theorem disable_nesting_bounded:
  assumes "host_ok h" and "irq_reachable h s" and "2 \<le> n"
  shows "disable_interrupts n h s = vfio_disable_interrupts h s
    \<and> disable_interrupts n h s \<noteq> Inl Out_Of_Fuel"
proof -
  obtain m where n: "n = Suc (Suc m)" using assms(3) by (metis add_2_eq_Suc le_Suc_ex)
  obtain t where t: "\<And>n. disable_interrupts (Suc (Suc n)) h s = Inr t"
    using disable_interrupts_idle [OF assms(1) reachable_accounted [OF assms(2,1)]] by metis
  show ?thesis by (simp only: n t vfio_disable_interrupts_def numeral_2_eq_2) simp
qed

theorem disable_nesting_bounded_witness:
  "disable_interrupts 7 demo_host demo_msix = vfio_disable_interrupts demo_host demo_msix
   \<and> isl (disable_interrupts 1 demo_host demo_msix)"
proof -
  have "isl (disable_interrupts 1 demo_host demo_msix)" by code_simp
  then show ?thesis
    using disable_nesting_bounded [OF demo_ok demo_msix_reachable, of 7] by simp
qed

text \<open>C16: enabling MSI ends, however few vectors the kernel grants in each round: either in MSI mode with
  every vector in use and the kernel signalling the vector's KVM descriptor, or its own one where
  there is no KVM route, or with nothing enabled and nothing held.\<close>

theorem msi_enable_outcome:
  assumes "host_ok h" and "irq_reachable h s"
  shows "\<exists>t. vfio_msi_enable h s = Inr t
    \<and> (interrupt t = INT_NONE \<and> held t = [] \<and> nr_vectors t = 0
      \<or> interrupt t = INT_MSI \<and> length (msi_vectors t) = nr_vectors t
        \<and> (\<forall>i < nr_vectors t. in_use (msi_vectors t ! i)
            \<and> trigger t IRQ_MSI i = (if virq (msi_vectors t ! i) \<ge> 0 then kvm_interrupt_fd (msi_vectors t ! i)
                                      else interrupt_fd (msi_vectors t ! i))))"
proof -
  from msi_enable_result [OF assms(1) reachable_accounted [OF assms(2,1)]] obtain t where
    t: "vfio_msi_enable h s = Inr t" "idle t \<or> in_msi t \<and> msi_routed t" .
  then show ?thesis
    by (auto simp: idle_def in_msi_def msi_routed_def vector_fd_def)
qed

text \<open>The example host with a kernel that grants a single vector.\<close>

definition demo_scarce :: vfio_host where
  "demo_scarce = demo_host\<lparr>answer := (\<lambda>l c. case c of
     Set_Trigger IRQ_MSI _ fds \<Rightarrow> (if length fds > 1 then 1 else 0) | _ \<Rightarrow> answer demo_host l c)\<rparr>"

text \<open>The mode and the number of vectors an operation ends with.\<close>

definition mode_of :: "vfio_fault + vfio_irq \<Rightarrow> (irq_mode \<times> nat) option" where
  "mode_of r = (case r of Inl _ \<Rightarrow> None | Inr t \<Rightarrow> Some (interrupt t, nr_vectors t))"

theorem msi_enable_outcome_witness:
  "\<exists>t. vfio_msi_enable demo_scarce demo_start = Inr t \<and> interrupt t = INT_MSI \<and> nr_vectors t = 1
     \<and> in_use (msi_vectors t ! 0)"
proof -
  have ok: "host_ok demo_scarce"
    by (auto simp: host_ok_def demo_scarce_def demo_host_def)
  have "irq_reachable demo_scarce demo_start"
    by (rule irq_start) (simp add: irq_initial_def demo_start_def)
  from msi_enable_outcome [OF ok this] obtain t where t: "vfio_msi_enable demo_scarce demo_start = Inr t"
    "interrupt t = INT_NONE \<or> (\<forall>i < nr_vectors t. in_use (msi_vectors t ! i))" by blast
  have "mode_of (vfio_msi_enable demo_scarce demo_start) = Some (INT_MSI, 1)" by code_simp
  with t show ?thesis by (auto simp: mode_of_def)
qed

text \<open>Releasing a used MSI-X vector that has a KVM route only makes the kernel signal QEMU's
  descriptor: the route stays, and using the vector again puts the kernel back on the KVM descriptor
  with the same vectors and resources.\<close>

theorem masking_keeps_route:
  assumes "host_ok h" and "irq_reachable h s" and "interrupt s = INT_MSIX" and "nr < msix_entries h"
    and "in_use (msi_vectors s ! nr)" and "virq (msi_vectors s ! nr) \<ge> 0"
    and "\<forall>l fds. answer h l (Set_Trigger IRQ_MSIX nr fds) = 0"
  shows "\<exists>t u. vfio_msix_vector_release h nr s = Inr t \<and> vfio_msix_vector_use h nr t = Inr u
    \<and> trigger t IRQ_MSIX nr = interrupt_fd (msi_vectors s ! nr)
    \<and> trigger u IRQ_MSIX nr = kvm_interrupt_fd (msi_vectors s ! nr)
    \<and> msi_vectors t = msi_vectors s \<and> msi_vectors u = msi_vectors s \<and> held t = held s \<and> held u = held s"
proof -
  let ?v = "msi_vectors s ! nr"
  have s: "in_msix h s" using reachable_accounted [OF assms(2,1)] assms(3) by (simp add: accounted_def)
  then have len: "nr < length (msi_vectors s)" and n: "nr < nr_vectors s"
    using assms(4,5) by (auto simp: in_msix_def msix_shape_def)
  have fire: "trigger (snd (set_trigger h IRQ_MSIX nr [fd] u)) IRQ_MSIX nr = fd" for fd u
    using assms(7) by (simp add: set_trigger_def ask_def arm_def Let_def)
  define t where "t = snd (set_trigger h IRQ_MSIX nr [interrupt_fd ?v] s)"
  have r: "vfio_msix_vector_release h nr s = Inr t"
    using len assms(6) by (simp add: vfio_msix_vector_release_def t_def)
  have ct: "core t = core s" "held t = held s" by (simp_all add: t_def)
  then have vt: "msi_vectors t = msi_vectors s" "nr_vectors t = nr_vectors s" by (simp_all add: core_def)
  define t1 where "t1 = (vfio_update_kvm_msi_virq ?v nr (qemu_set_fd_handler (interrupt_fd ?v)
    (Some (Msi_Interrupt nr)) t))"
  have c1: "core t1 = core t" "held t1 = held t" by (simp_all add: t1_def vfio_update_kvm_msi_virq_def)
  define t2 where "t2 = t1\<lparr>msi_vectors := (msi_vectors t1)[nr := ?v]\<rparr>"
  have v2: "msi_vectors t2 = msi_vectors s" "nr_vectors t2 = nr_vectors s" "held t2 = held s"
    using c1 vt ct by (simp_all add: t2_def core_def)
  have n1: "nr_vectors t1 = nr_vectors s" using c1 vt by (simp add: core_def)
  define t3 where "t3 = snd (set_trigger h IRQ_MSIX nr [kvm_interrupt_fd ?v] t2)"
  have c3: "core t3 = core t2" "held t3 = held t2" by (simp_all add: t3_def)
  have u: "vfio_msix_vector_use h nr t = Inr (use_pending nr t3)"
    using len n vt v2 n1 assms(5,6)
    by (simp add: vfio_msix_vector_use_def vfio_msix_vector_do_use_def use_first_def use_route_def
        use_trigger_def t1_def [symmetric] t2_def [symmetric] t3_def [symmetric] Let_def)
  have p: "trigger (use_pending nr w) = trigger w" "held (use_pending nr w) = held w"
    "msi_vectors (use_pending nr w) = msi_vectors w" for w
    by (simp_all add: use_pending_def Let_def act_def)
  have "trigger t IRQ_MSIX nr = interrupt_fd ?v" "trigger t3 IRQ_MSIX nr = kvm_interrupt_fd ?v"
    unfolding t_def t3_def by (rule fire)+
  with r u p ct c3 v2 vt show ?thesis by (auto simp: core_def)
qed

theorem masking_keeps_route_witness:
  "\<exists>t u. vfio_msix_vector_release demo_host 1 demo_msix = Inr t \<and> vfio_msix_vector_use demo_host 1 t = Inr u
    \<and> held u = held demo_msix"
proof -
  have "in_use (msi_vectors demo_msix ! 1)" "virq (msi_vectors demo_msix ! 1) \<ge> 0" by code_simp+
  moreover have "1 < msix_entries demo_host" "\<forall>l fds. answer demo_host l (Set_Trigger IRQ_MSIX 1 fds) = 0"
    by (simp_all add: demo_host_def)
  ultimately show ?thesis
    using masking_keeps_route [OF demo_ok demo_msix_reachable demo_msix_mode] by blast
qed

section \<open>A failure that is only reported\<close>

lemma add_virq_interrupt:
  "interrupt_fd (fst (vfio_add_kvm_msi_virq h n m v s)) = interrupt_fd v"
  "handlers (snd (vfio_add_kvm_msi_virq h n m v s)) = handlers s"
  "msi_vectors (snd (vfio_add_kvm_msi_virq h n m v s)) = msi_vectors s"
  by (simp_all add: vfio_add_kvm_msi_virq_def call_defs Let_def split_def)

text \<open>When the event descriptor of an MSI vector cannot be had, the code goes on with descriptor 0
  of the zeroed vector: it takes over the main loop's handler of descriptor 0, and freeing the vector
  closes descriptor 0, which the device never opened.\<close>

theorem failed_notifier_closes_zero:
  assumes "i < length (msi_vectors s)" and "msi_vectors s ! i = zero_vector"
    and "answer h (calls s) (Notifier_Init For_Vector) < 0"
  shows "\<exists>t u. setup_vector h i s = Inr t \<and> handlers t 0 = Some (Msi_Interrupt i)
    \<and> free_vector i t = Inr u \<and> hd (calls u) = Notifier_Cleanup 0"
proof -
  let ?v = "zero_vector\<lparr>virq := - 1, in_use := True\<rparr>"
  define s1 where "s1 = qemu_set_fd_handler 0 (Some (Msi_Interrupt i)) (act (Notifier_Init For_Vector) s)"
  obtain v t0 where k: "vfio_add_kvm_msi_virq h i False ?v s1 = (v, t0)" by (meson surj_pair)
  have a: "interrupt_fd v = 0" "handlers t0 = handlers s1" "msi_vectors t0 = msi_vectors s1"
    using add_virq_interrupt [of h i False ?v s1] k by (simp_all add: zero_vector_def)
  define t where "t = t0\<lparr>msi_vectors := (msi_vectors t0)[i := v]\<rparr>"
  have st: "setup_vector h i s = Inr t"
    using assms k by (simp add: setup_vector_def event_notifier_init_def ask_def s1_def t_def zero_vector_def)
  have i: "i < length (msi_vectors t)" "msi_vectors t ! i = v" "handlers t 0 = Some (Msi_Interrupt i)"
    using a assms(1) by (simp_all add: t_def s1_def call_defs)
  obtain w t1 where w: "(if virq v \<ge> 0 then vfio_remove_kvm_msi_virq v t else (v, t)) = (w, t1)"
    by (meson surj_pair)
  then have "interrupt_fd w = 0"
    using a(1) by (auto simp: vfio_remove_kvm_msi_virq_def Let_def split: if_splits)
  moreover have "free_vector i t = Inr (event_notifier_cleanup (interrupt_fd w)
      (qemu_set_fd_handler (interrupt_fd w) None (t1\<lparr>msi_vectors := (msi_vectors t1)[i := w]\<rparr>)))"
    using i w by (simp add: free_vector_def Let_def)
  ultimately show ?thesis
    using st i(3) by (simp add: event_notifier_cleanup_def discard_def act_def)
qed

text \<open>The example host with no event descriptor left.\<close>

definition demo_no_fd :: vfio_host where
  "demo_no_fd = demo_host\<lparr>answer := (\<lambda>l c. case c of
     Notifier_Init _ \<Rightarrow> - 24 | _ \<Rightarrow> answer demo_host l c)\<rparr>"

theorem failed_notifier_closes_zero_witness:
  "\<exists>t u. setup_vector demo_no_fd 0 (demo_start\<lparr>msi_vectors := [zero_vector]\<rparr>) = Inr t
    \<and> free_vector 0 t = Inr u \<and> hd (calls u) = Notifier_Cleanup 0"
  using failed_notifier_closes_zero [of 0 "demo_start\<lparr>msi_vectors := [zero_vector]\<rparr>" demo_no_fd]
  by (auto simp: demo_no_fd_def)

end
