(* ===== verification/Vfio_Region.thy ===== *)
theory Vfio_Region
  imports Vfio_State
begin

text \<open>
  The memory regions of a passthrough device's BARs, from \<open>hw/vfio/pci.c\<close>: finding the MSI-X table
  before the BARs are mapped, cutting it out of the mapping, and growing a BAR smaller than a page.
  Offsets and sizes are natural numbers: they stay far below \<open>2 ^ 63\<close>, the bound of \<open>off_t\<close>.
\<close>

section \<open>Cutting the MSI-X table out of a mapping\<close>

record vfio_mmap =
  mm_offset :: nat
  mm_size :: nat

record vfio_region =
  region_size :: nat
  mmaps :: "vfio_mmap list"

record msix_info =
  table_bar :: nat
  pba_bar :: nat
  entries :: nat
  table_offset :: nat
  pba_offset :: nat

definition page_down :: "nat \<Rightarrow> nat \<Rightarrow> nat" where
  "page_down page x = x - x mod page"

definition page_up :: "nat \<Rightarrow> nat \<Rightarrow> nat" where
  "page_up page x = (x + (page - 1)) div page * page"

definition table_start :: "nat \<Rightarrow> msix_info \<Rightarrow> nat" where
  "table_start page m = page_down page (table_offset m)"

definition table_end :: "nat \<Rightarrow> msix_info \<Rightarrow> nat" where
  "table_end page m = page_up page (table_offset m + entries m * 16)"

definition vfio_pci_fixup_msix_region :: "nat \<Rightarrow> msix_info \<Rightarrow> vfio_region \<Rightarrow> vfio_region" where
  "vfio_pci_fixup_msix_region page m r =
     (case mmaps r of
        [w] \<Rightarrow>
          if mm_offset w \<noteq> 0 \<or> region_size r \<noteq> mm_size w then r
          else
            let start = table_start page m; last = table_end page m in
            if start = 0
            then if last \<ge> region_size r then r\<lparr>mmaps := []\<rparr>
                 else r\<lparr>mmaps := [w\<lparr>mm_offset := last, mm_size := region_size r - last\<rparr>]\<rparr>
            else if last \<ge> region_size r then r\<lparr>mmaps := [w\<lparr>mm_size := start\<rparr>]\<rparr>
            else r\<lparr>mmaps := [w\<lparr>mm_size := start\<rparr>, w\<lparr>mm_offset := last, mm_size := region_size r - last\<rparr>]\<rparr>
      | _ \<Rightarrow> r)"

section \<open>Finding the table\<close>

text \<open>
  \<open>vfio_msix_early_setup\<close>: the three words of the capability, each \<open>None\<close> when reading it fails. A
  BAR indicator is three bits wide, and the device has six BARs.
\<close>

definition PCI_VENDOR_ID_CHELSIO :: u32 where "PCI_VENDOR_ID_CHELSIO = 0x1425"

definition decode_msix :: "u16 \<Rightarrow> u32 \<Rightarrow> u32 \<Rightarrow> msix_info" where
  "decode_msix ctrl table pba =
     \<lparr>table_bar = unat (and table 7), pba_bar = unat (and pba 7), entries = unat (and ctrl 0x7FF) + 1,
      table_offset = unat (and table (not 7)), pba_offset = unat (and pba (not 7))\<rparr>"

datatype msix_setup = No_Msix | Setup_Failed | Setup msix_info "vfio_region list"

definition place_pba :: "u32 \<Rightarrow> u32 \<Rightarrow> vfio_region list \<Rightarrow> msix_info \<Rightarrow> vfio_fault + msix_info option" where
  "place_pba vendor device bars m =
     (if length bars \<le> pba_bar m then Inl Out_Of_Bounds
      else if pba_offset m \<ge> region_size (bars ! pba_bar m)
      then if vendor = PCI_VENDOR_ID_CHELSIO \<and> and device 0xff00 = 0x5800
           then Inr (Some (m\<lparr>pba_offset := 0x1000\<rparr>)) else Inr None
      else Inr (Some m))"

definition vfio_msix_early_setup ::
    "nat \<Rightarrow> u32 \<Rightarrow> u32 \<Rightarrow> u8 \<Rightarrow> u16 option \<Rightarrow> u32 option \<Rightarrow> u32 option \<Rightarrow> vfio_region list
     \<Rightarrow> vfio_fault + msix_setup" where
  "vfio_msix_early_setup page vendor device pos ctrl table pba bars =
     (if pos = 0 then Inr No_Msix
      else case (ctrl, table, pba) of
        (Some c, Some t, Some p) \<Rightarrow>
          bindR (place_pba vendor device bars (decode_msix c t p)) (\<lambda>placed.
          case placed of
            None \<Rightarrow> Inr Setup_Failed
          | Some m \<Rightarrow>
              if length bars \<le> table_bar m then Inl Out_Of_Bounds
              else Inr (Setup m (bars[table_bar m :=
                vfio_pci_fixup_msix_region page m (bars ! table_bar m)])))
      | _ \<Rightarrow> Inr Setup_Failed)"

section \<open>BARs smaller than a page\<close>

datatype region_call = Set_Region_Size nat | Set_Mmap_Size nat | Remap nat

definition vfio_sub_page_bar_update_mapping ::
    "nat \<Rightarrow> nat option \<Rightarrow> bool \<Rightarrow> bool \<Rightarrow> vfio_region \<Rightarrow> region_call list" where
  "vfio_sub_page_bar_update_mapping page bar_addr mmapped is_mapped r =
     (case mmaps r of
        [w] \<Rightarrow>
          if \<not> mmapped \<or> mm_size w \<noteq> region_size r then []
          else
            let size = (case bar_addr of
                  None \<Rightarrow> region_size r
                | Some a \<Rightarrow> if a mod page = 0 then page else region_size r)
            in [Set_Region_Size size, Set_Mmap_Size size]
               @ (case bar_addr of
                    None \<Rightarrow> []
                  | Some a \<Rightarrow> if size \<noteq> region_size r \<and> is_mapped then [Remap a] else [])
      | _ \<Rightarrow> [])"

section \<open>Properties\<close>

definition mapped_at :: "vfio_region \<Rightarrow> nat \<Rightarrow> bool" where
  "mapped_at r x \<longleftrightarrow> list_ex (\<lambda>w. mm_offset w \<le> x \<and> x < mm_offset w + mm_size w) (mmaps r)"

lemma page_down_le: "page_down page x \<le> x"
  by (simp add: page_down_def)

lemma page_down_dvd: "page dvd page_down page x"
  by (simp add: page_down_def minus_mod_eq_mult_div)

lemma page_up_ge: "0 < page \<Longrightarrow> x \<le> page_up page x"
proof -
  assume p: "0 < page"
  have "x + (page - 1) = (x + (page - 1)) div page * page + (x + (page - 1)) mod page"
    by (simp only: div_mult_mod_eq)
  moreover have "(x + (page - 1)) mod page \<le> page - 1" using p by (metis Suc_pred' less_Suc_eq_le mod_less_divisor)
  ultimately show ?thesis unfolding page_up_def by linarith
qed

lemma page_up_dvd: "page dvd page_up page x"
  by (simp add: page_up_def)

definition demo_bar :: vfio_region where
  "demo_bar = \<lparr>region_size = 0x4000, mmaps = [\<lparr>mm_offset = 0, mm_size = 0x4000\<rparr>]\<rparr>"

text \<open>C18: for a BAR mapped as a whole that holds the MSI-X table, the fix-up leaves mapped exactly the
  bytes of the BAR outside the host pages of the table: no byte of the table stays mapped, and every
  piece left starts and ends at a host page and is not empty.\<close>

theorem msix_table_not_mapped:
  assumes "mmaps r = [\<lparr>mm_offset = 0, mm_size = region_size r\<rparr>]" and "0 < page"
    and "table_offset m < region_size r" and "page dvd region_size r"
  shows "(\<forall>x. mapped_at (vfio_pci_fixup_msix_region page m r) x \<longleftrightarrow>
      x < region_size r \<and> \<not> (table_start page m \<le> x \<and> x < table_end page m))
    \<and> (\<forall>x. table_offset m \<le> x \<and> x < table_offset m + entries m * 16 \<longrightarrow>
        \<not> mapped_at (vfio_pci_fixup_msix_region page m r) x)
    \<and> (\<forall>w \<in> set (mmaps (vfio_pci_fixup_msix_region page m r)).
        page dvd mm_offset w \<and> page dvd mm_size w \<and> 0 < mm_size w)"
proof (intro conjI allI ballI impI)
  have st: "table_start page m \<le> table_offset m" "page dvd table_start page m" "page dvd table_end page m"
    by (simp_all add: table_start_def table_end_def page_down_le page_down_dvd page_up_dvd)
  have en: "table_offset m + entries m * 16 \<le> table_end page m"
    unfolding table_end_def by (rule page_up_ge [OF assms(2)])
  show maps: "mapped_at (vfio_pci_fixup_msix_region page m r) x \<longleftrightarrow>
      x < region_size r \<and> \<not> (table_start page m \<le> x \<and> x < table_end page m)" for x
    using assms(1,3) st(1) en by (auto simp: mapped_at_def vfio_pci_fixup_msix_region_def Let_def)
  show "\<not> mapped_at (vfio_pci_fixup_msix_region page m r) x"
    if "table_offset m \<le> x \<and> x < table_offset m + entries m * 16" for x
    using that st(1) en unfolding maps by linarith
  fix w assume w: "w \<in> set (mmaps (vfio_pci_fixup_msix_region page m r))"
  show "page dvd mm_offset w" and "page dvd mm_size w" and "0 < mm_size w"
    using w assms(1,4) st(2,3) by (auto simp: vfio_pci_fixup_msix_region_def Let_def split: if_splits)
qed

theorem msix_table_not_mapped_witness:
  "mmaps (vfio_pci_fixup_msix_region 0x1000 (decode_msix 3 0x2000 0x3004) demo_bar) =
     [\<lparr>mm_offset = 0, mm_size = 0x2000\<rparr>, \<lparr>mm_offset = 0x3000, mm_size = 0x1000\<rparr>]
   \<and> \<not> mapped_at (vfio_pci_fixup_msix_region 0x1000 (decode_msix 3 0x2000 0x3004) demo_bar) 0x2010"
proof -
  have t: "table_offset (decode_msix 3 0x2000 0x3004) = 0x2000" "entries (decode_msix 3 0x2000 0x3004) = 4"
    by code_simp+
  have "mmaps (vfio_pci_fixup_msix_region 0x1000 (decode_msix 3 0x2000 0x3004) demo_bar) =
     [\<lparr>mm_offset = 0, mm_size = 0x2000\<rparr>, \<lparr>mm_offset = 0x3000, mm_size = 0x1000\<rparr>]"
    by (simp add: vfio_pci_fixup_msix_region_def demo_bar_def table_start_def table_end_def
        page_down_def page_up_def t)
  moreover have "\<not> mapped_at (vfio_pci_fixup_msix_region 0x1000 (decode_msix 3 0x2000 0x3004) demo_bar) 0x2010"
    by (rule msix_table_not_mapped [THEN conjunct2, THEN conjunct1, rule_format])
      (simp_all add: demo_bar_def t)
  ultimately show ?thesis by blast
qed

text \<open>A device whose MSI-X capability names a BAR above the last makes the set-up read outside the
  array of BARs; with a valid indicator it never does.\<close>

theorem msix_bar_indicator:
  assumes "length bars = 6" and "0 < pos"
  shows "vfio_msix_early_setup page vendor device pos (Some ctrl) (Some table) (Some pba) bars = Inl Out_Of_Bounds
    \<longleftrightarrow> 6 \<le> pba_bar (decode_msix ctrl table pba)
      \<or> 6 \<le> table_bar (decode_msix ctrl table pba)
        \<and> place_pba vendor device bars (decode_msix ctrl table pba) \<noteq> Inr None"
  using assms
  by (auto simp: vfio_msix_early_setup_def place_pba_def decode_msix_def)

end
