(* ===== verification/Bytes.thy ===== *)
theory Bytes
  imports Prelude
begin

text \<open>
  Byte buffers and the little-endian numbers in them: \<open>pci_get_byte\<close>, \<open>pci_get_word\<close>,
  \<open>pci_get_long\<close> and their setters. An access outside the buffer is the fault given.
\<close>

section \<open>Words\<close>

definition get_word :: "u8 list \<Rightarrow> nat \<Rightarrow> 'e \<Rightarrow> 'e + u16" where
  "get_word buf i fault =
     (if i + 1 < length buf
      then Inr (or (ucast (buf ! i)) (push_bit 8 (ucast (buf ! (i + 1))))) else Inl fault)"

definition set_word :: "u8 list \<Rightarrow> nat \<Rightarrow> u16 \<Rightarrow> 'e \<Rightarrow> 'e + u8 list" where
  "set_word buf i v fault =
     (if i + 1 < length buf
      then Inr (buf[i := ucast v, i + 1 := ucast (drop_bit 8 v)]) else Inl fault)"

lemma word_halves:
  fixes v :: u16
  shows "or (ucast (ucast v :: u8)) (push_bit 8 (ucast (ucast (drop_bit 8 v) :: u8))) = v"
proof (rule bit_word_eqI)
  fix n assume "n < LENGTH(16)"
  then show "bit (or (ucast (ucast v :: u8)) (push_bit 8 (ucast (ucast (drop_bit 8 v) :: u8)) :: u16)) n = bit v n"
    by (auto simp: bit_or_iff bit_ucast_iff bit_push_bit_iff bit_drop_bit_eq)
qed

lemma get_word_InrD:
  "get_word buf i f = Inr v \<Longrightarrow> i + 1 < length buf \<and> v = or (ucast (buf ! i)) (push_bit 8 (ucast (buf ! (i + 1))))"
  by (simp add: get_word_def split: if_splits)

lemma set_word_InrD:
  assumes "set_word buf i v f = Inr b"
  shows "get_word b i g = Inr v" and "length b = length buf" and "j \<noteq> i \<Longrightarrow> j \<noteq> i + 1 \<Longrightarrow> b ! j = buf ! j"
proof -
  from assms have b: "i + 1 < length buf" "b = buf[i := ucast v, i + 1 := ucast (drop_bit 8 v)]"
    by (auto simp: set_word_def split: if_splits)
  then show "get_word b i g = Inr v" by (simp add: get_word_def word_halves)
  show "length b = length buf" and "j \<noteq> i \<Longrightarrow> j \<noteq> i + 1 \<Longrightarrow> b ! j = buf ! j" using b by simp_all
qed

section \<open>Bytes and long words\<close>

definition get_byte :: "u8 list \<Rightarrow> nat \<Rightarrow> 'e \<Rightarrow> 'e + u8" where
  "get_byte buf i fault = (if i < length buf then Inr (buf ! i) else Inl fault)"

definition set_byte :: "u8 list \<Rightarrow> nat \<Rightarrow> u8 \<Rightarrow> 'e \<Rightarrow> 'e + u8 list" where
  "set_byte buf i v fault = (if i < length buf then Inr (buf[i := v]) else Inl fault)"

definition get_long :: "u8 list \<Rightarrow> nat \<Rightarrow> 'e \<Rightarrow> 'e + u32" where
  "get_long buf i fault =
     bindR (get_word buf i fault) (\<lambda>lo. bindR (get_word buf (i + 2) fault) (\<lambda>hi.
     Inr (or (ucast lo) (push_bit 16 (ucast hi)))))"

definition set_long :: "u8 list \<Rightarrow> nat \<Rightarrow> u32 \<Rightarrow> 'e \<Rightarrow> 'e + u8 list" where
  "set_long buf i v fault =
     bindR (set_word buf i (ucast v) fault) (\<lambda>buf. set_word buf (i + 2) (ucast (drop_bit 16 v)) fault)"

lemma set_byte_InrD:
  assumes "set_byte buf i v f = Inr b"
  shows "length b = length buf" and "b ! i = v" and "j \<noteq> i \<Longrightarrow> b ! j = buf ! j"
  using assms by (auto simp: set_byte_def split: if_splits)

lemma set_long_InrD:
  assumes "set_long buf i v f = Inr b"
  shows "length b = length buf" and "j < i \<or> i + 4 \<le> j \<Longrightarrow> b ! j = buf ! j"
proof -
  from assms obtain c where c: "set_word buf i (ucast v) f = Inr c"
    "set_word c (i + 2) (ucast (drop_bit 16 v)) f = Inr b"
    by (auto simp: set_long_def elim: bindR_InrE)
  note low = set_word_InrD [OF c(1)] and high = set_word_InrD [OF c(2)]
  show "length b = length buf" using low(2) high(2) by simp
  assume "j < i \<or> i + 4 \<le> j"
  then have "j \<noteq> i" "j \<noteq> i + 1" "j \<noteq> i + 2" "j \<noteq> i + 2 + 1" by auto
  with low(3) high(3) show "b ! j = buf ! j" by metis
qed

end
