(* ===== verification/Vfio_Rom.thy ===== *)
theory Vfio_Rom
  imports Bytes
begin

text \<open>
  The expansion ROM of a passthrough device, from \<open>hw/vfio/pci.c\<close>: its len, reading it from the
  device when the guest first looks at it, and correcting the device number in it, whose checksum is
  then made right again.
\<close>

section \<open>The ROM\<close>

datatype rom_fault = Rom_Overread

record vfio_rom =
  rom :: "u8 list option"
  rom_size :: u32
  rom_offset :: u64
  rom_read_failed :: bool
  vendor_id :: u32
  device_id :: u32

text \<open>
  One answer of \<open>pread\<close>: the bytes read (none at the end of the file) or an error. The loop runs over
  the answers as they come; it has no result while the device only ever answers \<open>EINTR\<close> or
  \<open>EAGAIN\<close>. A read never returns more than was asked for.
\<close>

datatype pread_answer = Got "u8 list" | Failed int

fun rom_loop :: "pread_answer list \<Rightarrow> u8 list \<Rightarrow> nat \<Rightarrow> nat \<Rightarrow> u8 list option" where
  "rom_loop answers buf off 0 = Some buf"
| "rom_loop [] buf off (Suc len) = None"
| "rom_loop (Failed e # as) buf off (Suc len) =
     (if e = EINTR \<or> e = EAGAIN then rom_loop as buf off (Suc len) else Some buf)"
| "rom_loop (Got bs # as) buf off (Suc len) =
     (let got = take (Suc len) bs; n = length got in
      if n = 0 then Some buf
      else rom_loop as (take off buf @ got @ drop (off + n) buf) (off + n) (Suc len - n))"

text \<open>The signature test and the correction of the device number and the checksum.\<close>

definition pcir_at :: "u8 list \<Rightarrow> nat \<Rightarrow> bool" where
  "pcir_at buf w \<longleftrightarrow> take 4 (drop w buf) = [0x50, 0x43, 0x49, 0x52]"

definition fix_checksum :: "nat \<Rightarrow> u8 list \<Rightarrow> u8 list" where
  "fix_checksum n buf =
     (let data = buf[6 := 0] in data[6 := - foldl (\<lambda>csum i. csum + data ! i) 0 [0..<n]])"

definition rom_fixup :: "u32 \<Rightarrow> u32 \<Rightarrow> u32 \<Rightarrow> u8 list \<Rightarrow> rom_fault + u8 list" where
  "rom_fixup vendor device len buf =
     bindR (get_word buf 0 Rom_Overread) (\<lambda>magic.
     if magic \<noteq> 0xaa55 then Inr buf
     else bindR (get_word buf 0x18 Rom_Overread) (\<lambda>w16.
       let w = unat w16 in
       if \<not> (w + 8 < unat len \<and> pcir_at buf w) then Inr buf
       else bindR (get_word buf (w + 4) Rom_Overread) (\<lambda>vid.
         bindR (get_word buf (w + 6) Rom_Overread) (\<lambda>did.
         if ucast vid = vendor \<and> ucast did \<noteq> device
         then bindR (set_word buf (w + 6) (ucast device) Rom_Overread) (\<lambda>buf.
           Inr (fix_checksum (unat len) buf))
         else Inr buf))))"

definition vfio_pci_load_rom ::
    "(u64 \<times> u64) option \<Rightarrow> pread_answer list \<Rightarrow> vfio_rom \<Rightarrow> rom_fault + vfio_rom option" where
  "vfio_pci_load_rom info answers s =
     (case info of
        None \<Rightarrow> Inr (Some s)
      | Some (len, offset) \<Rightarrow>
          let s = s\<lparr>rom_size := ucast len, rom_offset := offset\<rparr> in
          if rom_size s = 0 then Inr (Some (s\<lparr>rom_read_failed := True\<rparr>))
          else case rom_loop answers (replicate (unat len) 0xff) 0 (unat len) of
            None \<Rightarrow> Inr None
          | Some buf \<Rightarrow>
              bindR (rom_fixup (vendor_id s) (device_id s) (rom_size s) buf) (\<lambda>buf.
              Inr (Some (s\<lparr>rom := Some buf\<rparr>))))"

text \<open>
  \<open>vfio_rom_read\<close>: the bytes that are copied over the local union, whose other bytes are whatever the
  stack held (\<open>junk\<close>), read as a little-endian number. Sizes other than 1, 2 and 4 end QEMU.
\<close>

fun le_bytes :: "u8 list \<Rightarrow> u64" where
  "le_bytes [] = 0"
| "le_bytes (b # bs) = or (ucast b) (push_bit 8 (le_bytes bs))"

definition rom_copy :: "vfio_rom \<Rightarrow> u64 \<Rightarrow> nat \<Rightarrow> u8 list \<Rightarrow> rom_fault + u8 list" where
  "rom_copy s addr len junk =
     (let n = (if addr < ucast (rom_size s) then min len (unat (rom_size s) - unat addr) else 0) in
      if n = 0 then Inr junk
      else case rom s of
        None \<Rightarrow> Inl Rom_Overread
      | Some buf \<Rightarrow> Inr (take n (drop (unat addr) buf) @ drop n junk))"

definition vfio_rom_read :: "vfio_rom \<Rightarrow> u64 \<Rightarrow> nat \<Rightarrow> u8 list \<Rightarrow> rom_fault + u64 option" where
  "vfio_rom_read s addr len junk =
     bindR (rom_copy s addr len junk) (\<lambda>val.
     Inr (if len = 1 \<or> len = 2 \<or> len = 4 then Some (le_bytes (take len val)) else None))"

text \<open>
  \<open>vfio_pci_size_rom\<close>: what the ROM BAR holds after all ones are written to it gives its len; the
  answers of the four accesses are the number of bytes moved.
\<close>

datatype rom_setup = Rom_Skipped | Rom_Io_Failed | Rom_None | Rom_Blacklisted | Rom_Registered u32

definition vfio_pci_size_rom ::
    "bool \<Rightarrow> bool \<Rightarrow> bool \<Rightarrow> bool \<Rightarrow> int list \<Rightarrow> u32 \<Rightarrow> rom_setup" where
  "vfio_pci_size_rom romfile rom_bar blacklisted rombar_opt moved probed =
     (if romfile \<or> \<not> rom_bar then Rom_Skipped
      else if list_ex (\<lambda>n. n \<noteq> 4) (take 4 moved) then Rom_Io_Failed
      else
        let len = not (and probed 0xFFFFF800) + 1 in
        if len = 0 then Rom_None
        else if blacklisted \<and> \<not> rombar_opt then Rom_Blacklisted
        else Rom_Registered len)"

section \<open>Lemmas\<close>

lemma rom_loop_length:
  "rom_loop as buf off len = Some buf' \<Longrightarrow> off + len = length buf \<Longrightarrow> length buf' = length buf"
proof (induction as buf off len rule: rom_loop.induct)
  case (4 bs as buf off len)
  then show ?case by (auto simp: Let_def split: if_splits)
qed (auto split: if_splits)

text \<open>Errors that are not final.\<close>

fun again :: "pread_answer \<Rightarrow> bool" where
  "again (Failed e) = (e = EINTR \<or> e = EAGAIN)"
| "again (Got bs) = False"

lemma rom_loop_ends:
  "len \<le> length (filter (\<lambda>a. \<not> again a) as) \<Longrightarrow> rom_loop as buf off len \<noteq> None"
proof (induction as buf off len rule: rom_loop.induct)
  case (4 bs as buf off len)
  show ?case
  proof (cases "take (Suc len) bs = []")
    case True
    then show ?thesis by simp
  next
    case False
    then have "Suc len - length (take (Suc len) bs) \<le> length (filter (\<lambda>a. \<not> again a) as)"
      using "4.prems" by (cases bs) auto
    with "4.IH" [OF refl refl] False show ?thesis by (auto simp: Let_def)
  qed
qed (auto split: if_splits)

lemma sum_fold:
  fixes f :: "nat \<Rightarrow> u8"
  shows "foldl (\<lambda>c i. c + f i) a [0..<n] = a + (\<Sum>i<n. f i)"
  by (induction n) (auto simp: add.assoc)

lemma fix_checksum_sum:
  assumes "6 < n" and "n \<le> length buf"
  shows "(\<Sum>i<n. fix_checksum n buf ! i) = 0"
proof -
  define data where "data = buf[6 := (0 :: u8)]"
  define csum where "csum = (\<Sum>i<n. data ! i)"
  have fx: "fix_checksum n buf = data[6 := - csum]"
    by (simp add: fix_checksum_def sum_fold csum_def data_def)
  have six: "6 \<in> {..<n}" using assms(1) by simp
  have "(\<Sum>i<n. data[6 := - csum] ! i) = - csum + (\<Sum>i\<in>{..<n} - {6}. data[6 := - csum] ! i)"
    using assms six by (subst sum.remove [OF _ six]) (simp_all add: data_def)
  also have "(\<Sum>i\<in>{..<n} - {6}. data[6 := - csum] ! i) = (\<Sum>i\<in>{..<n} - {6}. data ! i)"
    by (rule sum.cong) auto
  also have "\<dots> = csum"
    using assms six unfolding csum_def by (subst sum.remove [OF _ six]) (simp_all add: data_def)
  finally show ?thesis by (simp add: fx)
qed

lemma fix_checksum_other:
  "length (fix_checksum n buf) = length buf"
  "i \<noteq> 6 \<Longrightarrow> fix_checksum n buf ! i = buf ! i"
  by (simp_all add: fix_checksum_def)

lemma get_word_fix: "i \<noteq> 6 \<Longrightarrow> i \<noteq> 5 \<Longrightarrow> get_word (fix_checksum n buf) i f = get_word buf i f"
  by (simp add: get_word_def fix_checksum_other)

lemma rom_fixup_cases:
  assumes "rom_fixup vendor device n buf = Inr buf'"
  obtains "buf' = buf"
  | w b where "0 < w" "w + 8 < unat n" "pcir_at buf w"
    "set_word buf (w + 6) (ucast device) Rom_Overread = Inr b" "buf' = fix_checksum (unat n) b"
proof -
  obtain magic where m: "get_word buf 0 Rom_Overread = Inr magic"
    using assms by (auto simp: rom_fixup_def bindR_eq_Inr)
  show thesis
  proof (cases "magic = 0xaa55")
    case False
    then show ?thesis using assms m that(1) by (simp add: rom_fixup_def)
  next
    case True
    then obtain w16 where w: "get_word buf 0x18 Rom_Overread = Inr w16"
      using assms m by (auto simp: rom_fixup_def bindR_eq_Inr)
    define k where "k = unat w16"
    show ?thesis
    proof (cases "k + 8 < unat n \<and> pcir_at buf k")
      case False
      then show ?thesis using assms m True w that(1) by (simp add: rom_fixup_def k_def)
    next
      case k: True
      from m True have "buf \<noteq> []" and low: "or (ucast (buf ! 0)) (push_bit 8 (ucast (buf ! 1))) = (0xaa55 :: u16)"
        using get_word_InrD [OF m] by auto
      have b0: "buf ! 0 = 0x55"
      proof -
        have "(ucast (or (ucast (buf ! 0)) (push_bit 8 (ucast (buf ! 1))) :: u16) :: u8) = 0x55"
          unfolding low by simp
        moreover have "(ucast (or (ucast (buf ! 0)) (push_bit 8 (ucast (buf ! 1))) :: u16) :: u8) = buf ! 0"
          by (rule bit_word_eqI) (auto simp: bit_ucast_iff bit_or_iff bit_push_bit_iff)
        ultimately show ?thesis by simp
      qed
      have "k \<noteq> 0"
      proof
        assume "k = 0"
        with k \<open>buf \<noteq> []\<close> have "buf ! 0 = 0x50"
          by (cases buf) (auto simp: pcir_at_def)
        with b0 show False by simp
      qed
      moreover obtain vid where v: "get_word buf (k + 4) Rom_Overread = Inr vid"
        using assms m True w k by (auto simp: rom_fixup_def k_def bindR_eq_Inr Let_def)
      moreover obtain did where d: "get_word buf (k + 6) Rom_Overread = Inr did"
        using assms m True w k v by (auto simp: rom_fixup_def k_def bindR_eq_Inr Let_def)
      moreover have "(if ucast vid = vendor \<and> ucast did \<noteq> device
           then bindR (set_word buf (k + 6) (ucast device) Rom_Overread)
             (\<lambda>buf. Inr (fix_checksum (unat n) buf)) else Inr buf) = Inr buf'"
        using assms m True w k v d unfolding k_def
        by (simp add: rom_fixup_def Let_def split del: if_split)
      ultimately show ?thesis
        using k that by (cases "ucast vid = vendor \<and> ucast did \<noteq> device") (auto elim!: bindR_InrE)
    qed
  qed
qed

text \<open>
  A read inside the ROM gives its bytes; one past its end gives what the stack held, since the union
  that is copied over is not initialised.
\<close>

lemma rom_read_inside:
  assumes "rom s = Some buf" and "len \<in> {1, 2, 4}" and "unat addr + len \<le> unat (rom_size s)"
    and "unat (rom_size s) \<le> length buf"
  shows "vfio_rom_read s addr len junk = Inr (Some (le_bytes (take len (drop (unat addr) buf))))"
proof -
  have "unat (ucast (rom_size s) :: u64) = unat (rom_size s)"
    unfolding unsigned_ucast_eq
  proof (rule take_bit_nat_eq_self)
    have "unat (rom_size s) < 2 ^ 32" using unsigned_less [of "rom_size s"] by simp
    then show "unat (rom_size s) < 2 ^ LENGTH(64)" by simp
  qed
  then have "addr < ucast (rom_size s)" using assms(2,3) by (auto simp: word_less_nat_alt)
  with assms show ?thesis
    by (auto simp: vfio_rom_read_def rom_copy_def Let_def)
qed

lemma rom_read_past_end:
  assumes "len \<in> {1, 2, 4}" and "\<not> addr < ucast (rom_size s)"
  shows "vfio_rom_read s addr len junk = Inr (Some (le_bytes (take len junk)))"
  using assms by (auto simp: vfio_rom_read_def rom_copy_def Let_def)

section \<open>Properties\<close>

text \<open>Reading the ROM ends as soon as the device has given as many final answers as the ROM has
  bytes, however often it was interrupted, and fills a buffer of exactly that size.\<close>

theorem rom_read_ends:
  assumes "unat n \<le> length (filter (\<lambda>a. \<not> again a) answers)"
  shows "\<exists>buf. rom_loop answers (replicate (unat (n :: u64)) 0xff) 0 (unat n) = Some buf
    \<and> length buf = unat n"
  using rom_loop_ends [OF assms, of "replicate (unat n) 0xff" 0]
    rom_loop_length [of answers "replicate (unat n) 0xff" 0 "unat n"] by auto

theorem rom_read_ends_witness:
  "\<exists>buf. rom_loop [Failed EINTR, Got [1, 2], Failed EAGAIN, Got [3], Got []]
     (replicate (unat (3 :: u64)) 0xff) 0 (unat (3 :: u64)) = Some buf \<and> length buf = 3"
  using rom_read_ends [of 3 "[Failed EINTR, Got [1, 2], Failed EAGAIN, Got [3], Got []]"] by simp

text \<open>C20: when loading the ROM changes it, the bytes of the ROM then sum up to zero, the device number
  behind the PCI data structure is that of the device, and every other byte but the checksum is as
  read.\<close>

theorem rom_corrected:
  assumes "rom_fixup vendor device n buf = Inr buf'" and "buf' \<noteq> buf" and "length buf = unat n"
  shows "(\<Sum>i<unat n. buf' ! i) = 0 \<and> length buf' = length buf
    \<and> (\<exists>w. pcir_at buf w \<and> get_word buf' (w + 6) () = Inr (ucast device)
         \<and> (\<forall>i. i \<notin> {6, w + 6, w + 7} \<longrightarrow> buf' ! i = buf ! i))"
proof -
  from assms(1,2) obtain w b where w: "0 < w" "w + 8 < unat n" "pcir_at buf w"
    and b: "set_word buf (w + 6) (ucast device) Rom_Overread = Inr b"
    and buf': "buf' = fix_checksum (unat n) b"
    by (cases rule: rom_fixup_cases) auto
  note sb = set_word_InrD [OF b]
  have "(\<Sum>i<unat n. buf' ! i) = 0"
    unfolding buf' using w(2) assms(3) sb(2) by (intro fix_checksum_sum) auto
  moreover have "get_word buf' (w + 6) () = Inr (ucast device)"
    using w(1) sb(1) [of "()"] by (simp add: buf' get_word_fix)
  moreover have "buf' ! i = buf ! i" if "i \<notin> {6, w + 6, w + 7}" for i
    using that sb(3) [of i] by (simp add: buf' fix_checksum_other)
  ultimately show ?thesis using w(3) sb(2) by (auto simp: buf' fix_checksum_other)
qed

text \<open>A ROM of 48 bytes for a device numbered 0x1001, loaded for the device 0x1234.\<close>

definition demo_rom :: "u8 list" where
  "demo_rom = (replicate 48 7)[0 := 0x55, 1 := 0xaa, 0x18 := 0x20, 0x19 := 0, 0x20 := 0x50, 0x21 := 0x43,
     0x22 := 0x49, 0x23 := 0x52, 0x24 := 0x86, 0x25 := 0x80, 0x26 := 1, 0x27 := 0x10]"

theorem rom_corrected_witness:
  "\<exists>buf'. rom_fixup 0x8086 0x1234 48 demo_rom = Inr buf' \<and> (\<Sum>i<48. buf' ! i) = 0 \<and> buf' ! 0x26 = 0x34"
proof -
  have "(case rom_fixup 0x8086 0x1234 48 demo_rom of Inl _ \<Rightarrow> False
      | Inr b \<Rightarrow> b \<noteq> demo_rom \<and> b ! 0x26 = 0x34)" by code_simp
  then obtain buf' where "rom_fixup 0x8086 0x1234 48 demo_rom = Inr buf'" "buf' \<noteq> demo_rom" "buf' ! 0x26 = 0x34"
    by (auto split: sum.splits)
  with rom_corrected [of "0x8086" "0x1234" 48 demo_rom buf'] show ?thesis
    by (auto simp: demo_rom_def)
qed

end
