(* ===== verification/Vfio_Reset.thy ===== *)
theory Vfio_Reset
  imports Vfio_Reach
begin

text \<open>
  Resetting a passthrough device, from \<open>hw/vfio/pci.c\<close>: what is done to the device before and after a
  reset, the choice of the reset mechanism, and the hot reset of the whole bus, which concerns the
  other devices of the bus and the groups that own them.
\<close>

section \<open>Before and after a reset\<close>

text \<open>The accesses to the configuration space; \<open>rd\<close> gives what a read after earlier accesses returns.\<close>

datatype cfg_access = Cfg_Read nat nat | Cfg_Write nat nat u32 | Bar_Write nat u32

definition PCI_COMMAND :: nat where "PCI_COMMAND = 4"
definition PCI_PM_CTRL :: nat where "PCI_PM_CTRL = 4"

text \<open>\<open>PCI_COMMAND_IO | PCI_COMMAND_MEMORY | PCI_COMMAND_MASTER | PCI_COMMAND_INTX_DISABLE\<close>.\<close>

definition cmd_stop_bits :: u16 where "cmd_stop_bits = 0x407"

definition pm_to_d0 :: "(cfg_access list \<Rightarrow> cfg_access \<Rightarrow> u32) \<Rightarrow> nat \<Rightarrow> cfg_access list" where
  "pm_to_d0 rd pm_cap =
     (if pm_cap = 0 then []
      else
        let r = Cfg_Read (pm_cap + PCI_PM_CTRL) 2;
            pmcsr = (ucast (rd [] r) :: u16)
        in if and pmcsr 3 = 0 then [r]
           else [r, Cfg_Write (pm_cap + PCI_PM_CTRL) 2 (ucast (and pmcsr (not 3))), r])"

definition stop_device :: "(cfg_access list \<Rightarrow> cfg_access \<Rightarrow> u32) \<Rightarrow> cfg_access list \<Rightarrow> cfg_access list" where
  "stop_device rd tr =
     (let r = Cfg_Read PCI_COMMAND 2;
          cmd = (ucast (rd tr r) :: u16)
      in tr @ [r, Cfg_Write PCI_COMMAND 2 (ucast (and cmd (not cmd_stop_bits)))])"

definition vfio_pci_pre_reset ::
    "vfio_host \<Rightarrow> (cfg_access list \<Rightarrow> cfg_access \<Rightarrow> u32) \<Rightarrow> nat \<Rightarrow> vfio_irq
     \<Rightarrow> vfio_fault + vfio_irq \<times> cfg_access list" where
  "vfio_pci_pre_reset h rd pm_cap s =
     bindR (vfio_disable_interrupts h s) (\<lambda>s. Inr (s, stop_device rd (pm_to_d0 rd pm_cap)))"

definition vfio_pci_post_reset :: "vfio_host \<Rightarrow> vfio_irq \<Rightarrow> vfio_fault + vfio_irq \<times> cfg_access list" where
  "vfio_pci_post_reset h s =
     bindR (vfio_intx_enable h s) (\<lambda>(_, s). Inr (s, map (\<lambda>nr. Bar_Write nr 0) [0..<6]))"

section \<open>Hot reset\<close>

text \<open>\<open>%04x:%02x:%02x.%1x\<close> into a buffer of 13 characters.\<close>

definition hex_digit :: "nat \<Rightarrow> char" where
  "hex_digit n = ''0123456789abcdef'' ! n"

fun hex :: "nat \<Rightarrow> string" where
  "hex n = (if n < 16 then [hex_digit n] else hex (n div 16) @ [hex_digit (n mod 16)])"

definition hex_pad :: "nat \<Rightarrow> nat \<Rightarrow> string" where
  "hex_pad w n = replicate (w - length (hex n)) (CHR ''0'') @ hex n"

record dependent_device =
  dep_group :: nat
  dep_segment :: u16
  dep_bus :: u8
  dep_devfn :: u8

definition host_name :: "dependent_device \<Rightarrow> string" where
  "host_name d = hex_pad 4 (unat (dep_segment d)) @ '':'' @ hex_pad 2 (unat (dep_bus d)) @ '':''
     @ hex_pad 2 (unat (dep_devfn d) div 8) @ ''.'' @ hex_pad 1 (unat (dep_devfn d) mod 8)"

definition vfio_pci_host_match :: "dependent_device \<Rightarrow> string \<Rightarrow> vfio_fault + bool" where
  "vfio_pci_host_match d name =
     (if 13 \<le> length (host_name d) then Inl Out_Of_Bounds else Inr (host_name d = name))"

text \<open>The groups QEMU owns, each with its devices: whether a device is a PCI device, and its name.\<close>

record vfio_group =
  groupid :: nat
  group_fd :: int
  members :: "(bool \<times> string) list"

datatype reset_event = Pre_Reset string | Post_Reset string | Clear_Needs_Reset string
  | Get_Info | Bus_Reset "int list" | Reset_Fn | Device_Reset

fun group_of :: "vfio_group list \<Rightarrow> nat \<Rightarrow> vfio_group option" where
  "group_of [] n = None"
| "group_of (g # gs) n = (if groupid g = n then Some g else group_of gs n)"

fun member_of :: "(bool \<times> string) list \<Rightarrow> dependent_device \<Rightarrow> vfio_fault + string option" where
  "member_of [] d = Inr None"
| "member_of ((pci, name) # ms) d =
     (if \<not> pci then member_of ms d
      else bindR (vfio_pci_host_match d name) (\<lambda>m. if m then Inr (Some name) else member_of ms d))"

datatype prepared = Verified bool | Not_Owned | In_Use

text \<open>The loop that verifies the groups and prepares the other devices, with \<open>multi\<close>.\<close>

fun prepare_deps :: "string \<Rightarrow> bool \<Rightarrow> vfio_group list \<Rightarrow> bool \<Rightarrow> dependent_device list
    \<Rightarrow> vfio_fault + prepared \<times> reset_event list" where
  "prepare_deps self single gs multi [] = Inr (Verified multi, [])"
| "prepare_deps self single gs multi (d # ds) =
     bindR (vfio_pci_host_match d self) (\<lambda>m.
     if m then prepare_deps self single gs multi ds
     else case group_of gs (dep_group d) of
       None \<Rightarrow> Inr (Not_Owned, [])
     | Some g \<Rightarrow>
         bindR (member_of (members g) d) (\<lambda>found.
         case found of
           None \<Rightarrow> prepare_deps self single gs multi ds
         | Some name \<Rightarrow>
             if single then Inr (In_Use, [])
             else bindR (prepare_deps self single gs True ds) (\<lambda>(r, ev).
               Inr (r, Pre_Reset name # Clear_Needs_Reset name # ev))))"

text \<open>The loop at \<open>out\<close> that enables INTx again.\<close>

fun restore_deps :: "string \<Rightarrow> vfio_group list \<Rightarrow> dependent_device list \<Rightarrow> vfio_fault + reset_event list" where
  "restore_deps self gs [] = Inr []"
| "restore_deps self gs (d # ds) =
     bindR (vfio_pci_host_match d self) (\<lambda>m.
     if m then restore_deps self gs ds
     else case group_of gs (dep_group d) of
       None \<Rightarrow> Inr []
     | Some g \<Rightarrow>
         bindR (member_of (members g) d) (\<lambda>found.
         bindR (restore_deps self gs ds) (\<lambda>ev.
         Inr (case found of None \<Rightarrow> ev | Some name \<Rightarrow> Post_Reset name # ev))))"

definition owns_dep :: "dependent_device list \<Rightarrow> vfio_group \<Rightarrow> bool" where
  "owns_dep ds g = list_ex (\<lambda>d. groupid g = dep_group d) ds"

text \<open>Counting the group descriptors, and filling an array of that many.\<close>

definition count_groups :: "dependent_device list \<Rightarrow> vfio_group list \<Rightarrow> nat" where
  "count_groups ds gs = foldl (\<lambda>n g. if owns_dep ds g then n + 1 else n) 0 gs"

fun fill_fds :: "dependent_device list \<Rightarrow> vfio_group list \<Rightarrow> nat \<Rightarrow> int list \<Rightarrow> vfio_fault + int list" where
  "fill_fds ds [] n fds = Inr fds"
| "fill_fds ds (g # gs) n fds =
     (if owns_dep ds g
      then if length fds \<le> n then Inl Out_Of_Bounds else fill_fds ds gs (n + 1) (fds[n := group_fd g])
      else fill_fds ds gs n fds)"

text \<open>What the two calls of \<open>VFIO_DEVICE_GET_PCI_HOT_RESET_INFO\<close> and the reset itself return.\<close>

record reset_answers =
  first_info :: int
  second_info :: int
  info_devices :: "dependent_device list"
  bus_reset :: int

definition hot_reset_out :: "string \<Rightarrow> bool \<Rightarrow> vfio_group list \<Rightarrow> dependent_device list
    \<Rightarrow> int \<Rightarrow> reset_event list \<Rightarrow> vfio_fault + int \<times> reset_event list" where
  "hot_reset_out self single gs ds ret ev =
     bindR (restore_deps self gs ds) (\<lambda>post.
     Inr (ret, ev @ post @ (if single then [] else [Post_Reset self])))"

definition vfio_pci_hot_reset :: "reset_answers \<Rightarrow> vfio_group list \<Rightarrow> string \<Rightarrow> bool
    \<Rightarrow> vfio_fault + int \<times> reset_event list" where
  "vfio_pci_hot_reset a gs self single =
     (let start = (if single then [] else [Pre_Reset self]) @ [Clear_Needs_Reset self, Get_Info];
          out_single = (\<lambda>ret ev. Inr (ret, ev @ (if single then [] else [Post_Reset self])))
      in if first_info a \<noteq> 0 \<and> first_info a \<noteq> - ENOSPC then out_single (first_info a) start
         else if second_info a \<noteq> 0 then out_single (second_info a) (start @ [Get_Info])
         else
           let ds = info_devices a in
           bindR (prepare_deps self single gs False ds) (\<lambda>(r, pre).
           let ev = start @ [Get_Info] @ pre in
           case r of
             In_Use \<Rightarrow> out_single (- EINVAL) ev
           | Not_Owned \<Rightarrow> hot_reset_out self single gs ds (- EPERM) ev
           | Verified multi \<Rightarrow>
               if \<not> single \<and> \<not> multi then out_single (- EINVAL) ev
               else bindR (fill_fds ds gs 0 (replicate (count_groups ds gs) 0)) (\<lambda>fds.
                 hot_reset_out self single gs ds (bus_reset a) (ev @ [Bus_Reset fds]))))"

definition vfio_pci_hot_reset_one :: "reset_answers \<Rightarrow> vfio_group list \<Rightarrow> string \<Rightarrow> vfio_fault + int \<times> reset_event list" where
  "vfio_pci_hot_reset_one a gs self = vfio_pci_hot_reset a gs self True"

definition vfio_pci_hot_reset_multi :: "reset_answers \<Rightarrow> vfio_group list \<Rightarrow> string \<Rightarrow> vfio_fault + int \<times> reset_event list" where
  "vfio_pci_hot_reset_multi a gs self = vfio_pci_hot_reset a gs self False"

definition vfio_pci_compute_needs_reset :: "bool \<Rightarrow> bool \<Rightarrow> bool \<Rightarrow> bool \<Rightarrow> bool" where
  "vfio_pci_compute_needs_reset reset_works has_flr has_pm_reset needs_reset =
     (if \<not> reset_works \<or> \<not> has_flr \<and> has_pm_reset then True else needs_reset)"

text \<open>
  \<open>vfio_pci_reset\<close>: a device specific function, the reset of the device itself, the reset of its bus,
  and a power management reset, the first that works. \<open>resetfn\<close> is the result of the device's own
  function, if it has one, and \<open>device_reset\<close> the result of its first \<open>VFIO_DEVICE_RESET\<close>;
  that of the last one makes no difference.
\<close>

record reset_device =
  resetfn :: "int option"
  reset_works :: bool
  has_flr :: bool
  has_pm_reset :: bool
  device_reset :: int

definition pm_reset :: "reset_device \<Rightarrow> reset_event list" where
  "pm_reset d = (if reset_works d \<and> has_pm_reset d then [Device_Reset] else [])"

definition reset_methods :: "reset_device \<Rightarrow> reset_answers \<Rightarrow> vfio_group list \<Rightarrow> string
    \<Rightarrow> vfio_fault + reset_event list" where
  "reset_methods d a gs self =
     (let fn = (case resetfn d of None \<Rightarrow> [] | Some _ \<Rightarrow> [Reset_Fn]) in
      if resetfn d = Some 0 then Inr fn
      else
        let try = reset_works d \<and> (has_flr d \<or> \<not> has_pm_reset d);
            ev = fn @ (if try then [Device_Reset] else [])
        in if try \<and> device_reset d = 0 then Inr ev
           else bindR (vfio_pci_hot_reset_one a gs self) (\<lambda>(ret, hot).
             if ret = 0 then Inr (ev @ hot)
             else Inr (ev @ hot @ pm_reset d)))"

definition vfio_pci_reset :: "reset_device \<Rightarrow> reset_answers \<Rightarrow> vfio_group list \<Rightarrow> string
    \<Rightarrow> vfio_fault + reset_event list" where
  "vfio_pci_reset d a gs self =
     bindR (reset_methods d a gs self) (\<lambda>ev. Inr (Pre_Reset self # ev @ [Post_Reset self]))"

end
