(* ===== verification/Vfio_Reset_Props.thy ===== *)
theory Vfio_Reset_Props
  imports Vfio_Reset Vfio_Irq_Props
begin

text \<open>
  The properties of the resets: the name buffer is never overrun, a hot reset enables again exactly
  the devices it prepared and passes exactly the groups concerned, and a device is quiet before it is
  reset.
\<close>

section \<open>Names\<close>

declare hex.simps [simp del]

lemma hex_length: "n < 16 ^ Suc k \<Longrightarrow> length (hex n) \<le> Suc k"
proof (induction k arbitrary: n)
  case 0
  then show ?case by (simp add: hex.simps)
next
  case (Suc k)
  then have "n div 16 < 16 ^ Suc k" by (simp add: less_mult_imp_div_less)
  from Suc.IH [OF this] show ?case by (subst hex.simps) simp
qed

lemma hex_pad_length: "0 < w \<Longrightarrow> n < 16 ^ w \<Longrightarrow> length (hex_pad w n) = w"
  using hex_length [of n "w - 1"] by (simp add: hex_pad_def)

lemma host_name_length: "length (host_name d) = 12"
proof -
  have "unat (dep_segment d) < 65536" and "unat (dep_bus d) < 256" and fn: "unat (dep_devfn d) < 256"
    using unsigned_less [of "dep_segment d"] unsigned_less [of "dep_bus d"]
      unsigned_less [of "dep_devfn d"] by simp_all
  then have "length (hex_pad 4 (unat (dep_segment d))) = 4" "length (hex_pad 2 (unat (dep_bus d))) = 2"
    by (simp_all add: hex_pad_length)
  moreover have "unat (dep_devfn d) div 8 < 256" "unat (dep_devfn d) mod 8 < 16"
    using fn by linarith+
  then have "length (hex_pad 2 (unat (dep_devfn d) div 8)) = 2"
    "length (hex_pad 1 (unat (dep_devfn d) mod 8)) = 1"
    by (simp_all add: hex_pad_length)
  ultimately show ?thesis unfolding host_name_def by (simp only: length_append) simp
qed

lemma host_match [simp]: "vfio_pci_host_match d name = Inr (host_name d = name)"
  by (simp add: vfio_pci_host_match_def host_name_length)

fun the_member :: "(bool \<times> string) list \<Rightarrow> dependent_device \<Rightarrow> string option" where
  "the_member [] d = None"
| "the_member ((pci, name) # ms) d = (if pci \<and> host_name d = name then Some name else the_member ms d)"

lemma member_of_eq [simp]: "member_of ms d = Inr (the_member ms d)"
  by (induction ms d rule: the_member.induct) auto

section \<open>What a hot reset prepares and restores\<close>

fun pre_names :: "reset_event list \<Rightarrow> string list" where
  "pre_names [] = []"
| "pre_names (e # es) = (case e of Pre_Reset n \<Rightarrow> n # pre_names es | _ \<Rightarrow> pre_names es)"

fun post_names :: "reset_event list \<Rightarrow> string list" where
  "post_names [] = []"
| "post_names (e # es) = (case e of Post_Reset n \<Rightarrow> n # post_names es | _ \<Rightarrow> post_names es)"

lemma names_append [simp]:
  "pre_names (xs @ ys) = pre_names xs @ pre_names ys"
  "post_names (xs @ ys) = post_names xs @ post_names ys"
  by (induction xs) (auto split: reset_event.split)

text \<open>The devices concerned, up to the first whose group is not owned.\<close>

fun concerned :: "string \<Rightarrow> vfio_group list \<Rightarrow> dependent_device list \<Rightarrow> string list" where
  "concerned self gs [] = []"
| "concerned self gs (d # ds) =
     (if host_name d = self then concerned self gs ds
      else case group_of gs (dep_group d) of None \<Rightarrow> []
        | Some g \<Rightarrow> (case the_member (members g) d of None \<Rightarrow> [] | Some n \<Rightarrow> [n]) @ concerned self gs ds)"

definition all_owned :: "string \<Rightarrow> vfio_group list \<Rightarrow> dependent_device list \<Rightarrow> bool" where
  "all_owned self gs ds = list_all (\<lambda>d. host_name d = self \<or> group_of gs (dep_group d) \<noteq> None) ds"

definition prepare_events :: "string list \<Rightarrow> reset_event list" where
  "prepare_events ns = concat (map (\<lambda>n. [Pre_Reset n, Clear_Needs_Reset n]) ns)"

lemma prepare_multi:
  "prepare_deps self False gs multi ds =
     Inr (if all_owned self gs ds then Verified (multi \<or> concerned self gs ds \<noteq> []) else Not_Owned,
          prepare_events (concerned self gs ds))"
  by (induction ds arbitrary: multi) (auto simp: all_owned_def prepare_events_def split: option.split)

lemma names_prepare [simp]: "pre_names (prepare_events ns) = ns" "post_names (prepare_events ns) = []"
  by (induction ns) (auto simp: prepare_events_def)

lemma prepare_single:
  "prepare_deps self True gs multi ds =
     Inr (if concerned self gs ds \<noteq> [] then In_Use
          else if all_owned self gs ds then Verified multi else Not_Owned, [])"
  by (induction ds) (auto simp: all_owned_def split: option.split)

lemma restore_eq: "restore_deps self gs ds = Inr (map Post_Reset (concerned self gs ds))"
  by (induction ds) (auto split: option.split)

lemma names_post [simp]: "pre_names (map Post_Reset ns) = []" "post_names (map Post_Reset ns) = ns"
  by (induction ns) auto

lemma count_groups_eq: "count_groups ds gs = length (filter (owns_dep ds) gs)"
proof -
  have "foldl (\<lambda>n g. if owns_dep ds g then n + 1 else n) k gs = k + length (filter (owns_dep ds) gs)" for k
    by (induction gs arbitrary: k) auto
  then show ?thesis by (simp add: count_groups_def)
qed

lemma fill_fds_eq:
  "length fds = n + length (filter (owns_dep ds) gs) \<Longrightarrow>
   fill_fds ds gs n fds = Inr (take n fds @ map group_fd (filter (owns_dep ds) gs))"
proof (induction gs arbitrary: n fds)
  case Nil
  then show ?case by simp
next
  case (Cons g gs)
  then show ?case by (auto simp: take_Suc_conv_app_nth)
qed

definition affected_fds :: "dependent_device list \<Rightarrow> vfio_group list \<Rightarrow> int list" where
  "affected_fds ds gs = map group_fd (filter (owns_dep ds) gs)"

lemma fill_fds_all: "fill_fds ds gs 0 (replicate (count_groups ds gs) 0) = Inr (affected_fds ds gs)"
  by (simp add: count_groups_eq fill_fds_eq affected_fds_def)

section \<open>Properties\<close>

definition demo_dep :: "nat \<Rightarrow> u8 \<Rightarrow> dependent_device" where
  "demo_dep n fn = \<lparr>dep_group = n, dep_segment = 0, dep_bus = 5, dep_devfn = fn\<rparr>"

definition demo_groups :: "vfio_group list" where
  "demo_groups = [\<lparr>groupid = 7, group_fd = 20, members = [(False, ''x''), (True, ''0000:05:00.1'')]\<rparr>,
     \<lparr>groupid = 9, group_fd = 21, members = []\<rparr>, \<lparr>groupid = 3, group_fd = 22, members = [(True, ''0000:05:00.0'')]\<rparr>]"

definition demo_answers :: reset_answers where
  "demo_answers = \<lparr>first_info = - ENOSPC, second_info = 0,
     info_devices = [demo_dep 3 0, demo_dep 7 1], bus_reset = 0\<rparr>"

text \<open>C19: whatever the kernel answers and whatever groups are owned, a hot reset returns, and the devices
  it prepared for the reset are exactly those it then enables again; restricted to a single device in
  use it touches no device at all.\<close>

theorem hot_reset_balanced:
  "\<exists>ret ev. vfio_pci_hot_reset a gs self single = Inr (ret, ev)
     \<and> mset (pre_names ev) = mset (post_names ev)
     \<and> (if single then pre_names ev = [] else hd ev = Pre_Reset self \<and> last ev = Post_Reset self)"
proof (cases single)
  case True
  then show ?thesis
    by (auto simp: vfio_pci_hot_reset_def hot_reset_out_def prepare_single restore_eq fill_fds_all Let_def)
next
  case False
  then show ?thesis
    by (auto simp: vfio_pci_hot_reset_def hot_reset_out_def prepare_multi restore_eq fill_fds_all Let_def)
qed

text \<open>A hot reset that reaches the kernel's reset passes it exactly the descriptors of the owned
  groups that have a device on the bus, and only when the group of every other device is owned.\<close>

theorem hot_reset_passes_groups:
  assumes "vfio_pci_hot_reset a gs self single = Inr (ret, ev)" and "Bus_Reset fds \<in> set ev"
  shows "fds = affected_fds (info_devices a) gs
    \<and> (\<forall>d \<in> set (info_devices a). host_name d = self \<or> (\<exists>g \<in> set gs. groupid g = dep_group d))"
proof -
  have own: "\<exists>g \<in> set gs. groupid g = n" if "group_of gs n = Some g" for n g
    using that by (induction gs) (auto split: if_splits)
  have no: "Bus_Reset fds \<notin> set (prepare_events ns)" for ns
    by (induction ns) (auto simp: prepare_events_def)
  have "fds = affected_fds (info_devices a) gs \<and> all_owned self gs (info_devices a)"
    using assms no
    by (cases single)
      (auto simp: vfio_pci_hot_reset_def hot_reset_out_def prepare_single prepare_multi restore_eq
        fill_fds_all Let_def split: if_splits)
  then show ?thesis using own by (fastforce simp: all_owned_def list_all_iff)
qed

theorem hot_reset_passes_groups_witness:
  "\<exists>ret ev. vfio_pci_hot_reset demo_answers demo_groups ''0000:05:00.0'' False = Inr (ret, ev)
     \<and> Bus_Reset [20, 22] \<in> set ev \<and> [20, 22] = affected_fds (info_devices demo_answers) demo_groups"
proof -
  define r where "r = vfio_pci_hot_reset demo_answers demo_groups ''0000:05:00.0'' False"
  have "(case r of Inl _ \<Rightarrow> False | Inr p \<Rightarrow> Bus_Reset [20, 22] \<in> set (snd p))"
    unfolding r_def by code_simp
  then obtain ret ev where "r = Inr (ret, ev)" "Bus_Reset [20, 22] \<in> set ev"
    by (cases r) auto
  with hot_reset_passes_groups [of demo_answers demo_groups "''0000:05:00.0''" False ret ev "[20, 22]"]
  show ?thesis by (auto simp: r_def)
qed

text \<open>Before a device is reset, from every reachable state, its interrupts are all given back and
  the last access to its configuration space clears I/O, memory and bus master access and the INTx
  disable bit of its command register and leaves the other bits as read.\<close>

theorem pre_reset_quiesces:
  assumes "host_ok h" and "irq_reachable h s"
  shows "\<exists>t tr cmd. vfio_pci_pre_reset h rd pm_cap s = Inr (t, tr)
    \<and> interrupt t = INT_NONE \<and> held t = [] \<and> last tr = Cfg_Write PCI_COMMAND 2 (ucast cmd)
    \<and> and cmd cmd_stop_bits = (0 :: u16)
    \<and> (\<exists>old. ucast (rd (butlast (butlast tr)) (Cfg_Read PCI_COMMAND 2)) = old
        \<and> and cmd (not cmd_stop_bits) = and old (not cmd_stop_bits))"
proof -
  obtain t where t: "vfio_disable_interrupts h s = Inr t" "idle t"
    using vfio_disable_idle [OF assms(1) reachable_accounted [OF assms(2,1)]] .
  define pm where "pm = pm_to_d0 rd pm_cap"
  define old :: u16 where "old = ucast (rd pm (Cfg_Read PCI_COMMAND 2))"
  define cmd where "cmd = and old (not cmd_stop_bits)"
  have "vfio_pci_pre_reset h rd pm_cap s = Inr (t, stop_device rd pm)"
    using t(1) by (simp add: vfio_pci_pre_reset_def pm_def)
  moreover have "last (stop_device rd pm) = Cfg_Write PCI_COMMAND 2 (ucast cmd)"
    and "butlast (butlast (stop_device rd pm)) = pm"
    by (simp_all add: stop_device_def cmd_def old_def Let_def butlast_append)
  moreover have "and cmd cmd_stop_bits = 0" "and cmd (not cmd_stop_bits) = and old (not cmd_stop_bits)"
    by (simp_all add: cmd_def and.assoc)
  ultimately show ?thesis using t(2) by (force simp: idle_def old_def)
qed

theorem pre_reset_quiesces_witness:
  "\<exists>t tr. vfio_pci_pre_reset demo_host (\<lambda>_ _. 0x507) 0 demo_msix = Inr (t, tr) \<and> held t = []
     \<and> last tr = Cfg_Write PCI_COMMAND 2 0x100"
proof -
  from pre_reset_quiesces [OF demo_ok demo_msix_reachable, of "\<lambda>_ _. 0x507" 0] obtain t tr where
    t: "vfio_pci_pre_reset demo_host (\<lambda>_ _. 0x507) 0 demo_msix = Inr (t, tr)" "held t = []" by blast
  then have "tr = stop_device (\<lambda>_ _. 0x507) (pm_to_d0 (\<lambda>_ _. 0x507) 0)"
    by (auto simp: vfio_pci_pre_reset_def elim!: bindR_InrE)
  moreover have "last (stop_device (\<lambda>_ _. 0x507) (pm_to_d0 (\<lambda>_ _. 0x507) 0)) = Cfg_Write PCI_COMMAND 2 0x100"
    by code_simp
  ultimately show ?thesis using t by blast
qed

end
