(* ===== verification/Vfio_Config.thy ===== *)
theory Vfio_Config
  imports Bytes "HOL-Library.Sublist"
begin

text \<open>
  The configuration space of a passthrough device, from \<open>hw/vfio/pci.c\<close>: reads that mix emulated and
  physical bits, emulated registers, and the list of standard capabilities, which is taken apart and
  put together again so that QEMU controls its links. What the PCI core does to insert a capability
  is not in the repository: it is a parameter (\<open>cfg_env\<close>).
\<close>

section \<open>Reading\<close>

text \<open>
  \<open>len\<close> is 1, 2 or 4. \<open>emu\<close> are the emulation bits at the address, \<open>dflt\<close> is what
  \<open>pci_default_read_config\<close> returns and \<open>phys\<close> what the device does, or the errno of the failing read.
\<close>

definition len_mask :: "nat \<Rightarrow> u32" where
  "len_mask len = drop_bit (32 - len * 8) 0xFFFFFFFF"

definition vfio_pci_read_config :: "u32 \<Rightarrow> u32 \<Rightarrow> int + u32 \<Rightarrow> nat \<Rightarrow> u32" where
  "vfio_pci_read_config emu dflt phys len =
     (let emu_val = (if emu \<noteq> 0 then dflt else 0) in
      if and (not emu) (len_mask len) \<noteq> 0
      then case phys of
             Inl errno \<Rightarrow> - word_of_int errno
           | Inr v \<Rightarrow> or (and emu_val emu) (and v (not emu))
      else or (and emu_val emu) (and 0 (not emu)))"

section \<open>Emulated registers\<close>

record pci_cfg =
  config :: "u8 list"
  wmask :: "u8 list"
  emulated :: "u8 list"
  pm_pos :: nat
  flr_seen :: bool
  pm_reset_seen :: bool
  msi_len :: nat
  exp_pos :: nat

datatype cfg_fault = Beyond_Config | Endless

definition vfio_set_word_bits :: "u8 list \<Rightarrow> nat \<Rightarrow> u16 \<Rightarrow> u16 \<Rightarrow> cfg_fault + u8 list" where
  "vfio_set_word_bits buf i val m =
     bindR (get_word buf i Beyond_Config) (\<lambda>w.
     set_word buf i (or (and w (not m)) val) Beyond_Config)"

definition vfio_add_emulated_word :: "nat \<Rightarrow> u16 \<Rightarrow> u16 \<Rightarrow> pci_cfg \<Rightarrow> cfg_fault + pci_cfg" where
  "vfio_add_emulated_word pos val m s =
     bindR (vfio_set_word_bits (config s) pos val m) (\<lambda>c.
     bindR (vfio_set_word_bits (wmask s) pos (not m) m) (\<lambda>w.
     bindR (vfio_set_word_bits (emulated s) pos m m) (\<lambda>e.
     Inr (s\<lparr>config := c, wmask := w, emulated := e\<rparr>))))"

definition vfio_set_long_bits :: "u8 list \<Rightarrow> nat \<Rightarrow> u32 \<Rightarrow> u32 \<Rightarrow> cfg_fault + u8 list" where
  "vfio_set_long_bits buf i val m =
     bindR (get_long buf i Beyond_Config) (\<lambda>w.
     set_long buf i (or (and w (not m)) val) Beyond_Config)"

definition vfio_add_emulated_long :: "nat \<Rightarrow> u32 \<Rightarrow> u32 \<Rightarrow> pci_cfg \<Rightarrow> cfg_fault + pci_cfg" where
  "vfio_add_emulated_long pos val m s =
     bindR (vfio_set_long_bits (config s) pos val m) (\<lambda>c.
     bindR (vfio_set_long_bits (wmask s) pos (not m) m) (\<lambda>w.
     bindR (vfio_set_long_bits (emulated s) pos m m) (\<lambda>e.
     Inr (s\<lparr>config := c, wmask := w, emulated := e\<rparr>))))"

section \<open>The PCI core\<close>

text \<open>
  \<open>pci_add_capability\<close> with the capability's number, position and size, \<open>msi_init\<close> and \<open>msix_init\<close>,
  each with what it makes of the configuration bytes; the MSI control word as read from the device;
  the buses from the device's up, each whether it is a root bus and whether it is express; and
  \<open>pcie_add_capability\<close> with the number, version, position and size of an extended capability.
\<close>

record cfg_env =
  add_capability :: "u8 list \<Rightarrow> u8 \<Rightarrow> nat \<Rightarrow> u8 \<Rightarrow> int \<times> u8 list"
  msi_control :: "nat \<Rightarrow> u16 option"
  msi_init :: "u8 list \<Rightarrow> nat \<Rightarrow> nat \<Rightarrow> bool \<Rightarrow> bool \<Rightarrow> int \<times> u8 list"
  msix_init :: "u8 list \<Rightarrow> nat \<Rightarrow> int \<times> u8 list"
  bus_path :: "(bool \<times> bool) list"
  is_express :: bool
  add_ext_capability :: "u8 list \<Rightarrow> u16 \<Rightarrow> u8 \<Rightarrow> nat \<Rightarrow> u16 \<Rightarrow> u8 list"

definition install :: "int \<times> u8 list \<Rightarrow> pci_cfg \<Rightarrow> int \<times> pci_cfg" where
  "install r s = (fst r, s\<lparr>config := snd r\<rparr>)"

section \<open>The capabilities\<close>

definition vfio_msi_setup :: "cfg_env \<Rightarrow> nat \<Rightarrow> pci_cfg \<Rightarrow> cfg_fault + int \<times> pci_cfg" where
  "vfio_msi_setup env pos s =
     (case msi_control env pos of
        None \<Rightarrow> Inr (- EIO, s)
      | Some ctrl \<Rightarrow>
          let msi_64bit = (and ctrl 0x80 \<noteq> 0); msi_maskbit = (and ctrl 0x100 \<noteq> 0);
              entries = 2 ^ unat (drop_bit 1 (and ctrl 0xe));
              (ret, s') = install (msi_init env (config s) pos entries msi_64bit msi_maskbit) s
          in if ret < 0 then if ret = - ENOTSUP then Inr (0, s) else Inr (ret, s)
             else Inr (0, s'\<lparr>msi_len := 0xa + (if msi_maskbit then 0xa else 0) + (if msi_64bit then 4 else 0)\<rparr>))"

definition vfio_msix_setup :: "cfg_env \<Rightarrow> nat \<Rightarrow> pci_cfg \<Rightarrow> cfg_fault + int \<times> pci_cfg" where
  "vfio_msix_setup env pos s =
     (let (ret, s') = install (msix_init env (config s) pos) s in
      if ret < 0 then if ret = - ENOTSUP then Inr (0, s) else Inr (ret, s) else Inr (0, s'))"

text \<open>The walk up to the root bus, and whether that one is express.\<close>

fun root_express :: "(bool \<times> bool) list \<Rightarrow> cfg_fault + bool" where
  "root_express [] = Inl Endless"
| "root_express ((root, express) # bs) = (if root then Inr express else root_express bs)"

definition EXP_ENDPOINT :: u16 where "EXP_ENDPOINT = 0"
definition EXP_LEG_END :: u16 where "EXP_LEG_END = 1"
definition EXP_RC_END :: u16 where "EXP_RC_END = 9"

definition drop_links :: "nat \<Rightarrow> u8 \<Rightarrow> pci_cfg \<Rightarrow> cfg_fault + pci_cfg" where
  "drop_links pos len s =
     bindR (vfio_add_emulated_word (pos + 2) (push_bit 4 EXP_RC_END) 0xf0 s) (\<lambda>s.
     if \<not> 16 < len then Inr s
     else bindR (vfio_add_emulated_long (pos + 12) 0 (- 1) s) (\<lambda>s.
       bindR (vfio_add_emulated_word (pos + 16) 0 (- 1) s) (\<lambda>s.
       bindR (vfio_add_emulated_word (pos + 18) 0 (- 1) s) (\<lambda>s.
       if \<not> 44 < len then Inr s
       else bindR (vfio_add_emulated_long (pos + 44) 0 (- 1) s) (\<lambda>s.
         bindR (vfio_add_emulated_word (pos + 48) 0 (- 1) s) (\<lambda>s.
         vfio_add_emulated_word (pos + 50) 0 (- 1) s))))))"

definition make_links :: "nat \<Rightarrow> pci_cfg \<Rightarrow> cfg_fault + pci_cfg" where
  "make_links pos s =
     bindR (vfio_add_emulated_word (pos + 2) (push_bit 4 EXP_ENDPOINT) 0xf0 s) (\<lambda>s.
     bindR (vfio_add_emulated_long (pos + 12) 0x11 (- 1) s) (\<lambda>s.
     vfio_add_emulated_word (pos + 16) 0 (- 1) s))"

definition vfio_setup_pcie_cap :: "cfg_env \<Rightarrow> nat \<Rightarrow> u8 \<Rightarrow> pci_cfg \<Rightarrow> cfg_fault + int \<times> pci_cfg" where
  "vfio_setup_pcie_cap env pos len s =
     bindR (get_word (config s) (pos + 2) Beyond_Config) (\<lambda>flags.
     let type = drop_bit 4 (and flags 0xf0);
         add = (\<lambda>s. let (ret, s') = install (add_capability env (config s) 0x10 pos len) s in
           Inr (ret, if ret \<ge> 0 then s'\<lparr>exp_pos := nat ret\<rparr> else s))
     in if type \<noteq> EXP_ENDPOINT \<and> type \<noteq> EXP_LEG_END \<and> type \<noteq> EXP_RC_END then Inr (- EINVAL, s)
        else case bus_path env of
          [] \<Rightarrow> Inl Endless
        | (root, express) # _ \<Rightarrow>
            if \<not> express
            then bindR (root_express (bus_path env)) (\<lambda>e. if e then Inr (0, s) else add s)
            else if root
            then if type = EXP_ENDPOINT then bindR (drop_links pos len s) add
                 else if type = EXP_LEG_END then Inr (0, s) else add s
            else
              bindR (if type = EXP_RC_END then make_links pos s else Inr s) (\<lambda>s.
              bindR (get_word (config s) (pos + 18) Beyond_Config) (\<lambda>sta.
              bindR (vfio_add_emulated_word (pos + 18) sta 0x3ff s) add)))"

definition vfio_check_pcie_flr :: "nat \<Rightarrow> pci_cfg \<Rightarrow> cfg_fault + pci_cfg" where
  "vfio_check_pcie_flr pos s =
     bindR (get_long (config s) (pos + 4) Beyond_Config) (\<lambda>cap.
     Inr (if and cap 0x10000000 \<noteq> 0 then s\<lparr>flr_seen := True\<rparr> else s))"

definition vfio_check_pm_reset :: "nat \<Rightarrow> pci_cfg \<Rightarrow> cfg_fault + pci_cfg" where
  "vfio_check_pm_reset pos s =
     bindR (get_word (config s) (pos + 4) Beyond_Config) (\<lambda>csr.
     Inr (if and csr 8 = 0 then s\<lparr>pm_reset_seen := True\<rparr> else s))"

definition vfio_check_af_flr :: "nat \<Rightarrow> pci_cfg \<Rightarrow> cfg_fault + pci_cfg" where
  "vfio_check_af_flr pos s =
     bindR (get_byte (config s) (pos + 3) Beyond_Config) (\<lambda>cap.
     Inr (if and cap 1 \<noteq> 0 \<and> and cap 2 \<noteq> 0 then s\<lparr>flr_seen := True\<rparr> else s))"

text \<open>The switch of \<open>vfio_add_std_cap\<close>.\<close>

definition cap_switch :: "cfg_env \<Rightarrow> u8 \<Rightarrow> nat \<Rightarrow> u8 \<Rightarrow> pci_cfg \<Rightarrow> cfg_fault + int \<times> pci_cfg" where
  "cap_switch env cap_id pos len s =
     (let add = (\<lambda>s. let (ret, s') = install (add_capability env (config s) cap_id pos len) s in
            Inr (ret, if ret \<ge> 0 then s' else s))
      in if cap_id = 5 then vfio_msi_setup env pos s
         else if cap_id = 0x10 then bindR (vfio_check_pcie_flr pos s) (vfio_setup_pcie_cap env pos len)
         else if cap_id = 0x11 then vfio_msix_setup env pos s
         else if cap_id = 1 then bindR (vfio_check_pm_reset pos s) (\<lambda>s. add (s\<lparr>pm_pos := pos\<rparr>))
         else if cap_id = 0x13 then bindR (vfio_check_af_flr pos s) add
         else add s)"

section \<open>Rebuilding the list\<close>

text \<open>The positions of the list from \<open>tmp\<close> on, with a bound on their number.\<close>

fun cap_walk :: "nat \<Rightarrow> u8 list \<Rightarrow> u8 \<Rightarrow> cfg_fault + u8 list" where
  "cap_walk 0 cfg tmp = (if tmp = 0 then Inr [] else Inl Endless)"
| "cap_walk (Suc n) cfg tmp =
     (if tmp = 0 then Inr []
      else bindR (get_byte cfg (unat tmp + 1) Beyond_Config) (\<lambda>next.
        bindR (cap_walk n cfg next) (\<lambda>ps. Inr (tmp # ps))))"

definition vfio_std_cap_max_size :: "u8 list \<Rightarrow> u8 \<Rightarrow> cfg_fault + u8" where
  "vfio_std_cap_max_size cfg pos =
     bindR (get_byte cfg 0x34 Beyond_Config) (\<lambda>head.
     bindR (cap_walk 256 cfg head) (\<lambda>ps.
     Inr (of_nat (foldl (\<lambda>next tmp. if unat tmp > unat pos \<and> unat tmp < next then unat tmp else next) 256 ps
            - unat pos))))"

definition rebuild_start :: "pci_cfg \<Rightarrow> cfg_fault + pci_cfg" where
  "rebuild_start s =
     bindR (set_byte (config s) 0x34 0 Beyond_Config) (\<lambda>c.
     bindR (set_byte (emulated s) 0x34 0xff Beyond_Config) (\<lambda>e.
     bindR (get_byte e 6 Beyond_Config) (\<lambda>st.
     bindR (set_byte e 6 (or st 0x10) Beyond_Config) (\<lambda>e.
     Inr (s\<lparr>config := c, emulated := e\<rparr>)))))"

fun vfio_add_std_cap :: "nat \<Rightarrow> cfg_env \<Rightarrow> u8 \<Rightarrow> pci_cfg \<Rightarrow> cfg_fault + int \<times> pci_cfg" where
  "vfio_add_std_cap 0 env pos s = Inl Endless"
| "vfio_add_std_cap (Suc n) env pos s =
     bindR (get_byte (config s) (unat pos) Beyond_Config) (\<lambda>cap_id.
     bindR (get_byte (config s) (unat pos + 1) Beyond_Config) (\<lambda>next.
     bindR (vfio_std_cap_max_size (config s) pos) (\<lambda>len.
     bindR (if next \<noteq> 0 then vfio_add_std_cap n env next s
            else bindR (rebuild_start s) (\<lambda>s. Inr (0, s))) (\<lambda>(ret, s).
     if ret \<noteq> 0 then Inr (if ret < 0 then ret else 0, s)
     else bindR (set_byte (emulated s) (unat pos + 1) 0xff Beyond_Config) (\<lambda>e.
       bindR (cap_switch env cap_id (unat pos) len (s\<lparr>emulated := e\<rparr>)) (\<lambda>(ret, s).
       Inr (if ret < 0 then ret else 0, s)))))))"

section \<open>Extended capabilities\<close>

definition ext_next :: "u32 \<Rightarrow> nat" where
  "ext_next header = unat (and (drop_bit 20 header) 0xffc)"

fun ext_walk :: "nat \<Rightarrow> u8 list \<Rightarrow> nat \<Rightarrow> cfg_fault + nat list" where
  "ext_walk 0 cfg tmp = (if tmp = 0 then Inr [] else Inl Endless)"
| "ext_walk (Suc n) cfg tmp =
     (if tmp = 0 then Inr []
      else bindR (get_long cfg tmp Beyond_Config) (\<lambda>header.
        bindR (ext_walk n cfg (ext_next header)) (\<lambda>ps. Inr (tmp # ps))))"

definition vfio_ext_cap_max_size :: "u8 list \<Rightarrow> nat \<Rightarrow> cfg_fault + u16" where
  "vfio_ext_cap_max_size cfg pos =
     bindR (ext_walk 1024 cfg 0x100) (\<lambda>ps.
     Inr (of_nat (foldl (\<lambda>next tmp. if tmp > pos \<and> tmp < next then tmp else next) 4096 ps - pos)))"

text \<open>One turn of the loop: \<open>cfg\<close> is the copy of the configuration space made before it.\<close>

definition ext_entry :: "cfg_env \<Rightarrow> u8 list \<Rightarrow> nat \<Rightarrow> pci_cfg \<Rightarrow> cfg_fault + pci_cfg" where
  "ext_entry env cfg next s =
     bindR (get_long cfg next Beyond_Config) (\<lambda>header.
     bindR (vfio_ext_cap_max_size cfg next) (\<lambda>len.
     bindR (get_long (emulated s) next Beyond_Config) (\<lambda>bits.
     bindR (set_long (emulated s) next (or bits 0xFFC00000) Beyond_Config) (\<lambda>e.
     let cap_id = (ucast header :: u16); cap_ver = (ucast (and (drop_bit 16 header) 0xf) :: u8);
         s = s\<lparr>emulated := e\<rparr>
     in Inr (if cap_id = 0 \<or> cap_id = 0x10 \<or> cap_id = 0xe then s
             else s\<lparr>config := add_ext_capability env (config s) cap_id cap_ver next len\<rparr>)))))"

definition vfio_add_ext_cap :: "cfg_env \<Rightarrow> pci_cfg \<Rightarrow> cfg_fault + pci_cfg" where
  "vfio_add_ext_cap env s =
     (if \<not> is_express env \<or> \<not> snd (hd (bus_path env)) then Inr s
      else bindR (get_long (config s) 0x100 Beyond_Config) (\<lambda>head.
        if head = 0 then Inr s
        else
          let cfg = config s in
          bindR (set_long (config s) 0x100 0xFFFF Beyond_Config) (\<lambda>c.
          bindR (set_long (wmask s) 0x100 0 Beyond_Config) (\<lambda>w.
          bindR (set_long (emulated s) 0x100 (- 1) Beyond_Config) (\<lambda>e.
          bindR (ext_walk 1024 cfg 0x100) (\<lambda>ps.
          bindR (foldR (ext_entry env cfg) ps (s\<lparr>config := c, wmask := w, emulated := e\<rparr>)) (\<lambda>s.
          bindR (get_word (config s) 0x100 Beyond_Config) (\<lambda>head.
          if head = 0xFFFF
          then bindR (set_word (config s) 0x100 0 Beyond_Config) (\<lambda>c. Inr (s\<lparr>config := c\<rparr>))
          else Inr s))))))))"

definition vfio_add_capabilities :: "cfg_env \<Rightarrow> pci_cfg \<Rightarrow> cfg_fault + int \<times> pci_cfg" where
  "vfio_add_capabilities env s =
     bindR (get_byte (config s) 6 Beyond_Config) (\<lambda>status.
     bindR (get_byte (config s) 0x34 Beyond_Config) (\<lambda>head.
     if and status 0x10 = 0 \<or> head = 0 then Inr (0, s)
     else bindR (vfio_add_std_cap 256 env head s) (\<lambda>(ret, s).
       if ret \<noteq> 0 then Inr (ret, s)
       else bindR (vfio_add_ext_cap env s) (\<lambda>s. Inr (0, s)))))"

end
