(* ===== verification/Vfio_Caps.thy ===== *)
theory Vfio_Caps
  imports Vfio_Config
begin

text \<open>
  The capability list that \<open>vfio_add_std_cap\<close> leaves behind, and the properties of configuration
  space reads.
\<close>

section \<open>Lists of capabilities\<close>

fun linked :: "u8 list \<Rightarrow> u8 \<Rightarrow> u8 list \<Rightarrow> bool" where
  "linked cfg p [] \<longleftrightarrow> p = 0"
| "linked cfg p (q # qs) \<longleftrightarrow> p = q \<and> q \<noteq> 0 \<and> linked cfg (cfg ! (unat q + 1)) qs"

lemma linked_cong:
  "linked c p qs \<Longrightarrow> (\<And>q. q \<in> set qs \<Longrightarrow> c' ! (unat q + 1) = c ! (unat q + 1)) \<Longrightarrow> linked c' p qs"
  by (induction qs arbitrary: p) auto

text \<open>How many bytes of a capability the set-up may write.\<close>

definition cap_extent :: "u8 \<Rightarrow> nat" where
  "cap_extent cap_id = (if cap_id = 0x10 then 52 else if cap_id = 5 then 24 else if cap_id = 0x11 then 12 else 2)"

text \<open>What a physical device has: its capabilities behind the header, aligned, and apart.\<close>

definition well_placed :: "u8 list \<Rightarrow> u8 list \<Rightarrow> bool" where
  "well_placed cfg ps \<longleftrightarrow> distinct ps \<and> list_all (\<lambda>p. 0x40 \<le> unat p \<and> unat p mod 4 = 0) ps
     \<and> list_all (\<lambda>p. list_all (\<lambda>q. q = p \<or> unat q < unat p \<or> unat p + cap_extent (cfg ! unat p) \<le> unat q) ps) ps"

text \<open>Inserting at the head of the list, and changing only the inside of a capability.\<close>

definition inserts :: "nat \<Rightarrow> u8 list \<Rightarrow> nat \<Rightarrow> u8 list \<Rightarrow> bool" where
  "inserts n c pos c' \<longleftrightarrow> length c' = length c \<and> c' ! 0x34 = of_nat pos \<and> c' ! (pos + 1) = c ! 0x34
     \<and> (\<forall>i. i \<notin> {6, 0x34} \<and> (i < pos \<or> pos + n \<le> i) \<longrightarrow> c' ! i = c ! i)"

definition inside :: "nat \<Rightarrow> u8 list \<Rightarrow> nat \<Rightarrow> u8 list \<Rightarrow> bool" where
  "inside n c pos c' \<longleftrightarrow> length c' = length c \<and> (\<forall>i. i < pos + 2 \<or> pos + n \<le> i \<longrightarrow> c' ! i = c ! i)"

text \<open>
  The PCI core inserts a capability at the head of the list, at the place it is told (place 0, where it
  would choose one itself, is never asked for).
\<close>

definition cfg_env_ok :: "cfg_env \<Rightarrow> bool" where
  "cfg_env_ok env \<longleftrightarrow>
     (\<forall>c cap_id pos len. 0 < pos \<and> 0 \<le> fst (add_capability env c cap_id pos len)
        \<longrightarrow> inserts 2 c pos (snd (add_capability env c cap_id pos len)))
     \<and> (\<forall>c pos n b m. 0 < pos \<and> 0 \<le> fst (msi_init env c pos n b m) \<longrightarrow> inserts 24 c pos (snd (msi_init env c pos n b m)))
     \<and> (\<forall>c pos. 0 < pos \<and> 0 \<le> fst (msix_init env c pos) \<longrightarrow> inserts 12 c pos (snd (msix_init env c pos)))"

lemma inside_refl [simp]: "inside n c pos c"
  by (simp add: inside_def)

lemma inside_trans: "inside n c pos c' \<Longrightarrow> inside n c' pos c'' \<Longrightarrow> inside n c pos c''"
  by (simp add: inside_def)

lemma inside_inserts:
  assumes "inside n c pos c'" and "inserts 2 c' pos c''" and "0x34 < pos" and "2 \<le> n"
  shows "inserts n c pos c''"
  using assms by (auto simp: inside_def inserts_def)

lemma inserts_more: "inserts m c pos c' \<Longrightarrow> m \<le> n \<Longrightarrow> inserts n c pos c'"
  by (auto simp: inserts_def)

section \<open>Emulated registers stay inside their capability\<close>

lemma set_word_bits_inside:
  assumes "vfio_set_word_bits buf (pos + k) val m = Inr b" and "2 \<le> k" and "k + 2 \<le> n"
  shows "inside n buf pos b"
proof -
  from assms(1) obtain w where w: "set_word buf (pos + k) w Beyond_Config = Inr b"
    by (auto simp: vfio_set_word_bits_def elim: bindR_InrE)
  have "b ! i = buf ! i" if "i < pos + 2 \<or> pos + n \<le> i" for i
    using that assms(2,3) by (intro set_word_InrD(3) [OF w]) auto
  then show ?thesis using set_word_InrD(2) [OF w] by (simp add: inside_def)
qed

lemma set_long_bits_inside:
  assumes "vfio_set_long_bits buf (pos + k) val m = Inr b" and "2 \<le> k" and "k + 4 \<le> n"
  shows "inside n buf pos b"
proof -
  from assms(1) obtain w where w: "set_long buf (pos + k) w Beyond_Config = Inr b"
    by (auto simp: vfio_set_long_bits_def elim: bindR_InrE)
  have "b ! i = buf ! i" if "i < pos + 2 \<or> pos + n \<le> i" for i
    using that assms(2,3) by (intro set_long_InrD(2) [OF w]) auto
  then show ?thesis using set_long_InrD(1) [OF w] by (simp add: inside_def)
qed

definition stays :: "nat \<Rightarrow> pci_cfg \<Rightarrow> nat \<Rightarrow> pci_cfg \<Rightarrow> bool" where
  "stays n s pos t \<longleftrightarrow> inside n (config s) pos (config t) \<and> inside n (emulated s) pos (emulated t)"

lemma stays_refl [simp]: "stays n s pos s"
  by (simp add: stays_def)

lemma stays_trans: "stays n s pos t \<Longrightarrow> stays n t pos u \<Longrightarrow> stays n s pos u"
  by (auto simp: stays_def intro: inside_trans)

lemma emulated_word_stays:
  assumes "vfio_add_emulated_word (pos + k) val m s = Inr t" and "2 \<le> k" and "k + 2 \<le> n"
  shows "stays n s pos t"
proof -
  from assms(1) obtain c e where "vfio_set_word_bits (config s) (pos + k) val m = Inr c"
    "vfio_set_word_bits (emulated s) (pos + k) m m = Inr e" "config t = c" "emulated t = e"
    by (auto simp: vfio_add_emulated_word_def elim!: bindR_InrE)
  then show ?thesis using set_word_bits_inside assms(2,3) by (auto simp: stays_def)
qed

lemma emulated_long_stays:
  assumes "vfio_add_emulated_long (pos + k) val m s = Inr t" and "2 \<le> k" and "k + 4 \<le> n"
  shows "stays n s pos t"
proof -
  from assms(1) obtain c e where "vfio_set_long_bits (config s) (pos + k) val m = Inr c"
    "vfio_set_long_bits (emulated s) (pos + k) m m = Inr e" "config t = c" "emulated t = e"
    by (auto simp: vfio_add_emulated_long_def elim!: bindR_InrE)
  then show ?thesis using set_long_bits_inside assms(2,3) by (auto simp: stays_def)
qed

lemma drop_links_stays:
  assumes "drop_links pos len s = Inr t"
  shows "stays 52 s pos t"
proof -
  note w = emulated_word_stays [where n = 52] and l = emulated_long_stays [where n = 52]
  from assms obtain s1 where s1: "vfio_add_emulated_word (pos + 2) (push_bit 4 EXP_RC_END) 0xf0 s = Inr s1"
    and r1: "(if \<not> 16 < len then Inr s1
     else bindR (vfio_add_emulated_long (pos + 12) 0 (- 1) s1) (\<lambda>s.
       bindR (vfio_add_emulated_word (pos + 16) 0 (- 1) s) (\<lambda>s.
       bindR (vfio_add_emulated_word (pos + 18) 0 (- 1) s) (\<lambda>s.
       if \<not> 44 < len then Inr s
       else bindR (vfio_add_emulated_long (pos + 44) 0 (- 1) s) (\<lambda>s.
         bindR (vfio_add_emulated_word (pos + 48) 0 (- 1) s) (\<lambda>s.
         vfio_add_emulated_word (pos + 50) 0 (- 1) s)))))) = Inr t"
    unfolding drop_links_def by (elim bindR_InrE)
  have f1: "stays 52 s pos s1" by (rule w [OF s1]) simp_all
  show ?thesis
  proof (cases "16 < len")
    case False
    with r1 f1 show ?thesis by simp
  next
    case True
    with r1 obtain s2 s3 s4 where
      s2: "vfio_add_emulated_long (pos + 12) 0 (- 1) s1 = Inr s2" and
      s3: "vfio_add_emulated_word (pos + 16) 0 (- 1) s2 = Inr s3" and
      s4: "vfio_add_emulated_word (pos + 18) 0 (- 1) s3 = Inr s4" and
      r4: "(if \<not> 44 < len then Inr s4
       else bindR (vfio_add_emulated_long (pos + 44) 0 (- 1) s4) (\<lambda>s.
         bindR (vfio_add_emulated_word (pos + 48) 0 (- 1) s) (\<lambda>s.
         vfio_add_emulated_word (pos + 50) 0 (- 1) s))) = Inr t"
      by (simp split del: if_split) (elim bindR_InrE, blast)
    have f4: "stays 52 s pos s4"
      by (rule stays_trans [OF f1 stays_trans [OF l [OF s2] stays_trans [OF w [OF s3] w [OF s4]]]]) simp_all
    show ?thesis
    proof (cases "44 < len")
      case False
      with r4 f4 show ?thesis by simp
    next
      case True
      with r4 obtain s5 s6 where
        s5: "vfio_add_emulated_long (pos + 44) 0 (- 1) s4 = Inr s5" and
        s6: "vfio_add_emulated_word (pos + 48) 0 (- 1) s5 = Inr s6" and
        s7: "vfio_add_emulated_word (pos + 50) 0 (- 1) s6 = Inr t"
        by simp (elim bindR_InrE, blast)
      show ?thesis
        by (rule stays_trans [OF f4 stays_trans [OF l [OF s5] stays_trans [OF w [OF s6] w [OF s7]]]]) simp_all
    qed
  qed
qed

lemma make_links_stays:
  assumes "make_links pos s = Inr t"
  shows "stays 52 s pos t"
proof -
  from assms obtain s1 s2 where
    s1: "vfio_add_emulated_word (pos + 2) (push_bit 4 EXP_ENDPOINT) 0xf0 s = Inr s1" and
    s2: "vfio_add_emulated_long (pos + 12) 0x11 (- 1) s1 = Inr s2" and
    s3: "vfio_add_emulated_word (pos + 16) 0 (- 1) s2 = Inr t"
    unfolding make_links_def by (elim bindR_InrE)
  show ?thesis
    by (rule stays_trans [OF emulated_word_stays [OF s1]
          stays_trans [OF emulated_long_stays [OF s2] emulated_word_stays [OF s3]]]) simp_all
qed

section \<open>One capability\<close>

definition put_up :: "nat \<Rightarrow> pci_cfg \<Rightarrow> nat \<Rightarrow> pci_cfg \<Rightarrow> bool" where
  "put_up n s pos t \<longleftrightarrow> inside n (emulated s) pos (emulated t) \<and> inserts n (config s) pos (config t)"

lemma stays_put_up: "stays n s pos t \<Longrightarrow> put_up 2 t pos u \<Longrightarrow> 0x34 < pos \<Longrightarrow> 2 \<le> n \<Longrightarrow> put_up n s pos u"
  by (auto simp: stays_def put_up_def inside_def intro: inside_inserts [unfolded inside_def])

lemma put_up_more: "put_up m s pos t \<Longrightarrow> m \<le> n \<Longrightarrow> put_up n s pos t"
  by (auto simp: put_up_def inside_def intro: inserts_more)

lemma add_capability_put_up:
  assumes "cfg_env_ok env" and "0 < pos" and "0 \<le> fst (add_capability env (config s) i pos len)"
    and "emulated t = emulated s" and "config t = snd (add_capability env (config s) i pos len)"
  shows "put_up 2 s pos t"
  using assms by (simp add: cfg_env_ok_def put_up_def)

lemma pcie_cap_set_up:
  assumes ok: "cfg_env_ok env" and pos: "0x34 < pos"
    and run: "vfio_setup_pcie_cap env pos len s = Inr (r, t)" and r: "0 \<le> r"
  shows "stays 52 s pos t \<or> put_up 52 s pos t"
proof -
  define add where "add s = (let (ret, s') = install (add_capability env (config s) 0x10 pos len) s in
    Inr (ret, if ret \<ge> 0 then s'\<lparr>exp_pos := nat ret\<rparr> else s) :: cfg_fault + int \<times> pci_cfg)" for s
  have add: "put_up 2 u pos v" if "add u = Inr (q, v)" "0 \<le> q" for u v q
    using that pos add_capability_put_up [OF ok, of pos u "0x10" len v]
    by (auto simp: add_def install_def Let_def)
  have finish: "put_up 52 s pos v" if "stays 52 s pos u" "add u = Inr (q, v)" "0 \<le> q" for u v q
    using stays_put_up [OF that(1) add [OF that(2,3)] pos] by simp
  obtain flags where flags: "get_word (config s) (pos + 2) Beyond_Config = Inr flags"
    using run by (auto simp: vfio_setup_pcie_cap_def elim!: bindR_InrE)
  define type where "type = drop_bit 4 (and flags 0xf0)"
  have rest: "(if type \<noteq> EXP_ENDPOINT \<and> type \<noteq> EXP_LEG_END \<and> type \<noteq> EXP_RC_END then Inr (- EINVAL, s)
        else case bus_path env of
          [] \<Rightarrow> Inl Endless
        | (root, express) # _ \<Rightarrow>
            if \<not> express
            then bindR (root_express (bus_path env)) (\<lambda>e. if e then Inr (0, s) else add s)
            else if root
            then if type = EXP_ENDPOINT then bindR (drop_links pos len s) add
                 else if type = EXP_LEG_END then Inr (0, s) else add s
            else
              bindR (if type = EXP_RC_END then make_links pos s else Inr s) (\<lambda>s.
              bindR (get_word (config s) (pos + 18) Beyond_Config) (\<lambda>sta.
              bindR (vfio_add_emulated_word (pos + 18) sta 0x3ff s) add))) = Inr (r, t)"
    using run flags unfolding vfio_setup_pcie_cap_def add_def type_def by (simp only: bindR_Inr Let_def)
  from rest r have known: "\<not> (type \<noteq> EXP_ENDPOINT \<and> type \<noteq> EXP_LEG_END \<and> type \<noteq> EXP_RC_END)"
    by (auto split: if_splits)
  with rest obtain root express bs where bus: "bus_path env = (root, express) # bs"
    by (cases "bus_path env") auto
  show ?thesis
  proof (cases "express \<and> \<not> root")
    case True
    with rest known bus have "bindR (if type = EXP_RC_END then make_links pos s else Inr s) (\<lambda>s.
        bindR (get_word (config s) (pos + 18) Beyond_Config) (\<lambda>sta.
        bindR (vfio_add_emulated_word (pos + 18) sta 0x3ff s) add)) = Inr (r, t)" by simp
    then obtain s1 sta s2 where s1: "(if type = EXP_RC_END then make_links pos s else Inr s) = Inr s1"
      and s2: "vfio_add_emulated_word (pos + 18) sta 0x3ff s1 = Inr s2" and a: "add s2 = Inr (r, t)"
      by (elim bindR_InrE)
    have "stays 52 s pos s1" using s1 make_links_stays by (auto split: if_splits)
    moreover have "stays 52 s1 pos s2" by (rule emulated_word_stays [OF s2]) simp_all
    ultimately show ?thesis using finish [OF stays_trans a r] by blast
  next
    case False
    show ?thesis
    proof (cases "express \<and> type = EXP_ENDPOINT")
      case True
      with rest known bus False have "bindR (drop_links pos len s) add = Inr (r, t)" by simp
      then obtain u where "drop_links pos len s = Inr u" "add u = Inr (r, t)" by (elim bindR_InrE)
      then show ?thesis using finish drop_links_stays r by blast
    next
      case other: False
      have "Inr (0, s) = (Inr (r, t) :: cfg_fault + _) \<or> add s = Inr (r, t)"
        using rest known bus False other by (auto simp: bindR_eq_Inr split: if_splits)
      then show ?thesis using finish [OF stays_refl _ r] by auto
    qed
  qed
qed

lemma cap_switch_set_up:
  assumes ok: "cfg_env_ok env" and pos: "0x34 < pos"
    and run: "cap_switch env i pos len s = Inr (r, t)" and r: "0 \<le> r"
  shows "stays (cap_extent i) s pos t \<and> i \<in> {5, 0x10, 0x11} \<or> put_up (cap_extent i) s pos t"
proof -
  consider "i = 5" | "i = 0x10" | "i = 0x11" | "i \<notin> {5, 0x10, 0x11}" by auto
  then show ?thesis
  proof cases
    case 1
    with run have m: "vfio_msi_setup env pos s = Inr (r, t)" by (simp add: cap_switch_def)
    then obtain ctrl where "msi_control env pos = Some ctrl"
      using r by (auto simp: vfio_msi_setup_def split: option.splits)
    with m r ok pos have "t = s \<or> put_up 24 s pos t"
      by (auto simp: vfio_msi_setup_def install_def put_up_def cfg_env_ok_def Let_def split: if_splits)
    with 1 show ?thesis by (auto simp: cap_extent_def)
  next
    case 2
    with run obtain u where u: "vfio_check_pcie_flr pos s = Inr u"
      "vfio_setup_pcie_cap env pos len u = Inr (r, t)"
      by (auto simp: cap_switch_def elim: bindR_InrE)
    then have "config u = config s" "emulated u = emulated s"
      by (auto simp: vfio_check_pcie_flr_def elim!: bindR_InrE)
    with pcie_cap_set_up [OF ok pos u(2) r] 2 show ?thesis
      by (auto simp: stays_def put_up_def cap_extent_def)
  next
    case 3
    with run r ok pos have "t = s \<or> put_up 12 s pos t"
      by (auto simp: cap_switch_def vfio_msix_setup_def install_def put_up_def cfg_env_ok_def Let_def split: if_splits)
    with 3 show ?thesis by (auto simp: cap_extent_def)
  next
    case 4
    with run r have "emulated t = emulated s \<and> 0 \<le> fst (add_capability env (config s) i pos len)
        \<and> config t = snd (add_capability env (config s) i pos len)"
      by (auto simp: cap_switch_def install_def vfio_check_pm_reset_def vfio_check_af_flr_def Let_def
          elim!: bindR_InrE split: if_splits)
    then have "put_up 2 s pos t" using add_capability_put_up [OF ok, of pos s i len t] pos by simp
    then show ?thesis using 4 by (simp add: cap_extent_def)
  qed
qed

section \<open>The list rebuilt\<close>

lemma well_placedD:
  assumes "well_placed c (p # ps)"
  shows "0x40 \<le> unat p" and "p \<notin> set ps" and "well_placed c ps"
    and "q \<in> set ps \<Longrightarrow> unat q + 1 < unat p \<or> unat p + cap_extent (c ! unat p) \<le> unat q + 1"
    and "q \<in> set ps \<Longrightarrow> unat q + 1 \<noteq> unat p" and "q \<in> set ps \<Longrightarrow> 0x40 \<le> unat q"
proof -
  show "0x40 \<le> unat p" "p \<notin> set ps" "well_placed c ps"
    using assms by (auto simp: well_placed_def list_all_iff)
  assume q: "q \<in> set ps"
  show "0x40 \<le> unat q" using assms q by (simp add: well_placed_def list_all_iff)
  have m: "unat q mod 4 = 0" "unat p mod 4 = 0" using assms q by (auto simp: well_placed_def list_all_iff)
  then show ne: "unat q + 1 \<noteq> unat p" by presburger
  have "q = p \<or> unat q < unat p \<or> unat p + cap_extent (c ! unat p) \<le> unat q"
    using assms q by (auto simp: well_placed_def list_all_iff)
  with ne q \<open>p \<notin> set ps\<close> show "unat q + 1 < unat p \<or> unat p + cap_extent (c ! unat p) \<le> unat q + 1" by auto
qed

lemma put_up_other:
  assumes "well_placed c (p # ps)" and "q \<in> set ps" and "inserts (cap_extent (c ! unat p)) c1 (unat p) c2"
  shows "c2 ! (unat q + 1) = c1 ! (unat q + 1)"
  using assms well_placedD(4,6) [OF assms(1,2)] by (auto simp: inserts_def)

lemma inside_other:
  assumes "well_placed c (p # ps)" and "q \<in> set ps" and "inside (cap_extent (c ! unat p)) c1 (unat p) c2"
  shows "c2 ! (unat q + 1) = c1 ! (unat q + 1)"
  using assms well_placedD(4) [OF assms(1,2)] by (auto simp: inside_def)

definition dropped_ids :: "u8 list" where
  "dropped_ids = [5, 0x10, 0x11]"

definition rebuilt :: "u8 list \<Rightarrow> u8 list \<Rightarrow> pci_cfg \<Rightarrow> bool" where
  "rebuilt c ps t \<longleftrightarrow> emulated t ! 0x34 = 0xff
     \<and> (\<forall>p \<in> set ps. emulated t ! (unat p + 1) = 0xff)
     \<and> (\<exists>qs. subseq qs ps \<and> linked (config t) (config t ! 0x34) qs
          \<and> (\<forall>p \<in> set ps. c ! unat p \<notin> set dropped_ids \<longrightarrow> p \<in> set qs))"

lemma rebuild_start_ok:
  assumes "rebuild_start s = Inr t"
  shows "config t ! 0x34 = 0" and "emulated t ! 0x34 = 0xff" and "length (emulated t) = length (emulated s)"
proof -
  from assms obtain c e st e' where a: "set_byte (config s) 0x34 0 Beyond_Config = Inr c"
    "set_byte (emulated s) 0x34 0xff Beyond_Config = Inr e"
    "set_byte e 6 (or st 0x10) Beyond_Config = Inr e'" "t = s\<lparr>config := c, emulated := e'\<rparr>"
    by (auto simp: rebuild_start_def elim!: bindR_InrE)
  note c = set_byte_InrD [OF a(1)] and e = set_byte_InrD [OF a(2)] and e' = set_byte_InrD [OF a(3)]
  show "config t ! 0x34 = 0" using a(4) c(2) by simp
  show "emulated t ! 0x34 = 0xff" using a(4) e(2) e'(3) [of "0x34"] by simp
  show "length (emulated t) = length (emulated s)" using a(4) e(1) e'(1) by simp
qed

lemma add_std_cap_le: "vfio_add_std_cap n env p s = Inr (r, t) \<Longrightarrow> r \<le> 0"
  by (cases n) (auto elim!: bindR_InrE split: if_splits)

lemma subseq_set: "subseq xs ys \<Longrightarrow> x \<in> set xs \<Longrightarrow> x \<in> set ys"
  by (auto elim: list_emb_set)

text \<open>One level of the recursion: the capability at \<open>p\<close> on top of the list rebuilt from the others.\<close>

lemma rebuilt_step:
  assumes ok: "cfg_env_ok env" and wp: "well_placed c (p # qs)" and p0: "p \<noteq> 0" and s1: "rebuilt c qs s1"
    and e: "set_byte (emulated s1) (unat p + 1) 0xff Beyond_Config = Inr e"
    and sw: "cap_switch env (c ! unat p) (unat p) len (s1\<lparr>emulated := e\<rparr>) = Inr (r2, t)" and r2: "0 \<le> r2"
  shows "rebuilt c (p # qs) t"
proof -
  note eb = set_byte_InrD [OF e]
  note far = well_placedD [OF wp]
  have p40: "0x34 < unat p" using far(1) by simp
  from cap_switch_set_up [OF ok p40 sw r2] have
    em: "inside (cap_extent (c ! unat p)) e (unat p) (emulated t)" and
    cf: "inside (cap_extent (c ! unat p)) (config s1) (unat p) (config t) \<and> c ! unat p \<in> {5, 0x10, 0x11}
      \<or> inserts (cap_extent (c ! unat p)) (config s1) (unat p) (config t)"
    by (auto simp: stays_def put_up_def)
  from s1 obtain ws where ws: "subseq ws qs" "linked (config s1) (config s1 ! 0x34) ws"
    "\<forall>q \<in> set qs. c ! unat q \<notin> set dropped_ids \<longrightarrow> q \<in> set ws"
    by (auto simp: rebuilt_def)
  have wsq: "q \<in> set qs" if "q \<in> set ws" for q using subseq_set [OF ws(1) that] .
  have "emulated t ! 0x34 = 0xff"
    using em eb(3) [of "0x34"] p40 s1 by (simp add: inside_def rebuilt_def)
  moreover have "emulated t ! (unat p + 1) = 0xff" using em eb(2) by (simp add: inside_def)
  moreover have "emulated t ! (unat q + 1) = 0xff" if q: "q \<in> set qs" for q
  proof -
    have "unat q \<noteq> unat p" using far(2) q by (metis word_unat_eq_iff)
    then have "e ! (unat q + 1) = 0xff" using eb(3) [of "unat q + 1"] s1 q by (simp add: rebuilt_def)
    then show ?thesis using inside_other [OF wp q em] by simp
  qed
  moreover have "\<exists>ws'. subseq ws' (p # qs) \<and> linked (config t) (config t ! 0x34) ws'
      \<and> (\<forall>q \<in> set (p # qs). c ! unat q \<notin> set dropped_ids \<longrightarrow> q \<in> set ws')"
    using cf
  proof
    assume k: "inside (cap_extent (c ! unat p)) (config s1) (unat p) (config t) \<and> c ! unat p \<in> {5, 0x10, 0x11}"
    then have "config t ! 0x34 = config s1 ! 0x34" using p40 by (simp add: inside_def)
    moreover have "linked (config t) (config s1 ! 0x34) ws"
      by (rule linked_cong [OF ws(2)]) (use inside_other [OF wp] wsq k in blast)
    ultimately show ?thesis using ws k by (intro exI [of _ ws]) (auto simp: dropped_ids_def)
  next
    assume k: "inserts (cap_extent (c ! unat p)) (config s1) (unat p) (config t)"
    then have h: "config t ! 0x34 = p" "config t ! (unat p + 1) = config s1 ! 0x34"
      by (simp_all add: inserts_def)
    have "linked (config t) (config s1 ! 0x34) ws"
      by (rule linked_cong [OF ws(2)]) (use put_up_other [OF wp] wsq k in blast)
    with h p0 have "linked (config t) (config t ! 0x34) (p # ws)" by simp
    then show ?thesis using ws by (intro exI [of _ "p # ws"]) auto
  qed
  ultimately show ?thesis by (auto simp: rebuilt_def)
qed

lemma add_std_cap_rebuilds:
  assumes ok: "cfg_env_ok env" and run: "vfio_add_std_cap n env p s = Inr (0, t)"
    and chain: "linked (config s) p ps" and p: "p \<noteq> 0" and wp: "well_placed (config s) ps"
  shows "rebuilt (config s) ps t"
  using run chain p wp
proof (induction n arbitrary: p ps t)
  case 0
  then show ?case by simp
next
  case (Suc n)
  let ?c = "config s"
  from Suc.prems(2,3) obtain qs where ps: "ps = p # qs" and lq: "linked ?c (?c ! (unat p + 1)) qs"
    by (cases ps) auto
  define nx where "nx = ?c ! (unat p + 1)"
  from Suc.prems(1) obtain len r1 s1 where
    i: "unat p < length ?c" "unat p + 1 < length ?c" and
    rec: "(if nx \<noteq> 0 then vfio_add_std_cap n env nx s
           else bindR (rebuild_start s) (\<lambda>s. Inr (0, s))) = Inr (r1, s1)" and
    rest: "(if r1 \<noteq> 0 then Inr (if r1 < 0 then r1 else 0, s1)
     else bindR (set_byte (emulated s1) (unat p + 1) 0xff Beyond_Config) (\<lambda>e.
       bindR (cap_switch env (?c ! unat p) (unat p) len (s1\<lparr>emulated := e\<rparr>)) (\<lambda>(ret, s).
       Inr (if ret < 0 then ret else 0, s)))) = Inr (0, t)"
    by (auto simp: get_byte_def nx_def elim!: bindR_InrE split: if_splits)
  have r1: "r1 = 0"
    using rest rec add_std_cap_le [of n env nx s r1 s1] by (auto split: if_splits elim!: bindR_InrE)
  have wq: "well_placed ?c qs" using Suc.prems(4) well_placedD(3) by (simp add: ps)
  have s1: "rebuilt ?c qs s1"
  proof (cases "nx = 0")
    case True
    with lq have "qs = []" by (cases qs) (auto simp: nx_def)
    moreover from True rec have "rebuild_start s = Inr s1" by (auto elim: bindR_InrE)
    ultimately show ?thesis using rebuild_start_ok [of s s1]
      by (auto simp: rebuilt_def intro: exI [of _ "[]"])
  next
    case False
    with rec r1 have "vfio_add_std_cap n env nx s = Inr (0, s1)" by simp
    from Suc.IH [OF this] lq False wq show ?thesis by (simp add: nx_def)
  qed
  from rest r1 obtain e r2 where e: "set_byte (emulated s1) (unat p + 1) 0xff Beyond_Config = Inr e"
    and sw: "cap_switch env (?c ! unat p) (unat p) len (s1\<lparr>emulated := e\<rparr>) = Inr (r2, t)" and r2: "0 \<le> r2"
    by (auto elim!: bindR_InrE split: if_splits)
  show ?case
    unfolding ps using rebuilt_step [OF ok Suc.prems(4) [unfolded ps] Suc.prems(3) s1 e sw r2] .
qed

end
