(* ===== verification/Vfio_Config_Props.thy ===== *)
theory Vfio_Config_Props
  imports Vfio_Caps
begin

text \<open>
  The properties of the configuration space: what a read returns bit by bit, registers that hide the
  device's own, the rebuilt capability list, and lists that never end.
\<close>

section \<open>Reads\<close>

lemma ones_bit: "bit (0xFFFFFFFF :: u32) k \<longleftrightarrow> k < 32" "bit (0xFF :: u32) k \<longleftrightarrow> k < 8"
proof -
  have "(0xFFFFFFFF :: u32) = mask 32" "(0xFF :: u32) = mask 8" by (simp_all add: mask_eq_exp_minus_1)
  then show "bit (0xFFFFFFFF :: u32) k \<longleftrightarrow> k < 32" "bit (0xFF :: u32) k \<longleftrightarrow> k < 8"
    by (simp_all only: bit_mask_iff) auto
qed

lemma len_mask_bit: "len \<in> {1, 2, 4} \<Longrightarrow> bit (len_mask len) n \<longleftrightarrow> n < 8 * len"
proof -
  have "bit (len_mask len) n \<longleftrightarrow> 32 - len * 8 + n < 32"
    by (simp only: len_mask_def bit_drop_bit_eq comp_def ones_bit)
  then show "len \<in> {1, 2, 4} \<Longrightarrow> bit (len_mask len) n \<longleftrightarrow> n < 8 * len" by auto
qed

lemma read_bit:
  assumes "len \<in> {1, 2, 4}" and n: "n < 8 * len"
  shows "bit (vfio_pci_read_config emu dflt (Inr phys) len) n
    = (if bit emu n then bit dflt n else bit phys n)"
proof -
  have k: "bit emu n" if "and (not emu) (len_mask len) = 0"
  proof -
    have "\<not> bit (and (not emu) (len_mask len)) n" using that by simp
    moreover have "n < LENGTH(32)" using n assms by auto
    ultimately show ?thesis using len_mask_bit [OF assms(1)] n by (simp add: bit_and_iff bit_not_iff)
  qed
  show ?thesis
    using k n assms
    by (auto simp: vfio_pci_read_config_def Let_def bit_or_iff bit_and_iff bit_not_iff)
qed

text \<open>Bit by bit, a configuration read returns QEMU's value where the bit is emulated and the
  device's elsewhere, and it does not depend on the device at all, nor on the read of it failing, when
  every bit read is emulated.\<close>

theorem config_read_bits:
  assumes "len \<in> {1, 2, 4}"
  shows "(\<forall>n < 8 * len. bit (vfio_pci_read_config emu dflt (Inr phys) len) n
      = (if bit emu n then bit dflt n else bit phys n))
    \<and> ((\<forall>n < 8 * len. bit emu n) \<longrightarrow>
        (\<forall>p q. vfio_pci_read_config emu dflt p len = vfio_pci_read_config emu dflt q len))"
proof (intro conjI impI allI)
  show "bit (vfio_pci_read_config emu dflt (Inr phys) len) n = (if bit emu n then bit dflt n else bit phys n)"
    if "n < 8 * len" for n using assms that by (rule read_bit)
next
  assume all: "\<forall>n < 8 * len. bit emu n"
  have "and (not emu) (len_mask len) = 0"
    by (rule bit_word_eqI) (use all len_mask_bit [OF assms] in \<open>auto simp: bit_and_iff bit_not_iff\<close>)
  then show "vfio_pci_read_config emu dflt p len = vfio_pci_read_config emu dflt q len" for p q
    by (simp add: vfio_pci_read_config_def Let_def)
qed

theorem config_read_bits_witness:
  "vfio_pci_read_config 0x00FF 0x12 (Inr 0x3400) 2 = 0x3412
   \<and> vfio_pci_read_config 0xFF 0x12 (Inl 5) 1 = vfio_pci_read_config 0xFF 0x12 (Inr 0) 1"
proof -
  have "\<forall>n < 8 * 1. bit (0xFF :: u32) n" by (simp only: ones_bit) simp
  with config_read_bits [of 1 "0xFF" "0x12" 0]
  have "vfio_pci_read_config 0xFF 0x12 (Inl 5) 1 = vfio_pci_read_config 0xFF 0x12 (Inr 0) 1" by blast
  moreover have "vfio_pci_read_config 0x00FF 0x12 (Inr 0x3400) 2 = 0x3412" by code_simp
  ultimately show ?thesis by blast
qed

text \<open>After \<open>vfio_add_emulated_word\<close> with a value inside its mask, a read of the register returns
  that value in the bits of the mask, whatever the device holds there.\<close>

theorem emulated_word_hides:
  assumes "vfio_add_emulated_word pos val m s = Inr t" and "and val (not m) = 0"
  shows "\<exists>emu cfg. get_word (emulated t) pos Beyond_Config = Inr emu
    \<and> get_word (config t) pos Beyond_Config = Inr cfg
    \<and> (\<forall>phys. and (vfio_pci_read_config (ucast emu) (ucast cfg) (Inr phys) 2) (ucast m) = ucast val)"
proof -
  from assms(1) obtain wc we where
    sc: "set_word (config s) pos (or (and wc (not m)) val) Beyond_Config = Inr (config t)" and
    se: "set_word (emulated s) pos (or (and we (not m)) m) Beyond_Config = Inr (emulated t)"
    by (auto simp: vfio_add_emulated_word_def vfio_set_word_bits_def elim!: bindR_InrE)
  have v: "bit m n" if "bit val n" for n
  proof -
    have "\<not> bit (and val (not m)) n" using assms(2) by simp
    with that show ?thesis using bit_imp_le_length [OF that] by (simp add: bit_and_iff bit_not_iff)
  qed
  define e where "e = or (and we (not m)) m"
  define d where "d = or (and wc (not m)) val"
  have u: "bit (ucast w :: u32) n \<longleftrightarrow> bit w n" if "n < 16" for w :: u16 and n
    using that by (simp add: bit_ucast_iff)
  have big: "\<not> bit (ucast w :: u32) n" if "\<not> n < 16" for w :: u16 and n
    using that bit_imp_le_length [of w n] by (auto simp: bit_ucast_iff)
  have ed: "bit e n" "bit d n = bit val n" if "bit m n" for n
    using that bit_imp_le_length [OF that] by (auto simp: e_def d_def bit_or_iff bit_and_iff bit_not_iff)
  have "and (vfio_pci_read_config (ucast e) (ucast d) (Inr phys) 2) (ucast m) = ucast val" for phys
  proof (rule bit_word_eqI)
    fix n
    have "bit (vfio_pci_read_config (ucast e) (ucast d) (Inr phys) 2) n = bit val n"
      if "n < 16" "bit m n"
      using read_bit [of 2 n "ucast e" "ucast d" phys] that u [of n e] u [of n d] ed [of n] by simp
    note inside = this
    show "bit (and (vfio_pci_read_config (ucast e) (ucast d) (Inr phys) 2) (ucast m)) n
        = bit (ucast val :: u32) n"
    proof (cases "n < 16 \<and> bit m n")
      case True
      then show ?thesis using inside u [of n m] u [of n val] unfolding bit_and_iff by blast
    next
      case False
      then have "\<not> bit (ucast m :: u32) n" and "\<not> bit (ucast val :: u32) n"
        using u [of n m] u [of n val] big [of n m] big [of n val] v [of n] by blast+
      then show ?thesis by (simp only: bit_and_iff) simp
    qed
  qed
  moreover have "get_word (config t) pos Beyond_Config = Inr d" "get_word (emulated t) pos Beyond_Config = Inr e"
    unfolding e_def d_def by (rule set_word_InrD(1) [OF sc], rule set_word_InrD(1) [OF se])
  ultimately show ?thesis by (intro exI [of _ e] exI [of _ d] conjI allI)
qed

definition demo_cfg :: pci_cfg where
  "demo_cfg = \<lparr>config = (replicate 256 0)[6 := 0x10, 0x34 := 0x40, 0x40 := 1, 0x41 := 0x50, 0x50 := 5, 0x51 := 0x70,
       0x70 := 0x10, 0x71 := 0xB0, 0x72 := 2, 0x82 := 0x11, 0xB0 := 0x11, 0xB1 := 0],
     wmask = replicate 256 0, emulated = replicate 256 0, pm_pos = 0, flr_seen = False,
     pm_reset_seen = False, msi_len = 0, exp_pos = 0\<rparr>"

theorem emulated_word_hides_witness:
  "\<exists>t cfg. vfio_add_emulated_word 0 0x8086 0xFFFF demo_cfg = Inr t
     \<and> get_word (config t) 0 Beyond_Config = Inr cfg"
proof -
  have "\<not> isl (vfio_add_emulated_word 0 0x8086 0xFFFF demo_cfg)" by code_simp
  then obtain t where "vfio_add_emulated_word 0 0x8086 0xFFFF demo_cfg = Inr t"
    by (cases "vfio_add_emulated_word 0 0x8086 0xFFFF demo_cfg") auto
  with emulated_word_hides [of 0 "0x8086" "0xFFFF" demo_cfg t] show ?thesis by auto
qed

section \<open>The capability list\<close>

text \<open>C17: when the capabilities of a physical device with an ordered, well placed list have been set up
  successfully, the list QEMU shows is the device's list in its order, with at most MSI, MSI-X and
  PCI Express capabilities left out, and its head and every link of it are emulated.\<close>

theorem capability_list_rebuilt:
  assumes "cfg_env_ok env" and "vfio_add_std_cap n env p s = Inr (0, t)" and "p \<noteq> 0"
    and "linked (config s) p ps" and "well_placed (config s) ps"
  shows "(\<exists>qs. subseq qs ps \<and> linked (config t) (config t ! 0x34) qs
      \<and> (\<forall>q \<in> set ps. config s ! unat q \<notin> {5, 0x10, 0x11} \<longrightarrow> q \<in> set qs))
    \<and> emulated t ! 0x34 = 0xff \<and> (\<forall>q \<in> set ps. emulated t ! (unat q + 1) = 0xff)"
proof -
  have "rebuilt (config s) ps t"
    using add_std_cap_rebuilds [OF assms(1,2,4,3,5)] .
  then show ?thesis by (auto simp: rebuilt_def dropped_ids_def)
qed

text \<open>A PCI core as it is documented, on a root bus that is not express.\<close>

definition head_insert :: "u8 list \<Rightarrow> nat \<Rightarrow> u8 \<Rightarrow> u8 list" where
  "head_insert c pos i = c[pos := i, pos + 1 := c ! 0x34, 0x34 := of_nat pos]"

definition demo_env :: cfg_env where
  "demo_env = \<lparr>add_capability = (\<lambda>c i pos len. if pos + 1 < length c \<and> 0x34 < pos then (int pos, head_insert c pos i) else (- 1, c)),
     msi_control = (\<lambda>_. Some 0x86),
     msi_init = (\<lambda>c pos _ _ _. (- ENOTSUP, c)),
     msix_init = (\<lambda>c pos. if pos + 1 < length c \<and> 0x34 < pos then (0, head_insert c pos 0x11) else (- 1, c)),
     bus_path = [(True, False)], is_express = False, add_ext_capability = (\<lambda>c _ _ _ _. c)\<rparr>"

lemma demo_env_ok: "cfg_env_ok demo_env"
proof -
  have "inserts n c pos (head_insert c pos i)" if "pos + 1 < length c" "0x34 < pos" "2 \<le> n" for n c pos i
    using that by (auto simp: inserts_def head_insert_def nth_list_update)
  then show ?thesis by (auto simp: cfg_env_ok_def demo_env_def)
qed

text \<open>The example device: power management, MSI, which this host does not support, PCI Express, MSI-X.\<close>

definition demo_caps :: "u8 list" where
  "demo_caps = [0x40, 0x50, 0x70, 0xB0]"

theorem capability_list_rebuilt_witness:
  "\<exists>t qs. vfio_add_std_cap 5 demo_env 0x40 demo_cfg = Inr (0, t) \<and> subseq qs demo_caps
     \<and> linked (config t) (config t ! 0x34) qs \<and> 0x40 \<in> set qs \<and> emulated t ! 0xB1 = 0xff"
proof -
  have "(case vfio_add_std_cap 5 demo_env 0x40 demo_cfg of Inl _ \<Rightarrow> False | Inr (r, t) \<Rightarrow> r = 0)"
    by code_simp
  then obtain t where t: "vfio_add_std_cap 5 demo_env 0x40 demo_cfg = Inr (0, t)"
    by (auto split: sum.splits)
  have "linked (config demo_cfg) 0x40 demo_caps" "well_placed (config demo_cfg) demo_caps" by code_simp+
  from capability_list_rebuilt [OF demo_env_ok t _ this] obtain qs where
    "subseq qs demo_caps" "linked (config t) (config t ! 0x34) qs"
    and ids: "\<forall>q \<in> set demo_caps. config demo_cfg ! unat q \<notin> {5, 0x10, 0x11} \<longrightarrow> q \<in> set qs"
    and em: "\<forall>q \<in> set demo_caps. emulated t ! (unat q + 1) = 0xff" by auto
  moreover have "config demo_cfg ! unat (0x40 :: u8) = 1" by code_simp
  then have "0x40 \<in> set qs" using ids by (auto simp: demo_caps_def)
  moreover have "emulated t ! 0xB1 = 0xff" using em by (simp add: demo_caps_def)
  ultimately show ?thesis using t by blast
qed

section \<open>Lists that never end\<close>

lemma walk_cycle:
  assumes "0 \<notin> P" and "\<forall>q \<in> P. unat q + 1 < length c \<and> c ! (unat q + 1) \<in> P"
  shows "p \<in> P \<Longrightarrow> cap_walk n c p = Inl Endless"
proof (induction n arbitrary: p)
  case 0
  then show ?case using assms(1) by auto
next
  case (Suc n)
  then have "p \<noteq> 0" "unat p + 1 < length c" "c ! (unat p + 1) \<in> P" using assms by auto
  then show ?case using Suc.IH by (simp add: get_byte_def)
qed

text \<open>On a device whose capability list runs into a cycle the walk along the list never ends, for
  any bound, and neither does adding its capabilities.\<close>

theorem cyclic_list_hangs:
  assumes "0 \<notin> P" and "\<forall>q \<in> P. unat q + 1 < length (config s) \<and> config s ! (unat q + 1) \<in> P"
    and "config s ! 0x34 \<in> P" and "0x34 < length (config s)" and "p \<in> P"
  shows "(\<forall>n. cap_walk n (config s) p = Inl Endless) \<and> (\<forall>n. vfio_add_std_cap n env p s = Inl Endless)"
proof (intro conjI allI)
  note w = walk_cycle [OF assms(1,2)]
  show "cap_walk n (config s) p = Inl Endless" for n using assms(5) by (rule w)
  show "vfio_add_std_cap n env p s = Inl Endless" for n
    using assms w [OF assms(3)] by (cases n) (auto simp: get_byte_def vfio_std_cap_max_size_def)
qed

theorem cyclic_list_hangs_witness:
  "\<forall>n. vfio_add_std_cap n demo_env 0x40 (demo_cfg\<lparr>config := (config demo_cfg)[0x41 := 0x40]\<rparr>) = Inl Endless"
  using cyclic_list_hangs [of "{0x40}" "demo_cfg\<lparr>config := (config demo_cfg)[0x41 := 0x40]\<rparr>" "0x40" demo_env]
  by (simp add: demo_cfg_def)

end
