(* ===== verification/Vfio_Notes.thy ===== *)
theory Vfio_Notes
  imports Vfio_Reach
begin

text \<open>
  Whether the MSI-X core calls the device's vector notifiers: it does from the call of
  \<open>msix_set_vector_notifiers\<close> to that of \<open>msix_unset_vector_notifiers\<close>. Only \<open>vfio_msix_enable\<close> makes
  the first call and only \<open>vfio_msix_disable\<close> the second one; every other function of the interrupt
  code leaves the notifiers as they are.
\<close>

fun notifying :: "host_call list \<Rightarrow> bool" where
  "notifying [] = False"
| "notifying (c # cs) =
     (if c = Set_Vector_Notifiers then True
      else if c = Unset_Vector_Notifiers then False else notifying cs)"

definition noting :: "vfio_irq \<Rightarrow> bool" where
  "noting s = notifying (calls s)"

named_theorems noting_simps

lemma noting_act [noting_simps]:
  "noting (act c s) = (if c = Set_Vector_Notifiers then True
     else if c = Unset_Vector_Notifiers then False else noting s)"
  by (simp add: noting_def act_def)

lemma noting_calls [noting_simps]:
  "noting (snd (event_notifier_init h k s)) = noting s" "noting (event_notifier_cleanup fd s) = noting s"
  "noting (qemu_set_fd_handler fd f s) = noting s" "noting (snd (set_trigger h i st fds s)) = noting s"
  "noting (vfio_disable_irqindex i s) = noting s" "noting (discard r s) = noting s" "noting (acquire r s) = noting s"
  by (simp_all add: noting_def call_defs Let_def)

lemma noting_ask [noting_simps]:
  "c \<noteq> Set_Vector_Notifiers \<Longrightarrow> c \<noteq> Unset_Vector_Notifiers \<Longrightarrow> noting (snd (ask h c s)) = noting s"
  by (simp add: noting_def ask_def act_def)

lemma noting_fields [noting_simps]:
  "noting (s\<lparr>interrupt := a\<rparr>) = noting s" "noting (s\<lparr>intx_pending := b\<rparr>) = noting s"
  "noting (s\<lparr>kvm_accel := b\<rparr>) = noting s" "noting (s\<lparr>intx_pin := p\<rparr>) = noting s"
  "noting (s\<lparr>intx_fd := f\<rparr>) = noting s" "noting (s\<lparr>unmask_fd := f\<rparr>) = noting s"
  "noting (s\<lparr>intx_route := r\<rparr>) = noting s" "noting (s\<lparr>msi_vectors := vs\<rparr>) = noting s"
  "noting (s\<lparr>nr_vectors := n\<rparr>) = noting s" "noting (s\<lparr>msix_pending := ps\<rparr>) = noting s"
  by (simp_all add: noting_def)

lemma noting_mmap [noting_simps]: "noting (vfio_mmap_set_enabled b s) = noting s"
  by (simp add: vfio_mmap_set_enabled_def noting_simps upt_rec)

text \<open>The same for a result that has been taken apart.\<close>

lemma noting_trigger: "set_trigger h i st fds s = (r, t) \<Longrightarrow> noting t = noting s"
  by (metis noting_calls(4) snd_conv)

lemma noting_asked:
  "ask h c s = (r, t) \<Longrightarrow> c \<noteq> Set_Vector_Notifiers \<Longrightarrow> c \<noteq> Unset_Vector_Notifiers \<Longrightarrow> noting t = noting s"
  by (metis noting_ask snd_conv)

lemma noting_foldR:
  assumes "foldR f xs s = Inr t" and "\<And>x s t. x \<in> set xs \<Longrightarrow> f x s = Inr t \<Longrightarrow> noting t = noting s"
  shows "noting t = noting s"
  using assms(1) by (rule foldR_inv [where P = "\<lambda>u. noting u = noting s"]) (auto dest: assms(2))

section \<open>INTx\<close>

lemma noting_kvm [noting_simps]:
  "noting (vfio_intx_enable_kvm h s) = noting s" "noting (vfio_intx_disable_kvm s) = noting s"
  by (simp_all add: vfio_intx_enable_kvm_def vfio_intx_disable_kvm_def kvm_fail_def kvm_fail_irqfd_def
      kvm_fail_vfio_def Let_def split_def noting_simps)

lemma noting_intx [noting_simps]:
  "noting (snd (intx_setup h pin s)) = noting s" "noting (vfio_intx_disable s) = noting s"
  by (simp_all add: intx_setup_def vfio_intx_disable_def Let_def split_def noting_simps)

lemma noting_setup: "intx_setup h pin s = (r, t) \<Longrightarrow> noting t = noting s"
  by (metis noting_intx(1) snd_conv)

lemma noting_intx_enable:
  assumes run: "intx_enable_with dis h s = Inr (r, t)" and mode: "interrupt s \<noteq> INT_MSIX"
    and dis: "\<And>s t. interrupt s \<noteq> INT_MSIX \<Longrightarrow> dis s = Inr t \<Longrightarrow> noting t = noting s"
  shows "noting t = noting s"
proof -
  obtain v s1 where v: "ask h Read_Interrupt_Pin s = (v, s1)" by (meson surj_pair)
  have "noting s1 = noting s" using noting_asked [OF v] by simp
  moreover have "interrupt s1 \<noteq> INT_MSIX" using v mode by (auto simp: ask_def act_def)
  ultimately show ?thesis
    using run v by (auto simp: intx_enable_with_def Let_def bindR_eq_Inr dest!: dis noting_setup split: if_splits)
qed

section \<open>Vectors\<close>

lemma noting_virq [noting_simps]:
  "noting (snd (vfio_add_kvm_msi_virq h n m v s)) = noting s" "noting (snd (vfio_remove_kvm_msi_virq v s)) = noting s"
  "noting (vfio_update_kvm_msi_virq v n s) = noting s"
  by (simp_all add: vfio_add_kvm_msi_virq_def vfio_remove_kvm_msi_virq_def vfio_update_kvm_msi_virq_def
      Let_def split_def noting_simps)

lemma noting_use_parts [noting_simps]:
  "noting (snd (use_first h nr v s)) = noting s" "noting (snd (use_route h nr m v s)) = noting s"
  "noting (use_pending nr s) = noting s"
  by (simp_all add: use_first_def use_route_def use_pending_def Let_def split_def noting_simps)

lemma noting_use_trigger: "use_trigger h nr s = Inr t \<Longrightarrow> noting t = noting s"
  by (auto simp: use_trigger_def vfio_enable_vectors_def Let_def split_def noting_simps bindR_eq_Inr
      dest!: noting_trigger split: if_splits)

lemma noting_do_use: "vfio_msix_vector_do_use h nr m f s = Inr t \<Longrightarrow> noting t = noting s"
  by (auto simp: vfio_msix_vector_do_use_def Let_def split_def noting_simps bindR_eq_Inr
      dest!: noting_use_trigger split: if_splits)

lemma noting_use: "vfio_msix_vector_use h nr s = Inr t \<Longrightarrow> noting t = noting s"
  unfolding vfio_msix_vector_use_def by (rule noting_do_use)

lemma noting_release: "vfio_msix_vector_release h nr s = Inr t \<Longrightarrow> noting t = noting s"
  by (auto simp: vfio_msix_vector_release_def Let_def noting_simps split: if_splits)

lemma noting_free: "free_vector i s = Inr t \<Longrightarrow> noting t = noting s"
  by (auto simp: free_vector_def Let_def split_def noting_simps split: if_splits)

lemma noting_free_used: "free_used_vector i s = Inr t \<Longrightarrow> noting t = noting s"
  by (auto simp: free_used_vector_def dest: noting_free split: if_splits)

lemma noting_release_used: "release_used_vector h i s = Inr t \<Longrightarrow> noting t = noting s"
  by (auto simp: release_used_vector_def noting_simps bindR_eq_Inr dest!: noting_release split: if_splits)

section \<open>The modes\<close>

lemma noting_common:
  assumes "msi_disable_common_with dis h s = Inr t" and "\<And>s t. interrupt s \<noteq> INT_MSIX \<Longrightarrow> dis s = Inr t \<Longrightarrow> noting t = noting s"
  shows "noting t = noting s"
proof -
  from assms(1) obtain u r where u: "foldR free_used_vector [0..<nr_vectors s] s = Inr u"
    "intx_enable_with dis h (u\<lparr>msi_vectors := [], nr_vectors := 0, interrupt := INT_NONE\<rparr>) = Inr (r, t)"
    by (auto simp: msi_disable_common_with_def bindR_eq_Inr)
  have "noting u = noting s" using u(1) noting_free_used by (rule noting_foldR)
  moreover have "noting t = noting (u\<lparr>msi_vectors := [], nr_vectors := 0, interrupt := INT_NONE\<rparr>)"
    using u(2) by (rule noting_intx_enable) (simp, rule assms(2))
  ultimately show ?thesis by (simp add: noting_simps)
qed

lemma noting_msi_disable:
  assumes "msi_disable_with dis h s = Inr t" and "\<And>s t. interrupt s \<noteq> INT_MSIX \<Longrightarrow> dis s = Inr t \<Longrightarrow> noting t = noting s"
  shows "noting t = noting s"
  using noting_common [OF assms(1) [unfolded msi_disable_with_def] assms(2)] by (simp add: noting_simps)

text \<open>Leaving MSI-X ends the notifications.\<close>

lemma noting_msix_disable:
  assumes "msix_disable_with dis h s = Inr t" and "\<And>s t. interrupt s \<noteq> INT_MSIX \<Longrightarrow> dis s = Inr t \<Longrightarrow> noting t = noting s"
  shows "\<not> noting t"
proof -
  from assms(1) obtain u w x where
    u: "foldR (vfio_msix_vector_release h) (unmasked h (calls s)) (act Unset_Vector_Notifiers s) = Inr u" and
    w: "foldR (release_used_vector h) [0..<nr_vectors u] u = Inr w" and
    x: "msi_disable_common_with dis h (if nr_vectors w \<noteq> 0 then vfio_disable_irqindex IRQ_MSIX w else w) = Inr x" and
    t: "t = x\<lparr>msix_pending := replicate (msix_entries h) False\<rparr>"
    by (auto simp: msix_disable_with_def msix_unset_vector_notifiers_def bindR_eq_Inr)
  have "noting u = noting (act Unset_Vector_Notifiers s)" using u noting_release by (rule noting_foldR)
  moreover have "noting w = noting u" using w noting_release_used by (rule noting_foldR)
  ultimately show ?thesis
    using noting_common [OF x assms(2)] by (simp add: t noting_simps)
qed

lemma noting_disable_interrupts:
  "disable_interrupts n h s = Inr t \<Longrightarrow> noting t = (noting s \<and> interrupt s \<noteq> INT_MSIX)"
proof (induction n arbitrary: s t)
  case 0
  then show ?case by simp
next
  case (Suc n)
  from Suc.prems obtain u where
    u: "(if interrupt s = INT_MSIX then msix_disable_with (disable_interrupts n h) h s
         else if interrupt s = INT_MSI then msi_disable_with (disable_interrupts n h) h s else Inr s) = Inr u"
    and t: "t = vfio_intx_disable u \<or> t = u"
    by (auto simp: bindR_eq_Inr split: if_splits)
  have "noting t = noting u" using t by (auto simp: noting_simps)
  moreover have "noting u = (noting s \<and> interrupt s \<noteq> INT_MSIX)"
  proof (cases "interrupt s")
    case INT_MSIX
    with u noting_msix_disable [of "disable_interrupts n h" h s u] Suc.IH show ?thesis by simp
  next
    case INT_MSI
    with u noting_msi_disable [of "disable_interrupts n h" h s u] Suc.IH show ?thesis by simp
  qed (use u in simp_all)
  ultimately show ?case by simp
qed

text \<open>The operations as the guest's writes call them.\<close>

lemma noting_disable:
  "vfio_disable_interrupts h s = Inr t \<Longrightarrow> noting t = (noting s \<and> interrupt s \<noteq> INT_MSIX)"
  unfolding vfio_disable_interrupts_def by (rule noting_disable_interrupts)

lemma noting_op_msi_disable: "vfio_msi_disable h s = Inr t \<Longrightarrow> noting t = noting s"
  unfolding vfio_msi_disable_def by (erule noting_msi_disable) (auto dest: noting_disable)

lemma noting_op_msix_disable: "vfio_msix_disable h s = Inr t \<Longrightarrow> \<not> noting t"
  unfolding vfio_msix_disable_def by (erule noting_msix_disable) (auto dest: noting_disable)

lemma noting_setup_vector: "setup_vector h i s = Inr t \<Longrightarrow> noting t = noting s"
  by (auto simp: setup_vector_def Let_def split_def noting_simps split: if_splits)

lemma noting_attempt: "msi_attempt n h s = Inr t \<Longrightarrow> noting t = noting s"
proof (induction n arbitrary: s)
  case 0
  then show ?case by simp
next
  case (Suc n)
  from Suc.prems obtain u ret w where
    u: "foldR (setup_vector h) [0..<nr_vectors s] (s\<lparr>msi_vectors := replicate (nr_vectors s) zero_vector\<rparr>) = Inr u"
    and w: "vfio_enable_vectors h False (u\<lparr>interrupt := INT_MSI\<rparr>) = Inr (ret, w)"
    by (auto simp: bindR_eq_Inr)
  have nu: "noting u = noting (s\<lparr>msi_vectors := replicate (nr_vectors s) zero_vector\<rparr>)"
    using u noting_setup_vector by (rule noting_foldR)
  have nw: "noting w = noting s"
    using w nu by (auto simp: vfio_enable_vectors_def noting_simps dest!: noting_trigger split: if_splits)
  show ?case
  proof (cases "ret = 0")
    case True
    with Suc.prems u w nw show ?thesis by simp
  next
    case False
    with Suc.prems u w obtain x where x: "foldR free_vector [0..<nr_vectors w] w = Inr x"
      by (auto simp: bindR_eq_Inr)
    have "noting x = noting w" using x noting_free by (rule noting_foldR)
    with Suc.prems Suc.IH u w x False nw show ?thesis
      by (auto simp: Let_def noting_simps split: if_splits)
  qed
qed

lemma noting_op_msi_enable:
  assumes "vfio_msi_enable h s = Inr t"
  shows "noting t = (noting s \<and> interrupt s \<noteq> INT_MSIX)"
  using assms by (auto simp: vfio_msi_enable_def Let_def split_def bindR_eq_Inr noting_simps
      simp del: msi_attempt.simps dest!: noting_disable noting_attempt)

lemma noting_op_msix_enable:
  assumes "vfio_msix_enable h s = Inr t"
  shows "noting t"
proof -
  from assms obtain u where
    "foldR (vfio_msix_vector_use h) (unmasked h (calls u)) (act Set_Vector_Notifiers u) = Inr t"
    by (auto simp: vfio_msix_enable_def msix_set_vector_notifiers_def bindR_eq_Inr)
  then have "noting t = noting (act Set_Vector_Notifiers u)" using noting_use by (rule noting_foldR)
  then show ?thesis by (simp add: noting_simps)
qed

lemma noting_op_update: "vfio_update_msi s = Inr t \<Longrightarrow> noting t = noting s"
  unfolding vfio_update_msi_def by (erule noting_foldR)
    (auto simp: update_vector_def Let_def noting_simps split: if_splits)

end
