(* ===== verification/Vfio_Write.thy ===== *)
theory Vfio_Write
  imports Vfio_Notes Vfio_Region
begin

text \<open>
  The guest's writes to the configuration space of a passthrough device, \<open>vfio_pci_write_config\<close> of
  \<open>hw/vfio/pci.c\<close>: every write goes to the device, QEMU's copy follows, and a write that enables or
  disables MSI or MSI-X changes the interrupt mode. The PCI core is a parameter: what
  \<open>pci_default_write_config\<close> makes of the bytes, for which vectors it runs the MSI-X notifiers during
  the write (\<open>True\<close> for the use notifier), and what it reads from the bytes.
\<close>

section \<open>The device and the PCI core\<close>

record pci_core =
  msi_present :: bool
  msi_pos :: nat
  msi_size :: nat
  msix_present :: bool
  msix_pos :: nat
  msi_on :: "u8 list \<Rightarrow> bool"
  msix_on :: "u8 list \<Rightarrow> bool"
  default_write :: "u8 list \<Rightarrow> nat \<Rightarrow> u32 \<Rightarrow> nat \<Rightarrow> u8 list"
  notified :: "u8 list \<Rightarrow> nat \<Rightarrow> u32 \<Rightarrow> nat \<Rightarrow> (bool \<times> nat) list"
  overlap :: "nat \<Rightarrow> nat \<Rightarrow> nat \<Rightarrow> nat \<Rightarrow> bool"
  covers_byte :: "nat \<Rightarrow> nat \<Rightarrow> nat \<Rightarrow> bool"
  bar_addr :: "u8 list \<Rightarrow> nat \<Rightarrow> nat option"
  bar_size :: "nat \<Rightarrow> nat"
  bar_mapped :: "u8 list \<Rightarrow> nat \<Rightarrow> bool"
  bar_regions :: "vfio_region list"
  bar_mmap :: "nat \<Rightarrow> bool"
  host_page :: nat

record guest_dev =
  cfg_bytes :: "u8 list"
  irq :: vfio_irq
  dev_writes :: "(nat \<times> u32 \<times> nat) list"
  bar_updates :: "(nat \<times> region_call list) list"

definition MSIX_CAP_LENGTH :: nat where "MSIX_CAP_LENGTH = 12"

section \<open>The write\<close>

definition with_irq :: "(vfio_irq \<Rightarrow> vfio_fault + vfio_irq) \<Rightarrow> guest_dev \<Rightarrow> vfio_fault + guest_dev" where
  "with_irq f d = bindR (f (irq d)) (\<lambda>s. Inr (d\<lparr>irq := s\<rparr>))"

definition notify_vector :: "vfio_host \<Rightarrow> bool \<times> nat \<Rightarrow> vfio_irq \<Rightarrow> vfio_fault + vfio_irq" where
  "notify_vector h v s =
     (if fst v then vfio_msix_vector_use h (snd v) s else vfio_msix_vector_release h (snd v) s)"

definition pci_default_write ::
    "pci_core \<Rightarrow> vfio_host \<Rightarrow> nat \<Rightarrow> u32 \<Rightarrow> nat \<Rightarrow> guest_dev \<Rightarrow> vfio_fault + guest_dev" where
  "pci_default_write c h addr val len d =
     with_irq (foldR (notify_vector h) (if noting (irq d) then notified c (cfg_bytes d) addr val len else []))
       (d\<lparr>cfg_bytes := default_write c (cfg_bytes d) addr val len\<rparr>)"

definition write_msi ::
    "pci_core \<Rightarrow> vfio_host \<Rightarrow> nat \<Rightarrow> u32 \<Rightarrow> nat \<Rightarrow> guest_dev \<Rightarrow> vfio_fault + guest_dev" where
  "write_msi c h addr val len d =
     (let was_enabled = msi_on c (cfg_bytes d) in
      bindR (pci_default_write c h addr val len d) (\<lambda>d.
      let is_enabled = msi_on c (cfg_bytes d) in
      if \<not> was_enabled then if is_enabled then with_irq (vfio_msi_enable h) d else Inr d
      else if \<not> is_enabled then with_irq (vfio_msi_disable h) d
      else with_irq vfio_update_msi d))"

definition write_msix ::
    "pci_core \<Rightarrow> vfio_host \<Rightarrow> nat \<Rightarrow> u32 \<Rightarrow> nat \<Rightarrow> guest_dev \<Rightarrow> vfio_fault + guest_dev" where
  "write_msix c h addr val len d =
     (let was_enabled = msix_on c (cfg_bytes d) in
      bindR (pci_default_write c h addr val len d) (\<lambda>d.
      let is_enabled = msix_on c (cfg_bytes d) in
      if \<not> was_enabled \<and> is_enabled then with_irq (vfio_msix_enable h) d
      else if was_enabled \<and> \<not> is_enabled then with_irq (vfio_msix_disable h) d
      else Inr d))"

text \<open>A BAR smaller than a host page whose address the write has changed.\<close>

definition update_bar :: "pci_core \<Rightarrow> u8 list \<Rightarrow> guest_dev \<Rightarrow> nat \<Rightarrow> guest_dev" where
  "update_bar c old d bar =
     (let new = cfg_bytes d in
      if bar_addr c old bar \<noteq> bar_addr c new bar \<and> 0 < bar_size c bar \<and> bar_size c bar < host_page c
      then d\<lparr>bar_updates := bar_updates d @
        [(bar, vfio_sub_page_bar_update_mapping (host_page c) (bar_addr c new bar) (bar_mmap c bar)
                 (bar_mapped c new bar) (bar_regions c ! bar))]\<rparr>
      else d)"

definition write_bars ::
    "pci_core \<Rightarrow> vfio_host \<Rightarrow> nat \<Rightarrow> u32 \<Rightarrow> nat \<Rightarrow> guest_dev \<Rightarrow> vfio_fault + guest_dev" where
  "write_bars c h addr val len d =
     bindR (pci_default_write c h addr val len d) (\<lambda>d'.
     Inr (foldl (update_bar c (cfg_bytes d)) d' [0..<6]))"

definition vfio_pci_write_config ::
    "pci_core \<Rightarrow> vfio_host \<Rightarrow> nat \<Rightarrow> u32 \<Rightarrow> nat \<Rightarrow> guest_dev \<Rightarrow> vfio_fault + guest_dev" where
  "vfio_pci_write_config c h addr val len d =
     (let d = d\<lparr>dev_writes := dev_writes d @ [(addr, val, len)]\<rparr> in
      if msi_present c \<and> overlap c addr len (msi_pos c) (msi_size c) then write_msi c h addr val len d
      else if msix_present c \<and> overlap c addr len (msix_pos c) MSIX_CAP_LENGTH
      then write_msix c h addr val len d
      else if overlap c addr len 0x10 24 \<or> covers_byte c addr len 4 then write_bars c h addr val len d
      else pci_default_write c h addr val len d)"

text \<open>
  What the guest does to the device: writes to its configuration space, and to the mask bits of the
  MSI-X table, for which the MSI-X core runs a notifier when MSI-X is enabled and notifiers are set.
\<close>

datatype guest_op = Config_Write nat u32 nat | Vector_Unmask nat | Vector_Mask nat

definition mask_vector :: "pci_core \<Rightarrow> vfio_host \<Rightarrow> bool \<times> nat \<Rightarrow> guest_dev \<Rightarrow> vfio_fault + guest_dev" where
  "mask_vector c h v d =
     (if msix_on c (cfg_bytes d) \<and> noting (irq d) then with_irq (notify_vector h v) d else Inr d)"

fun do_op :: "pci_core \<Rightarrow> vfio_host \<Rightarrow> guest_op \<Rightarrow> guest_dev \<Rightarrow> vfio_fault + guest_dev" where
  "do_op c h (Config_Write addr val len) d = vfio_pci_write_config c h addr val len d"
| "do_op c h (Vector_Unmask nr) d = mask_vector c h (True, nr) d"
| "do_op c h (Vector_Mask nr) d = mask_vector c h (False, nr) d"

section \<open>The PCI core's part\<close>

text \<open>
  What the PCI core guarantees: a capability's enable bit only changes with a write to that
  capability, and notifiers run for vectors of the table only.
\<close>

definition core_ok :: "pci_core \<Rightarrow> vfio_host \<Rightarrow> bool" where
  "core_ok c h \<longleftrightarrow>
     (\<forall>b addr val len. msi_on c (default_write c b addr val len) \<noteq> msi_on c b \<longrightarrow>
        msi_present c \<and> overlap c addr len (msi_pos c) (msi_size c)) \<and>
     (\<forall>b addr val len. msix_on c (default_write c b addr val len) \<noteq> msix_on c b \<longrightarrow>
        msix_present c \<and> overlap c addr len (msix_pos c) MSIX_CAP_LENGTH
        \<and> \<not> (msi_present c \<and> overlap c addr len (msi_pos c) (msi_size c))) \<and>
     (\<forall>b addr val len. set (map snd (notified c b addr val len)) \<subseteq> {..<msix_entries h})"

lemma core_okD:
  assumes "core_ok c h"
  shows "\<not> (msi_present c \<and> overlap c addr len (msi_pos c) (msi_size c)) \<Longrightarrow>
      msi_on c (default_write c b addr val len) = msi_on c b"
    and "msi_present c \<and> overlap c addr len (msi_pos c) (msi_size c) \<Longrightarrow>
      msix_on c (default_write c b addr val len) = msix_on c b"
    and "\<not> (msix_present c \<and> overlap c addr len (msix_pos c) MSIX_CAP_LENGTH) \<Longrightarrow>
      msix_on c (default_write c b addr val len) = msix_on c b"
    and "set (map snd (notified c b addr val len)) \<subseteq> {..<msix_entries h}"
  using assms unfolding core_ok_def by blast+

text \<open>Not both capabilities enabled.\<close>

definition exclusive :: "pci_core \<Rightarrow> u8 list \<Rightarrow> bool" where
  "exclusive c b \<longleftrightarrow> \<not> (msi_on c b \<and> msix_on c b)"

text \<open>The bytes after an operation, and the guests that keep to the rule.\<close>

fun bytes_after :: "pci_core \<Rightarrow> guest_op \<Rightarrow> u8 list \<Rightarrow> u8 list" where
  "bytes_after c (Config_Write addr val len) b = default_write c b addr val len"
| "bytes_after c (Vector_Unmask nr) b = b"
| "bytes_after c (Vector_Mask nr) b = b"

fun legal_ops :: "pci_core \<Rightarrow> vfio_host \<Rightarrow> u8 list \<Rightarrow> guest_op list \<Rightarrow> bool" where
  "legal_ops c h b [] = exclusive c b"
| "legal_ops c h b (x # xs) =
     (exclusive c b \<and> (case x of Config_Write addr val len \<Rightarrow> True | Vector_Unmask nr \<Rightarrow> nr < msix_entries h
        | Vector_Mask nr \<Rightarrow> nr < msix_entries h) \<and> legal_ops c h (bytes_after c x b) xs)"

text \<open>The interrupt mode that belongs to the enable bits; MSI may have failed to be enabled.\<close>

definition mode_matches :: "pci_core \<Rightarrow> vfio_host \<Rightarrow> guest_dev \<Rightarrow> bool" where
  "mode_matches c h d \<longleftrightarrow>
     (if msix_on c (cfg_bytes d) then in_msix h (irq d) \<and> noting (irq d)
      else if msi_on c (cfg_bytes d) then (in_msi (irq d) \<or> idle (irq d)) \<and> \<not> noting (irq d)
      else (in_intx (irq d) \<or> idle (irq d)) \<and> \<not> noting (irq d))"

lemma notify_msix:
  assumes "host_ok h" and "in_msix h s" and "snd v < msix_entries h"
  shows "\<exists>t. notify_vector h v s = Inr t \<and> in_msix h t"
  using use_loop [OF assms(1,2), of "[snd v]"] release_loop [OF assms(2), of "[snd v]"] assms(3)
  by (auto simp: notify_vector_def bindR_eq_Inr)

lemma noting_notify: "notify_vector h v s = Inr t \<Longrightarrow> noting t = noting s"
  by (auto simp: notify_vector_def dest: noting_use noting_release split: if_splits)

lemma notify_loop:
  assumes "host_ok h" and "in_msix h s" and "set (map snd vs) \<subseteq> {..<msix_entries h}"
  obtains t where "foldR (notify_vector h) vs s = Inr t" and "in_msix h t" and "noting t = noting s"
proof -
  have "\<exists>t. foldR (notify_vector h) vs s = Inr t \<and> in_msix h t"
    using assms by (intro foldR_total [where P = "in_msix h"] notify_msix) auto
  then obtain t where t: "foldR (notify_vector h) vs s = Inr t" "in_msix h t" by blast
  have "noting t = noting s" using t(1) noting_notify by (rule noting_foldR)
  with t that show thesis by blast
qed

text \<open>The part of the PCI core leaves the mode as it is.\<close>

lemma default_write_keeps:
  assumes h: "host_ok h" and c: "core_ok c h" and m: "mode_matches c h d"
  obtains t where "pci_default_write c h addr val len d
      = Inr (d\<lparr>cfg_bytes := default_write c (cfg_bytes d) addr val len, irq := t\<rparr>)"
    and "mode_matches c h (d\<lparr>irq := t\<rparr>)"
proof (cases "noting (irq d)")
  case False
  with m that [of "irq d"] show thesis by (simp add: pci_default_write_def with_irq_def)
next
  case True
  with m have x: "msix_on c (cfg_bytes d)" "in_msix h (irq d)" by (auto simp: mode_matches_def split: if_splits)
  from notify_loop [OF h x(2) core_okD(4) [OF c, of "cfg_bytes d" addr val len]] obtain t where
    "foldR (notify_vector h) (notified c (cfg_bytes d) addr val len) (irq d) = Inr t" "in_msix h t"
    "noting t = noting (irq d)" by (auto simp: core_ok_def)
  with True x that [of t] show thesis by (simp add: pci_default_write_def with_irq_def mode_matches_def)
qed

section \<open>Every operation keeps the mode\<close>

lemma vfio_update_msi_total:
  assumes "length (msi_vectors s) = nr_vectors s"
  obtains t where "vfio_update_msi s = Inr t" and "view t = view s"
proof -
  have "\<exists>t. foldR update_vector [0..<nr_vectors s] s = Inr t \<and> view t = view s"
  proof (rule foldR_total [where P = "\<lambda>u. view u = view s", OF refl])
    fix x u assume "x \<in> set [0..<nr_vectors s]" and u: "view u = view s"
    then have "x < length (msi_vectors u)" using assms by (simp add: view_def core_def)
    then show "\<exists>t. update_vector x u = Inr t \<and> view t = view s"
      using u by (auto simp: update_vector_def vfio_update_kvm_msi_virq_def Let_def)
  qed
  then show thesis using that by (auto simp: vfio_update_msi_def)
qed

lemma in_msi_view: "view t = view s \<Longrightarrow> in_msi t = in_msi s"
  by (simp add: view_def core_def in_msi_def vectors_owned_def)

lemma modes_accounted: "mode_matches c h d \<Longrightarrow> accounted h (irq d)"
  by (auto simp: mode_matches_def accounted_intro split: if_splits)

lemma idle_not_msix [simp]: "idle s \<Longrightarrow> interrupt s \<noteq> INT_MSIX" "in_intx s \<Longrightarrow> interrupt s \<noteq> INT_MSIX"
  "in_msi s \<Longrightarrow> interrupt s \<noteq> INT_MSIX"
  by (simp_all add: idle_def in_intx_def in_msi_def)

lemma msi_write_keeps:
  assumes h: "host_ok h" and c: "core_ok c h" and m: "mode_matches c h d"
    and at: "msi_present c" "overlap c addr len (msi_pos c) (msi_size c)"
    and ex: "exclusive c (cfg_bytes d)" "exclusive c (default_write c (cfg_bytes d) addr val len)"
  obtains t where "write_msi c h addr val len d
      = Inr (d\<lparr>cfg_bytes := default_write c (cfg_bytes d) addr val len, irq := t\<rparr>)"
    and "mode_matches c h (d\<lparr>cfg_bytes := default_write c (cfg_bytes d) addr val len, irq := t\<rparr>)"
proof -
  let ?b = "cfg_bytes d" and ?c = "default_write c (cfg_bytes d) addr val len"
  from default_write_keeps [OF h c m] obtain s where
    s: "pci_default_write c h addr val len d = Inr (d\<lparr>cfg_bytes := ?c, irq := s\<rparr>)"
    and ms: "mode_matches c h (d\<lparr>irq := s\<rparr>)" by blast
  have x: "msix_on c ?c = msix_on c ?b" using core_okD(2) [OF c] at by blast
  have acc: "accounted h s" using modes_accounted [OF ms] by simp
  show thesis
  proof (cases "msi_on c ?b")
    case False
    show thesis
    proof (cases "msi_on c ?c")
      case True
      with ex x have nx: "\<not> msix_on c ?b" by (simp add: exclusive_def)
      with ms False have i: "in_intx s \<or> idle s" "\<not> noting s" by (auto simp: mode_matches_def)
      from msi_enable_result [OF h acc] obtain t where
        t: "vfio_msi_enable h s = Inr t" "idle t \<or> in_msi t \<and> msi_routed t" .
      with noting_op_msi_enable [OF t(1)] i True False nx x s show thesis
        by (intro that [of t]) (auto simp: write_msi_def with_irq_def mode_matches_def)
    next
      case False
      with \<open>\<not> msi_on c ?b\<close> ms x s show thesis
        by (intro that [of s]) (auto simp: write_msi_def mode_matches_def)
    qed
  next
    case on: True
    with ex have nx: "\<not> msix_on c ?b" by (simp add: exclusive_def)
    with ms on have i: "in_msi s \<or> idle s" "\<not> noting s" by (auto simp: mode_matches_def)
    show thesis
    proof (cases "msi_on c ?c")
      case True
      have "length (msi_vectors s) = nr_vectors s" using i(1) by (auto simp: in_msi_def idle_def)
      from vfio_update_msi_total [OF this] obtain t where t: "vfio_update_msi s = Inr t" "view t = view s" .
      have "in_msi t \<or> idle t" using i(1) in_msi_view [OF t(2)] idle_view [OF t(2)] by simp
      with t noting_op_update [OF t(1)] i True on nx x s show thesis
        by (intro that [of t]) (auto simp: write_msi_def with_irq_def mode_matches_def)
    next
      case False
      from msi_disable_leaves [OF i(1), of h] obtain t where
        t: "vfio_msi_disable h s = Inr t" "idle t \<or> in_intx t"
        unfolding vfio_msi_disable_def using vfio_disable_when_idle by metis
      with noting_op_msi_disable [OF t(1)] i False on nx x s show thesis
        by (intro that [of t]) (auto simp: write_msi_def with_irq_def mode_matches_def)
    qed
  qed
qed

lemma msix_write_keeps:
  assumes h: "host_ok h" and c: "core_ok c h" and m: "mode_matches c h d"
    and at: "\<not> (msi_present c \<and> overlap c addr len (msi_pos c) (msi_size c))"
    and ex: "exclusive c (cfg_bytes d)" "exclusive c (default_write c (cfg_bytes d) addr val len)"
  obtains t where "write_msix c h addr val len d
      = Inr (d\<lparr>cfg_bytes := default_write c (cfg_bytes d) addr val len, irq := t\<rparr>)"
    and "mode_matches c h (d\<lparr>cfg_bytes := default_write c (cfg_bytes d) addr val len, irq := t\<rparr>)"
proof -
  let ?b = "cfg_bytes d" and ?c = "default_write c (cfg_bytes d) addr val len"
  from default_write_keeps [OF h c m] obtain s where
    s: "pci_default_write c h addr val len d = Inr (d\<lparr>cfg_bytes := ?c, irq := s\<rparr>)"
    and ms: "mode_matches c h (d\<lparr>irq := s\<rparr>)" by blast
  have y: "msi_on c ?c = msi_on c ?b" using core_okD(1) [OF c at] .
  have acc: "accounted h s" using modes_accounted [OF ms] by simp
  show thesis
  proof (cases "msix_on c ?b")
    case False
    show thesis
    proof (cases "msix_on c ?c")
      case True
      from msix_enable_in_msix [OF h acc] obtain t where t: "vfio_msix_enable h s = Inr t" "in_msix h t" .
      with noting_op_msix_enable [OF t(1)] True False s show thesis
        by (intro that [of t]) (auto simp: write_msix_def with_irq_def mode_matches_def)
    next
      case False
      with \<open>\<not> msix_on c ?b\<close> ms y s show thesis
        by (intro that [of s]) (auto simp: write_msix_def mode_matches_def)
    qed
  next
    case on: True
    with ex y have ny: "\<not> msi_on c ?c" by (simp add: exclusive_def)
    from ms on have i: "in_msix h s" "noting s" by (auto simp: mode_matches_def)
    show thesis
    proof (cases "msix_on c ?c")
      case True
      with on i s show thesis
        by (intro that [of s]) (auto simp: write_msix_def mode_matches_def)
    next
      case False
      from msix_disable_leaves [OF h i(1)] obtain t where
        t: "vfio_msix_disable h s = Inr t" "idle t \<or> in_intx t"
        unfolding vfio_msix_disable_def using vfio_disable_when_idle by metis
      with noting_op_msix_disable [OF t(1)] False on ny s show thesis
        by (intro that [of t]) (auto simp: write_msix_def with_irq_def mode_matches_def)
    qed
  qed
qed

lemma update_bars_same:
  "cfg_bytes (foldl (update_bar c old) d bars) = cfg_bytes d \<and> irq (foldl (update_bar c old) d bars) = irq d"
  by (induction bars arbitrary: d) (auto simp: update_bar_def Let_def)

lemma mode_matches_cong:
  "cfg_bytes d = cfg_bytes e \<Longrightarrow> irq d = irq e \<Longrightarrow> mode_matches c h d = mode_matches c h e"
  by (simp add: mode_matches_def)

lemma config_write_keeps:
  assumes h: "host_ok h" and c: "core_ok c h" and m: "mode_matches c h d"
    and ex: "exclusive c (cfg_bytes d)" "exclusive c (default_write c (cfg_bytes d) addr val len)"
  obtains t where "vfio_pci_write_config c h addr val len d = Inr t" and "mode_matches c h t"
    and "cfg_bytes t = default_write c (cfg_bytes d) addr val len"
proof -
  let ?d = "d\<lparr>dev_writes := dev_writes d @ [(addr, val, len)]\<rparr>"
  have m': "mode_matches c h ?d" using m mode_matches_cong [of ?d d] by simp
  have ex': "exclusive c (cfg_bytes ?d)" "exclusive c (default_write c (cfg_bytes ?d) addr val len)"
    using ex by simp_all
  consider (msi) "msi_present c \<and> overlap c addr len (msi_pos c) (msi_size c)"
    | (msix) "\<not> (msi_present c \<and> overlap c addr len (msi_pos c) (msi_size c))"
        "msix_present c \<and> overlap c addr len (msix_pos c) MSIX_CAP_LENGTH"
    | (other) "\<not> (msi_present c \<and> overlap c addr len (msi_pos c) (msi_size c))"
        "\<not> (msix_present c \<and> overlap c addr len (msix_pos c) MSIX_CAP_LENGTH)" by blast
  then show thesis
  proof cases
    case msi
    from msi_write_keeps [OF h c m' conjunct1 [OF msi] conjunct2 [OF msi] ex'] obtain t where
      t: "write_msi c h addr val len ?d = Inr (?d\<lparr>cfg_bytes := default_write c (cfg_bytes d) addr val len, irq := t\<rparr>)"
      "mode_matches c h (?d\<lparr>cfg_bytes := default_write c (cfg_bytes d) addr val len, irq := t\<rparr>)" by auto
    with msi show thesis by (intro that) (auto simp: vfio_pci_write_config_def Let_def)
  next
    case msix
    from msix_write_keeps [OF h c m' msix(1) ex'] obtain t where
      t: "write_msix c h addr val len ?d = Inr (?d\<lparr>cfg_bytes := default_write c (cfg_bytes d) addr val len, irq := t\<rparr>)"
      "mode_matches c h (?d\<lparr>cfg_bytes := default_write c (cfg_bytes d) addr val len, irq := t\<rparr>)" by auto
    with msix show thesis by (intro that) (auto simp: vfio_pci_write_config_def Let_def)
  next
    case other
    from default_write_keeps [OF h c m', of addr val len] obtain t where
      t: "pci_default_write c h addr val len ?d = Inr (?d\<lparr>cfg_bytes := default_write c (cfg_bytes d) addr val len, irq := t\<rparr>)"
      and mt: "mode_matches c h (?d\<lparr>irq := t\<rparr>)" by auto
    let ?t = "?d\<lparr>cfg_bytes := default_write c (cfg_bytes d) addr val len, irq := t\<rparr>"
    have same: "msi_on c (cfg_bytes ?t) = msi_on c (cfg_bytes d)" "msix_on c (cfg_bytes ?t) = msix_on c (cfg_bytes d)"
      using core_okD(1,3) [OF c] other by simp_all
    then have mt': "mode_matches c h ?t" using mt by (simp add: mode_matches_def cong: if_cong)
    let ?u = "foldl (update_bar c (cfg_bytes d)) ?t [0..<6]"
    have u: "cfg_bytes ?u = cfg_bytes ?t" "irq ?u = irq ?t" by (simp_all only: update_bars_same)
    have mu: "mode_matches c h ?u" using mode_matches_cong [OF u] mt' by blast
    have cu: "cfg_bytes ?u = default_write c (cfg_bytes d) addr val len" using u(1) by simp
    define v where "v = (if overlap c addr len 0x10 24 \<or> covers_byte c addr len 4 then ?u else ?t)"
    have "vfio_pci_write_config c h addr val len d = Inr v"
      unfolding vfio_pci_write_config_def Let_def if_not_P [OF other(1)] if_not_P [OF other(2)]
      by (simp add: write_bars_def t v_def)
    moreover have "mode_matches c h v" using mu mt' by (simp add: v_def)
    moreover have "cfg_bytes v = default_write c (cfg_bytes d) addr val len" using cu by (simp add: v_def)
    ultimately show thesis by (rule that)
  qed
qed

lemma mask_keeps:
  assumes "host_ok h" and "mode_matches c h d" and "snd v < msix_entries h"
  obtains t where "mask_vector c h v d = Inr t" and "mode_matches c h t" and "cfg_bytes t = cfg_bytes d"
proof (cases "msix_on c (cfg_bytes d) \<and> noting (irq d)")
  case False
  then have "mask_vector c h v d = Inr d" by (auto simp: mask_vector_def)
  with assms(2) that show thesis by simp
next
  case True
  with assms have i: "in_msix h (irq d)" by (simp add: mode_matches_def)
  from notify_msix [OF assms(1) i assms(3)] obtain s where
    s: "notify_vector h v (irq d) = Inr s" "in_msix h s" by blast
  have "noting s" using noting_notify [OF s(1)] True by simp
  with s(2) True have "mode_matches c h (d\<lparr>irq := s\<rparr>)" by (simp add: mode_matches_def)
  moreover have "mask_vector c h v d = Inr (d\<lparr>irq := s\<rparr>)"
    using True s(1) by (simp add: mask_vector_def with_irq_def)
  ultimately show thesis using that by simp
qed

lemma op_keeps:
  assumes h: "host_ok h" and c: "core_ok c h" and m: "mode_matches c h d"
    and legal: "legal_ops c h (cfg_bytes d) (x # xs)"
  obtains t where "do_op c h x d = Inr t" and "mode_matches c h t"
    and "legal_ops c h (cfg_bytes t) xs"
proof (cases x)
  case (Config_Write addr val len)
  have "exclusive c (default_write c (cfg_bytes d) addr val len)"
    using legal Config_Write by (cases xs) auto
  moreover have "exclusive c (cfg_bytes d)" using legal by simp
  ultimately obtain t where "vfio_pci_write_config c h addr val len d = Inr t" "mode_matches c h t"
    "cfg_bytes t = default_write c (cfg_bytes d) addr val len"
    using config_write_keeps [OF h c m, of addr val len] by metis
  with legal Config_Write show thesis by (intro that) auto
next
  case (Vector_Unmask nr)
  with legal have "snd (True, nr) < msix_entries h" by simp
  from mask_keeps [OF h m this] obtain t where
    "mask_vector c h (True, nr) d = Inr t" "mode_matches c h t" "cfg_bytes t = cfg_bytes d" .
  with legal Vector_Unmask show thesis by (intro that) auto
next
  case (Vector_Mask nr)
  with legal have "snd (False, nr) < msix_entries h" by simp
  from mask_keeps [OF h m this] obtain t where
    "mask_vector c h (False, nr) d = Inr t" "mode_matches c h t" "cfg_bytes t = cfg_bytes d" .
  with legal Vector_Mask show thesis by (intro that) auto
qed

lemma ops_keep:
  assumes h: "host_ok h" and c: "core_ok c h" and m: "mode_matches c h d"
    and legal: "legal_ops c h (cfg_bytes d) xs"
  shows "\<exists>t. foldR (do_op c h) xs d = Inr t \<and> mode_matches c h t"
  using m legal
proof (induction xs arbitrary: d)
  case Nil
  then show ?case by simp
next
  case (Cons x xs)
  from op_keeps [OF h c Cons.prems] obtain t where
    "do_op c h x d = Inr t" "mode_matches c h t" "legal_ops c h (cfg_bytes t) xs" .
  with Cons.IH show ?case by simp
qed

end
