(* ===== verification/Vfio_Write_Props.thy ===== *)
theory Vfio_Write_Props
  imports Vfio_Write Vfio_Irq_Props
begin

text \<open>
  What a guest can do to QEMU through the configuration space of a passthrough device: nothing, as long
  as it never enables MSI and MSI-X together; if it does, disabling MSI takes the vectors away under
  the MSI-X core, and the next notifier runs outside the array of vectors.
\<close>

section \<open>An example core\<close>

text \<open>A core with MSI enabled by byte 0 of the configuration space and MSI-X by byte 1.\<close>

definition demo_core :: pci_core where
  "demo_core = \<lparr>msi_present = True, msi_pos = 0, msi_size = 1, msix_present = True, msix_pos = 1,
     msi_on = (\<lambda>b. b ! 0 = 1), msix_on = (\<lambda>b. b ! 1 = 1),
     default_write = (\<lambda>b addr val len. if addr < length b then b[addr := ucast val] else b),
     notified = (\<lambda>b addr val len. []),
     overlap = (\<lambda>a n p s. a = p), covers_byte = (\<lambda>a n p. a = p), bar_addr = (\<lambda>b n. None),
     bar_size = (\<lambda>n. 0), bar_mapped = (\<lambda>b n. False), bar_regions = [], bar_mmap = (\<lambda>n. False),
     host_page = 4096\<rparr>"

definition demo_guest :: guest_dev where
  "demo_guest = \<lparr>cfg_bytes = [0, 0, 0], irq = demo_start, dev_writes = [], bar_updates = []\<rparr>"

lemma demo_core_ok: "core_ok demo_core demo_host"
  by (auto simp: core_ok_def demo_core_def nth_list_update)

lemma demo_guest_bits: "exclusive demo_core (cfg_bytes demo_guest)" "idle (irq demo_guest)"
  "\<not> noting (irq demo_guest)" "\<not> msi_on demo_core (cfg_bytes demo_guest)" "\<not> msix_on demo_core (cfg_bytes demo_guest)"
  by (simp_all add: exclusive_def demo_core_def demo_guest_def demo_start_def noting_def idle_def)


text \<open>The device of the example after the guest has enabled both capabilities.\<close>

definition demo_both :: guest_dev where
  "demo_both = (case foldR (do_op demo_core demo_host) [Config_Write 0 1 1, Config_Write 1 1 1] demo_guest of
     Inl _ \<Rightarrow> demo_guest | Inr t \<Rightarrow> t)"

section \<open>Guests that keep to the rule\<close>



section \<open>MSI disabled under MSI-X\<close>

text \<open>With nothing enabled, enabling INTx leaves the vectors and the MSI-X triggers alone.\<close>

lemma kvm_keeps:
  "msi_vectors (vfio_intx_enable_kvm h s) = msi_vectors s" "trigger (vfio_intx_enable_kvm h s) = trigger s"
  by (simp_all add: vfio_intx_enable_kvm_def kvm_fail_def kvm_fail_irqfd_def kvm_fail_vfio_def call_defs
      Let_def split_def)

lemma setup_keeps:
  "msi_vectors (snd (intx_setup h pin s)) = msi_vectors s"
  "trigger (snd (intx_setup h pin s)) IRQ_MSIX = trigger s IRQ_MSIX"
  by (simp_all add: intx_setup_def call_defs arm_def kvm_keeps Let_def split_def)

lemma intx_enable_keeps:
  assumes "\<And>u. interrupt u = INT_NONE \<Longrightarrow> dis u = Inr u" and "interrupt s = INT_NONE"
  obtains r t where "intx_enable_with dis h s = Inr (r, t)" and "msi_vectors t = msi_vectors s"
    and "trigger t IRQ_MSIX = trigger s IRQ_MSIX"
proof -
  obtain v s1 where v: "ask h Read_Interrupt_Pin s = (v, s1)" by (meson surj_pair)
  have s1: "interrupt s1 = INT_NONE" "msi_vectors s1 = msi_vectors s" "trigger s1 = trigger s"
    using v assms(2) by (auto simp: ask_def act_def)
  obtain r t where t: "(if nat (v mod 256) = 0 then (0, s1) else intx_setup h (nat (v mod 256)) s1) = (r, t)"
    by (meson surj_pair)
  have "msi_vectors t = msi_vectors s1 \<and> trigger t IRQ_MSIX = trigger s1 IRQ_MSIX"
    using t setup_keeps [of h "nat (v mod 256)" s1] by (auto split: if_splits)
  moreover have "intx_enable_with dis h s = Inr (r, t)"
    using v t assms(1) [OF s1(1)] by (auto simp: intx_enable_with_def split: if_splits)
  ultimately show thesis using s1 that by simp
qed

lemma disable_none: "interrupt u = INT_NONE \<Longrightarrow> vfio_disable_interrupts h u = Inr u"
  by (simp add: vfio_disable_interrupts_def numeral_2_eq_2)

lemma msi_disable_under_msix:
  assumes "in_msix h s"
  obtains t where "vfio_msi_disable h s = Inr t" and "msi_vectors t = []"
    and "trigger t IRQ_MSIX = trigger s IRQ_MSIX"
proof -
  let ?s = "vfio_disable_irqindex IRQ_MSI s"
  have same: "nr_vectors ?s = nr_vectors s" "msi_vectors ?s = msi_vectors s" "held ?s = held s"
    "trigger ?s IRQ_MSIX = trigger s IRQ_MSIX" by (simp_all add: call_defs)
  have n: "nr_vectors ?s \<le> length (msi_vectors ?s)" and
    own: "mset (held ?s) = {#} + vecs_res (msi_vectors ?s)" "no_zero ?s"
    using assms by (simp_all add: same in_msix_def msix_shape_def vectors_owned_def)
  from free_vectors_loop [OF n own] obtain u where
    u: "foldR free_used_vector [0..<nr_vectors ?s] ?s = Inr u" "trigger u = trigger ?s" by auto
  let ?u = "u\<lparr>msi_vectors := [], nr_vectors := 0, interrupt := INT_NONE\<rparr>"
  obtain r t where t: "intx_enable_with (vfio_disable_interrupts h) h ?u = Inr (r, t)"
    "msi_vectors t = msi_vectors ?u" "trigger t IRQ_MSIX = trigger ?u IRQ_MSIX"
    by (rule intx_enable_keeps [of "vfio_disable_interrupts h" ?u]) (auto simp: disable_none)
  have "vfio_msi_disable h s = Inr t"
    using u(1) t(1) by (simp add: vfio_msi_disable_def msi_disable_with_def msi_disable_common_with_def)
  with t(2,3) u(2) same(4) that show thesis by simp
qed

text \<open>C22: when a guest has MSI-X and MSI enabled together and then disables MSI, QEMU frees the MSI-X
  vectors while the kernel still signals their descriptors and the MSI-X core still calls the
  notifiers: unmasking any vector then accesses the freed array.\<close>

theorem msi_off_under_msix_faults:
  assumes "host_ok h" and "in_msix h (irq d)" and "noting (irq d)" and "msi_on c (cfg_bytes d)"
    and "msi_present c" and "overlap c addr len (msi_pos c) (msi_size c)"
    and "notified c (cfg_bytes d) addr val len = []"
    and "\<not> msi_on c (default_write c (cfg_bytes d) addr val len)"
    and "msix_on c (default_write c (cfg_bytes d) addr val len)"
  shows "\<exists>t. vfio_pci_write_config c h addr val len d = Inr t \<and> msi_vectors (irq t) = []
    \<and> trigger (irq t) IRQ_MSIX = trigger (irq d) IRQ_MSIX
    \<and> (\<forall>nr. do_op c h (Vector_Unmask nr) t = Inl Out_Of_Bounds)"
proof -
  from msi_disable_under_msix [OF assms(2)] obtain s where
    s: "vfio_msi_disable h (irq d) = Inr s" "msi_vectors s = []"
      "trigger s IRQ_MSIX = trigger (irq d) IRQ_MSIX" .
  have n: "noting s" using noting_op_msi_disable [OF s(1)] assms(3) by simp
  let ?t = "d\<lparr>dev_writes := dev_writes d @ [(addr, val, len)],
    cfg_bytes := default_write c (cfg_bytes d) addr val len, irq := s\<rparr>"
  have "vfio_pci_write_config c h addr val len d = Inr ?t"
    using assms s(1) by (simp add: vfio_pci_write_config_def write_msi_def pci_default_write_def with_irq_def)
  moreover have "do_op c h (Vector_Unmask nr) ?t = Inl Out_Of_Bounds" for nr
    using assms(9) n s(2) by (simp add: mask_vector_def with_irq_def notify_vector_def
        vfio_msix_vector_use_def vfio_msix_vector_do_use_def)
  ultimately show ?thesis using s by auto
qed

text \<open>In the example both are enabled by two writes, and the kernel's MSI-X trigger of vector 0 keeps
  a descriptor that is closed.\<close>

theorem msi_off_under_msix_faults_witness:
  "\<exists>t. vfio_pci_write_config demo_core demo_host 0 0 1 demo_both = Inr t \<and> msi_vectors (irq t) = []
    \<and> 0 \<le> trigger (irq t) IRQ_MSIX 0 \<and> do_op demo_core demo_host (Vector_Unmask 1) t = Inl Out_Of_Bounds"
proof -
  obtain a where a: "do_op demo_core demo_host (Config_Write 0 1 1) demo_guest = Inr a"
    and b: "do_op demo_core demo_host (Config_Write 1 1 1) a = Inr demo_both"
    and bits: "cfg_bytes demo_both = [1, 1, 0]"
  proof -
    have "case foldR (do_op demo_core demo_host) [Config_Write 0 1 1, Config_Write 1 1 1] demo_guest of
        Inl _ \<Rightarrow> False | Inr t \<Rightarrow> cfg_bytes t = [1, 1, 0]" by code_simp
    then show thesis using that by (auto simp: demo_both_def bindR_eq_Inr split: sum.splits)
  qed
  have t0: "0 \<le> trigger (irq demo_both) IRQ_MSIX 0" by code_simp
  have m: "mode_matches demo_core demo_host demo_guest"
    using demo_guest_bits by (simp add: mode_matches_def)
  have "exclusive demo_core (default_write demo_core (cfg_bytes demo_guest) 0 1 1)" by code_simp
  from config_write_keeps [OF demo_ok demo_core_ok m demo_guest_bits(1) this] a have
    ma: "mode_matches demo_core demo_host a" and bits_a: "cfg_bytes a = [1, 0, 0]"
    by (auto simp: demo_core_def demo_guest_def)
  from modes_accounted [OF ma] have acc: "accounted demo_host (irq a)" .
  have s: "vfio_msix_enable demo_host (irq a) = Inr (irq demo_both)"
    using b by (auto simp: vfio_pci_write_config_def write_msix_def pci_default_write_def with_irq_def
        demo_core_def bits_a bindR_eq_Inr Let_def
        cong: if_cong split: if_splits dest!: arg_cong [where f = irq])
  from msix_enable_in_msix [OF demo_ok acc] s have i: "in_msix demo_host (irq demo_both)" by auto
  from noting_op_msix_enable [OF s] have n: "noting (irq demo_both)" .
  have "msi_on demo_core (cfg_bytes demo_both)" "msi_present demo_core"
    "overlap demo_core 0 1 (msi_pos demo_core) (msi_size demo_core)"
    "notified demo_core (cfg_bytes demo_both) 0 0 1 = []"
    "\<not> msi_on demo_core (default_write demo_core (cfg_bytes demo_both) 0 0 1)"
    "msix_on demo_core (default_write demo_core (cfg_bytes demo_both) 0 0 1)"
    by (simp_all add: bits demo_core_def)
  from msi_off_under_msix_faults [OF demo_ok i n this] t0 show ?thesis by metis
qed

end
