(* ===== verification/Vfio_Guest.thy ===== *)
theory Vfio_Guest
  imports Vfio_Write_Props Vfio_Reset
begin

text \<open>
  Everything that can happen to the interrupts of a realized device, with no condition on the mode it
  is in: the guest writes the configuration space and the mask bits of the MSI-X table, interrupts and
  end-of-interrupts arrive, the timer of INTx fires, the INTx routing changes, the device is reset. The
  only rule is that the guest does not have MSI and MSI-X enabled together. The steps of
  \<open>Vfio_Reach\<close>, with their conditions on the mode, are shown to be what such a guest brings about.
\<close>

section \<open>The steps of a device\<close>

fun in_table :: "vfio_host \<Rightarrow> guest_op \<Rightarrow> bool" where
  "in_table h (Config_Write addr val len) = True"
| "in_table h (Vector_Unmask nr) = (nr < msix_entries h)"
| "in_table h (Vector_Mask nr) = (nr < msix_entries h)"

text \<open>
  A reset is \<open>vfio_pci_pre_reset\<close> and \<open>vfio_pci_post_reset\<close>; the PCI core then has both enable bits
  clear.
\<close>

inductive dev_step :: "pci_core \<Rightarrow> vfio_host \<Rightarrow> guest_dev \<Rightarrow> guest_dev \<Rightarrow> bool" for c h where
  dev_op: "in_table h x \<Longrightarrow> do_op c h x d = Inr t \<Longrightarrow> exclusive c (cfg_bytes t) \<Longrightarrow> dev_step c h d t"
| dev_msi_interrupt: "vfio_msi_interrupt h nr (irq d) = Inr s \<Longrightarrow> dev_step c h d (d\<lparr>irq := s\<rparr>)"
| dev_intx_interrupt: "dev_step c h d (d\<lparr>irq := vfio_intx_interrupt h (irq d)\<rparr>)"
| dev_intx_eoi: "dev_step c h d (d\<lparr>irq := vfio_intx_eoi (irq d)\<rparr>)"
| dev_mmap_timer: "dev_step c h d (d\<lparr>irq := vfio_intx_mmap_enable h (irq d)\<rparr>)"
| dev_intx_update: "dev_step c h d (d\<lparr>irq := vfio_intx_update h (irq d)\<rparr>)"
| dev_reset: "vfio_pci_pre_reset h rd pm (irq d) = Inr (s, tr) \<Longrightarrow> vfio_pci_post_reset h s = Inr (u, tr') \<Longrightarrow>
    \<not> msi_on c b \<Longrightarrow> \<not> msix_on c b \<Longrightarrow> dev_step c h d (d\<lparr>irq := u, cfg_bytes := b\<rparr>)"

text \<open>A device as \<open>vfio_realize\<close> leaves it: neither capability enabled, INTx tried or left out.\<close>

definition dev_initial :: "pci_core \<Rightarrow> vfio_host \<Rightarrow> guest_dev \<Rightarrow> bool" where
  "dev_initial c h d \<longleftrightarrow> \<not> msi_on c (cfg_bytes d) \<and> \<not> msix_on c (cfg_bytes d) \<and>
     (\<exists>s. irq_initial s \<and> \<not> noting s \<and> (irq d = s \<or> (\<exists>r. vfio_intx_enable h s = Inr (r, irq d))))"

definition dev_reachable :: "pci_core \<Rightarrow> vfio_host \<Rightarrow> guest_dev \<Rightarrow> bool" where
  "dev_reachable c h d \<longleftrightarrow> (\<exists>d0. dev_initial c h d0 \<and> (dev_step c h)\<^sup>*\<^sup>* d0 d)"

inductive_cases dev_stepE: "dev_step c h d t"

lemmas dev_step_cases = dev_stepE [consumes 1, case_names
  dev_op dev_msi_interrupt dev_intx_interrupt dev_intx_eoi dev_mmap_timer dev_intx_update dev_reset]

section \<open>What a guest that keeps to the rule brings about\<close>

lemma in_msix_mode: "in_msix h s \<Longrightarrow> interrupt s = INT_MSIX"
  by (simp add: in_msix_def msix_shape_def)

lemma notify_path:
  assumes h: "host_ok h" and s: "in_msix h s" and "set (map snd vs) \<subseteq> {..<msix_entries h}"
    and run: "foldR (notify_vector h) vs s = Inr t"
  shows "(irq_step h)\<^sup>*\<^sup>* s t \<and> in_msix h t"
  using assms(3) s run
proof (induction vs arbitrary: s)
  case Nil
  then show ?case by simp
next
  case (Cons v vs)
  from Cons.prems(1) have v: "snd v < msix_entries h" by simp
  from notify_msix [OF h Cons.prems(2) v] Cons.prems(3) obtain u where
    u: "notify_vector h v s = Inr u" "in_msix h u" "foldR (notify_vector h) vs u = Inr t" by auto
  have "irq_step h s u"
    using u(1) in_msix_mode [OF Cons.prems(2)]
    by (auto simp: notify_vector_def intro: step_use step_release split: if_splits)
  with Cons.IH [OF _ u(2,3)] Cons.prems(1) show ?case
    by (auto intro: converse_rtranclp_into_rtranclp)
qed

lemma default_write_path:
  assumes h: "host_ok h" and c: "core_ok c h" and m: "mode_matches c h d"
    and run: "pci_default_write c h addr val len d = Inr t"
  shows "(irq_step h)\<^sup>*\<^sup>* (irq d) (irq t)" and "mode_matches c h (d\<lparr>irq := irq t\<rparr>)"
    and "cfg_bytes t = default_write c (cfg_bytes d) addr val len"
proof -
  obtain s where s: "pci_default_write c h addr val len d =
      Inr (d\<lparr>cfg_bytes := default_write c (cfg_bytes d) addr val len, irq := s\<rparr>)" "mode_matches c h (d\<lparr>irq := s\<rparr>)"
    using default_write_keeps [OF h c m] .
  then have t: "irq t = s" "cfg_bytes t = default_write c (cfg_bytes d) addr val len" using run by auto
  with s(2) show "mode_matches c h (d\<lparr>irq := irq t\<rparr>)"
    and "cfg_bytes t = default_write c (cfg_bytes d) addr val len" by simp_all
  show "(irq_step h)\<^sup>*\<^sup>* (irq d) (irq t)"
  proof (cases "noting (irq d)")
    case False
    with run show ?thesis by (auto simp: pci_default_write_def with_irq_def)
  next
    case True
    with m have "in_msix h (irq d)" by (auto simp: mode_matches_def split: if_splits)
    moreover have "foldR (notify_vector h) (notified c (cfg_bytes d) addr val len) (irq d) = Inr (irq t)"
      using run True by (auto simp: pci_default_write_def with_irq_def bindR_eq_Inr)
    ultimately show ?thesis using notify_path [OF h _ core_okD(4) [OF c]] by blast
  qed
qed

lemma with_irq_step:
  assumes "with_irq f d = Inr t" and "\<And>s. f (irq d) = Inr s \<Longrightarrow> irq_step h (irq d) s"
  shows "irq_step h (irq d) (irq t)"
  using assms by (auto simp: with_irq_def bindR_eq_Inr)

lemma msi_write_path:
  assumes h: "host_ok h" and c: "core_ok c h" and m: "mode_matches c h d"
    and at: "msi_present c" "overlap c addr len (msi_pos c) (msi_size c)"
    and ex: "exclusive c (cfg_bytes d)" and run: "write_msi c h addr val len d = Inr t"
  shows "(irq_step h)\<^sup>*\<^sup>* (irq d) (irq t)"
proof -
  from run obtain u where u: "pci_default_write c h addr val len d = Inr u"
    by (auto simp: write_msi_def bindR_eq_Inr Let_def)
  note p = default_write_path [OF h c m u]
  have "irq u = irq t \<or> irq_step h (irq u) (irq t)"
  proof (cases "msi_on c (cfg_bytes d)")
    case False
    with run u show ?thesis
      by (auto simp: write_msi_def Let_def split: if_splits dest: with_irq_step intro: step_msi_enable)
  next
    case True
    with ex p(2) have i: "in_msi (irq u) \<or> idle (irq u)" by (auto simp: mode_matches_def exclusive_def)
    then have mode: "interrupt (irq u) = INT_MSI \<or> interrupt (irq u) = INT_NONE \<and> nr_vectors (irq u) = 0"
      by (auto simp: in_msi_def idle_def)
    show ?thesis
    proof (cases "msi_on c (cfg_bytes u)")
      case on: True
      with run u True have w: "with_irq vfio_update_msi u = Inr t"
        by (simp add: write_msi_def Let_def)
      show ?thesis
      proof (cases "interrupt (irq u) = INT_MSI")
        case True
        with w show ?thesis by (auto dest: with_irq_step intro: step_update_msi)
      next
        case False
        with mode w show ?thesis by (auto simp: with_irq_def vfio_update_msi_def bindR_eq_Inr)
      qed
    next
      case False
      with run u True have "with_irq (vfio_msi_disable h) u = Inr t"
        by (simp add: write_msi_def Let_def)
      then have "irq_step h (irq u) (irq t)"
        by (rule with_irq_step) (use mode in \<open>auto intro: step_msi_disable\<close>)
      then show ?thesis by simp
    qed
  qed
  with p(1) show ?thesis by auto
qed

lemma msix_write_path:
  assumes h: "host_ok h" and c: "core_ok c h" and m: "mode_matches c h d"
    and run: "write_msix c h addr val len d = Inr t"
  shows "(irq_step h)\<^sup>*\<^sup>* (irq d) (irq t)"
proof -
  from run obtain u where u: "pci_default_write c h addr val len d = Inr u"
    by (auto simp: write_msix_def bindR_eq_Inr Let_def)
  note p = default_write_path [OF h c m u]
  have "irq u = irq t \<or> irq_step h (irq u) (irq t)"
  proof (cases "msix_on c (cfg_bytes d)")
    case False
    with run u show ?thesis
      by (auto simp: write_msix_def Let_def split: if_splits dest: with_irq_step intro: step_msix_enable)
  next
    case True
    with p(2) have i: "interrupt (irq u) = INT_MSIX" by (auto simp: mode_matches_def in_msix_mode)
    with run u True show ?thesis
      by (auto simp: write_msix_def Let_def split: if_splits dest: with_irq_step intro: step_msix_disable)
  qed
  with p(1) show ?thesis by auto
qed

lemma config_write_path:
  assumes h: "host_ok h" and c: "core_ok c h" and m: "mode_matches c h d"
    and ex: "exclusive c (cfg_bytes d)" and run: "vfio_pci_write_config c h addr val len d = Inr t"
  shows "(irq_step h)\<^sup>*\<^sup>* (irq d) (irq t)"
proof -
  let ?d = "d\<lparr>dev_writes := dev_writes d @ [(addr, val, len)]\<rparr>"
  have m': "mode_matches c h ?d" using m mode_matches_cong [of ?d d] by simp
  have ex': "exclusive c (cfg_bytes ?d)" using ex by simp
  have plain: "(irq_step h)\<^sup>*\<^sup>* (irq d) (irq t)" if "pci_default_write c h addr val len ?d = Inr t" for t
    using default_write_path(1) [OF h c m' that] by simp
  have bars: "(irq_step h)\<^sup>*\<^sup>* (irq d) (irq t)" if "write_bars c h addr val len ?d = Inr t" for t
  proof -
    from that obtain v where v: "pci_default_write c h addr val len ?d = Inr v"
      and t: "t = foldl (update_bar c (cfg_bytes d)) v [0..<6]"
      by (auto simp: write_bars_def bindR_eq_Inr)
    have "irq t = irq v" unfolding t by (simp only: update_bars_same)
    with plain [OF v] show ?thesis by simp
  qed
  show ?thesis
  proof (cases "msi_present c \<and> overlap c addr len (msi_pos c) (msi_size c)")
    case True
    then have "write_msi c h addr val len ?d = Inr t"
      using run by (simp add: vfio_pci_write_config_def Let_def)
    from msi_write_path [OF h c m' _ _ ex' this] True show ?thesis by simp
  next
    case no_msi: False
    show ?thesis
    proof (cases "msix_present c \<and> overlap c addr len (msix_pos c) MSIX_CAP_LENGTH")
      case True
      with no_msi have "write_msix c h addr val len ?d = Inr t"
        using run by (simp add: vfio_pci_write_config_def Let_def if_not_P [OF no_msi])
      from msix_write_path [OF h c m' this] show ?thesis by simp
    next
      case False
      from run have "(if overlap c addr len 0x10 24 \<or> covers_byte c addr len 4
          then write_bars c h addr val len ?d else pci_default_write c h addr val len ?d) = Inr t"
        unfolding vfio_pci_write_config_def Let_def if_not_P [OF no_msi] if_not_P [OF False] .
      then show ?thesis using plain bars by (simp split: if_splits)
    qed
  qed
qed

lemma config_write_bytes:
  "vfio_pci_write_config c h addr val len d = Inr t \<Longrightarrow>
     cfg_bytes t = default_write c (cfg_bytes d) addr val len"
  by (auto simp: vfio_pci_write_config_def write_msi_def write_msix_def write_bars_def with_irq_def
      pci_default_write_def bindR_eq_Inr update_bars_same Let_def split: if_splits)

section \<open>The invariant of every step\<close>

definition guest_ok :: "pci_core \<Rightarrow> vfio_host \<Rightarrow> guest_dev \<Rightarrow> bool" where
  "guest_ok c h d \<longleftrightarrow> mode_matches c h d \<and> exclusive c (cfg_bytes d)"

lemma op_path:
  assumes h: "host_ok h" and c: "core_ok c h" and g: "guest_ok c h d"
    and x: "in_table h x" and run: "do_op c h x d = Inr t" and ex: "exclusive c (cfg_bytes t)"
  shows "guest_ok c h t \<and> (irq_step h)\<^sup>*\<^sup>* (irq d) (irq t)"
proof -
  have m: "mode_matches c h d" and e: "exclusive c (cfg_bytes d)" using g by (simp_all add: guest_ok_def)
  have mask: "mode_matches c h t \<and> (irq_step h)\<^sup>*\<^sup>* (irq d) (irq t)"
    if v: "snd v < msix_entries h" and w: "mask_vector c h v d = Inr t" for v
  proof -
    have "mode_matches c h t" using mask_keeps [OF h m v] w by auto
    moreover have "(irq_step h)\<^sup>*\<^sup>* (irq d) (irq t)"
    proof (cases "msix_on c (cfg_bytes d) \<and> noting (irq d)")
      case False
      with w show ?thesis by (auto simp: mask_vector_def)
    next
      case True
      with m have i: "in_msix h (irq d)" by (simp add: mode_matches_def)
      from w True have "foldR (notify_vector h) [v] (irq d) = Inr (irq t)"
        by (auto simp: mask_vector_def with_irq_def bindR_eq_Inr)
      with notify_path [OF h i, of "[v]" "irq t"] v show ?thesis by simp
    qed
    ultimately show ?thesis ..
  qed
  show ?thesis
  proof (cases x)
    case (Config_Write addr val len)
    with run have w: "vfio_pci_write_config c h addr val len d = Inr t" by simp
    note path = config_write_path [OF h c m e w]
    have "exclusive c (default_write c (cfg_bytes d) addr val len)"
      using ex config_write_bytes [OF w] by simp
    from config_write_keeps [OF h c m e this] w have "mode_matches c h t" by auto
    with path ex show ?thesis by (simp add: guest_ok_def)
  next
    case (Vector_Unmask nr)
    with mask [of "(True, nr)"] x run ex show ?thesis by (simp add: guest_ok_def)
  next
    case (Vector_Mask nr)
    with mask [of "(False, nr)"] x run ex show ?thesis by (simp add: guest_ok_def)
  qed
qed

lemma mode_matches_view:
  assumes "view s = view (irq d)" and "noting s = noting (irq d)"
  shows "mode_matches c h (d\<lparr>irq := s\<rparr>) = mode_matches c h d"
proof -
  have "in_intx s = in_intx (irq d)"
    using assms(1) by (simp add: view_def core_def in_intx_def intx_res_def)
  moreover have "in_msix h s = in_msix h (irq d)"
    using msix_shape_view [OF assms(1)] assms(1) by (simp add: in_msix_def view_def core_def)
  ultimately show ?thesis
    using idle_view [OF assms(1)] in_msi_view [OF assms(1)] assms(2) by (simp add: mode_matches_def)
qed

lemma noting_small:
  "noting (vfio_intx_interrupt h s) = noting s" "noting (vfio_intx_eoi s) = noting s"
  "noting (vfio_intx_mmap_enable h s) = noting s" "noting (vfio_intx_update h s) = noting s"
  by (simp_all add: vfio_intx_interrupt_def vfio_intx_eoi_def vfio_intx_mmap_enable_def vfio_intx_update_def
      noting_simps Let_def split_def)

lemma noting_msi_interrupt: "vfio_msi_interrupt h nr s = Inr t \<Longrightarrow> noting t = noting s"
  by (auto simp: vfio_msi_interrupt_def noting_simps split_def Let_def split: if_splits)

lemma guest_ok_view:
  assumes "guest_ok c h d" and "view s = view (irq d)" and "noting s = noting (irq d)"
  shows "guest_ok c h (d\<lparr>irq := s\<rparr>)"
  using assms mode_matches_view [OF assms(2,3)] by (simp add: guest_ok_def)

lemma intx_enable_from_idle:
  assumes "idle s" and "vfio_intx_enable h s = Inr (r, t)"
  shows "in_intx t \<or> idle t" and "noting t = noting s"
proof -
  obtain q u where u: "\<And>dis. (\<And>u. idle u \<Longrightarrow> dis u = Inr u) \<Longrightarrow> intx_enable_with dis h s = Inr (q, u)"
    "idle u \<or> in_intx u" using intx_enable_idle [OF assms(1)] by blast
  have "vfio_intx_enable h s = Inr (q, u)"
    unfolding vfio_intx_enable_def by (rule u(1)) (rule vfio_disable_when_idle)
  with assms(2) u(2) show "in_intx t \<or> idle t" by auto
  have "noting t = noting s"
    by (rule noting_intx_enable [OF assms(2) [unfolded vfio_intx_enable_def]])
      (use assms(1) in \<open>auto dest: noting_disable\<close>)
  then show "noting t = noting s" .
qed

lemma intx_update_other: "interrupt s \<noteq> INT_INTx \<Longrightarrow> vfio_intx_update h s = s"
  by (simp add: vfio_intx_update_def)

lemma reset_path:
  assumes h: "host_ok h" and g: "guest_ok c h d" and pre: "vfio_pci_pre_reset h rd pm (irq d) = Inr (s, tr)"
    and post: "vfio_pci_post_reset h s = Inr (u, tr')" and off: "\<not> msi_on c b" "\<not> msix_on c b"
  shows "guest_ok c h (d\<lparr>irq := u, cfg_bytes := b\<rparr>) \<and> (irq_step h)\<^sup>*\<^sup>* (irq d) u"
proof -
  have acc: "accounted h (irq d)" using g by (auto simp: guest_ok_def intro: modes_accounted)
  have s: "vfio_disable_interrupts h (irq d) = Inr s"
    using pre by (auto simp: vfio_pci_pre_reset_def bindR_eq_Inr)
  have idle: "idle s" using vfio_disable_idle [OF h acc] s by auto
  have quiet: "\<not> noting s"
    using noting_disable [OF s] g by (auto simp: guest_ok_def mode_matches_def in_msix_mode split: if_splits)
  obtain r where u: "vfio_intx_enable h s = Inr (r, u)"
    using post by (auto simp: vfio_pci_post_reset_def bindR_eq_Inr)
  have "in_intx u \<or> idle u" and "\<not> noting u"
    using intx_enable_from_idle [OF idle u] quiet by auto
  then have "guest_ok c h (d\<lparr>irq := u, cfg_bytes := b\<rparr>)"
    using off by (simp add: guest_ok_def mode_matches_def exclusive_def)
  moreover have "irq_step h (irq d) s" "irq_step h s u"
    using s u by (auto intro: step_disable step_intx_enable)
  ultimately show ?thesis by auto
qed

lemma dev_step_keeps:
  assumes h: "host_ok h" and c: "core_ok c h" and step: "dev_step c h d t" and g: "guest_ok c h d"
  shows "guest_ok c h t \<and> (irq_step h)\<^sup>*\<^sup>* (irq d) (irq t)"
  using step
proof (cases rule: dev_step_cases)
  case (dev_op x)
  with op_path [OF h c g] show ?thesis by blast
next
  case (dev_msi_interrupt nr s)
  with guest_ok_view [OF g view_msi_interrupt noting_msi_interrupt] show ?thesis
    by (auto intro: step_msi_interrupt)
next
  case dev_intx_interrupt
  with guest_ok_view [OF g view_small_steps(1) noting_small(1)] show ?thesis
    by (auto intro: step_intx_interrupt)
next
  case dev_intx_eoi
  with guest_ok_view [OF g view_small_steps(2) noting_small(2)] show ?thesis
    by (auto intro: step_intx_eoi)
next
  case dev_mmap_timer
  with guest_ok_view [OF g view_small_steps(3) noting_small(3)] show ?thesis
    by (auto intro: step_mmap_timer)
next
  case dev_intx_update
  have "mode_matches c h (d\<lparr>irq := vfio_intx_update h (irq d)\<rparr>)"
    using g noting_small(4) [of h "irq d"] intx_update_keeps [of "irq d" h] intx_update_other [of "irq d" h]
    by (cases "interrupt (irq d) = INT_INTx")
      (auto simp: guest_ok_def mode_matches_def in_msix_mode in_msi_def idle_def in_intx_def split: if_splits)
  with dev_intx_update g show ?thesis by (auto simp: guest_ok_def intro: step_intx_update)
next
  case (dev_reset rd pm s tr u tr' b)
  with reset_path [OF h g] show ?thesis by simp
qed

lemma initial_guest_ok:
  assumes "dev_initial c h d"
  shows "guest_ok c h d" and "irq_reachable h (irq d)"
proof -
  from assms obtain s where off: "\<not> msi_on c (cfg_bytes d)" "\<not> msix_on c (cfg_bytes d)"
    and s: "irq_initial s" "\<not> noting s" "irq d = s \<or> (\<exists>r. vfio_intx_enable h s = Inr (r, irq d))"
    by (auto simp: dev_initial_def)
  have idle: "idle s" using s(1) by (simp add: initial_idle)
  have "(in_intx (irq d) \<or> idle (irq d)) \<and> \<not> noting (irq d)"
    using s(2,3) idle intx_enable_from_idle [OF idle] by metis
  with off show "guest_ok c h d" by (simp add: guest_ok_def mode_matches_def exclusive_def)
  show "irq_reachable h (irq d)"
    using s by (auto intro: irq_start irq_next [OF irq_start step_intx_enable])
qed

lemma steps_guest_ok:
  assumes "(dev_step c h)\<^sup>*\<^sup>* d t" and "host_ok h" and "core_ok c h" and "guest_ok c h d"
  shows "guest_ok c h t \<and> (irq_step h)\<^sup>*\<^sup>* (irq d) (irq t)"
  using assms(1)
proof induction
  case base
  with assms(4) show ?case by simp
next
  case (step u t)
  with dev_step_keeps [OF assms(2,3)] show ?case by (meson rtranclp_trans)
qed


text \<open>
  So every mode the interrupt code can be in under such a guest is one that the steps of \<open>Vfio_Reach\<close>
  reach.
\<close>

lemma dev_reachable_irq:
  assumes "dev_reachable c h d" and "host_ok h" and "core_ok c h"
  shows "irq_reachable h (irq d)"
proof -
  from assms(1) obtain d0 where d0: "dev_initial c h d0" "(dev_step c h)\<^sup>*\<^sup>* d0 d"
    by (auto simp: dev_reachable_def)
  have "(irq_step h)\<^sup>*\<^sup>* (irq d0) (irq d)"
    using steps_guest_ok [OF d0(2) assms(2,3) initial_guest_ok(1) [OF d0(1)]] by simp
  then show ?thesis using initial_guest_ok(2) [OF d0(1)] by induction (auto intro: irq_next)
qed



section \<open>The example\<close>









section \<open>Properties\<close>





end
