(* ===== verification/Vfio_Life.thy ===== *)
theory Vfio_Life
  imports Vfio_Config Vfio_Region Vfio_Rom Vfio_Reset C_Lib
begin

text \<open>
  The life of a passthrough device: \<open>vfio_realize\<close>, \<open>vfio_exitfn\<close> and \<open>vfio_instance_finalize\<close> of
  \<open>hw/vfio/pci.c\<close>, with the error and request notifiers. What the kernel, the C library, the PCI core
  and QEMU's common VFIO code answer is \<open>realize_env\<close>. The field \<open>kept\<close> lists what the device has
  obtained and not yet given back; the copy of the graphics OpRegion is in it too, although
  \<open>vfio_instance_finalize\<close> leaves it behind on purpose.
\<close>

section \<open>The device\<close>

datatype life_res = Name | Group | Base_Device | Region nat | Vga | Vga_Registered | Emulated_Bits
  | Msix_Info | Opregion | Mmap_Timer | Routing_Notifier | Err_Fd | Req_Fd

record vdev =
  sysfsdev :: "string option"
  host_id :: "u32 \<times> u32 \<times> u32 \<times> u32"
  dev_name :: string
  has_group :: bool
  space :: pci_cfg
  irqs :: vfio_irq
  regions :: "vfio_region list"
  registered :: "(nat \<times> bool \<times> bool \<times> u8) list"
  msix_cache :: "msix_info option"
  rom_state :: rom_setup
  vendor :: u32
  device :: u32
  sub_vendor :: u32
  sub_device :: u32
  with_vga :: bool
  express :: bool
  dev_space :: nat
  igd_opregion :: bool
  pci_aer :: bool
  req_enabled :: bool
  err_armed :: bool
  req_armed :: bool
  main_loop :: "life_res list"
  kept :: "life_res list"

definition keep :: "life_res \<Rightarrow> vdev \<Rightarrow> vdev" where
  "keep r d = d\<lparr>kept := r # kept d\<rparr>"

definition drop_res :: "life_res \<Rightarrow> vdev \<Rightarrow> vdev" where
  "drop_res r d = d\<lparr>kept := remove1 r (kept d)\<rparr>"

text \<open>What the device asks of the rest of QEMU and of the host.\<close>

record realize_env =
  path_exists :: "string \<Rightarrow> bool"
  base_name :: "string \<Rightarrow> string"
  read_link :: "string \<Rightarrow> int \<times> string"
  group_devices :: "int \<Rightarrow> string list option"
  get_device :: int
  is_pci :: bool
  num_regions :: u32
  num_irqs :: u32
  region_setup :: "nat \<Rightarrow> int + vfio_region"
  config_region :: "int + nat"
  vga_region :: "int + bool \<times> bool \<times> u64"
  err_info :: "int \<times> u32"
  req_info :: "int \<times> u32"
  pci_space :: "bool \<Rightarrow> nat"
  config_read :: "int + u8 list"
  multifunction :: bool
  rom_file :: bool
  rom_bar :: bool
  rom_blacklisted :: bool
  rom_opt :: bool
  rom_moved :: "int list"
  rom_probed :: u32
  page_size :: nat
  find_msix :: "u8 list \<Rightarrow> u8"
  msix_words :: "u16 option \<times> u32 option \<times> u32 option"
  bar_word :: "nat \<Rightarrow> u32 option"
  caps :: cfg_env
  hotplugged :: bool
  opregion_info :: int
  opregion_init :: "int \<times> bool"
  quirk_opregion :: bool
  msix_at :: "u8 list \<Rightarrow> nat option"
  msi_at :: "u8 list \<Rightarrow> nat option"
  default_read :: "u8 list \<Rightarrow> nat \<Rightarrow> nat \<Rightarrow> u32"
  pin_read :: "int + u32"
  want_vga :: bool
  want_req :: bool
  want_opregion :: bool
  notifier_ok :: "life_res \<Rightarrow> bool"
  set_irqs_ok :: "life_res \<Rightarrow> bool"

datatype life_error = No_Host_Given | No_Such_Device | No_Iommu_Group | Bad_Group_Path | Group_Failed
  | Already_Attached | Device_Failed | Not_Pci | Few_Regions | Few_Irqs | Region_Failed nat
  | Config_Info_Failed | Vga_Info_Failed | Vga_Unexpected | Config_Unread | Bad_Id nat | Msix_Failed
  | Capability_Failed int | Opregion_Hotplugged | Opregion_Unsupported | Opregion_Failed | Intx_Failed int

datatype life_fault = Cfg_Fault cfg_fault | Irq_Fault vfio_fault

text \<open>A step of \<open>vfio_realize\<close>: the error it sets, or none, and the device.\<close>

type_synonym step = "life_fault + life_error option \<times> vdev"

definition bindL :: "step \<Rightarrow> (vdev \<Rightarrow> step) \<Rightarrow> step" where
  "bindL m f = bindR m (\<lambda>(e, d). case e of Some x \<Rightarrow> Inr (Some x, d) | None \<Rightarrow> f d)"

definition ok :: "vdev \<Rightarrow> step" where "ok d = Inr (None, d)"

definition err :: "life_error \<Rightarrow> vdev \<Rightarrow> step" where "err x d = Inr (Some x, d)"

definition with_space :: "(pci_cfg \<Rightarrow> cfg_fault + pci_cfg) \<Rightarrow> vdev \<Rightarrow> step" where
  "with_space f d = (case f (space d) of Inl x \<Rightarrow> Inl (Cfg_Fault x) | Inr s \<Rightarrow> ok (d\<lparr>space := s\<rparr>))"

section \<open>Finding the device\<close>

text \<open>\<open>/sys/bus/pci/devices/%04x:%02x:%02x.%01x\<close>.\<close>

definition sysfs_path :: "u32 \<times> u32 \<times> u32 \<times> u32 \<Rightarrow> string" where
  "sysfs_path a = (case a of (seg, bus, slot, fn) \<Rightarrow>
     ''/sys/bus/pci/devices/'' @ hex_pad 4 (unat seg) @ '':'' @ hex_pad 2 (unat bus) @ '':''
       @ hex_pad 2 (unat slot) @ ''.'' @ hex_pad 1 (unat fn))"

definition choose_path :: "vdev \<Rightarrow> step" where
  "choose_path d =
     (if sysfsdev d \<noteq> None then ok d
      else if host_id d = (- 1, - 1, - 1, - 1) then err No_Host_Given d
      else ok (d\<lparr>sysfsdev := Some (sysfs_path (host_id d))\<rparr>))"

text \<open>\<open>sscanf(s, "%d", &n)\<close>: at least one digit after white space and a sign.\<close>

definition scan_int :: "string \<Rightarrow> int option" where
  "scan_int s =
     (case snd (read_sign (dropWhile isspace_c s)) of
        [] \<Rightarrow> None
      | c # cs \<Rightarrow> if digit_val 10 c = None then None else Some (atoi s))"

definition PATH_MAX :: nat where "PATH_MAX = 4096"

definition find_group :: "realize_env \<Rightarrow> vdev \<Rightarrow> life_error + int" where
  "find_group env d =
     (let (len, path) = read_link env (the (sysfsdev d) @ ''/iommu_group'') in
      if len \<le> 0 \<or> int PATH_MAX \<le> len then Inl No_Iommu_Group
      else case scan_int (base_name env (take (nat len) path)) of
        None \<Rightarrow> Inl Bad_Group_Path
      | Some n \<Rightarrow> Inr n)"

definition attach :: "realize_env \<Rightarrow> vdev \<Rightarrow> step" where
  "attach env d =
     (if \<not> path_exists env (the (sysfsdev d)) then err No_Such_Device d
      else
        let d = keep Name (d\<lparr>dev_name := base_name env (the (sysfsdev d))\<rparr>) in
        case find_group env d of
          Inl e \<Rightarrow> err e d
        | Inr n \<Rightarrow>
            (case group_devices env n of
               None \<Rightarrow> err Group_Failed d
             | Some names \<Rightarrow>
                 let d = keep Group d in
                 if dev_name d \<in> set names then err Already_Attached (drop_res Group d)
                 else if get_device env \<noteq> 0 then err Device_Failed (drop_res Group d)
                 else ok (keep Base_Device (d\<lparr>has_group := True\<rparr>))))"

section \<open>\<open>vfio_populate_device\<close>\<close>

fun setup_regions :: "realize_env \<Rightarrow> nat list \<Rightarrow> vdev \<Rightarrow> step" where
  "setup_regions env [] d = ok d"
| "setup_regions env (i # is) d =
     (case region_setup env i of
        Inl _ \<Rightarrow> err (Region_Failed i) d
      | Inr r \<Rightarrow> setup_regions env is (keep (Region i) (d\<lparr>regions := (regions d)[i := r]\<rparr>)))"

definition vfio_populate_vga :: "realize_env \<Rightarrow> vdev \<Rightarrow> step" where
  "vfio_populate_vga env d =
     (case vga_region env of
        Inl _ \<Rightarrow> err Vga_Info_Failed d
      | Inr (readable, writable, sz) \<Rightarrow>
          if \<not> readable \<or> \<not> writable \<or> sz < 0xbffff + 1 then err Vga_Unexpected d
          else ok (keep Vga_Registered (keep Vga (d\<lparr>with_vga := True\<rparr>))))"

definition populate_config :: "realize_env \<Rightarrow> vdev \<Rightarrow> step" where
  "populate_config env d =
     (case config_region env of
        Inl _ \<Rightarrow> err Config_Info_Failed d
      | Inr sz \<Rightarrow> ok (d\<lparr>dev_space := sz, express := (if sz = 256 then False else express d)\<rparr>))"

definition populate_aer :: "realize_env \<Rightarrow> vdev \<Rightarrow> vdev" where
  "populate_aer env d =
     (let (ret, count) = err_info env in if ret = 0 \<and> count = 1 then d\<lparr>pci_aer := True\<rparr> else d)"

definition vfio_populate_device :: "realize_env \<Rightarrow> vdev \<Rightarrow> step" where
  "vfio_populate_device env d =
     (if \<not> is_pci env then err Not_Pci d
      else if num_regions env < 7 + 1 then err Few_Regions d
      else if num_irqs env < 2 + 1 then err Few_Irqs d
      else bindL (setup_regions env [0..<6] d) (\<lambda>d.
           bindL (populate_config env d) (\<lambda>d.
           bindL (if want_vga env then vfio_populate_vga env d else ok d) (\<lambda>d.
           ok (populate_aer env d)))))"

section \<open>The configuration space\<close>

text \<open>A part of the buffer set to one byte, \<open>memset\<close>.\<close>

definition fill :: "nat \<Rightarrow> u8 \<Rightarrow> nat \<Rightarrow> u8 list \<Rightarrow> cfg_fault + u8 list" where
  "fill i b n buf =
     (if length buf < i + n then Inl Beyond_Config else Inr (take i buf @ replicate n b @ drop (i + n) buf))"

text \<open>The copy of the device's configuration space, over the buffer of the PCI core.\<close>

definition read_space :: "realize_env \<Rightarrow> vdev \<Rightarrow> step" where
  "read_space env d =
     (let n = min (pci_space env (express d)) (dev_space d) in
      case config_read env of
        Inl _ \<Rightarrow> err Config_Unread d
      | Inr bs \<Rightarrow>
          let got = take n bs; c = config (space d); d = d\<lparr>space := (space d)\<lparr>config := got @ drop (length got) c\<rparr>\<rparr>
          in if length got < n then err Config_Unread d else ok d)"

definition start_emulation :: "vdev \<Rightarrow> step" where
  "start_emulation d =
     (let d = keep Emulated_Bits (d\<lparr>space := (space d)\<lparr>emulated := replicate (dev_space d) 0\<rparr>\<rparr>) in
      with_space (\<lambda>s. bindR (fill 0x30 0xff 4 (emulated s)) (\<lambda>e. Inr (s\<lparr>emulated := e\<rparr>))) d)"

definition PCI_ANY_ID :: u32 where "PCI_ANY_ID = - 1"

text \<open>
  One of the four identifiers: refused when it is larger than \<open>bound\<close>, emulated when it is given. The
  first two are read from the device otherwise.
\<close>

definition override_id :: "nat \<Rightarrow> u32 \<Rightarrow> u32 \<Rightarrow> (vdev \<Rightarrow> step) \<Rightarrow> vdev \<Rightarrow> step" where
  "override_id pos bound v other d =
     (if v = PCI_ANY_ID then other d
      else if bound < v then err (Bad_Id pos) d
      else with_space (vfio_add_emulated_word pos (ucast v) (- 1)) d)"

definition read_id :: "nat \<Rightarrow> (u32 \<Rightarrow> vdev \<Rightarrow> vdev) \<Rightarrow> vdev \<Rightarrow> step" where
  "read_id pos put d =
     (case get_word (config (space d)) pos Beyond_Config of
        Inl x \<Rightarrow> Inl (Cfg_Fault x) | Inr w \<Rightarrow> ok (put (ucast w) d))"

definition emulate_ids :: "vdev \<Rightarrow> step" where
  "emulate_ids d =
     bindL (override_id 0 0xfffe (vendor d) (read_id 0 (\<lambda>v d. d\<lparr>vendor := v\<rparr>)) d) (\<lambda>d.
     bindL (override_id 2 0xffff (device d) (read_id 2 (\<lambda>v d. d\<lparr>device := v\<rparr>)) d) (\<lambda>d.
     bindL (override_id 0x2c 0xffff (sub_vendor d) ok d) (\<lambda>d.
     override_id 0x2e 0xffff (sub_device d) ok d)))"

definition set_header :: "bool \<Rightarrow> pci_cfg \<Rightarrow> cfg_fault + pci_cfg" where
  "set_header multi s =
     bindR (set_byte (emulated s) 0x0e 0x80 Beyond_Config) (\<lambda>e.
     bindR (get_byte (config s) 0x0e Beyond_Config) (\<lambda>b.
     bindR (set_byte (config s) 0x0e (if multi then or b 0x80 else and b (not 0x80)) Beyond_Config) (\<lambda>c.
     Inr (s\<lparr>emulated := e, config := c\<rparr>))))"

definition clear_bars :: "pci_cfg \<Rightarrow> cfg_fault + pci_cfg" where
  "clear_bars s =
     bindR (fill 0x10 0 24 (config s)) (\<lambda>c. bindR (fill 0x30 0 4 c) (\<lambda>c. Inr (s\<lparr>config := c\<rparr>)))"

definition prepare_space :: "realize_env \<Rightarrow> vdev \<Rightarrow> step" where
  "prepare_space env d =
     bindL (read_space env d) (\<lambda>d.
     bindL (start_emulation d) (\<lambda>d.
     bindL (emulate_ids d) (\<lambda>d.
     bindL (with_space (set_header (multifunction env)) d) (\<lambda>d.
     bindL (with_space clear_bars d) (\<lambda>d.
     ok (d\<lparr>rom_state := vfio_pci_size_rom (rom_file env) (rom_bar env) (rom_blacklisted env) (rom_opt env)
       (rom_moved env) (rom_probed env)\<rparr>))))))"

section \<open>The MSI-X table and the BARs\<close>

definition find_msix_table :: "realize_env \<Rightarrow> vdev \<Rightarrow> step" where
  "find_msix_table env d =
     (case msix_words env of (ctrl, table, pba) \<Rightarrow>
        (case vfio_msix_early_setup (page_size env) (vendor d) (device d) (find_msix env (config (space d)))
                ctrl table pba (regions d) of
           Inl x \<Rightarrow> Inl (Irq_Fault x)
         | Inr No_Msix \<Rightarrow> ok d
         | Inr Setup_Failed \<Rightarrow> err Msix_Failed d
         | Inr (Setup m bars) \<Rightarrow> ok (keep Msix_Info (d\<lparr>msix_cache := Some m, regions := bars\<rparr>))))"

text \<open>The kind of a BAR: I/O port, 64 bits, and the type it is registered with.\<close>

definition bar_type :: "u32 \<Rightarrow> bool \<times> bool \<times> u8" where
  "bar_type w =
     (let ioport = (and w 1 \<noteq> 0) in
      (ioport, \<not> ioport \<and> and w 4 \<noteq> 0, ucast (and w (if ioport then 3 else 0xf))))"

definition vfio_bar_setup :: "realize_env \<Rightarrow> vdev \<Rightarrow> nat \<Rightarrow> vdev" where
  "vfio_bar_setup env d nr =
     (if region_size (regions d ! nr) = 0 then d
      else case bar_word env nr of
        None \<Rightarrow> d
      | Some w \<Rightarrow> d\<lparr>registered := registered d @ [(nr, bar_type w)]\<rparr>)"

definition vfio_bars_setup :: "realize_env \<Rightarrow> vdev \<Rightarrow> vdev" where
  "vfio_bars_setup env d = foldl (vfio_bar_setup env) d [0..<6]"

section \<open>Tearing down\<close>

definition vfio_bars_exit :: "vdev \<Rightarrow> vdev" where
  "vfio_bars_exit d = (if with_vga d then drop_res Vga_Registered d else d)"

text \<open>\<open>out_teardown\<close>; \<open>vfio_teardown_msi\<close> only calls the PCI core.\<close>

definition teardown :: "vdev \<Rightarrow> vdev" where
  "teardown d = vfio_bars_exit (drop_res Routing_Notifier d)"

definition or_teardown :: "step \<Rightarrow> step" where
  "or_teardown m = bindR m (\<lambda>(e, d). Inr (e, if e = None then d else teardown d))"

section \<open>The error and the request notifiers\<close>

definition listen :: "life_res \<Rightarrow> vdev \<Rightarrow> vdev" where
  "listen r d = d\<lparr>main_loop := r # main_loop d\<rparr>"

definition unlisten :: "life_res \<Rightarrow> vdev \<Rightarrow> vdev" where
  "unlisten r d = d\<lparr>main_loop := removeAll r (main_loop d)\<rparr>"

definition vfio_register_err_notifier :: "realize_env \<Rightarrow> vdev \<Rightarrow> vdev" where
  "vfio_register_err_notifier env d =
     (if \<not> pci_aer d then d
      else if \<not> notifier_ok env Err_Fd then d\<lparr>pci_aer := False\<rparr>
      else
        let d = listen Err_Fd (keep Err_Fd d) in
        if set_irqs_ok env Err_Fd then d\<lparr>err_armed := True\<rparr>
        else (drop_res Err_Fd (unlisten Err_Fd d))\<lparr>pci_aer := False\<rparr>)"

definition vfio_unregister_err_notifier :: "realize_env \<Rightarrow> vdev \<Rightarrow> vdev" where
  "vfio_unregister_err_notifier env d =
     (if \<not> pci_aer d then d
      else
        let d = (if set_irqs_ok env Err_Fd then d\<lparr>err_armed := False\<rparr> else d)
        in drop_res Err_Fd (unlisten Err_Fd d))"

definition vfio_register_req_notifier :: "realize_env \<Rightarrow> vdev \<Rightarrow> vdev" where
  "vfio_register_req_notifier env d =
     (if \<not> want_req env then d
      else if fst (req_info env) < 0 \<or> snd (req_info env) < 1 then d
      else if \<not> notifier_ok env Req_Fd then d
      else
        let d = listen Req_Fd (keep Req_Fd d) in
        if set_irqs_ok env Req_Fd then d\<lparr>req_armed := True, req_enabled := True\<rparr>
        else drop_res Req_Fd (unlisten Req_Fd d))"

definition vfio_unregister_req_notifier :: "realize_env \<Rightarrow> vdev \<Rightarrow> vdev" where
  "vfio_unregister_req_notifier env d =
     (if \<not> req_enabled d then d
      else
        let d = (if set_irqs_ok env Req_Fd then d\<lparr>req_armed := False\<rparr> else d)
        in (drop_res Req_Fd (unlisten Req_Fd d))\<lparr>req_enabled := False\<rparr>)"

section \<open>Realizing\<close>

definition add_caps :: "realize_env \<Rightarrow> vdev \<Rightarrow> step" where
  "add_caps env d =
     (case vfio_add_capabilities (caps env) (space d) of
        Inl x \<Rightarrow> Inl (Cfg_Fault x)
      | Inr (ret, s) \<Rightarrow>
          let d = d\<lparr>space := s\<rparr> in if ret \<noteq> 0 then err (Capability_Failed ret) d else ok d)"

text \<open>
  \<open>vfio_pci_igd_opregion_init\<close>, which is not part of the repository, may leave an allocated copy of the
  OpRegion in the device. It is called here, and by the quirks of the BARs.
\<close>

definition note_opregion :: "bool \<Rightarrow> vdev \<Rightarrow> vdev" where
  "note_opregion left d = (if left then keep Opregion (d\<lparr>igd_opregion := True\<rparr>) else d)"

definition quirk_setup :: "realize_env \<Rightarrow> vdev \<Rightarrow> vdev" where
  "quirk_setup env d = note_opregion (quirk_opregion env) d"

definition setup_opregion :: "realize_env \<Rightarrow> vdev \<Rightarrow> step" where
  "setup_opregion env d =
     (if igd_opregion d \<or> \<not> want_opregion env then ok d
      else if hotplugged env then err Opregion_Hotplugged d
      else if opregion_info env \<noteq> 0 then err Opregion_Unsupported d
      else
        let (ret, left) = opregion_init env; d = note_opregion left d in
        if ret \<noteq> 0 then err Opregion_Failed d else ok d)"

definition emulate_range :: "nat option \<Rightarrow> nat \<Rightarrow> pci_cfg \<Rightarrow> cfg_fault + pci_cfg" where
  "emulate_range at n s =
     (case at of None \<Rightarrow> Inr s
      | Some p \<Rightarrow> bindR (fill p 0xff n (emulated s)) (\<lambda>e. Inr (s\<lparr>emulated := e\<rparr>)))"

definition emulate_msi :: "realize_env \<Rightarrow> vdev \<Rightarrow> step" where
  "emulate_msi env d =
     bindL (with_space (\<lambda>s. emulate_range (msix_at env (config s)) 12 s) d) (\<lambda>d.
     with_space (\<lambda>s. emulate_range (msi_at env (config s)) (msi_len s) s) d)"

definition start_intx :: "realize_env \<Rightarrow> vfio_host \<Rightarrow> vdev \<Rightarrow> step" where
  "start_intx env h d =
     (case get_byte (emulated (space d)) 0x3d Beyond_Config of
        Inl x \<Rightarrow> Inl (Cfg_Fault x)
      | Inr emu \<Rightarrow>
          if vfio_pci_read_config (ucast emu) (default_read env (config (space d)) 0x3d 1) (pin_read env) 1 = 0
          then ok d
          else
            let d = keep Routing_Notifier (keep Mmap_Timer d) in
            case vfio_intx_enable h (irqs d) of
              Inl x \<Rightarrow> Inl (Irq_Fault x)
            | Inr (ret, s) \<Rightarrow>
                let d = d\<lparr>irqs := s\<rparr> in if ret \<noteq> 0 then err (Intx_Failed ret) d else ok d)"

definition finish_realize :: "realize_env \<Rightarrow> vfio_host \<Rightarrow> vdev \<Rightarrow> step" where
  "finish_realize env h d =
     or_teardown
       (bindL (add_caps env d) (\<lambda>d.
        bindL (setup_opregion env (quirk_setup env d)) (\<lambda>d.
        bindL (emulate_msi env d) (\<lambda>d.
        start_intx env h d))))"

definition vfio_realize :: "realize_env \<Rightarrow> vfio_host \<Rightarrow> vdev \<Rightarrow> step" where
  "vfio_realize env h d =
     bindL (choose_path d) (\<lambda>d.
     bindL (attach env d) (\<lambda>d.
     bindL (vfio_populate_device env d) (\<lambda>d.
     bindL (prepare_space env d) (\<lambda>d.
     bindL (find_msix_table env d) (\<lambda>d.
     bindL (finish_realize env h (vfio_bars_setup env d)) (\<lambda>d.
     ok (vfio_register_req_notifier env (vfio_register_err_notifier env d))))))))"

section \<open>The end\<close>

definition vfio_exitfn :: "realize_env \<Rightarrow> vfio_host \<Rightarrow> vdev \<Rightarrow> vfio_fault + vdev" where
  "vfio_exitfn env h d =
     (let d = vfio_unregister_err_notifier env (vfio_unregister_req_notifier env d);
          d = drop_res Routing_Notifier d
      in bindR (vfio_disable_interrupts h (irqs d)) (\<lambda>s.
         Inr (vfio_bars_exit (drop_res Mmap_Timer (d\<lparr>irqs := s\<rparr>)))))"

definition vfio_put_device :: "vdev \<Rightarrow> vdev" where
  "vfio_put_device d =
     (let d = drop_res Msix_Info (drop_res Name d) in if has_group d then drop_res Base_Device d else d)"

definition vfio_bars_finalize :: "vdev \<Rightarrow> vdev" where
  "vfio_bars_finalize d =
     (let d = foldl (\<lambda>d i. drop_res (Region i) d) d [0..<6] in if with_vga d then drop_res Vga d else d)"

text \<open>The copy of the OpRegion is not freed here: its \<open>fw_cfg\<close> entry cannot be removed.\<close>

definition vfio_instance_finalize :: "vdev \<Rightarrow> vdev" where
  "vfio_instance_finalize d =
     (let group = has_group d;
          d = vfio_put_device (drop_res Emulated_Bits (vfio_bars_finalize d))
      in if group then drop_res Group d else d)"

end
