(* ===== verification/Vfio_Ledger.thy ===== *)
theory Vfio_Ledger
  imports Vfio_Life Vfio_Guest
begin

text \<open>
  What a passthrough device has obtained when \<open>vfio_realize\<close> returns. What \<open>vfio_exitfn\<close> and
  \<open>vfio_instance_finalize\<close> give back of it is in \<open>Vfio_Life_Props\<close>: all but the copy of the graphics
  OpRegion. After a failed \<open>vfio_realize\<close> only
  \<open>vfio_instance_finalize\<close> runs, and two of the error paths leave something behind.
\<close>

section \<open>The ledger\<close>

text \<open>What only \<open>vfio_exitfn\<close> or the clean-up of \<open>vfio_realize\<close> gives back.\<close>

definition late :: "life_res set" where
  "late = {Vga_Registered, Mmap_Timer, Routing_Notifier, Err_Fd, Req_Fd}"

definition basic :: "life_res set" where
  "basic = {Name, Group, Base_Device} \<union> Region ` {..<6}"

definition ledger :: "life_res set \<Rightarrow> vdev \<Rightarrow> bool" where
  "ledger S d \<longleftrightarrow> distinct (kept d) \<and> set (kept d) \<subseteq> S \<and> (Vga \<in> set (kept d) \<longrightarrow> with_vga d)
     \<and> (Base_Device \<in> set (kept d) \<longrightarrow> has_group d) \<and> (Group \<in> set (kept d) \<longrightarrow> has_group d)
     \<and> (Opregion \<in> set (kept d) \<longleftrightarrow> igd_opregion d)"

definition vga_res :: "vdev \<Rightarrow> life_res set" where
  "vga_res d = (if with_vga d then {Vga_Registered} else {})"

text \<open>The parts of the device that the ledger looks at.\<close>

definition books :: "vdev \<Rightarrow> life_res list \<times> bool \<times> bool \<times> life_res list \<times> bool \<times> bool \<times> bool" where
  "books d = (kept d, with_vga d, has_group d, main_loop d, pci_aer d, req_enabled d, igd_opregion d)"

lemma booksD:
  assumes "books t = books d"
  shows "kept t = kept d" "with_vga t = with_vga d" "has_group t = has_group d" "main_loop t = main_loop d"
    "pci_aer t = pci_aer d" "req_enabled t = req_enabled d" "igd_opregion t = igd_opregion d"
  using assms by (simp_all add: books_def)

lemma ledger_books: "books t = books d \<Longrightarrow> ledger S t = ledger S d"
  by (simp add: books_def ledger_def)

lemma ledger_mono: "ledger S d \<Longrightarrow> S \<subseteq> S' \<Longrightarrow> ledger S' d"
  by (auto simp: ledger_def)

lemma bindL_cases:
  assumes "bindL m f = Inr (e, t)"
  obtains x where "m = Inr (Some x, t)" and "e = Some x" | d where "m = Inr (None, d)" and "f d = Inr (e, t)"
proof -
  from assms obtain a d where m: "m = Inr (a, d)"
    and r: "(case a of Some x \<Rightarrow> Inr (Some x, d) | None \<Rightarrow> f d) = Inr (e, t)"
    by (auto simp: bindL_def bindR_eq_Inr)
  show thesis
  proof (cases a)
    case None
    with m r that(2) show thesis by simp
  next
    case (Some x)
    with m r have "m = Inr (Some x, t)" "e = Some x" by auto
    then show thesis by (rule that(1))
  qed
qed

lemma keep_fields [simp]:
  "kept (keep r d) = r # kept d" "with_vga (keep r d) = with_vga d" "has_group (keep r d) = has_group d"
  "main_loop (keep r d) = main_loop d" "pci_aer (keep r d) = pci_aer d" "req_enabled (keep r d) = req_enabled d"
  "irqs (keep r d) = irqs d" "space (keep r d) = space d" "igd_opregion (keep r d) = igd_opregion d"
  by (simp_all add: keep_def)

lemma drop_fields [simp]:
  "kept (drop_res r d) = remove1 r (kept d)" "with_vga (drop_res r d) = with_vga d"
  "has_group (drop_res r d) = has_group d" "main_loop (drop_res r d) = main_loop d"
  "pci_aer (drop_res r d) = pci_aer d" "req_enabled (drop_res r d) = req_enabled d" "irqs (drop_res r d) = irqs d"
  "igd_opregion (drop_res r d) = igd_opregion d"
  by (simp_all add: drop_res_def)

lemma step_simps [simp]: "ok d = Inr (e, t) \<longleftrightarrow> e = None \<and> t = d" "err x d = Inr (e, t) \<longleftrightarrow> e = Some x \<and> t = d"
  by (auto simp: ok_def err_def)

lemma bindL_ok [simp]: "bindL (ok d) f = f d" "bindL (err x d) f = err x d"
  by (simp_all add: bindL_def ok_def err_def)

lemma ok_inject [simp]: "ok d = ok t \<longleftrightarrow> d = t" "err x d = err y t \<longleftrightarrow> x = y \<and> d = t"
  by (auto simp: ok_def err_def)

section \<open>The steps of \<open>vfio_realize\<close>\<close>

lemma with_space_books: "with_space f d = Inr (e, t) \<Longrightarrow> e = None \<and> books t = books d \<and> irqs t = irqs d"
  by (auto simp: with_space_def books_def split: sum.splits)

lemma choose_books: "choose_path d = Inr (e, t) \<Longrightarrow> books t = books d \<and> irqs t = irqs d"
  by (auto simp: choose_path_def books_def split: if_splits)

text \<open>A new device.\<close>

definition fresh :: "vdev \<Rightarrow> bool" where
  "fresh d \<longleftrightarrow> kept d = [] \<and> \<not> with_vga d \<and> \<not> has_group d \<and> main_loop d = [] \<and> \<not> pci_aer d
     \<and> \<not> req_enabled d \<and> \<not> igd_opregion d \<and> irq_initial (irqs d) \<and> \<not> noting (irqs d)"

lemma attach_ledger:
  assumes "attach env d = Inr (e, t)" and "kept d = []" and "\<not> with_vga d" and "\<not> igd_opregion d"
  shows "ledger {Name, Group, Base_Device} t \<and> \<not> with_vga t \<and> main_loop t = main_loop d \<and> pci_aer t = pci_aer d
    \<and> req_enabled t = req_enabled d \<and> irqs t = irqs d"
  using assms by (auto simp: attach_def ledger_def Let_def split: if_splits sum.splits option.splits)

lemma regions_ledger:
  assumes "setup_regions env is d = Inr (e, t)" and "ledger basic d" and "distinct is" and "set is \<subseteq> {..<6}"
    and "\<forall>i \<in> set is. Region i \<notin> set (kept d)"
  shows "ledger basic t \<and> with_vga t = with_vga d \<and> main_loop t = main_loop d \<and> pci_aer t = pci_aer d
    \<and> req_enabled t = req_enabled d \<and> irqs t = irqs d"
  using assms
proof (induction "is" arbitrary: d)
  case Nil
  then show ?case by auto
next
  case (Cons i "is")
  show ?case
  proof (cases "region_setup env i")
    case (Inl a)
    with Cons.prems show ?thesis by auto
  next
    case (Inr r)
    let ?d = "keep (Region i) (d\<lparr>regions := (regions d)[i := r]\<rparr>)"
    have "setup_regions env is ?d = Inr (e, t)" using Cons.prems(1) Inr by simp
    moreover have "ledger basic ?d" using Cons.prems by (auto simp: ledger_def basic_def)
    ultimately have "ledger basic t \<and> with_vga t = with_vga ?d \<and> main_loop t = main_loop ?d
        \<and> pci_aer t = pci_aer ?d \<and> req_enabled t = req_enabled ?d \<and> irqs t = irqs ?d"
      using Cons.prems by (intro Cons.IH) auto
    then show ?thesis by simp
  qed
qed

text \<open>What the rest of \<open>vfio_realize\<close> knows after \<open>vfio_populate_device\<close>.\<close>

definition populated :: "life_res set \<Rightarrow> vdev \<Rightarrow> vdev \<Rightarrow> bool" where
  "populated S d t \<longleftrightarrow> ledger S t \<and> set (kept t) \<inter> late = vga_res t \<and> main_loop t = main_loop d
     \<and> req_enabled t = req_enabled d \<and> irqs t = irqs d"

definition early_error :: "life_error \<Rightarrow> bool" where
  "early_error x \<longleftrightarrow> x \<notin> {Config_Unread, Msix_Failed, Opregion_Failed} \<and> (\<forall>n. x \<noteq> Bad_Id n) \<and> (\<forall>n. x \<noteq> Intx_Failed n)"

lemma basic_late: "basic \<inter> late = {}"
  by (auto simp: basic_def late_def)

lemma ledger_basic_late: "ledger basic t \<Longrightarrow> set (kept t) \<inter> late = {}"
  using basic_late by (auto simp: ledger_def)

lemma config_books: "populate_config env d = Inr (e, t) \<Longrightarrow>
    books t = books d \<and> irqs t = irqs d \<and> (\<forall>x. e = Some x \<longrightarrow> early_error x)"
  by (auto simp: populate_config_def books_def early_error_def split: sum.splits)

lemma regions_error: "setup_regions env is d = Inr (Some x, t) \<Longrightarrow> early_error x"
  by (induction "is" arbitrary: d) (auto simp: early_error_def split: sum.splits)

lemma vga_ledger:
  assumes "vfio_populate_vga env u = Inr (None, t)" and "ledger basic u" and "\<not> with_vga u"
    and "main_loop u = main_loop d" and "req_enabled u = req_enabled d" and "irqs u = irqs d"
  shows "populated (basic \<union> {Vga, Vga_Registered}) d t"
proof -
  from assms(1) have t: "t = keep Vga_Registered (keep Vga (u\<lparr>with_vga := True\<rparr>))"
    by (auto simp: vfio_populate_vga_def split: if_splits sum.splits)
  have "Vga \<notin> basic" "Vga_Registered \<notin> basic" "Vga \<notin> late" "Vga_Registered \<in> late"
    by (auto simp: basic_def late_def)
  then show ?thesis
    using assms(2-6) ledger_basic_late [OF assms(2)]
    by (auto simp: t populated_def ledger_def vga_res_def)
qed

definition similar :: "vdev \<Rightarrow> vdev \<Rightarrow> bool" where
  "similar d t \<longleftrightarrow> ledger basic t \<and> \<not> with_vga t \<and> main_loop t = main_loop d
     \<and> req_enabled t = req_enabled d \<and> irqs t = irqs d"

lemma similar_populated: "similar d t \<Longrightarrow> populated (basic \<union> {Vga, Vga_Registered}) d t"
  using ledger_basic_late [of t] ledger_mono [of basic t "basic \<union> {Vga, Vga_Registered}"]
  by (auto simp: similar_def populated_def vga_res_def)

lemma similar_books: "similar d u \<Longrightarrow> books t = books u \<Longrightarrow> irqs t = irqs u \<Longrightarrow> similar d t"
  using ledger_books [of t u] booksD [of t u] by (auto simp: similar_def)

lemma populate_rest:
  assumes "bindL (populate_config env u) (\<lambda>d. bindL (if want_vga env then vfio_populate_vga env d else ok d)
      (\<lambda>d. ok (populate_aer env d))) = Inr (e, t)" and "similar d u"
  shows "populated (basic \<union> {Vga, Vga_Registered}) d t \<and> (\<forall>x. e = Some x \<longrightarrow> early_error x \<and> \<not> with_vga t)"
  using assms(1)
proof (cases rule: bindL_cases)
  case (1 x)
  from config_books [OF 1(1)] 1(2) similar_books [OF assms(2)] have "similar d t" "early_error x" by auto
  with 1(2) similar_populated [of d t] show ?thesis by (auto simp: similar_def)
next
  case (2 v)
  from config_books [OF 2(1)] similar_books [OF assms(2)] have v: "similar d v" by auto
  from 2(2) show ?thesis
  proof (cases rule: bindL_cases)
    case (1 x)
    then have "t = v" "early_error x"
      by (auto simp: vfio_populate_vga_def early_error_def split: if_splits sum.splits prod.splits)
    with v similar_populated [OF v] 1(2) show ?thesis by (auto simp: similar_def)
  next
    case (2 w)
    have "populated (basic \<union> {Vga, Vga_Registered}) d w"
      using 2(1) v similar_populated [OF v] vga_ledger [of env v w d] by (auto simp: similar_def split: if_splits)
    with 2(2) show ?thesis
      by (auto simp: populated_def ledger_def vga_res_def populate_aer_def Let_def split: prod.splits if_splits)
  qed
qed

lemma populate_outcome:
  assumes run: "vfio_populate_device env d = Inr (e, t)"
    and l: "ledger {Name, Group, Base_Device} d" and vga: "\<not> with_vga d"
  shows "populated (basic \<union> {Vga, Vga_Registered}) d t \<and> (\<forall>x. e = Some x \<longrightarrow> early_error x \<and> \<not> with_vga t)"
proof -
  have lb: "ledger basic d" using l by (auto intro: ledger_mono simp: basic_def)
  then have s: "similar d d" using vga by (simp add: similar_def)
  have nr: "distinct [0..<6::nat]" "set [0..<6] \<subseteq> {..<6::nat}" "\<forall>i \<in> set [0..<6]. Region i \<notin> set (kept d)"
    using l by (auto simp: ledger_def)
  consider (bad) x where "e = Some x" "t = d" "early_error x"
    | (go) "bindL (setup_regions env [0..<6] d) (\<lambda>d. bindL (populate_config env d) (\<lambda>d.
           bindL (if want_vga env then vfio_populate_vga env d else ok d) (\<lambda>d. ok (populate_aer env d)))) = Inr (e, t)"
    using run unfolding vfio_populate_device_def by (fastforce simp: early_error_def split: if_splits)
  then show ?thesis
  proof cases
    case bad
    with vga similar_populated [OF s] show ?thesis by simp
  next
    case go
    then show ?thesis
    proof (cases rule: bindL_cases)
      case (1 x)
      from regions_ledger [OF 1(1) lb nr] vga have "similar d t" by (simp add: similar_def)
      with 1 regions_error [OF 1(1)] similar_populated [of d t] show ?thesis by (auto simp: similar_def)
    next
      case (2 d1)
      from regions_ledger [OF 2(1) lb nr] vga have "similar d d1" by (simp add: similar_def)
      from populate_rest [OF 2(2) this] show ?thesis .
    qed
  qed
qed

section \<open>Up to the BARs\<close>

text \<open>These steps only add to the buffer of emulated bits and the MSI-X cache.\<close>

lemma id_books:
  assumes "override_id pos b v other d = Inr (e, t)"
    and "\<And>e t. other d = Inr (e, t) \<Longrightarrow> e = None \<and> books t = books d \<and> irqs t = irqs d"
  shows "books t = books d \<and> irqs t = irqs d \<and> (\<forall>x. e = Some x \<longrightarrow> (\<exists>n. x = Bad_Id n))"
  using assms with_space_books by (fastforce simp: override_id_def split: if_splits)

lemma ids_books:
  assumes "emulate_ids d = Inr (e, t)"
  shows "books t = books d \<and> irqs t = irqs d \<and> (\<forall>x. e = Some x \<longrightarrow> (\<exists>n. x = Bad_Id n))"
proof -
  have rd: "e = None \<and> books t = books d \<and> irqs t = irqs d" if "read_id pos put d = Inr (e, t)"
    and "\<And>v d. books (put v d) = books d \<and> irqs (put v d) = irqs d" for pos put d e t
    using that by (auto simp: read_id_def split: sum.splits)
  have o1: "books t = books d \<and> irqs t = irqs d \<and> (\<forall>x. e = Some x \<longrightarrow> (\<exists>n. x = Bad_Id n))"
    if "override_id 0 0xfffe (vendor d) (read_id 0 (\<lambda>v d. d\<lparr>vendor := v\<rparr>)) d = Inr (e, t)" for d e t
    by (rule id_books [OF that]) (erule rd, simp add: books_def)
  have o2: "books t = books d \<and> irqs t = irqs d \<and> (\<forall>x. e = Some x \<longrightarrow> (\<exists>n. x = Bad_Id n))"
    if "override_id 2 0xffff (device d) (read_id 2 (\<lambda>v d. d\<lparr>device := v\<rparr>)) d = Inr (e, t)" for d e t
    by (rule id_books [OF that]) (erule rd, simp add: books_def)
  have o3: "books t = books d \<and> irqs t = irqs d \<and> (\<forall>x. e = Some x \<longrightarrow> (\<exists>n. x = Bad_Id n))"
    if "override_id pos 0xffff v ok d = Inr (e, t)" for pos v d e t
    by (rule id_books [OF that]) simp
  from assms show ?thesis unfolding emulate_ids_def by (auto elim!: bindL_cases dest!: o1 o2 o3)
qed

definition emptied :: "life_error \<Rightarrow> bool" where
  "emptied x \<longleftrightarrow> x \<in> {Config_Unread, Msix_Failed} \<or> (\<exists>n. x = Bad_Id n)"

lemma read_space_books:
  "read_space env d = Inr (e, t) \<Longrightarrow> books t = books d \<and> irqs t = irqs d \<and> (\<forall>x. e = Some x \<longrightarrow> emptied x)"
  by (auto simp: read_space_def books_def emptied_def Let_def split: sum.splits if_splits)

lemma emulation_books:
  assumes "start_emulation d = Inr (e, t)"
  shows "e = None \<and> books t = books (keep Emulated_Bits d) \<and> irqs t = irqs d"
  using with_space_books [OF assms [unfolded start_emulation_def Let_def]] by (simp add: books_def)

lemma populated_books:
  "populated S d u \<Longrightarrow> books t = books u \<Longrightarrow> irqs t = irqs u \<Longrightarrow> populated S d t"
  using ledger_books [of t u S] booksD [of t u] by (auto simp: populated_def vga_res_def)

lemma populated_keep:
  assumes "populated S d u" and "r \<notin> S" and "r \<notin> late" and "r \<notin> basic" and "r \<noteq> Vga"
    and "r \<noteq> Opregion"
  shows "populated (insert r S) d (keep r u)"
proof -
  have "r \<noteq> Base_Device" "r \<noteq> Group" using assms(4) by (auto simp: basic_def)
  with assms show ?thesis by (auto simp: populated_def ledger_def vga_res_def)
qed

lemma prepare_outcome:
  assumes run: "prepare_space env u = Inr (e, t)" and p: "populated (basic \<union> {Vga, Vga_Registered}) d u"
  shows "populated (basic \<union> {Vga, Vga_Registered, Emulated_Bits}) d t \<and> (\<forall>x. e = Some x \<longrightarrow> emptied x)"
proof -
  let ?S = "basic \<union> {Vga, Vga_Registered}"
  have sub: "populated (basic \<union> {Vga, Vga_Registered, Emulated_Bits}) d v" if "populated ?S d v" for v
    using that by (auto simp: populated_def ledger_def)
  have ins: "insert Emulated_Bits ?S = basic \<union> {Vga, Vga_Registered, Emulated_Bits}" by auto
  from run show ?thesis unfolding prepare_space_def
  proof (cases rule: bindL_cases)
    case (1 x)
    with read_space_books [OF 1(1)] populated_books [OF p, of t] sub show ?thesis by auto
  next
    case (2 v)
    with read_space_books [OF 2(1)] populated_books [OF p, of v] have v: "populated ?S d v" by auto
    from 2(2) show ?thesis
    proof (cases rule: bindL_cases)
      case (1 x)
      with emulation_books [OF 1(1)] show ?thesis by simp
    next
      case (2 w)
      have k: "populated (insert Emulated_Bits ?S) d (keep Emulated_Bits v)"
        using v by (rule populated_keep) (auto simp: basic_def late_def)
      have w: "populated (insert Emulated_Bits ?S) d w"
        using populated_books [OF k] emulation_books [OF 2(1)] by simp
      have "books t = books w \<and> irqs t = irqs w \<and> (\<forall>x. e = Some x \<longrightarrow> emptied x)"
        using 2(2) by (auto elim!: bindL_cases dest!: ids_books with_space_books simp: books_def emptied_def)
      with populated_books [OF w] ins show ?thesis by auto
    qed
  qed
qed

lemma msix_outcome:
  assumes run: "find_msix_table env u = Inr (e, t)"
    and p: "populated (basic \<union> {Vga, Vga_Registered, Emulated_Bits}) d u"
  shows "populated (basic \<union> {Vga, Vga_Registered, Emulated_Bits, Msix_Info}) d t \<and> (\<forall>x. e = Some x \<longrightarrow> emptied x)"
proof -
  let ?S = "basic \<union> {Vga, Vga_Registered, Emulated_Bits}"
  have ins: "insert Msix_Info ?S = basic \<union> {Vga, Vga_Registered, Emulated_Bits, Msix_Info}" by auto
  have sub: "populated (basic \<union> {Vga, Vga_Registered, Emulated_Bits, Msix_Info}) d u"
    using p by (auto simp: populated_def ledger_def)
  from run consider (same) "t = u" "\<forall>x. e = Some x \<longrightarrow> emptied x"
    | (table) m bars where "t = keep Msix_Info (u\<lparr>msix_cache := Some m, regions := bars\<rparr>)" "e = None"
    by (fastforce simp: find_msix_table_def emptied_def split: prod.splits sum.splits msix_setup.splits)
  then show ?thesis
  proof cases
    case same
    with sub show ?thesis by simp
  next
    case table
    have "populated ?S d (u\<lparr>msix_cache := Some m, regions := bars\<rparr>)"
      using p by (rule populated_books) (simp_all add: books_def)
    then have "populated (insert Msix_Info ?S) d t"
      unfolding table(1) by (rule populated_keep) (auto simp: basic_def late_def)
    with table(2) ins show ?thesis by simp
  qed
qed

section \<open>The interrupts\<close>

definition full :: "life_res set" where
  "full = basic \<union> {Vga, Emulated_Bits, Msix_Info, Opregion} \<union> late"

lemma bars_setup_books: "books (vfio_bars_setup env d) = books d \<and> irqs (vfio_bars_setup env d) = irqs d"
proof -
  have "books (foldl (vfio_bar_setup env) u is) = books u \<and> irqs (foldl (vfio_bar_setup env) u is) = irqs u" for u "is"
    by (induction "is" arbitrary: u) (auto simp: vfio_bar_setup_def books_def split: option.splits)
  then show ?thesis by (simp add: vfio_bars_setup_def)
qed

text \<open>When INTx cannot be enabled the interrupt code holds nothing.\<close>

lemma init_mode: "event_notifier_init h k s = (r, t) \<Longrightarrow> interrupt t = interrupt s"
  by (metis core_calls(7) core_def prod.inject snd_conv)

lemma trigger_mode: "set_trigger h i st fds s = (r, t) \<Longrightarrow> interrupt t = interrupt s"
  by (metis core_calls(8) core_def prod.inject snd_conv)

lemma intx_setup_failed:
  assumes "intx_setup h pin s = (q, t)" and "q \<noteq> 0" and "idle s"
  shows "idle t"
proof -
  have "interrupt t = INT_NONE"
    using assms by (auto simp: intx_setup_def Let_def idle_def act_def qemu_set_fd_handler_def
        event_notifier_cleanup_def discard_def split: prod.splits if_splits dest!: init_mode trigger_mode)
  with intx_setup_idle [OF assms(3,1)] show ?thesis by (auto simp: in_intx_def)
qed

lemma intx_enable_failed:
  assumes ok: "host_ok h" and s: "accounted h s" and run: "vfio_intx_enable h s = Inr (r, t)" and "r \<noteq> 0"
  shows "idle t"
proof -
  obtain v s1 where v: "ask h Read_Interrupt_Pin s = (v, s1)" by (meson surj_pair)
  have s1: "accounted h s1" using accounted_view [OF view_ask [OF v]] s by simp
  from vfio_disable_idle [OF ok s1] obtain s2 where s2: "vfio_disable_interrupts h s1 = Inr s2" "idle s2" .
  have "intx_setup h (nat (v mod 256)) s2 = (r, t)"
    using run v s2(1) assms(4) by (auto simp: vfio_intx_enable_def intx_enable_with_def Let_def split: if_splits)
  from intx_setup_failed [OF this assms(4) s2(2)] show ?thesis .
qed

lemma caps_books:
  "add_caps env d = Inr (e, t) \<Longrightarrow> books t = books d \<and> irqs t = irqs d \<and> (\<forall>x. e = Some x \<longrightarrow> early_error x)"
  by (auto simp: add_caps_def books_def early_error_def Let_def split: sum.splits if_splits)

text \<open>Whether \<open>vfio_realize\<close> leaves a copy of the OpRegion when it ends this way.\<close>

definition opregion_left :: "realize_env \<Rightarrow> life_error option \<Rightarrow> bool" where
  "opregion_left env e =
     (let both = (quirk_opregion env \<or> want_opregion env \<and> snd (opregion_init env)) in
      case e of None \<Rightarrow> both
      | Some x \<Rightarrow> (case x of Intx_Failed _ \<Rightarrow> both | Opregion_Failed \<Rightarrow> snd (opregion_init env) | _ \<Rightarrow> False))"

lemma early_opregion: "early_error x \<Longrightarrow> \<not> opregion_left env (Some x)"
  by (cases x) (auto simp: early_error_def opregion_left_def)

lemma emptied_opregion: "emptied x \<Longrightarrow> \<not> opregion_left env (Some x)"
  by (auto simp: emptied_def opregion_left_def)

lemma note_populated:
  assumes "populated S d u" and "Opregion \<notin> S"
  shows "populated (insert Opregion S) d (note_opregion left u)" and "igd_opregion (note_opregion left u) = left"
proof -
  have "Opregion \<notin> late" by (simp add: late_def)
  with assms show "populated (insert Opregion S) d (note_opregion left u)"
    "igd_opregion (note_opregion left u) = left"
    by (auto simp: note_opregion_def populated_def ledger_def vga_res_def)
qed

lemma opregion_populated:
  assumes run: "setup_opregion env (quirk_setup env u) = Inr (e, t)" and p: "populated S d u" and S: "Opregion \<notin> S"
  shows "populated (insert Opregion S) d t \<and> igd_opregion t = opregion_left env e
    \<and> (\<forall>x. e = Some x \<longrightarrow> early_error x \<or> x = Opregion_Failed)"
proof -
  have plain: "note_opregion False u = u" by (simp add: note_opregion_def)
  consider (same) "t = quirk_setup env u" "igd_opregion t \<or> \<not> want_opregion env" "e = None"
    | (bad) x where "t = quirk_setup env u" "\<not> igd_opregion t" "e = Some x" "early_error x"
    | (init) "\<not> quirk_opregion env" "want_opregion env" "t = note_opregion (snd (opregion_init env)) u"
        "e = None \<or> e = Some Opregion_Failed"
    using run note_populated(2) [OF p S] plain
    by (auto simp: setup_opregion_def quirk_setup_def early_error_def Let_def split: if_splits prod.splits)
  then show ?thesis
  proof cases
    case same
    with note_populated [OF p S, of "quirk_opregion env"] show ?thesis
      by (auto simp: quirk_setup_def opregion_left_def)
  next
    case bad
    with note_populated [OF p S, of "quirk_opregion env"] early_opregion show ?thesis
      by (auto simp: quirk_setup_def)
  next
    case init
    with note_populated [OF p S, of "snd (opregion_init env)"] show ?thesis
      by (auto simp: opregion_left_def)
  qed
qed

lemma emulate_msi_books: "emulate_msi env d = Inr (e, t) \<Longrightarrow> e = None \<and> books t = books d \<and> irqs t = irqs d"
  by (auto simp: emulate_msi_def books_def elim!: bindL_cases dest!: with_space_books)

text \<open>The part of \<open>vfio_realize\<close> whose failure leads to \<open>out_teardown\<close>, before that.\<close>

lemma intx_outcome:
  assumes run: "start_intx env h u = Inr (e, t)" and p: "populated S d u" and S: "S = full - {Mmap_Timer, Routing_Notifier, Err_Fd, Req_Fd}"
  obtains X where "ledger full t" and "set (kept t) \<inter> late = vga_res t \<union> X" and "main_loop t = main_loop d"
    and "X = {} \<and> e = None \<and> irqs t = irqs u \<or>
      X = {Mmap_Timer, Routing_Notifier} \<and> (\<exists>r. vfio_intx_enable h (irqs u) = Inr (r, irqs t)
        \<and> (r = 0 \<and> e = None \<or> r \<noteq> 0 \<and> e = Some (Intx_Failed r)))"
    and "req_enabled t = req_enabled d" and "igd_opregion t = igd_opregion u"
proof -
  have n: "Mmap_Timer \<notin> set (kept u)" "Routing_Notifier \<notin> set (kept u)" using p S by (auto simp: populated_def ledger_def)
  have f: "ledger full u" using p S by (auto simp: populated_def ledger_def)
  from run consider (none) "t = u" "e = None"
    | (on) r s where "vfio_intx_enable h (irqs u) = Inr (r, s)"
        "t = (keep Routing_Notifier (keep Mmap_Timer u))\<lparr>irqs := s\<rparr>"
        "r = 0 \<and> e = None \<or> r \<noteq> 0 \<and> e = Some (Intx_Failed r)"
    by (auto simp: start_intx_def Let_def split: sum.splits if_splits)
  then show thesis
  proof cases
    case none
    with f p show thesis by (intro that [of "{}"]) (auto simp: populated_def)
  next
    case on
    have "ledger full t" using f n on(2) by (auto simp: ledger_def full_def late_def)
    moreover have "set (kept t) \<inter> late = vga_res t \<union> {Mmap_Timer, Routing_Notifier}"
      using p on(2) by (auto simp: populated_def late_def vga_res_def split: if_splits)
    ultimately show thesis
      using p on by (intro that [of "{Mmap_Timer, Routing_Notifier}"]) (auto simp: populated_def)
  qed
qed

text \<open>Dropping some of what only \<open>vfio_exitfn\<close> or the clean-up gives back.\<close>

lemma ledger_late:
  assumes "ledger S d" and "distinct (kept t)" and "set (kept d) - late \<subseteq> set (kept t) \<and> set (kept t) \<subseteq> set (kept d)"
    and "with_vga t = with_vga d" and "has_group t = has_group d" and "igd_opregion t = igd_opregion d"
  shows "ledger S t"
proof -
  have "Vga \<notin> late" "Base_Device \<notin> late" "Group \<notin> late" "Opregion \<notin> late" by (simp_all add: late_def)
  with assms show ?thesis unfolding ledger_def by blast
qed

lemma teardown_ledger:
  assumes "ledger full t" and "set (kept t) \<inter> late = vga_res t \<union> X" and "Vga_Registered \<notin> X"
  shows "ledger full (teardown t)" and "set (kept (teardown t)) \<inter> late = X - {Routing_Notifier}"
    and "main_loop (teardown t) = main_loop t" and "irqs (teardown t) = irqs t"
    and "igd_opregion (teardown t) = igd_opregion t"
proof -
  have d: "distinct (kept t)" using assms(1) by (simp add: ledger_def)
  have k: "set (kept (teardown t)) = set (kept t) - {Routing_Notifier} - vga_res t"
    using d by (auto simp: teardown_def vfio_bars_exit_def vga_res_def)
  show "set (kept (teardown t)) \<inter> late = X - {Routing_Notifier}"
    using assms(2,3) by (auto simp: k vga_res_def split: if_splits)
  have f: "with_vga (teardown t) = with_vga t" "has_group (teardown t) = has_group t"
    "igd_opregion (teardown t) = igd_opregion t" "distinct (kept (teardown t))"
    using d by (simp_all add: teardown_def vfio_bars_exit_def)
  show "ledger full (teardown t)"
    using assms(1) f(4) _ f(1-3) by (rule ledger_late) (auto simp: k vga_res_def late_def)
  show "main_loop (teardown t) = main_loop t" and "irqs (teardown t) = irqs t"
    and "igd_opregion (teardown t) = igd_opregion t"
    by (simp_all add: teardown_def vfio_bars_exit_def)
qed

lemma finish_cases:
  assumes run: "bindL (add_caps env u) (\<lambda>d. bindL (setup_opregion env (quirk_setup env d)) (\<lambda>d.
      bindL (emulate_msi env d) (\<lambda>d. start_intx env h d))) = Inr (e, t)"
    and p: "populated S d u" and S: "Opregion \<notin> S"
  obtains x where "e = Some x" and "early_error x \<or> x = Opregion_Failed" and "populated (insert Opregion S) d t"
    and "igd_opregion t = opregion_left env e"
  | v where "start_intx env h v = Inr (e, t)" and "populated (insert Opregion S) d v"
    and "igd_opregion v = opregion_left env None"
  using run
proof (cases rule: bindL_cases)
  case (1 x)
  from caps_books [OF 1(1)] populated_books [OF p] have t: "populated S d t" by blast
  then have "populated (insert Opregion S) d t" "\<not> igd_opregion t"
    using S by (auto simp: populated_def ledger_def)
  with 1(2) caps_books [OF 1(1)] early_opregion [of x env] that(1) show thesis by auto
next
  case a: (2 v)
  from caps_books [OF a(1)] populated_books [OF p] have v: "populated S d v" by blast
  from a(2) show thesis
  proof (cases rule: bindL_cases)
    case (1 x)
    with opregion_populated [OF 1(1) v S] that(1) show thesis by auto
  next
    case b: (2 w)
    note w = opregion_populated [OF b(1) v S]
    from b(2) show thesis
    proof (cases rule: bindL_cases)
      case (1 x)
      with emulate_msi_books [OF 1(1)] show thesis by simp
    next
      case (2 y)
      from emulate_msi_books [OF 2(1)] have y: "books y = books w" "irqs y = irqs w" by auto
      from populated_books [OF conjunct1 [OF w] y] booksD(7) [OF y(1)] w that(2) [OF 2(2)] show thesis by auto
    qed
  qed
qed

text \<open>What is left when \<open>vfio_realize\<close> fails, besides what finalizing gives back.\<close>

definition leaks :: "life_error \<Rightarrow> vdev \<Rightarrow> life_res set" where
  "leaks e d =
     (case e of Intx_Failed _ \<Rightarrow> {Mmap_Timer}
      | Config_Unread \<Rightarrow> vga_res d | Bad_Id _ \<Rightarrow> vga_res d | Msix_Failed \<Rightarrow> vga_res d
      | _ \<Rightarrow> {})"

lemma early_leaks: "early_error x \<Longrightarrow> leaks x d = {}"
  by (cases x) (auto simp: early_error_def leaks_def)

lemma emptied_leaks: "emptied x \<Longrightarrow> leaks x d = vga_res d"
  by (auto simp: emptied_def leaks_def)

definition realized :: "realize_env \<Rightarrow> vfio_host \<Rightarrow> vdev \<Rightarrow> life_error option \<Rightarrow> vdev \<Rightarrow> bool" where
  "realized env h d e t \<longleftrightarrow> ledger full t \<and> igd_opregion t = opregion_left env e \<and>
     (case e of
        None \<Rightarrow> set (kept t) \<inter> late \<subseteq> vga_res t \<union> {Mmap_Timer, Routing_Notifier}
          \<and> (irqs t = irqs d \<or> vfio_intx_enable h (irqs d) = Inr (0, irqs t))
          \<and> main_loop t = main_loop d \<and> req_enabled t = req_enabled d
      | Some x \<Rightarrow> set (kept t) \<inter> late = leaks x t \<and> main_loop t = main_loop d
          \<and> (irqs t = irqs d \<or> (\<exists>r. r \<noteq> 0 \<and> vfio_intx_enable h (irqs d) = Inr (r, irqs t))))"

lemma finish_outcome:
  assumes run: "finish_realize env h u = Inr (e, t)"
    and p: "populated (basic \<union> {Vga, Vga_Registered, Emulated_Bits, Msix_Info}) d u"
  shows "realized env h d e t"
proof -
  let ?T = "basic \<union> {Vga, Vga_Registered, Emulated_Bits, Msix_Info}"
  let ?S = "insert Opregion ?T"
  have T: "Opregion \<notin> ?T" by (auto simp: basic_def)
  have S: "?S = full - {Mmap_Timer, Routing_Notifier, Err_Fd, Req_Fd}"
    by (auto simp: full_def late_def basic_def)
  from run obtain w where
    w: "bindL (add_caps env u) (\<lambda>d. bindL (setup_opregion env (quirk_setup env d)) (\<lambda>d.
      bindL (emulate_msi env d) (\<lambda>d. start_intx env h d))) = Inr (e, w)" and t: "t = (if e = None then w else teardown w)"
    by (auto simp: finish_realize_def or_teardown_def bindR_eq_Inr)
  from w p T show ?thesis
  proof (cases rule: finish_cases)
    case (1 x)
    have l: "ledger full w" "set (kept w) \<inter> late = vga_res w \<union> {}" "main_loop w = main_loop d" "irqs w = irqs d"
      using 1(3) S by (auto simp: populated_def ledger_def)
    note l2 = teardown_ledger [OF l(1,2)]
    have "leaks x t = {}" using 1(2) early_leaks by (auto simp: leaks_def)
    with 1(1,4) t l(3,4) l2 show ?thesis by (simp add: realized_def)
  next
    case (2 v)
    note v = 2(2)
    have iv: "irqs v = irqs d" using v by (simp add: populated_def)
    from intx_outcome [OF 2(1) v S] obtain X where X: "ledger full w" "set (kept w) \<inter> late = vga_res w \<union> X"
      "main_loop w = main_loop d" "req_enabled w = req_enabled d" "igd_opregion w = igd_opregion v"
      "X = {} \<and> e = None \<and> irqs w = irqs v \<or>
        X = {Mmap_Timer, Routing_Notifier} \<and> (\<exists>r. vfio_intx_enable h (irqs v) = Inr (r, irqs w)
        \<and> (r = 0 \<and> e = None \<or> r \<noteq> 0 \<and> e = Some (Intx_Failed r)))" by metis
    show ?thesis
    proof (cases e)
      case None
      with X t iv 2(3) show ?thesis by (auto simp: realized_def)
    next
      case (Some x)
      with X(6) iv obtain r where r: "X = {Mmap_Timer, Routing_Notifier}" "vfio_intx_enable h (irqs d) = Inr (r, irqs w)"
        "r \<noteq> 0" "x = Intx_Failed r" by auto
      have "Vga_Registered \<notin> X" using r(1) by simp
      note l2 = teardown_ledger [OF X(1,2) this]
      have "opregion_left env e = opregion_left env None" using Some r(4) by (simp add: opregion_left_def)
      with Some r t X(3,5) 2(3) l2 show ?thesis by (auto simp: realized_def leaks_def)
    qed
  qed
qed

section \<open>The whole of \<open>vfio_realize\<close>\<close>

lemma populated_realized:
  "populated S d t \<Longrightarrow> S \<subseteq> full - {Opregion} \<Longrightarrow> leaks x t = vga_res t \<Longrightarrow> \<not> opregion_left env (Some x) \<Longrightarrow>
    realized env h d (Some x) t"
  by (auto simp: populated_def realized_def ledger_def)

lemma attach_error:
  "attach env d = Inr (Some x, t) \<Longrightarrow> early_error x"
  by (auto simp: attach_def find_group_def early_error_def Let_def
      split: if_splits sum.splits option.splits prod.splits)

lemma choose_error: "choose_path d = Inr (Some x, t) \<Longrightarrow> early_error x"
  by (auto simp: choose_path_def early_error_def split: if_splits)

lemma early_realized:
  assumes "early_error x" and "ledger basic t" and "\<not> with_vga t" and "main_loop t = main_loop d" and "irqs t = irqs d"
  shows "realized env h d (Some x) t"
proof -
  have "Opregion \<notin> basic" by (auto simp: basic_def)
  then show ?thesis
    using assms early_leaks [OF assms(1)] early_opregion [OF assms(1)] ledger_basic_late [OF assms(2)]
    by (auto simp: realized_def ledger_def full_def)
qed

lemma middle_outcome:
  assumes run: "bindL (prepare_space env u) (\<lambda>d. bindL (find_msix_table env d) (\<lambda>d.
      finish_realize env h (vfio_bars_setup env d))) = Inr (e, t)"
    and p: "populated (basic \<union> {Vga, Vga_Registered}) d u"
  shows "realized env h d e t"
proof -
  have sub: "basic \<union> {Vga, Vga_Registered, Emulated_Bits} \<subseteq> full - {Opregion}"
    "basic \<union> {Vga, Vga_Registered, Emulated_Bits, Msix_Info} \<subseteq> full - {Opregion}"
    by (auto simp: full_def late_def basic_def)
  from run show ?thesis
  proof (cases rule: bindL_cases)
    case (1 x)
    with prepare_outcome [OF 1(1) p] emptied_leaks emptied_opregion populated_realized [OF _ sub(1)] show ?thesis by blast
  next
    case (2 v)
    from prepare_outcome [OF 2(1) p] have v: "populated (basic \<union> {Vga, Vga_Registered, Emulated_Bits}) d v" by simp
    from 2(2) show ?thesis
    proof (cases rule: bindL_cases)
      case (1 x)
      with msix_outcome [OF 1(1) v] emptied_leaks emptied_opregion populated_realized [OF _ sub(2)] show ?thesis by blast
    next
      case (2 w)
      from msix_outcome [OF 2(1) v] bars_setup_books populated_books have
        "populated (basic \<union> {Vga, Vga_Registered, Emulated_Bits, Msix_Info}) d (vfio_bars_setup env w)" by blast
      from finish_outcome [OF 2(2) this] show ?thesis .
    qed
  qed
qed

definition realize_core :: "realize_env \<Rightarrow> vfio_host \<Rightarrow> vdev \<Rightarrow> step" where
  "realize_core env h d =
     bindL (choose_path d) (\<lambda>d. bindL (attach env d) (\<lambda>d. bindL (vfio_populate_device env d) (\<lambda>d.
     bindL (prepare_space env d) (\<lambda>d. bindL (find_msix_table env d) (\<lambda>d.
     finish_realize env h (vfio_bars_setup env d))))))"

lemma bindL_assoc: "bindL (bindL m f) g = bindL m (\<lambda>d. bindL (f d) g)"
  by (auto simp: bindL_def bindR_def split: sum.splits option.splits)

lemma realize_alt:
  "vfio_realize env h d = bindL (realize_core env h d)
     (\<lambda>d. ok (vfio_register_req_notifier env (vfio_register_err_notifier env d)))"
  by (simp add: vfio_realize_def realize_core_def bindL_assoc)

lemma realize_core_outcome:
  assumes run: "realize_core env h d = Inr (e, t)" and new: "fresh d"
  shows "realized env h d e t"
  using run unfolding realize_core_def
proof (cases rule: bindL_cases)
  case (1 x)
  from choose_books [OF 1(1)] new have "ledger basic t" "\<not> with_vga t" "main_loop t = main_loop d" "irqs t = irqs d"
    by (auto simp: books_def fresh_def ledger_def)
  with early_realized choose_error 1 show ?thesis by blast
next
  case (2 u)
  from choose_books [OF 2(1)] new have u: "kept u = []" "\<not> with_vga u" "main_loop u = main_loop d" "irqs u = irqs d"
    "req_enabled u = req_enabled d" "\<not> igd_opregion u" by (auto simp: books_def fresh_def)
  from 2(2) show ?thesis
  proof (cases rule: bindL_cases)
    case (1 x)
    note a = attach_ledger [OF 1(1) u(1,2,6)]
    have "ledger basic t" by (rule ledger_mono [of "{Name, Group, Base_Device}"]) (use a in \<open>auto simp: basic_def\<close>)
    with a u 1 early_realized [OF attach_error] show ?thesis by auto
  next
    case (2 v)
    note a = attach_ledger [OF 2(1) u(1,2,6)]
    from 2(2) show ?thesis
    proof (cases rule: bindL_cases)
      case (1 x)
      from populate_outcome [OF 1(1)] a have p: "populated (basic \<union> {Vga, Vga_Registered}) v t" "early_error x" "\<not> with_vga t"
        using 1(2) by auto
      then have "populated (basic \<union> {Vga, Vga_Registered}) d t" using a u by (simp add: populated_def)
      then show ?thesis using p(2,3) 1(2) early_leaks early_opregion [OF p(2)]
        by (auto intro!: populated_realized simp: vga_res_def full_def late_def basic_def)
    next
      case (2 w)
      from populate_outcome [OF 2(1)] a have "populated (basic \<union> {Vga, Vga_Registered}) v w" by auto
      then have "populated (basic \<union> {Vga, Vga_Registered}) d w" using a u by (simp add: populated_def)
      from middle_outcome [OF 2(2) this] show ?thesis .
    qed
  qed
qed

end
