(* ===== verification/Vfio_Life_Demo.thy ===== *)
theory Vfio_Life_Demo
  imports Vfio_Ledger
begin

text \<open>
  An example device for \<open>vfio_realize\<close>, with a VGA region, an OpRegion and 64 bytes of configuration
  space, on a host where every call succeeds, and on one that has no event descriptor for INTx.
\<close>

section \<open>The device and its host\<close>

definition small_bar :: vfio_region where
  "small_bar = \<lparr>region_size = 2, mmaps = []\<rparr>"

text \<open>
  A device with a VGA region, a graphics OpRegion and 64 bytes of configuration space, for which every
  call succeeds.
\<close>

definition demo_caps :: cfg_env where
  "demo_caps = \<lparr>add_capability = (\<lambda>c i p n. (int p, c)), msi_control = (\<lambda>p. None),
     msi_init = (\<lambda>c p n a b. (0, c)), msix_init = (\<lambda>c p. (0, c)), bus_path = [(True, False)],
     is_express = False, add_ext_capability = (\<lambda>c i v p n. c)\<rparr>"

definition demo_env :: realize_env where
  "demo_env = \<lparr>path_exists = (\<lambda>p. True), base_name = (\<lambda>p. ''26''), read_link = (\<lambda>p. (2, ''26'')),
     group_devices = (\<lambda>n. Some []), get_device = 0, is_pci = True, num_regions = 9, num_irqs = 5,
     region_setup = (\<lambda>i. Inr small_bar), config_region = Inr 64, vga_region = Inr (True, True, 0xc0000),
     err_info = (0, 1), req_info = (0, 1), pci_space = (\<lambda>e. 64), config_read = Inr (replicate 64 0),
     multifunction = False, rom_file = True, rom_bar = False, rom_blacklisted = False, rom_opt = False,
     rom_moved = [], rom_probed = 0, page_size = 1, find_msix = (\<lambda>c. 0), msix_words = (None, None, None),
     bar_word = (\<lambda>i. Some 0), caps = demo_caps, hotplugged = False, opregion_info = 0,
     opregion_init = (0, True), quirk_opregion = False, msix_at = (\<lambda>c. None), msi_at = (\<lambda>c. None), default_read = (\<lambda>c i n. 0),
     pin_read = Inr 1, want_vga = True, want_req = True, want_opregion = True,
     notifier_ok = (\<lambda>r. True), set_irqs_ok = (\<lambda>r. True)\<rparr>"

definition demo_vdev :: vdev where
  "demo_vdev = \<lparr>sysfsdev = Some ''dev'', host_id = (0, 3, 0, 1), dev_name = '''',
     has_group = False,
     space = \<lparr>config = replicate 64 0, wmask = replicate 64 0, emulated = [], pm_pos = 0, flr_seen = False,
       pm_reset_seen = False, msi_len = 0, exp_pos = 0\<rparr>,
     irqs = demo_start, regions = replicate 6 small_bar, registered = [], msix_cache = None, rom_state = Rom_None,
     vendor = - 1, device = - 1, sub_vendor = - 1, sub_device = - 1, with_vga = False, express = False,
     dev_space = 0, igd_opregion = False, pci_aer = False, req_enabled = False, err_armed = False, req_armed = False,
     main_loop = [], kept = []\<rparr>"

text \<open>The same host without a descriptor for INTx.\<close>

definition poor_host :: vfio_host where
  "poor_host = demo_host\<lparr>answer := (\<lambda>l c. if c = Notifier_Init For_Intx then - EIO else answer demo_host l c)\<rparr>"

lemma demo_fresh: "fresh demo_vdev" "fresh (demo_vdev\<lparr>vendor := 0x10000\<rparr>)"
  by (simp_all add: fresh_def demo_vdev_def demo_start_def irq_initial_def noting_def)

lemma poor_ok: "host_ok poor_host"
  using demo_ok by (auto simp: host_ok_def poor_host_def)

section \<open>Realizing it\<close>

lemma demo_env_fields [simp]: "path_exists demo_env p" "group_devices demo_env n = Some []" "get_device demo_env = 0"
 "is_pci demo_env" "num_regions demo_env = 9" "num_irqs demo_env = 5" "region_setup demo_env i = Inr small_bar"
 "config_region demo_env = Inr 64" "vga_region demo_env = Inr (True, True, 0xc0000)" "err_info demo_env = (0,1)"
 "pci_space demo_env b = 64" "config_read demo_env = Inr (replicate 64 0)" "\<not> multifunction demo_env"
 "find_msix demo_env c = 0" "msix_words demo_env = (None, None, None)" "want_vga demo_env" "want_opregion demo_env"
 "\<not> hotplugged demo_env" "opregion_info demo_env = 0" "opregion_init demo_env = (0, True)" "\<not> quirk_opregion demo_env"
 "caps demo_env = demo_caps" "msix_at demo_env c = None" "msi_at demo_env c = None" "pin_read demo_env = Inr 1"
 "default_read demo_env c i k = 0"
  by (simp_all add: demo_env_def)

lemma demo_group: "find_group demo_env d = Inr 26"
proof -
  have "scan_int ''26'' = Some 26" by code_simp
  then show ?thesis by (simp add: find_group_def demo_env_def PATH_MAX_def)
qed

lemma demo_attach: "attach demo_env d = ok (keep Base_Device (keep Group (keep Name (d\<lparr>dev_name := base_name demo_env (the (sysfsdev d))\<rparr>))\<lparr>has_group := True\<rparr>))"
  by (simp add: attach_def demo_group Let_def)

lemma demo_populate: "\<exists>t. vfio_populate_device demo_env d = ok t \<and> irqs t = irqs d \<and> config (space t) = config (space d)
  \<and> wmask (space t) = wmask (space d) \<and> dev_space t = 64 \<and> with_vga t \<and> vendor t = vendor d \<and> device t = device d \<and> sub_vendor t = sub_vendor d \<and> sub_device t = sub_device d"
  by (simp add: vfio_populate_device_def populate_config_def vfio_populate_vga_def populate_aer_def keep_def upt_rec)

lemma demo_prepare: 
  assumes "length (config (space d)) = 64" "length (wmask (space d)) = 64" "dev_space d = 64"
   "vendor d = -1" "device d = -1" "sub_vendor d = -1" "sub_device d = -1"
  shows "\<exists>t. prepare_space demo_env d = ok t \<and> irqs t = irqs d \<and> config (space t) ! 6 = 0
  \<and> length (config (space t)) = 64 \<and> length (emulated (space t)) = 64 \<and> emulated (space t) ! 0x3d = 0"
  using assms by (simp add: prepare_space_def read_space_def start_emulation_def emulate_ids_def override_id_def read_id_def
   set_header_def clear_bars_def with_space_def fill_def get_word_def get_byte_def set_byte_def keep_def PCI_ANY_ID_def nth_append)

lemma demo_finish:
  assumes "irqs d = demo_start" "config (space d) ! 6 = 0" "length (config (space d)) = 64" "length (emulated (space d)) = 64"
   "emulated (space d) ! 0x3d = 0" "vfio_intx_enable h demo_start = Inr (r, s)"
  shows "\<exists>t. finish_realize demo_env h (vfio_bars_setup demo_env d) = (if r = 0 then ok t else err (Intx_Failed r) t)"
proof -
  have "space (foldl (vfio_bar_setup demo_env) u is) = space u" for u "is"
    by (induction "is" arbitrary: u) (auto simp: vfio_bar_setup_def split: option.splits)
  then have b: "space (vfio_bars_setup demo_env d) = space d" by (simp add: vfio_bars_setup_def)
  have b2: "irqs (vfio_bars_setup demo_env d) = irqs d" using bars_setup_books by simp
  show ?thesis using assms
    by (cases "r = 0"; cases "igd_opregion (vfio_bars_setup demo_env d)"; simp add: finish_realize_def quirk_setup_def note_opregion_def add_caps_def vfio_add_capabilities_def demo_caps_def get_byte_def setup_opregion_def
      emulate_msi_def emulate_range_def with_space_def start_intx_def vfio_pci_read_config_def len_mask_def b b2 or_teardown_def ok_def err_def bindL_def)
qed
text \<open>The whole, up to the registration of the notifiers.\<close>

lemma demo_realize:
  assumes "vfio_intx_enable h demo_start = Inr (r, s)"
  shows "\<exists>t. realize_core demo_env h demo_vdev = (if r = 0 then ok t else err (Intx_Failed r) t)"
proof -
  let ?d = "keep Base_Device (keep Group (keep Name (demo_vdev\<lparr>dev_name := base_name demo_env ''dev''\<rparr>))\<lparr>has_group := True\<rparr>)"
  have f: "irqs ?d = demo_start" "length (config (space ?d)) = 64" "length (wmask (space ?d)) = 64"
    "vendor ?d = - 1" "device ?d = - 1" "sub_vendor ?d = - 1" "sub_device ?d = - 1"
    by (simp_all add: demo_vdev_def keep_def)
  from demo_populate [of ?d] f obtain t where t: "vfio_populate_device demo_env ?d = ok t" "irqs t = demo_start"
    "length (config (space t)) = 64" "length (wmask (space t)) = 64" "dev_space t = 64"
    "vendor t = - 1" "device t = - 1" "sub_vendor t = - 1" "sub_device t = - 1" by auto
  from demo_prepare [OF t(3-9)] t(2) obtain u where u: "prepare_space demo_env t = ok u" "irqs u = demo_start"
    "config (space u) ! 6 = 0" "length (config (space u)) = 64" "length (emulated (space u)) = 64"
    "emulated (space u) ! 0x3d = 0" by auto
  have "find_msix_table demo_env u = ok u" by (simp add: find_msix_table_def vfio_msix_early_setup_def)
  moreover have "choose_path demo_vdev = ok demo_vdev" by (simp add: choose_path_def demo_vdev_def)
  moreover have "attach demo_env demo_vdev = ok ?d" by (simp add: demo_attach demo_vdev_def)
  ultimately show ?thesis
    using t(1) u(1) demo_finish [OF u(2-6) assms] by (simp add: realize_core_def)
qed

lemma demo_bad_id:
  "\<exists>t. realize_core demo_env h (demo_vdev\<lparr>vendor := 0x10000\<rparr>) = err (Bad_Id 0) t \<and> with_vga t"
proof -
  let ?v = "demo_vdev\<lparr>vendor := 0x10000\<rparr>"
  let ?d = "keep Base_Device (keep Group (keep Name (?v\<lparr>dev_name := base_name demo_env ''dev''\<rparr>))\<lparr>has_group := True\<rparr>)"
  have "config (space ?d) = replicate 64 0" "vendor ?d = 0x10000" by (simp_all add: demo_vdev_def keep_def)
  with demo_populate [of ?d] obtain t where t: "vfio_populate_device demo_env ?d = ok t"
    "config (space t) = replicate 64 0" "dev_space t = 64" "vendor t = 0x10000" "with_vga t" by auto
  have "\<exists>u. prepare_space demo_env t = err (Bad_Id 0) u \<and> with_vga u"
    using t(2-5) by (simp add: prepare_space_def read_space_def start_emulation_def emulate_ids_def override_id_def
        with_space_def fill_def keep_def PCI_ANY_ID_def)
  moreover have "choose_path ?v = ok ?v" by (simp add: choose_path_def demo_vdev_def)
  moreover have "attach demo_env ?v = ok ?d" by (simp add: demo_attach demo_vdev_def)
  ultimately show ?thesis using t(1) by (auto simp: realize_core_def)
qed

end
