(* ===== verification/Vfio_Life_Props.thy ===== *)
theory Vfio_Life_Props
  imports Vfio_Life_Demo
begin

text \<open>
  The two ends of a passthrough device's life: after a successful \<open>vfio_realize\<close>, any activity of the
  guest and of the interrupts, \<open>vfio_exitfn\<close> and \<open>vfio_instance_finalize\<close>, only the copy of the graphics
  OpRegion is left of what it obtained, as a comment of \<open>vfio_instance_finalize\<close> says; after a failed \<open>vfio_realize\<close>, of which only \<open>vfio_instance_finalize\<close> follows, two of the error
  paths leave something behind.
\<close>

section \<open>Finalizing and exiting\<close>

lemma drop_regions:
  "distinct (kept d) \<Longrightarrow> distinct (kept (foldl (\<lambda>d i. drop_res (Region i) d) d is))
    \<and> set (kept (foldl (\<lambda>d i. drop_res (Region i) d) d is)) = set (kept d) - Region ` set is
    \<and> with_vga (foldl (\<lambda>d i. drop_res (Region i) d) d is) = with_vga d
    \<and> has_group (foldl (\<lambda>d i. drop_res (Region i) d) d is) = has_group d
    \<and> main_loop (foldl (\<lambda>d i. drop_res (Region i) d) d is) = main_loop d
    \<and> irqs (foldl (\<lambda>d i. drop_res (Region i) d) d is) = irqs d
    \<and> igd_opregion (foldl (\<lambda>d i. drop_res (Region i) d) d is) = igd_opregion d"
  by (induction "is" arbitrary: d) auto

definition opregion_res :: "vdev \<Rightarrow> life_res set" where
  "opregion_res d = (if igd_opregion d then {Opregion} else {})"

lemma finalize_ledger:
  assumes "ledger full d"
  shows "set (kept (vfio_instance_finalize d)) = set (kept d) \<inter> late \<union> opregion_res d"
    and "distinct (kept (vfio_instance_finalize d))"
    and "irqs (vfio_instance_finalize d) = irqs d" and "main_loop (vfio_instance_finalize d) = main_loop d"
proof -
  define u where "u = foldl (\<lambda>d i. drop_res (Region i) d) d [0..<6]"
  have dist: "distinct (kept d)" using assms by (simp add: ledger_def)
  have u: "distinct (kept u)" "set (kept u) = set (kept d) - Region ` {0..<6}" "with_vga u = with_vga d"
    "has_group u = has_group d" "main_loop u = main_loop d" "irqs u = irqs d"
    using drop_regions [OF dist, of "[0..<6]"] unfolding u_def by auto
  have b: "vfio_bars_finalize d = (if with_vga u then drop_res Vga u else u)"
    by (simp only: vfio_bars_finalize_def u_def [symmetric] Let_def)
  have "set (kept (vfio_instance_finalize d)) = set (kept u) - (if with_vga d then {Vga} else {})
      - {Emulated_Bits, Name, Msix_Info} - (if has_group d then {Base_Device, Group} else {})"
    using u(1,3,4) by (auto simp: vfio_instance_finalize_def vfio_put_device_def b Let_def)
  also have "\<dots> = set (kept d) \<inter> late \<union> (set (kept d) \<inter> {Opregion})"
    using assms by (auto simp: u(2) ledger_def full_def basic_def late_def)
  also have "set (kept d) \<inter> {Opregion} = opregion_res d"
    using assms by (auto simp: ledger_def opregion_res_def)
  finally show "set (kept (vfio_instance_finalize d)) = set (kept d) \<inter> late \<union> opregion_res d" .
  show "distinct (kept (vfio_instance_finalize d))"
    using u(1) by (simp add: vfio_instance_finalize_def vfio_put_device_def b Let_def)
  show "irqs (vfio_instance_finalize d) = irqs d" and "main_loop (vfio_instance_finalize d) = main_loop d"
    using u by (simp_all add: vfio_instance_finalize_def vfio_put_device_def b Let_def)
qed











section \<open>Properties\<close>



text \<open>C24: when \<open>vfio_realize\<close> fails, finalizing the device gives back everything but the timer of
  INTx, when enabling INTx is what failed, the registered VGA regions, when the failure came after
  them and before the BARs were set up, and the copy of the graphics OpRegion, when the failure came
  after it was made (INTx could not be enabled, or \<open>vfio_pci_igd_opregion_init\<close> failed and left it).\<close>

theorem failed_realize_leaves:
  assumes "host_ok h" and "fresh d" and "vfio_realize env h d = Inr (Some e, t)"
  shows "set (kept (vfio_instance_finalize t)) =
      (case e of
         Intx_Failed _ \<Rightarrow> {Mmap_Timer} \<union>
           (if quirk_opregion env \<or> want_opregion env \<and> snd (opregion_init env) then {Opregion} else {})
       | Opregion_Failed \<Rightarrow> (if snd (opregion_init env) then {Opregion} else {})
       | Config_Unread \<Rightarrow> vga_res t | Bad_Id _ \<Rightarrow> vga_res t | Msix_Failed \<Rightarrow> vga_res t | _ \<Rightarrow> {})
    \<and> distinct (kept (vfio_instance_finalize t))
    \<and> held (irqs (vfio_instance_finalize t)) = [] \<and> main_loop (vfio_instance_finalize t) = []"
proof -
  have "realize_core env h d = Inr (Some e, t)"
    using assms(3) by (auto simp: realize_alt elim: bindL_cases)
  then have r: "realized env h d (Some e) t" using assms(2) by (rule realize_core_outcome)
  have new: "main_loop d = []" "irq_initial (irqs d)" using assms(2) by (auto simp: fresh_def)
  have "idle (irqs t)"
    using r new(2) intx_enable_failed [OF assms(1) accounted_intro(1)] initial_idle by (auto simp: realized_def)
  moreover have "ledger full t" "igd_opregion t = opregion_left env (Some e)" "set (kept t) \<inter> late = leaks e t"
    "main_loop t = []" using r new(1) by (auto simp: realized_def)
  ultimately show ?thesis using finalize_ledger [of t]
    by (cases e) (auto simp: idle_def leaks_def opregion_res_def opregion_left_def)
qed

theorem failed_realize_leaves_witness:
  "\<exists>e t v. vfio_realize demo_env poor_host demo_vdev = Inr (Some (Intx_Failed e), t)
    \<and> set (kept (vfio_instance_finalize t)) = {Mmap_Timer, Opregion}
    \<and> vfio_realize demo_env demo_host (demo_vdev\<lparr>vendor := 0x10000\<rparr>) = Inr (Some (Bad_Id 0), v)
    \<and> set (kept (vfio_instance_finalize v)) = {Vga_Registered}"
proof -
  have "case vfio_intx_enable poor_host demo_start of Inr (r, s) \<Rightarrow> r \<noteq> 0 | _ \<Rightarrow> False" by code_simp
  then obtain r s where "vfio_intx_enable poor_host demo_start = Inr (r, s)" "r \<noteq> 0" by (auto split: sum.splits)
  from demo_realize [OF this(1)] this(2) obtain t where
    t: "vfio_realize demo_env poor_host demo_vdev = Inr (Some (Intx_Failed r), t)" by (auto simp: realize_alt)
  from demo_bad_id obtain v where
    v: "vfio_realize demo_env demo_host (demo_vdev\<lparr>vendor := 0x10000\<rparr>) = Inr (Some (Bad_Id 0), v)" "with_vga v"
    by (metis realize_alt bindL_ok(2) err_def)
  from failed_realize_leaves [OF poor_ok demo_fresh(1) t] failed_realize_leaves [OF demo_ok demo_fresh(2) v(1)] t v
  show ?thesis by (auto simp: vga_res_def)
qed

end
