(* ===== verification/Vfio_Vga.thy ===== *)
theory Vfio_Vga
  imports Vfio_Life
begin

text \<open>
  The legacy VGA ranges of a passthrough device and the handlers of its two notifiers, from
  \<open>hw/vfio/pci.c\<close>. An access to a range is one read or write of the device's VGA region; a size other
  than 1, 2 and 4 ends QEMU. The field \<open>fd_offset\<close> is where the region starts in the device file.
\<close>

record vga_range =
  fd_offset :: nat
  range_offset :: nat

datatype vga_fault = Hw_Error nat

definition access_size :: "nat \<Rightarrow> bool" where
  "access_size n \<longleftrightarrow> n = 1 \<or> n = 2 \<or> n = 4"

text \<open>The bytes of a number, least significant first: what the union holds after the conversion.\<close>

fun to_le :: "nat \<Rightarrow> u64 \<Rightarrow> u8 list" where
  "to_le 0 v = []"
| "to_le (Suc n) v = ucast v # to_le n (drop_bit 8 v)"

text \<open>The write that is made: where, and which bytes.\<close>

definition vfio_vga_write :: "vga_range \<Rightarrow> nat \<Rightarrow> u64 \<Rightarrow> nat \<Rightarrow> vga_fault + nat \<times> u8 list" where
  "vfio_vga_write r addr data n =
     (if access_size n then Inr (fd_offset r + range_offset r + addr, to_le n data) else Inl (Hw_Error n))"

text \<open>\<open>file\<close> gives the bytes that \<open>pread\<close> returns at an offset for a size.\<close>

definition vfio_vga_read :: "vga_range \<Rightarrow> (nat \<Rightarrow> nat \<Rightarrow> u8 list) \<Rightarrow> nat \<Rightarrow> nat \<Rightarrow> vga_fault + u64" where
  "vfio_vga_read r file addr n =
     (let bs = file (fd_offset r + range_offset r + addr) n in
      if length bs \<noteq> n then Inr (- 1)
      else if access_size n then Inr (le_bytes bs) else Inl (Hw_Error n))"

lemma length_to_le [simp]: "length (to_le n v) = n"
  by (induction n arbitrary: v) simp_all

lemma le_bytes_to_le: "n \<le> 8 \<Longrightarrow> le_bytes (to_le n v) = take_bit (8 * n) v"
proof (induction n arbitrary: v)
  case 0
  then show ?case by simp
next
  case (Suc n)
  have "le_bytes (to_le (Suc n) v) = or (ucast (ucast v :: u8)) (push_bit 8 (take_bit (8 * n) (drop_bit 8 v)))"
    using Suc by simp
  also have "\<dots> = take_bit (8 * Suc n) v"
    by (rule bit_word_eqI)
      (auto simp: bit_or_iff bit_ucast_iff bit_push_bit_iff bit_take_bit_iff bit_drop_bit_eq)
  finally show ?case .
qed

text \<open>What is written to a range is read back from it, cut to the size of the access.\<close>

lemma vga_read_write:
  assumes "vfio_vga_write r addr data n = Inr (at, bs)" and "file at n = bs"
  shows "vfio_vga_read r file addr n = Inr (take_bit (8 * n) data)"
proof -
  from assms(1) have n: "access_size n" and b: "bs = to_le n data" "at = fd_offset r + range_offset r + addr"
    by (auto simp: vfio_vga_write_def split: if_splits)
  from n have "n \<le> 8" by (auto simp: access_size_def)
  from le_bytes_to_le [OF this] n b assms(2) show ?thesis by (simp add: vfio_vga_read_def)
qed

section \<open>The handlers of the notifiers\<close>

datatype note_event = Stop_Vm | Unplug | Report_Error

text \<open>Each does nothing when the event descriptor was not signalled.\<close>

definition vfio_err_notifier_handler :: "bool \<Rightarrow> note_event list" where
  "vfio_err_notifier_handler signalled = (if \<not> signalled then [] else [Report_Error, Stop_Vm])"

definition vfio_req_notifier_handler :: "bool \<Rightarrow> bool \<Rightarrow> note_event list" where
  "vfio_req_notifier_handler signalled unplug_ok =
     (if \<not> signalled then [] else Unplug # (if unplug_ok then [] else [Report_Error]))"

end
