(* ===== verification/Mon_Str.thy ===== *)
theory Mon_Str
  imports C_Lib
begin

text \<open>
  The lexical layer of the human monitor (\<open>monitor.c\<close>): matching a name against a list of aliases,
  quoted strings, the approximate command-line splitter of the help and completion code, command
  names and the keys of an argument type string.

  A \<open>const char *\<close> into a text is the rest of the text up to its terminator: \<open>*p == '\0'\<close> is
  the empty list and \<open>p++\<close> is \<open>tl\<close>. A buffer of \<open>size\<close> bytes holds at most \<open>size - 1\<close> characters.
\<close>

abbreviation skip_spaces :: "string \<Rightarrow> string" where
  "skip_spaces \<equiv> dropWhile isspace_c"

section \<open>Alias lists\<close>

lemma dropWhile_Cons_less: "dropWhile P xs = y # ys \<Longrightarrow> length ys < length xs"
  using length_dropWhile_le [of P xs] by simp

function compare_cmd :: "string \<Rightarrow> string \<Rightarrow> bool" where
  "compare_cmd name list =
     (takeWhile (\<lambda>c. c \<noteq> CHR ''|'') list = name \<or>
      (case dropWhile (\<lambda>c. c \<noteq> CHR ''|'') list of [] \<Rightarrow> False | _ # p \<Rightarrow> compare_cmd name p))"
  by pat_completeness auto
termination
  by (relation "measure (\<lambda>(name, list). length list)") (auto dest: dropWhile_Cons_less)

declare compare_cmd.simps [simp del]

text \<open>What the alias list \<open>a|b|c\<close> stands for.\<close>

fun aliases :: "string list \<Rightarrow> string" where
  "aliases [] = []"
| "aliases [a] = a"
| "aliases (a # as) = a @ CHR ''|'' # aliases as"

lemma takeWhile_no_bar:
  "CHR ''|'' \<notin> set a \<Longrightarrow> takeWhile (\<lambda>c. c \<noteq> CHR ''|'') (a @ CHR ''|'' # x) = a"
  "CHR ''|'' \<notin> set a \<Longrightarrow> dropWhile (\<lambda>c. c \<noteq> CHR ''|'') (a @ CHR ''|'' # x) = CHR ''|'' # x"
  "CHR ''|'' \<notin> set a \<Longrightarrow> takeWhile (\<lambda>c. c \<noteq> CHR ''|'') a = a"
  "CHR ''|'' \<notin> set a \<Longrightarrow> dropWhile (\<lambda>c. c \<noteq> CHR ''|'') a = []"
  by (induction a) auto

lemma compare_cmd_aliases:
  "as \<noteq> [] \<Longrightarrow> \<forall>a \<in> set as. CHR ''|'' \<notin> set a \<Longrightarrow> compare_cmd n (aliases as) \<longleftrightarrow> n \<in> set as"
proof (induction as rule: aliases.induct)
  case (2 a)
  then show ?case by (subst compare_cmd.simps) (auto simp: takeWhile_no_bar)
next
  case (3 a b as)
  then show ?case by (subst compare_cmd.simps) (auto simp: takeWhile_no_bar)
qed simp

section \<open>Quoted strings\<close>

datatype str_error = Nothing_there | Unterminated | Bad_escape char

definition put_char :: "nat \<Rightarrow> string \<Rightarrow> char \<Rightarrow> string" where
  "put_char buf_size buf c = (if length buf < buf_size - 1 then buf @ [c] else buf)"

fun get_quoted :: "nat \<Rightarrow> string \<Rightarrow> string \<Rightarrow> str_error + string \<times> string" where
  "get_quoted sz buf [] = Inl Unterminated"
| "get_quoted sz buf (c # p) =
     (if c = CHR 0x22 then Inr (buf, p)
      else if c = CHR 0x5C then
        (case p of
           [] \<Rightarrow> Inl (Bad_escape CHR 0x00)
         | e # p' \<Rightarrow>
             if e = CHR ''n'' then get_quoted sz (put_char sz buf CHR 0x0A) p'
             else if e = CHR ''r'' then get_quoted sz (put_char sz buf CHR 0x0D) p'
             else if e = CHR 0x5C \<or> e = CHR 0x27 \<or> e = CHR 0x22
             then get_quoted sz (put_char sz buf e) p'
             else Inl (Bad_escape e))
      else get_quoted sz (put_char sz buf c) p)"

fun get_plain :: "nat \<Rightarrow> string \<Rightarrow> string \<Rightarrow> string \<times> string" where
  "get_plain sz buf [] = (buf, [])"
| "get_plain sz buf (c # p) =
     (if isspace_c c then (buf, c # p) else get_plain sz (put_char sz buf c) p)"

definition get_str :: "nat \<Rightarrow> string \<Rightarrow> str_error + string \<times> string" where
  "get_str buf_size pp =
     (case skip_spaces pp of
        [] \<Rightarrow> Inl Nothing_there
      | c # p \<Rightarrow> if c = CHR 0x22 then get_quoted buf_size [] p
                else Inr (get_plain buf_size [] (c # p)))"

lemma get_quoted_shorter: "get_quoted sz buf p = Inr (s, r) \<Longrightarrow> length r < length p"
proof (induction sz buf p rule: get_quoted.induct)
  case (2 sz buf c p)
  then show ?case by (cases p) (fastforce split: if_splits)+
qed simp

lemma get_plain_rest: "get_plain sz buf p = (s, r) \<Longrightarrow> r = dropWhile (\<lambda>c. \<not> isspace_c c) p"
  by (induction sz buf p rule: get_plain.induct) (auto split: if_splits)

lemma length_skip_spaces: "length (skip_spaces p) \<le> length p"
  by (simp add: length_dropWhile_le)

lemma skip_spaces_Cons: "skip_spaces p = c # q \<Longrightarrow> \<not> isspace_c c"
  by (metis hd_dropWhile list.discI list.sel(1))

lemma get_str_shorter:
  assumes "get_str sz p = Inr (s, r)"
  shows "length r < length p"
proof (cases "skip_spaces p")
  case Nil
  with assms show ?thesis by (simp add: get_str_def)
next
  case (Cons c q)
  have le: "length q < length p" using Cons length_skip_spaces [of p] by simp
  show ?thesis
  proof (cases "c = CHR 0x22")
    case True
    with assms Cons le show ?thesis by (auto simp: get_str_def dest: get_quoted_shorter)
  next
    case False
    with assms Cons have "r = dropWhile (\<lambda>c. \<not> isspace_c c) (c # q)"
      by (auto simp: get_str_def simp del: get_plain.simps dest: get_plain_rest)
    with skip_spaces_Cons [OF Cons] have "length r \<le> length q" by (simp add: length_dropWhile_le)
    with le show ?thesis by simp
  qed
qed

text \<open>The buffer is never overrun, whatever its size (at least one byte).\<close>

lemma put_char_bound: "0 < sz \<Longrightarrow> length buf < sz \<Longrightarrow> length (put_char sz buf c) < sz"
  by (auto simp: put_char_def)

lemma get_quoted_bound:
  "get_quoted sz buf p = Inr (s, r) \<Longrightarrow> length buf < sz \<Longrightarrow> length s < sz"
proof (induction sz buf p rule: get_quoted.induct)
  case (2 sz buf c p)
  then show ?case by (cases p) (auto simp: put_char_bound split: if_splits)
qed simp

lemma get_plain_bound: "get_plain sz buf p = (s, r) \<Longrightarrow> length buf < sz \<Longrightarrow> length s < sz"
  by (induction sz buf p rule: get_plain.induct) (auto simp: put_char_bound split: if_splits)

lemma get_str_bound: "get_str sz p = Inr (s, r) \<Longrightarrow> 0 < sz \<Longrightarrow> length s < sz"
  by (auto simp: get_str_def dest: get_quoted_bound get_plain_bound simp del: get_plain.simps split: list.splits if_splits)

text \<open>Writing a string in quotes, the escapes the reader knows.\<close>

definition escape_char :: "char \<Rightarrow> string" where
  "escape_char c =
     (if c = CHR 0x0A then [CHR 0x5C, CHR ''n'']
      else if c = CHR 0x0D then [CHR 0x5C, CHR ''r'']
      else if c = CHR 0x22 \<or> c = CHR 0x5C then [CHR 0x5C, c] else [c])"

definition quote_str :: "string \<Rightarrow> string" where
  "quote_str s = CHR 0x22 # concat (map escape_char s) @ [CHR 0x22]"

lemma get_quoted_escape:
  "get_quoted sz buf (concat (map escape_char s) @ CHR 0x22 # r) = Inr (foldl (put_char sz) buf s, r)"
  by (induction s arbitrary: buf) (auto simp: escape_char_def)

lemma foldl_put_char: "length buf \<le> sz - 1 \<Longrightarrow> foldl (put_char sz) buf s = take (sz - 1) (buf @ s)"
proof (induction s arbitrary: buf)
  case (Cons c s)
  show ?case
  proof (cases "length buf < sz - 1")
    case True
    then show ?thesis using Cons.IH [of "buf @ [c]"] by (simp add: put_char_def)
  next
    case False
    with Cons.prems have l: "length buf = sz - 1" by simp
    then show ?thesis using Cons.IH [of buf] by (simp add: put_char_def)
  qed
qed simp

lemma get_str_quote: "get_str sz (quote_str s @ r) = Inr (take (sz - 1) s, r)"
proof -
  have "\<not> isspace_c CHR 0x22" by (simp add: isspace_c_def)
  then show ?thesis
    by (simp add: get_str_def quote_str_def get_quoted_escape foldl_put_char)
qed

lemma get_plain_is: "get_plain sz buf (w @ r) = (foldl (put_char sz) buf w, r)"
  if "\<forall>c \<in> set w. \<not> isspace_c c" and "r = [] \<or> isspace_c (List.hd r)"
  using that
proof (induction w arbitrary: buf)
  case Nil
  then show ?case by (cases r) auto
qed simp

lemma get_str_word:
  assumes "w \<noteq> []" "\<forall>c \<in> set w. \<not> isspace_c c" "List.hd w \<noteq> CHR 0x22" "r = [] \<or> isspace_c (List.hd r)"
  shows "get_str sz (w @ r) = Inr (take (sz - 1) w, r)"
proof -
  from assms obtain c v where w: "w = c # v" by (cases w) auto
  have "get_str sz (w @ r) = Inr (get_plain sz [] (w @ r))"
    using assms by (simp add: w get_str_def)
  with assms get_plain_is [of w r sz "[]"] show ?thesis by (simp add: foldl_put_char)
qed

section \<open>Splitting a command line\<close>

definition MAX_ARGS :: nat where "MAX_ARGS = 16"

text \<open>\<open>args\<close> holds the arguments stored so far; the failing exits free them and return -1.\<close>

function parse_cmdline_loop :: "string list \<Rightarrow> string \<Rightarrow> string list option" where
  "parse_cmdline_loop args cmdline =
     (let p = skip_spaces cmdline
      in if p = [] then Some args
         else if MAX_ARGS \<le> length args then None
         else case get_str 1024 p of
             Inl _ \<Rightarrow> None
           | Inr (buf, p') \<Rightarrow> parse_cmdline_loop (args @ [buf]) p')"
  by pat_completeness auto
termination
proof (relation "measure (\<lambda>(args, p). length p)")
  fix args cmdline p r and x :: "string \<times> string" and buf p'
  assume "p = skip_spaces cmdline" and "get_str 1024 p = Inr x" and "(buf, p') = x"
  then have "length p' < length p" by (auto dest: get_str_shorter)
  with \<open>p = skip_spaces cmdline\<close> length_skip_spaces [of cmdline]
  show "((args @ [buf], p'), args, cmdline) \<in> measure (\<lambda>(args, p). length p)" by simp
qed simp

definition parse_cmdline :: "string \<Rightarrow> string list option" where
  "parse_cmdline cmdline = parse_cmdline_loop [] cmdline"

declare parse_cmdline_loop.simps [simp del]

lemma parse_cmdline_loop_quoted:
  "parse_cmdline_loop args (concat (map (\<lambda>s. quote_str s @ '' '') ws)) =
     (if length args + length ws \<le> MAX_ARGS then Some (args @ map (take 1023) ws) else None)"
  if "length args \<le> MAX_ARGS"
  using that
proof (induction ws arbitrary: args)
  case Nil
  then show ?case by (simp add: parse_cmdline_loop.simps)
next
  case (Cons w ws)
  let ?r = "concat (map (\<lambda>s. quote_str s @ '' '') ws)"
  let ?s = "quote_str w @ CHR '' '' # ?r"
  have sp: "skip_spaces ?s = ?s" "?s \<noteq> []"
    by (simp_all add: quote_str_def isspace_c_def)
  have sp2: "parse_cmdline_loop a (CHR '' '' # ?r) = parse_cmdline_loop a ?r" for a
    by (subst (1 2) parse_cmdline_loop.simps) (simp add: isspace_c_def)
  have step: "parse_cmdline_loop args ?s =
      (if MAX_ARGS \<le> length args then None else parse_cmdline_loop (args @ [take 1023 w]) ?r)"
    by (subst parse_cmdline_loop.simps) (simp only: Let_def sp get_str_quote sum.case prod.case sp2, simp)
  then show ?case using Cons.IH [of "args @ [take 1023 w]"] by simp
qed

text \<open>A command line of quoted words (each written with the escapes \<open>\n\<close>, \<open>\r\<close>, \<open>\"\<close>, \<open>\\\<close>)
  is split by \<open>parse_cmdline\<close> into exactly those words, each cut to the 1023 characters that the
  buffer holds, when there are at most \<open>MAX_ARGS\<close> of them, and is refused otherwise.\<close>

theorem quoted_line_splits:
  "parse_cmdline (concat (map (\<lambda>s. quote_str s @ '' '') ws)) =
     (if length ws \<le> MAX_ARGS then Some (map (take 1023) ws) else None)"
  using parse_cmdline_loop_quoted [of "[]" ws] by (simp add: parse_cmdline_def)

section \<open>Command names and argument types\<close>

text \<open>\<open>None\<close> is the blank command line; the name is cut to the buffer of \<open>nlen\<close> bytes.\<close>

definition get_command_name :: "nat \<Rightarrow> string \<Rightarrow> (string \<times> string) option" where
  "get_command_name nlen cmdline =
     (let pstart = skip_spaces cmdline;
          name = takeWhile (\<lambda>c. c \<noteq> CHR ''/'' \<and> \<not> isspace_c c) pstart
      in if pstart = [] then None
         else Some (take (nlen - 1) name, dropWhile (\<lambda>c. c \<noteq> CHR ''/'' \<and> \<not> isspace_c c) pstart))"

text \<open>The key in front of the next \<open>:\<close> and the type behind it; \<open>None\<close> when there is no further key.\<close>

definition key_get_info :: "string \<Rightarrow> (string \<times> string) option" where
  "key_get_info typ =
     (let t = (case typ of c # cs \<Rightarrow> if c = CHR '','' then cs else typ | [] \<Rightarrow> [])
      in case dropWhile (\<lambda>c. c \<noteq> CHR '':'') t of
           [] \<Rightarrow> None
         | _ # p \<Rightarrow> Some (takeWhile (\<lambda>c. c \<noteq> CHR '':'') t, p))"

lemma key_get_info_shorter: "key_get_info t = Some (k, r) \<Longrightarrow> length r < length t"
  by (auto simp: key_get_info_def Let_def split: list.splits if_splits dest!: dropWhile_Cons_less)

fun contains_at :: "string \<Rightarrow> string \<Rightarrow> bool" where
  "contains_at pat s = (take (length pat) s = pat \<or> (case s of [] \<Rightarrow> False | _ # t \<Rightarrow> contains_at pat t))"

declare contains_at.simps [simp del]

text \<open>\<open>is_valid_option(c, typestr)\<close>: at the end of the line \<open>*c\<close> is the terminator and \<open>option\<close> is \<open>"-"\<close>.\<close>

definition is_valid_option :: "string \<Rightarrow> string \<Rightarrow> bool" where
  "is_valid_option c typestr = contains_at (CHR ''-'' # take 1 c) typestr"

end
