(* ===== verification/Mon_Expr.thy ===== *)
theory Mon_Expr
  imports Mon_Str "HOL-Library.Signed_Division"
begin

text \<open>
  The integer expressions of the human monitor (\<open>get_expr\<close> of \<open>monitor.c\<close>): the recursive descent
  parser that evaluates as it reads, over \<open>int64_t\<close> values with wrap-around (the build compiles
  with \<open>-fwrapv\<close>). The global \<open>pch\<close> is the rest of the text, \<open>siglongjmp\<close> is an \<open>Inl\<close>. The
  division of the least value by -1 is a trap of the machine and not an error the parser reports.
  Fuel bounds the recursion; \<open>get_expr\<close> starts with enough of it.
\<close>

section \<open>Registers\<close>

datatype md_type = MD_TLONG | MD_I32 | MD_other

record monitor_def =
  md_name :: string
  md_offset :: nat
  md_get_value :: "(nat \<Rightarrow> u64) option"
  md_type :: md_type

text \<open>
  The guest side: the current CPU if there is one, the target's table if it has one, the CPU state
  read as a 32-bit or target-long value at an offset, and the target's own fallback
  \<open>target_get_monitor_def\<close> (\<open>Inl\<close> is its negative return).
\<close>

record target =
  has_cpu :: bool
  monitor_defs :: "monitor_def list option"
  env_i32 :: "nat \<Rightarrow> u32"
  env_tlong :: "nat \<Rightarrow> u64"
  target_get_monitor_def :: "string \<Rightarrow> int + u64"

fun md_value :: "target \<Rightarrow> monitor_def \<Rightarrow> u64" where
  "md_value tg md =
     (case md_get_value md of
        Some get \<Rightarrow> get (md_offset md)
      | None \<Rightarrow> (case md_type md of
            MD_I32 \<Rightarrow> scast (env_i32 tg (md_offset md))
          | MD_TLONG \<Rightarrow> env_tlong tg (md_offset md)
          | MD_other \<Rightarrow> 0))"

definition get_monitor_def :: "target \<Rightarrow> string \<Rightarrow> int + u64" where
  "get_monitor_def tg name =
     (case monitor_defs tg of
        None \<Rightarrow> Inl (- 1)
      | Some mds \<Rightarrow>
          if \<not> has_cpu tg then Inl (- 1)
          else case find (\<lambda>md. compare_cmd name (md_name md)) mds of
              Some md \<Rightarrow> Inr (md_value tg md)
            | None \<Rightarrow> target_get_monitor_def tg name)"

section \<open>The parser\<close>

datatype expr_error =
    Paren_expected | Char_constant_expected | Missing_quote | Unknown_register
  | Unexpected_end | Too_large | Invalid_char string | Division_by_zero
  | Division_trap | Out_of_fuel

type_synonym parsed = "expr_error + u64 \<times> string"

definition next_pch :: "string \<Rightarrow> string" where
  "next_pch pch = (case pch of [] \<Rightarrow> [] | _ # p \<Rightarrow> skip_spaces p)"

definition is_reg_char :: "char \<Rightarrow> bool" where
  "is_reg_char c \<longleftrightarrow> (let n = of_char c :: nat in
     (97 \<le> n \<and> n \<le> 122) \<or> (65 \<le> n \<and> n \<le> 90) \<or> (48 \<le> n \<and> n \<le> 57)) \<or> c = CHR ''_'' \<or> c = CHR ''.''"

text \<open>\<open>strtoull(pch, &p, 0)\<close>: the value, whether \<open>errno\<close> is \<open>ERANGE\<close>, and \<open>p\<close>.\<close>

definition strtoull0 :: "string \<Rightarrow> bool \<times> u64 \<times> string" where
  "strtoull0 s =
     (let (neg, t) = read_sign (skip_spaces s);
          h = skip_prefix 16 t;
          base = (if h \<noteq> t then 16 else if take 1 t = ''0'' then 8 else 10);
          n = read_digits base 0 h;
          rest = dropWhile (\<lambda>c. digit_val base c \<noteq> None) h
      in if rest = t then (False, 0, s)
         else if 2 ^ 64 \<le> n then (True, - 1, rest)
         else (False, if neg then - of_nat n else of_nat n, rest))"

text \<open>\<open>n = *pch\<close> for a plain (signed) \<open>char\<close>.\<close>

definition char_value :: "char \<Rightarrow> u64" where
  "char_value c = scast (of_char c :: u8)"

text \<open>C division of \<open>int64_t\<close>; the machine traps on the quotient that does not fit.\<close>

definition expr_div :: "char \<Rightarrow> u64 \<Rightarrow> u64 \<Rightarrow> expr_error + u64" where
  "expr_div op val val2 =
     (if val2 = 0 then Inl Division_by_zero
      else if sint val = - (2 ^ 63) \<and> val2 = - 1 then Inl Division_trap
      else if op = CHR ''/'' then Inr (word_of_int (sint val sdiv sint val2))
      else Inr (word_of_int (sint val smod sint val2)))"

definition apply_prod :: "char \<Rightarrow> u64 \<Rightarrow> u64 \<Rightarrow> expr_error + u64" where
  "apply_prod op val val2 = (if op = CHR ''*'' then Inr (val * val2) else expr_div op val val2)"

definition apply_logic :: "char \<Rightarrow> u64 \<Rightarrow> u64 \<Rightarrow> u64" where
  "apply_logic op val val2 =
     (if op = CHR ''|'' then or val val2 else if op = CHR ''^'' then xor val val2 else and val val2)"

definition apply_sum :: "char \<Rightarrow> u64 \<Rightarrow> u64 \<Rightarrow> u64" where
  "apply_sum op val val2 = (if op = CHR ''+'' then val + val2 else val - val2)"

abbreviation is_prod :: "char \<Rightarrow> bool" where "is_prod op \<equiv> op = CHR ''*'' \<or> op = CHR ''/'' \<or> op = CHR ''%''"
abbreviation is_logic :: "char \<Rightarrow> bool" where "is_logic op \<equiv> op = CHR ''&'' \<or> op = CHR ''|'' \<or> op = CHR ''^''"
abbreviation is_sum :: "char \<Rightarrow> bool" where "is_sum op \<equiv> op = CHR ''+'' \<or> op = CHR ''-''"

definition expr_number :: "string \<Rightarrow> parsed" where
  "expr_number pch =
     (let (erange, n, p) = strtoull0 pch
      in if erange then Inl Too_large
         else if p = pch then Inl (Invalid_char (take 1 p))
         else Inr (n, skip_spaces p))"

definition expr_register :: "target \<Rightarrow> string \<Rightarrow> parsed" where
  "expr_register tg pch =
     (case get_monitor_def tg (take 127 (takeWhile is_reg_char pch)) of
        Inl _ \<Rightarrow> Inl Unknown_register
      | Inr reg \<Rightarrow> Inr (reg, skip_spaces (dropWhile is_reg_char pch)))"

definition expr_char :: "string \<Rightarrow> parsed" where
  "expr_char pch =
     (case pch of
        [] \<Rightarrow> Inl Char_constant_expected
      | c # p \<Rightarrow> if take 1 p = [CHR 0x27] then Inr (char_value c, next_pch p) else Inl Missing_quote)"

function (sequential) expr_unary and expr_prod and prod_loop and expr_logic and logic_loop and expr_sum and sum_loop
where
  "expr_unary tg 0 pch = (Inl Out_of_fuel :: parsed)"
| "expr_unary tg (Suc n) pch =
     (case pch of
        [] \<Rightarrow> Inl Unexpected_end
      | c # p \<Rightarrow>
          if c = CHR ''+'' then expr_unary tg n (skip_spaces p)
          else if c = CHR ''-'' then bindR (expr_unary tg n (skip_spaces p)) (\<lambda>(v, q). Inr (- v, q))
          else if c = CHR ''~'' then bindR (expr_unary tg n (skip_spaces p)) (\<lambda>(v, q). Inr (not v, q))
          else if c = CHR ''('' then
            bindR (expr_sum tg n (skip_spaces p))
              (\<lambda>(v, q). if take 1 q = '')'' then Inr (v, next_pch q) else Inl Paren_expected)
          else if c = CHR 0x27 then expr_char p
          else if c = CHR ''$'' then expr_register tg p
          else expr_number (c # p))"
| "expr_prod tg 0 pch = (Inl Out_of_fuel :: parsed)"
| "expr_prod tg (Suc n) pch = bindR (expr_unary tg n pch) (\<lambda>(val, q). prod_loop tg n val q)"
| "prod_loop tg 0 val pch = (Inl Out_of_fuel :: parsed)"
| "prod_loop tg (Suc n) val pch =
     (case pch of
        [] \<Rightarrow> Inr (val, [])
      | op # p \<Rightarrow>
          if is_prod op then
            bindR (expr_unary tg n (skip_spaces p))
              (\<lambda>(val2, q). bindR (apply_prod op val val2) (\<lambda>v. prod_loop tg n v q))
          else Inr (val, pch))"
| "expr_logic tg 0 pch = (Inl Out_of_fuel :: parsed)"
| "expr_logic tg (Suc n) pch = bindR (expr_prod tg n pch) (\<lambda>(val, q). logic_loop tg n val q)"
| "logic_loop tg 0 val pch = (Inl Out_of_fuel :: parsed)"
| "logic_loop tg (Suc n) val pch =
     (case pch of
        [] \<Rightarrow> Inr (val, [])
      | op # p \<Rightarrow>
          if is_logic op then
            bindR (expr_prod tg n (skip_spaces p)) (\<lambda>(val2, q). logic_loop tg n (apply_logic op val val2) q)
          else Inr (val, pch))"
| "expr_sum tg 0 pch = (Inl Out_of_fuel :: parsed)"
| "expr_sum tg (Suc n) pch = bindR (expr_logic tg n pch) (\<lambda>(val, q). sum_loop tg n val q)"
| "sum_loop tg 0 val pch = (Inl Out_of_fuel :: parsed)"
| "sum_loop tg (Suc n) val pch =
     (case pch of
        [] \<Rightarrow> Inr (val, [])
      | op # p \<Rightarrow>
          if is_sum op then
            bindR (expr_logic tg n (skip_spaces p)) (\<lambda>(val2, q). sum_loop tg n (apply_sum op val val2) q)
          else Inr (val, pch))"
  by pat_completeness auto
termination
  by (relation "measure (case_sum (case_sum (fst \<circ> snd) (case_sum (fst \<circ> snd) (fst \<circ> snd)))
      (case_sum (case_sum (fst \<circ> snd) (fst \<circ> snd)) (case_sum (fst \<circ> snd) (fst \<circ> snd))))") auto

definition expr_fuel :: "string \<Rightarrow> nat" where
  "expr_fuel s = 4 * length s + 4"

definition get_expr :: "target \<Rightarrow> string \<Rightarrow> parsed" where
  "get_expr tg pp = expr_sum tg (expr_fuel (skip_spaces pp)) (skip_spaces pp)"

end
