(* ===== verification/Mon_Args.thy ===== *)
theory Mon_Args
  imports Mon_Expr
begin

text \<open>
  The argument parser of the human monitor (\<open>monitor_parse_arguments\<close> of \<open>monitor.c\<close>): it reads a
  command line under the command's type string and fills a dictionary. One definition per letter of
  the type string, each from the text behind the letter, the rest of the line and the dictionary to
  the same three or an error (the message printed; a division trap inside an integer argument is
  \<open>Bad_expr Division_trap\<close>, where the process dies). The remembered print format of the \<open>/\<close>
  argument is the state \<open>print_format\<close>.
\<close>

section \<open>Values, errors and what lies outside\<close>

datatype 'd qobject = QString string | QInt u64 | QBool bool | QFloat 'd

type_synonym 'd qdict = "string \<Rightarrow> 'd qobject option"

record print_format =
  default_fmt_format :: int
  default_fmt_size :: int

text \<open>\<open>'x'\<close> and 4.\<close>

definition initial_format :: print_format where
  "initial_format = \<lparr>default_fmt_format = 120, default_fmt_size = 4\<rparr>"

text \<open>
  Option lists (\<open>qemu_find_opts\<close>: whether the list has a description; \<open>qemu_opts_parse_noisily\<close>
  followed by \<open>qemu_opts_to_qdict\<close>: the pairs put), sizes (\<open>qemu_strtosz_MiB\<close>: return, end, value),
  and C doubles: \<open>strtod\<close>, the test for NaN and infinity, and division by \<open>10 ^ k\<close>.
\<close>

record 'd arg_env =
  arg_target :: target
  find_opts :: "string \<Rightarrow> bool option"
  parse_opts :: "string \<Rightarrow> string \<Rightarrow> (string \<times> 'd qobject) list option"
  strtosz_MiB :: "string \<Rightarrow> int \<times> string \<times> u64"
  strtod :: "string \<Rightarrow> 'd \<times> string"
  not_finite :: "'d \<Rightarrow> bool"
  div_pow10 :: "'d \<Rightarrow> nat \<Rightarrow> 'd"

datatype arg_error =
    Filename_expected | Block_device_expected | String_expected | Bad_options
  | Invalid_format_char | Bad_expr expr_error | Not_32_bit | Not_positive | Invalid_size
  | Number_expected | Bad_number | Unknown_unit | On_off_expected | Unsupported_option char
  | Unknown_type | Extraneous_characters

text \<open>\<open>typestr\<close>, \<open>p\<close> and \<open>qdict\<close> after an argument.\<close>

type_synonym 'd arg_result = "arg_error + string \<times> string \<times> 'd qdict"

definition isdigit_c :: "char \<Rightarrow> bool" where
  "isdigit_c c \<longleftrightarrow> 48 \<le> (of_char c :: nat) \<and> (of_char c :: nat) \<le> 57"

definition isgraph_c :: "char \<Rightarrow> bool" where
  "isgraph_c c \<longleftrightarrow> 33 \<le> (of_char c :: nat) \<and> (of_char c :: nat) \<le> 126"

abbreviation first_is :: "string \<Rightarrow> char \<Rightarrow> bool" where
  "first_is s c \<equiv> take 1 s = [c]"

section \<open>One definition per type letter\<close>

text \<open>\<open>F\<close>, \<open>B\<close> and \<open>s\<close>.\<close>

definition parse_string_arg :: "char \<Rightarrow> string \<Rightarrow> string \<Rightarrow> string \<Rightarrow> 'd qdict \<Rightarrow> 'd arg_result" where
  "parse_string_arg c key typestr p qdict =
     (let p1 = skip_spaces p;
          opt = first_is typestr CHR ''?'';
          ty = (if opt then tl typestr else typestr)
      in if opt \<and> p1 = [] then Inr (ty, p1, qdict)
         else case get_str 1024 p1 of
             Inl _ \<Rightarrow> Inl (if c = CHR ''F'' then Filename_expected
                          else if c = CHR ''B'' then Block_device_expected else String_expected)
           | Inr (buf, p2) \<Rightarrow> Inr (ty, p2, qdict(key \<mapsto> QString buf)))"

definition put_all :: "(string \<times> 'd qobject) list \<Rightarrow> 'd qdict \<Rightarrow> 'd qdict" where
  "put_all kvs qdict = foldl (\<lambda>d (k, v). d(k \<mapsto> v)) qdict kvs"

definition parse_opts_arg :: "'d arg_env \<Rightarrow> string \<Rightarrow> string \<Rightarrow> string \<Rightarrow> 'd qdict \<Rightarrow> 'd arg_result" where
  "parse_opts_arg env key typestr p qdict =
     (if find_opts env key \<noteq> Some False then Inl Unknown_type
      else let p1 = skip_spaces p
        in if p1 = [] then Inr (typestr, p1, qdict)
           else case get_str 1024 p1 of
               Inl _ \<Rightarrow> Inl Bad_options
             | Inr (buf, p2) \<Rightarrow> (case parse_opts env key buf of
                   None \<Rightarrow> Inl Bad_options
                 | Some kvs \<Rightarrow> Inr (typestr, p2, put_all kvs qdict)))"

text \<open>The count is an \<open>int\<close> that wraps; the letters set format and size, the last of each counts.\<close>

fun read_count :: "u32 \<Rightarrow> string \<Rightarrow> u32 \<times> string" where
  "read_count count [] = (count, [])"
| "read_count count (c # p) =
     (if isdigit_c c then read_count (count * 10 + of_nat (of_char c - 48)) p else (count, c # p))"

fun read_format :: "int \<Rightarrow> int \<Rightarrow> string \<Rightarrow> int \<times> int \<times> string" where
  "read_format format sz [] = (format, sz, [])"
| "read_format format sz (c # p) =
     (if c \<in> set ''oduxic'' then read_format (of_char c) sz p
      else if c = CHR ''b'' then read_format format 1 p
      else if c = CHR ''h'' then read_format format 2 p
      else if c = CHR ''w'' then read_format format 4 p
      else if c = CHR ''g'' \<or> c = CHR ''L'' then read_format format 8 p
      else (format, sz, c # p))"

definition put_format :: "u32 \<Rightarrow> int \<Rightarrow> int \<Rightarrow> 'd qdict \<Rightarrow> 'd qdict" where
  "put_format count format sz qdict =
     qdict(''count'' \<mapsto> QInt (scast count), ''format'' \<mapsto> QInt (word_of_int format),
           ''size'' \<mapsto> QInt (word_of_int sz))"

definition parse_format_arg ::
  "print_format \<Rightarrow> string \<Rightarrow> string \<Rightarrow> 'd qdict \<Rightarrow> print_format \<times> 'd arg_result" where
  "parse_format_arg pf typestr p qdict =
     (let p1 = skip_spaces p
      in if first_is p1 CHR ''/'' then
           let p2 = tl p1;
               (count, p3) = (case p2 of [] \<Rightarrow> (1, p2)
                 | c # _ \<Rightarrow> if isdigit_c c then read_count 0 p2 else (1, p2));
               (format, size1, p4) = read_format (- 1) (- 1) p3
           in if p4 \<noteq> [] \<and> \<not> isspace_c (List.hd p4) then (pf, Inl Invalid_format_char)
              else let f = (if format < 0 then default_fmt_format pf else format);
                       sz = (if f \<noteq> 105 \<and> size1 < 0 then default_fmt_size pf else size1);
                       pf' = pf\<lparr>default_fmt_format := f,
                                default_fmt_size := if f \<noteq> 105 then sz else default_fmt_size pf\<rparr>
                   in (pf', Inr (typestr, p4, put_format count f sz qdict))
         else
           let f = default_fmt_format pf
           in (pf, Inr (typestr, p1, put_format 1 f (if f \<noteq> 105 then default_fmt_size pf else - 1) qdict)))"

text \<open>\<open>i\<close>, \<open>l\<close> and \<open>M\<close>: the optional forms first, \<open>None\<close> when the argument is left out.\<close>

definition int_optional :: "string \<Rightarrow> string \<Rightarrow> string \<times> string option" where
  "int_optional typestr p1 =
     (if first_is typestr CHR ''?'' then (tl typestr, if p1 = [] then None else Some p1)
      else if first_is typestr CHR ''.'' then
        (tl typestr, if first_is p1 CHR ''.'' then Some (skip_spaces (tl p1)) else None)
      else (typestr, Some p1))"

definition int_check :: "char \<Rightarrow> u64 \<Rightarrow> arg_error + u64" where
  "int_check c val =
     (if c = CHR ''i'' \<and> and (drop_bit 32 val) 0xFFFFFFFF \<noteq> 0 then Inl Not_32_bit
      else if c = CHR ''M'' then
        if sint val < 0 then Inl Not_positive else Inr (push_bit 20 val)
      else Inr val)"

definition parse_int_arg ::
  "target \<Rightarrow> char \<Rightarrow> string \<Rightarrow> string \<Rightarrow> string \<Rightarrow> 'd qdict \<Rightarrow> 'd arg_result" where
  "parse_int_arg tg c key typestr p qdict =
     (case int_optional typestr (skip_spaces p) of
        (ty, None) \<Rightarrow> Inr (ty, skip_spaces p, qdict)
      | (ty, Some p2) \<Rightarrow> (case get_expr tg p2 of
            Inl e \<Rightarrow> Inl (Bad_expr e)
          | Inr (val, p3) \<Rightarrow> bindR (int_check c val) (\<lambda>v. Inr (ty, p3, qdict(key \<mapsto> QInt v)))))"

definition parse_size_arg :: "'d arg_env \<Rightarrow> string \<Rightarrow> string \<Rightarrow> string \<Rightarrow> 'd qdict \<Rightarrow> 'd arg_result" where
  "parse_size_arg env key typestr p qdict =
     (let p1 = skip_spaces p;
          opt = first_is typestr CHR ''?'';
          ty = (if opt then tl typestr else typestr)
      in if opt \<and> p1 = [] then Inr (ty, p1, qdict)
         else let (ret, end', val) = strtosz_MiB env p1
           in if ret < 0 \<or> val > 0x7FFFFFFFFFFFFFFF then Inl Invalid_size
              else Inr (ty, end', qdict(key \<mapsto> QInt val)))"

definition get_double :: "'d arg_env \<Rightarrow> string \<Rightarrow> arg_error + 'd \<times> string" where
  "get_double env p =
     (let (d, tailp) = strtod env p
      in if tailp = p then Inl Number_expected
         else if not_finite env d then Inl Bad_number else Inr (d, tailp))"

definition time_unit :: "'d arg_env \<Rightarrow> 'd \<Rightarrow> string \<Rightarrow> 'd \<times> string" where
  "time_unit env val p =
     (if take 1 (tl p) = ''s'' then
        if first_is p CHR ''m'' then (div_pow10 env val 3, drop 2 p)
        else if first_is p CHR ''u'' then (div_pow10 env val 6, drop 2 p)
        else if first_is p CHR ''n'' then (div_pow10 env val 9, drop 2 p)
        else (val, p)
      else (val, p))"

definition parse_time_arg :: "'d arg_env \<Rightarrow> string \<Rightarrow> string \<Rightarrow> string \<Rightarrow> 'd qdict \<Rightarrow> 'd arg_result" where
  "parse_time_arg env key typestr p qdict =
     (let p1 = skip_spaces p;
          opt = first_is typestr CHR ''?'';
          ty = (if opt then tl typestr else typestr)
      in if opt \<and> p1 = [] then Inr (ty, p1, qdict)
         else bindR (get_double env p1) (\<lambda>(d, p2).
           let (val, p3) = time_unit env d p2
           in if p3 \<noteq> [] \<and> \<not> isspace_c (List.hd p3) then Inl Unknown_unit
              else Inr (ty, p3, qdict(key \<mapsto> QFloat val))))"

definition parse_bool_arg :: "string \<Rightarrow> string \<Rightarrow> string \<Rightarrow> 'd qdict \<Rightarrow> 'd arg_result" where
  "parse_bool_arg key typestr p qdict =
     (let beg = skip_spaces p;
          word = takeWhile isgraph_c beg;
          p2 = dropWhile isgraph_c beg
      in if word = ''on'' then Inr (typestr, p2, qdict(key \<mapsto> QBool True))
         else if word = ''off'' then Inr (typestr, p2, qdict(key \<mapsto> QBool False))
         else Inl On_off_expected)"

text \<open>
  An option that the line does not give here but the rest of the type string knows is left for
  later; the line is then read again from where this argument began.
\<close>

definition parse_option_arg :: "string \<Rightarrow> string \<Rightarrow> string \<Rightarrow> 'd qdict \<Rightarrow> 'd arg_result" where
  "parse_option_arg key typestr p qdict =
     (case typestr of
        [] \<Rightarrow> Inl Unknown_type
      | c # ty \<Rightarrow>
          (let p1 = skip_spaces p
           in if first_is p1 CHR ''-'' then
                let p2 = tl p1
                in if first_is p2 c then Inr (ty, tl p2, qdict(key \<mapsto> QBool True))
                   else if is_valid_option p2 ty then Inr (ty, p, qdict)
                   else Inl (Unsupported_option (case p2 of [] \<Rightarrow> CHR 0x00 | o' # _ \<Rightarrow> o'))
              else Inr (ty, p1, qdict)))"

definition parse_rest_arg :: "string \<Rightarrow> string \<Rightarrow> string \<Rightarrow> 'd qdict \<Rightarrow> 'd arg_result" where
  "parse_rest_arg key typestr p qdict =
     (let p1 = skip_spaces p;
          opt = first_is typestr CHR ''?'';
          ty = (if opt then tl typestr else typestr)
      in if opt \<and> p1 = [] then Inr (ty, p1, qdict)
         else if p1 = [] then Inl String_expected
         else Inr (ty, [], qdict(key \<mapsto> QString p1)))"

section \<open>The loop over the type string\<close>

definition parse_arg ::
  "'d arg_env \<Rightarrow> print_format \<Rightarrow> char \<Rightarrow> string \<Rightarrow> string \<Rightarrow> string \<Rightarrow> 'd qdict
     \<Rightarrow> print_format \<times> 'd arg_result" where
  "parse_arg env pf c key typestr p qdict =
     (if c = CHR ''/'' then parse_format_arg pf typestr p qdict
      else (pf,
        if c \<in> set ''FBs'' then parse_string_arg c key typestr p qdict
        else if c = CHR ''O'' then parse_opts_arg env key typestr p qdict
        else if c \<in> set ''ilM'' then parse_int_arg (arg_target env) c key typestr p qdict
        else if c = CHR ''o'' then parse_size_arg env key typestr p qdict
        else if c = CHR ''T'' then parse_time_arg env key typestr p qdict
        else if c = CHR ''b'' then parse_bool_arg key typestr p qdict
        else if c = CHR ''-'' then parse_option_arg key typestr p qdict
        else if c = CHR ''S'' then parse_rest_arg key typestr p qdict
        else Inl Unknown_type))"

text \<open>An argument only ever consumes from its type string.\<close>

lemma int_optional_type: "int_optional ty p = (ty', q) \<Longrightarrow> length ty' \<le> length ty"
  by (auto simp: int_optional_def split: if_splits)

lemma parse_arg_types:
  "parse_string_arg c key ty p d = Inr (ty', p', d') \<Longrightarrow> length ty' \<le> length ty"
  "parse_opts_arg env key ty p d = Inr (ty', p', d') \<Longrightarrow> length ty' \<le> length ty"
  "parse_format_arg pf ty p d = (pf', Inr (ty', p', d')) \<Longrightarrow> length ty' \<le> length ty"
  "parse_int_arg tg c key ty p d = Inr (ty', p', d') \<Longrightarrow> length ty' \<le> length ty"
  "parse_size_arg env key ty p d = Inr (ty', p', d') \<Longrightarrow> length ty' \<le> length ty"
  "parse_time_arg env key ty p d = Inr (ty', p', d') \<Longrightarrow> length ty' \<le> length ty"
  "parse_bool_arg key ty p d = Inr (ty', p', d') \<Longrightarrow> length ty' \<le> length ty"
  "parse_option_arg key ty p d = Inr (ty', p', d') \<Longrightarrow> length ty' \<le> length ty"
  "parse_rest_arg key ty p d = Inr (ty', p', d') \<Longrightarrow> length ty' \<le> length ty"
          apply (auto simp: parse_string_arg_def Let_def split: if_splits sum.splits) [1]
         apply (auto simp: parse_opts_arg_def Let_def split: if_splits sum.splits option.splits) [1]
        apply (auto simp: parse_format_arg_def Let_def split: if_splits prod.splits) [1]
       apply (auto simp: parse_int_arg_def bindR_eq_Inr dest: int_optional_type
           split: prod.splits option.splits sum.splits) [1]
      apply (auto simp: parse_size_arg_def Let_def split: if_splits prod.splits) [1]
     apply (auto simp: parse_time_arg_def Let_def bindR_eq_Inr case_prod_beta split: if_splits) [1]
    apply (auto simp: parse_bool_arg_def Let_def split: if_splits) [1]
   apply (auto simp: parse_option_arg_def Let_def split: if_splits list.splits) [1]
  apply (auto simp: parse_rest_arg_def Let_def split: if_splits) [1]
  done

lemma parse_arg_type:
  "parse_arg env pf c key ty p d = (pf', Inr (ty', p', d')) \<Longrightarrow> length ty' \<le> length ty"
  unfolding parse_arg_def
  by (simp only: prod.inject split: if_splits; (elim conjE)?; (erule parse_arg_types | simp))

function parse_args_loop ::
  "'d arg_env \<Rightarrow> print_format \<Rightarrow> string \<Rightarrow> string \<Rightarrow> 'd qdict \<Rightarrow> print_format \<times> (arg_error + string \<times> 'd qdict)"
where
  "parse_args_loop env pf typestr p qdict =
     (case key_get_info typestr of
        None \<Rightarrow> (pf, Inr (p, qdict))
      | Some (key, []) \<Rightarrow> (pf, Inl Unknown_type)
      | Some (key, c # ty) \<Rightarrow>
          (case parse_arg env pf c key ty p qdict of
             (pf', Inl e) \<Rightarrow> (pf', Inl e)
           | (pf', Inr (ty', p', qdict')) \<Rightarrow> parse_args_loop env pf' ty' p' qdict'))"
  by pat_completeness auto
termination
  by (relation "measure (\<lambda>(env, pf, ty, p, d). length ty)")
    (auto dest!: key_get_info_shorter parse_arg_type [OF sym])

declare parse_args_loop.simps [simp del]

definition monitor_parse_arguments ::
  "'d arg_env \<Rightarrow> print_format \<Rightarrow> string \<Rightarrow> string \<Rightarrow> print_format \<times> (arg_error + 'd qdict)" where
  "monitor_parse_arguments env pf args_type p =
     (case parse_args_loop env pf args_type p Map.empty of
        (pf', Inl e) \<Rightarrow> (pf', Inl e)
      | (pf', Inr (p', qdict)) \<Rightarrow>
          (pf', if skip_spaces p' \<noteq> [] then Inl Extraneous_characters else Inr qdict))"

section \<open>Commands\<close>

text \<open>
  A command table entry. \<open>cmd\<close> and \<open>command_completion\<close> stand for the functions pointed to,
  \<open>sub_table\<close> is the second level.
\<close>

datatype 'h mon_cmd =
  Mon_cmd (cmd_name: string) (args_type: string) (cmd_params: string) (cmd_help: string) (cmd: 'h)
    (sub_table: "'h mon_cmd list option") (command_completion: "'h option")

definition search_dispatch_table :: "'h mon_cmd list \<Rightarrow> string \<Rightarrow> 'h mon_cmd option" where
  "search_dispatch_table disp_table cmdname = find (\<lambda>c. compare_cmd cmdname (cmd_name c)) disp_table"

datatype 'h parsed_cmd = Blank | Unknown_command string | Command "'h mon_cmd" string

lemma sub_table_smaller:
  "search_dispatch_table t n = Some c \<Longrightarrow> sub_table c = Some s \<Longrightarrow> size_list size s < size_list size t"
proof -
  assume "search_dispatch_table t n = Some c" and s: "sub_table c = Some s"
  then have "c \<in> set t" by (auto simp: search_dispatch_table_def find_Some_iff)
  moreover have "size_list size s < size c" using s by (cases c) simp
  ultimately show ?thesis by (rule size_list_estimation)
qed

text \<open>Behind a command with a second level, a further word is looked up there.\<close>

function monitor_parse_command :: "'h mon_cmd list \<Rightarrow> string \<Rightarrow> 'h parsed_cmd" where
  "monitor_parse_command table cmdp =
     (case get_command_name 256 cmdp of
        None \<Rightarrow> Blank
      | Some (cmdname, p) \<Rightarrow>
          (case search_dispatch_table table cmdname of
             None \<Rightarrow> Unknown_command (take (length cmdp - length p) cmdp)
           | Some c \<Rightarrow>
               (case sub_table c of
                  None \<Rightarrow> Command c (skip_spaces p)
                | Some sub \<Rightarrow>
                    if skip_spaces p = [] then Command c (skip_spaces p)
                    else monitor_parse_command sub (skip_spaces p))))"
  by pat_completeness auto
termination
  by (relation "measure (\<lambda>(table, p). size_list size table)") (auto dest: sub_table_smaller)

declare monitor_parse_command.simps [simp del]

text \<open>
  \<open>handle_hmp_command\<close>: the messages printed, the remembered print format and the world the handlers
  act on (\<open>run\<close>). \<open>Inl\<close> is the trap inside an integer argument.
\<close>

datatype hmp_message = Unknown_msg string | Argument_msg arg_error | Try_help string

record 'w hmp =
  hmp_format :: print_format
  hmp_world :: 'w
  hmp_messages :: "hmp_message list"

definition handle_hmp_command ::
  "'d arg_env \<Rightarrow> ('h \<Rightarrow> 'd qdict \<Rightarrow> 'w \<Rightarrow> 'w) \<Rightarrow> 'h mon_cmd list \<Rightarrow> string \<Rightarrow> 'w hmp \<Rightarrow> expr_error + 'w hmp"
where
  "handle_hmp_command env run table cmdline s =
     (case monitor_parse_command table cmdline of
        Blank \<Rightarrow> Inr s
      | Unknown_command t \<Rightarrow> Inr (s\<lparr>hmp_messages := hmp_messages s @ [Unknown_msg t]\<rparr>)
      | Command c p \<Rightarrow>
          (case monitor_parse_arguments env (hmp_format s) (args_type c) p of
             (pf, Inl e) \<Rightarrow>
               if e = Bad_expr Division_trap then Inl Division_trap
               else Inr (s\<lparr>hmp_format := pf,
                          hmp_messages := hmp_messages s @ [Argument_msg e, Try_help (cmd_name c)]\<rparr>)
           | (pf, Inr qdict) \<Rightarrow>
               Inr (s\<lparr>hmp_format := pf, hmp_world := run (cmd c) qdict (hmp_world s)\<rparr>)))"

end
