(* ===== verification/Mon_Expr_Fuel.thy ===== *)
theory Mon_Expr_Fuel
  imports Mon_Expr
begin

text \<open>
  The expression parser always ends: every construct consumes a character, \<open>expr_fuel\<close> is enough
  fuel for every text, and more fuel changes nothing. The last section states the parser as
  equations without fuel (\<open>parse_unary\<close> and its siblings).
\<close>

section \<open>Enough fuel\<close>

text \<open>Every construct consumes a character, so a quarter of the fuel a character is enough.\<close>

lemma length_next_pch: "length (next_pch q) \<le> length q - 1"
  by (cases q) (simp_all add: next_pch_def length_skip_spaces)

lemma length_skip_less: "length (skip_spaces p) \<le> length p"
  by (rule length_skip_spaces)

lemma dropWhile_eq_or_less: "dropWhile P xs = xs \<or> length (dropWhile P xs) < length xs"
  by (cases xs) (auto simp: less_Suc_eq_le length_dropWhile_le)

lemma read_sign_length: "length (snd (read_sign s)) \<le> length s"
  by (cases s) auto

lemma skip_prefix_length: "length (skip_prefix b s) \<le> length s"
  by (induction b s rule: skip_prefix.induct) auto

lemma strtoull0_length:
  assumes "strtoull0 s = (e, n, p)"
  shows "length p < length s \<or> p = s"
proof -
  obtain neg t where st: "read_sign (skip_spaces s) = (neg, t)" by force
  define h where "h = skip_prefix 16 t"
  define b :: nat where "b = (if h \<noteq> t then 16 else if take 1 t = ''0'' then 8 else 10)"
  define r where "r = dropWhile (\<lambda>c. digit_val b c \<noteq> None) h"
  have t: "length t \<le> length s"
    using st read_sign_length [of "skip_spaces s"] length_skip_spaces [of s] by simp
  have h: "length h \<le> length t" using skip_prefix_length by (simp add: h_def)
  have rh: "length r \<le> length h" by (simp add: r_def length_dropWhile_le)
  have "r = t \<or> length r < length t"
  proof (cases "h = t")
    case True
    then show ?thesis
      using dropWhile_eq_or_less [of "\<lambda>c. digit_val b c \<noteq> None" h] by (auto simp: r_def)
  next
    case False
    then have "length h < length t"
      unfolding h_def by (induction "16::nat" t rule: skip_prefix.induct) (auto split: if_splits)
    with rh show ?thesis by simp
  qed
  moreover have "strtoull0 s = (if r = t then (False, 0, s)
      else if 2 ^ 64 \<le> read_digits b 0 h then (True, - 1, r)
      else (False, if neg then - of_nat (read_digits b 0 h) else of_nat (read_digits b 0 h), r))"
    unfolding r_def b_def h_def by (simp only: strtoull0_def st Let_def prod.case)
  ultimately show ?thesis using assms t by (auto split: if_splits)
qed

lemma expr_number_shorter: "expr_number (c # s) = Inr (v, r) \<Longrightarrow> length r < length (c # s)"
  using strtoull0_length [of "c # s"] length_skip_spaces
  by (fastforce simp: expr_number_def split: if_splits prod.splits intro: le_less_trans)

lemma expr_register_shorter: "expr_register tg s = Inr (v, r) \<Longrightarrow> length r \<le> length s"
  using length_skip_spaces [of "dropWhile is_reg_char s"] length_dropWhile_le [of is_reg_char s]
  by (auto simp: expr_register_def split: sum.splits)

lemma expr_char_shorter: "expr_char s = Inr (v, r) \<Longrightarrow> length r \<le> length s"
  using length_next_pch [of "tl s"]
  by (auto simp: expr_char_def split: list.splits if_splits)

lemmas expr_atoms_shorter =
  expr_number_shorter expr_register_shorter expr_char_shorter

lemma shorter_after_skip: "length r < length (skip_spaces p) \<Longrightarrow> length r < length p"
  using length_skip_spaces [of p] by simp

lemma expr_shorter:
  "(\<forall>s v r. expr_unary tg n s = Inr (v, r) \<longrightarrow> length r < length s) \<and>
   (\<forall>s v r. expr_prod tg n s = Inr (v, r) \<longrightarrow> length r < length s) \<and>
   (\<forall>a s v r. prod_loop tg n a s = Inr (v, r) \<longrightarrow> length r \<le> length s) \<and>
   (\<forall>s v r. expr_logic tg n s = Inr (v, r) \<longrightarrow> length r < length s) \<and>
   (\<forall>a s v r. logic_loop tg n a s = Inr (v, r) \<longrightarrow> length r \<le> length s) \<and>
   (\<forall>s v r. expr_sum tg n s = Inr (v, r) \<longrightarrow> length r < length s) \<and>
   (\<forall>a s v r. sum_loop tg n a s = Inr (v, r) \<longrightarrow> length r \<le> length s)"
  (is "?u n \<and> ?p n \<and> ?pl n \<and> ?l n \<and> ?ll n \<and> ?s n \<and> ?sl n")
proof (induction n)
  case 0
  then show ?case by simp
next
  case (Suc n)
  note u' = Suc.IH [THEN conjunct1, rule_format]
    and p' = Suc.IH [THEN conjunct2, THEN conjunct1, rule_format]
    and pl = Suc.IH [THEN conjunct2, THEN conjunct2, THEN conjunct1, rule_format]
    and l' = Suc.IH [THEN conjunct2, THEN conjunct2, THEN conjunct2, THEN conjunct1, rule_format]
    and ll = Suc.IH [THEN conjunct2, THEN conjunct2, THEN conjunct2, THEN conjunct2, THEN conjunct1, rule_format]
    and s' = Suc.IH [THEN conjunct2, THEN conjunct2, THEN conjunct2, THEN conjunct2, THEN conjunct2, THEN conjunct1, rule_format]
    and sl = Suc.IH [THEN conjunct2, THEN conjunct2, THEN conjunct2, THEN conjunct2, THEN conjunct2, THEN conjunct2, rule_format]
  note u = u' [THEN shorter_after_skip] and p = p' [THEN shorter_after_skip]
    and l = l' [THEN shorter_after_skip] and s = s' [THEN shorter_after_skip]
  have np: "length q < length q' \<Longrightarrow> length (next_pch q) < Suc (length q')" for q q' :: string
    using length_next_pch [of q] by simp
  have "?u (Suc n)"
    by (auto simp: bindR_eq_Inr split: list.splits if_splits intro: np less_SucI
        dest!: u s expr_atoms_shorter)
  moreover have "?p (Suc n)"
    by (auto simp: bindR_eq_Inr dest!: u' pl)
  moreover have "?l (Suc n)"
    by (auto simp: bindR_eq_Inr dest!: p' ll)
  moreover have "?s (Suc n)"
    by (auto simp: bindR_eq_Inr dest!: l' sl)
  moreover have "?pl (Suc n)"
    by (auto split: list.splits if_splits simp: bindR_eq_Inr dest!: u pl)
  moreover have "?ll (Suc n)"
    by (auto split: list.splits if_splits simp: bindR_eq_Inr dest!: p ll)
  moreover have "?sl (Suc n)"
    by (auto split: list.splits if_splits simp: bindR_eq_Inr dest!: l sl)
  ultimately show ?case by blast
qed

lemmas expr_unary_shorter = expr_shorter [THEN conjunct1, rule_format]
  and expr_prod_shorter = expr_shorter [THEN conjunct2, THEN conjunct1, rule_format]
  and prod_loop_shorter = expr_shorter [THEN conjunct2, THEN conjunct2, THEN conjunct1, rule_format]
  and expr_logic_shorter =
    expr_shorter [THEN conjunct2, THEN conjunct2, THEN conjunct2, THEN conjunct1, rule_format]

lemma atoms_have_fuel:
  "expr_number s \<noteq> Inl Out_of_fuel" "expr_register tg s \<noteq> Inl Out_of_fuel"
  "expr_char s \<noteq> Inl Out_of_fuel" "apply_prod op a b \<noteq> Inl Out_of_fuel"
  by (auto simp: expr_number_def expr_register_def expr_char_def apply_prod_def expr_div_def
      split: prod.splits sum.splits list.splits)

lemma expr_has_fuel:
  "(\<forall>s. 4 * length s + 1 \<le> n \<longrightarrow> expr_unary tg n s \<noteq> Inl Out_of_fuel) \<and>
   (\<forall>s. 4 * length s + 2 \<le> n \<longrightarrow> expr_prod tg n s \<noteq> Inl Out_of_fuel) \<and>
   (\<forall>a s. 4 * length s + 1 \<le> n \<longrightarrow> prod_loop tg n a s \<noteq> Inl Out_of_fuel) \<and>
   (\<forall>s. 4 * length s + 3 \<le> n \<longrightarrow> expr_logic tg n s \<noteq> Inl Out_of_fuel) \<and>
   (\<forall>a s. 4 * length s + 1 \<le> n \<longrightarrow> logic_loop tg n a s \<noteq> Inl Out_of_fuel) \<and>
   (\<forall>s. 4 * length s + 4 \<le> n \<longrightarrow> expr_sum tg n s \<noteq> Inl Out_of_fuel) \<and>
   (\<forall>a s. 4 * length s + 1 \<le> n \<longrightarrow> sum_loop tg n a s \<noteq> Inl Out_of_fuel)"
  (is "?u n \<and> ?p n \<and> ?pl n \<and> ?l n \<and> ?ll n \<and> ?s n \<and> ?sl n")
proof (induction n)
  case 0
  then show ?case by simp
next
  case (Suc n)
  note u = Suc.IH [THEN conjunct1, rule_format]
    and p = Suc.IH [THEN conjunct2, THEN conjunct1, rule_format]
    and pl = Suc.IH [THEN conjunct2, THEN conjunct2, THEN conjunct1, rule_format]
    and l = Suc.IH [THEN conjunct2, THEN conjunct2, THEN conjunct2, THEN conjunct1, rule_format]
    and ll = Suc.IH [THEN conjunct2, THEN conjunct2, THEN conjunct2, THEN conjunct2, THEN conjunct1, rule_format]
    and s = Suc.IH [THEN conjunct2, THEN conjunct2, THEN conjunct2, THEN conjunct2, THEN conjunct2, THEN conjunct1, rule_format]
    and sl = Suc.IH [THEN conjunct2, THEN conjunct2, THEN conjunct2, THEN conjunct2, THEN conjunct2, THEN conjunct2, rule_format]
  have us: "4 * length s + 1 \<le> n \<Longrightarrow> expr_unary tg n (skip_spaces s) \<noteq> Inl Out_of_fuel"
    and ps: "4 * length s + 2 \<le> n \<Longrightarrow> expr_prod tg n (skip_spaces s) \<noteq> Inl Out_of_fuel"
    and ls: "4 * length s + 3 \<le> n \<Longrightarrow> expr_logic tg n (skip_spaces s) \<noteq> Inl Out_of_fuel"
    and ss: "4 * length s + 4 \<le> n \<Longrightarrow> expr_sum tg n (skip_spaces s) \<noteq> Inl Out_of_fuel" for s
    using u [of "skip_spaces s"] p [of "skip_spaces s"] l [of "skip_spaces s"] s [of "skip_spaces s"]
      length_skip_spaces [of s] by linarith+
  have "?u (Suc n)"
    by (auto simp: bindR_eq_Inl atoms_have_fuel us ss split: list.splits if_splits)
  moreover have "?p (Suc n)"
    by (auto simp: bindR_eq_Inl u dest!: expr_unary_shorter) (simp add: pl)
  moreover have "?l (Suc n)"
    by (auto simp: bindR_eq_Inl p dest!: expr_prod_shorter) (simp add: ll)
  moreover have "?s (Suc n)"
    by (auto simp: bindR_eq_Inl l dest!: expr_logic_shorter) (simp add: sl)
  moreover have "?pl (Suc n)"
    by (auto simp: bindR_eq_Inl us atoms_have_fuel split: list.splits if_splits
        dest!: expr_unary_shorter [THEN shorter_after_skip]) (simp_all add: pl)
  moreover have "?ll (Suc n)"
    by (auto simp: bindR_eq_Inl ps split: list.splits if_splits
        dest!: expr_prod_shorter [THEN shorter_after_skip]) (simp_all add: ll)
  moreover have "?sl (Suc n)"
    by (auto simp: bindR_eq_Inl ls split: list.splits if_splits
        dest!: expr_logic_shorter [THEN shorter_after_skip]) (simp_all add: sl)
  ultimately show ?case by blast
qed

text \<open>More fuel changes nothing.\<close>

definition stable :: "parsed \<Rightarrow> parsed \<Rightarrow> bool" where
  "stable x y \<longleftrightarrow> x = Inl Out_of_fuel \<or> y = x"

lemma stable_bind:
  "stable m m' \<Longrightarrow> (\<And>v q. stable (f (v, q)) (f' (v, q))) \<Longrightarrow> stable (bindR m f) (bindR m' f')"
  by (auto simp: stable_def bindR_def split: sum.splits)

lemma stable_bind_same:
  "(\<And>v. stable (f v) (f' v)) \<Longrightarrow> stable (bindR m f) (bindR m f')"
  by (auto simp: stable_def bindR_def split: sum.splits)

lemma stable_refl [simp]: "stable x x"
  by (simp add: stable_def)

definition all_stable :: "target \<Rightarrow> nat \<Rightarrow> nat \<Rightarrow> bool" where
  "all_stable tg n m \<longleftrightarrow>
     (\<forall>s. stable (expr_unary tg n s) (expr_unary tg m s)) \<and>
     (\<forall>s. stable (expr_prod tg n s) (expr_prod tg m s)) \<and>
     (\<forall>a s. stable (prod_loop tg n a s) (prod_loop tg m a s)) \<and>
     (\<forall>s. stable (expr_logic tg n s) (expr_logic tg m s)) \<and>
     (\<forall>a s. stable (logic_loop tg n a s) (logic_loop tg m a s)) \<and>
     (\<forall>s. stable (expr_sum tg n s) (expr_sum tg m s)) \<and>
     (\<forall>a s. stable (sum_loop tg n a s) (sum_loop tg m a s))"

lemma all_stable_Suc:
  assumes "all_stable tg n m"
  shows "all_stable tg (Suc n) (Suc m)"
proof -
  from assms have st:
    "stable (expr_unary tg n s) (expr_unary tg m s)" "stable (expr_prod tg n s) (expr_prod tg m s)"
    "stable (prod_loop tg n a s) (prod_loop tg m a s)" "stable (expr_logic tg n s) (expr_logic tg m s)"
    "stable (logic_loop tg n a s) (logic_loop tg m a s)" "stable (expr_sum tg n s) (expr_sum tg m s)"
    "stable (sum_loop tg n a s) (sum_loop tg m a s)" for a s
    by (auto simp: all_stable_def)
  show ?thesis
    by (auto simp: all_stable_def split: list.splits intro!: stable_bind stable_bind_same st)
qed

lemma all_stable_le: "n \<le> m \<Longrightarrow> all_stable tg n m"
proof (induction n arbitrary: m)
  case 0
  then show ?case by (simp add: all_stable_def stable_def)
next
  case (Suc n)
  then show ?case by (cases m) (auto intro: all_stable_Suc)
qed

lemma fuel_of_shorter: "length q < length s \<Longrightarrow> expr_fuel q \<le> expr_fuel s"
  by (simp add: expr_fuel_def)

section \<open>The parser without fuel\<close>

definition "parse_unary tg s = expr_unary tg (expr_fuel s) s"
definition "parse_prod tg s = expr_prod tg (expr_fuel s) s"
definition "rest_prod tg v s = prod_loop tg (expr_fuel s) v s"
definition "parse_logic tg s = expr_logic tg (expr_fuel s) s"
definition "rest_logic tg v s = logic_loop tg (expr_fuel s) v s"
definition "parse_sum tg s = expr_sum tg (expr_fuel s) s"
definition "rest_sum tg v s = sum_loop tg (expr_fuel s) v s"

lemmas parse_defs =
  parse_unary_def parse_prod_def rest_prod_def parse_logic_def rest_logic_def parse_sum_def rest_sum_def

lemmas have_fuel =
  expr_has_fuel [THEN conjunct1, rule_format]
  expr_has_fuel [THEN conjunct2, THEN conjunct1, rule_format]
  expr_has_fuel [THEN conjunct2, THEN conjunct2, THEN conjunct1, rule_format]
  expr_has_fuel [THEN conjunct2, THEN conjunct2, THEN conjunct2, THEN conjunct1, rule_format]
  expr_has_fuel [THEN conjunct2, THEN conjunct2, THEN conjunct2, THEN conjunct2, THEN conjunct1, rule_format]
  expr_has_fuel [THEN conjunct2, THEN conjunct2, THEN conjunct2, THEN conjunct2, THEN conjunct2, THEN conjunct1, rule_format]
  expr_has_fuel [THEN conjunct2, THEN conjunct2, THEN conjunct2, THEN conjunct2, THEN conjunct2, THEN conjunct2, rule_format]

lemma enough_fuel:
  assumes "expr_fuel s \<le> n"
  shows "expr_unary tg n s = parse_unary tg s" "expr_prod tg n s = parse_prod tg s"
    "prod_loop tg n v s = rest_prod tg v s" "expr_logic tg n s = parse_logic tg s"
    "logic_loop tg n v s = rest_logic tg v s" "expr_sum tg n s = parse_sum tg s"
    "sum_loop tg n v s = rest_sum tg v s"
proof -
  have nf: "expr_unary tg (expr_fuel s) s \<noteq> Inl Out_of_fuel" "expr_prod tg (expr_fuel s) s \<noteq> Inl Out_of_fuel"
    "prod_loop tg (expr_fuel s) v s \<noteq> Inl Out_of_fuel" "expr_logic tg (expr_fuel s) s \<noteq> Inl Out_of_fuel"
    "logic_loop tg (expr_fuel s) v s \<noteq> Inl Out_of_fuel" "expr_sum tg (expr_fuel s) s \<noteq> Inl Out_of_fuel"
    "sum_loop tg (expr_fuel s) v s \<noteq> Inl Out_of_fuel"
    by (rule have_fuel, simp add: expr_fuel_def)+
  from all_stable_le [OF assms, of tg] nf show
    "expr_unary tg n s = parse_unary tg s" "expr_prod tg n s = parse_prod tg s"
    "prod_loop tg n v s = rest_prod tg v s" "expr_logic tg n s = parse_logic tg s"
    "logic_loop tg n v s = rest_logic tg v s" "expr_sum tg n s = parse_sum tg s"
    "sum_loop tg n v s = rest_sum tg v s"
    unfolding all_stable_def stable_def parse_defs by blast+
qed

lemma enough_after_skip: "expr_fuel (skip_spaces p) \<le> expr_fuel p"
  using length_skip_spaces [of p] by (simp add: expr_fuel_def)

lemma parse_prod_eq: "parse_prod tg s = bindR (parse_unary tg s) (\<lambda>(v, q). rest_prod tg v q)"
proof -
  have "parse_prod tg s = expr_prod tg (Suc (expr_fuel s)) s" by (rule enough_fuel(2) [symmetric]) simp
  also have "\<dots> = bindR (parse_unary tg s) (\<lambda>(v, q). prod_loop tg (expr_fuel s) v q)"
    by (simp add: enough_fuel)
  also have "\<dots> = bindR (parse_unary tg s) (\<lambda>(v, q). rest_prod tg v q)"
    by (rule bindR_cong)
      (auto simp: parse_unary_def dest!: expr_unary_shorter intro!: enough_fuel fuel_of_shorter)
  finally show ?thesis .
qed

lemma parse_logic_eq: "parse_logic tg s = bindR (parse_prod tg s) (\<lambda>(v, q). rest_logic tg v q)"
proof -
  have "parse_logic tg s = expr_logic tg (Suc (expr_fuel s)) s" by (rule enough_fuel(4) [symmetric]) simp
  also have "\<dots> = bindR (parse_prod tg s) (\<lambda>(v, q). logic_loop tg (expr_fuel s) v q)"
    by (simp add: enough_fuel)
  also have "\<dots> = bindR (parse_prod tg s) (\<lambda>(v, q). rest_logic tg v q)"
    by (rule bindR_cong)
      (auto simp: parse_prod_def dest!: expr_prod_shorter intro!: enough_fuel fuel_of_shorter)
  finally show ?thesis .
qed

lemma parse_sum_eq: "parse_sum tg s = bindR (parse_logic tg s) (\<lambda>(v, q). rest_sum tg v q)"
proof -
  have "parse_sum tg s = expr_sum tg (Suc (expr_fuel s)) s" by (rule enough_fuel(6) [symmetric]) simp
  also have "\<dots> = bindR (parse_logic tg s) (\<lambda>(v, q). sum_loop tg (expr_fuel s) v q)"
    by (simp add: enough_fuel)
  also have "\<dots> = bindR (parse_logic tg s) (\<lambda>(v, q). rest_sum tg v q)"
    by (rule bindR_cong)
      (auto simp: parse_logic_def dest!: expr_logic_shorter intro!: enough_fuel fuel_of_shorter)
  finally show ?thesis .
qed

lemma rest_Nil [simp]:
  "rest_prod tg v [] = Inr (v, [])" "rest_logic tg v [] = Inr (v, [])" "rest_sum tg v [] = Inr (v, [])"
  by (simp_all add: parse_defs expr_fuel_def eval_nat_numeral)

lemma fuel_Cons: "expr_fuel (c # p) = Suc (expr_fuel p + 3)"
  by (simp add: expr_fuel_def)

lemma fuel_skip: "expr_fuel (skip_spaces p) \<le> expr_fuel p + 3"
  using enough_after_skip [of p] by simp

lemma fuel_rest:
  "parse_unary tg (skip_spaces p) = Inr (v, q) \<Longrightarrow> expr_fuel q \<le> expr_fuel p + 3"
  "parse_prod tg (skip_spaces p) = Inr (v, q) \<Longrightarrow> expr_fuel q \<le> expr_fuel p + 3"
  "parse_logic tg (skip_spaces p) = Inr (v, q) \<Longrightarrow> expr_fuel q \<le> expr_fuel p + 3"
  by (auto simp: parse_defs expr_fuel_def
      dest!: expr_unary_shorter expr_prod_shorter expr_logic_shorter shorter_after_skip)

lemma rest_prod_Cons:
  "rest_prod tg v (op # p) =
     (if is_prod op then
        bindR (parse_unary tg (skip_spaces p)) (\<lambda>(w, q). bindR (apply_prod op v w) (\<lambda>x. rest_prod tg x q))
      else Inr (v, op # p))"
proof -
  have "bindR (parse_unary tg (skip_spaces p))
          (\<lambda>(w, q). bindR (apply_prod op v w) (\<lambda>x. prod_loop tg (expr_fuel p + 3) x q)) =
        bindR (parse_unary tg (skip_spaces p)) (\<lambda>(w, q). bindR (apply_prod op v w) (\<lambda>x. rest_prod tg x q))"
    by (rule bindR_cong) (auto simp: enough_fuel fuel_rest)
  then show ?thesis
    unfolding rest_prod_def [of tg v "op # p"] fuel_Cons prod_loop.simps(2)
    by (simp add: enough_fuel fuel_skip)
qed

lemma rest_logic_Cons:
  "rest_logic tg v (op # p) =
     (if is_logic op then
        bindR (parse_prod tg (skip_spaces p)) (\<lambda>(w, q). rest_logic tg (apply_logic op v w) q)
      else Inr (v, op # p))"
proof -
  have "bindR (parse_prod tg (skip_spaces p))
          (\<lambda>(w, q). logic_loop tg (expr_fuel p + 3) (apply_logic op v w) q) =
        bindR (parse_prod tg (skip_spaces p)) (\<lambda>(w, q). rest_logic tg (apply_logic op v w) q)"
    by (rule bindR_cong) (auto simp: enough_fuel fuel_rest)
  then show ?thesis
    unfolding rest_logic_def [of tg v "op # p"] fuel_Cons logic_loop.simps(2)
    by (simp add: enough_fuel fuel_skip)
qed

lemma rest_sum_Cons:
  "rest_sum tg v (op # p) =
     (if is_sum op then
        bindR (parse_logic tg (skip_spaces p)) (\<lambda>(w, q). rest_sum tg (apply_sum op v w) q)
      else Inr (v, op # p))"
proof -
  have "bindR (parse_logic tg (skip_spaces p))
          (\<lambda>(w, q). sum_loop tg (expr_fuel p + 3) (apply_sum op v w) q) =
        bindR (parse_logic tg (skip_spaces p)) (\<lambda>(w, q). rest_sum tg (apply_sum op v w) q)"
    by (rule bindR_cong) (auto simp: enough_fuel fuel_rest)
  then show ?thesis
    unfolding rest_sum_def [of tg v "op # p"] fuel_Cons sum_loop.simps(2)
    by (simp add: enough_fuel fuel_skip)
qed

lemma parse_unary_Cons:
  "parse_unary tg (c # p) =
     (if c = CHR ''+'' then parse_unary tg (skip_spaces p)
      else if c = CHR ''-'' then bindR (parse_unary tg (skip_spaces p)) (\<lambda>(v, q). Inr (- v, q))
      else if c = CHR ''~'' then bindR (parse_unary tg (skip_spaces p)) (\<lambda>(v, q). Inr (not v, q))
      else if c = CHR ''('' then
        bindR (parse_sum tg (skip_spaces p))
          (\<lambda>(v, q). if take 1 q = '')'' then Inr (v, next_pch q) else Inl Paren_expected)
      else if c = CHR 0x27 then expr_char p
      else if c = CHR ''$'' then expr_register tg p
      else expr_number (c # p))"
  unfolding parse_unary_def [of tg "c # p"] fuel_Cons expr_unary.simps(2)
  by (simp add: enough_fuel fuel_skip)

lemma get_expr_parses: "get_expr tg pp = parse_sum tg (skip_spaces pp)"
  by (simp add: get_expr_def parse_sum_def)

text \<open>The equations that evaluate \<open>get_expr\<close> on a given text.\<close>

lemmas expr_eval =
  get_expr_parses parse_sum_eq parse_logic_eq parse_prod_eq parse_unary_Cons rest_sum_Cons rest_logic_Cons
  rest_prod_Cons apply_sum_def apply_logic_def apply_prod_def next_pch_def isspace_c_def expr_number_def
  strtoull0_def digit_val_def

end
