(* ===== verification/Mon_Args_Props.thy ===== *)
theory Mon_Args_Props
  imports Mon_Args Mon_Expr_Fuel
begin

text \<open>
  What the argument parser promises the command handlers: under a well-formed type string every
  value of the dictionary has the type its letter names, every mandatory key is there and no other
  key is; the ranges of the integer letters; the remembered print format.
\<close>

section \<open>Type strings\<close>

text \<open>
  \<open>Arg key c sfx\<close> is written \<open>key:c\<close> and the suffix: empty, \<open>?\<close> or \<open>.\<close>, or the letter of an option. All
  letters of the comment on the types in \<open>monitor.c\<close> are here, with \<open>?\<close> behind each but \<open>/\<close>.
\<close>

datatype argspec = Arg (arg_key: string) (arg_letter: char) (arg_suffix: string)

definition spec_text :: "argspec \<Rightarrow> string" where
  "spec_text a = arg_key a @ CHR '':'' # arg_letter a # arg_suffix a"

fun type_string :: "argspec list \<Rightarrow> string" where
  "type_string [] = []"
| "type_string [a] = spec_text a"
| "type_string (a # as) = spec_text a @ CHR '','' # type_string as"

fun suffix_ok :: "char \<Rightarrow> string \<Rightarrow> bool" where
  "suffix_ok c sfx =
     (if c \<in> set ''FBsoTSbO'' then sfx = [] \<or> sfx = ''?''
      else if c \<in> set ''ilM'' then sfx = [] \<or> sfx = ''?'' \<or> sfx = ''.''
      else if c = CHR ''-'' then length sfx = 1 \<or> length sfx = 2 \<and> drop 1 sfx = ''?''
      else c = CHR ''/'' \<and> sfx = [])"

definition spec_ok :: "argspec \<Rightarrow> bool" where
  "spec_ok a \<longleftrightarrow> suffix_ok (arg_letter a) (arg_suffix a) \<and> CHR '':'' \<notin> set (arg_key a) \<and>
     \<not> first_is (arg_key a) CHR '','' "

text \<open>
  The parser does not read the \<open>?\<close> behind \<open>b\<close>, \<open>O\<close> and an option: it becomes, with the comma, part of the
  next key. \<open>as_read\<close> is the list of arguments it takes the type string for.
\<close>

definition read_suffix :: "argspec \<Rightarrow> string" where
  "read_suffix a = (if arg_letter a \<in> set ''bO'' then [] else if arg_letter a = CHR ''-'' then take 1 (arg_suffix a)
     else arg_suffix a)"

definition unread :: "argspec \<Rightarrow> string" where
  "unread a = drop (length (read_suffix a)) (arg_suffix a)"

definition cut_spec :: "argspec \<Rightarrow> argspec" where
  "cut_spec a = Arg (arg_key a) (arg_letter a) (read_suffix a)"

definition behind :: "string \<Rightarrow> argspec \<Rightarrow> argspec" where
  "behind u b = (if u = [] then b else Arg (u @ CHR '','' # arg_key b) (arg_letter b) (arg_suffix b))"

fun as_read :: "argspec list \<Rightarrow> argspec list" where
  "as_read [] = []"
| "as_read [a] = [cut_spec a]"
| "as_read (a # b # as) = cut_spec a # as_read (behind (unread a) b # as)"

text \<open>The keys an argument may put itself; the pairs of an \<open>O\<close> come from the option list its key names.\<close>

definition spec_keys :: "argspec \<Rightarrow> string list" where
  "spec_keys a = (if arg_letter a = CHR ''/'' then [''count'', ''format'', ''size'']
     else if arg_letter a = CHR ''O'' then [] else [arg_key a])"

definition listed :: "'d arg_env \<Rightarrow> argspec \<Rightarrow> string \<Rightarrow> 'd qobject \<Rightarrow> bool" where
  "listed env a k v \<longleftrightarrow> arg_letter a = CHR ''O'' \<and> find_opts env (arg_key a) = Some False
     \<and> (\<exists>buf kvs. parse_opts env (arg_key a) buf = Some kvs \<and> (k, v) \<in> set kvs)"

definition mandatory :: "argspec \<Rightarrow> bool" where
  "mandatory a \<longleftrightarrow> arg_letter a \<notin> set ''-O'' \<and> arg_suffix a = []"

fun has_type :: "char \<Rightarrow> 'd qobject \<Rightarrow> bool" where
  "has_type c (QString s) = (c \<in> set ''FBsS'')"
| "has_type c (QInt n) =
     (c \<in> set ''lM/'' \<or> c = CHR ''i'' \<and> unat n < 2 ^ 32 \<or> c = CHR ''o'' \<and> 0 \<le> sint n)"
| "has_type c (QBool b) = (c = CHR ''b'' \<or> c = CHR ''-'' \<and> b)"
| "has_type c (QFloat d) = (c = CHR ''T'')"

definition justified :: "'d arg_env \<Rightarrow> argspec \<Rightarrow> string \<Rightarrow> 'd qobject \<Rightarrow> bool" where
  "justified env a k v \<longleftrightarrow> k \<in> set (spec_keys a) \<and> has_type (arg_letter a) v \<or> listed env a k v"

text \<open>What one argument does to the dictionary.\<close>

definition arg_effect :: "'d arg_env \<Rightarrow> argspec \<Rightarrow> 'd qdict \<Rightarrow> 'd qdict \<Rightarrow> bool" where
  "arg_effect env a d d' \<longleftrightarrow>
     (\<forall>k. d' k = d k \<or> (\<exists>v. d' k = Some v \<and> justified env a k v)) \<and>
     (mandatory a \<longrightarrow> set (spec_keys a) \<subseteq> dom d')"

definition rest_ok :: "string \<Rightarrow> bool" where
  "rest_ok r \<longleftrightarrow> r = [] \<or> List.hd r = CHR '',''"

lemma rest_not_first: "rest_ok r \<Longrightarrow> c \<noteq> CHR '','' \<Longrightarrow> \<not> first_is r c"
  by (cases r) (auto simp: rest_ok_def)

lemma put_effect: "spec_keys a = [k] \<Longrightarrow> has_type (arg_letter a) v \<Longrightarrow> arg_effect env a d (d(k \<mapsto> v))"
  by (simp add: arg_effect_def justified_def)

lemma skip_effect: "\<not> mandatory a \<Longrightarrow> arg_effect env a d d"
  by (simp add: arg_effect_def)

lemma string_arg_effect:
  assumes "parse_string_arg c key (sfx @ r) p d = Inr (ty', p', d')" and "c \<in> set ''FBs''"
    and "sfx = [] \<or> sfx = ''?''" and "rest_ok r"
  shows "ty' = r \<and> arg_effect env (Arg key c sfx) d d'"
  using assms rest_not_first [of r "CHR ''?''"]
  by (auto simp: parse_string_arg_def Let_def spec_keys_def mandatory_def split: if_splits sum.splits
      intro!: put_effect skip_effect)

lemma int_check_range: "int_check CHR ''i'' v = Inr w \<Longrightarrow> unat w < 4294967296"
proof -
  assume "int_check CHR ''i'' v = Inr w"
  then have w: "w = v" and z: "and (drop_bit 32 v) 0xFFFFFFFF = 0"
    by (auto simp: int_check_def split: if_splits)
  have "(0xFFFFFFFF :: u64) = mask 32" by (simp add: mask_eq_exp_minus_1)
  with z have t: "take_bit 32 (drop_bit 32 v) = 0" by (simp add: take_bit_eq_mask)
  have "unat (take_bit 32 (drop_bit 32 v)) = take_bit 32 (unat v div 2 ^ 32)"
    by (simp add: unsigned_take_bit_eq unsigned_drop_bit_eq drop_bit_eq_div take_bit_eq_mod unat_div_distrib unat_mod_distrib)
  moreover have "unat v < 2 ^ 64" using unsigned_less [of v] by simp
  ultimately have "unat v div 2 ^ 32 = 0" using t by (simp add: take_bit_eq_mod)
  with w show ?thesis by (simp add: div_eq_0_iff)
qed

lemma int_arg_effect:
  assumes "parse_int_arg tg c key (sfx @ r) p d = Inr (ty', p', d')" and "c \<in> set ''ilM''"
    and "sfx = [] \<or> sfx = ''?'' \<or> sfx = ''.''" and "rest_ok r"
  shows "ty' = r \<and> arg_effect env (Arg key c sfx) d d'"
  using assms rest_not_first [of r "CHR ''?''"] rest_not_first [of r "CHR ''.''"]
  by (auto simp: parse_int_arg_def int_optional_def spec_keys_def mandatory_def bindR_eq_Inr
      split: if_splits sum.splits option.splits
      intro!: put_effect skip_effect dest!: int_check_range)

lemma size_arg_effect:
  assumes "parse_size_arg env key (sfx @ r) p d = Inr (ty', p', d')"
    and "sfx = [] \<or> sfx = ''?''" and "rest_ok r"
  shows "ty' = r \<and> arg_effect env (Arg key CHR ''o'' sfx) d d'"
proof -
  have "0 \<le> sint v" if "\<not> v > 0x7FFFFFFFFFFFFFFF" for v :: u64
  proof -
    from that have "uint v \<le> 2 ^ 63 - 1" by (simp add: not_less word_le_def)
    then have "sint v = uint v"
      unfolding sint_uint by (intro signed_take_bit_int_eq_self) (auto intro: order_trans [of _ 0])
    then show ?thesis by simp
  qed
  then show ?thesis
  using assms rest_not_first [of r "CHR ''?''"]
  by (auto simp: parse_size_arg_def Let_def spec_keys_def mandatory_def case_prod_beta split: if_splits
      intro!: put_effect skip_effect)
qed

lemma time_arg_effect:
  assumes "parse_time_arg env key (sfx @ r) p d = Inr (ty', p', d')"
    and "sfx = [] \<or> sfx = ''?''" and "rest_ok r"
  shows "ty' = r \<and> arg_effect env (Arg key CHR ''T'' sfx) d d'"
  using assms rest_not_first [of r "CHR ''?''"]
  by (auto simp: parse_time_arg_def Let_def spec_keys_def mandatory_def case_prod_beta bindR_eq_Inr
      split: if_splits intro!: put_effect skip_effect)

lemma rest_arg_effect:
  assumes "parse_rest_arg key (sfx @ r) p d = Inr (ty', p', d')"
    and "sfx = [] \<or> sfx = ''?''" and "rest_ok r"
  shows "ty' = r \<and> arg_effect env (Arg key CHR ''S'' sfx) d d'"
  using assms rest_not_first [of r "CHR ''?''"]
  by (auto simp: parse_rest_arg_def Let_def spec_keys_def mandatory_def
      split: if_splits intro!: put_effect skip_effect)

lemma put_all_effect:
  "put_all kvs d k = d k \<or> (\<exists>v. put_all kvs d k = Some v \<and> (k, v) \<in> set kvs)"
proof (induction kvs arbitrary: d)
  case Nil
  then show ?case by (simp add: put_all_def)
next
  case (Cons kv kvs)
  define d1 where "d1 = d(fst kv \<mapsto> snd kv)"
  have d1: "d1 k = d k \<or> d1 k = Some (snd kv) \<and> fst kv = k" by (simp add: d1_def)
  have "put_all (kv # kvs) d = put_all kvs d1" by (simp add: put_all_def d1_def case_prod_beta)
  with Cons.IH [of d1] d1 show ?case by (metis list.set_intros prod.collapse)
qed

lemma opts_arg_effect:
  assumes "parse_opts_arg env key r p d = Inr (ty', p', d')"
  shows "ty' = r \<and> arg_effect env (Arg key CHR ''O'' []) d d'"
proof -
  have no: "\<not> mandatory (Arg key CHR ''O'' [])" by (simp add: mandatory_def)
  have "arg_effect env (Arg key CHR ''O'' []) d (put_all kvs d)"
    if "parse_opts env key buf = Some kvs" "find_opts env key = Some False" for buf kvs
    using that put_all_effect [of kvs d] no by (force simp: arg_effect_def justified_def listed_def)
  with assms no show ?thesis
    by (auto simp: parse_opts_arg_def Let_def split: if_splits sum.splits option.splits intro!: skip_effect)
qed

lemma bool_arg_effect:
  "parse_bool_arg key r p d = Inr (ty', p', d') \<Longrightarrow> ty' = r \<and> arg_effect env (Arg key CHR ''b'' []) d d'"
  by (auto simp: parse_bool_arg_def Let_def spec_keys_def split: if_splits intro!: put_effect)

lemma option_arg_effect:
  assumes "parse_option_arg key (sfx @ r) p d = Inr (ty', p', d')" and "length sfx = 1"
  shows "ty' = r \<and> arg_effect env (Arg key CHR ''-'' sfx) d d'"
proof -
  from assms(2) obtain c where "sfx = [c]" by (cases sfx) auto
  with assms show ?thesis
    by (auto simp: parse_option_arg_def Let_def spec_keys_def mandatory_def split: if_splits
        intro!: put_effect skip_effect)
qed

lemma format_arg_effect:
  assumes "parse_format_arg pf r p d = (pf', Inr (ty', p', d'))"
  shows "ty' = r \<and> arg_effect env (Arg key CHR ''/'' []) d d'"
proof -
  have "arg_effect env (Arg key CHR ''/'' []) d (put_format n f s d)" for n f s
    by (auto simp: arg_effect_def justified_def spec_keys_def put_format_def)
  with assms show ?thesis
    by (auto simp: parse_format_arg_def Let_def case_prod_beta split: if_splits)
qed

text \<open>The suffix is read, up to a \<open>?\<close> that is not.\<close>

lemma suffix_split: "arg_suffix a = read_suffix a @ unread a"
proof -
  have "\<exists>n. read_suffix a = take n (arg_suffix a)"
    by (auto simp: read_suffix_def intro: exI [of _ 0] exI [of _ 1] exI [of _ "length (arg_suffix a)"])
  then show ?thesis by (auto simp: unread_def min_def)
qed

lemma unread_cases: "spec_ok a \<Longrightarrow> unread a = [] \<or> unread a = ''?'' \<and> arg_letter a \<in> set ''bO-''"
  by (auto simp: spec_ok_def read_suffix_def unread_def split: if_splits)

lemma arg_step:
  assumes "spec_ok (Arg key c sfx)" and "rest_ok r \<or> c \<in> set ''bO-''" and "s = read_suffix (Arg key c sfx)"
    and "parse_arg env pf c key (s @ r) p d = (pf', Inr (ty', p', d'))"
  shows "ty' = r \<and> arg_effect env (Arg key c s) d d'"
proof -
  have c: "c \<in> set ''FBs'' \<or> c \<in> set ''ilM'' \<or> c = CHR ''o'' \<or> c = CHR ''T'' \<or>
      c = CHR ''S'' \<or> c = CHR ''b'' \<or> c = CHR ''O'' \<or> c = CHR ''-'' \<or> c = CHR ''/''"
    using assms(1) unfolding spec_ok_def argspec.sel suffix_ok.simps by (rule contrapos_pp) simp
  have s: "suffix_ok c sfx" "s = (if c \<in> set ''bO'' then [] else if c = CHR ''-'' then take 1 sfx else sfx)"
    using assms(1,3) unfolding spec_ok_def read_suffix_def argspec.sel by blast+
  note run = assms(4) [unfolded parse_arg_def]
  from c consider "c \<in> set ''FBs''" | "c \<in> set ''ilM''" | "c = CHR ''o''" | "c = CHR ''T''" | "c = CHR ''S''"
    | "c = CHR ''b''" | "c = CHR ''O''" | "c = CHR ''-''" | "c = CHR ''/''"
    by (elim disjE)
  then show ?thesis
  proof cases
    case 1
    then show ?thesis using run s assms(2) by (intro string_arg_effect [of c]) auto
  next
    case 2
    then show ?thesis using run s assms(2) by (intro int_arg_effect [of "arg_target env" c]) auto
  next
    case 3
    then show ?thesis using run s assms(2) size_arg_effect [of env key s r p d ty' p' d'] by auto
  next
    case 4
    then show ?thesis using run s assms(2) time_arg_effect [of env key s r p d ty' p' d'] by auto
  next
    case 5
    then show ?thesis using run s assms(2) rest_arg_effect [of key s r p d ty' p' d'] by auto
  next
    case 6
    then show ?thesis using run s bool_arg_effect [of key r p d ty' p' d'] by auto
  next
    case 7
    then show ?thesis using run s opts_arg_effect [of env key r p d ty' p' d'] by auto
  next
    case 8
    then have "length s = 1" using s by auto
    then show ?thesis using 8 run option_arg_effect [of key s r p d ty' p' d'] by auto
  next
    case 9
    then show ?thesis using run s format_arg_effect [of pf r p d pf' ty' p' d'] by auto
  qed
qed

lemma key_get_info_spec:
  assumes "spec_ok a" and "r = spec_text a @ t \<or> r = CHR '','' # spec_text a @ t"
  shows "key_get_info r = Some (arg_key a, arg_letter a # arg_suffix a @ t)"
proof -
  let ?s = "arg_key a @ CHR '':'' # arg_letter a # arg_suffix a @ t"
  have k: "takeWhile (\<lambda>c. c \<noteq> CHR '':'') ?s = arg_key a"
    "dropWhile (\<lambda>c. c \<noteq> CHR '':'') ?s = CHR '':'' # arg_letter a # arg_suffix a @ t"
    using assms(1) by (simp_all add: spec_ok_def takeWhile_append dropWhile_append)
  have "(case ?s of c # cs \<Rightarrow> if c = CHR '','' then cs else ?s | [] \<Rightarrow> []) = ?s"
    using assms(1) by (cases "arg_key a") (auto simp: spec_ok_def)
  with assms(2) k show ?thesis
    unfolding key_get_info_def spec_text_def by (auto simp: Let_def)
qed

lemma type_string_Cons:
  "type_string (a # as) = spec_text a @ (if as = [] then [] else CHR '','' # type_string as)"
  by (cases as) simp_all

definition args_effect :: "'d arg_env \<Rightarrow> argspec list \<Rightarrow> 'd qdict \<Rightarrow> 'd qdict \<Rightarrow> bool" where
  "args_effect env as d d' \<longleftrightarrow>
     (\<forall>k. d' k = d k \<or> (\<exists>v. d' k = Some v \<and> (\<exists>a \<in> set as. justified env a k v))) \<and>
     (\<forall>a \<in> set as. mandatory a \<longrightarrow> set (spec_keys a) \<subseteq> dom d')"

lemma args_effect_Cons:
  assumes a: "arg_effect env a d d1" and as: "args_effect env as d1 d'"
  shows "args_effect env (a # as) d d'"
proof -
  have "d' k = d k \<or> (\<exists>v. d' k = Some v \<and> (\<exists>b \<in> set (a # as). justified env b k v))" for k
    using a as unfolding arg_effect_def args_effect_def by (metis list.set_intros)
  moreover have "dom d1 \<subseteq> dom d'" using as unfolding args_effect_def dom_def by force
  ultimately show ?thesis using a as unfolding arg_effect_def args_effect_def by (auto 0 0) blast
qed

text \<open>One round of the loop.\<close>

lemma loop_round:
  assumes "spec_ok a" and "r = spec_text a @ t \<or> r = CHR '','' # spec_text a @ t" and "t = [] \<or> List.hd t = CHR '',''"
    and "parse_args_loop env pf r p d = (pf', Inr (p', d'))"
  obtains pf1 p1 d1 where "parse_args_loop env pf1 (unread a @ t) p1 d1 = (pf', Inr (p', d'))"
    and "arg_effect env (cut_spec a) d d1"
proof -
  have r: "key_get_info r = Some (arg_key a, arg_letter a # read_suffix a @ unread a @ t)"
    using key_get_info_spec [OF assms(1,2)] suffix_split [of a] by simp
  obtain pf1 ty p1 d1 where
    step: "parse_arg env pf (arg_letter a) (arg_key a) (read_suffix a @ unread a @ t) p d = (pf1, Inr (ty, p1, d1))"
    and loop: "parse_args_loop env pf1 ty p1 d1 = (pf', Inr (p', d'))"
    using assms(4) by (subst (asm) parse_args_loop.simps) (auto simp: r split: prod.splits sum.splits)
  have "rest_ok (unread a @ t) \<or> arg_letter a \<in> set ''bO-''"
    using unread_cases [OF assms(1)] assms(3) by (auto simp: rest_ok_def)
  with arg_step [of "arg_key a" "arg_letter a" "arg_suffix a", OF _ _ _ step] assms(1)
  have "ty = unread a @ t" "arg_effect env (cut_spec a) d d1" by (simp_all add: cut_spec_def)
  with loop that show thesis by simp
qed

lemma loop_effect:
  assumes "\<forall>a \<in> set as. spec_ok a" and "r = type_string as \<or> r = CHR '','' # type_string as"
    and "parse_args_loop env pf r p d = (pf', Inr (p', d'))"
  shows "args_effect env (as_read as) d d'"
  using assms
proof (induction as arbitrary: r pf p d rule: as_read.induct)
  case 1
  then have "key_get_info r = None" by (auto simp: key_get_info_def)
  with 1(3) show ?case by (auto simp: parse_args_loop.simps [of env pf r] args_effect_def)
next
  case (2 a)
  have a: "spec_ok a" "r = spec_text a @ [] \<or> r = CHR '','' # spec_text a @ []" using 2(1,2) by simp_all
  obtain pf1 p1 d1 where l: "parse_args_loop env pf1 (unread a) p1 d1 = (pf', Inr (p', d'))"
    "arg_effect env (cut_spec a) d d1" using loop_round [OF a _ 2(3)] by auto
  have "key_get_info (unread a) = None" using unread_cases [OF a(1)] by (auto simp: key_get_info_def)
  with l(1) have "args_effect env [] d1 d'"
    by (simp add: parse_args_loop.simps [of env pf1 "unread a"] args_effect_def)
  from args_effect_Cons [OF l(2) this] show ?case by simp
next
  case (3 a b as)
  let ?t = "CHR '','' # type_string (b # as)" and ?b = "behind (unread a) b"
  have a: "spec_ok a" "r = spec_text a @ ?t \<or> r = CHR '','' # spec_text a @ ?t" using 3(2,3) by simp_all
  obtain pf1 p1 d1 where l: "parse_args_loop env pf1 (unread a @ ?t) p1 d1 = (pf', Inr (p', d'))"
    "arg_effect env (cut_spec a) d d1" using loop_round [OF a _ 3(4)] by auto
  have u: "unread a = [] \<or> unread a = ''?''" using unread_cases [OF a(1)] by auto
  have "spec_ok ?b" using 3(2) u by (auto simp: behind_def spec_ok_def)
  then have "\<forall>x \<in> set (?b # as). spec_ok x" using 3(2) by simp
  moreover have "unread a @ ?t = type_string (?b # as) \<or> unread a @ ?t = CHR '','' # type_string (?b # as)"
    using u by (auto simp: behind_def type_string_Cons spec_text_def)
  ultimately have "args_effect env (as_read (?b # as)) d1 d'" using l(1) by (rule 3(1))
  with args_effect_Cons [OF l(2)] show ?case by simp
qed

section \<open>Properties\<close>

text \<open>C25: a command handler gets a well-typed dictionary. When \<open>monitor_parse_arguments\<close> accepts a line
  under a type string made of the documented letters, every key of a mandatory argument is there, and
  every entry has the key and the type of some argument (a string, an integer, for \<open>i\<close> one below
  \<open>2 ^ 32\<close> and for \<open>o\<close> a non-negative one, a boolean, true for an option, or a double) or is one that the
  option list named by an \<open>O\<close> argument gave for some text. The arguments are those the parser reads:
  a \<open>?\<close> behind \<open>b\<close>, \<open>O\<close> or an option, which the comment on the types allows, does not make the argument
  optional but ends up in the next key.\<close>

theorem arguments_typed:
  assumes "\<forall>a \<in> set as. spec_ok a"
    and "monitor_parse_arguments env pf (type_string as) line = (pf', Inr qdict)"
  shows "(\<forall>a \<in> set (as_read as). mandatory a \<longrightarrow> set (spec_keys a) \<subseteq> dom qdict) \<and>
    (\<forall>k v. qdict k = Some v \<longrightarrow>
       (\<exists>a \<in> set (as_read as). k \<in> set (spec_keys a) \<and> has_type (arg_letter a) v \<or> listed env a k v))"
proof -
  from assms(2) obtain p' where "parse_args_loop env pf (type_string as) line Map.empty = (pf', Inr (p', qdict))"
    by (auto simp: monitor_parse_arguments_def split: prod.splits sum.splits if_splits)
  with assms(1) loop_effect [of as] have e: "args_effect env (as_read as) Map.empty qdict" by blast
  show ?thesis
  proof (intro conjI allI impI)
    show "\<forall>a \<in> set (as_read as). mandatory a \<longrightarrow> set (spec_keys a) \<subseteq> dom qdict"
      using e by (simp add: args_effect_def)
    show "\<exists>a \<in> set (as_read as). k \<in> set (spec_keys a) \<and> has_type (arg_letter a) v \<or> listed env a k v"
      if "qdict k = Some v" for k v
    proof -
      from e have "qdict k = None \<or> (\<exists>v. qdict k = Some v \<and> (\<exists>a \<in> set (as_read as). justified env a k v))"
        by (simp add: args_effect_def)
      with that show ?thesis by (auto simp: justified_def)
    qed
  qed
qed

text \<open>An environment without registers, option lists or doubles; a size is always 7.\<close>

definition plain_env :: "nat arg_env" where
  "plain_env =
     \<lparr>arg_target = \<lparr>has_cpu = False, monitor_defs = None, env_i32 = \<lambda>_. 0, env_tlong = \<lambda>_. 0,
                    target_get_monitor_def = \<lambda>_. Inl (- 1)\<rparr>,
      find_opts = \<lambda>_. None, parse_opts = \<lambda>_ _. None, strtosz_MiB = \<lambda>s. (0, [], 7),
      strtod = \<lambda>s. (0, s), not_finite = \<lambda>_. False, div_pow10 = \<lambda>d _. d\<rparr>"

definition accepted :: "print_format \<times> (arg_error + 'd qdict) \<Rightarrow> bool" where
  "accepted r = (case snd r of Inl _ \<Rightarrow> False | Inr _ \<Rightarrow> True)"

lemmas args_eval =
  monitor_parse_arguments_def parse_args_loop.simps key_get_info_def parse_arg_def Let_def
  parse_format_arg_def parse_option_arg_def parse_int_arg_def parse_bool_arg_def int_optional_def int_check_def
  isdigit_c_def initial_format_def

lemma acceptedE: "accepted r \<Longrightarrow> \<exists>pf d. r = (pf, Inr d)"
  by (cases r; cases "snd r") (auto simp: accepted_def)

text \<open>The same with an option list.\<close>

definition opts_env :: "nat arg_env" where
  "opts_env = plain_env\<lparr>find_opts := \<lambda>_. Some False, parse_opts := \<lambda>_ buf. Some [(''driver'', QString buf)]\<rparr>"

lemmas read_defs = spec_keys_def mandatory_def cut_spec_def read_suffix_def unread_def behind_def listed_def

theorem arguments_typed_witness:
  "(\<exists>pf' qdict. monitor_parse_arguments plain_env initial_format ''fmt:/,all:-a,addr:i'' '' /4xb -a (2+3)*8'' =
       (pf', Inr qdict) \<and> (\<exists>n. qdict ''addr'' = Some (QInt n) \<and> unat n < 2 ^ 32))
   \<and> (\<exists>pf' qdict. monitor_parse_arguments plain_env initial_format ''state:b?,addr:i'' ''on 7'' = (pf', Inr qdict)
      \<and> qdict ''?,addr'' \<noteq> None \<and> qdict ''addr'' = None)
   \<and> (\<exists>pf' qdict. monitor_parse_arguments opts_env initial_format ''device:O'' ''vfio'' = (pf', Inr qdict)
      \<and> dom qdict \<subseteq> {''driver''})"
proof (intro conjI)
  let ?as = "[Arg ''fmt'' CHR ''/'' [], Arg ''all'' CHR ''-'' ''a'', Arg ''addr'' CHR ''i'' []]"
  have t: "type_string ?as = ''fmt:/,all:-a,addr:i''" by (simp add: spec_text_def)
  have "accepted (monitor_parse_arguments plain_env initial_format ''fmt:/,all:-a,addr:i'' '' /4xb -a (2+3)*8'')"
    by (simp add: accepted_def args_eval expr_eval)
  then obtain pf' d where
    ok: "monitor_parse_arguments plain_env initial_format (type_string ?as) '' /4xb -a (2+3)*8'' = (pf', Inr d)"
    using acceptedE unfolding t by blast
  have "\<forall>a \<in> set ?as. spec_ok a" by (simp add: spec_ok_def)
  from arguments_typed [OF this ok] have "''addr'' \<in> dom d"
    "\<forall>v. d ''addr'' = Some v \<longrightarrow> has_type CHR ''i'' v"
    by (auto simp: read_defs)
  then obtain v where "d ''addr'' = Some v" "has_type CHR ''i'' v" by auto
  then show "\<exists>pf' qdict. monitor_parse_arguments plain_env initial_format ''fmt:/,all:-a,addr:i'' '' /4xb -a (2+3)*8'' =
       (pf', Inr qdict) \<and> (\<exists>n. qdict ''addr'' = Some (QInt n) \<and> unat n < 2 ^ 32)"
    using ok [unfolded t] by (cases v) auto
next
  let ?as = "[Arg ''state'' CHR ''b'' ''?'', Arg ''addr'' CHR ''i'' []]"
  have t: "type_string ?as = ''state:b?,addr:i''" by (simp add: spec_text_def)
  have "accepted (monitor_parse_arguments plain_env initial_format ''state:b?,addr:i'' ''on 7'')"
    by (simp add: accepted_def args_eval expr_eval isgraph_c_def)
  then obtain pf' d where
    ok: "monitor_parse_arguments plain_env initial_format (type_string ?as) ''on 7'' = (pf', Inr d)"
    using acceptedE unfolding t by blast
  have "\<forall>a \<in> set ?as. spec_ok a" by (simp add: spec_ok_def)
  from arguments_typed [OF this ok] have "''?,addr'' \<in> dom d" "d ''addr'' = Some v \<Longrightarrow> False" for v
    by (simp_all add: read_defs) fastforce+
  then have "''?,addr'' \<in> dom d" "d ''addr'' = None" by (cases "d ''addr''"; blast)+
  then show "\<exists>pf' qdict. monitor_parse_arguments plain_env initial_format ''state:b?,addr:i'' ''on 7'' = (pf', Inr qdict)
      \<and> qdict ''?,addr'' \<noteq> None \<and> qdict ''addr'' = None"
    using ok [unfolded t] by auto
next
  let ?as = "[Arg ''device'' CHR ''O'' []]"
  have t: "type_string ?as = ''device:O''" by (simp add: spec_text_def)
  have "accepted (monitor_parse_arguments opts_env initial_format ''device:O'' ''vfio'')"
    by (simp add: accepted_def args_eval parse_opts_arg_def opts_env_def get_str_def put_char_def isspace_c_def)
  then obtain pf' d where ok: "monitor_parse_arguments opts_env initial_format (type_string ?as) ''vfio'' = (pf', Inr d)"
    using acceptedE unfolding t by blast
  have "\<forall>a \<in> set ?as. spec_ok a" by (simp add: spec_ok_def)
  from arguments_typed [OF this ok] have "dom d \<subseteq> {''driver''}"
    by (auto simp: spec_keys_def mandatory_def cut_spec_def read_suffix_def listed_def opts_env_def)
  then show "\<exists>pf' qdict. monitor_parse_arguments opts_env initial_format ''device:O'' ''vfio'' = (pf', Inr qdict)
      \<and> dom qdict \<subseteq> {''driver''}" using ok [unfolded t] by blast
qed

text \<open>The remembered print format stays one the \<open>x\<close> command knows.\<close>

definition format_ok :: "print_format \<Rightarrow> bool" where
  "format_ok pf \<longleftrightarrow> default_fmt_format pf \<in> {111, 100, 117, 120, 105, 99} \<and> default_fmt_size pf \<in> {1, 2, 4, 8}"

lemma read_format_ok:
  "read_format f s p = (f', s', q) \<Longrightarrow> f' \<in> {f, 111, 100, 117, 120, 105, 99} \<and> s' \<in> {s, 1, 2, 4, 8}"
  by (induction f s p rule: read_format.induct) (auto split: if_splits)

lemma parse_format_ok:
  assumes "format_ok pf" and "parse_format_arg pf ty p d = (pf', r)"
  shows "format_ok pf'"
proof -
  have f: "fst (read_format (- 1) (- 1) q) \<in> {- 1, 111, 100, 117, 120, 105, 99}"
    "fst (snd (read_format (- 1) (- 1) q)) \<in> {- 1, 1, 2, 4, 8}" for q
    using read_format_ok [of "- 1" "- 1" q] by (cases "read_format (- 1) (- 1) q"; simp)+
  let ?p2 = "tl (skip_spaces p)"
  define q where "q = snd (case ?p2 of [] \<Rightarrow> (1 :: u32, ?p2) | c # _ \<Rightarrow> if isdigit_c c then read_count 0 ?p2 else (1, ?p2))"
  obtain f1 s1 q1 where r: "read_format (- 1) (- 1) q = (f1, s1, q1)" by (cases "read_format (- 1) (- 1) q")
  define f2 where "f2 = (if f1 < 0 then default_fmt_format pf else f1)"
  define s2 where "s2 = (if f2 \<noteq> 105 \<and> s1 < 0 then default_fmt_size pf else s1)"
  have "pf' = pf \<or> pf' = pf\<lparr>default_fmt_format := f2, default_fmt_size := if f2 \<noteq> 105 then s2 else default_fmt_size pf\<rparr>"
    using assms(2) r unfolding parse_format_arg_def Let_def case_prod_beta f2_def s2_def q_def [symmetric]
    by (simp split: if_splits)
  moreover have "f2 \<in> {111, 100, 117, 120, 105, 99}"
    using f(1) [of q] assms(1) r by (auto simp: f2_def format_ok_def)
  moreover have "f2 \<noteq> 105 \<Longrightarrow> s2 \<in> {1, 2, 4, 8}"
    using f(2) [of q] assms(1) r by (auto simp: s2_def format_ok_def)
  ultimately show ?thesis using assms(1) unfolding format_ok_def by (elim disjE) simp_all
qed

lemma loop_format_ok:
  "parse_args_loop env pf ty p d = (pf', r) \<Longrightarrow> format_ok pf \<Longrightarrow> format_ok pf'"
proof (induction env pf ty p d rule: parse_args_loop.induct)
  case (1 env pf ty p d)
  have arg: "format_ok pf1" if "parse_arg env pf c key t p d = (pf1, x)" for c key t x pf1
    using that 1(3) parse_format_ok by (auto simp: parse_arg_def split: if_splits)
  show ?case
  proof (cases "\<exists>key c t. key_get_info ty = Some (key, c # t)")
    case False
    then show ?thesis
      using 1(2,3) by (subst (asm) parse_args_loop.simps) (auto split: option.splits list.splits)
  next
    case True
    then obtain key c t where k: "key_get_info ty = Some (key, c # t)" by blast
    obtain pf1 x where s: "parse_arg env pf c key t p d = (pf1, x)" by force
    show ?thesis
    proof (cases x)
      case (Inl e)
      then show ?thesis using 1(2) arg [OF s] by (subst (asm) parse_args_loop.simps) (simp add: k s)
    next
      case (Inr y)
      obtain t1 p1 d1 where y: "y = (t1, p1, d1)" by (cases y)
      have "parse_args_loop env pf1 t1 p1 d1 = (pf', r)"
        using 1(2) Inr y by (simp add: parse_args_loop.simps [of env pf] k s)
      then show ?thesis
        using arg [OF s] 1(1) [OF k refl refl s [symmetric] Inr y [symmetric] refl] 1(3) by simp
    qed
  qed
qed

text \<open>Whatever line is parsed under whatever type string, accepted or refused, the print format the
  monitor remembers is one of \<open>o\<close>, \<open>d\<close>, \<open>u\<close>, \<open>x\<close>, \<open>i\<close>, \<open>c\<close> and the remembered size one of 1, 2, 4, 8.\<close>

theorem print_format_stays_valid:
  assumes "format_ok pf"
  shows "format_ok (fst (monitor_parse_arguments env pf ty line))"
  using assms loop_format_ok [of env pf ty line Map.empty]
  by (auto simp: monitor_parse_arguments_def split: prod.splits sum.splits)

theorem print_format_stays_valid_witness:
  "format_ok (fst (monitor_parse_arguments plain_env initial_format ''fmt:/,addr:l'' ''/i 0x10''))"
  by (rule print_format_stays_valid) (simp add: format_ok_def initial_format_def)

text \<open>
  The notes on the types promise a non-negative value for \<open>M\<close> and an optional form of \<open>b\<close>. The value
  of \<open>M\<close> is checked before it is shifted into the sign, and \<open>b?\<close> demands its argument.
\<close>

theorem M_argument_turns_negative:
  "map_sum id (\<lambda>d. d ''value'') (snd (monitor_parse_arguments plain_env initial_format ''value:M'' ''8796093022208''))
     = Inr (Some (QInt 0x8000000000000000))"
  by (simp add: args_eval expr_eval)

theorem boolean_is_never_optional:
  "monitor_parse_arguments env pf ''option:b?'' [] = (pf, Inl On_off_expected)"
  by (simp add: monitor_parse_arguments_def parse_args_loop.simps key_get_info_def parse_arg_def
      parse_bool_arg_def)

section \<open>Command lookup\<close>

definition word_ok :: "string \<Rightarrow> bool" where
  "word_ok w \<longleftrightarrow> w \<noteq> [] \<and> length w \<le> 255 \<and> (\<forall>c \<in> set w. \<not> isspace_c c \<and> c \<noteq> CHR ''/'')"

fun unwords :: "string list \<Rightarrow> string" where
  "unwords [] = []"
| "unwords [w] = w"
| "unwords (w # ws) = w @ CHR '' '' # unwords ws"

text \<open>The command a path of words leads to in the tree of tables.\<close>

fun walk_tables :: "'h mon_cmd list \<Rightarrow> string list \<Rightarrow> 'h parsed_cmd" where
  "walk_tables table [] = Blank"
| "walk_tables table (w # ws) =
     (case search_dispatch_table table w of
        None \<Rightarrow> Unknown_command w
      | Some c \<Rightarrow> (case sub_table c of
            None \<Rightarrow> Command c (unwords ws)
          | Some sub \<Rightarrow> if ws = [] then Command c [] else walk_tables sub ws))"

lemma command_name_word:
  assumes "word_ok w" and "t = [] \<or> isspace_c (List.hd t)"
  shows "get_command_name 256 (w @ t) = Some (w, t)"
proof -
  let ?P = "\<lambda>c. c \<noteq> CHR ''/'' \<and> \<not> isspace_c c"
  have s: "skip_spaces (w @ t) = w @ t" using assms(1) by (cases w) (auto simp: word_ok_def)
  have "takeWhile ?P t = []" "dropWhile ?P t = t" using assms(2) by (cases t; auto)+
  then have "takeWhile ?P (w @ t) = w" "dropWhile ?P (w @ t) = t"
    using assms(1) by (auto simp: word_ok_def takeWhile_append dropWhile_append)
  then show ?thesis using assms(1) unfolding get_command_name_def s by (auto simp: word_ok_def)
qed

lemma unwords_first:
  assumes "ws \<noteq> []" and "\<forall>w \<in> set ws. word_ok w"
  shows "unwords ws \<noteq> [] \<and> skip_spaces (unwords ws) = unwords ws"
proof -
  from assms obtain c v ws' where "ws = (c # v) # ws'" "\<not> isspace_c c"
    by (cases ws; cases "List.hd ws") (auto simp: word_ok_def)
  then show ?thesis by (cases ws') auto
qed

text \<open>A command line of plain words is looked up along the tree of command tables: each word selects
  the first entry of its table that has it as an alias, a word behind a command with a second level
  is looked up there, and what remains is the text of the arguments.\<close>

theorem command_path_resolves:
  assumes "\<forall>w \<in> set ws. word_ok w"
  shows "monitor_parse_command table (unwords ws) = walk_tables table ws"
  using assms
proof (induction ws arbitrary: table)
  case Nil
  then show ?case by (simp add: monitor_parse_command.simps get_command_name_def)
next
  case (Cons w ws)
  let ?t = "if ws = [] then [] else CHR '' '' # unwords ws"
  have u: "unwords (w # ws) = w @ ?t" by (cases ws) simp_all
  have n: "get_command_name 256 (w @ ?t) = Some (w, ?t)"
    using Cons.prems by (intro command_name_word) (simp_all add: isspace_c_def)
  have sk: "skip_spaces ?t = unwords ws"
    using unwords_first [of ws] Cons.prems by (auto simp: isspace_c_def)
  have "unwords ws = [] \<longleftrightarrow> ws = []" using unwords_first [of ws] Cons.prems by auto
  with Cons.IH Cons.prems show ?case
    unfolding u by (subst monitor_parse_command.simps) (simp only: n sk option.case prod.case, simp split: option.split)
qed

definition demo_table :: "nat mon_cmd list" where
  "demo_table =
     [Mon_cmd ''help|?'' ''name:S?'' ''[cmd]'' ''show the help'' 1 None None,
      Mon_cmd ''info|i'' ''item:s?'' ''[subcommand]'' ''show various information'' 2
        (Some [Mon_cmd ''version'' [] [] ''show the version'' 3 None None,
               Mon_cmd ''mtree'' ''flatview:-f'' ''[-f]'' ''show memory tree'' 4 None None]) None]"

theorem command_path_resolves_witness:
  "monitor_parse_command demo_table ''i version now'' =
   Command (Mon_cmd ''version'' [] [] ''show the version'' 3 None None) ''now''"
proof -
  have w: "\<forall>w \<in> set [''i'', ''version'', ''now'']. word_ok w" by (simp add: word_ok_def isspace_c_def)
  show ?thesis
    using command_path_resolves [OF w, of demo_table]
    by (simp add: demo_table_def search_dispatch_table_def compare_cmd.simps)
qed

end
