(* ===== verification/Mon_Expr_Props.thy ===== *)
theory Mon_Expr_Props
  imports Mon_Expr_Fuel
begin

text \<open>
  What the expressions of the monitor mean: expression trees with their values, written with the
  fewest parentheses, and the theorem that \<open>get_expr\<close> computes the value of the tree (its errors
  included). \<open>&\<close>, \<open>|\<close> and \<open>^\<close> bind tighter than \<open>+\<close> and \<open>-\<close>, looser than \<open>*\<close>, \<open>/\<close> and \<open>%\<close>, and
  every operator associates to the left.
\<close>

section \<open>Expression trees\<close>

datatype ast = Num u64 | Chr char | Reg string | Unop char ast | Binop char ast ast

definition level :: "char \<Rightarrow> nat" where
  "level op = (if is_prod op then 2 else if is_logic op then 1 else 0)"

fun ast_ok :: "ast \<Rightarrow> bool" where
  "ast_ok (Num n) = True"
| "ast_ok (Chr c) = (c \<noteq> CHR 0x00)"
| "ast_ok (Reg r) = (\<forall>c \<in> set r. is_reg_char c)"
| "ast_ok (Unop op e) = ((op = CHR ''+'' \<or> op = CHR ''-'' \<or> op = CHR ''~'') \<and> ast_ok e)"
| "ast_ok (Binop op a b) = ((is_prod op \<or> is_logic op \<or> is_sum op) \<and> ast_ok a \<and> ast_ok b)"

definition apply_op :: "char \<Rightarrow> u64 \<Rightarrow> u64 \<Rightarrow> expr_error + u64" where
  "apply_op op v w =
     (if is_prod op then apply_prod op v w else if is_logic op then Inr (apply_logic op v w)
      else Inr (apply_sum op v w))"

fun ast_value :: "target \<Rightarrow> ast \<Rightarrow> expr_error + u64" where
  "ast_value tg (Num n) = Inr n"
| "ast_value tg (Chr c) = Inr (char_value c)"
| "ast_value tg (Reg r) =
     (case get_monitor_def tg (take 127 r) of Inl _ \<Rightarrow> Inl Unknown_register | Inr v \<Rightarrow> Inr v)"
| "ast_value tg (Unop op e) =
     bindR (ast_value tg e) (\<lambda>v. Inr (if op = CHR ''-'' then - v else if op = CHR ''~'' then not v else v))"
| "ast_value tg (Binop op a b) =
     bindR (ast_value tg a) (\<lambda>v. bindR (ast_value tg b) (\<lambda>w. apply_op op v w))"

fun decimal :: "nat \<Rightarrow> string" where
  "decimal n = (if n < 10 then [char_of (48 + n)] else decimal (n div 10) @ [char_of (48 + n mod 10)])"

declare decimal.simps [simp del]

text \<open>\<open>text_of k e\<close> writes \<open>e\<close> where an operand of level \<open>k\<close> is expected.\<close>

fun text_of :: "nat \<Rightarrow> ast \<Rightarrow> string" where
  "text_of k (Num n) = decimal (unat n)"
| "text_of k (Chr c) = [CHR 0x27, c, CHR 0x27]"
| "text_of k (Reg r) = CHR ''$'' # r"
| "text_of k (Unop op e) = op # text_of 3 e"
| "text_of k (Binop op a b) =
     (let t = text_of (level op) a @ op # text_of (Suc (level op)) b
      in if level op < k then ''('' @ t @ '')'' else t)"

section \<open>Decimal numbers\<close>

lemma digit_of: "d < 10 \<Longrightarrow> digit_val b (char_of (48 + d)) = (if d < b then Some d else None)"
  by (simp add: digit_val_def Let_def)

lemma digit_char:
  fixes d :: nat
  assumes "d < 10"
  shows "\<not> isspace_c (char_of (48 + d))" "char_of (48 + d) \<noteq> CHR ''-''" "char_of (48 + d) \<noteq> CHR ''+''"
    "char_of (48 + d) = CHR ''0'' \<longleftrightarrow> d = 0" "char_of (48 + d) \<notin> set ''~($''"
    "char_of (48 + d) \<noteq> CHR 0x27"
  using assms by (simp_all add: isspace_c_def char_of_eq_iff take_bit_eq_mod)

lemma decimal_digits: "c \<in> set (decimal n) \<Longrightarrow> \<exists>d < 10 :: nat. c = char_of (48 + d)"
proof (induction n rule: decimal.induct)
  case (1 n)
  show ?case
  proof (cases "n < 10")
    case True
    with 1 show ?thesis by (auto simp: decimal.simps [of n] intro!: exI [of _ n])
  next
    case False
    with 1 show ?thesis by (auto simp: decimal.simps [of n] intro: exI [of _ "n mod 10"])
  qed
qed

lemma read_digits_decimal:
  "read_digits 10 0 (decimal n @ t) = read_digits 10 n t"
proof (induction n arbitrary: t rule: decimal.induct)
  case (1 n)
  show ?case
  proof (cases "n < 10")
    case True
    then show ?thesis by (simp add: decimal.simps [of n] digit_of)
  next
    case False
    with 1 show ?thesis
      by (subst decimal.simps) (simp add: digit_of)
  qed
qed

lemma decimal_first:
  "\<exists>(d :: nat) cs. decimal n = char_of (48 + d :: nat) # cs \<and> d < 10 \<and> (d = 0 \<longrightarrow> n = 0 \<and> cs = [])"
proof (induction n rule: decimal.induct)
  case (1 n)
  show ?case
  proof (cases "n < 10")
    case True
    then show ?thesis by (auto simp: decimal.simps [of n] intro!: exI [of _ n])
  next
    case False
    with 1 obtain d cs where "decimal (n div 10) = char_of (48 + d :: nat) # cs" "d < 10" "d = 0 \<longrightarrow> n div 10 = 0"
      by auto
    moreover from this False have "d \<noteq> 0" by auto
    ultimately show ?thesis using False by (subst decimal.simps) (auto intro: exI [of _ d])
  qed
qed

text \<open>What may follow an operand: the end, a closing parenthesis or a binary operator.\<close>

definition tail_ok :: "string \<Rightarrow> bool" where
  "tail_ok t \<longleftrightarrow> t = [] \<or> is_prod (List.hd t) \<or> is_logic (List.hd t) \<or> is_sum (List.hd t) \<or> List.hd t = CHR '')''"

lemma tail_ok_stops:
  assumes "tail_ok t"
  shows "skip_spaces t = t" "read_digits 10 n t = n" "dropWhile (\<lambda>c. digit_val 10 c \<noteq> None) t = t"
    "dropWhile (\<lambda>c. digit_val 8 c \<noteq> None) t = t" "takeWhile is_reg_char t = []" "dropWhile is_reg_char t = t"
    "read_digits 8 n t = n"
  using assms
  by (cases t; auto simp: tail_ok_def isspace_c_def digit_val_def is_reg_char_def)+

lemma digits_dropped:
  "\<forall>c \<in> set xs. \<exists>d < 10 :: nat. c = char_of (48 + d) \<Longrightarrow>
     dropWhile (\<lambda>c. digit_val 10 c \<noteq> None) (xs @ t) = dropWhile (\<lambda>c. digit_val 10 c \<noteq> None) t"
  by (induction xs) (auto simp: digit_of)

lemma strtoull0_decimal:
  assumes "tail_ok t" and m: "m < 2 ^ 64"
  shows "strtoull0 (decimal m @ t) = (False, of_nat m, t)"
proof -
  note stop = tail_ok_stops [OF assms(1)]
  obtain d cs where s: "decimal m = char_of (48 + d :: nat) # cs" and d: "d < 10" "d = 0 \<longrightarrow> m = 0 \<and> cs = []"
    using decimal_first by blast
  let ?c = "char_of (48 + d :: nat) :: char" and ?s = "decimal m @ t"
  note c = digit_char [OF d(1)]
  have sign: "read_sign (skip_spaces ?s) = (False, ?s)" using c by (simp add: s)
  have pre: "skip_prefix 16 ?s = ?s"
    using assms(1) c d(2) by (cases t; cases "tl t"; cases cs; cases "tl cs") (auto simp: s tail_ok_def)
  show ?thesis
  proof (cases "m = 0")
    case True
    then have "decimal m = ''0''" by (simp add: decimal.simps [of 0] char_of_eq_iff)
    moreover have "digit_val 8 CHR ''0'' = Some 0" by (simp add: digit_val_def)
    ultimately show ?thesis
      using stop True sign pre by (simp add: strtoull0_def)
  next
    case False
    with c d s have b: "take 1 ?s \<noteq> ''0''" by (auto simp: decimal.simps [of 0])
    have r: "dropWhile (\<lambda>c. digit_val 10 c \<noteq> None) ?s = t"
      using digits_dropped [of "decimal m" t] decimal_digits [of _ m] stop(3) by auto
    have n: "read_digits 10 0 ?s = m" using stop(2) by (simp add: read_digits_decimal)
    show ?thesis
      using b m by (simp only: strtoull0_def sign pre prod.case Let_def simp_thms if_False r n) (simp add: s)
  qed
qed

lemma expr_number_decimal: "tail_ok t \<Longrightarrow> expr_number (decimal (unat v) @ t) = Inr (v, t)"
proof -
  assume t: "tail_ok t"
  have "unat v < 2 ^ 64" using unsigned_less [of v] by simp
  moreover have "decimal (unat v) \<noteq> []" using decimal_first [of "unat v"] by auto
  ultimately show ?thesis using t by (simp add: expr_number_def strtoull0_decimal tail_ok_stops)
qed

section \<open>Reading back a written tree\<close>

text \<open>\<open>starts P t\<close>: the text goes on with a character of \<open>P\<close>.\<close>

definition starts :: "(char \<Rightarrow> bool) \<Rightarrow> string \<Rightarrow> bool" where
  "starts P t \<longleftrightarrow> t \<noteq> [] \<and> P (List.hd t)"

definition reads_unary :: "target \<Rightarrow> ast \<Rightarrow> bool" where
  "reads_unary tg e \<longleftrightarrow> (\<forall>t. tail_ok t \<longrightarrow>
     parse_unary tg (text_of 3 e @ t) = bindR (ast_value tg e) (\<lambda>v. Inr (v, t)))"

definition reads_prod :: "target \<Rightarrow> ast \<Rightarrow> bool" where
  "reads_prod tg e \<longleftrightarrow> (\<forall>t. tail_ok t \<longrightarrow>
     parse_prod tg (text_of 2 e @ t) = bindR (ast_value tg e) (\<lambda>v. rest_prod tg v t))"

definition reads_logic :: "target \<Rightarrow> ast \<Rightarrow> bool" where
  "reads_logic tg e \<longleftrightarrow> (\<forall>t. tail_ok t \<and> \<not> starts is_prod t \<longrightarrow>
     parse_logic tg (text_of 1 e @ t) = bindR (ast_value tg e) (\<lambda>v. rest_logic tg v t))"

definition reads_sum :: "target \<Rightarrow> ast \<Rightarrow> bool" where
  "reads_sum tg e \<longleftrightarrow> (\<forall>t. tail_ok t \<and> \<not> starts is_prod t \<and> \<not> starts is_logic t \<longrightarrow>
     parse_sum tg (text_of 0 e @ t) = bindR (ast_value tg e) (\<lambda>v. rest_sum tg v t))"

lemma bindR_assoc: "bindR (bindR m f) g = bindR m (\<lambda>x. bindR (f x) g)"
  by (simp add: bindR_def split: sum.splits)

lemma rest_stops:
  "\<not> starts is_prod t \<Longrightarrow> rest_prod tg v t = Inr (v, t)"
  "\<not> starts is_logic t \<Longrightarrow> rest_logic tg v t = Inr (v, t)"
  "\<not> starts is_sum t \<Longrightarrow> rest_sum tg v t = Inr (v, t)"
  by (cases t; simp add: starts_def rest_prod_Cons rest_logic_Cons rest_sum_Cons)+

lemma unary_to_prod: "reads_unary tg e \<Longrightarrow> text_of 2 e = text_of 3 e \<Longrightarrow> reads_prod tg e"
  by (simp add: reads_unary_def reads_prod_def parse_prod_eq bindR_assoc)

lemma prod_to_logic: "reads_prod tg e \<Longrightarrow> text_of (Suc 0) e = text_of 2 e \<Longrightarrow> reads_logic tg e"
  by (simp add: reads_prod_def reads_logic_def parse_logic_eq bindR_assoc rest_stops)

lemma logic_to_sum: "reads_logic tg e \<Longrightarrow> text_of 0 e = text_of (Suc 0) e \<Longrightarrow> reads_sum tg e"
  by (simp add: reads_logic_def reads_sum_def parse_sum_eq bindR_assoc rest_stops)

text \<open>No written operand starts with a blank.\<close>

lemma text_first: "ast_ok e \<Longrightarrow> \<exists>c cs. text_of k e = c # cs \<and> \<not> isspace_c c"
proof (induction e arbitrary: k)
  case (Num n)
  obtain d cs where "decimal (unat n) = char_of (48 + d :: nat) # cs" "d < 10"
    using decimal_first [of "unat n"] by blast
  then show ?case using digit_char(1) by auto
next
  case (Binop op a b)
  then obtain c cs where "text_of (level op) a = c # cs" "\<not> isspace_c c" by fastforce
  then show ?case by (auto simp: Let_def isspace_c_def)
qed (auto simp: isspace_c_def)

lemma skip_text [simp]: "ast_ok e \<Longrightarrow> skip_spaces (text_of k e @ t) = text_of k e @ t"
  using text_first [of e k] by auto

lemma paren_to_unary:
  assumes s: "reads_sum tg e" and e: "ast_ok e" "text_of 3 e = ''('' @ text_of 0 e @ '')''"
  shows "reads_unary tg e"
  unfolding reads_unary_def
proof (intro allI impI)
  fix t assume t: "tail_ok t"
  let ?t = "CHR '')'' # t"
  have "tail_ok ?t" "\<not> starts is_prod ?t" "\<not> starts is_logic ?t" "\<not> starts is_sum ?t"
    by (simp_all add: tail_ok_def starts_def)
  with s have "parse_sum tg (text_of 0 e @ ?t) = bindR (ast_value tg e) (\<lambda>v. Inr (v, ?t))"
    by (simp add: reads_sum_def rest_stops)
  with e t show "parse_unary tg (text_of 3 e @ t) = bindR (ast_value tg e) (\<lambda>v. Inr (v, t))"
    by (simp add: parse_unary_Cons bindR_assoc next_pch_def tail_ok_stops)
qed

lemma op_tail:
  "is_prod op \<Longrightarrow> tail_ok (op # t)" "is_logic op \<Longrightarrow> tail_ok (op # t) \<and> \<not> starts is_prod (op # t)"
  "is_sum op \<Longrightarrow> tail_ok (op # t) \<and> \<not> starts is_prod (op # t) \<and> \<not> starts is_logic (op # t)"
  by (auto simp: tail_ok_def starts_def)

lemma binop_reads:
  assumes ok: "ast_ok (Binop op a b)"
    and a: "reads_unary tg a" "reads_prod tg a" "reads_logic tg a" "reads_sum tg a"
    and b: "reads_unary tg b" "reads_prod tg b" "reads_logic tg b" "reads_sum tg b"
  shows "is_prod op \<Longrightarrow> reads_prod tg (Binop op a b)" "is_logic op \<Longrightarrow> reads_logic tg (Binop op a b)"
    "is_sum op \<Longrightarrow> reads_sum tg (Binop op a b)"
proof -
  assume op: "is_prod op"
  show "reads_prod tg (Binop op a b)"
    unfolding reads_prod_def
    using op ok a(2) b(1) op_tail(1) [OF op]
    by (auto simp: level_def Let_def reads_prod_def reads_unary_def rest_prod_Cons bindR_assoc apply_op_def)
next
  assume op: "is_logic op"
  then have "\<not> is_prod op" by auto
  with op show "reads_logic tg (Binop op a b)"
    unfolding reads_logic_def
    using ok a(3) b(2) op_tail(2) [OF op]
    by (auto simp: level_def Let_def reads_logic_def reads_prod_def rest_logic_Cons bindR_assoc
        apply_op_def rest_stops numeral_2_eq_2)
next
  assume op: "is_sum op"
  then have "\<not> is_prod op" "\<not> is_logic op" by auto
  with op show "reads_sum tg (Binop op a b)"
    unfolding reads_sum_def
    using ok a(4) b(3) op_tail(3) [OF op]
    by (auto simp: level_def Let_def reads_logic_def reads_sum_def rest_sum_Cons bindR_assoc
        apply_op_def rest_stops)
qed

lemma atom_reads:
  assumes "reads_unary tg e" and "\<And>k. text_of k e = text_of 3 e"
  shows "reads_unary tg e \<and> reads_prod tg e \<and> reads_logic tg e \<and> reads_sum tg e"
proof -
  note same = assms(2) [of 2] assms(2) [of "Suc 0"] assms(2) [of 0]
  from assms(1) have p: "reads_prod tg e" by (rule unary_to_prod) (simp add: same)
  then have l: "reads_logic tg e" by (rule prod_to_logic) (simp add: same)
  then have "reads_sum tg e" by (rule logic_to_sum) (simp add: same)
  with assms(1) p l show ?thesis by simp
qed

lemma all_read: "ast_ok e \<Longrightarrow> reads_unary tg e \<and> reads_prod tg e \<and> reads_logic tg e \<and> reads_sum tg e"
proof (induction e)
  case (Num n)
  obtain d cs where "decimal (unat n) = char_of (48 + d :: nat) # cs" "d < 10"
    using decimal_first [of "unat n"] by blast
  then have "tail_ok t \<Longrightarrow> parse_unary tg (decimal (unat n) @ t) = Inr (n, t)" for t
    using digit_char [of d] expr_number_decimal [of t n] by (auto simp: parse_unary_Cons)
  then show ?case by (intro atom_reads) (simp_all add: reads_unary_def)
next
  case (Chr c)
  show ?case
    by (intro atom_reads)
      (simp_all add: reads_unary_def parse_unary_Cons expr_char_def next_pch_def tail_ok_stops)
next
  case (Reg r)
  then have r: "takeWhile is_reg_char (r @ t) = r" "dropWhile is_reg_char (r @ t) = t" if "tail_ok t" for t
    using tail_ok_stops(5,6) [OF that] by simp_all
  show ?case
    by (intro atom_reads)
      (simp_all add: reads_unary_def parse_unary_Cons expr_register_def r tail_ok_stops split: sum.splits)
next
  case (Unop op e)
  then show ?case
    by (intro atom_reads)
      (auto simp: reads_unary_def parse_unary_Cons bindR_assoc split: if_splits)
next
  case (Binop op a b)
  let ?e = "Binop op a b"
  from Binop have ok: "ast_ok a" "ast_ok b" by simp_all
  note reads = binop_reads [OF Binop.prems, of tg]
  from Binop.prems consider "is_prod op" | "is_logic op" "\<not> is_prod op" | "is_sum op" "\<not> is_logic op" "\<not> is_prod op"
    by auto
  then show ?case
  proof cases
    case 1
    then have l: "level op = 2" by (simp add: level_def)
    have p: "reads_prod tg ?e" using reads(1) 1 Binop.IH ok by blast
    then have "reads_logic tg ?e" "reads_sum tg ?e"
      using l by (simp_all add: prod_to_logic logic_to_sum)
    with p show ?thesis using Binop.prems l by (simp add: paren_to_unary)
  next
    case 2
    then have l: "level op = 1" by (simp add: level_def)
    have p: "reads_logic tg ?e" using reads(2) 2 Binop.IH ok by blast
    then have s: "reads_sum tg ?e" using l by (simp add: logic_to_sum)
    with l have "reads_unary tg ?e" using Binop.prems by (simp add: paren_to_unary)
    with p s show ?thesis using l by (simp add: unary_to_prod)
  next
    case 3
    then have l: "level op = 0" by (simp add: level_def)
    have s: "reads_sum tg ?e" using reads(3) 3 Binop.IH ok by blast
    with l have u: "reads_unary tg ?e" using Binop.prems by (simp add: paren_to_unary)
    then have "reads_prod tg ?e" using l by (simp add: unary_to_prod)
    moreover from this have "reads_logic tg ?e" using l by (simp add: prod_to_logic)
    ultimately show ?thesis using s u by simp
  qed
qed

section \<open>Properties\<close>

text \<open>C26: A written expression tree has the value of the tree: \<open>get_expr\<close> gives \<open>&\<close>, \<open>|\<close> and \<open>^\<close> a
  precedence between \<open>*\<close>, \<open>/\<close>, \<open>%\<close> and \<open>+\<close>, \<open>-\<close>, associates to the left, wraps at 64 bits, and
  fails (unknown register, division by zero, trap) exactly when the evaluation of the tree from
  left to right does.\<close>

theorem get_expr_evaluates:
  assumes "ast_ok e"
  shows "get_expr tg (text_of 0 e) = bindR (ast_value tg e) (\<lambda>v. Inr (v, []))"
proof -
  have "reads_sum tg e" using all_read [OF assms] by blast
  from this [unfolded reads_sum_def, THEN spec, of "[]"]
  have "parse_sum tg (text_of 0 e) = bindR (ast_value tg e) (\<lambda>v. Inr (v, []))"
    by (simp add: tail_ok_def starts_def)
  then show ?thesis
    using skip_text [OF assms, of 0 "[]"] by (simp add: get_expr_def parse_sum_def)
qed

theorem get_expr_evaluates_witness:
  "\<forall>tg. get_expr tg (text_of 0 (Binop CHR ''-'' (Binop CHR ''|'' (Num 4) (Binop CHR ''*'' (Num 2) (Num 5)))
      (Binop CHR ''+'' (Num 1) (Unop CHR ''~'' (Chr CHR ''A''))))) = Inr (79, [])"
  by (intro allI, subst get_expr_evaluates)
    (simp_all add: apply_op_def apply_prod_def apply_logic_def apply_sum_def char_value_def)

text \<open>\<open>get_expr\<close> returns on every text: the recursion never outruns the fuel, and any larger bound
  on the recursion gives the same result.\<close>

theorem get_expr_ends:
  "get_expr tg pp \<noteq> Inl Out_of_fuel \<and>
   expr_sum tg (expr_fuel (skip_spaces pp) + k) (skip_spaces pp) = get_expr tg pp"
  using have_fuel(6) [of "skip_spaces pp" "expr_fuel (skip_spaces pp)" tg]
  by (simp add: get_expr_def enough_fuel expr_fuel_def)

text \<open>The guard of the divisions tests only for a zero divisor: dividing the least 64-bit integer by
  -1, and taking its remainder, is let through and traps, in an expression the user may type at
  any integer argument.\<close>

theorem least_by_minus_one_traps:
  assumes "ast_value tg a = Inr v" and "ast_value tg b = Inr w" and "ast_ok a" and "ast_ok b"
    and "op = CHR ''/'' \<or> op = CHR ''%''"
  shows "get_expr tg (text_of 0 (Binop op a b)) = Inl Division_trap \<longleftrightarrow> sint v = - (2 ^ 63) \<and> w = - 1"
proof -
  have "ast_ok (Binop op a b)" using assms by auto
  then show ?thesis
    using assms
    by (subst get_expr_evaluates) (auto simp: apply_op_def apply_prod_def expr_div_def)
qed

theorem least_by_minus_one_traps_witness:
  "\<forall>tg. get_expr tg ''9223372036854775808/-1'' = Inl Division_trap"
proof
  fix tg
  have "text_of 0 (Binop CHR ''/'' (Num 9223372036854775808) (Unop CHR ''-'' (Num 1))) = ''9223372036854775808/-1''"
    by (simp add: level_def decimal.simps char_of_eq_iff)
  then show "get_expr tg ''9223372036854775808/-1'' = Inl Division_trap"
    using least_by_minus_one_traps [of tg "Num 9223372036854775808" 9223372036854775808
        "Unop CHR ''-'' (Num 1)" "- 1" "CHR ''/''"] by simp
qed

end
