(* ===== verification/Mon_Fdset.thy ===== *)
theory Mon_Fdset
  imports Mon_Args
begin

text \<open>
  Descriptors passed to the monitor (\<open>monitor.c\<close>): the named descriptors of the current monitor
  (\<open>getfd\<close>, \<open>closefd\<close>, \<open>monitor_get_fd\<close>) and the descriptor sets (\<open>add-fd\<close>, \<open>remove-fd\<close>, the
  duplicates the block layer takes). The lists keep the order of the code, newest first; the set
  list is sorted by id. \<open>closed\<close> and \<open>handed\<close> record every descriptor passed to \<open>close\<close> and every
  one given to a caller for good.
\<close>

section \<open>State\<close>

record mon_fdset_fd =
  fd :: int
  removed :: bool
  opaque :: "string option"

record mon_fdset =
  fs_id :: int
  fs_fds :: "mon_fdset_fd list"
  dup_fds :: "int list"

record fd_state =
  mon_fds :: "(string \<times> int) list"
  mon_fdsets :: "mon_fdset list"
  mon_refcount :: int
  vm_running :: bool
  closed :: "int list"
  handed :: "int list"

datatype fd_error = Fd_not_supplied | Invalid_fdname | Invalid_fdset_id | Fd_not_found | Bad_fd_number

definition close_fd :: "int \<Rightarrow> fd_state \<Rightarrow> fd_state" where
  "close_fd f s = s\<lparr>closed := closed s @ [f]\<rparr>"

text \<open>Replace the first element that satisfies \<open>P\<close> by the list \<open>f\<close> gives for it.\<close>

fun replace_first :: "('a \<Rightarrow> bool) \<Rightarrow> ('a \<Rightarrow> 'a list) \<Rightarrow> 'a list \<Rightarrow> 'a list" where
  "replace_first P f [] = []"
| "replace_first P f (x # xs) = (if P x then f x @ xs else x # replace_first P f xs)"

section \<open>Named descriptors\<close>

text \<open>\<open>msgfd\<close> is what \<open>qemu_chr_fe_get_msgfd\<close> returns, -1 for none.\<close>

definition name_is :: "string \<Rightarrow> string \<times> int \<Rightarrow> bool" where
  "name_is fdname m \<longleftrightarrow> fst m = fdname"

definition starts_with_digit :: "string \<Rightarrow> bool" where
  "starts_with_digit s = (case s of [] \<Rightarrow> False | c # _ \<Rightarrow> isdigit_c c)"

definition qmp_getfd :: "int \<Rightarrow> string \<Rightarrow> fd_state \<Rightarrow> fd_state \<times> fd_error option" where
  "qmp_getfd msgfd fdname s =
     (if msgfd = - 1 then (s, Some Fd_not_supplied)
      else if starts_with_digit fdname then (close_fd msgfd s, Some Invalid_fdname)
      else case find (name_is fdname) (mon_fds s) of
          Some m \<Rightarrow>
            ((close_fd (snd m) s)\<lparr>mon_fds := replace_first (name_is fdname) (\<lambda>(n, f). [(n, msgfd)]) (mon_fds s)\<rparr>,
             None)
        | None \<Rightarrow> (s\<lparr>mon_fds := (fdname, msgfd) # mon_fds s\<rparr>, None))"

definition qmp_closefd :: "string \<Rightarrow> fd_state \<Rightarrow> fd_state \<times> fd_error option" where
  "qmp_closefd fdname s =
     (case find (name_is fdname) (mon_fds s) of
        Some m \<Rightarrow> (close_fd (snd m) (s\<lparr>mon_fds := replace_first (name_is fdname) (\<lambda>_. []) (mon_fds s)\<rparr>), None)
      | None \<Rightarrow> (s, Some Fd_not_found))"

text \<open>The caller takes the descriptor over.\<close>

definition monitor_get_fd :: "string \<Rightarrow> fd_state \<Rightarrow> fd_state \<times> (fd_error + int)" where
  "monitor_get_fd fdname s =
     (case find (name_is fdname) (mon_fds s) of
        Some m \<Rightarrow>
          (s\<lparr>mon_fds := replace_first (name_is fdname) (\<lambda>_. []) (mon_fds s), handed := handed s @ [snd m]\<rparr>,
           Inr (snd m))
      | None \<Rightarrow> (s, Inl Fd_not_found))"

text \<open>\<open>parse_fd\<close> is \<open>qemu_parse_fd\<close>, -1 for no number; \<open>has_mon\<close> is \<open>mon \<noteq> NULL\<close>.\<close>

definition monitor_fd_param ::
  "(string \<Rightarrow> int) \<Rightarrow> bool \<Rightarrow> string \<Rightarrow> fd_state \<Rightarrow> fd_state \<times> (fd_error + int)" where
  "monitor_fd_param parse_fd has_mon fdname s =
     (if \<not> starts_with_digit fdname \<and> has_mon then monitor_get_fd fdname s
      else (s, if parse_fd fdname = - 1 then Inl Bad_fd_number else Inr (parse_fd fdname)))"

section \<open>Descriptor sets\<close>

definition closable :: "fd_state \<Rightarrow> mon_fdset \<Rightarrow> mon_fdset_fd \<Rightarrow> bool" where
  "closable s fs f \<longleftrightarrow> (removed f \<or> dup_fds fs = [] \<and> mon_refcount s = 0) \<and> vm_running s"

text \<open>What \<open>monitor_fdset_cleanup\<close> leaves of one set (nothing when it is freed) and what it closes.\<close>

definition cleaned_set :: "fd_state \<Rightarrow> mon_fdset \<Rightarrow> mon_fdset list" where
  "cleaned_set s fs =
     (let keep = filter (\<lambda>f. \<not> closable s fs f) (fs_fds fs)
      in if keep = [] \<and> dup_fds fs = [] then [] else [fs\<lparr>fs_fds := keep\<rparr>])"

definition closed_by :: "fd_state \<Rightarrow> mon_fdset \<Rightarrow> int list" where
  "closed_by s fs = map fd (filter (closable s fs) (fs_fds fs))"

definition monitor_fdsets_cleanup :: "fd_state \<Rightarrow> fd_state" where
  "monitor_fdsets_cleanup s =
     s\<lparr>mon_fdsets := concat (map (cleaned_set s) (mon_fdsets s)),
       closed := closed s @ concat (map (closed_by s) (mon_fdsets s))\<rparr>"

text \<open>\<open>upd\<close> the first set that satisfies \<open>P\<close>, then clean it up.\<close>

definition update_and_cleanup :: "(mon_fdset \<Rightarrow> bool) \<Rightarrow> (mon_fdset \<Rightarrow> mon_fdset) \<Rightarrow> fd_state \<Rightarrow> fd_state" where
  "update_and_cleanup P upd s =
     (case find P (mon_fdsets s) of
        None \<Rightarrow> s
      | Some fs \<Rightarrow>
          s\<lparr>mon_fdsets := replace_first P (\<lambda>fs. cleaned_set s (upd fs)) (mon_fdsets s),
            closed := closed s @ closed_by s (upd fs)\<rparr>)"

definition id_is :: "int \<Rightarrow> mon_fdset \<Rightarrow> bool" where
  "id_is i fs \<longleftrightarrow> fs_id fs = i"

definition mark_removed :: "int option \<Rightarrow> mon_fdset \<Rightarrow> mon_fdset" where
  "mark_removed which fs =
     fs\<lparr>fs_fds := (case which of
          None \<Rightarrow> map (\<lambda>f. f\<lparr>removed := True\<rparr>) (fs_fds fs)
        | Some n \<Rightarrow> replace_first (\<lambda>f. fd f = n) (\<lambda>f. [f\<lparr>removed := True\<rparr>]) (fs_fds fs))\<rparr>"

definition qmp_remove_fd :: "int \<Rightarrow> int option \<Rightarrow> fd_state \<Rightarrow> fd_state \<times> fd_error option" where
  "qmp_remove_fd fdset_id which s =
     (case find (id_is fdset_id) (mon_fdsets s) of
        None \<Rightarrow> (s, Some Fd_not_found)
      | Some fs \<Rightarrow>
          if \<exists>n. which = Some n \<and> n \<notin> fd ` set (fs_fds fs) then (s, Some Fd_not_found)
          else (update_and_cleanup (id_is fdset_id) (mark_removed which) s, None))"

text \<open>
  The place of a set in the sorted list: the first loop finds the set of the given id, the others
  the insertion point; without an id the first gap of the ids from 0 on is taken.
\<close>

fun insert_set :: "mon_fdset \<Rightarrow> mon_fdset list \<Rightarrow> mon_fdset list" where
  "insert_set new [] = [new]"
| "insert_set new (fs # rest) = (if fs_id new < fs_id fs then new # fs # rest else fs # insert_set new rest)"

fun first_gap :: "int \<Rightarrow> mon_fdset list \<Rightarrow> int" where
  "first_gap prev [] = prev + 1"
| "first_gap prev (fs # rest) = (if prev = fs_id fs - 1 then first_gap (fs_id fs) rest else prev + 1)"

fun insert_gap :: "int \<Rightarrow> mon_fdset \<Rightarrow> mon_fdset list \<Rightarrow> mon_fdset list" where
  "insert_gap prev new [] = [new]"
| "insert_gap prev new (fs # rest) =
     (if prev = fs_id fs - 1 then fs # insert_gap (fs_id fs) new rest
      else if fs_id new < fs_id fs then new # fs # rest else fs # new # rest)"

fun find_set :: "int \<Rightarrow> mon_fdset list \<Rightarrow> mon_fdset option" where
  "find_set i [] = None"
| "find_set i (fs # rest) =
     (if i \<le> fs_id fs then if i < fs_id fs then None else Some fs else find_set i rest)"

definition add_to_set :: "mon_fdset_fd \<Rightarrow> mon_fdset \<Rightarrow> mon_fdset" where
  "add_to_set f fs = fs\<lparr>fs_fds := f # fs_fds fs\<rparr>"

definition monitor_fdset_add_fd ::
  "int \<Rightarrow> int option \<Rightarrow> string option \<Rightarrow> fd_state \<Rightarrow> fd_state \<times> (fd_error + int \<times> int)" where
  "monitor_fdset_add_fd fd' fdset_id opq s =
     (let entry = \<lparr>fd = fd', removed = False, opaque = opq\<rparr>
      in case fdset_id of
           Some i \<Rightarrow>
             (case find_set i (mon_fdsets s) of
                Some fs \<Rightarrow>
                  (s\<lparr>mon_fdsets := replace_first (id_is i) (\<lambda>fs. [add_to_set entry fs]) (mon_fdsets s)\<rparr>,
                   Inr (i, fd'))
              | None \<Rightarrow>
                  if i < 0 then (s, Inl Invalid_fdset_id)
                  else (s\<lparr>mon_fdsets := insert_set \<lparr>fs_id = i, fs_fds = [entry], dup_fds = []\<rparr> (mon_fdsets s)\<rparr>,
                        Inr (i, fd')))
         | None \<Rightarrow>
             let i = first_gap (- 1) (mon_fdsets s)
             in (s\<lparr>mon_fdsets := insert_gap (- 1) \<lparr>fs_id = i, fs_fds = [entry], dup_fds = []\<rparr> (mon_fdsets s)\<rparr>,
                 Inr (i, fd')))"

definition qmp_add_fd :: "int \<Rightarrow> int option \<Rightarrow> string option \<Rightarrow> fd_state \<Rightarrow> fd_state \<times> (fd_error + int \<times> int)" where
  "qmp_add_fd msgfd fdset_id opq s =
     (if msgfd = - 1 then (s, Inl Fd_not_supplied)
      else case monitor_fdset_add_fd msgfd fdset_id opq s of
          (s', Inr info) \<Rightarrow> (s', Inr info)
        | (s', Inl e) \<Rightarrow> (close_fd msgfd s', Inl e))"

text \<open>The lists of \<open>query-fdsets\<close> are built by prepending.\<close>

definition qmp_query_fdsets :: "fd_state \<Rightarrow> (int \<times> (int \<times> string option) list) list" where
  "qmp_query_fdsets s =
     rev (map (\<lambda>fs. (fs_id fs, rev (map (\<lambda>f. (fd f, opaque f)) (fs_fds fs)))) (mon_fdsets s))"

text \<open>
  \<open>getfl f\<close> is \<open>fcntl(f, F_GETFL)\<close>, \<open>None\<close> its failure; the result is the descriptor or \<open>errno\<close>
  (\<open>None\<close> when \<open>fcntl\<close> set it).
\<close>

fun matching_fd :: "(int \<Rightarrow> nat option) \<Rightarrow> nat \<Rightarrow> mon_fdset_fd list \<Rightarrow> int option + int" where
  "matching_fd getfl flags [] = Inl (Some EACCES)"
| "matching_fd getfl flags (f # fs) =
     (case getfl (fd f) of
        None \<Rightarrow> Inl None
      | Some mon_fd_flags \<Rightarrow>
          if flags mod 4 = mon_fd_flags mod 4 then Inr (fd f) else matching_fd getfl flags fs)"

abbreviation ENOENT :: int where "ENOENT \<equiv> 2"

definition monitor_fdset_get_fd :: "(int \<Rightarrow> nat option) \<Rightarrow> int \<Rightarrow> nat \<Rightarrow> fd_state \<Rightarrow> int option + int" where
  "monitor_fdset_get_fd getfl fdset_id flags s =
     (case find (id_is fdset_id) (mon_fdsets s) of
        None \<Rightarrow> Inl (Some ENOENT)
      | Some fs \<Rightarrow> matching_fd getfl flags (fs_fds fs))"

definition monitor_fdset_dup_fd_add :: "int \<Rightarrow> int \<Rightarrow> fd_state \<Rightarrow> fd_state \<times> int" where
  "monitor_fdset_dup_fd_add fdset_id dup_fd s =
     (case find (id_is fdset_id) (mon_fdsets s) of
        None \<Rightarrow> (s, - 1)
      | Some fs \<Rightarrow>
          if dup_fd \<in> set (dup_fds fs) then (s, - 1)
          else (s\<lparr>mon_fdsets := replace_first (id_is fdset_id)
                   (\<lambda>fs. [fs\<lparr>dup_fds := dup_fd # dup_fds fs\<rparr>]) (mon_fdsets s)\<rparr>, 0))"

definition has_dup :: "int \<Rightarrow> mon_fdset \<Rightarrow> bool" where
  "has_dup dup_fd fs \<longleftrightarrow> dup_fd \<in> set (dup_fds fs)"

definition drop_dup :: "int \<Rightarrow> mon_fdset \<Rightarrow> mon_fdset" where
  "drop_dup dup_fd fs = fs\<lparr>dup_fds := remove1 dup_fd (dup_fds fs)\<rparr>"

text \<open>The 64-bit id goes through the \<open>int\<close> result.\<close>

definition monitor_fdset_dup_fd_find_remove :: "int \<Rightarrow> bool \<Rightarrow> fd_state \<Rightarrow> fd_state \<times> int" where
  "monitor_fdset_dup_fd_find_remove dup_fd remove s =
     (case find (has_dup dup_fd) (mon_fdsets s) of
        None \<Rightarrow> (s, - 1)
      | Some fs \<Rightarrow>
          if \<not> remove then (s, to_int (word_of_int (fs_id fs)))
          else if dup_fds (drop_dup dup_fd fs) = [] then
            (update_and_cleanup (has_dup dup_fd) (drop_dup dup_fd) s, - 1)
          else (s\<lparr>mon_fdsets := replace_first (has_dup dup_fd) (\<lambda>fs. [drop_dup dup_fd fs]) (mon_fdsets s)\<rparr>, - 1))"

definition monitor_fdset_dup_fd_find :: "int \<Rightarrow> fd_state \<Rightarrow> int" where
  "monitor_fdset_dup_fd_find dup_fd s = snd (monitor_fdset_dup_fd_find_remove dup_fd False s)"

definition monitor_fdset_dup_fd_remove :: "int \<Rightarrow> fd_state \<Rightarrow> fd_state" where
  "monitor_fdset_dup_fd_remove dup_fd s = fst (monitor_fdset_dup_fd_find_remove dup_fd True s)"

section \<open>Connections and runs\<close>

text \<open>What the connection events of a monitor do to the descriptor sets.\<close>

definition fd_connect :: "fd_state \<Rightarrow> fd_state" where
  "fd_connect s = s\<lparr>mon_refcount := mon_refcount s + 1\<rparr>"

definition fd_disconnect :: "fd_state \<Rightarrow> fd_state" where
  "fd_disconnect s = monitor_fdsets_cleanup (s\<lparr>mon_refcount := mon_refcount s - 1\<rparr>)"

datatype fd_call =
    Getfd int string | Closefd string | Get_fd string
  | Add_fd int "int option" "string option" | Remove_fd int "int option"
  | Dup_add int int | Dup_remove int | Connect | Disconnect | Run_state bool

fun fd_step :: "fd_call \<Rightarrow> fd_state \<Rightarrow> fd_state" where
  "fd_step (Getfd msgfd name) s = fst (qmp_getfd msgfd name s)"
| "fd_step (Closefd name) s = fst (qmp_closefd name s)"
| "fd_step (Get_fd name) s = fst (monitor_get_fd name s)"
| "fd_step (Add_fd msgfd i opq) s = fst (qmp_add_fd msgfd i opq s)"
| "fd_step (Remove_fd i which) s = fst (qmp_remove_fd i which s)"
| "fd_step (Dup_add i d) s = fst (monitor_fdset_dup_fd_add i d s)"
| "fd_step (Dup_remove d) s = monitor_fdset_dup_fd_remove d s"
| "fd_step Connect s = fd_connect s"
| "fd_step Disconnect s = fd_disconnect s"
| "fd_step (Run_state b) s = s\<lparr>vm_running := b\<rparr>"

definition fd_run :: "fd_call list \<Rightarrow> fd_state \<Rightarrow> fd_state" where
  "fd_run calls s = foldl (\<lambda>s c. fd_step c s) s calls"

definition fd_initial :: fd_state where
  "fd_initial = \<lparr>mon_fds = [], mon_fdsets = [], mon_refcount = 0, vm_running = True, closed = [], handed = []\<rparr>"

end
