(* ===== verification/Mon_Fdset_Props.thy ===== *)
theory Mon_Fdset_Props
  imports Mon_Fdset "HOL-Library.Multiset"
begin

text \<open>
  The descriptor sets refine a map from ids to sets: the list stays strictly sorted by non-negative
  ids, adding is an update of the map at the id asked for or at the least free one, and no
  descriptor passed to the monitor is lost, closed twice or handed out after it was closed.
\<close>

section \<open>The sorted list as a map\<close>

definition sorted_sets :: "mon_fdset list \<Rightarrow> bool" where
  "sorted_sets xs \<longleftrightarrow> sorted_wrt (\<lambda>a b. fs_id a < fs_id b) xs \<and> (\<forall>fs \<in> set xs. 0 \<le> fs_id fs)"

definition abs_sets :: "mon_fdset list \<Rightarrow> int \<Rightarrow> mon_fdset option" where
  "abs_sets xs i = find (id_is i) xs"

lemma abs_sets_Nil [simp]: "abs_sets [] i = None"
  by (simp add: abs_sets_def)

lemma abs_sets_Cons: "abs_sets (fs # xs) i = (if fs_id fs = i then Some fs else abs_sets xs i)"
  by (simp add: abs_sets_def id_is_def)

lemma abs_sets_None: "abs_sets xs i = None \<longleftrightarrow> i \<notin> fs_id ` set xs"
  by (auto simp: abs_sets_def find_None_iff id_is_def)

lemma sorted_sets_Cons:
  "sorted_sets (fs # xs) \<longleftrightarrow> 0 \<le> fs_id fs \<and> (\<forall>g \<in> set xs. fs_id fs < fs_id g) \<and> sorted_sets xs"
  by (auto simp: sorted_sets_def)

lemma abs_sets_small: "sorted_sets xs \<Longrightarrow> \<forall>g \<in> set xs. i < fs_id g \<Longrightarrow> abs_sets xs i = None"
  by (auto simp: abs_sets_None)

lemma find_set_abs: "sorted_sets xs \<Longrightarrow> find_set i xs = abs_sets xs i"
proof (induction xs)
  case (Cons fs xs)
  then show ?case by (auto simp: sorted_sets_Cons abs_sets_Cons intro!: abs_sets_small [symmetric])
qed simp

lemma set_insert_set [simp]: "set (insert_set new xs) = insert new (set xs)"
  by (induction xs) auto

lemma insert_set_sorted:
  "sorted_sets xs \<Longrightarrow> 0 \<le> fs_id new \<Longrightarrow> abs_sets xs (fs_id new) = None \<Longrightarrow> sorted_sets (insert_set new xs)"
  by (induction xs) (auto simp: sorted_sets_Cons abs_sets_Cons sorted_sets_def [of "[]"] split: if_splits)

lemma insert_set_abs:
  "abs_sets xs (fs_id new) = None \<Longrightarrow> abs_sets (insert_set new xs) = (abs_sets xs)(fs_id new \<mapsto> new)"
  by (induction xs) (auto simp: abs_sets_Cons fun_eq_iff split: if_splits)

lemma insert_gap_is_insert:
  "sorted_sets xs \<Longrightarrow> \<forall>g \<in> set xs. prev < fs_id g \<Longrightarrow> fs_id new = first_gap prev xs \<Longrightarrow>
     insert_gap prev new xs = insert_set new xs"
proof (induction xs arbitrary: prev)
  case (Cons fs xs)
  have mono: "prev < first_gap prev ys" if "sorted_sets ys" "\<forall>g \<in> set ys. prev < fs_id g" for prev ys
    using that by (induction ys arbitrary: prev) (force simp: sorted_sets_Cons)+
  show ?case
  proof (cases "prev = fs_id fs - 1")
    case True
    with Cons mono [of xs "fs_id fs"] show ?thesis by (auto simp: sorted_sets_Cons)
  next
    case False
    with Cons.prems show ?thesis by (auto simp: sorted_sets_Cons)
  qed
qed simp

text \<open>The first gap is the least free id.\<close>

lemma first_gap_free:
  assumes "sorted_sets xs" and "\<forall>g \<in> set xs. prev < fs_id g"
  shows "prev < first_gap prev xs \<and> first_gap prev xs \<notin> fs_id ` set xs \<and>
    (\<forall>i. prev < i \<and> i < first_gap prev xs \<longrightarrow> i \<in> fs_id ` set xs)"
  using assms
proof (induction xs arbitrary: prev)
  case (Cons fs xs)
  show ?case
  proof (cases "prev = fs_id fs - 1")
    case True
    with Cons.prems Cons.IH [of "fs_id fs"] show ?thesis
      by (auto simp: sorted_sets_Cons)
  next
    case False
    with Cons.prems show ?thesis by (auto simp: sorted_sets_Cons)
  qed
qed simp

section \<open>Updates of one set\<close>

lemma set_replace_first:
  "y \<in> set (replace_first P f xs) \<Longrightarrow> y \<in> set xs \<or> (\<exists>x \<in> set xs. P x \<and> y \<in> set (f x))"
  by (induction xs) (auto split: if_splits)

lemma replace_first_cong:
  "find P xs = Some x \<Longrightarrow> f x = g x \<Longrightarrow> replace_first P f xs = replace_first P g xs"
  by (induction xs) (auto split: if_splits)

lemma replace_first_none: "find P xs = None \<Longrightarrow> replace_first P f xs = xs"
  by (induction xs) (auto split: if_splits)

lemma replace_first_sorted:
  assumes "sorted_sets xs" and "\<And>x y. y \<in> set (f x) \<Longrightarrow> fs_id y = fs_id x" and "\<And>x. length (f x) \<le> 1"
  shows "sorted_sets (replace_first P f xs)"
  using assms(1)
proof (induction xs)
  case (Cons fs xs)
  have ids: "\<forall>y \<in> set (replace_first P f xs). fs_id fs < fs_id y"
    using Cons.prems set_replace_first [of _ P f xs] assms(2) by (fastforce simp: sorted_sets_Cons)
  have "f fs = [] \<or> (\<exists>y. f fs = [y] \<and> fs_id y = fs_id fs)"
    using assms(2) [of _ fs] assms(3) [of fs] by (cases "f fs") auto
  then show ?case using Cons ids by (auto simp: sorted_sets_Cons)
qed simp

lemma replace_first_abs:
  assumes "sorted_sets xs" and "find P xs = Some fs" and "f fs = [] \<or> (\<exists>y. f fs = [y] \<and> fs_id y = fs_id fs)"
  shows "abs_sets (replace_first P f xs) =
    (abs_sets xs)(fs_id fs := (case f fs of [] \<Rightarrow> None | y # _ \<Rightarrow> Some y))"
  using assms(1,2)
proof (induction xs)
  case (Cons g xs)
  show ?case
  proof (cases "P g")
    case True
    with Cons.prems assms(3) show ?thesis
      by (auto simp: abs_sets_Cons fun_eq_iff sorted_sets_Cons intro: abs_sets_small)
  next
    case False
    then have "fs \<in> set xs" using Cons.prems by (auto simp: find_Some_iff)
    with Cons False show ?thesis by (auto simp: abs_sets_Cons fun_eq_iff sorted_sets_Cons)
  qed
qed simp

lemma cleaned_set_id: "y \<in> set (cleaned_set s fs) \<Longrightarrow> fs_id y = fs_id fs"
  by (auto simp: cleaned_set_def Let_def split: if_splits)

lemma cleaned_set_length: "length (cleaned_set s fs) \<le> 1"
  by (simp add: cleaned_set_def Let_def)

lemma concat_cleaned_sorted: "sorted_sets xs \<Longrightarrow> sorted_sets (concat (map (cleaned_set s) xs))"
proof (induction xs)
  case (Cons fs xs)
  have ids: "\<forall>y \<in> set (concat (map (cleaned_set s) xs)). fs_id fs < fs_id y"
    using Cons.prems by (auto simp: sorted_sets_Cons dest: cleaned_set_id)
  have "cleaned_set s fs = [] \<or> (\<exists>y. cleaned_set s fs = [y] \<and> fs_id y = fs_id fs)"
    by (simp add: cleaned_set_def Let_def)
  then show ?case using Cons ids by (auto simp: sorted_sets_Cons)
qed (simp add: sorted_sets_def)

section \<open>The invariant\<close>

text \<open>No set is empty, and no duplicate is recorded twice.\<close>

definition set_ok :: "mon_fdset \<Rightarrow> bool" where
  "set_ok fs \<longleftrightarrow> (fs_fds fs \<noteq> [] \<or> dup_fds fs \<noteq> []) \<and> distinct (dup_fds fs)"

definition fdsets_ok :: "fd_state \<Rightarrow> bool" where
  "fdsets_ok s \<longleftrightarrow> sorted_sets (mon_fdsets s) \<and> (\<forall>fs \<in> set (mon_fdsets s). set_ok fs)"

lemma cleaned_set_ok: "distinct (dup_fds fs) \<Longrightarrow> y \<in> set (cleaned_set s fs) \<Longrightarrow> set_ok y"
  by (auto simp: cleaned_set_def Let_def set_ok_def split: if_splits)

lemma update_and_cleanup_ok:
  assumes "fdsets_ok s" and "\<And>fs. fs_id (upd fs) = fs_id fs"
    and "\<And>fs. distinct (dup_fds fs) \<Longrightarrow> distinct (dup_fds (upd fs))"
  shows "fdsets_ok (update_and_cleanup P upd s)"
proof (cases "find P (mon_fdsets s)")
  case (Some fs)
  let ?f = "\<lambda>fs. cleaned_set s (upd fs)"
  have "sorted_sets (replace_first P ?f (mon_fdsets s))"
    using assms by (intro replace_first_sorted) (auto simp: fdsets_ok_def cleaned_set_length [simplified] dest: cleaned_set_id)
  moreover have "set_ok y" if "y \<in> set (replace_first P ?f (mon_fdsets s))" for y
    using set_replace_first [OF that]
  proof
    assume "y \<in> set (mon_fdsets s)"
    then show ?thesis using assms(1) by (simp add: fdsets_ok_def)
  next
    assume "\<exists>x \<in> set (mon_fdsets s). P x \<and> y \<in> set (cleaned_set s (upd x))"
    then obtain x where x: "x \<in> set (mon_fdsets s)" "y \<in> set (cleaned_set s (upd x))" by blast
    then have "distinct (dup_fds (upd x))" using assms(1,3) by (simp add: fdsets_ok_def set_ok_def)
    then show ?thesis using x(2) by (rule cleaned_set_ok)
  qed
  ultimately show ?thesis using Some by (simp add: update_and_cleanup_def fdsets_ok_def)
qed (simp add: update_and_cleanup_def assms)

lemma replace_ok:
  assumes "fdsets_ok s" and "\<And>fs. fs_id (upd fs) = fs_id fs" and "\<And>fs. P fs \<Longrightarrow> set_ok fs \<Longrightarrow> set_ok (upd fs)"
  shows "fdsets_ok (s\<lparr>mon_fdsets := replace_first P (\<lambda>fs. [upd fs]) (mon_fdsets s)\<rparr>)"
proof -
  have "sorted_sets (replace_first P (\<lambda>fs. [upd fs]) (mon_fdsets s))"
    using assms by (intro replace_first_sorted) (auto simp: fdsets_ok_def)
  then show ?thesis
    using assms set_replace_first [of _ P "\<lambda>fs. [upd fs]" "mon_fdsets s"] by (fastforce simp: fdsets_ok_def)
qed

lemma cleanup_ok: "fdsets_ok s \<Longrightarrow> fdsets_ok (monitor_fdsets_cleanup s)"
  by (auto simp: fdsets_ok_def monitor_fdsets_cleanup_def concat_cleaned_sorted set_ok_def [of "_ :: mon_fdset"]
      dest: cleaned_set_ok [rotated])

lemma insert_set_ok:
  assumes "fdsets_ok s" and "0 \<le> fs_id new" and "abs_sets (mon_fdsets s) (fs_id new) = None" and "set_ok new"
  shows "fdsets_ok (s\<lparr>mon_fdsets := insert_set new (mon_fdsets s)\<rparr>)"
  using assms by (simp add: fdsets_ok_def insert_set_sorted)

lemma auto_id:
  assumes "fdsets_ok s"
  shows "0 \<le> first_gap (- 1) (mon_fdsets s)" "abs_sets (mon_fdsets s) (first_gap (- 1) (mon_fdsets s)) = None"
    "\<lbrakk>0 \<le> i; i < first_gap (- 1) (mon_fdsets s)\<rbrakk> \<Longrightarrow> abs_sets (mon_fdsets s) i \<noteq> None"
    "fs_id new = first_gap (- 1) (mon_fdsets s) \<Longrightarrow>
       insert_gap (- 1) new (mon_fdsets s) = insert_set new (mon_fdsets s)"
proof -
  have s: "sorted_sets (mon_fdsets s)" "\<forall>g \<in> set (mon_fdsets s). - 1 < fs_id g"
    using assms by (auto simp: fdsets_ok_def sorted_sets_def)
  note gap = first_gap_free [OF s]
  from gap show "0 \<le> first_gap (- 1) (mon_fdsets s)" "abs_sets (mon_fdsets s) (first_gap (- 1) (mon_fdsets s)) = None"
    by (auto simp: abs_sets_None)
  from gap show "\<lbrakk>0 \<le> i; i < first_gap (- 1) (mon_fdsets s)\<rbrakk> \<Longrightarrow> abs_sets (mon_fdsets s) i \<noteq> None"
    by (simp add: abs_sets_None)
  from s show "fs_id new = first_gap (- 1) (mon_fdsets s) \<Longrightarrow>
       insert_gap (- 1) new (mon_fdsets s) = insert_set new (mon_fdsets s)"
    by (rule insert_gap_is_insert)
qed

lemma close_fd_ok: "fdsets_ok (close_fd f s) = fdsets_ok s"
  by (simp add: fdsets_ok_def close_fd_def)

lemma qmp_getfd_sets: "mon_fdsets (fst (qmp_getfd m n s)) = mon_fdsets s"
  by (simp add: qmp_getfd_def close_fd_def split: option.splits)

lemma named_sets:
  "mon_fdsets (fst (qmp_closefd n s)) = mon_fdsets s" "mon_fdsets (fst (monitor_get_fd n s)) = mon_fdsets s"
  by (simp_all add: qmp_closefd_def monitor_get_fd_def close_fd_def split: option.splits)

lemma add_fd_ok: "fdsets_ok s \<Longrightarrow> fdsets_ok (fst (monitor_fdset_add_fd f i opq s))"
proof (cases i)
  case None
  assume ok: "fdsets_ok s"
  with None show ?thesis
    using auto_id [OF ok] by (simp add: monitor_fdset_add_fd_def Let_def insert_set_ok set_ok_def)
next
  case (Some n)
  assume ok: "fdsets_ok s"
  then have "find_set n (mon_fdsets s) = abs_sets (mon_fdsets s) n" by (simp add: fdsets_ok_def find_set_abs)
  then show ?thesis
    using Some ok
    by (auto simp: monitor_fdset_add_fd_def Let_def insert_set_ok set_ok_def add_to_set_def
        intro!: replace_ok split: option.splits)
qed

lemma qmp_add_fd_ok: "fdsets_ok s \<Longrightarrow> fdsets_ok (fst (qmp_add_fd m i opq s))"
  using add_fd_ok [of s m i opq]
  by (auto simp: qmp_add_fd_def close_fd_ok split: prod.splits sum.splits)

lemma remove_fd_ok: "fdsets_ok s \<Longrightarrow> fdsets_ok (fst (qmp_remove_fd i w s))"
  by (auto simp: qmp_remove_fd_def mark_removed_def intro!: update_and_cleanup_ok split: option.splits)

lemma dup_add_ok: "fdsets_ok s \<Longrightarrow> fdsets_ok (fst (monitor_fdset_dup_fd_add i d s))"
proof -
  assume ok: "fdsets_ok s"
  show ?thesis
  proof (cases "find (id_is i) (mon_fdsets s)")
    case (Some fs)
    let ?upd = "\<lambda>g. if d \<in> set (dup_fds g) then g else g\<lparr>dup_fds := d # dup_fds g\<rparr>"
    have "d \<notin> set (dup_fds fs) \<Longrightarrow>
        replace_first (id_is i) (\<lambda>g. [g\<lparr>dup_fds := d # dup_fds g\<rparr>]) (mon_fdsets s) =
        replace_first (id_is i) (\<lambda>g. [?upd g]) (mon_fdsets s)"
      using Some by (intro replace_first_cong) auto
    moreover have "fdsets_ok (s\<lparr>mon_fdsets := replace_first (id_is i) (\<lambda>g. [?upd g]) (mon_fdsets s)\<rparr>)"
      using ok by (intro replace_ok) (auto simp: set_ok_def)
    ultimately show ?thesis using Some ok by (auto simp: monitor_fdset_dup_fd_add_def)
  qed (simp add: monitor_fdset_dup_fd_add_def ok)
qed

lemma dup_remove_ok: "fdsets_ok s \<Longrightarrow> fdsets_ok (monitor_fdset_dup_fd_remove d s)"
proof -
  assume ok: "fdsets_ok s"
  show ?thesis
  proof (cases "find (has_dup d) (mon_fdsets s)")
    case (Some fs)
    show ?thesis
    proof (cases "dup_fds (drop_dup d fs) = []")
      case True
      then show ?thesis
        using ok Some update_and_cleanup_ok [of s "drop_dup d" "has_dup d"]
        by (simp add: monitor_fdset_dup_fd_remove_def monitor_fdset_dup_fd_find_remove_def drop_dup_def)
    next
      case False
      let ?upd = "\<lambda>g. if dup_fds (drop_dup d g) = [] then g else drop_dup d g"
      have "replace_first (has_dup d) (\<lambda>g. [drop_dup d g]) (mon_fdsets s) =
          replace_first (has_dup d) (\<lambda>g. [?upd g]) (mon_fdsets s)"
        using Some False by (intro replace_first_cong) auto
      moreover have "fdsets_ok (s\<lparr>mon_fdsets := replace_first (has_dup d) (\<lambda>g. [?upd g]) (mon_fdsets s)\<rparr>)"
        using ok by (intro replace_ok) (auto simp: set_ok_def drop_dup_def)
      ultimately show ?thesis
        using False Some ok
        by (simp add: monitor_fdset_dup_fd_remove_def monitor_fdset_dup_fd_find_remove_def)
    qed
  qed (simp add: monitor_fdset_dup_fd_remove_def monitor_fdset_dup_fd_find_remove_def ok)
qed

lemma fd_step_ok: "fdsets_ok s \<Longrightarrow> fdsets_ok (fd_step c s)"
proof (cases c)
  case Disconnect
  assume "fdsets_ok s"
  then have "fdsets_ok (s\<lparr>mon_refcount := mon_refcount s - 1\<rparr>)" by (simp add: fdsets_ok_def)
  then show ?thesis using Disconnect by (simp add: fd_disconnect_def cleanup_ok)
qed (simp_all add: add_fd_ok qmp_add_fd_ok remove_fd_ok dup_add_ok dup_remove_ok fd_connect_def,
     simp_all add: fdsets_ok_def qmp_getfd_sets named_sets)

lemma fd_run_ok: "fdsets_ok s \<Longrightarrow> fdsets_ok (fd_run calls s)"
  by (induction calls arbitrary: s) (simp_all add: fd_run_def fd_step_ok)

lemma fd_initial_ok: "fdsets_ok fd_initial"
  by (simp add: fdsets_ok_def fd_initial_def sorted_sets_def)

section \<open>Every descriptor is accounted for\<close>

definition set_mset_of :: "mon_fdset \<Rightarrow> int multiset" where
  "set_mset_of fs = mset (map fd (fs_fds fs))"

definition stored :: "fd_state \<Rightarrow> int multiset" where
  "stored s = mset (map snd (mon_fds s)) + sum_list (map set_mset_of (mon_fdsets s))"

definition owned :: "fd_state \<Rightarrow> int multiset" where
  "owned s = stored s + mset (closed s) + mset (handed s)"

text \<open>The descriptor a call brings in.\<close>

fun received :: "fd_call \<Rightarrow> int list" where
  "received (Getfd msgfd name) = (if msgfd = - 1 then [] else [msgfd])"
| "received (Add_fd msgfd i opq) = (if msgfd = - 1 then [] else [msgfd])"
| "received _ = []"

lemma replace_first_sum:
  fixes g :: "'a \<Rightarrow> 'b multiset"
  assumes "find P xs = Some x"
  shows "sum_list (map g (replace_first P f xs)) + g x = sum_list (map g xs) + sum_list (map g (f x))"
  using assms by (induction xs) (auto split: if_splits)

lemma named_sum:
  assumes "find P xs = Some x"
  shows "mset (map snd (replace_first P f xs)) + {#snd x#} = mset (map snd xs) + mset (map snd (f x))"
  using assms by (induction xs) (auto split: if_splits)

lemma cleaned_set_mset:
  "sum_list (map set_mset_of (cleaned_set s fs)) + mset (closed_by s fs) = set_mset_of fs"
proof -
  have "mset (map fd (filter (\<lambda>f. \<not> closable s fs f) (fs_fds fs))) + mset (map fd (filter (closable s fs) (fs_fds fs)))
      = mset (map fd (fs_fds fs))"
    by (simp flip: mset_append image_mset_union)
  then show ?thesis
    by (auto simp: cleaned_set_def closed_by_def set_mset_of_def Let_def simp del: mset_map mset_filter)
qed

lemma insert_sum:
  "sum_list (map g (insert_set new xs)) = g new + (sum_list (map g xs) :: 'b multiset)"
  "sum_list (map g (insert_gap p new xs)) = g new + (sum_list (map g xs) :: 'b multiset)"
  by (induction xs arbitrary: p) auto

lemma getfd_owned: "owned (fst (qmp_getfd m n s)) = owned s + mset (received (Getfd m n))"
proof (cases "find (name_is n) (mon_fds s)")
  case (Some x)
  then show ?thesis
    using named_sum [OF Some, of "\<lambda>(n, f). [(n, m)]"]
    by (cases x) (auto simp: qmp_getfd_def close_fd_def owned_def stored_def add.assoc)
qed (auto simp: qmp_getfd_def close_fd_def owned_def stored_def)

lemma taken_owned:
  "owned (fst (qmp_closefd n s)) = owned s" "owned (fst (monitor_get_fd n s)) = owned s"
proof -
  have "mset (map snd (replace_first (name_is n) (\<lambda>_. []) (mon_fds s))) + {#snd x#} = mset (map snd (mon_fds s))"
    if "find (name_is n) (mon_fds s) = Some x" for x
    using named_sum [OF that, of "\<lambda>_. []"] by simp
  then show "owned (fst (qmp_closefd n s)) = owned s" "owned (fst (monitor_get_fd n s)) = owned s"
    by (auto simp: qmp_closefd_def monitor_get_fd_def close_fd_def owned_def stored_def split: option.splits)
qed

lemma replace_owned:
  assumes "find P (mon_fdsets s) = Some fs"
  shows "owned (s\<lparr>mon_fdsets := replace_first P (\<lambda>fs. [upd fs]) (mon_fdsets s)\<rparr>) + set_mset_of fs =
    owned s + set_mset_of (upd fs)"
  using replace_first_sum [OF assms, of set_mset_of "\<lambda>fs. [upd fs]"]
  by (simp add: owned_def stored_def)

lemma update_and_cleanup_owned:
  assumes "\<And>fs. set_mset_of (upd fs) = set_mset_of fs"
  shows "owned (update_and_cleanup P upd s) = owned s"
proof (cases "find P (mon_fdsets s)")
  case (Some fs)
  let ?L = "sum_list (map set_mset_of (replace_first P (\<lambda>fs. cleaned_set s (upd fs)) (mon_fdsets s)))"
  have "?L + set_mset_of fs = sum_list (map set_mset_of (mon_fdsets s)) +
      sum_list (map set_mset_of (cleaned_set s (upd fs)))"
    by (rule replace_first_sum [OF Some])
  with cleaned_set_mset [of s "upd fs"] assms
  have "?L + mset (closed_by s (upd fs)) + set_mset_of fs = sum_list (map set_mset_of (mon_fdsets s)) + set_mset_of fs"
    by (metis add.assoc add.commute)
  then have "?L + mset (closed_by s (upd fs)) = sum_list (map set_mset_of (mon_fdsets s))" by simp
  then show ?thesis using Some
    by (simp add: update_and_cleanup_def owned_def stored_def)
qed (simp add: update_and_cleanup_def)

lemma cleanup_owned: "owned (monitor_fdsets_cleanup s) = owned s"
proof -
  have "sum_list (map set_mset_of (concat (map (cleaned_set s) xs))) + mset (concat (map (closed_by s) xs)) =
      sum_list (map set_mset_of xs)" for xs
  proof (induction xs)
    case (Cons fs xs)
    show ?case
      by (simp add: Cons.IH [symmetric] cleaned_set_mset [of s fs, symmetric] ac_simps)
  qed simp
  from this [of "mon_fdsets s"] show ?thesis
    by (simp add: monitor_fdsets_cleanup_def owned_def stored_def)
qed

lemma add_fd_owned:
  assumes "fdsets_ok s"
  shows "owned (fst (monitor_fdset_add_fd f i opq s)) =
    owned s + (case snd (monitor_fdset_add_fd f i opq s) of Inl _ \<Rightarrow> {#} | Inr _ \<Rightarrow> {#f#})"
proof (cases i)
  case None
  then show ?thesis
    by (simp add: monitor_fdset_add_fd_def Let_def owned_def stored_def insert_sum set_mset_of_def)
next
  case (Some n)
  have "find_set n (mon_fdsets s) = find (id_is n) (mon_fdsets s)"
    using assms by (simp add: fdsets_ok_def find_set_abs abs_sets_def)
  moreover have "set_mset_of (add_to_set e fs) = add_mset (fd e) (set_mset_of fs)" for e fs
    by (simp add: set_mset_of_def add_to_set_def)
  ultimately show ?thesis
    using Some replace_owned [of "id_is n" s _ "add_to_set \<lparr>fd = f, removed = False, opaque = opq\<rparr>"]
    by (auto simp: monitor_fdset_add_fd_def Let_def insert_sum set_mset_of_def [of "\<lparr>fs_id = _, fs_fds = _, dup_fds = _\<rparr>"]
        split: option.splits)
      (simp_all add: owned_def stored_def insert_sum set_mset_of_def)
qed

lemma qmp_add_fd_owned:
  "fdsets_ok s \<Longrightarrow> owned (fst (qmp_add_fd m i opq s)) = owned s + mset (received (Add_fd m i opq))"
  using add_fd_owned [of s m i opq]
  by (cases "monitor_fdset_add_fd m i opq s")
    (auto simp: qmp_add_fd_def split: sum.splits, simp_all add: owned_def stored_def close_fd_def)

lemma dup_owned:
  "owned (fst (monitor_fdset_dup_fd_add i d s)) = owned s" "owned (monitor_fdset_dup_fd_remove d s) = owned s"
proof -
  show "owned (fst (monitor_fdset_dup_fd_add i d s)) = owned s"
    using replace_owned [of "id_is i" s _ "\<lambda>fs. fs\<lparr>dup_fds := d # dup_fds fs\<rparr>"]
    by (auto simp: monitor_fdset_dup_fd_add_def set_mset_of_def split: option.splits)
  have "set_mset_of (drop_dup d fs) = set_mset_of fs" for fs by (simp add: set_mset_of_def drop_dup_def)
  then show "owned (monitor_fdset_dup_fd_remove d s) = owned s"
    using replace_owned [of "has_dup d" s _ "drop_dup d"]
    by (auto simp: monitor_fdset_dup_fd_remove_def monitor_fdset_dup_fd_find_remove_def
        update_and_cleanup_owned split: option.splits)
qed

lemma mark_removed_mset: "set_mset_of (mark_removed w fs) = set_mset_of fs"
proof -
  have "map fd (replace_first (\<lambda>f. fd f = n) (\<lambda>f. [f\<lparr>removed := True\<rparr>]) xs) = map fd xs"
    for n and xs :: "mon_fdset_fd list"
    by (induction xs) auto
  then show ?thesis by (auto simp: set_mset_of_def mark_removed_def o_def split: option.splits simp flip: mset_map)
qed

lemma fd_step_owned:
  assumes "fdsets_ok s"
  shows "owned (fd_step c s) = owned s + mset (received c)"
proof (cases c)
  case (Remove_fd i w)
  then show ?thesis
    by (auto simp: qmp_remove_fd_def update_and_cleanup_owned mark_removed_mset split: option.splits)
next
  case Disconnect
  then show ?thesis using cleanup_owned by (simp add: fd_disconnect_def) (simp add: owned_def stored_def)
qed (simp_all add: getfd_owned [simplified] taken_owned qmp_add_fd_owned [OF assms, simplified] dup_owned,
     simp_all add: fd_connect_def owned_def stored_def)

lemma fd_run_owned:
  "fdsets_ok s \<Longrightarrow> owned (fd_run calls s) = owned s + mset (concat (map received calls))"
proof (induction calls arbitrary: s)
  case (Cons c calls)
  then show ?case using Cons.IH [of "fd_step c s"]
    by (simp add: fd_run_def fd_step_ok fd_step_owned ac_simps)
qed (simp add: fd_run_def)

section \<open>Properties\<close>

text \<open>C27: Over any sequence of monitor commands, connections and changes of the run state, every descriptor
  the monitor received is accounted for exactly once: it is still stored (named or in a set), or it
  was closed, or a caller took it over. None is lost and none is closed twice.\<close>

theorem descriptors_accounted:
  "stored (fd_run calls fd_initial) + mset (closed (fd_run calls fd_initial)) + mset (handed (fd_run calls fd_initial))
     = mset (concat (map received calls))"
  using fd_run_owned [OF fd_initial_ok, of calls]
  by (simp add: owned_def) (simp add: fd_initial_def stored_def)

text \<open>C28: The sorted list of descriptor sets refines a map from ids to sets. After any sequence of calls,
  adding a descriptor updates the map at the id asked for (extending a set that is there), or, with
  no id given, at the least id that is free, and refuses exactly the negative ids; the list stays
  strictly sorted with no empty set in it.\<close>

theorem add_fd_refines_map:
  assumes "s = fd_run calls fd_initial" and "monitor_fdset_add_fd f i opq s = (s', r)"
  shows "(case r of
      Inl e \<Rightarrow> s' = s \<and> (\<exists>n < 0. i = Some n)
    | Inr (n, g) \<Rightarrow> g = f \<and> 0 \<le> n \<and> (i = Some n \<or> i = None \<and> abs_sets (mon_fdsets s) n = None \<and>
          (\<forall>m. 0 \<le> m \<and> m < n \<longrightarrow> abs_sets (mon_fdsets s) m \<noteq> None)) \<and>
        abs_sets (mon_fdsets s') = (abs_sets (mon_fdsets s))(n \<mapsto>
          (case abs_sets (mon_fdsets s) n of
             None \<Rightarrow> \<lparr>fs_id = n, fs_fds = [\<lparr>fd = f, removed = False, opaque = opq\<rparr>], dup_fds = []\<rparr>
           | Some fs \<Rightarrow> add_to_set \<lparr>fd = f, removed = False, opaque = opq\<rparr> fs))) \<and>
    fdsets_ok s'"
proof -
  have ok: "fdsets_ok s" using assms(1) fd_run_ok fd_initial_ok by simp
  then have sorted: "sorted_sets (mon_fdsets s)" by (simp add: fdsets_ok_def)
  have ok': "fdsets_ok s'" using add_fd_ok [OF ok, of f i opq] assms(2) by simp
  show ?thesis
  proof (cases i)
    case None
    with assms(2) ok' auto_id [OF ok] show ?thesis
      by (auto simp: monitor_fdset_add_fd_def Let_def insert_set_abs)
  next
    case (Some n)
    have find: "find_set n (mon_fdsets s) = abs_sets (mon_fdsets s) n" using sorted by (rule find_set_abs)
    show ?thesis
    proof (cases "abs_sets (mon_fdsets s) n")
      case None
      with Some assms(2) ok' find show ?thesis
        by (auto simp: monitor_fdset_add_fd_def Let_def insert_set_abs split: if_splits)
    next
      case fs: (Some fs)
      then have at: "find (id_is n) (mon_fdsets s) = Some fs" "fs_id fs = n" "0 \<le> n"
        using sorted by (auto simp: abs_sets_def find_Some_iff id_is_def sorted_sets_def)
      with Some assms(2) ok' find fs sorted show ?thesis
        by (auto simp: monitor_fdset_add_fd_def Let_def replace_first_abs add_to_set_def)
    qed
  qed
qed

theorem add_fd_refines_map_witness:
  "\<exists>s' r. monitor_fdset_add_fd 12 None None (fd_run [Add_fd 10 (Some 0) None, Add_fd 11 (Some 2) None] fd_initial) = (s', r)
     \<and> r = Inr (1, 12) \<and> fdsets_ok s' \<and> abs_sets (mon_fdsets s') 2 \<noteq> None"
proof -
  let ?s = "fd_run [Add_fd 10 (Some 0) None, Add_fd 11 (Some 2) None] fd_initial"
  have r: "snd (monitor_fdset_add_fd 12 None None ?s) = Inr (1, 12)" and two: "abs_sets (mon_fdsets ?s) 2 \<noteq> None"
    by (simp_all add: fd_run_def fd_initial_def qmp_add_fd_def monitor_fdset_add_fd_def Let_def abs_sets_Cons)
  obtain s' where s': "monitor_fdset_add_fd 12 None None ?s = (s', Inr (1, 12))"
    using r by (cases "monitor_fdset_add_fd 12 None None ?s") simp
  with add_fd_refines_map [OF refl s'] two show ?thesis by auto
qed

text \<open>A set whose descriptor has duplicates out keeps its descriptors: a clean-up closes one of them only
  when it was removed by \<open>remove-fd\<close>, and never while the virtual machine is stopped; and a set is
  forgotten only with neither descriptors nor duplicates left.\<close>

theorem cleanup_protects_duplicates:
  "(f \<in> set (closed_by s fs) \<longrightarrow> vm_running s \<and> (\<exists>e \<in> set (fs_fds fs). fd e = f \<and>
      (removed e \<or> dup_fds fs = [] \<and> mon_refcount s = 0))) \<and>
   (cleaned_set s fs = [] \<longleftrightarrow> dup_fds fs = [] \<and> (\<forall>e \<in> set (fs_fds fs). closable s fs e))"
  by (auto simp: closed_by_def closable_def cleaned_set_def Let_def filter_empty_conv)

text \<open>The id of a descriptor set is a 64-bit number chosen by the client, but the search for the set of a
  duplicate returns an \<open>int\<close>: with the id \<open>2 ^ 32 - 1\<close> it answers -1, not found, for a duplicate
  that is recorded, so that closing the duplicate never removes it and the set and its descriptors
  stay for good, even when every monitor has gone.\<close>

theorem dup_of_large_id_not_found:
  assumes "s = fd_run [Add_fd 10 (Some (2 ^ 32 - 1)) None, Dup_add (2 ^ 32 - 1) d, Connect] fd_initial"
  shows "monitor_fdset_dup_fd_find d s = - 1 \<and> mon_fdsets (fd_step Disconnect s) = mon_fdsets s \<and>
    mon_fdsets s \<noteq> []"
  by (simp add: assms fd_run_def fd_initial_def qmp_add_fd_def monitor_fdset_add_fd_def Let_def
      monitor_fdset_dup_fd_add_def id_is_def monitor_fdset_dup_fd_find_def monitor_fdset_dup_fd_find_remove_def
      has_dup_def to_int_def fd_connect_def fd_disconnect_def monitor_fdsets_cleanup_def cleaned_set_def
      closable_def)

theorem dup_of_large_id_not_found_witness:
  "monitor_fdset_dup_fd_find 33
     (fd_run [Add_fd 10 (Some (2 ^ 32 - 1)) None, Dup_add (2 ^ 32 - 1) 33, Connect] fd_initial) = - 1"
  using dup_of_large_id_not_found [OF refl] by blast

end
