(* ===== verification/Mon_Event.thy ===== *)
theory Mon_Event
  imports Prelude
begin

text \<open>
  The rate limit of QMP events (\<open>monitor.c\<close>): an event of a throttled kind is sent at once when none
  of its key was sent for \<open>rate\<close> nanoseconds, and otherwise stored, the newest only, until the
  timer of its key runs out. Queueing and the timer handler hold \<open>monitor_lock\<close>, so each is one
  step; the timer library takes a timer off its list before it calls the handler, so running out
  and handling are two steps, between which other threads may queue.
\<close>

section \<open>Events and their keys\<close>

datatype qapi_event =
    RTC_CHANGE | WATCHDOG | BALLOON_CHANGE | QUORUM_REPORT_BAD | QUORUM_FAILURE | VSERPORT_CHANGE
  | Unthrottled nat

text \<open>The member \<open>data\<close> of an event: the two strings the throttle looks at and the rest.\<close>

record event_data =
  data_id :: string
  data_node_name :: string
  data_rest :: nat

text \<open>\<open>monitor_qapi_event_conf\<close>: once a second, 0 for no limit.\<close>

definition event_rate :: "qapi_event \<Rightarrow> int" where
  "event_rate ev = (case ev of Unthrottled _ \<Rightarrow> 0 | _ \<Rightarrow> 1000 * 1000000)"

definition qapi_event_throttle_equal :: "qapi_event \<times> event_data \<Rightarrow> qapi_event \<times> event_data \<Rightarrow> bool" where
  "qapi_event_throttle_equal a b =
     (if fst a \<noteq> fst b then False
      else if fst a = VSERPORT_CHANGE then data_id (snd a) = data_id (snd b)
      else if fst a = QUORUM_REPORT_BAD then data_node_name (snd a) = data_node_name (snd b)
      else True)"

text \<open>\<open>code\<close> numbers the events, \<open>str_hash\<close> is \<open>g_str_hash\<close>.\<close>

definition qapi_event_throttle_hash ::
  "(qapi_event \<Rightarrow> u32) \<Rightarrow> (string \<Rightarrow> u32) \<Rightarrow> qapi_event \<times> event_data \<Rightarrow> u32" where
  "qapi_event_throttle_hash code str_hash k =
     code (fst k) * 255 +
     (if fst k = VSERPORT_CHANGE then str_hash (data_id (snd k)) else 0) +
     (if fst k = QUORUM_REPORT_BAD then str_hash (data_node_name (snd k)) else 0)"

lemma throttle_equal_refl [simp]: "qapi_event_throttle_equal k k"
  by (simp add: qapi_event_throttle_equal_def)

lemma throttle_equal_sym: "qapi_event_throttle_equal a b \<Longrightarrow> qapi_event_throttle_equal b a"
  by (auto simp: qapi_event_throttle_equal_def split: if_splits)

lemma throttle_equal_trans:
  "qapi_event_throttle_equal a b \<Longrightarrow> qapi_event_throttle_equal b c \<Longrightarrow> qapi_event_throttle_equal a c"
  by (auto simp: qapi_event_throttle_equal_def split: if_splits)

lemma throttle_equal_event: "qapi_event_throttle_equal a b \<Longrightarrow> fst a = fst b"
  by (simp add: qapi_event_throttle_equal_def split: if_splits)

text \<open>The hash table's contract: equal keys have equal hashes.\<close>

lemma throttle_hash_equal:
  "qapi_event_throttle_equal a b \<Longrightarrow>
     qapi_event_throttle_hash code str_hash a = qapi_event_throttle_hash code str_hash b"
  by (auto simp: qapi_event_throttle_equal_def qapi_event_throttle_hash_def split: if_splits)

section \<open>The throttle\<close>

text \<open>\<open>evs_timer\<close> is the deadline while the timer is pending; \<open>evs_qdict\<close> the event stored.\<close>

record ev_state =
  evs_key :: "qapi_event \<times> event_data"
  evs_timer :: "int option"
  evs_qdict :: "event_data option"

text \<open>\<open>arrived\<close> and \<open>emitted\<close> record the events queued and those sent, with the time, oldest first.\<close>

record mon_events =
  clock :: int
  throttled :: "ev_state list"
  arrived :: "(qapi_event \<times> event_data) list"
  emitted :: "(int \<times> qapi_event \<times> event_data) list"

definition monitor_qapi_event_emit :: "qapi_event \<times> event_data \<Rightarrow> mon_events \<Rightarrow> mon_events" where
  "monitor_qapi_event_emit k s = s\<lparr>emitted := emitted s @ [(clock s, k)]\<rparr>"

definition lookup_ev :: "qapi_event \<times> event_data \<Rightarrow> mon_events \<Rightarrow> ev_state option" where
  "lookup_ev k s = find (\<lambda>e. qapi_event_throttle_equal (evs_key e) k) (throttled s)"

definition update_ev :: "qapi_event \<times> event_data \<Rightarrow> (ev_state \<Rightarrow> ev_state) \<Rightarrow> mon_events \<Rightarrow> mon_events" where
  "update_ev k f s =
     s\<lparr>throttled := map (\<lambda>e. if qapi_event_throttle_equal (evs_key e) k then f e else e) (throttled s)\<rparr>"

definition remove_ev :: "qapi_event \<times> event_data \<Rightarrow> mon_events \<Rightarrow> mon_events" where
  "remove_ev k s = s\<lparr>throttled := filter (\<lambda>e. \<not> qapi_event_throttle_equal (evs_key e) k) (throttled s)\<rparr>"

text \<open>\<open>Inl ()\<close> is the failed assertion that a state in the table has a pending timer.\<close>

definition monitor_qapi_event_queue :: "qapi_event \<times> event_data \<Rightarrow> mon_events \<Rightarrow> unit + mon_events" where
  "monitor_qapi_event_queue k s =
     (let s = s\<lparr>arrived := arrived s @ [k]\<rparr>;
          rate = event_rate (fst k)
      in if rate = 0 then Inr (monitor_qapi_event_emit k s)
         else case lookup_ev k s of
             Some evstate \<Rightarrow>
               if evs_timer evstate = None then Inl ()
               else Inr (update_ev k (\<lambda>e. e\<lparr>evs_qdict := Some (snd k)\<rparr>) s)
           | None \<Rightarrow>
               let s = monitor_qapi_event_emit k s
               in Inr (s\<lparr>throttled := \<lparr>evs_key = k, evs_timer = Some (clock s + rate), evs_qdict = None\<rparr>
                                       # throttled s\<rparr>))"

definition monitor_qapi_event_handler :: "ev_state \<Rightarrow> mon_events \<Rightarrow> mon_events" where
  "monitor_qapi_event_handler evstate s =
     (case evs_qdict evstate of
        Some d \<Rightarrow>
          let s = monitor_qapi_event_emit (fst (evs_key evstate), d) s
          in update_ev (evs_key evstate)
               (\<lambda>e. e\<lparr>evs_qdict := None, evs_timer := Some (clock s + event_rate (fst (evs_key evstate)))\<rparr>) s
      | None \<Rightarrow> remove_ev (evs_key evstate) s)"

text \<open>The timer of a key runs out: it is no longer pending, its handler is about to run.\<close>

definition expire_timer :: "ev_state \<Rightarrow> mon_events \<Rightarrow> mon_events" where
  "expire_timer evstate s = update_ev (evs_key evstate) (\<lambda>e. e\<lparr>evs_timer := None\<rparr>) s"

inductive ev_step :: "mon_events \<Rightarrow> mon_events \<Rightarrow> bool" where
  tick: "0 \<le> d \<Longrightarrow> ev_step s (s\<lparr>clock := clock s + d\<rparr>)"
| queue: "monitor_qapi_event_queue k s = Inr s' \<Longrightarrow> ev_step s s'"
| expire: "e \<in> set (throttled s) \<Longrightarrow> evs_timer e = Some t \<Longrightarrow> t \<le> clock s \<Longrightarrow> ev_step s (expire_timer e s)"
| handle: "e \<in> set (throttled s) \<Longrightarrow> evs_timer e = None \<Longrightarrow> ev_step s (monitor_qapi_event_handler e s)"

definition ev_initial :: mon_events where
  "ev_initial = \<lparr>clock = 0, throttled = [], arrived = [], emitted = []\<rparr>"

abbreviation ev_reachable :: "mon_events \<Rightarrow> bool" where
  "ev_reachable s \<equiv> ev_step\<^sup>*\<^sup>* ev_initial s"

end
