(* ===== verification/Mon_Event_Props.thy ===== *)
theory Mon_Event_Props
  imports Mon_Event
begin

text \<open>
  The invariant of the event throttle, over all interleavings of queueing, timers running out and
  their handlers, and what follows: the rate limit, no newest event lost, the assertion.
\<close>

section \<open>The invariant\<close>

text \<open>An event of a key may be sent again at the latest when its entry says so, or now if it has none.\<close>

definition may_send :: "ev_state option \<Rightarrow> int \<Rightarrow> int" where
  "may_send e now = (case e of None \<Rightarrow> now | Some e \<Rightarrow> (case evs_timer e of None \<Rightarrow> now | Some t \<Rightarrow> t))"

definition limited ::
  "qapi_event \<times> event_data \<Rightarrow> ev_state option \<Rightarrow> int \<Rightarrow> (int \<times> qapi_event \<times> event_data) list \<Rightarrow> bool" where
  "limited k e now em \<longleftrightarrow> (\<forall>(t, k') \<in> set em. qapi_event_throttle_equal k' k \<longrightarrow>
     t + event_rate (fst k) \<le> may_send e now)"

text \<open>Any two events of a throttled key in the list are \<open>rate\<close> apart.\<close>

fun spaced :: "(int \<times> qapi_event \<times> event_data) list \<Rightarrow> bool" where
  "spaced [] = True"
| "spaced ((t, k) # xs) =
     ((\<forall>(t', k') \<in> set xs. event_rate (fst k) \<noteq> 0 \<and> qapi_event_throttle_equal k' k \<longrightarrow>
         t + event_rate (fst k) \<le> t') \<and> spaced xs)"

definition last_of :: "qapi_event \<times> event_data \<Rightarrow> (qapi_event \<times> event_data) list \<Rightarrow> event_data option" where
  "last_of k xs =
     (let ys = filter (\<lambda>k'. qapi_event_throttle_equal k' k) xs in if ys = [] then None else Some (snd (last ys)))"

text \<open>The newest event of a key was the last one sent, or is the one stored.\<close>

definition stored_of :: "ev_state option \<Rightarrow> event_data option" where
  "stored_of e = (case e of None \<Rightarrow> None | Some e \<Rightarrow> evs_qdict e)"

definition newest_kept ::
  "qapi_event \<times> event_data \<Rightarrow> event_data option \<Rightarrow> (qapi_event \<times> event_data) list \<Rightarrow>
     (int \<times> qapi_event \<times> event_data) list \<Rightarrow> bool" where
  "newest_kept k q arr em \<longleftrightarrow> last_of k arr = (case q of Some d \<Rightarrow> Some d | None \<Rightarrow> last_of k (map snd em))"

definition entry_ok :: "mon_events \<Rightarrow> ev_state \<Rightarrow> bool" where
  "entry_ok s e \<longleftrightarrow> event_rate (fst (evs_key e)) \<noteq> 0 \<and>
     (\<forall>d. evs_qdict e = Some d \<longrightarrow> qapi_event_throttle_equal (fst (evs_key e), d) (evs_key e)) \<and>
     (\<forall>t. evs_timer e = Some t \<longrightarrow> t \<le> clock s + event_rate (fst (evs_key e)))"

definition distinct_keys :: "ev_state list \<Rightarrow> bool" where
  "distinct_keys es \<longleftrightarrow> sorted_wrt (\<lambda>a b. \<not> qapi_event_throttle_equal (evs_key a) (evs_key b)) es"

definition ev_ok :: "mon_events \<Rightarrow> bool" where
  "ev_ok s \<longleftrightarrow> distinct_keys (throttled s) \<and> (\<forall>e \<in> set (throttled s). entry_ok s e) \<and> spaced (emitted s) \<and>
     (\<forall>(t, k) \<in> set (emitted s). t \<le> clock s) \<and>
     (\<forall>k. event_rate (fst k) \<noteq> 0 \<longrightarrow> 
       limited k (lookup_ev k s) (clock s) (emitted s) \<and>
       newest_kept k (stored_of (lookup_ev k s)) (arrived s) (emitted s))"

lemma limited_mono:
  "limited k e now em \<Longrightarrow> may_send e now \<le> may_send e' now' \<Longrightarrow> limited k e' now' em"
  by (fastforce simp: limited_def)

lemma limited_append:
  "limited k e now (em @ [(t, k')]) \<longleftrightarrow>
     limited k e now em \<and> (qapi_event_throttle_equal k' k \<longrightarrow> t + event_rate (fst k) \<le> may_send e now)"
  by (auto simp: limited_def)

lemma rate_nonneg [simp]: "0 \<le> event_rate ev"
  by (cases ev) (simp_all add: event_rate_def)

lemma spaced_append:
  "spaced (xs @ [(t, k)]) \<longleftrightarrow> spaced xs \<and>
     (\<forall>(t', k') \<in> set xs. event_rate (fst k) \<noteq> 0 \<and> qapi_event_throttle_equal k' k \<longrightarrow> t' + event_rate (fst k) \<le> t)"
  by (induction xs rule: spaced.induct)
    (auto dest: throttle_equal_sym throttle_equal_event simp: throttle_equal_event)

section \<open>Looking up and updating entries\<close>

lemma lookup_cong: "qapi_event_throttle_equal k k' \<Longrightarrow> lookup_ev k s = lookup_ev k' s"
  unfolding lookup_ev_def by (metis throttle_equal_sym throttle_equal_trans)

lemma find_distinct:
  "distinct_keys es \<Longrightarrow> e \<in> set es \<Longrightarrow> find (\<lambda>x. qapi_event_throttle_equal (evs_key x) (evs_key e)) es = Some e"
  by (induction es) (auto simp: distinct_keys_def)

lemma lookup_self: "distinct_keys (throttled s) \<Longrightarrow> e \<in> set (throttled s) \<Longrightarrow> lookup_ev (evs_key e) s = Some e"
  by (simp add: lookup_ev_def find_distinct)

lemma lookup_Some: "lookup_ev k s = Some e \<Longrightarrow> e \<in> set (throttled s) \<and> qapi_event_throttle_equal (evs_key e) k"
  by (auto simp: lookup_ev_def find_Some_iff)

lemma find_update:
  assumes "\<And>e. evs_key (f e) = evs_key e"
  shows "find (\<lambda>e. qapi_event_throttle_equal (evs_key e) k')
      (map (\<lambda>e. if qapi_event_throttle_equal (evs_key e) k then f e else e) es) =
    map_option (\<lambda>e. if qapi_event_throttle_equal (evs_key e) k then f e else e)
      (find (\<lambda>e. qapi_event_throttle_equal (evs_key e) k') es)"
  using assms by (induction es) auto

lemma lookup_update:
  assumes "\<And>e. evs_key (f e) = evs_key e"
  shows "lookup_ev k' (update_ev k f s) =
    (if qapi_event_throttle_equal k k' then map_option f (lookup_ev k' s) else lookup_ev k' s)"
proof (cases "lookup_ev k' s")
  case (Some e)
  then have "qapi_event_throttle_equal (evs_key e) k'" by (simp add: lookup_Some)
  then have "qapi_event_throttle_equal (evs_key e) k \<longleftrightarrow> qapi_event_throttle_equal k k'"
    by (metis throttle_equal_sym throttle_equal_trans)
  with Some show ?thesis by (simp add: lookup_ev_def update_ev_def find_update [OF assms])
qed (simp add: lookup_ev_def update_ev_def find_update [OF assms])

lemma lookup_remove:
  "lookup_ev k' (remove_ev k s) = (if qapi_event_throttle_equal k k' then None else lookup_ev k' s)"
proof -
  have "find (\<lambda>e. qapi_event_throttle_equal (evs_key e) k') (filter (\<lambda>e. \<not> qapi_event_throttle_equal (evs_key e) k) es) =
      (if qapi_event_throttle_equal k k' then None else find (\<lambda>e. qapi_event_throttle_equal (evs_key e) k') es)"
    for es :: "ev_state list"
    by (induction es) (auto dest: throttle_equal_sym throttle_equal_trans)
  then show ?thesis by (simp add: lookup_ev_def remove_ev_def)
qed

lemma distinct_update:
  "(\<And>e. evs_key (f e) = evs_key e) \<Longrightarrow> distinct_keys es \<Longrightarrow>
     distinct_keys (map (\<lambda>e. if qapi_event_throttle_equal (evs_key e) k then f e else e) es)"
  by (induction es) (auto simp: distinct_keys_def)

lemma distinct_filter: "distinct_keys es \<Longrightarrow> distinct_keys (filter P es)"
  by (simp add: distinct_keys_def sorted_wrt_filter)

lemma last_of_append:
  "last_of k' (xs @ [k]) = (if qapi_event_throttle_equal k k' then Some (snd k) else last_of k' xs)"
  by (simp add: last_of_def Let_def)

section \<open>Every step keeps the invariant\<close>

lemma tick_ok:
  assumes "ev_ok s" and "0 \<le> d"
  shows "ev_ok (s\<lparr>clock := clock s + d\<rparr>)"
proof -
  have lk: "lookup_ev k (s\<lparr>clock := clock s + d\<rparr>) = lookup_ev k s" for k by (simp add: lookup_ev_def)
  have "may_send e (clock s) \<le> may_send e (clock s + d)" for e
    using assms(2) by (simp add: may_send_def split: option.splits)
  then have "limited k e (clock s) em \<Longrightarrow> limited k e (clock s + d) em" for k e em by (rule limited_mono [rotated])
  then show ?thesis
    using assms by (fastforce simp: ev_ok_def entry_ok_def lk)
qed

lemma update_ev_simps [simp]:
  "clock (update_ev k f s) = clock s" "emitted (update_ev k f s) = emitted s" "arrived (update_ev k f s) = arrived s"
  by (simp_all add: update_ev_def)

lemma ev_ok_key:
  assumes "ev_ok s" and "event_rate (fst k) \<noteq> 0"
  shows "limited k (lookup_ev k s) (clock s) (emitted s)"
    and "newest_kept k (stored_of (lookup_ev k s)) (arrived s) (emitted s)"
  using assms unfolding ev_ok_def by blast+

lemma ev_ok_entry:
  assumes "ev_ok s" and "lookup_ev k s = Some e" and "event_rate (fst k) \<noteq> 0"
  shows "limited k (Some e) (clock s) (emitted s)" and "newest_kept k (evs_qdict e) (arrived s) (emitted s)"
  using ev_ok_key [OF assms(1,3)] by (simp_all add: assms(2) stored_of_def)

lemma lookup_entry:
  assumes "ev_ok s" and "e \<in> set (throttled s)" and "qapi_event_throttle_equal (evs_key e) k"
  shows "lookup_ev k s = Some e"
  using assms lookup_cong [OF assms(3), of s] by (simp add: ev_ok_def lookup_self)

lemma update_entries_ok:
  assumes "ev_ok s" and "clock s' = clock s" and "throttled s' = throttled (update_ev k f s)"
    and "\<And>x. evs_key (f x) = evs_key x"
    and "\<And>x. x \<in> set (throttled s) \<Longrightarrow> qapi_event_throttle_equal (evs_key x) k \<Longrightarrow> entry_ok s x \<Longrightarrow> entry_ok s (f x)"
  shows "distinct_keys (throttled s') \<and> (\<forall>x \<in> set (throttled s'). entry_ok s' x)"
proof -
  have "entry_ok s' = entry_ok s" by (auto simp: fun_eq_iff entry_ok_def assms(2))
  with assms(1,5) show ?thesis
    by (auto simp: assms(3) ev_ok_def update_ev_def distinct_update assms(4))
qed

lemma expire_ok:
  assumes "ev_ok s" and "e \<in> set (throttled s)" and "evs_timer e = Some t" and "t \<le> clock s"
  shows "ev_ok (expire_timer e s)"
proof -
  let ?f = "\<lambda>e. e\<lparr>evs_timer := None\<rparr>" and ?s = "expire_timer e s"
  have f: "emitted ?s = emitted s" "clock ?s = clock s" "arrived ?s = arrived s"
    by (simp_all add: expire_timer_def update_ev_def)
  have lk: "lookup_ev k ?s = (if qapi_event_throttle_equal (evs_key e) k then Some (?f e) else lookup_ev k s)" for k
    using lookup_entry [OF assms(1,2), of k] by (simp add: expire_timer_def lookup_update)
  have "distinct_keys (throttled ?s) \<and> (\<forall>x \<in> set (throttled ?s). entry_ok ?s x)"
    by (rule update_entries_ok [OF assms(1), of _ "evs_key e" ?f])
      (simp_all add: f expire_timer_def entry_ok_def)
  moreover have "limited k (lookup_ev k ?s) (clock s) (emitted s) \<and>
      newest_kept k (stored_of (lookup_ev k ?s)) (arrived s) (emitted s)" if "event_rate (fst k) \<noteq> 0" for k
  proof (cases "qapi_event_throttle_equal (evs_key e) k")
    case True
    note ev_ok_entry [OF assms(1) lookup_entry [OF assms(1,2) True] that]
    then show ?thesis
      using True assms(3,4) by (auto simp: lk stored_of_def may_send_def intro: limited_mono)
  next
    case False
    with ev_ok_key [OF assms(1) that] show ?thesis by (simp add: lk)
  qed
  ultimately show ?thesis using assms(1) by (simp add: ev_ok_def f)
qed

lemma handle_stored_ok:
  assumes "ev_ok s" and "e \<in> set (throttled s)" and "evs_timer e = None" and "evs_qdict e = Some d"
  shows "ev_ok (monitor_qapi_event_handler e s)"
proof -
  let ?r = "event_rate (fst (evs_key e))" and ?k = "(fst (evs_key e), d)"
  let ?f = "\<lambda>x. x\<lparr>evs_qdict := None, evs_timer := Some (clock s + ?r)\<rparr>"
  let ?s = "monitor_qapi_event_handler e s"
  have s': "?s = update_ev (evs_key e) ?f (s\<lparr>emitted := emitted s @ [(clock s, ?k)]\<rparr>)"
    using assms(4) by (simp add: monitor_qapi_event_handler_def monitor_qapi_event_emit_def Let_def)
  have e: "?r \<noteq> 0" "qapi_event_throttle_equal ?k (evs_key e)"
    using assms by (auto simp: ev_ok_def entry_ok_def)
  have lk: "lookup_ev k ?s = (if qapi_event_throttle_equal (evs_key e) k then Some (?f e) else lookup_ev k s)" for k
    using lookup_entry [OF assms(1,2), of k] by (simp add: s' lookup_update) (simp add: lookup_ev_def)
  have same: "qapi_event_throttle_equal ?k k \<longleftrightarrow> qapi_event_throttle_equal (evs_key e) k" for k
    using e(2) by (meson throttle_equal_sym throttle_equal_trans)
  have f: "emitted ?s = emitted s @ [(clock s, ?k)]" "clock ?s = clock s" "arrived ?s = arrived s"
    by (simp_all add: s' update_ev_def)
  have old: "limited k (Some e) (clock s) (emitted s)" "newest_kept k (evs_qdict e) (arrived s) (emitted s)"
    if "qapi_event_throttle_equal (evs_key e) k" for k
    using ev_ok_entry [OF assms(1) lookup_entry [OF assms(1,2) that]] e(1) throttle_equal_event [OF that]
    by simp_all
  have "distinct_keys (throttled ?s) \<and> (\<forall>x \<in> set (throttled ?s). entry_ok ?s x)"
    by (rule update_entries_ok [OF assms(1), of _ "evs_key e" ?f])
      (use throttle_equal_event in \<open>auto simp: s' update_ev_def entry_ok_def\<close>)
  moreover have "spaced (emitted ?s)"
  proof -
    have "limited ?k (Some e) (clock s) (emitted s)" using old(1) [of ?k] e(2) by (simp add: throttle_equal_sym)
    then show ?thesis
      using assms(1,3) by (auto simp: f spaced_append ev_ok_def limited_def may_send_def)
  qed
  moreover have "limited k (lookup_ev k ?s) (clock s) (emitted ?s) \<and>
      newest_kept k (stored_of (lookup_ev k ?s)) (arrived s) (emitted ?s)" if "event_rate (fst k) \<noteq> 0" for k
  proof (cases "qapi_event_throttle_equal (evs_key e) k")
    case True
    note old [OF True]
    moreover have "last_of k (map snd (emitted ?s)) = Some d"
      using True same [of k] by (simp add: f last_of_append)
    ultimately show ?thesis
      using True assms(3,4) same [of k] throttle_equal_event [OF True]
      by (auto simp: f lk limited_append stored_of_def may_send_def newest_kept_def intro: limited_mono)
  next
    case False
    with ev_ok_key [OF assms(1) that] same [of k] show ?thesis
      by (simp add: lk f limited_append newest_kept_def last_of_append split: option.splits)
  qed
  ultimately show ?thesis using assms(1) by (auto simp: ev_ok_def f)
qed

lemma handle_done_ok:
  assumes "ev_ok s" and "e \<in> set (throttled s)" and "evs_timer e = None" and "evs_qdict e = None"
  shows "ev_ok (monitor_qapi_event_handler e s)"
proof -
  let ?s = "monitor_qapi_event_handler e s"
  have s': "?s = remove_ev (evs_key e) s" using assms(4) by (simp add: monitor_qapi_event_handler_def)
  have f: "emitted ?s = emitted s" "clock ?s = clock s" "arrived ?s = arrived s"
    by (simp_all add: s' remove_ev_def)
  have lk: "lookup_ev k ?s = (if qapi_event_throttle_equal (evs_key e) k then None else lookup_ev k s)" for k
    by (simp add: s' lookup_remove)
  have "limited k (lookup_ev k ?s) (clock s) (emitted s) \<and>
      newest_kept k (stored_of (lookup_ev k ?s)) (arrived s) (emitted s)" if "event_rate (fst k) \<noteq> 0" for k
  proof (cases "qapi_event_throttle_equal (evs_key e) k")
    case True
    note ev_ok_entry [OF assms(1) lookup_entry [OF assms(1,2) True] that]
    then show ?thesis
      using True assms(3,4) by (auto simp: lk stored_of_def may_send_def intro: limited_mono)
  next
    case False
    with ev_ok_key [OF assms(1) that] show ?thesis by (simp add: lk)
  qed
  moreover have "entry_ok ?s = entry_ok s" by (auto simp: fun_eq_iff entry_ok_def f)
  moreover have "distinct_keys (throttled ?s)" "set (throttled ?s) \<subseteq> set (throttled s)"
    using assms(1) by (auto simp: ev_ok_def s' remove_ev_def distinct_filter)
  ultimately show ?thesis using assms(1) by (auto simp: ev_ok_def f)
qed

lemma queue_unthrottled_ok:
  assumes "ev_ok s" and "event_rate (fst k) = 0"
  shows "ev_ok (monitor_qapi_event_emit k (s\<lparr>arrived := arrived s @ [k]\<rparr>))"
proof -
  let ?s = "monitor_qapi_event_emit k (s\<lparr>arrived := arrived s @ [k]\<rparr>)"
  have f: "emitted ?s = emitted s @ [(clock s, k)]" "clock ?s = clock s" "arrived ?s = arrived s @ [k]"
    "throttled ?s = throttled s"
    by (simp_all add: monitor_qapi_event_emit_def)
  have lk: "lookup_ev k' ?s = lookup_ev k' s" for k' by (simp add: lookup_ev_def f)
  have e: "entry_ok ?s = entry_ok s" by (auto simp: fun_eq_iff entry_ok_def f)
  have "limited k' (lookup_ev k' ?s) (clock s) (emitted ?s) \<and>
      newest_kept k' (stored_of (lookup_ev k' ?s)) (arrived ?s) (emitted ?s)" if "event_rate (fst k') \<noteq> 0" for k'
  proof -
    have "\<not> qapi_event_throttle_equal k k'" using that assms(2) throttle_equal_event by metis
    with ev_ok_key [OF assms(1) that] show ?thesis
      by (simp add: f lk limited_append newest_kept_def last_of_append split: option.splits)
  qed
  then show ?thesis
    using assms by (auto simp: ev_ok_def f e spaced_append)
qed

lemma queue_stored_ok:
  assumes "ev_ok s" and "event_rate (fst k) \<noteq> 0" and "lookup_ev k s = Some e"
  shows "ev_ok (update_ev k (\<lambda>e. e\<lparr>evs_qdict := Some (snd k)\<rparr>) (s\<lparr>arrived := arrived s @ [k]\<rparr>))"
proof -
  let ?f = "\<lambda>e. e\<lparr>evs_qdict := Some (snd k)\<rparr>"
  let ?s = "update_ev k ?f (s\<lparr>arrived := arrived s @ [k]\<rparr>)"
  have lk: "lookup_ev k' ?s = (if qapi_event_throttle_equal k k' then map_option ?f (lookup_ev k' s) else lookup_ev k' s)" for k'
    by (simp add: lookup_update) (simp add: lookup_ev_def)
  have "distinct_keys (throttled ?s) \<and> (\<forall>x \<in> set (throttled ?s). entry_ok ?s x)"
  proof (rule update_entries_ok [OF assms(1), of _ k ?f])
    fix x assume x: "qapi_event_throttle_equal (evs_key x) k" "entry_ok s x"
    then have "qapi_event_throttle_equal (fst (evs_key x), snd k) (evs_key x)"
      using throttle_equal_sym [OF x(1)] throttle_equal_event [OF x(1)] by simp
    with x(2) show "entry_ok s (?f x)" by (simp add: entry_ok_def)
  qed (simp_all add: update_ev_def)
  moreover have "limited k' (lookup_ev k' ?s) (clock s) (emitted s) \<and>
      newest_kept k' (stored_of (lookup_ev k' ?s)) (arrived s @ [k]) (emitted s)" if "event_rate (fst k') \<noteq> 0" for k'
  proof (cases "qapi_event_throttle_equal k k'")
    case True
    then have "lookup_ev k' s = Some e" using assms(3) lookup_cong [OF True] by simp
    with True ev_ok_entry [OF assms(1) this that] show ?thesis
      by (auto simp: lk stored_of_def newest_kept_def last_of_append may_send_def intro: limited_mono)
  next
    case False
    with ev_ok_key [OF assms(1) that] show ?thesis
      by (simp add: lk newest_kept_def last_of_append)
  qed
  ultimately show ?thesis using assms(1) by (simp add: ev_ok_def)
qed

lemma queue_fresh_ok:
  assumes "ev_ok s" and "event_rate (fst k) \<noteq> 0" and "lookup_ev k s = None"
  shows "ev_ok (s\<lparr>arrived := arrived s @ [k], emitted := emitted s @ [(clock s, k)],
    throttled := \<lparr>evs_key = k, evs_timer = Some (clock s + event_rate (fst k)), evs_qdict = None\<rparr> # throttled s\<rparr>)"
    (is "ev_ok ?s")
proof -
  let ?e = "\<lparr>evs_key = k, evs_timer = Some (clock s + event_rate (fst k)), evs_qdict = None\<rparr>"
  have lk: "lookup_ev k' ?s = (if qapi_event_throttle_equal k k' then Some ?e else lookup_ev k' s)" for k'
    by (simp add: lookup_ev_def)
  have e: "entry_ok ?s = entry_ok s" by (auto simp: fun_eq_iff entry_ok_def)
  have fresh: "\<forall>x \<in> set (throttled s). \<not> qapi_event_throttle_equal (evs_key x) k"
    using assms(3) by (simp add: lookup_ev_def find_None_iff)
  have "distinct_keys (throttled ?s)" using assms(1) fresh
    by (auto simp: ev_ok_def distinct_keys_def dest: throttle_equal_sym)
  moreover have "\<forall>x \<in> set (throttled ?s). entry_ok ?s x"
    using assms(1,2) by (auto simp: e ev_ok_def) (simp add: entry_ok_def)
  moreover have lim: "limited k None (clock s) (emitted s)" using ev_ok_key(1) [OF assms(1,2)] assms(3) by simp
  then have "spaced (emitted ?s)" using assms(1)
    by (auto simp: spaced_append ev_ok_def limited_def may_send_def)
  moreover have "limited k' (lookup_ev k' ?s) (clock s) (emitted ?s) \<and>
      newest_kept k' (stored_of (lookup_ev k' ?s)) (arrived ?s) (emitted ?s)" if "event_rate (fst k') \<noteq> 0" for k'
  proof (cases "qapi_event_throttle_equal k k'")
    case True
    then have "lookup_ev k' s = None" using assms(3) lookup_cong [OF True] by simp
    with ev_ok_key(1) [OF assms(1) that] True throttle_equal_event [OF True] show ?thesis
      unfolding lk
      by (auto simp: stored_of_def newest_kept_def last_of_append may_send_def limited_append intro: limited_mono)
  next
    case False
    with ev_ok_key [OF assms(1) that] show ?thesis
      by (simp add: lk newest_kept_def last_of_append limited_append split: option.splits)
  qed
  ultimately show ?thesis using assms(1) by (auto simp: ev_ok_def)
qed

lemma queue_ok: "ev_ok s \<Longrightarrow> monitor_qapi_event_queue k s = Inr s' \<Longrightarrow> ev_ok s'"
proof -
  assume ok: "ev_ok s" and q: "monitor_qapi_event_queue k s = Inr s'"
  have lk: "lookup_ev k (s\<lparr>arrived := arrived s @ [k]\<rparr>) = lookup_ev k s" by (simp add: lookup_ev_def)
  show ?thesis
  proof (cases "event_rate (fst k) = 0")
    case True
    with queue_unthrottled_ok [OF ok, of k] q show ?thesis by (auto simp: monitor_qapi_event_queue_def Let_def)
  next
    case False
    with q queue_stored_ok [OF ok False] queue_fresh_ok [OF ok False] show ?thesis
      by (auto simp: monitor_qapi_event_queue_def Let_def lk monitor_qapi_event_emit_def split: option.splits if_splits)
  qed
qed

lemma ev_step_ok: "ev_step s s' \<Longrightarrow> ev_ok s \<Longrightarrow> ev_ok s'"
proof (induction rule: ev_step.induct)
  case (handle e s)
  then show ?case by (cases "evs_qdict e") (simp_all add: handle_done_ok handle_stored_ok)
qed (simp_all add: tick_ok queue_ok expire_ok)

lemma ev_initial_ok: "ev_ok ev_initial"
  by (simp add: ev_ok_def ev_initial_def distinct_keys_def limited_def newest_kept_def lookup_ev_def
      stored_of_def last_of_def)

lemma reachable_ok: "ev_reachable s \<Longrightarrow> ev_ok s"
  by (induction rule: rtranclp_induct) (auto intro: ev_step_ok ev_initial_ok)

section \<open>Properties\<close>

lemma spaced_nth:
  "spaced xs \<Longrightarrow> i < j \<Longrightarrow> j < length xs \<Longrightarrow> event_rate (fst (snd (xs ! i))) \<noteq> 0 \<Longrightarrow>
     qapi_event_throttle_equal (snd (xs ! j)) (snd (xs ! i)) \<Longrightarrow>
     fst (xs ! i) + event_rate (fst (snd (xs ! i))) \<le> fst (xs ! j)"
proof (induction xs arbitrary: i j rule: spaced.induct)
  case (2 t k xs)
  show ?case
  proof (cases i)
    case 0
    with 2 obtain j' where "j = Suc j'" by (cases j) auto
    with 0 2 show ?thesis by (fastforce simp: nth_Cons' split_beta)
  next
    case (Suc i')
    with 2 obtain j' where "j = Suc j'" by (cases j) auto
    with Suc 2 show ?thesis by auto
  qed
qed simp

text \<open>C29: The rate limit holds in every interleaving: of any two events of the same throttle key (the same
  kind, and for a serial port or a quorum report the same port or node) that reach the clients, the
  later one is sent at least the configured second after the earlier one.\<close>

theorem events_rate_limited:
  assumes "ev_reachable s" and "i < j" and "j < length (emitted s)"
    and "emitted s ! i = (t1, k1)" and "emitted s ! j = (t2, k2)"
    and "event_rate (fst k1) \<noteq> 0" and "qapi_event_throttle_equal k2 k1"
  shows "t1 + 1000000000 \<le> t2"
proof -
  have "event_rate (fst k1) = 1000000000"
    using assms(6) by (cases "fst k1") (simp_all add: event_rate_def)
  moreover have "spaced (emitted s)" using reachable_ok [OF assms(1)] by (simp add: ev_ok_def)
  ultimately show ?thesis using spaced_nth [of "emitted s" i j] assms by simp
qed

definition sample_event :: "nat \<Rightarrow> qapi_event \<times> event_data" where
  "sample_event n = (WATCHDOG, \<lparr>data_id = [], data_node_name = [], data_rest = n\<rparr>)"

definition sample_entry :: ev_state where
  "sample_entry = \<lparr>evs_key = sample_event 1, evs_timer = Some 1000000000, evs_qdict = None\<rparr>"

definition sample_state :: "int \<Rightarrow> ev_state list \<Rightarrow> mon_events" where
  "sample_state now es = \<lparr>clock = now, throttled = es, arrived = [sample_event 1], emitted = [(0, sample_event 1)]\<rparr>"

lemma sample_expired: "ev_reachable (sample_state 1000000000 [sample_entry\<lparr>evs_timer := None\<rparr>])"
proof -
  have a: "ev_step ev_initial (sample_state 0 [sample_entry])"
    by (rule ev_step.queue [of "sample_event 1"])
      (simp add: monitor_qapi_event_queue_def ev_initial_def sample_state_def sample_entry_def sample_event_def
        event_rate_def lookup_ev_def monitor_qapi_event_emit_def)
  have b: "ev_step (sample_state 0 [sample_entry]) (sample_state 1000000000 [sample_entry])"
    using ev_step.tick [of 1000000000 "sample_state 0 [sample_entry]"] by (simp add: sample_state_def)
  have c: "ev_step (sample_state 1000000000 [sample_entry]) (expire_timer sample_entry (sample_state 1000000000 [sample_entry]))"
    by (rule ev_step.expire [of _ _ 1000000000]) (simp_all add: sample_state_def sample_entry_def)
  have "expire_timer sample_entry (sample_state 1000000000 [sample_entry]) =
      sample_state 1000000000 [sample_entry\<lparr>evs_timer := None\<rparr>]"
    by (simp add: expire_timer_def update_ev_def sample_state_def)
  with a b c show ?thesis by (metis converse_rtranclp_into_rtranclp rtranclp.rtrancl_refl)
qed

lemma sample_second:
  "\<exists>s. ev_reachable s \<and> emitted s = [(0, sample_event 1), (1000000000, sample_event 2)]"
proof -
  let ?s = "sample_state 1000000000 [sample_entry\<lparr>evs_timer := None\<rparr>]"
  let ?h = "monitor_qapi_event_handler (sample_entry\<lparr>evs_timer := None\<rparr>) ?s"
  have h: "ev_step ?s ?h" by (rule ev_step.handle) (simp_all add: sample_state_def)
  have hs: "?h = sample_state 1000000000 []"
    by (simp add: monitor_qapi_event_handler_def remove_ev_def sample_state_def sample_entry_def)
  obtain s' where q: "monitor_qapi_event_queue (sample_event 2) (sample_state 1000000000 []) = Inr s'"
    and e: "emitted s' = [(0, sample_event 1), (1000000000, sample_event 2)]"
    by (simp add: monitor_qapi_event_queue_def sample_state_def sample_event_def event_rate_def lookup_ev_def
        monitor_qapi_event_emit_def)
  have "ev_reachable (sample_state 1000000000 [])"
    using rtranclp.rtrancl_into_rtrancl [OF sample_expired h] by (simp only: hs)
  from rtranclp.rtrancl_into_rtrancl [OF this ev_step.queue [OF q]] e show ?thesis by blast
qed

theorem events_rate_limited_witness:
  "\<exists>s. ev_reachable s \<and> length (emitted s) = 2 \<and>
     fst (emitted s ! 0) + 1000000000 \<le> fst (emitted s ! 1)"
proof -
  obtain s where s: "ev_reachable s" "emitted s = [(0, sample_event 1), (1000000000, sample_event 2)]"
    using sample_second by blast
  then have "0 + 1000000000 \<le> (1000000000 :: int)"
    by (intro events_rate_limited [OF s(1), of 0 1 0 "sample_event 1" 1000000000 "sample_event 2"])
      (simp_all add: sample_event_def event_rate_def qapi_event_throttle_equal_def)
  with s show ?thesis by auto
qed

text \<open>C30: No newest event is lost: in every reachable state the last event queued of a throttled key was the
  last one sent of that key, or it is stored in the entry of the key, whose timer is due at most a
  second from now (or has run out), and the handler of that timer sends it.\<close>

theorem newest_event_kept:
  assumes "ev_reachable s" and "event_rate (fst k) \<noteq> 0" and "last_of k (arrived s) = Some d"
  shows "last_of k (map snd (emitted s)) = Some d \<or>
    (\<exists>e \<in> set (throttled s). evs_qdict e = Some d \<and> (\<forall>t. evs_timer e = Some t \<longrightarrow> t \<le> clock s + 1000000000) \<and>
       last_of k (map snd (emitted (monitor_qapi_event_handler e s))) = Some d)"
proof (cases "stored_of (lookup_ev k s)")
  case None
  with ev_ok_key(2) [OF reachable_ok [OF assms(1)] assms(2)] assms(3) show ?thesis by (simp add: newest_kept_def)
next
  case (Some d')
  then obtain e where e: "lookup_ev k s = Some e" "evs_qdict e = Some d'"
    by (auto simp: stored_of_def split: option.splits)
  then have mem: "e \<in> set (throttled s)" "qapi_event_throttle_equal (evs_key e) k"
    using lookup_Some by blast+
  have ok: "ev_ok s" by (rule reachable_ok [OF assms(1)])
  have d: "d' = d" using ev_ok_key(2) [OF ok assms(2)] assms(3) Some by (simp add: newest_kept_def)
  have en: "entry_ok s e" using ok mem by (simp add: ev_ok_def)
  then have key: "qapi_event_throttle_equal (fst (evs_key e), d) k"
    using e(2) d mem(2) by (auto simp: entry_ok_def intro: throttle_equal_trans)
  have "event_rate (fst (evs_key e)) = 1000000000"
    using en by (cases "fst (evs_key e)") (simp_all add: entry_ok_def event_rate_def)
  with en have "\<forall>t. evs_timer e = Some t \<longrightarrow> t \<le> clock s + 1000000000" by (auto simp: entry_ok_def)
  moreover have "last_of k (map snd (emitted (monitor_qapi_event_handler e s))) = Some d"
    using e d key by (simp add: monitor_qapi_event_handler_def monitor_qapi_event_emit_def Let_def last_of_append)
  ultimately show ?thesis using mem e d by blast
qed

theorem newest_event_kept_witness:
  "last_of (sample_event 9) (map snd (emitted (sample_state 1000000000 [sample_entry\<lparr>evs_timer := None\<rparr>]))) =
     Some (snd (sample_event 1))"
proof -
  let ?s = "sample_state 1000000000 [sample_entry\<lparr>evs_timer := None\<rparr>]"
  have "last_of (sample_event 9) (arrived ?s) = Some (snd (sample_event 1))"
    by (simp add: last_of_def sample_state_def sample_event_def qapi_event_throttle_equal_def)
  moreover have "event_rate (fst (sample_event 9)) \<noteq> 0" by (simp add: sample_event_def event_rate_def)
  ultimately show ?thesis
    using newest_event_kept [OF sample_expired, of "sample_event 9" "snd (sample_event 1)"]
    by (auto simp: sample_state_def sample_entry_def)
qed

text \<open>The assertion of \<open>monitor_qapi_event_queue\<close> that a key in the table has a pending timer is not
  implied by the lock: it fails exactly when a thread queues an event of a key between the moment
  its timer runs out (the timer library takes it off the list first) and the moment the handler gets
  \<open>monitor_lock\<close>, and that moment is reachable.\<close>

theorem queue_races_with_timer:
  "(monitor_qapi_event_queue k s = Inl () \<longleftrightarrow>
      event_rate (fst k) \<noteq> 0 \<and> (\<exists>e. lookup_ev k s = Some e \<and> evs_timer e = None)) \<and>
   (\<exists>s. ev_reachable s \<and> monitor_qapi_event_queue (sample_event 2) s = Inl ())"
proof
  have "lookup_ev k (s\<lparr>arrived := arrived s @ [k]\<rparr>) = lookup_ev k s" by (simp add: lookup_ev_def)
  then show "monitor_qapi_event_queue k s = Inl () \<longleftrightarrow>
      event_rate (fst k) \<noteq> 0 \<and> (\<exists>e. lookup_ev k s = Some e \<and> evs_timer e = None)"
    by (auto simp: monitor_qapi_event_queue_def Let_def split: option.splits)
  show "\<exists>s. ev_reachable s \<and> monitor_qapi_event_queue (sample_event 2) s = Inl ()"
    using sample_expired
    by (intro exI [of _ "sample_state 1000000000 [sample_entry\<lparr>evs_timer := None\<rparr>]"])
      (simp add: monitor_qapi_event_queue_def sample_state_def sample_entry_def sample_event_def event_rate_def
        lookup_ev_def qapi_event_throttle_equal_def)
qed

end
