(* ===== verification/Mon_Out.thy ===== *)
theory Mon_Out
  imports Mon_Str
begin

text \<open>
  The output side of a monitor (\<open>monitor.c\<close>): the buffer \<open>outbuf\<close>, flushed at every end of line to
  the character backend, which may take a part of it, ask to be tried again or fail. \<open>out_log\<close>
  records what left the buffer: \<open>(True, s)\<close> for bytes the backend took, \<open>(False, s)\<close> for bytes
  thrown away after an error. The locking of \<open>out_lock\<close> makes each function one step.
\<close>

section \<open>Buffer and backend\<close>

record mon_out =
  outbuf :: string
  mux_out :: bool
  skip_flush :: bool
  out_watch :: bool
  out_log :: "(bool \<times> string) list"
  writes :: nat

text \<open>
  The backend: what the \<open>n\<close>-th \<open>qemu_chr_fe_write\<close> of so many bytes returns and whether \<open>errno\<close> is
  then \<open>EAGAIN\<close>, and whether \<open>qemu_chr_fe_add_watch\<close> succeeds.
\<close>

record chr_backend =
  chr_write :: "nat \<Rightarrow> nat \<Rightarrow> int \<times> bool"
  chr_watch :: "nat \<Rightarrow> bool"

definition monitor_flush_locked :: "chr_backend \<Rightarrow> mon_out \<Rightarrow> mon_out" where
  "monitor_flush_locked chr mon =
     (if skip_flush mon then mon
      else if outbuf mon \<noteq> [] \<and> \<not> mux_out mon then
        let len = length (outbuf mon);
            (rc, again) = chr_write chr (writes mon) len;
            mon = mon\<lparr>writes := writes mon + 1\<rparr>
        in if rc < 0 \<and> \<not> again \<or> rc = int len
           then mon\<lparr>outbuf := [], out_log := out_log mon @ [(0 \<le> rc, outbuf mon)]\<rparr>
           else let mon = (if 0 < rc
                  then mon\<lparr>outbuf := drop (nat rc) (outbuf mon),
                           out_log := out_log mon @ [(True, take (nat rc) (outbuf mon))]\<rparr>
                  else mon)
             in mon\<lparr>out_watch := out_watch mon \<or> chr_watch chr (writes mon)\<rparr>
      else mon)"

definition monitor_unblocked :: "chr_backend \<Rightarrow> mon_out \<Rightarrow> mon_out" where
  "monitor_unblocked chr mon = monitor_flush_locked chr (mon\<lparr>out_watch := False\<rparr>)"

definition monitor_flush :: "chr_backend \<Rightarrow> mon_out \<Rightarrow> mon_out" where
  "monitor_flush chr mon = monitor_flush_locked chr mon"

abbreviation newline :: char where "newline \<equiv> CHR 0x0A"

definition put_out :: "string \<Rightarrow> mon_out \<Rightarrow> mon_out" where
  "put_out s mon = mon\<lparr>outbuf := outbuf mon @ s\<rparr>"

fun monitor_puts :: "chr_backend \<Rightarrow> string \<Rightarrow> mon_out \<Rightarrow> mon_out" where
  "monitor_puts chr [] mon = mon"
| "monitor_puts chr (c # str) mon =
     monitor_puts chr str
       (if c = newline then monitor_flush_locked chr (put_out [CHR 0x0D, c] mon) else put_out [c] mon)"

text \<open>\<open>json\<close> is the serialized object, \<open>buf\<close> the formatted text.\<close>

definition monitor_json_emitter :: "chr_backend \<Rightarrow> string \<Rightarrow> mon_out \<Rightarrow> mon_out" where
  "monitor_json_emitter chr json mon = monitor_puts chr (json @ [newline]) mon"

definition monitor_vprintf :: "chr_backend \<Rightarrow> bool \<Rightarrow> string \<Rightarrow> mon_out option \<Rightarrow> mon_out option" where
  "monitor_vprintf chr is_qmp buf mon =
     (case mon of None \<Rightarrow> None | Some m \<Rightarrow> Some (if is_qmp then m else monitor_puts chr buf m))"

section \<open>What is printed comes out\<close>

text \<open>Every end of line is sent as carriage return and line feed.\<close>

definition crlf :: "string \<Rightarrow> string" where
  "crlf s = concat (map (\<lambda>c. if c = newline then [CHR 0x0D, c] else [c]) s)"

definition produced :: "mon_out \<Rightarrow> string" where
  "produced mon = concat (map snd (out_log mon)) @ outbuf mon"

lemma flush_produced: "produced (monitor_flush_locked chr mon) = produced mon"
  by (auto simp: monitor_flush_locked_def produced_def Let_def split: prod.splits)

lemma put_out_produced: "produced (put_out s mon) = produced mon @ s"
  by (simp add: put_out_def produced_def)

lemma puts_produced: "produced (monitor_puts chr s mon) = produced mon @ crlf s"
  by (induction s arbitrary: mon) (simp_all add: flush_produced put_out_produced crlf_def)

text \<open>The calls that act on the output of one monitor.\<close>

datatype out_call = Puts string | Json string | Flush | Unblocked | Mux bool

fun out_step :: "chr_backend \<Rightarrow> out_call \<Rightarrow> mon_out \<Rightarrow> mon_out" where
  "out_step chr (Puts s) mon = monitor_puts chr s mon"
| "out_step chr (Json s) mon = monitor_json_emitter chr s mon"
| "out_step chr Flush mon = monitor_flush chr mon"
| "out_step chr Unblocked mon = monitor_unblocked chr mon"
| "out_step chr (Mux b) mon = mon\<lparr>mux_out := b\<rparr>"

fun printed :: "out_call \<Rightarrow> string" where
  "printed (Puts s) = s"
| "printed (Json s) = s @ [newline]"
| "printed _ = []"

definition out_run :: "chr_backend \<Rightarrow> out_call list \<Rightarrow> mon_out \<Rightarrow> mon_out" where
  "out_run chr calls mon = foldl (\<lambda>m c. out_step chr c m) mon calls"

definition out_initial :: mon_out where
  "out_initial = \<lparr>outbuf = [], mux_out = False, skip_flush = False, out_watch = False, out_log = [], writes = 0\<rparr>"

lemma unwatch_produced [simp]: "produced (mon\<lparr>out_watch := b\<rparr>) = produced mon"
  "produced (mon\<lparr>mux_out := b\<rparr>) = produced mon"
  by (simp_all add: produced_def)

lemma out_step_produced: "produced (out_step chr c mon) = produced mon @ crlf (printed c)"
  by (cases c)
    (simp_all add: puts_produced monitor_json_emitter_def monitor_flush_def monitor_unblocked_def
      flush_produced crlf_def)

lemma out_run_produced: "produced (out_run chr calls mon) = produced mon @ crlf (concat (map printed calls))"
  by (induction calls arbitrary: mon) (simp_all add: out_run_def out_step_produced crlf_def)

text \<open>Bytes are thrown away only in answer to a write that failed for good.\<close>

definition never_fails :: "chr_backend \<Rightarrow> bool" where
  "never_fails chr \<longleftrightarrow> (\<forall>n len. 0 \<le> fst (chr_write chr n len) \<or> snd (chr_write chr n len))"

definition nothing_lost :: "mon_out \<Rightarrow> bool" where
  "nothing_lost mon \<longleftrightarrow> (\<forall>x \<in> set (out_log mon). fst x)"

lemma flush_not_lost:
  assumes "never_fails chr" and "nothing_lost mon"
  shows "nothing_lost (monitor_flush_locked chr mon)"
proof -
  obtain rc again where w: "chr_write chr (writes mon) (length (outbuf mon)) = (rc, again)" by force
  with assms(1) have "0 \<le> rc \<or> again" by (metis never_fails_def fst_conv snd_conv)
  with assms(2) w show ?thesis by (auto simp: monitor_flush_locked_def nothing_lost_def Let_def split: if_splits)
qed

lemma nothing_lost_update [simp]:
  "nothing_lost (mon\<lparr>out_watch := b\<rparr>) = nothing_lost mon" "nothing_lost (mon\<lparr>mux_out := b\<rparr>) = nothing_lost mon"
  "nothing_lost (put_out s mon) = nothing_lost mon"
  by (simp_all add: nothing_lost_def put_out_def)

lemma puts_not_lost: "never_fails chr \<Longrightarrow> nothing_lost mon \<Longrightarrow> nothing_lost (monitor_puts chr s mon)"
  by (induction s arbitrary: mon) (simp_all add: flush_not_lost)

lemma out_step_not_lost: "never_fails chr \<Longrightarrow> nothing_lost mon \<Longrightarrow> nothing_lost (out_step chr c mon)"
  by (cases c)
    (simp_all add: puts_not_lost monitor_json_emitter_def monitor_flush_def monitor_unblocked_def flush_not_lost)

lemma out_run_not_lost: "never_fails chr \<Longrightarrow> nothing_lost mon \<Longrightarrow> nothing_lost (out_run chr calls mon)"
  by (induction calls arbitrary: mon) (simp_all add: out_run_def out_step_not_lost)

text \<open>What a flush leaves behind has a watch that will flush it again.\<close>

lemma flush_watched:
  "outbuf (monitor_flush_locked chr mon) \<noteq> [] \<Longrightarrow> \<forall>n. chr_watch chr n \<Longrightarrow>
     skip_flush mon \<or> mux_out mon \<or> out_watch (monitor_flush_locked chr mon)"
  by (auto simp: monitor_flush_locked_def Let_def split: prod.splits if_splits)

text \<open>C31: Whatever is printed to a monitor leaves it in order and complete: after any sequence of prints,
  flushes, wake-ups of the backend and switches of the multiplexer, with any backend, the bytes
  taken by the backend or thrown away after an error, followed by those still in the buffer, are
  the text printed, with every line end as CR LF; and if no write fails for good nothing is thrown
  away, however often the backend takes only a part or asks to be tried again.\<close>

theorem output_complete_in_order:
  assumes "mon = out_run chr calls out_initial"
  shows "concat (map snd (out_log mon)) @ outbuf mon = crlf (concat (map printed calls)) \<and>
    (never_fails chr \<longrightarrow> (\<forall>x \<in> set (out_log mon). fst x))"
proof
  show "concat (map snd (out_log mon)) @ outbuf mon = crlf (concat (map printed calls))"
    using out_run_produced [of chr calls out_initial] by (simp add: assms produced_def out_initial_def)
  have "nothing_lost out_initial" by (simp add: nothing_lost_def out_initial_def)
  then show "never_fails chr \<longrightarrow> (\<forall>x \<in> set (out_log mon). fst x)"
    using out_run_not_lost [of chr out_initial calls] unfolding assms nothing_lost_def by blast
qed

theorem output_complete_in_order_witness:
  "concat (map snd (out_log (out_run \<lparr>chr_write = \<lambda>n len. if even n then (1, False) else (- 1, True), chr_watch = \<lambda>_. True\<rparr>
       [Puts [CHR ''a'', newline], Unblocked] out_initial))) = ''a''"
  (is "concat (map snd (out_log ?m)) = _")
proof -
  have "concat (map snd (out_log ?m)) @ outbuf ?m = [CHR ''a'', CHR 0x0D, newline]"
    using output_complete_in_order [OF refl, of "\<lparr>chr_write = \<lambda>n len. if even n then (1, False) else (- 1, True), chr_watch = \<lambda>_. True\<rparr>"
        "[Puts [CHR ''a'', newline], Unblocked]"]
    by (simp add: crlf_def)
  moreover have "outbuf ?m = [CHR 0x0D, newline]"
    by (simp add: out_run_def out_initial_def monitor_unblocked_def monitor_flush_locked_def put_out_def)
  ultimately show ?thesis by simp
qed

end
