(* ===== verification/Mon_Complete.thy ===== *)
theory Mon_Complete
  imports Mon_Args
begin

text \<open>
  Help and completion of the human monitor (\<open>monitor.c\<close>): \<open>help_cmd\<close>, the completion of command
  names, files and block devices along a command's type string, and the completion functions the
  command table names. The line editor keeps an index and a list of completions; the names a
  function chooses from (devices, backends, keys, ...) are its parameters.
\<close>

section \<open>The line editor and the contract of a completion function\<close>

record readline =
  completion_index :: nat
  completions :: "string list"

definition readline_set_completion_index :: "nat \<Rightarrow> readline \<Rightarrow> readline" where
  "readline_set_completion_index n rs = rs\<lparr>completion_index := n\<rparr>"

definition readline_add_completion :: "string \<Rightarrow> readline \<Rightarrow> readline" where
  "readline_add_completion c rs = rs\<lparr>completions := completions rs @ [c]\<rparr>"

text \<open>\<open>!strncmp(name, str, strlen(str))\<close>.\<close>

definition extends_word :: "string \<Rightarrow> string \<Rightarrow> bool" where
  "extends_word str name \<longleftrightarrow> take (length str) name = str"

definition add_extending :: "string \<Rightarrow> string list \<Rightarrow> readline \<Rightarrow> readline" where
  "add_extending str names rs = foldl (\<lambda>rs n. if extends_word str n then readline_add_completion n rs else rs) rs names"

text \<open>
  What the line editor relies on: the index is the length of the end of the typed word that every
  new completion extends, so that it lies inside each of them.
\<close>

definition offers :: "string \<Rightarrow> readline \<Rightarrow> readline \<Rightarrow> bool" where
  "offers str rs rs' \<longleftrightarrow> rs' = rs \<or>
     (\<exists>u v cs. str = v @ u \<and> completion_index rs' = length u \<and> completions rs' = completions rs @ cs \<and>
        (\<forall>c \<in> set cs. extends_word u c))"

locale completion_function =
  fixes complete :: "nat \<Rightarrow> string \<Rightarrow> readline \<Rightarrow> readline"
  assumes offers_law: "offers str rs (complete nb_args str rs)"
begin

lemma index_in_completions:
  assumes "completions rs = []" and "c \<in> set (completions (complete nb_args str rs))"
  shows "completion_index (complete nb_args str rs) \<le> length c"
proof -
  have "extends_word u c \<Longrightarrow> length u \<le> length c" for u by (auto simp: extends_word_def dest: arg_cong [of _ _ length])
  then show ?thesis using offers_law [of str rs nb_args] assms by (auto simp: offers_def)
qed

end

text \<open>
  Trace events are not chosen by their beginning: the trace core lists those that match the pattern
  made of the word and \<open>*\<close>, and a word may hold wildcards of its own. \<open>matching\<close> is that list.
\<close>

definition offers_or_matches :: "(string \<Rightarrow> string list) \<Rightarrow> string \<Rightarrow> readline \<Rightarrow> readline \<Rightarrow> bool" where
  "offers_or_matches matching str rs rs' \<longleftrightarrow> offers str rs rs' \<or>
     completion_index rs' = length str \<and> completions rs' = completions rs @ matching (str @ ''*'')"

locale listing_function =
  fixes complete :: "nat \<Rightarrow> string \<Rightarrow> readline \<Rightarrow> readline" and matching :: "string \<Rightarrow> string list"
  assumes lists_law: "offers_or_matches matching str rs (complete nb_args str rs)"
begin

lemma offers_if_matching_extends:
  assumes "\<forall>c \<in> set (matching (str @ ''*'')). extends_word str c"
  shows "offers str rs (complete nb_args str rs)"
  using lists_law [of str rs nb_args] assms unfolding offers_or_matches_def offers_def by (metis append_Nil)

end

lemma completions_add_extending:
  "completions (add_extending str names rs) = completions rs @ filter (extends_word str) names"
  "completion_index (add_extending str names rs) = completion_index rs"
  unfolding add_extending_def
  by (induction names arbitrary: rs) (simp_all add: readline_add_completion_def)

lemma offers_refl [simp]: "offers str rs rs"
  by (simp add: offers_def)

lemma offers_extending:
  "offers (v @ str) rs (add_extending str names (readline_set_completion_index (length str) rs))"
  unfolding offers_def
  by (intro disjI2 exI [of _ str] exI [of _ v])
    (auto simp: completions_add_extending readline_set_completion_index_def)

lemmas offers_extending' = offers_extending [of "[]", simplified]

section \<open>Names\<close>

text \<open>A command's aliases one by one, each cut to the buffer of 128 bytes.\<close>

function cmd_completion :: "string \<Rightarrow> string \<Rightarrow> readline \<Rightarrow> readline" where
  "cmd_completion name list rs =
     (let c = take 126 (takeWhile (\<lambda>c. c \<noteq> CHR ''|'') list);
          rs = (if extends_word name c then readline_add_completion c rs else rs)
      in case dropWhile (\<lambda>c. c \<noteq> CHR ''|'') list of [] \<Rightarrow> rs | _ # p \<Rightarrow> cmd_completion name p rs)"
  by pat_completeness auto
termination
  by (relation "measure (\<lambda>(name, list, rs). length list)") (auto dest: dropWhile_Cons_less)

declare cmd_completion.simps [simp del]

text \<open>
  \<open>dir\<close> lists a directory (\<open>None\<close> when it cannot be opened), \<open>is_dir\<close> is the \<open>stat\<close>. The buffers
  have 1024 bytes; \<open>Inl ()\<close> is the copy of a longer path over the end of its buffer.
\<close>

definition path_length :: "string \<Rightarrow> nat" where
  "path_length input =
     (if CHR ''/'' \<in> set input then length input - length (takeWhile (\<lambda>c. c \<noteq> CHR ''/'') (rev input)) else 0)"

definition offered_file :: "(string \<Rightarrow> bool) \<Rightarrow> string \<Rightarrow> string \<Rightarrow> string" where
  "offered_file is_dir path d =
     (let file = path @ take (1023 - length path) d
      in if is_dir file then take 1023 (file @ ''/'') else file)"

definition file_completion ::
  "(string \<Rightarrow> string list option) \<Rightarrow> (string \<Rightarrow> bool) \<Rightarrow> string \<Rightarrow> readline \<Rightarrow> unit + readline" where
  "file_completion dir is_dir input rs =
     (let n = path_length input;
          path = (if n = 0 then ''.'' else take (min n 1023) input);
          file_prefix = take 1023 (drop n input)
      in if 1024 < n then Inl ()
         else case dir path of
             None \<Rightarrow> Inr rs
           | Some names \<Rightarrow>
               Inr (foldl (\<lambda>rs d.
                 if d = ''.'' \<or> d = ''..'' \<or> \<not> extends_word file_prefix d then rs
                 else readline_add_completion (offered_file is_dir (take (min n 1023) input) d) rs) rs names))"

definition next_arg_type :: "string \<Rightarrow> string" where
  "next_arg_type typestr =
     (case dropWhile (\<lambda>c. c \<noteq> CHR '':'') typestr of [] \<Rightarrow> typestr | _ # p \<Rightarrow> p)"

definition add_completion_option :: "string \<Rightarrow> string \<Rightarrow> readline \<Rightarrow> readline" where
  "add_completion_option str option rs = (if extends_word str option then readline_add_completion option rs else rs)"

section \<open>The completion functions of the command table\<close>

definition complete_second :: "string list \<Rightarrow> nat \<Rightarrow> string \<Rightarrow> readline \<Rightarrow> readline" where
  "complete_second names nb_args str rs =
     (if nb_args \<noteq> 2 then rs
      else add_extending str names (readline_set_completion_index (length str) rs))"

definition chardev_add_completion :: "string list \<Rightarrow> nat \<Rightarrow> string \<Rightarrow> readline \<Rightarrow> readline" where
  "chardev_add_completion backends nb_args str rs = complete_second backends nb_args str rs"

definition netdev_add_completion :: "string list \<Rightarrow> nat \<Rightarrow> string \<Rightarrow> readline \<Rightarrow> readline" where
  "netdev_add_completion drivers nb_args str rs = complete_second drivers nb_args str rs"

text \<open>Class names with \<open>user_creatable\<close>.\<close>

definition device_add_completion :: "(string \<times> bool) list \<Rightarrow> nat \<Rightarrow> string \<Rightarrow> readline \<Rightarrow> readline" where
  "device_add_completion classes nb_args str rs = complete_second (map fst (filter snd classes)) nb_args str rs"

definition object_add_completion :: "string list \<Rightarrow> nat \<Rightarrow> string \<Rightarrow> readline \<Rightarrow> readline" where
  "object_add_completion classes nb_args str rs =
     complete_second (filter (\<lambda>n. n \<noteq> ''user-creatable'') classes) nb_args str rs"

definition peripheral_device_del_completion :: "string option list \<Rightarrow> string \<Rightarrow> readline \<Rightarrow> readline" where
  "peripheral_device_del_completion ids str rs = add_extending str (List.map_filter id ids) rs"

definition device_del_completion :: "string option list \<Rightarrow> nat \<Rightarrow> string \<Rightarrow> readline \<Rightarrow> readline" where
  "device_del_completion ids nb_args str rs =
     (if nb_args \<noteq> 2 then rs
      else peripheral_device_del_completion ids str (readline_set_completion_index (length str) rs))"

definition chardev_remove_completion :: "string list \<Rightarrow> nat \<Rightarrow> string \<Rightarrow> readline \<Rightarrow> readline" where
  "chardev_remove_completion labels nb_args str rs = complete_second labels nb_args str rs"

text \<open>Labels with whether the device found under the label is a ring buffer.\<close>

definition ringbuf_completion :: "(string \<times> bool) list \<Rightarrow> string \<Rightarrow> readline \<Rightarrow> readline" where
  "ringbuf_completion labels str rs =
     add_extending str (map fst (filter snd labels)) (readline_set_completion_index (length str) rs)"

definition ringbuf_write_completion :: "(string \<times> bool) list \<Rightarrow> nat \<Rightarrow> string \<Rightarrow> readline \<Rightarrow> readline" where
  "ringbuf_write_completion labels nb_args str rs = (if nb_args \<noteq> 2 then rs else ringbuf_completion labels str rs)"

text \<open>Properties of \<open>/objects\<close> with their types.\<close>

definition object_del_completion :: "(string \<times> string) list \<Rightarrow> nat \<Rightarrow> string \<Rightarrow> readline \<Rightarrow> readline" where
  "object_del_completion infos nb_args str rs =
     complete_second (map fst (filter (\<lambda>(n, t). take 5 t = ''child'') infos)) nb_args str rs"

text \<open>Only what follows the last \<open>-\<close> is completed.\<close>

definition after_dash :: "string \<Rightarrow> string" where
  "after_dash str = rev (takeWhile (\<lambda>c. c \<noteq> CHR ''-'') (rev str))"

definition sendkey_completion :: "string list \<Rightarrow> nat \<Rightarrow> string \<Rightarrow> readline \<Rightarrow> readline" where
  "sendkey_completion keys nb_args str rs = complete_second keys nb_args (after_dash str) rs"

definition on_off_completion :: "string list \<Rightarrow> nat \<Rightarrow> string \<Rightarrow> readline \<Rightarrow> readline" where
  "on_off_completion names nb_args str rs =
     (let rs = readline_set_completion_index (length str) rs
      in if nb_args = 2 then add_extending str names rs
         else if nb_args = 3 then add_completion_option str ''off'' (add_completion_option str ''on'' rs)
         else rs)"

definition set_link_completion :: "string list \<Rightarrow> nat \<Rightarrow> string \<Rightarrow> readline \<Rightarrow> readline" where
  "set_link_completion clients nb_args str rs = on_off_completion clients nb_args str rs"

text \<open>Network clients with whether the option list \<open>netdev\<close> knows them.\<close>

definition netdev_del_completion :: "(string \<times> bool) list \<Rightarrow> nat \<Rightarrow> string \<Rightarrow> readline \<Rightarrow> readline" where
  "netdev_del_completion clients nb_args str rs = complete_second (map fst (filter snd clients)) nb_args str rs"

definition watchdog_action_completion :: "string list \<Rightarrow> nat \<Rightarrow> string \<Rightarrow> readline \<Rightarrow> readline" where
  "watchdog_action_completion actions nb_args str rs = complete_second actions nb_args str rs"

definition migrate_set_capability_completion :: "string list \<Rightarrow> nat \<Rightarrow> string \<Rightarrow> readline \<Rightarrow> readline" where
  "migrate_set_capability_completion names nb_args str rs = on_off_completion names nb_args str rs"

definition migrate_set_parameter_completion :: "string list \<Rightarrow> nat \<Rightarrow> string \<Rightarrow> readline \<Rightarrow> readline" where
  "migrate_set_parameter_completion names nb_args str rs =
     (let rs = readline_set_completion_index (length str) rs
      in if nb_args = 2 then add_extending str names rs else rs)"

definition host_net_add_completion :: "string list \<Rightarrow> nat \<Rightarrow> string \<Rightarrow> readline \<Rightarrow> readline" where
  "host_net_add_completion devices nb_args str rs = complete_second devices nb_args str rs"

text \<open>
  The hub numbers, as text, of all clients (\<open>net_hub_id_for_client\<close>), and the clients that are no
  hub port and have none.
\<close>

definition host_net_remove_completion :: "string list \<Rightarrow> string list \<Rightarrow> nat \<Rightarrow> string \<Rightarrow> readline \<Rightarrow> readline" where
  "host_net_remove_completion hubs clients nb_args str rs =
     (let rs = readline_set_completion_index (length str) rs
      in if nb_args = 2 then add_extending str hubs rs
         else if nb_args = 3 then add_extending str clients rs
         else rs)"

text \<open>Per device that can be snapshot and answers: the names and ids of its snapshots.\<close>

definition vm_completion :: "(string \<times> string) list option list \<Rightarrow> string \<Rightarrow> readline \<Rightarrow> readline" where
  "vm_completion devices str rs =
     add_extending str (concat (map (\<lambda>sn. concat (map (\<lambda>(name, i). [name, i]) sn)) (List.map_filter id devices)))
       (readline_set_completion_index (length str) rs)"

definition loadvm_completion :: "(string \<times> string) list option list \<Rightarrow> nat \<Rightarrow> string \<Rightarrow> readline \<Rightarrow> readline" where
  "loadvm_completion devices nb_args str rs = (if nb_args = 2 then vm_completion devices str rs else rs)"

definition delvm_completion :: "(string \<times> string) list option list \<Rightarrow> nat \<Rightarrow> string \<Rightarrow> readline \<Rightarrow> readline" where
  "delvm_completion devices nb_args str rs = (if nb_args = 2 then vm_completion devices str rs else rs)"

text \<open>\<open>matching\<close> are the trace events that match the pattern made of the word and \<open>*\<close>.\<close>

definition info_trace_events_completion :: "(string \<Rightarrow> string list) \<Rightarrow> nat \<Rightarrow> string \<Rightarrow> readline \<Rightarrow> readline" where
  "info_trace_events_completion matching nb_args str rs =
     (let rs = readline_set_completion_index (length str) rs
      in if nb_args = 2 then foldl (\<lambda>rs n. readline_add_completion n rs) rs (matching (str @ ''*'')) else rs)"

definition trace_event_completion :: "(string \<Rightarrow> string list) \<Rightarrow> nat \<Rightarrow> string \<Rightarrow> readline \<Rightarrow> readline" where
  "trace_event_completion matching nb_args str rs =
     (let rs = readline_set_completion_index (length str) rs
      in if nb_args = 2 then foldl (\<lambda>rs n. readline_add_completion n rs) rs (matching (str @ ''*''))
         else if nb_args = 3 then add_completion_option str ''off'' (add_completion_option str ''on'' rs)
         else rs)"

section \<open>Completion along the type string\<close>

text \<open>The two loops that look for a type; they need not end.\<close>

partial_function (option) skip_question :: "string \<Rightarrow> string option" where
  "skip_question ptype = (if first_is ptype CHR ''?'' then skip_question (next_arg_type ptype) else Some ptype)"

partial_function (option) skip_options :: "string \<Rightarrow> string option" where
  "skip_options ptype =
     (if first_is ptype CHR ''-'' \<and> 2 \<le> length ptype then skip_options (next_arg_type ptype) else Some ptype)"

fun advance_types :: "nat \<Rightarrow> string \<Rightarrow> string option" where
  "advance_types 0 ptype = Some ptype"
| "advance_types (Suc n) ptype =
     (if ptype = [] then advance_types n ptype
      else Option.bind (skip_question (next_arg_type ptype)) (advance_types n))"

record 'h completion_env =
  dir_entries :: "string \<Rightarrow> string list option"
  is_directory :: "string \<Rightarrow> bool"
  block_names :: "string list"
  run_completion :: "'h \<Rightarrow> nat \<Rightarrow> string \<Rightarrow> readline \<Rightarrow> readline"

text \<open>\<open>None\<close> when a loop does not end.\<close>

function monitor_find_completion_by_table ::
  "'h completion_env \<Rightarrow> 'h mon_cmd list \<Rightarrow> string list \<Rightarrow> readline \<Rightarrow> (unit + readline) option" where
  "monitor_find_completion_by_table env cmd_table args rs =
     (if length args \<le> 1 then
        let cmdname = (case args of [] \<Rightarrow> [] | a # _ \<Rightarrow> a)
        in Some (Inr (foldl (\<lambda>rs c. cmd_completion cmdname (cmd_name c) rs)
             (readline_set_completion_index (length cmdname) rs) cmd_table))
      else case find (\<lambda>c. compare_cmd (List.hd args) (cmd_name c)) cmd_table of
          None \<Rightarrow> Some (Inr rs)
        | Some c \<Rightarrow>
            (case sub_table c of
               Some sub \<Rightarrow> monitor_find_completion_by_table env sub (tl args) rs
             | None \<Rightarrow>
                 (case command_completion c of
                    Some h \<Rightarrow> Some (Inr (run_completion env h (length args) (last args) rs))
                  | None \<Rightarrow>
                      Option.bind (Option.bind (advance_types (length args - 2) (next_arg_type (args_type c))) skip_options)
                        (\<lambda>ptype.
                          let str = last args
                          in if first_is ptype CHR ''F'' then
                               Some (file_completion (dir_entries env) (is_directory env) str
                                       (readline_set_completion_index (length str) rs))
                             else if first_is ptype CHR ''B'' then
                               Some (Inr (add_extending str (block_names env)
                                       (readline_set_completion_index (length str) rs)))
                             else if (first_is ptype CHR ''s'' \<or> first_is ptype CHR ''S'') \<and> cmd_name c = ''help|?'' then
                               monitor_find_completion_by_table env cmd_table (tl args) rs
                             else Some (Inr rs)))))"
  by pat_completeness auto
termination
  by (relation "measure (\<lambda>(env, table, args, rs). length args)") auto

declare monitor_find_completion_by_table.simps [simp del]

definition monitor_find_completion ::
  "'h completion_env \<Rightarrow> 'h mon_cmd list \<Rightarrow> string \<Rightarrow> readline \<Rightarrow> (unit + readline) option" where
  "monitor_find_completion env cmd_table cmdline rs =
     (case parse_cmdline cmdline of
        None \<Rightarrow> Some (Inr rs)
      | Some args \<Rightarrow>
          if cmdline \<noteq> [] \<and> isspace_c (last cmdline) then
            if MAX_ARGS \<le> length args then Some (Inr rs)
            else monitor_find_completion_by_table env cmd_table (args @ [[]]) rs
          else monitor_find_completion_by_table env cmd_table args rs)"

section \<open>Help\<close>

definition help_cmd_dump_one :: "string list \<Rightarrow> 'h mon_cmd \<Rightarrow> string" where
  "help_cmd_dump_one prefix_args c =
     concat (map (\<lambda>a. a @ '' '') prefix_args) @ cmd_name c @ '' '' @ cmd_params c @ '' -- '' @ cmd_help c @ [CHR 0x0A]"

function help_cmd_dump :: "'h mon_cmd list \<Rightarrow> string list \<Rightarrow> nat \<Rightarrow> string list" where
  "help_cmd_dump cmds args arg_index =
     (if length args \<le> arg_index then map (help_cmd_dump_one (take arg_index args)) cmds
      else case find (\<lambda>c. compare_cmd (args ! arg_index) (cmd_name c)) cmds of
          None \<Rightarrow> []
        | Some c \<Rightarrow> (case sub_table c of
              Some sub \<Rightarrow> help_cmd_dump sub args (arg_index + 1)
            | None \<Rightarrow> [help_cmd_dump_one (take arg_index args) c]))"
  by pat_completeness auto
termination
  by (relation "measure (\<lambda>(cmds, args, i). length args - i)") auto

declare help_cmd_dump.simps [simp del]

text \<open>\<open>log_items\<close> is the text of the log items, padded as \<open>%-10s %s\<close>.\<close>

definition help_cmd :: "string list \<Rightarrow> 'h mon_cmd list \<Rightarrow> string option \<Rightarrow> string list" where
  "help_cmd log_items cmd_table name =
     (case name of
        None \<Rightarrow> help_cmd_dump cmd_table [] 0
      | Some n \<Rightarrow>
          if n = ''log'' then
            (''Log items (comma separated):'' @ [CHR 0x0A]) #
            ((''none       remove all logs'' @ [CHR 0x0A]) # log_items)
          else (case parse_cmdline n of None \<Rightarrow> [] | Some args \<Rightarrow> help_cmd_dump cmd_table args 0))"

end
