(* ===== verification/Mon_Complete_Props.thy ===== *)
theory Mon_Complete_Props
  imports Mon_Complete Mon_Args_Props
begin

text \<open>
  Every completion offered extends the word typed, whatever function the command table names but that
  of the trace events, no buffer of the file completion is overrun, and the type strings on which completion never ends.
\<close>

section \<open>Offers\<close>

definition adds :: "string \<Rightarrow> readline \<Rightarrow> readline \<Rightarrow> bool" where
  "adds u rs rs' \<longleftrightarrow> completion_index rs' = completion_index rs \<and>
     (\<exists>cs. completions rs' = completions rs @ cs \<and> (\<forall>c \<in> set cs. extends_word u c))"

lemma adds_refl [simp]: "adds u rs rs"
  by (simp add: adds_def)

lemma adds_trans: "adds u r1 r2 \<Longrightarrow> adds u r2 r3 \<Longrightarrow> adds u r1 r3"
  by (auto simp: adds_def)

lemma adds_add: "extends_word u c \<Longrightarrow> adds u rs (readline_add_completion c rs)"
  by (simp add: adds_def readline_add_completion_def)

lemma adds_extending: "adds u rs (add_extending u names rs)"
  by (simp add: adds_def completions_add_extending)

lemma adds_option: "adds u rs (add_completion_option u c rs)"
  by (simp add: add_completion_option_def adds_add)

lemma adds_foldl: "(\<And>rs x. x \<in> set xs \<Longrightarrow> adds u rs (f rs x)) \<Longrightarrow> adds u rs (foldl f rs xs)"
proof (induction xs arbitrary: rs)
  case (Cons x xs)
  then have "adds u rs (f rs x)" "adds u (f rs x) (foldl f (f rs x) xs)" by simp_all
  then show ?case by (simp add: adds_trans [of u rs "f rs x"])
qed simp

lemma adds_offers:
  "adds u (readline_set_completion_index (length u) rs) rs' \<Longrightarrow> offers (v @ u) rs rs'"
  unfolding offers_def adds_def readline_set_completion_index_def by auto

lemmas adds_offers' = adds_offers [of _ _ _ "[]", simplified]

lemma complete_second_offers: "offers (v @ u) rs (complete_second names n u rs)"
  by (simp add: complete_second_def adds_offers adds_extending)

lemmas complete_second_offers' = complete_second_offers [of "[]", simplified]

lemma on_off_offers: "offers str rs (on_off_completion names n str rs)"
  unfolding on_off_completion_def Let_def
  by (auto intro!: adds_offers' adds_extending intro: adds_trans [OF adds_option adds_option])

section \<open>The functions of the command table keep the contract\<close>

interpretation chardev_add: completion_function "chardev_add_completion backends"
  by unfold_locales (simp add: chardev_add_completion_def complete_second_offers')

interpretation netdev_add: completion_function "netdev_add_completion drivers"
  by unfold_locales (simp add: netdev_add_completion_def complete_second_offers')

interpretation device_add: completion_function "device_add_completion classes"
  by unfold_locales (simp add: device_add_completion_def complete_second_offers')

interpretation object_add: completion_function "object_add_completion names"
  by unfold_locales (simp add: object_add_completion_def complete_second_offers')

interpretation device_del: completion_function "device_del_completion ids"
  by unfold_locales
    (simp add: device_del_completion_def peripheral_device_del_completion_def adds_offers' adds_extending)

interpretation chardev_remove: completion_function "chardev_remove_completion labels"
  by unfold_locales (simp add: chardev_remove_completion_def complete_second_offers')

interpretation ringbuf_write: completion_function "ringbuf_write_completion rings"
  by unfold_locales (simp add: ringbuf_write_completion_def ringbuf_completion_def adds_offers' adds_extending)

interpretation object_del: completion_function "object_del_completion infos"
  by unfold_locales (simp add: object_del_completion_def complete_second_offers')

interpretation sendkey: completion_function "sendkey_completion keys"
proof
  fix str rs n
  have "str = rev (dropWhile (\<lambda>c. c \<noteq> CHR ''-'') (rev str)) @ after_dash str"
    unfolding after_dash_def by (metis rev_append rev_rev_ident takeWhile_dropWhile_id)
  then show "offers str rs (sendkey_completion keys n str rs)"
    unfolding sendkey_completion_def by (metis complete_second_offers)
qed

interpretation set_link: completion_function "set_link_completion clients"
  by unfold_locales (simp add: set_link_completion_def on_off_offers)

interpretation netdev_del: completion_function "netdev_del_completion netdevs"
  by unfold_locales (simp add: netdev_del_completion_def complete_second_offers')

interpretation watchdog_action: completion_function "watchdog_action_completion actions"
  by unfold_locales (simp add: watchdog_action_completion_def complete_second_offers')

interpretation migrate_set_capability: completion_function "migrate_set_capability_completion capabilities"
  by unfold_locales (simp add: migrate_set_capability_completion_def on_off_offers)

interpretation migrate_set_parameter: completion_function "migrate_set_parameter_completion parameters"
  by unfold_locales (auto simp: migrate_set_parameter_completion_def Let_def intro!: adds_offers' adds_extending)

interpretation host_net_add: completion_function "host_net_add_completion devices"
  by unfold_locales (simp add: host_net_add_completion_def complete_second_offers')

interpretation host_net_remove: completion_function "host_net_remove_completion hubs clients"
  by unfold_locales (auto simp: host_net_remove_completion_def Let_def intro!: adds_offers' adds_extending)

interpretation loadvm: completion_function "loadvm_completion snapshots"
  by unfold_locales (simp add: loadvm_completion_def vm_completion_def adds_offers' adds_extending)

interpretation delvm: completion_function "delvm_completion snapshots"
  by unfold_locales (simp add: delvm_completion_def vm_completion_def adds_offers' adds_extending)

lemma foldl_add_completion:
  "completions (foldl (\<lambda>rs n. readline_add_completion n rs) rs names) = completions rs @ names"
  "completion_index (foldl (\<lambda>rs n. readline_add_completion n rs) rs names) = completion_index rs"
  by (induction names arbitrary: rs) (simp_all add: readline_add_completion_def)

lemma on_off_adds: "adds u rs (add_completion_option u ''off'' (add_completion_option u ''on'' rs))"
  by (rule adds_trans [OF adds_option adds_option])

interpretation info_trace_events: listing_function "info_trace_events_completion matching" matching
proof
  show "offers_or_matches matching str rs (info_trace_events_completion matching n str rs)" for str rs n
    using adds_offers' [of str rs, OF adds_refl]
    by (auto simp: info_trace_events_completion_def offers_or_matches_def Let_def foldl_add_completion
        readline_set_completion_index_def)
qed

interpretation trace_event: listing_function "trace_event_completion matching" matching
proof
  show "offers_or_matches matching str rs (trace_event_completion matching n str rs)" for str rs n
    using adds_offers' [of str rs, OF adds_refl] adds_offers' [of str rs, OF on_off_adds]
    by (auto simp: trace_event_completion_def offers_or_matches_def Let_def foldl_add_completion
        readline_set_completion_index_def)
qed

text \<open>The functions of the command table.\<close>

inductive table_completion :: "(string \<Rightarrow> string list) \<Rightarrow> (nat \<Rightarrow> string \<Rightarrow> readline \<Rightarrow> readline) \<Rightarrow> bool"
  for matching where
  "table_completion matching (chardev_add_completion backends)"
| "table_completion matching (netdev_add_completion drivers)"
| "table_completion matching (device_add_completion classes)"
| "table_completion matching (object_add_completion names)"
| "table_completion matching (device_del_completion ids)"
| "table_completion matching (chardev_remove_completion labels)"
| "table_completion matching (ringbuf_write_completion rings)"
| "table_completion matching (object_del_completion infos)"
| "table_completion matching (sendkey_completion keys)"
| "table_completion matching (set_link_completion clients)"
| "table_completion matching (netdev_del_completion netdevs)"
| "table_completion matching (watchdog_action_completion actions)"
| "table_completion matching (migrate_set_capability_completion capabilities)"
| "table_completion matching (migrate_set_parameter_completion parameters)"
| "table_completion matching (host_net_add_completion devices)"
| "table_completion matching (host_net_remove_completion hubs clients)"
| "table_completion matching (loadvm_completion snapshots)"
| "table_completion matching (delvm_completion snapshots)"
| "table_completion matching (info_trace_events_completion matching)"
| "table_completion matching (trace_event_completion matching)"

lemma offers_lists: "offers str rs rs' \<Longrightarrow> offers_or_matches matching str rs rs'"
  by (simp add: offers_or_matches_def)

lemmas table_laws =
  chardev_add.offers_law netdev_add.offers_law device_add.offers_law object_add.offers_law
  device_del.offers_law chardev_remove.offers_law ringbuf_write.offers_law object_del.offers_law
  sendkey.offers_law set_link.offers_law netdev_del.offers_law watchdog_action.offers_law
  migrate_set_capability.offers_law migrate_set_parameter.offers_law host_net_add.offers_law
  host_net_remove.offers_law loadvm.offers_law delvm.offers_law

lemma table_completion_lists: "table_completion matching f \<Longrightarrow> offers_or_matches matching str rs (f n str rs)"
  by (induction rule: table_completion.induct)
    (rule info_trace_events.lists_law trace_event.lists_law | rule offers_lists, rule table_laws)+

section \<open>Command names and files\<close>

lemma cmd_completion_unfold:
  "cmd_completion name list rs =
     (case dropWhile (\<lambda>c. c \<noteq> CHR ''|'') list of
        [] \<Rightarrow> add_extending name [take 126 (takeWhile (\<lambda>c. c \<noteq> CHR ''|'') list)] rs
      | _ # p \<Rightarrow> cmd_completion name p (add_extending name [take 126 (takeWhile (\<lambda>c. c \<noteq> CHR ''|'') list)] rs))"
  by (subst cmd_completion.simps) (simp only: Let_def add_extending_def foldl.simps)

lemma cmd_completion_adds: "adds name rs (cmd_completion name list rs)"
proof (induction "length list" arbitrary: list rs rule: less_induct)
  case less
  show ?case
  proof (cases "dropWhile (\<lambda>c. c \<noteq> CHR ''|'') list")
    case Nil
    then show ?thesis by (subst cmd_completion_unfold) (simp only: list.case adds_extending)
  next
    case (Cons b p)
    note less [OF dropWhile_Cons_less [OF Cons]]
    then show ?thesis
      by (subst cmd_completion_unfold) (simp only: Cons list.case, rule adds_trans [OF adds_extending])
  qed
qed

lemma path_length_le: "path_length input \<le> length input"
  by (simp add: path_length_def)

lemma extends_longer: "extends_word u f \<Longrightarrow> length u \<le> length f"
  by (metis extends_word_def length_take min.cobounded1)

lemma extends_take: "extends_word u x \<Longrightarrow> length u \<le> n \<Longrightarrow> extends_word u (take n x)"
  by (simp add: extends_word_def min_def)

lemma extends_append: "extends_word u x \<Longrightarrow> extends_word u (x @ y)"
  using extends_longer [of u x] by (simp add: extends_word_def)

lemma extends_offered_file:
  assumes "length input \<le> 1023" and "n \<le> length input" and "extends_word (drop n input) d"
  shows "extends_word input (offered_file is_dir (take n input) d)"
proof -
  have "length input - n \<le> 1023 - n" using assms(1,2) by simp
  then have "extends_word (drop n input) (take (1023 - n) d)" using assms(3) by (intro extends_take) simp_all
  then have "extends_word input (take n input @ take (1023 - n) d)"
    using assms(2) extends_longer [of "drop n input" "take (1023 - n) d"] by (auto simp: extends_word_def)
  with assms(1,2) show ?thesis
    by (simp add: offered_file_def Let_def extends_take extends_append del: append_assoc take_append)
qed

lemma file_completion_adds:
  assumes "length input \<le> 1023"
  shows "\<exists>rs'. file_completion dir is_dir input rs = Inr rs' \<and> adds input rs rs'"
proof -
  let ?n = "path_length input"
  have le: "?n \<le> 1023" "?n \<le> length input" using assms path_length_le [of input] by simp_all
  then have cut: "min ?n 1023 = ?n" "take 1023 (drop ?n input) = drop ?n input" "\<not> 1024 < ?n"
    using assms by simp_all
  have "adds input rs (foldl (\<lambda>rs d. if d = ''.'' \<or> d = ''..'' \<or> \<not> extends_word (drop ?n input) d then rs
      else readline_add_completion (offered_file is_dir (take ?n input) d) rs) rs names)" for names
    by (rule adds_foldl) (simp add: adds_add extends_offered_file assms le)
  then show ?thesis
    unfolding file_completion_def Let_def cut if_not_P [OF cut(3)]
    by (cases "dir (if ?n = 0 then ''.'' else take ?n input)") simp_all
qed

section \<open>Along the type string\<close>

lemma cmd_names_adds:
  "adds u rs (foldl (\<lambda>rs c. cmd_completion u (cmd_name c) rs) rs (table :: 'h mon_cmd list))"
  by (rule adds_foldl) (rule cmd_completion_adds)

text \<open>The word completed is the last one, or the empty one.\<close>

definition last_word :: "string list \<Rightarrow> string" where
  "last_word args = (if args = [] then [] else last args)"

lemma find_completion_offers:
  fixes table :: "'h mon_cmd list"
  assumes handlers: "\<And>h n str rs. offers_or_matches matching str rs (run_completion env h n str rs)"
    and "\<forall>a \<in> set args. length a \<le> 1023"
    and "monitor_find_completion_by_table env table args rs = Some r"
  shows "\<exists>rs'. r = Inr rs' \<and> offers_or_matches matching (last_word args) rs rs'"
  using assms(2,3)
proof (induction "length args" arbitrary: table args rule: less_induct)
  case less
  note unf = less.prems(2) [unfolded monitor_find_completion_by_table.simps [of env table args rs]]
  show ?case
  proof (cases "length args \<le> 1")
    case True
    then have "(case args of [] \<Rightarrow> [] | a # _ \<Rightarrow> a) = last_word args"
      by (cases args) (simp_all add: last_word_def)
    with unf True show ?thesis
      by (auto simp: Let_def intro!: offers_lists adds_offers' cmd_names_adds)
  next
    case False
    then have shorter: "length (tl args) < length args" "last_word (tl args) = last_word args"
        "\<forall>a \<in> set (tl args). length a \<le> 1023" "last_word args = last args" "length (last args) \<le> 1023"
      using less.prems(1) by (cases args; auto simp: last_word_def last_tl list.set_sel(2))+
    note rec = less.hyps [OF shorter(1,3), unfolded shorter(2)]
    have in_file: "\<exists>rs'. file_completion d i (last args) (readline_set_completion_index (length (last args)) rs) = Inr rs' \<and>
        offers_or_matches matching (last args) rs rs'" for d i
      using file_completion_adds [OF shorter(5)] by (metis adds_offers' offers_lists)
    show ?thesis
    proof (cases "find (\<lambda>c. compare_cmd (List.hd args) (cmd_name c)) table")
      case None
      with unf False show ?thesis by (auto simp: offers_lists)
    next
      case (Some c)
      with unf False rec in_file shorter(4) show ?thesis
        by (auto simp: Let_def handlers adds_offers' adds_extending offers_lists bind_eq_Some_conv
            split: option.splits if_splits)
    qed
  qed
qed

section \<open>When the loops over the type string end\<close>

text \<open>The type behind the last \<open>:\<close> of a type string, and the ones that stop both loops.\<close>

definition last_type :: "string \<Rightarrow> string" where
  "last_type s = rev (takeWhile (\<lambda>c. c \<noteq> CHR '':'') (rev s))"

definition type_ends :: "string \<Rightarrow> bool" where
  "type_ends s \<longleftrightarrow> \<not> first_is (last_type s) CHR ''?'' \<and>
     \<not> (first_is (last_type s) CHR ''-'' \<and> 2 \<le> length (last_type s))"

function types_end :: "'h mon_cmd list \<Rightarrow> bool" where
  "types_end table =
     (\<forall>c \<in> set table. case sub_table c of
        Some sub \<Rightarrow> types_end sub
      | None \<Rightarrow> command_completion c \<noteq> None \<or> type_ends (args_type c))"
  by pat_completeness auto
termination
proof (relation "measure (size_list size)")
  fix table :: "'a mon_cmd list" and c sub
  assume "c \<in> set table" and s: "sub_table c = Some sub"
  moreover have "size_list size sub < size c" using s by (cases c) simp
  ultimately show "(sub, table) \<in> measure (size_list size)" by (simp add: size_list_estimation)
qed simp

declare types_end.simps [simp del]

lemma last_type_self: "CHR '':'' \<notin> set s \<Longrightarrow> last_type s = s"
  unfolding last_type_def by (subst takeWhile_eq_all_conv [THEN iffD2]) auto

lemma last_type_colon: "last_type (a @ CHR '':'' # p) = last_type p"
proof (cases "CHR '':'' \<in> set p")
  case True
  then show ?thesis by (simp add: last_type_def takeWhile_append1 [of "CHR '':''"])
next
  case False
  then have "takeWhile (\<lambda>c. c \<noteq> CHR '':'') (rev p @ CHR '':'' # rev a) = rev p"
    by (subst takeWhile_append2) auto
  with False show ?thesis by (simp add: last_type_def last_type_self [unfolded last_type_def])
qed

lemma next_arg_type_cases:
  obtains (colon) a p where "s = a @ CHR '':'' # p" "next_arg_type s = p" | (same) "CHR '':'' \<notin> set s" "next_arg_type s = s"
proof (cases "dropWhile (\<lambda>c. c \<noteq> CHR '':'') s")
  case Nil
  then have "CHR '':'' \<notin> set s" unfolding dropWhile_eq_Nil_conv by blast
  moreover have "next_arg_type s = s" using Nil by (simp only: next_arg_type_def list.case)
  ultimately show ?thesis by (rule same)
next
  case (Cons b p)
  then have "s = takeWhile (\<lambda>c. c \<noteq> CHR '':'') s @ CHR '':'' # p"
    by (metis (full_types) dropWhile_eq_Cons_conv)
  moreover have "next_arg_type s = p" using Cons by (simp add: next_arg_type_def)
  ultimately show ?thesis by (rule colon)
qed

lemma last_type_next: "last_type (next_arg_type s) = last_type s"
  by (rule next_arg_type_cases [of s]) (simp_all add: last_type_colon)

lemma type_ends_next: "type_ends s \<Longrightarrow> type_ends (next_arg_type s)"
  by (simp add: type_ends_def last_type_next)

lemma skip_question_ends: "type_ends s \<Longrightarrow> \<exists>t. skip_question s = Some t \<and> type_ends t"
proof (induction "length s" arbitrary: s rule: less_induct)
  case less
  show ?case
  proof (cases "first_is s CHR ''?''")
    case True
    with less.prems have "CHR '':'' \<in> set s" by (metis type_ends_def last_type_self)
    then have "length (next_arg_type s) < length s" by (rule_tac next_arg_type_cases [of s]) auto
    from less.hyps [OF this type_ends_next [OF less.prems]] True show ?thesis
      by (subst skip_question.simps) simp
  next
    case False
    with less.prems show ?thesis by (subst skip_question.simps) simp
  qed
qed

lemma skip_options_ends: "type_ends s \<Longrightarrow> \<exists>t. skip_options s = Some t \<and> type_ends t"
proof (induction "length s" arbitrary: s rule: less_induct)
  case less
  show ?case
  proof (cases "first_is s CHR ''-'' \<and> 2 \<le> length s")
    case True
    with less.prems have "CHR '':'' \<in> set s" by (metis type_ends_def last_type_self)
    then have "length (next_arg_type s) < length s" by (rule_tac next_arg_type_cases [of s]) auto
    from less.hyps [OF this type_ends_next [OF less.prems]] True show ?thesis
      by (subst skip_options.simps) simp
  next
    case False
    with less.prems show ?thesis by (subst skip_options.simps) auto
  qed
qed

lemma advance_types_ends: "type_ends s \<Longrightarrow> \<exists>t. advance_types n s = Some t \<and> type_ends t"
proof (induction n s rule: advance_types.induct)
  case (2 n s)
  then show ?case using skip_question_ends [OF type_ends_next [OF 2(3)]] by auto
qed simp

lemma find_completion_ends:
  "types_end table \<Longrightarrow> monitor_find_completion_by_table env table args rs \<noteq> None"
proof (induction "length args" arbitrary: table args rule: less_induct)
  case less
  show ?case
  proof (cases "length args \<le> 1")
    case True
    then show ?thesis by (subst monitor_find_completion_by_table.simps) (simp add: Let_def)
  next
    case False
    then have shorter: "length (tl args) < length args" by (cases args) auto
    show ?thesis
    proof (cases "find (\<lambda>c. compare_cmd (List.hd args) (cmd_name c)) table")
      case None
      with False show ?thesis by (subst monitor_find_completion_by_table.simps) simp
    next
      case (Some c)
      then have "c \<in> set table" by (auto simp: find_Some_iff)
      with less.prems have c: "case sub_table c of Some sub \<Rightarrow> types_end sub
          | None \<Rightarrow> command_completion c \<noteq> None \<or> type_ends (args_type c)"
        by (subst (asm) types_end.simps) blast
      have types: "\<exists>p q. advance_types (length args - 2) (next_arg_type (args_type c)) = Some p \<and> skip_options p = Some q"
        if "type_ends (args_type c)"
        using advance_types_ends [OF type_ends_next [OF that], of "length args - 2"] skip_options_ends by fastforce
      show ?thesis
      proof (cases "sub_table c")
        case None
        with c types less.hyps [OF shorter less.prems] Some False show ?thesis
          by (subst monitor_find_completion_by_table.simps) (auto simp: Let_def split: option.split)
      next
        case (Some sub)
        with c less.hyps [OF shorter, of sub] \<open>find _ table = Some c\<close> False show ?thesis
          by (subst monitor_find_completion_by_table.simps) simp
      qed
    qed
  qed
qed

text \<open>A type string that ends in an option is never left.\<close>

lemma skip_options_stuck:
  assumes "first_is s CHR ''-'' \<and> 2 \<le> length s \<and> CHR '':'' \<notin> set s"
  shows "skip_options s = None"
proof -
  have "\<not> (first_is s CHR ''-'' \<and> 2 \<le> length s \<and> CHR '':'' \<notin> set s)" if "skip_options s = Some t" for t
  proof (rule skip_options.raw_induct [OF _ that])
    fix f :: "string \<Rightarrow> string option" and s t
    assume ih: "\<And>s t. f s = Some t \<Longrightarrow> \<not> (first_is s CHR ''-'' \<and> 2 \<le> length s \<and> CHR '':'' \<notin> set s)"
      and step: "(if first_is s CHR ''-'' \<and> 2 \<le> length s then f (next_arg_type s) else Some s) = Some t"
    show "\<not> (first_is s CHR ''-'' \<and> 2 \<le> length s \<and> CHR '':'' \<notin> set s)"
    proof
      assume a: "first_is s CHR ''-'' \<and> 2 \<le> length s \<and> CHR '':'' \<notin> set s"
      then have "next_arg_type s = s" by (rule_tac next_arg_type_cases [of s]) auto
      with ih [of s t] step a show False by auto
    qed
  qed
  with assms show ?thesis by (cases "skip_options s") auto
qed

section \<open>Completing a command line\<close>

lemma parse_cmdline_words:
  "parse_cmdline_loop args cmdline = Some ws \<Longrightarrow> \<forall>a \<in> set args. length a \<le> 1023 \<Longrightarrow> \<forall>w \<in> set ws. length w \<le> 1023"
proof (induction args cmdline rule: parse_cmdline_loop.induct)
  case (1 args cmdline)
  from 1(2) show ?case
  proof (subst (asm) parse_cmdline_loop.simps, simp only: Let_def split: if_splits sum.splits prod.splits)
    fix x buf p'
    assume a: "get_str 1024 (skip_spaces cmdline) = Inr (buf, p')" "skip_spaces cmdline \<noteq> []" "\<not> MAX_ARGS \<le> length args"
      "parse_cmdline_loop (args @ [buf]) p' = Some ws"
    have "length buf \<le> 1023" using get_str_bound [OF a(1)] by simp
    with 1(3) show ?thesis by (intro 1(1) [OF refl a(2,3,1) refl a(4)]) auto
  qed (use 1(3) in simp_all)
qed

text \<open>The word the user is typing: none behind a blank.\<close>

definition word_typed :: "string \<Rightarrow> string" where
  "word_typed cmdline =
     (if cmdline \<noteq> [] \<and> isspace_c (last cmdline) then []
      else case parse_cmdline cmdline of None \<Rightarrow> [] | Some args \<Rightarrow> last_word args)"

text \<open>C32: completing a command line overruns no buffer, and what it offers to the line editor extends
  the part of the word being typed that the completion index spans; the one exception is the
  completion of trace events, which offers what the trace core finds for the pattern made of the word
  and \<open>*\<close>. This is so for every command table whose commands use the completion functions of
  \<open>monitor.c\<close>, whatever names those choose from. Completion returns if in addition no command that has
  neither a completion function nor a second level ends its type string in an option or a \<open>?\<close>; \<open>info
  mtree\<close>, whose handler reads the option \<open>flatview\<close>, breaks this, and there the next theorem shows that
  completion never returns.\<close>

theorem completion_extends_word:
  assumes "\<And>h. table_completion matching (run_completion env h)"
  shows "(\<forall>r. monitor_find_completion env table cmdline rs = Some r \<longrightarrow>
      (\<exists>rs'. r = Inr rs' \<and> offers_or_matches matching (word_typed cmdline) rs rs')) \<and>
    (types_end table \<longrightarrow> monitor_find_completion env table cmdline rs \<noteq> None)"
proof (cases "parse_cmdline cmdline")
  case None
  then show ?thesis by (simp add: monitor_find_completion_def offers_lists)
next
  case (Some args)
  have words: "\<forall>a \<in> set args. length a \<le> 1023"
    using parse_cmdline_words [of "[]" cmdline args] Some by (simp add: parse_cmdline_def)
  have by_table: "\<exists>rs'. r = Inr rs' \<and> offers_or_matches matching (last_word ws) rs rs'"
    if "\<forall>a \<in> set ws. length a \<le> 1023" "monitor_find_completion_by_table env table ws rs = Some r" for ws r
    using find_completion_offers [OF table_completion_lists [OF assms] that] .
  show ?thesis
    using by_table [of args] by_table [of "args @ [[]]"] words Some find_completion_ends [of table env _ rs]
    by (auto simp: monitor_find_completion_def word_typed_def last_word_def offers_lists)
qed

theorem completion_extends_word_witness:
  "\<exists>rs'. monitor_find_completion
      \<lparr>dir_entries = \<lambda>_. None, is_directory = \<lambda>_. False, block_names = [],
       run_completion = \<lambda>_::nat. chardev_remove_completion [''serial0'', ''mon'']\<rparr>
      [Mon_cmd ''chardev-remove'' ''id:s'' ''id'' ''remove a chardev'' 1 None (Some 1)]
      ''chardev-remove se'' \<lparr>completion_index = 0, completions = []\<rparr> = Some (Inr rs') \<and>
    offers_or_matches (\<lambda>_. []) (word_typed ''chardev-remove se'') \<lparr>completion_index = 0, completions = []\<rparr> rs'"
proof -
  let ?env = "\<lparr>dir_entries = \<lambda>_. None, is_directory = \<lambda>_. False, block_names = [],
    run_completion = \<lambda>_::nat. chardev_remove_completion [''serial0'', ''mon'']\<rparr>"
  let ?table = "[Mon_cmd ''chardev-remove'' ''id:s'' ''id'' ''remove a chardev'' (1 :: nat) None (Some 1)]"
  have "table_completion (\<lambda>_. []) (run_completion ?env h)" for h by (simp add: table_completion.intros)
  note c = completion_extends_word [OF this, of ?table "''chardev-remove se''" "\<lparr>completion_index = 0, completions = []\<rparr>"]
  have "types_end ?table" by (simp add: types_end.simps)
  with c obtain r where
    "monitor_find_completion ?env ?table ''chardev-remove se'' \<lparr>completion_index = 0, completions = []\<rparr> = Some r"
    by blast
  with c show ?thesis by blast
qed

text \<open>A command without completion function whose type string has, behind its first key, one
  option flag and nothing more (such as \<open>flatview:-f\<close>) makes completion spin for ever as soon as its
  first argument is completed: the loop that skips options asks for the next type, and there is
  none to go to.\<close>

theorem completion_hangs:
  assumes "find (\<lambda>c. compare_cmd name (cmd_name c)) table = Some c"
    and "sub_table c = None" and "command_completion c = None"
    and "args_type c = key @ '':-'' @ [flag]" and "CHR '':'' \<notin> set key" and "flag \<noteq> CHR '':''"
  shows "monitor_find_completion_by_table env table [name, word] rs = None"
proof -
  have "next_arg_type (args_type c) = [CHR ''-'', flag]"
    using assms(4,5) by (auto simp: next_arg_type_def dropWhile_append)
  moreover have "skip_options [CHR ''-'', flag] = None" using assms(6) by (intro skip_options_stuck) auto
  ultimately show ?thesis
    using assms(1-3) by (subst monitor_find_completion_by_table.simps) simp
qed

theorem completion_hangs_witness:
  "monitor_find_completion_by_table
     \<lparr>dir_entries = \<lambda>_. None, is_directory = \<lambda>_. False, block_names = [], run_completion = \<lambda>_ _ _ rs. rs\<rparr>
     [Mon_cmd ''mtree'' ''flatview:-f'' ''[-f]'' ''show memory tree'' (4 :: nat) None None]
     [''mtree'', []] \<lparr>completion_index = 0, completions = []\<rparr> = None"
  by (rule completion_hangs [where key = "''flatview''" and flag = "CHR ''f''"
        and c = "Mon_cmd ''mtree'' ''flatview:-f'' ''[-f]'' ''show memory tree'' 4 None None"])
    (simp_all add: compare_cmd.simps)

end
