(* ===== verification/Mon_Session.thy ===== *)
theory Mon_Session
  imports Mon_Out Mon_Args
begin

text \<open>
  Sessions on the monitors (\<open>monitor.c\<close>): which commands a QMP session may run before and after its
  capabilities negotiation, who is the current monitor while a command runs, which monitor an event
  or an error message goes to, and when a human monitor reads on. The JSON parser and
  \<open>qmp_dispatch\<close> are parameters: a byte block completes a list of messages, each a request or a
  parse error, and dispatching a request against a command list changes the state and may answer.
\<close>

section \<open>Registered commands\<close>

text \<open>\<open>qmp.commands\<close>: unset before the first connection, the negotiation list or all commands.\<close>

datatype qmp_list = Unset | Cap_negotiation | All_commands

record build_config =
  config_spice :: bool
  config_replication :: bool
  target_i386 :: bool
  target_s390x :: bool
  target_arm :: bool
  target_ppc :: bool

definition unregister :: "string list \<Rightarrow> string list \<Rightarrow> string list" where
  "unregister names cmds = filter (\<lambda>c. c \<notin> set names) cmds"

definition qmp_unregister_commands_hack :: "build_config \<Rightarrow> string list \<Rightarrow> string list" where
  "qmp_unregister_commands_hack c cmds =
     unregister (
       (if config_spice c then [] else [''query-spice'']) @
       (if config_replication c then []
        else [''xen-set-replication'', ''query-xen-replication-status'', ''xen-colo-do-checkpoint'']) @
       (if target_i386 c then [] else [''rtc-reset-reinjection'']) @
       (if target_s390x c then [] else [''dump-skeys'']) @
       (if target_arm c then [] else [''query-gic-capabilities'']) @
       (if target_s390x c \<or> target_i386 c then [] else [''query-cpu-model-expansion'']) @
       (if target_s390x c then [] else [''query-cpu-model-baseline'', ''query-cpu-model-comparison'']) @
       (if target_ppc c \<or> target_arm c \<or> target_i386 c \<or> target_s390x c then [] else [''query-cpu-definitions''])) cmds"

text \<open>\<open>marshal\<close> are the names the generated \<open>qmp_init_marshal\<close> registers.\<close>

definition monitor_init_qmp_commands :: "build_config \<Rightarrow> string list \<Rightarrow> qmp_list \<Rightarrow> string list" where
  "monitor_init_qmp_commands c marshal l =
     (case l of
        Unset \<Rightarrow> []
      | Cap_negotiation \<Rightarrow> [''qmp_capabilities'']
      | All_commands \<Rightarrow> qmp_unregister_commands_hack c
          (marshal @ [''query-qmp-schema'', ''device_add'', ''netdev_add'', ''osnet-vfio-nic-create'',
             ''osnet-vfio-nic-realize-top-half'', ''osnet-vfio-nic-realize-bottom-half'']))"

text \<open>The enabled commands, last registered first.\<close>

definition qmp_query_commands :: "(string \<Rightarrow> bool) \<Rightarrow> string list \<Rightarrow> string list" where
  "qmp_query_commands enabled cmds = foldl (\<lambda>l c. if enabled c then c # l else l) [] cmds"

section \<open>Monitors\<close>

text \<open>Requests and responses carry values of the JSON library's type \<open>'a\<close>.\<close>

record 'a qmp_request =
  req_is_dict :: bool
  req_id :: "'a option"
  req_execute :: "string option"
  req_arguments :: 'a

datatype error_class = Generic_error | Command_not_found | Device_not_found

datatype 'a qmp_answer = Return 'a | Qmp_error error_class string

datatype 'a sess_message =
    Greeting
  | Response "'a qmp_answer" "'a option"
  | Event 'a
  | Text string
  | Prompt

record 'a session =
  use_control :: bool
  has_readline :: bool
  qmp_cmds :: qmp_list
  suspend_cnt :: int
  reset_seen :: bool
  sess_mux_out :: bool
  mon_cpu :: "nat option"
  sent :: "'a sess_message list"

text \<open>Monitors are named by their place in \<open>mons\<close>; \<open>err_out\<close> is the standard error stream.\<close>

record ('a, 'w) monitors =
  mons :: "'a session list"
  cur_mon :: "nat option"
  refcount :: int
  err_out :: "string list"
  world :: 'w

abbreviation session_of :: "nat \<Rightarrow> ('a, 'w) monitors \<Rightarrow> 'a session" where
  "session_of m s \<equiv> mons s ! m"

definition upd_session :: "nat \<Rightarrow> ('a session \<Rightarrow> 'a session) \<Rightarrow> ('a, 'w) monitors \<Rightarrow> ('a, 'w) monitors" where
  "upd_session m f s = s\<lparr>mons := (mons s)[m := f (session_of m s)]\<rparr>"

definition send :: "'a sess_message \<Rightarrow> 'a session \<Rightarrow> 'a session" where
  "send x d = d\<lparr>sent := sent d @ [x]\<rparr>"

abbreviation monitor_is_qmp :: "'a session \<Rightarrow> bool" where
  "monitor_is_qmp \<equiv> use_control"

definition monitor_cur_is_qmp :: "('a, 'w) monitors \<Rightarrow> bool" where
  "monitor_cur_is_qmp s = (case cur_mon s of None \<Rightarrow> False | Some m \<Rightarrow> monitor_is_qmp (session_of m s))"

definition event_to_session :: "'a \<Rightarrow> 'a session \<Rightarrow> 'a session" where
  "event_to_session ev d = (if monitor_is_qmp d \<and> qmp_cmds d \<noteq> Cap_negotiation then send (Event ev) d else d)"

definition event_to_monitors :: "'a \<Rightarrow> ('a, 'w) monitors \<Rightarrow> ('a, 'w) monitors" where
  "event_to_monitors ev s = s\<lparr>mons := map (event_to_session ev) (mons s)\<rparr>"

text \<open>Nothing is printed as text on a QMP monitor.\<close>

definition print_text :: "string \<Rightarrow> 'a session \<Rightarrow> 'a session" where
  "print_text t d = (if monitor_is_qmp d then d else send (Text t) d)"

definition error_vprintf :: "string \<Rightarrow> ('a, 'w) monitors \<Rightarrow> ('a, 'w) monitors" where
  "error_vprintf t s =
     (case cur_mon s of
        Some m \<Rightarrow> if \<not> monitor_cur_is_qmp s then upd_session m (print_text t) s else s\<lparr>err_out := err_out s @ [t]\<rparr>
      | None \<Rightarrow> s\<lparr>err_out := err_out s @ [t]\<rparr>)"

definition error_vprintf_unless_qmp :: "string \<Rightarrow> ('a, 'w) monitors \<Rightarrow> ('a, 'w) monitors" where
  "error_vprintf_unless_qmp t s =
     (case cur_mon s of
        Some m \<Rightarrow> if \<not> monitor_cur_is_qmp s then upd_session m (print_text t) s else s
      | None \<Rightarrow> s\<lparr>err_out := err_out s @ [t]\<rparr>)"

section \<open>QMP sessions\<close>

definition negotiation_complete :: string where
  "negotiation_complete = ''Capabilities negotiation is already complete, command ignored''"

definition expecting_negotiation :: string where
  "expecting_negotiation = ''Expecting capabilities negotiation with '' @ [CHR 0x27] @ ''qmp_capabilities'' @ [CHR 0x27]"

text \<open>Run by the current monitor; \<open>Some e\<close> is the error set.\<close>

definition qmp_qmp_capabilities :: "('a, 'w) monitors \<Rightarrow> ('a, 'w) monitors \<times> (error_class \<times> string) option" where
  "qmp_qmp_capabilities s =
     (let m = the (cur_mon s)
      in if qmp_cmds (session_of m s) = All_commands then (s, Some (Command_not_found, negotiation_complete))
         else (upd_session m (\<lambda>d. d\<lparr>qmp_cmds := All_commands\<rparr>) s, None))"

type_synonym ('a, 'w) dispatcher =
  "qmp_list \<Rightarrow> 'a qmp_request \<Rightarrow> ('a, 'w) monitors \<Rightarrow> ('a, 'w) monitors \<times> 'a qmp_answer option"

definition improve_error :: "qmp_list \<Rightarrow> 'a qmp_answer option \<Rightarrow> 'a qmp_answer option" where
  "improve_error l rsp =
     (case rsp of
        Some (Qmp_error c desc) \<Rightarrow>
          if l = Cap_negotiation \<and> c = Command_not_found then Some (Qmp_error c expecting_negotiation) else rsp
      | _ \<Rightarrow> rsp)"

definition handle_qmp_command ::
  "('a, 'w) dispatcher \<Rightarrow> string + 'a qmp_request \<Rightarrow> ('a, 'w) monitors \<Rightarrow> ('a, 'w) monitors"
where
  "handle_qmp_command dispatch parsed s =
     (let mon = the (cur_mon s)
      in case parsed of
           Inl err \<Rightarrow> upd_session mon (send (Response (Qmp_error Generic_error err) None)) s
         | Inr req \<Rightarrow>
             let rid = (if req_is_dict req then req_id req else None);
                 (s, rsp) = dispatch (qmp_cmds (session_of mon s)) (req\<lparr>req_id := None\<rparr>) s;
                 rsp = improve_error (qmp_cmds (session_of mon s)) rsp
             in (case rsp of None \<Rightarrow> s | Some r \<Rightarrow> upd_session mon (send (Response r rid)) s))"

definition monitor_qmp_read ::
  "('a, 'w) dispatcher \<Rightarrow> nat \<Rightarrow> (string + 'a qmp_request) list \<Rightarrow> ('a, 'w) monitors \<Rightarrow> ('a, 'w) monitors"
where
  "monitor_qmp_read dispatch m msgs s =
     (foldl (\<lambda>s p. handle_qmp_command dispatch p s) (s\<lparr>cur_mon := Some m\<rparr>) msgs)\<lparr>cur_mon := cur_mon s\<rparr>"

datatype chr_event = Chr_opened | Chr_closed | Chr_mux_in | Chr_mux_out | Chr_break

text \<open>The clean-up of the descriptor sets on closing is in the component of the descriptors.\<close>

definition monitor_qmp_event :: "nat \<Rightarrow> chr_event \<Rightarrow> ('a, 'w) monitors \<Rightarrow> ('a, 'w) monitors" where
  "monitor_qmp_event m ev s =
     (case ev of
        Chr_opened \<Rightarrow>
          (upd_session m (\<lambda>d. send Greeting (d\<lparr>qmp_cmds := Cap_negotiation\<rparr>)) s)\<lparr>refcount := refcount s + 1\<rparr>
      | Chr_closed \<Rightarrow> s\<lparr>refcount := refcount s - 1\<rparr>
      | _ \<Rightarrow> s)"

section \<open>Human monitors\<close>

text \<open>\<open>-ENOTTY\<close> without a line editor.\<close>

definition monitor_suspend :: "nat \<Rightarrow> ('a, 'w) monitors \<Rightarrow> ('a, 'w) monitors \<times> int" where
  "monitor_suspend m s =
     (if \<not> has_readline (session_of m s) then (s, - 25)
      else (upd_session m (\<lambda>d. d\<lparr>suspend_cnt := suspend_cnt d + 1\<rparr>) s, 0))"

definition monitor_resume :: "nat \<Rightarrow> ('a, 'w) monitors \<Rightarrow> ('a, 'w) monitors" where
  "monitor_resume m s =
     (if \<not> has_readline (session_of m s) then s
      else upd_session m (\<lambda>d. let d = d\<lparr>suspend_cnt := suspend_cnt d - 1\<rparr>
                               in if suspend_cnt d = 0 then send Prompt d else d) s)"

definition monitor_can_read :: "'a session \<Rightarrow> bool" where
  "monitor_can_read d \<longleftrightarrow> suspend_cnt d = 0"

definition monitor_read_command :: "bool \<Rightarrow> 'a session \<Rightarrow> 'a session" where
  "monitor_read_command show_prompt d = (if has_readline d \<and> show_prompt then send Prompt d else d)"

definition monitor_read_password :: "'a session \<Rightarrow> 'a session \<times> int" where
  "monitor_read_password d =
     (if has_readline d then (d, 0)
      else (print_text (''terminal does not support password prompting'' @ [newline]) d, - 25))"

text \<open>\<open>hmp m line\<close> is \<open>handle_hmp_command\<close> on monitor \<open>m\<close>.\<close>

type_synonym ('a, 'w) hmp_runner = "nat \<Rightarrow> string \<Rightarrow> ('a, 'w) monitors \<Rightarrow> ('a, 'w) monitors"

definition monitor_command_cb ::
  "('a, 'w) hmp_runner \<Rightarrow> nat \<Rightarrow> string \<Rightarrow> ('a, 'w) monitors \<Rightarrow> ('a, 'w) monitors"
where
  "monitor_command_cb hmp m cmdline s = monitor_resume m (hmp m cmdline (fst (monitor_suspend m s)))"

text \<open>
  \<open>typed\<close> are the lines the line editor completes with the bytes \<open>buf\<close>; without a line editor the
  bytes are one command with its terminating 0.
\<close>

definition monitor_read ::
  "('a, 'w) hmp_runner \<Rightarrow> nat \<Rightarrow> string list \<Rightarrow> string \<Rightarrow> ('a, 'w) monitors \<Rightarrow> ('a, 'w) monitors"
where
  "monitor_read hmp m typed buf s =
     (let t = s\<lparr>cur_mon := Some m\<rparr>;
          t = (if has_readline (session_of m t) then foldl (\<lambda>s l. monitor_command_cb hmp m l s) t typed
               else if buf = [] \<or> last buf \<noteq> CHR 0x00
               then upd_session m (print_text (''corrupted command'' @ [newline])) t
               else hmp m (takeWhile (\<lambda>c. c \<noteq> CHR 0x00) buf) t)
      in t\<lparr>cur_mon := cur_mon s\<rparr>)"

definition banner :: "string \<Rightarrow> string" where
  "banner version = ''QEMU '' @ version @ '' monitor - type '' @ [CHR 0x27] @ ''help'' @ [CHR 0x27]
     @ '' for more information'' @ [newline]"

definition monitor_event :: "string \<Rightarrow> nat \<Rightarrow> chr_event \<Rightarrow> ('a, 'w) monitors \<Rightarrow> ('a, 'w) monitors" where
  "monitor_event version m ev s =
     (case ev of
        Chr_mux_in \<Rightarrow>
          let s = upd_session m (\<lambda>d. d\<lparr>sess_mux_out := False\<rparr>) s
          in if reset_seen (session_of m s) then monitor_resume m s
             else upd_session m (\<lambda>d. d\<lparr>suspend_cnt := 0\<rparr>) s
      | Chr_mux_out \<Rightarrow>
          let s = (if reset_seen (session_of m s) then
                     fst (monitor_suspend m
                       (if suspend_cnt (session_of m s) = 0 then upd_session m (print_text [newline]) s else s))
                   else upd_session m (\<lambda>d. d\<lparr>suspend_cnt := suspend_cnt d + 1\<rparr>) s)
          in upd_session m (\<lambda>d. d\<lparr>sess_mux_out := True\<rparr>) s
      | Chr_opened \<Rightarrow>
          let s = upd_session m (print_text (banner version)) s;
              s = (if \<not> sess_mux_out (session_of m s) then upd_session m (send Prompt) s else s)
          in (upd_session m (\<lambda>d. d\<lparr>reset_seen := True\<rparr>) s)\<lparr>refcount := refcount s + 1\<rparr>
      | Chr_closed \<Rightarrow> s\<lparr>refcount := refcount s - 1\<rparr>
      | Chr_break \<Rightarrow> s)"

section \<open>The current CPU\<close>

text \<open>\<open>cpus\<close> are the indices \<open>qemu_get_cpu\<close> finds, in the order of the list.\<close>

definition monitor_set_cpu :: "nat list \<Rightarrow> int \<Rightarrow> ('a, 'w) monitors \<Rightarrow> ('a, 'w) monitors \<times> int" where
  "monitor_set_cpu cpus cpu_index s =
     (if 0 \<le> cpu_index \<and> nat cpu_index \<in> set cpus
      then (upd_session (the (cur_mon s)) (\<lambda>d. d\<lparr>mon_cpu := Some (nat cpu_index)\<rparr>) s, 0) else (s, - 1))"

definition mon_get_cpu :: "nat list \<Rightarrow> ('a, 'w) monitors \<Rightarrow> ('a, 'w) monitors \<times> nat option" where
  "mon_get_cpu cpus s =
     (case mon_cpu (session_of (the (cur_mon s)) s) of
        Some c \<Rightarrow> (s, Some c)
      | None \<Rightarrow> (case cpus of [] \<Rightarrow> (s, None)
                 | c # _ \<Rightarrow> let s = fst (monitor_set_cpu cpus (int c) s)
                            in (s, mon_cpu (session_of (the (cur_mon s)) s))))"

text \<open>\<open>unassigned\<close> is \<open>UNASSIGNED_CPU_INDEX\<close>.\<close>

definition monitor_get_cpu_index :: "int \<Rightarrow> nat list \<Rightarrow> ('a, 'w) monitors \<Rightarrow> ('a, 'w) monitors \<times> int" where
  "monitor_get_cpu_index unassigned cpus s =
     (case mon_get_cpu cpus s of (s, c) \<Rightarrow> (s, case c of None \<Rightarrow> unassigned | Some i \<Rightarrow> int i))"

section \<open>Human commands over QMP\<close>

definition monitor_data_init :: "'a session" where
  "monitor_data_init =
     \<lparr>use_control = False, has_readline = False, qmp_cmds = Unset, suspend_cnt = 0, reset_seen = False,
      sess_mux_out = False, mon_cpu = None, sent = []\<rparr>"

definition message_text :: "'a sess_message \<Rightarrow> string" where
  "message_text x = (case x of Text t \<Rightarrow> t | _ \<Rightarrow> [])"

text \<open>The temporary monitor never flushes: its output stays in its buffer.\<close>

definition buffered_output :: "chr_backend \<Rightarrow> 'a session \<Rightarrow> string" where
  "buffered_output chr d =
     outbuf (foldl (\<lambda>out x. monitor_puts chr (message_text x) out)
       \<lparr>outbuf = [], mux_out = False, skip_flush = True, out_watch = False, out_log = [], writes = 0\<rparr> (sent d))"

text \<open>The 64-bit index is passed as an \<open>int\<close>.\<close>

definition low_int :: "int \<Rightarrow> int" where
  "low_int i = sint (word_of_int i :: 32 word)"

text \<open>The temporary monitor is the last of \<open>mons\<close> while the command runs; \<open>None\<close> is the error.\<close>

definition qmp_human_monitor_command ::
  "chr_backend \<Rightarrow> ('a, 'w) hmp_runner \<Rightarrow> nat list \<Rightarrow> string \<Rightarrow> int option \<Rightarrow> ('a, 'w) monitors
     \<Rightarrow> ('a, 'w) monitors \<times> string option"
where
  "qmp_human_monitor_command chr hmp cpus command_line cpu_index s =
     (let n = length (mons s);
          t = s\<lparr>mons := mons s @ [monitor_data_init], cur_mon := Some n\<rparr>;
          (t, ret) = (case cpu_index of None \<Rightarrow> (t, 0) | Some i \<Rightarrow> monitor_set_cpu cpus (low_int i) t)
      in if ret < 0 then (t\<lparr>mons := take n (mons t), cur_mon := cur_mon s\<rparr>, None)
         else let t = hmp n command_line t;
                  output = buffered_output chr (session_of n t)
              in (t\<lparr>mons := take n (mons t), cur_mon := cur_mon s\<rparr>, Some output))"

section \<open>Creation\<close>

definition monitor_init :: "bool \<Rightarrow> bool \<Rightarrow> ('a, 'w) monitors \<Rightarrow> ('a, 'w) monitors" where
  "monitor_init control readline s =
     s\<lparr>mons := mons s @ [monitor_read_command False
         (monitor_data_init\<lparr>use_control := control, has_readline := readline\<rparr>)]\<rparr>"

definition monitor_cleanup :: "('a, 'w) monitors \<Rightarrow> ('a, 'w) monitors" where
  "monitor_cleanup s = s\<lparr>mons := []\<rparr>"

end
