(* ===== verification/Mon_Session_Props.thy ===== *)
theory Mon_Session_Props
  imports Mon_Session
begin

text \<open>
  What a QMP session may do before its negotiation, the order of its answers, the output of a human
  command run over QMP, and when a human monitor reads.
\<close>

section \<open>Updating one session\<close>

lemma upd_session_simps [simp]:
  "m < length (mons s) \<Longrightarrow> session_of m (upd_session m f s) = f (session_of m s)"
  "length (mons (upd_session m f s)) = length (mons s)"
  "cur_mon (upd_session m f s) = cur_mon s" "world (upd_session m f s) = world s"
  "refcount (upd_session m f s) = refcount s"
  "k \<noteq> m \<Longrightarrow> session_of k (upd_session m f s) = session_of k s"
  by (simp_all add: upd_session_def)

lemma upd_upd_session:
  "m < length (mons s) \<Longrightarrow> upd_session m g (upd_session m f s) = upd_session m (\<lambda>d. g (f d)) s"
  by (simp add: upd_session_def)

lemma upd_session_same: "f (session_of m s) = session_of m s \<Longrightarrow> upd_session m f s = s"
  by (simp add: upd_session_def)

lemma upd_session_cur_mon: "(upd_session m f s)\<lparr>cur_mon := c\<rparr> = upd_session m f (s\<lparr>cur_mon := c\<rparr>)"
  by (simp add: upd_session_def)

lemma send_simps [simp]:
  "sent (send x d) = sent d @ [x]" "qmp_cmds (send x d) = qmp_cmds d" "use_control (send x d) = use_control d"
  "suspend_cnt (send x d) = suspend_cnt d" "has_readline (send x d) = has_readline d"
  "reset_seen (send x d) = reset_seen d" "sess_mux_out (send x d) = sess_mux_out d"
  by (simp_all add: send_def)

lemma print_text_simps [simp]:
  "suspend_cnt (print_text t d) = suspend_cnt d" "has_readline (print_text t d) = has_readline d"
  "reset_seen (print_text t d) = reset_seen d" "sess_mux_out (print_text t d) = sess_mux_out d"
  by (simp_all add: print_text_def)

lemma event_to_monitors_simps [simp]:
  "length (mons (event_to_monitors ev s)) = length (mons s)"
  "m < length (mons s) \<Longrightarrow> session_of m (event_to_monitors ev s) = event_to_session ev (session_of m s)"
  by (simp_all add: event_to_monitors_def)

section \<open>Before the negotiation\<close>

text \<open>
  What \<open>qmp_dispatch\<close> does with a request that names no command of the list: it answers with an
  error and runs nothing.
\<close>

definition refuses_unknown :: "(qmp_list \<Rightarrow> string list) \<Rightarrow> ('a, 'w) dispatcher \<Rightarrow> bool" where
  "refuses_unknown cmds dispatch \<longleftrightarrow>
     (\<forall>l r s. (case req_execute r of None \<Rightarrow> True | Some c \<Rightarrow> c \<notin> set (cmds l)) \<longrightarrow>
        (\<exists>c desc. dispatch l r s = (s, Some (Qmp_error c desc))))"

definition no_capabilities :: "string + 'a qmp_request \<Rightarrow> bool" where
  "no_capabilities p = (case p of Inl _ \<Rightarrow> True | Inr r \<Rightarrow> req_execute r \<noteq> Some ''qmp_capabilities'')"

definition is_refusal :: "'a sess_message \<Rightarrow> bool" where
  "is_refusal x = (case x of Response (Qmp_error _ _) _ \<Rightarrow> True | _ \<Rightarrow> False)"

lemma refused_command:
  assumes dispatch: "refuses_unknown (monitor_init_qmp_commands c marshal) dispatch"
    and cur: "cur_mon s = Some m" and neg: "qmp_cmds (session_of m s) = Cap_negotiation"
    and p: "no_capabilities p"
  shows "\<exists>x. is_refusal x \<and> handle_qmp_command dispatch p s = upd_session m (send x) s"
proof (cases p)
  case (Inl e)
  with cur show ?thesis
    by (intro exI [of _ "Response (Qmp_error Generic_error e) None"]) (simp add: handle_qmp_command_def is_refusal_def)
next
  case (Inr r)
  let ?r = "r\<lparr>req_id := None\<rparr>"
  have "case req_execute ?r of None \<Rightarrow> True | Some x \<Rightarrow> x \<notin> set (monitor_init_qmp_commands c marshal Cap_negotiation)"
    using p Inr by (auto simp: no_capabilities_def monitor_init_qmp_commands_def split: option.split)
  then obtain k desc where d: "dispatch Cap_negotiation ?r s = (s, Some (Qmp_error k desc))"
    using dispatch unfolding refuses_unknown_def by meson
  let ?i = "if req_is_dict r then req_id r else None"
  let ?e = "if k = Command_not_found then expecting_negotiation else desc"
  have "handle_qmp_command dispatch p s = upd_session m (send (Response (Qmp_error k ?e) ?i)) s"
    using cur neg Inr d by (simp add: handle_qmp_command_def improve_error_def)
  then show ?thesis by (intro exI [of _ "Response (Qmp_error k ?e) ?i"]) (simp add: is_refusal_def)
qed

lemma refused_commands:
  assumes dispatch: "refuses_unknown (monitor_init_qmp_commands c marshal) dispatch"
  shows "cur_mon s = Some m \<Longrightarrow> m < length (mons s) \<Longrightarrow> qmp_cmds (session_of m s) = Cap_negotiation \<Longrightarrow>
    \<forall>p \<in> set msgs. no_capabilities p \<Longrightarrow>
    \<exists>rs. (\<forall>x \<in> set rs. is_refusal x) \<and> foldl (\<lambda>s p. handle_qmp_command dispatch p s) s msgs =
      upd_session m (\<lambda>d. d\<lparr>sent := sent d @ rs\<rparr>) s"
proof (induction msgs arbitrary: s)
  case Nil
  then show ?case by (intro exI [of _ "[]"]) (simp add: upd_session_same)
next
  case (Cons p msgs)
  obtain x where x: "is_refusal x" "handle_qmp_command dispatch p s = upd_session m (send x) s"
    using refused_command [OF dispatch Cons.prems(1,3)] Cons.prems(4) by auto
  have "\<exists>rs. (\<forall>x \<in> set rs. is_refusal x) \<and> foldl (\<lambda>s p. handle_qmp_command dispatch p s) (upd_session m (send x) s) msgs =
      upd_session m (\<lambda>d. d\<lparr>sent := sent d @ rs\<rparr>) (upd_session m (send x) s)"
    using Cons.prems by (intro Cons.IH) simp_all
  then obtain rs where "\<forall>x \<in> set rs. is_refusal x"
    "foldl (\<lambda>s p. handle_qmp_command dispatch p s) (upd_session m (send x) s) msgs =
      upd_session m (\<lambda>d. d\<lparr>sent := sent d @ rs\<rparr>) (upd_session m (send x) s)" by blast
  with x Cons.prems(2) show ?case
    by (intro exI [of _ "x # rs"]) (simp add: upd_upd_session send_def)
qed

lemma refused_read:
  assumes dispatch: "refuses_unknown (monitor_init_qmp_commands c marshal) dispatch"
    and m: "m < length (mons s)" and neg: "qmp_cmds (session_of m s) = Cap_negotiation"
    and msgs: "\<forall>p \<in> set msgs. no_capabilities p"
  shows "\<exists>rs. (\<forall>x \<in> set rs. is_refusal x) \<and>
    monitor_qmp_read dispatch m msgs s = upd_session m (\<lambda>d. d\<lparr>sent := sent d @ rs\<rparr>) s"
proof -
  obtain rs where "\<forall>x \<in> set rs. is_refusal x" "foldl (\<lambda>s p. handle_qmp_command dispatch p s) (s\<lparr>cur_mon := Some m\<rparr>) msgs =
      upd_session m (\<lambda>d. d\<lparr>sent := sent d @ rs\<rparr>) (s\<lparr>cur_mon := Some m\<rparr>)"
    using refused_commands [OF dispatch, of "s\<lparr>cur_mon := Some m\<rparr>" m msgs] m neg msgs by auto
  then show ?thesis by (intro exI [of _ rs]) (simp add: monitor_qmp_read_def upd_session_cur_mon)
qed

text \<open>
  What may happen while monitor \<open>m\<close> negotiates: its client sends anything but the capabilities
  command, events are emitted, and the rest of the program does what it wants to everything else.
\<close>

inductive negotiating_step :: "('a, 'w) dispatcher \<Rightarrow> nat \<Rightarrow> ('a, 'w) monitors \<Rightarrow> ('a, 'w) monitors \<Rightarrow> bool"
  for dispatch m where
  client: "\<forall>p \<in> set msgs. no_capabilities p \<Longrightarrow> negotiating_step dispatch m s (monitor_qmp_read dispatch m msgs s)"
| event: "negotiating_step dispatch m s (event_to_monitors ev s)"
| others: "length (mons s) \<le> length (mons s') \<Longrightarrow> session_of m s' = session_of m s \<Longrightarrow> negotiating_step dispatch m s s'"

definition negotiates :: "nat \<Rightarrow> 'a sess_message list \<Rightarrow> ('a, 'w) monitors \<Rightarrow> bool" where
  "negotiates m old s \<longleftrightarrow> m < length (mons s) \<and> qmp_cmds (session_of m s) = Cap_negotiation \<and>
     (\<exists>rs. sent (session_of m s) = old @ Greeting # rs \<and> (\<forall>x \<in> set rs. is_refusal x))"

lemma negotiates_step:
  assumes "refuses_unknown (monitor_init_qmp_commands c marshal) dispatch"
    and "negotiating_step dispatch m s s'" and inv: "negotiates m old s"
  shows "negotiates m old s'"
  using assms(2)
proof cases
  case (client msgs)
  have m: "m < length (mons s)" "qmp_cmds (session_of m s) = Cap_negotiation" using inv by (simp_all add: negotiates_def)
  obtain rs where rs: "\<forall>x \<in> set rs. is_refusal x" "s' = upd_session m (\<lambda>d. d\<lparr>sent := sent d @ rs\<rparr>) s"
    using refused_read [OF assms(1) m client(2)] client(1) by blast
  obtain rs0 where rs0: "sent (session_of m s) = old @ Greeting # rs0" "\<forall>x \<in> set rs0. is_refusal x"
    using inv by (auto simp: negotiates_def)
  have "sent (session_of m s') = old @ Greeting # (rs0 @ rs)" using rs(2) rs0(1) m(1) by simp
  moreover have "\<forall>x \<in> set (rs0 @ rs). is_refusal x" using rs(1) rs0(2) by auto
  ultimately show ?thesis using m rs(2) unfolding negotiates_def by auto
next
  case (event ev)
  with inv show ?thesis by (auto simp: negotiates_def event_to_session_def)
next
  case others
  with inv show ?thesis by (auto simp: negotiates_def)
qed

text \<open>C33: From the moment a client connects until it sends \<open>qmp_capabilities\<close>, its session stays in
  negotiation mode and all it is sent, after the greeting, are error answers: no command runs for it
  and no event reaches it, whatever it sends, whatever events are emitted and whatever the other
  monitors and the machine do in between.\<close>

theorem nothing_before_negotiation:
  assumes "refuses_unknown (monitor_init_qmp_commands c marshal) dispatch"
    and "m < length (mons s)"
    and "(negotiating_step dispatch m)\<^sup>*\<^sup>* (monitor_qmp_event m Chr_opened s) s'"
  shows "qmp_cmds (session_of m s') = Cap_negotiation \<and>
    (\<exists>rs. sent (session_of m s') = sent (session_of m s) @ Greeting # rs \<and> (\<forall>x \<in> set rs. is_refusal x))"
proof -
  have "negotiates m (sent (session_of m s)) (monitor_qmp_event m Chr_opened s)"
    using assms(2) by (simp add: negotiates_def monitor_qmp_event_def)
  with assms(3) have "negotiates m (sent (session_of m s)) s'"
    by (induction rule: rtranclp_induct) (simp_all add: negotiates_step [OF assms(1)])
  then show ?thesis by (simp add: negotiates_def)
qed

definition demo_dispatch :: "(qmp_list \<Rightarrow> string list) \<Rightarrow> (string, nat) dispatcher" where
  "demo_dispatch cmds l r s =
     (case req_execute r of
        None \<Rightarrow> (s, Some (Qmp_error Generic_error ''No command''))
      | Some x \<Rightarrow>
          if x \<notin> set (cmds l) then (s, Some (Qmp_error Command_not_found (''The command '' @ x @ '' has not been found'')))
          else if x = ''qmp_capabilities'' then
            (case qmp_qmp_capabilities s of
               (s, None) \<Rightarrow> (s, Some (Return ''{}'')) | (s, Some (c, d)) \<Rightarrow> (s, Some (Qmp_error c d)))
          else (s\<lparr>world := world s + 1\<rparr>, Some (Return x)))"

lemma demo_refuses: "refuses_unknown cmds (demo_dispatch cmds)"
  by (auto simp: refuses_unknown_def demo_dispatch_def split: option.splits)

definition demo_config :: build_config where
  "demo_config = \<lparr>config_spice = False, config_replication = False, target_i386 = True, target_s390x = False,
     target_arm = False, target_ppc = False\<rparr>"

definition demo_commands :: "qmp_list \<Rightarrow> string list" where
  "demo_commands = monitor_init_qmp_commands demo_config [''query-status'', ''query-spice'']"

definition demo_monitors :: "(string, nat) monitors" where
  "demo_monitors = monitor_init True False \<lparr>mons = [], cur_mon = None, refcount = 0, err_out = [], world = 0\<rparr>"

definition demo_request :: "string \<Rightarrow> string \<Rightarrow> string + string qmp_request" where
  "demo_request i c = Inr \<lparr>req_is_dict = True, req_id = Some i, req_execute = Some c, req_arguments = []\<rparr>"

theorem nothing_before_negotiation_witness:
  "\<exists>rs. sent (session_of 0 (event_to_monitors ''STOP'' (monitor_qmp_read (demo_dispatch demo_commands) 0
       [Inl ''JSON parse error'', demo_request ''1'' ''query-status''] (monitor_qmp_event 0 Chr_opened demo_monitors)))) =
     sent (session_of 0 demo_monitors) @ Greeting # rs \<and> (\<forall>x \<in> set rs. is_refusal x)"
proof -
  let ?s = "monitor_qmp_event 0 Chr_opened demo_monitors"
  let ?msgs = "[Inl ''JSON parse error'', demo_request ''1'' ''query-status'']"
  have "negotiating_step (demo_dispatch demo_commands) 0 ?s (monitor_qmp_read (demo_dispatch demo_commands) 0 ?msgs ?s)"
    by (rule negotiating_step.client) (simp add: no_capabilities_def demo_request_def)
  then have "(negotiating_step (demo_dispatch demo_commands) 0)\<^sup>*\<^sup>* ?s
      (event_to_monitors ''STOP'' (monitor_qmp_read (demo_dispatch demo_commands) 0 ?msgs ?s))"
    by (rule converse_rtranclp_into_rtranclp) (rule r_into_rtranclp, rule negotiating_step.event)
  moreover have "refuses_unknown (monitor_init_qmp_commands demo_config [''query-status'', ''query-spice''])
      (demo_dispatch demo_commands)"
    unfolding demo_commands_def [symmetric] by (rule demo_refuses)
  ultimately show ?thesis
    using nothing_before_negotiation [of demo_config "[''query-status'', ''query-spice'']" "demo_dispatch demo_commands" 0 demo_monitors]
    by (simp add: demo_monitors_def monitor_init_def)
qed

section \<open>Answers\<close>

definition answered_ids :: "'a session \<Rightarrow> 'a option list" where
  "answered_ids d = List.map_filter (\<lambda>x. case x of Response _ i \<Rightarrow> Some i | _ \<Rightarrow> None) (sent d)"

definition request_id :: "string + 'a qmp_request \<Rightarrow> 'a option" where
  "request_id p = (case p of Inl _ \<Rightarrow> None | Inr r \<Rightarrow> if req_is_dict r then req_id r else None)"

text \<open>
  What the handlers run by \<open>qmp_dispatch\<close> keep: they leave the current monitor and the answers of
  its session alone (events and text may reach it), and each gives an answer.
\<close>

definition leaves_answers :: "('a, 'w) dispatcher \<Rightarrow> nat \<Rightarrow> bool" where
  "leaves_answers dispatch m \<longleftrightarrow> (\<forall>l r s s' a. dispatch l r s = (s', a) \<longrightarrow> m < length (mons s) \<longrightarrow> cur_mon s = Some m \<longrightarrow>
     cur_mon s' = Some m \<and> m < length (mons s') \<and> answered_ids (session_of m s') = answered_ids (session_of m s) \<and> a \<noteq> None)"

lemma answered_ids_send:
  "answered_ids (send (Response a i) d) = answered_ids d @ [i]"
  by (simp add: answered_ids_def map_filter_def)

lemma handle_answers:
  assumes "leaves_answers dispatch m" and "m < length (mons s)" and "cur_mon s = Some m"
  shows "let s' = handle_qmp_command dispatch p s in cur_mon s' = Some m \<and> m < length (mons s') \<and>
    answered_ids (session_of m s') = answered_ids (session_of m s) @ [request_id p]"
proof (cases p)
  case (Inl e)
  with assms show ?thesis by (simp add: handle_qmp_command_def request_id_def answered_ids_send)
next
  case (Inr r)
  obtain s' a where d: "dispatch (qmp_cmds (session_of m s)) (r\<lparr>req_id := None\<rparr>) s = (s', a)" by fastforce
  then have k: "cur_mon s' = Some m" "m < length (mons s')" "answered_ids (session_of m s') = answered_ids (session_of m s)"
      "a \<noteq> None"
    using assms unfolding leaves_answers_def by metis+
  moreover have "a \<noteq> None \<Longrightarrow> improve_error (qmp_cmds (session_of m s')) a \<noteq> None"
    by (simp add: improve_error_def split: option.split qmp_answer.split)
  ultimately obtain x where "improve_error (qmp_cmds (session_of m s')) a = Some x" by blast
  with k d assms(3) Inr show ?thesis
    by (simp add: handle_qmp_command_def request_id_def answered_ids_send)
qed

text \<open>C34: Every request that a block of bytes completes is answered on the session it came from, exactly
  once, in order and with its own id (without id when it does not parse), in every mode, and the
  current monitor is afterwards the one it was.\<close>

theorem answers_in_order:
  assumes "leaves_answers dispatch m" and "m < length (mons s)"
  shows "answered_ids (session_of m (monitor_qmp_read dispatch m msgs s)) =
      answered_ids (session_of m s) @ map request_id msgs \<and>
    cur_mon (monitor_qmp_read dispatch m msgs s) = cur_mon s"
proof -
  have "m < length (mons t) \<Longrightarrow> cur_mon t = Some m \<Longrightarrow>
      answered_ids (session_of m (foldl (\<lambda>s p. handle_qmp_command dispatch p s) t msgs)) =
      answered_ids (session_of m t) @ map request_id msgs" for t
  proof (induction msgs arbitrary: t)
    case (Cons p msgs)
    with handle_answers [OF assms(1) Cons.prems, of p] show ?case by (simp add: Let_def)
  qed simp
  from this [of "s\<lparr>cur_mon := Some m\<rparr>"] assms(2) show ?thesis by (simp add: monitor_qmp_read_def)
qed

lemma demo_leaves_answers: "leaves_answers (demo_dispatch cmds) m"
  by (auto simp: leaves_answers_def demo_dispatch_def qmp_qmp_capabilities_def answered_ids_def Let_def
      split: option.splits if_splits prod.splits)

theorem answers_in_order_witness:
  "answered_ids (session_of 0 (monitor_qmp_read (demo_dispatch demo_commands) 0
      [demo_request ''1'' ''qmp_capabilities'', Inl ''JSON parse error'', demo_request ''2'' ''query-status'']
      (monitor_qmp_event 0 Chr_opened demo_monitors))) = [Some ''1'', None, Some ''2'']"
proof -
  have "answered_ids (session_of 0 (monitor_qmp_event 0 Chr_opened demo_monitors)) = []"
    by (simp add: demo_monitors_def monitor_init_def monitor_qmp_event_def monitor_read_command_def monitor_data_init_def
        answered_ids_def map_filter_def upd_session_def send_def)
  then show ?thesis
    using answers_in_order [OF demo_leaves_answers, of 0 "monitor_qmp_event 0 Chr_opened demo_monitors" demo_commands
        "[demo_request ''1'' ''qmp_capabilities'', Inl ''JSON parse error'', demo_request ''2'' ''query-status'']"]
    by (simp add: request_id_def demo_request_def demo_monitors_def monitor_init_def monitor_qmp_event_def)
qed

section \<open>When a human monitor reads\<close>

lemma suspend_resume_simps [simp]:
  assumes "m < length (mons s)" "has_readline (session_of m s)"
  shows "suspend_cnt (session_of m (fst (monitor_suspend m s))) = suspend_cnt (session_of m s) + 1"
    "suspend_cnt (session_of m (monitor_resume m s)) = suspend_cnt (session_of m s) - 1"
    "has_readline (session_of m (fst (monitor_suspend m s)))"
    "has_readline (session_of m (monitor_resume m s))"
    "reset_seen (session_of m (fst (monitor_suspend m s))) = reset_seen (session_of m s)"
    "reset_seen (session_of m (monitor_resume m s)) = reset_seen (session_of m s)"
    "sess_mux_out (session_of m (fst (monitor_suspend m s))) = sess_mux_out (session_of m s)"
    "sess_mux_out (session_of m (monitor_resume m s)) = sess_mux_out (session_of m s)"
  using assms by (simp_all add: monitor_suspend_def monitor_resume_def Let_def)

lemma suspend_resume_length [simp]:
  "length (mons (fst (monitor_suspend m s))) = length (mons s)" "length (mons (monitor_resume m s)) = length (mons s)"
  by (simp_all add: monitor_suspend_def monitor_resume_def)

text \<open>
  The life of the session of a human monitor: the multiplexer takes the focus away and gives it back
  in turn, connections come and go, lines are run by handlers that suspend the monitor \<open>k\<close> times
  for work that goes on, such work finishes, and other sessions do what they want. \<open>p\<close> counts the
  suspensions pending.
\<close>

definition suspends :: "nat \<Rightarrow> nat \<Rightarrow> ('a, 'w) monitors \<Rightarrow> ('a, 'w) monitors \<Rightarrow> bool" where
  "suspends m k s s' \<longleftrightarrow> m < length (mons s') \<and> has_readline (session_of m s') = has_readline (session_of m s) \<and>
     reset_seen (session_of m s') = reset_seen (session_of m s) \<and>
     sess_mux_out (session_of m s') = sess_mux_out (session_of m s) \<and>
     suspend_cnt (session_of m s') = suspend_cnt (session_of m s) + int k"

inductive hmp_session :: "string \<Rightarrow> ('a, 'w) hmp_runner \<Rightarrow> nat \<Rightarrow> ('a, 'w) monitors \<Rightarrow> ('a, 'w) monitors \<Rightarrow> nat \<Rightarrow> bool"
  for version hmp m s0 where
  start: "hmp_session version hmp m s0 s0 0"
| focus_lost: "hmp_session version hmp m s0 s p \<Longrightarrow> \<not> sess_mux_out (session_of m s) \<Longrightarrow>
    hmp_session version hmp m s0 (monitor_event version m Chr_mux_out s) p"
| focus_back: "hmp_session version hmp m s0 s p \<Longrightarrow> sess_mux_out (session_of m s) \<or> \<not> reset_seen (session_of m s) \<Longrightarrow>
    hmp_session version hmp m s0 (monitor_event version m Chr_mux_in s) p"
| connection: "hmp_session version hmp m s0 s p \<Longrightarrow> ev = Chr_opened \<or> ev = Chr_closed \<or> ev = Chr_break \<Longrightarrow>
    hmp_session version hmp m s0 (monitor_event version m ev s) p"
| command: "hmp_session version hmp m s0 s p \<Longrightarrow> reset_seen (session_of m s) \<Longrightarrow>
    suspends m k (fst (monitor_suspend m s)) (hmp m line (fst (monitor_suspend m s))) \<Longrightarrow>
    hmp_session version hmp m s0 (monitor_command_cb hmp m line s) (p + k)"
| finished: "hmp_session version hmp m s0 s (Suc p) \<Longrightarrow> hmp_session version hmp m s0 (monitor_resume m s) p"
| others: "hmp_session version hmp m s0 s p \<Longrightarrow> suspends m 0 s s' \<Longrightarrow> hmp_session version hmp m s0 s' p"

definition counted :: "nat \<Rightarrow> ('a, 'w) monitors \<Rightarrow> nat \<Rightarrow> bool" where
  "counted m s p \<longleftrightarrow> m < length (mons s) \<and> has_readline (session_of m s) \<and>
     suspend_cnt (session_of m s) = int p + of_bool (sess_mux_out (session_of m s)) \<and>
     (reset_seen (session_of m s) \<or> p = 0)"

lemma counted_event:
  assumes "counted m s p"
  shows "\<not> sess_mux_out (session_of m s) \<Longrightarrow> counted m (monitor_event version m Chr_mux_out s) p"
    "sess_mux_out (session_of m s) \<or> \<not> reset_seen (session_of m s) \<Longrightarrow> counted m (monitor_event version m Chr_mux_in s) p"
    "counted m (monitor_event version m Chr_opened s) p"
    "counted m (monitor_event version m Chr_closed s) p"
    "counted m (monitor_event version m Chr_break s) p"
  using assms by (auto simp: counted_def monitor_event_def Let_def upd_upd_session)

lemma counted_command:
  assumes "counted m s p" and "reset_seen (session_of m s)"
    and "suspends m k (fst (monitor_suspend m s)) (hmp m line (fst (monitor_suspend m s)))"
  shows "counted m (monitor_command_cb hmp m line s) (p + k)"
proof -
  let ?t = "hmp m line (fst (monitor_suspend m s))"
  have "m < length (mons ?t)" "has_readline (session_of m ?t)" using assms by (simp_all add: counted_def suspends_def)
  then show ?thesis using assms by (simp add: monitor_command_cb_def counted_def suspends_def)
qed

text \<open>C35: Through its whole life, a human monitor with a line editor reads its input exactly when no command
  it started is still running and the multiplexer has not given the terminal to somebody else.\<close>

theorem monitor_reads_when_idle:
  assumes "hmp_session version hmp m s0 s p"
    and "m < length (mons s0)" and "session_of m s0 = monitor_data_init\<lparr>has_readline := True\<rparr>"
  shows "monitor_can_read (session_of m s) \<longleftrightarrow> p = 0 \<and> \<not> sess_mux_out (session_of m s)"
proof -
  have "counted m s p"
    using assms(1)
  proof induction
    case start
    with assms(2,3) show ?case by (simp add: counted_def monitor_data_init_def)
  next
    case (finished s p)
    then show ?case by (auto simp: counted_def)
  next
    case (others s p s')
    then show ?case by (auto simp: counted_def suspends_def)
  qed (auto intro: counted_event counted_command)
  then show ?thesis by (auto simp: counted_def monitor_can_read_def)
qed

definition demo_human :: "(string, nat) monitors" where
  "demo_human = monitor_init False True \<lparr>mons = [], cur_mon = None, refcount = 0, err_out = [], world = 0\<rparr>"

theorem monitor_reads_when_idle_witness:
  "\<not> monitor_can_read (session_of 0 (monitor_event ''2.9.1'' 0 Chr_mux_out (monitor_event ''2.9.1'' 0 Chr_opened demo_human)))"
proof -
  let ?s = "monitor_event ''2.9.1'' 0 Chr_opened demo_human"
  have init: "session_of 0 demo_human = monitor_data_init\<lparr>has_readline := True\<rparr>" "0 < length (mons demo_human)"
    by (simp_all add: demo_human_def monitor_init_def monitor_read_command_def monitor_data_init_def)
  have s: "\<not> sess_mux_out (session_of 0 ?s)"
    using init by (simp add: monitor_event_def Let_def monitor_data_init_def)
  have m: "sess_mux_out (session_of 0 (monitor_event ''2.9.1'' 0 Chr_mux_out ?s))"
    using init by (simp add: monitor_event_def Let_def upd_upd_session)
  have "hmp_session ''2.9.1'' (\<lambda>_ _ s. s) 0 demo_human ?s 0"
    by (rule hmp_session.connection [OF hmp_session.start]) simp
  from monitor_reads_when_idle [OF hmp_session.focus_lost [OF this s] init(2,1)] m show ?thesis by simp
qed

section \<open>Human commands over QMP\<close>

lemma puts_without_flush:
  "skip_flush out \<Longrightarrow> monitor_puts chr t out = out\<lparr>outbuf := outbuf out @ crlf t\<rparr>"
proof (induction t arbitrary: out)
  case (Cons c t)
  then show ?case by (simp add: monitor_flush_locked_def put_out_def crlf_def)
qed (simp add: crlf_def)

lemma buffered_output_texts: "buffered_output chr d = concat (map (\<lambda>x. crlf (message_text x)) (sent d))"
proof -
  have "skip_flush out \<Longrightarrow> outbuf (foldl (\<lambda>out x. monitor_puts chr (message_text x) out) out xs) =
      outbuf out @ concat (map (\<lambda>x. crlf (message_text x)) xs)" for out and xs :: "'a sess_message list"
    by (induction xs arbitrary: out) (simp_all add: puts_without_flush)
  then show ?thesis by (simp add: buffered_output_def)
qed

text \<open>A human command run over QMP returns exactly the text the command printed, its line ends written
  as carriage return and line feed, sends none of it to a character device, and leaves the current
  monitor and the list of monitors as they were, but for what the command did to them.\<close>

theorem human_command_output:
  "let n = length (mons s); t = hmp n line (s\<lparr>mons := mons s @ [monitor_data_init], cur_mon := Some n\<rparr>)
   in qmp_human_monitor_command chr hmp cpus line None s =
     (t\<lparr>mons := take n (mons t), cur_mon := cur_mon s\<rparr>,
      Some (concat (map (\<lambda>x. crlf (message_text x)) (sent (session_of n t)))))"
  by (simp add: qmp_human_monitor_command_def Let_def buffered_output_texts)

text \<open>The 64-bit CPU index is cut to an \<open>int\<close>: index 4294967296 selects CPU 0.\<close>

lemma cpu_index_truncated:
  "qmp_human_monitor_command chr hmp cpus line (Some (2 ^ 32)) s = qmp_human_monitor_command chr hmp cpus line (Some 0) s"
  by (simp add: qmp_human_monitor_command_def low_int_def)

lemma unknown_cpu_restores:
  assumes "low_int i < 0 \<or> nat (low_int i) \<notin> set cpus"
  shows "qmp_human_monitor_command chr hmp cpus line (Some i) s = (s, None)"
  using assms by (auto simp: qmp_human_monitor_command_def monitor_set_cpu_def Let_def)

end
