(* ===== verification/Mon_Memory.thy ===== *)
theory Mon_Memory
  imports C_Lib
begin

text \<open>
  Looking at memory and ports from the human monitor (\<open>monitor.c\<close>): \<open>x\<close> and \<open>xp\<close> (\<open>memory_dump\<close>),
  \<open>print\<close>, \<open>sum\<close>, \<open>i\<close> and \<open>o\<close>, as the text they print. Physical memory is a function of the
  address, virtual memory may refuse; a target with 64-bit addresses is assumed.
\<close>

section \<open>Numbers in text\<close>

definition digit_char :: "nat \<Rightarrow> char" where
  "digit_char d = (''0123456789abcdef'' ! d)"

fun show_base :: "nat \<Rightarrow> nat \<Rightarrow> string" where
  "show_base b n = (if n < b \<or> b < 2 then [digit_char n] else show_base b (n div b) @ [digit_char (n mod b)])"

declare show_base.simps [simp del]

definition pad :: "char \<Rightarrow> nat \<Rightarrow> string \<Rightarrow> string" where
  "pad c w s = replicate (w - length s) c @ s"

definition show_dec :: "int \<Rightarrow> string" where
  "show_dec i = (if i < 0 then CHR ''-'' # show_base 10 (nat (- i)) else show_base 10 (nat i))"

text \<open>\<open>%#o\<close>: an octal number starts with 0.\<close>

definition show_octal :: "nat \<Rightarrow> string" where
  "show_octal n = (if n = 0 then ''0'' else CHR ''0'' # show_base 8 n)"

text \<open>\<open>%#x\<close>: nothing in front of 0.\<close>

definition show_hex :: "nat \<Rightarrow> string" where
  "show_hex n = (if n = 0 then ''0'' else ''0x'' @ show_base 16 n)"

definition hex16 :: "u64 \<Rightarrow> string" where
  "hex16 a = pad CHR ''0'' 16 (show_base 16 (unat a))"

section \<open>Values\<close>

text \<open>\<open>c\<close> is an \<open>int\<close>; \<open>%02x\<close> prints it as an unsigned one.\<close>

definition monitor_printc :: "int \<Rightarrow> string" where
  "monitor_printc c =
     CHR 0x27 #
     (if c = 39 then [CHR 0x5C, CHR 0x27]
      else if c = 92 then [CHR 0x5C, CHR 0x5C]
      else if c = 10 then CHR 0x5C # ''n''
      else if c = 13 then CHR 0x5C # ''r''
      else if 32 \<le> c \<and> c \<le> 126 then [char_of (nat c)]
      else CHR 0x5C # ''x'' @ pad CHR ''0'' 2 (show_base 16 (nat (c mod 2 ^ 32)))) @ [CHR 0x27]"

definition signed_64 :: "nat \<Rightarrow> int" where
  "signed_64 v = sint (of_nat v :: u64)"

definition dump_value :: "char \<Rightarrow> nat \<Rightarrow> nat \<Rightarrow> string" where
  "dump_value format max_digits v =
     (if format = CHR ''o'' then pad CHR '' '' max_digits (show_octal v)
      else if format = CHR ''x'' then ''0x'' @ pad CHR ''0'' max_digits (show_base 16 v)
      else if format = CHR ''u'' then pad CHR '' '' max_digits (show_base 10 v)
      else if format = CHR ''d'' then pad CHR '' '' max_digits (show_dec (signed_64 v))
      else if format = CHR ''c'' then monitor_printc (int v)
      else [])"

definition do_print :: "char \<Rightarrow> u64 \<Rightarrow> string" where
  "do_print format val =
     (if format = CHR ''o'' then show_octal (unat val)
      else if format = CHR ''x'' then show_hex (unat val)
      else if format = CHR ''u'' then show_base 10 (unat val)
      else if format = CHR ''c'' then monitor_printc (sint (ucast val :: 32 word))
      else show_dec (sint val)) @ [CHR 0x0A]"

section \<open>Dumping memory\<close>

definition le_value :: "u8 list \<Rightarrow> nat" where
  "le_value bs = foldr (\<lambda>b n. unat b + 256 * n) bs 0"

definition max_digits :: "char \<Rightarrow> nat \<Rightarrow> nat" where
  "max_digits format wsize =
     (if format = CHR ''o'' then (wsize * 8 + 2) div 3
      else if format = CHR ''u'' \<or> format = CHR ''d'' then (wsize * 8 * 10 + 32) div 33
      else if format = CHR ''c'' then 0
      else wsize * 8 div 4)"

text \<open>The words of the \<open>l\<close> bytes of a line; a line holds whole words. Other word sizes read bytes.\<close>

definition word_size :: "nat \<Rightarrow> nat" where
  "word_size wsize = (if wsize = 2 \<or> wsize = 4 \<or> wsize = 8 then wsize else 1)"

definition line_words :: "nat \<Rightarrow> u8 list \<Rightarrow> nat list" where
  "line_words wsize buf = map (\<lambda>k. le_value (take (word_size wsize) (drop (k * wsize) buf))) [0 ..< length buf div wsize]"

definition dump_line :: "char \<Rightarrow> nat \<Rightarrow> nat \<Rightarrow> u64 \<Rightarrow> u8 list \<Rightarrow> string" where
  "dump_line format wsize digits addr buf =
     hex16 addr @ '':'' @ concat (map (\<lambda>v. '' '' @ dump_value format digits v) (line_words wsize buf)) @ [CHR 0x0A]"

text \<open>\<open>read addr l\<close> gives \<open>l\<close> bytes, or \<open>None\<close> when the memory cannot be accessed.\<close>

function dump_lines :: "(u64 \<Rightarrow> nat \<Rightarrow> u8 list option) \<Rightarrow> char \<Rightarrow> nat \<Rightarrow> nat \<Rightarrow> nat \<Rightarrow> u64 \<Rightarrow> nat \<Rightarrow> string" where
  "dump_lines rd format wsize line_size digits addr len =
     (if len = 0 \<or> line_size = 0 then []
      else let l = min len line_size
           in case rd addr l of
                None \<Rightarrow> hex16 addr @ '':'' @ '' Cannot access memory'' @ [CHR 0x0A]
              | Some buf \<Rightarrow>
                  dump_line format wsize digits addr buf @
                  dump_lines rd format wsize line_size digits (addr + of_nat l) (len - l))"
  by pat_completeness auto
termination
  by (relation "measure (\<lambda>(rd, f, w, n, d, a, len). len)") auto

declare dump_lines.simps [simp del]

text \<open>
  What the monitor knows of the current CPU: whether long mode is active and the \<open>L\<close> and \<open>B\<close> bits
  of the code segment; they choose the mode of the disassembler.
\<close>

record cpu_mode =
  efer_lma :: bool
  cs_long :: bool
  cs_big :: bool

definition disas_flags :: "nat \<Rightarrow> cpu_mode \<Rightarrow> nat" where
  "disas_flags wsize env =
     (if wsize = 2 then 1 else if wsize = 4 then 0
      else if efer_lma env \<and> cs_long env then 2 else if \<not> cs_big env then 1 else 0)"

datatype dump = No_cpu | Disassemble u64 int nat | Dumped string

text \<open>The number of bytes is computed as an \<open>int\<close> and wraps.\<close>

definition dump_length :: "int \<Rightarrow> int \<Rightarrow> nat" where
  "dump_length wsize count = nat (sint (word_of_int (wsize * count) :: 32 word))"

definition memory_dump ::
  "cpu_mode option \<Rightarrow> (u64 \<Rightarrow> u8) \<Rightarrow> (u64 \<Rightarrow> nat \<Rightarrow> u8 list option) \<Rightarrow> int \<Rightarrow> char \<Rightarrow> nat \<Rightarrow> u64 \<Rightarrow> bool \<Rightarrow> dump"
where
  "memory_dump cs phys virt count format wsize addr is_physical =
     (if cs = None \<and> (format = CHR ''i'' \<or> \<not> is_physical) then No_cpu
      else if format = CHR ''i'' then Disassemble addr count (disas_flags wsize (the cs))
      else Dumped (dump_lines
             (if is_physical then \<lambda>a l. Some (map (\<lambda>i. phys (a + of_nat i)) [0 ..< l]) else virt)
             format (if format = CHR ''c'' then 1 else wsize) (if wsize = 1 then 8 else 16)
             (max_digits format wsize) addr (dump_length (int wsize) count)))"

definition hmp_memory_dump where
  "hmp_memory_dump cs phys virt count format wsize addr = memory_dump cs phys virt count format wsize addr False"

definition hmp_physical_memory_dump where
  "hmp_physical_memory_dump cs phys virt count format wsize addr = memory_dump cs phys virt count format wsize addr True"

section \<open>Checksums\<close>

text \<open>\<open>sum\<close> of a \<open>uint16_t\<close>, rotated right and added to; addresses are cut to 32 bits.\<close>

definition bsd_step :: "16 word \<Rightarrow> u8 \<Rightarrow> 16 word" where
  "bsd_step acc val = or (drop_bit 1 acc) (push_bit 15 acc) + ucast val"

lemma unat_succ: "a < b \<Longrightarrow> unat (a + 1) = Suc (unat a)" for a b :: "'a :: len word"
proof -
  assume "a < b"
  then have "a \<noteq> - 1" using word_order.extremum_strict by blast
  then have "1 + a \<noteq> 0" by (metis add.commute eq_neg_iff_add_eq_0)
  then show ?thesis using unatSuc [of a] by (simp add: add.commute)
qed

function bsd_loop :: "(u32 \<Rightarrow> u8) \<Rightarrow> u32 \<Rightarrow> u32 \<Rightarrow> 16 word \<Rightarrow> 16 word" where
  "bsd_loop mem addr stop acc =
     (if addr < stop then bsd_loop mem (addr + 1) stop (bsd_step acc (mem addr)) else acc)"
  by pat_completeness auto
termination
proof (relation "measure (\<lambda>(mem, addr, stop, acc). unat stop - unat addr)")
  fix mem :: "u32 \<Rightarrow> u8" and addr stop :: u32 and acc
  assume "addr < stop"
  then show "((mem, addr + 1, stop, bsd_step acc (mem addr)), mem, addr, stop, acc)
      \<in> measure (\<lambda>(mem, addr, stop, acc). unat stop - unat addr)"
    by (simp add: word_less_nat_alt unat_succ)
qed simp

declare bsd_loop.simps [simp del]

definition hmp_sum :: "(u64 \<Rightarrow> u8) \<Rightarrow> u64 \<Rightarrow> u64 \<Rightarrow> string" where
  "hmp_sum mem start len =
     (let start = ucast start :: u32; len = ucast len :: u32
      in pad CHR ''0'' 5 (show_base 10 (unat (bsd_loop (\<lambda>a. mem (ucast a)) start (start + len) 0))) @ [CHR 0x0A])"

section \<open>Ports\<close>

datatype port_call = Outb u32 u32 | Outw u32 u32 | Outl u32 u32

text \<open>
  \<open>inp\<close> reads a port at a width, \<open>ports\<close> is \<open>IOPORTS_MASK\<close>; the writes done before are the first
  component.
\<close>

definition hmp_ioport_read ::
  "u32 \<Rightarrow> (u32 \<Rightarrow> nat \<Rightarrow> u32) \<Rightarrow> nat \<Rightarrow> u32 \<Rightarrow> u32 option \<Rightarrow> port_call list \<times> string"
where
  "hmp_ioport_read ports inp sz addr index =
     (let (calls, addr) = (case index of None \<Rightarrow> ([], addr)
            | Some i \<Rightarrow> ([Outb (and addr ports) (and i 0xFF)], addr + 1));
          addr = and addr 0xFFFF;
          w = (if sz = 2 \<or> sz = 4 then sz else 1);
          suffix = (if sz = 2 then CHR ''w'' else if sz = 4 then CHR ''l'' else CHR ''b'');
          val = show_hex (unat (inp addr w))
      in (calls, ''port'' @ [suffix] @ ''[0x'' @ pad CHR ''0'' 4 (show_base 16 (unat addr)) @ ''] = '' @
            (if inp addr w = 0 then pad CHR ''0'' (sz * 2) val
             else ''0x'' @ pad CHR ''0'' (sz * 2 - 2) (drop 2 val)) @ [CHR 0x0A]))"

definition hmp_ioport_write :: "u32 \<Rightarrow> nat \<Rightarrow> u32 \<Rightarrow> u32 \<Rightarrow> port_call" where
  "hmp_ioport_write ports sz addr val =
     (let addr = and addr ports
      in if sz = 2 then Outw addr val else if sz = 4 then Outl addr val else Outb addr val)"

end
