(* ===== verification/Mon_Memory_Props.thy ===== *)
theory Mon_Memory_Props
  imports Mon_Memory
begin

text \<open>The text of a memory dump read back is the memory, and what \<open>sum\<close> adds up.\<close>

section \<open>Reading numbers back\<close>

lemma below_16:
  "(d :: nat) < 16 \<Longrightarrow> d = 0 \<or> d = 1 \<or> d = 2 \<or> d = 3 \<or> d = 4 \<or> d = 5 \<or> d = 6 \<or> d = 7 \<or> d = 8 \<or> d = 9 \<or> d = 10 \<or>
     d = 11 \<or> d = 12 \<or> d = 13 \<or> d = 14 \<or> d = 15"
  by presburger

lemma digit_char_val: "d < b \<Longrightarrow> b \<le> 16 \<Longrightarrow> digit_val b (digit_char d) = Some d"
proof -
  assume a: "d < b" "b \<le> 16"
  then have "d < 16" by simp
  note below_16 [OF this]
  with a(1) show ?thesis by (elim disjE) (simp_all add: digit_val_def digit_char_def)
qed

lemma digit_char_graph: "d < 16 \<Longrightarrow> digit_char d \<noteq> CHR '' ''"
proof -
  assume "d < 16"
  note below_16 [OF this]
  then show ?thesis by (elim disjE) (simp_all add: digit_char_def)
qed

lemma show_base_graph: "2 \<le> b \<Longrightarrow> b \<le> 16 \<Longrightarrow> CHR '' '' \<notin> set (show_base b n)"
proof (induction b n rule: show_base.induct)
  case (1 b n)
  have "n mod b < 16" "n < b \<Longrightarrow> n < 16" using 1(2,3) mod_less_divisor [of b n] by linarith+
  with 1 show ?case
    using digit_char_graph [of n] digit_char_graph [of "n mod b"] by (subst show_base.simps) auto
qed

lemma pad_graph: "c \<noteq> x \<Longrightarrow> x \<notin> set s \<Longrightarrow> x \<notin> set (pad c w s)"
  by (auto simp: pad_def)

lemma read_digits_show_base:
  "2 \<le> b \<Longrightarrow> b \<le> 16 \<Longrightarrow>
     read_digits b acc (show_base b n @ rest) = read_digits b (acc * b ^ length (show_base b n) + n) rest"
proof (induction b n arbitrary: rest rule: show_base.induct)
  case (1 b n)
  show ?case
  proof (cases "n < b")
    case True
    with 1 show ?thesis by (subst (1 2) show_base.simps) (simp add: digit_char_val)
  next
    case False
    have m: "n mod b < b" using 1(2) by simp
    have "read_digits b acc (show_base b n @ rest) = read_digits b acc (show_base b (n div b) @ digit_char (n mod b) # rest)"
      using False 1(2) by (subst show_base.simps) simp
    also have "\<dots> = read_digits b (acc * b ^ length (show_base b (n div b)) + n div b) (digit_char (n mod b) # rest)"
      using 1 False by simp
    also have "\<dots> = read_digits b ((acc * b ^ length (show_base b (n div b)) + n div b) * b + n mod b) rest"
      using digit_char_val [OF m 1(3)] by simp
    also have "(acc * b ^ length (show_base b (n div b)) + n div b) * b + n mod b = acc * b ^ length (show_base b n) + n"
      using False 1(2) by (subst (2) show_base.simps) (simp add: algebra_simps)
    finally show ?thesis .
  qed
qed

lemma read_digits_zeros: "read_digits 16 0 (replicate k CHR ''0'' @ s) = read_digits 16 0 s"
  by (induction k) (simp_all add: digit_val_def)

definition ends_number :: "string \<Rightarrow> bool" where
  "ends_number s = (case s of [] \<Rightarrow> True | c # _ \<Rightarrow> digit_val 16 c = None)"

lemma read_digits_stop: "ends_number s \<Longrightarrow> read_digits 16 n s = n"
  by (cases s) (auto simp: ends_number_def)

lemma read_padded: "ends_number rest \<Longrightarrow> read_digits 16 0 (pad CHR ''0'' w (show_base 16 v) @ rest) = v"
  by (simp add: pad_def read_digits_zeros read_digits_show_base read_digits_stop)

section \<open>Reading a dump back\<close>

text \<open>The numbers of a dump in format \<open>x\<close>: one behind each blank.\<close>

fun read_dump :: "string \<Rightarrow> nat list" where
  "read_dump [] = []"
| "read_dump (c # s) = (if c = CHR '' '' then read_digits 16 0 (drop 2 s) # read_dump s else read_dump s)"

lemma read_dump_skip: "CHR '' '' \<notin> set a \<Longrightarrow> read_dump (a @ s) = read_dump s"
  by (induction a) auto

lemma read_dump_number:
  assumes "ends_number rest"
  shows "read_dump ('' '' @ dump_value CHR ''x'' w v @ rest) = v # read_dump rest"
proof -
  have "CHR '' '' \<notin> set (dump_value CHR ''x'' w v)"
    by (auto simp: dump_value_def pad_def show_base_graph)
  from read_dump_skip [OF this, of rest] show ?thesis
    using assms by (simp add: dump_value_def read_padded)
qed

lemma read_dump_numbers:
  "read_dump (concat (map (\<lambda>v. CHR '' '' # dump_value CHR ''x'' w v) vs) @ CHR 0x0A # rest) = vs @ read_dump rest"
proof (induction vs)
  case (Cons v vs)
  have "ends_number (concat (map (\<lambda>v. CHR '' '' # dump_value CHR ''x'' w v) vs) @ CHR 0x0A # rest)"
    by (cases vs) (simp_all add: ends_number_def digit_val_def)
  from read_dump_number [OF this] Cons show ?case by simp
qed simp

lemma read_dump_line: "read_dump (dump_line CHR ''x'' wsize d addr buf @ rest) = line_words wsize buf @ read_dump rest"
proof -
  have "CHR '' '' \<notin> set (hex16 addr @ '':'')" by (auto simp: hex16_def pad_def show_base_graph)
  from read_dump_skip [OF this] show ?thesis by (simp add: dump_line_def read_dump_numbers)
qed

text \<open>The word number \<open>k\<close> of the memory from \<open>a\<close> on, least significant byte first.\<close>

definition mem_word :: "(u64 \<Rightarrow> u8) \<Rightarrow> nat \<Rightarrow> u64 \<Rightarrow> nat \<Rightarrow> nat" where
  "mem_word mem wsize a k = le_value (map (\<lambda>i. mem (a + of_nat (k * wsize + i))) [0 ..< wsize])"

abbreviation mem_bytes :: "(u64 \<Rightarrow> u8) \<Rightarrow> u64 \<Rightarrow> nat \<Rightarrow> u8 list option" where
  "mem_bytes mem \<equiv> \<lambda>a l. Some (map (\<lambda>i. mem (a + of_nat i)) [0 ..< l])"

lemma line_words_mem:
  assumes w: "word_size wsize = wsize" and "wsize dvd l"
  shows "line_words wsize (map (\<lambda>i. mem (a + of_nat i)) [0 ..< l]) = map (mem_word mem wsize a) [0 ..< l div wsize]"
proof -
  have "0 < wsize" using w by (auto simp: word_size_def split: if_splits)
  have "take wsize (drop (k * wsize) (map (\<lambda>i. mem (a + of_nat i)) [0 ..< l])) =
      map (\<lambda>i. mem (a + of_nat (k * wsize + i))) [0 ..< wsize]" if "k < l div wsize" for k
  proof (rule nth_equalityI)
    have "(k + 1) * wsize \<le> l" using that assms(2) \<open>0 < wsize\<close>
      by (metis Suc_eq_plus1 Suc_leI dvd_div_mult_self mult_le_mono1)
    then have le: "k * wsize + wsize \<le> l" by simp
    then show "length (take wsize (drop (k * wsize) (map (\<lambda>i. mem (a + of_nat i)) [0 ..< l]))) =
        length (map (\<lambda>i. mem (a + of_nat (k * wsize + i))) [0 ..< wsize])" by simp
    fix i assume "i < length (take wsize (drop (k * wsize) (map (\<lambda>i. mem (a + of_nat i)) [0 ..< l])))"
    then show "take wsize (drop (k * wsize) (map (\<lambda>i. mem (a + of_nat i)) [0 ..< l])) ! i =
        map (\<lambda>i. mem (a + of_nat (k * wsize + i))) [0 ..< wsize] ! i" using le by simp
  qed
  then show ?thesis using w by (simp add: line_words_def mem_word_def)
qed

lemma mem_word_shift: "wsize dvd l \<Longrightarrow> mem_word mem wsize (a + of_nat l) k = mem_word mem wsize a (l div wsize + k)"
  by (auto simp: mem_word_def algebra_simps elim!: dvdE)

lemma map_upt_append: "map f [0 ..< n] @ map (\<lambda>k. f (n + k)) [0 ..< m] = map f [0 ..< n + m]"
  by (induction m) simp_all

lemma read_dump_lines:
  assumes w: "word_size wsize = wsize" and ls: "wsize dvd line_size" "0 < line_size"
  shows "wsize dvd len \<Longrightarrow> read_dump (dump_lines (mem_bytes mem) CHR ''x'' wsize line_size d a len) =
    map (mem_word mem wsize a) [0 ..< len div wsize]"
proof (induction len arbitrary: a rule: less_induct)
  case (less len)
  show ?case
  proof (cases "len = 0")
    case True
    then show ?thesis by (subst dump_lines.simps) simp
  next
    case False
    let ?l = "min len line_size"
    have l: "wsize dvd ?l" "wsize dvd len - ?l" "len - ?l < len" "0 < ?l"
      using less.prems ls False by (auto simp: min_def dvd_diff_nat)
    have "read_dump (dump_lines (mem_bytes mem) CHR ''x'' wsize line_size d a len) =
        map (mem_word mem wsize a) [0 ..< ?l div wsize] @ map (mem_word mem wsize (a + of_nat ?l)) [0 ..< (len - ?l) div wsize]"
      using False ls(2) less.IH [OF l(3,2)] line_words_mem [OF w l(1)]
      by (subst dump_lines.simps) (simp add: Let_def read_dump_line)
    also have "map (mem_word mem wsize (a + of_nat ?l)) [0 ..< (len - ?l) div wsize] =
        map (\<lambda>k. mem_word mem wsize a (?l div wsize + k)) [0 ..< (len - ?l) div wsize]"
      by (rule map_cong) (simp_all only: mem_word_shift [OF l(1)])
    also have "map (mem_word mem wsize a) [0 ..< ?l div wsize] @ \<dots> =
        map (mem_word mem wsize a) [0 ..< ?l div wsize + (len - ?l) div wsize]"
      by (rule map_upt_append)
    also have "?l div wsize + (len - ?l) div wsize = len div wsize"
      using div_plus_div_distrib_dvd_left [OF l(1), of "len - ?l"] by simp
    finally show ?thesis .
  qed
qed

text \<open>C36: The dump that \<open>xp\<close> prints in hexadecimal can be read back: for words of 1, 2, 4 or 8 bytes and a
  block of less than 2 GB, the numbers printed, line by line, are exactly the words of physical
  memory from the address on, in order, whatever the memory holds.\<close>

theorem dump_shows_memory:
  assumes "wsize = 1 \<or> wsize = 2 \<or> wsize = 4 \<or> wsize = 8" and "int wsize * int count < 2 ^ 31"
  shows "\<exists>text. hmp_physical_memory_dump cs mem virt (int count) CHR ''x'' wsize addr = Dumped text \<and>
    read_dump text = map (mem_word mem wsize addr) [0 ..< count]"
proof -
  have w: "word_size wsize = wsize" "wsize dvd (if wsize = 1 then 8 else 16)" "0 < wsize"
    using assms(1) by (auto simp: word_size_def)
  have len: "dump_length (int wsize) (int count) = wsize * count"
  proof -
    have "sint (word_of_int (int wsize * int count) :: 32 word) = int wsize * int count"
      unfolding signed_of_int using assms(2) by (simp, intro signed_take_bit_int_eq_self) (auto intro: order_trans [of _ 0])
    then show ?thesis by (simp add: dump_length_def nat_mult_distrib)
  qed
  from read_dump_lines [OF w(1,2), of "wsize * count" mem "max_digits CHR ''x'' wsize" addr] w(3)
  show ?thesis by (simp add: hmp_physical_memory_dump_def memory_dump_def len)
qed

theorem dump_shows_memory_witness:
  "\<exists>text. hmp_physical_memory_dump None (\<lambda>a. ucast a) (\<lambda>_ _. None) (int 5) CHR ''x'' 4 0xFFFFFFFFFFFFFFF8 = Dumped text \<and>
    read_dump text = map (mem_word (\<lambda>a. ucast a) 4 0xFFFFFFFFFFFFFFF8) [0 ..< 5]"
  by (rule dump_shows_memory) simp_all

section \<open>Checksums\<close>

text \<open>The checksum of a byte sequence by the algorithm of the \<open>sum\<close> command.\<close>

definition bsd_sum :: "u8 list \<Rightarrow> nat" where
  "bsd_sum bs = foldl (\<lambda>s b. ((if odd s then s div 2 + 2 ^ 15 else s div 2) + unat b) mod 2 ^ 16) 0 bs"

lemma bsd_rotate: "or (drop_bit 1 s) (push_bit 15 s) = drop_bit 1 s + push_bit 15 (of_bool (odd s))"
  for s :: "16 word"
proof -
  have p: "push_bit 15 s = push_bit 15 (of_bool (odd s))"
  proof (rule bit_word_eqI)
    fix n assume "n < LENGTH(16)"
    then have "15 \<le> n \<Longrightarrow> n - 15 = 0" by simp
    then show "bit (push_bit 15 s) n = bit (push_bit 15 (of_bool (odd s)) :: 16 word) n"
      by (cases "15 \<le> n") (simp_all add: bit_push_bit_iff bit_0)
  qed
  have "\<not> bit (drop_bit 1 s) n \<or> \<not> bit (push_bit 15 (of_bool (odd s)) :: 16 word) n" for n
    by (auto simp: bit_drop_bit_eq bit_push_bit_iff dest: bit_imp_le_length)
  then show ?thesis unfolding p by (rule disjunctive_add [symmetric])
qed

lemma bsd_step_nat:
  "unat (bsd_step s b) = ((if odd (unat s) then unat s div 2 + 2 ^ 15 else unat s div 2) + unat b) mod 2 ^ 16"
proof -
  have "unat (drop_bit 1 s) = unat s div 2" unfolding unsigned_drop_bit_eq
    using unsigned_less [of s, where 'a = nat] by (simp add: drop_bit_eq_div take_bit_nat_eq_self)
  moreover have "unat (push_bit 15 (of_bool c) :: 16 word) = (if c then 2 ^ 15 else 0)" for c by simp
  moreover have "odd s \<longleftrightarrow> odd (unat s)" by (simp add: bit_unsigned_iff flip: bit_0)
  moreover have "unat (ucast b :: 16 word) = unat b"
    using unsigned_less [of b, where 'a = nat] by (simp add: unsigned_ucast_eq take_bit_nat_eq_self)
  ultimately show ?thesis
    unfolding bsd_step_def bsd_rotate by (simp add: unat_word_ariths mod_simps del: push_bit_of_1)
qed

lemma bsd_loop_bsd:
  "start \<le> stop \<Longrightarrow> unat (bsd_loop mem start stop s) =
     foldl (\<lambda>s b. ((if odd s then s div 2 + 2 ^ 15 else s div 2) + unat b) mod 2 ^ 16) (unat s)
       (map (\<lambda>i. mem (start + of_nat i)) [0 ..< unat stop - unat start])"
proof (induction mem start stop s rule: bsd_loop.induct)
  case (1 mem addr stop acc)
  show ?case
  proof (cases "addr < stop")
    case True
    have "unat stop - unat addr = Suc (unat stop - unat (addr + 1))"
      using True by (simp add: unat_succ word_less_nat_alt Suc_diff_Suc)
    then have "[0 ..< unat stop - unat addr] = 0 # map Suc [0 ..< unat stop - unat (addr + 1)]"
      by (simp only: upt_conv_Cons [OF zero_less_Suc] map_Suc_upt)
    moreover have "addr + 1 \<le> stop" using True by (rule inc_le)
    ultimately show ?thesis
      using 1(1) True by (subst bsd_loop.simps) (simp add: bsd_step_nat comp_def add.assoc)
  next
    case False
    with 1(2) have "addr = stop" by simp
    then show ?thesis by (subst bsd_loop.simps) simp
  qed
qed

lemma wrapped_sum: "2 ^ 32 \<le> unat a + unat l \<Longrightarrow> \<not> a < a + l" for a l :: u32
  using unsigned_less [of a, where 'a = nat] unsigned_less [of l, where 'a = nat] by (simp add: word_less_nat_alt unat_word_ariths le_mod_geq)

text \<open>\<open>sum\<close> prints the BSD checksum of the bytes of the range asked for when the range lies below
  4 GB; a range that ends at or beyond 4 GB of 32-bit addresses sums nothing and prints \<open>00000\<close>.\<close>

theorem sum_is_bsd_checksum:
  "hmp_sum mem start len = pad CHR ''0'' 5 (show_base 10 (bsd_sum
     (if unat (ucast start :: u32) + unat (ucast len :: u32) < 2 ^ 32
      then map (\<lambda>i. mem (ucast (ucast start + of_nat i :: u32))) [0 ..< unat (ucast len :: u32)] else []))) @ [CHR 0x0A]"
proof -
  let ?a = "ucast start :: u32" and ?l = "ucast len :: u32"
  have "unat (bsd_loop (\<lambda>a. mem (ucast a)) ?a (?a + ?l) 0) = bsd_sum
     (if unat ?a + unat ?l < 2 ^ 32 then map (\<lambda>i. mem (ucast (?a + of_nat i))) [0 ..< unat ?l] else [])"
  proof (cases "unat ?a + unat ?l < 2 ^ 32")
    case True
    then have u: "unat (?a + ?l) = unat ?a + unat ?l" by (simp add: unat_word_ariths)
    then have "?a \<le> ?a + ?l" by (simp add: word_le_nat_alt)
    from bsd_loop_bsd [OF this] True u show ?thesis by (simp add: bsd_sum_def)
  next
    case False
    then have "\<not> ?a < ?a + ?l" by (intro wrapped_sum) simp
    with False show ?thesis by (subst bsd_loop.simps) (simp add: bsd_sum_def)
  qed
  then show ?thesis by (simp only: hmp_sum_def Let_def)
qed

text \<open>The address is cut to 32 bits: memory above 4 GB is never summed.\<close>

lemma sum_ignores_high_addresses: "hmp_sum mem (start + 2 ^ 32) len = hmp_sum mem start len"
proof -
  have "(ucast (start + 2 ^ 32) :: u32) = ucast start"
    by (simp add: word_unat_eq_iff unsigned_ucast_eq take_bit_eq_mod unat_word_ariths mod_mod_cancel)
  then show ?thesis by (simp only: hmp_sum_def)
qed

end
