(* ===== verification/Mon_Cmds.thy ===== *)
theory Mon_Cmds
  imports Mon_Memory
begin

text \<open>
  Smaller commands of the human monitor (\<open>monitor.c\<close>): tracing, logging, single stepping, the gdb
  server, mice, captures, access control lists, the NUMA overview, the SPICE migration target and the
  keys of encrypted block devices. What they call outside the file is a parameter or an entry in the
  list of calls they make; the text printed is a string.
\<close>

abbreviation line :: "string \<Rightarrow> string" where
  "line s \<equiv> s @ [CHR 0x0A]"

abbreviation quoted :: "string \<Rightarrow> string" where
  "quoted s \<equiv> CHR 0x27 # s @ [CHR 0x27]"

section \<open>Tracing\<close>

datatype mon_call =
    Trace_state string bool "int option" | Trace_file_enabled bool | Trace_flush | Trace_set_file string
  | Show_trace_status | Log_mask nat | Log_file string | Single_step bool | Gdb_start string | Watchdog string
  | Rel_x int | Rel_y int | Wheel bool bool | Input_sync | Buttons nat nat | Boot_order string

text \<open>\<open>vcpu\<close> is \<open>None\<close> without the argument.\<close>

definition hmp_trace_event :: "string \<Rightarrow> bool \<Rightarrow> int option \<Rightarrow> mon_call list \<times> string" where
  "hmp_trace_event tp_name new_state vcpu =
     (if (case vcpu of None \<Rightarrow> False | Some v \<Rightarrow> v < 0) then ([], ''argument vcpu must be positive'')
      else ([Trace_state tp_name new_state vcpu], []))"

text \<open>The text is followed by the help on \<open>trace-file\<close> for an unknown operation.\<close>

definition hmp_trace_file :: "string option \<Rightarrow> string option \<Rightarrow> string \<Rightarrow> mon_call list \<times> string" where
  "hmp_trace_file operation arg help =
     (case operation of
        None \<Rightarrow> ([Show_trace_status], [])
      | Some s \<Rightarrow>
          if s = ''on'' then ([Trace_file_enabled True], [])
          else if s = ''off'' then ([Trace_file_enabled False], [])
          else if s = ''flush'' then ([Trace_flush], [])
          else if s = ''set'' then ((case arg of None \<Rightarrow> [] | Some a \<Rightarrow> [Trace_set_file a]), [])
          else ([], line (''unexpected argument '' @ [CHR 0x22] @ s @ [CHR 0x22]) @ help))"

text \<open>\<open>states\<close> gives the events that match a pattern, or an error.\<close>

definition hmp_info_trace_events ::
  "(string \<Rightarrow> int option \<Rightarrow> string + (string \<times> bool) list) \<Rightarrow> string option \<Rightarrow> int option \<Rightarrow> string"
where
  "hmp_info_trace_events states name vcpu =
     (if (case vcpu of None \<Rightarrow> False | Some v \<Rightarrow> v < 0) then ''argument vcpu must be positive''
      else case states (case name of None \<Rightarrow> ''*'' | Some n \<Rightarrow> n) vcpu of
          Inl e \<Rightarrow> e
        | Inr evs \<Rightarrow> concat (map (\<lambda>(n, on). line (n @ '' : state '' @ (if on then ''1'' else ''0''))) evs))"

section \<open>Logging and debugging\<close>

text \<open>\<open>str_mask\<close> is \<open>qemu_str_to_log_mask\<close>, 0 for no known item.\<close>

definition hmp_log :: "(string \<Rightarrow> nat) \<Rightarrow> string \<Rightarrow> string \<Rightarrow> mon_call list \<times> string" where
  "hmp_log str_mask help items =
     (if items = ''none'' then ([Log_mask 0], [])
      else if str_mask items = 0 then ([], help)
      else ([Log_mask (str_mask items)], []))"

definition hmp_singlestep :: "string option \<Rightarrow> mon_call list \<times> string" where
  "hmp_singlestep option =
     (case option of
        None \<Rightarrow> ([Single_step True], [])
      | Some s \<Rightarrow> if s = ''on'' then ([Single_step True], [])
                 else if s = ''off'' then ([Single_step False], [])
                 else ([], line (''unexpected option '' @ s)))"

definition hmp_gdbserver :: "string \<Rightarrow> (string \<Rightarrow> int) \<Rightarrow> string option \<Rightarrow> mon_call list \<times> string" where
  "hmp_gdbserver default_port start device =
     (let device = (case device of None \<Rightarrow> ''tcp::'' @ default_port | Some d \<Rightarrow> d)
      in ([Gdb_start device],
          if start device < 0 then line (''Could not open gdbserver on device '' @ quoted device)
          else if device = ''none'' then line ''Disabled gdbserver''
          else line (''Waiting for gdb connection on device '' @ quoted device)))"

definition hmp_watchdog_action :: "(string \<Rightarrow> int) \<Rightarrow> string \<Rightarrow> mon_call list \<times> string" where
  "hmp_watchdog_action select action =
     ([Watchdog action], if select action = - 1 then line (''Unknown watchdog action '' @ quoted action) else [])"

definition hmp_boot_set :: "(string \<Rightarrow> string option) \<Rightarrow> string \<Rightarrow> mon_call list \<times> string" where
  "hmp_boot_set boot_set bootdevice =
     ([Boot_order bootdevice],
      case boot_set bootdevice of Some e \<Rightarrow> e | None \<Rightarrow> line (''boot device list now set to '' @ bootdevice))"

text \<open>The list of numbered lines: the history of the line editor.\<close>

definition hmp_info_history :: "string list option \<Rightarrow> string" where
  "hmp_info_history history =
     (case history of
        None \<Rightarrow> []
      | Some h \<Rightarrow> concat (map (\<lambda>(i, s). line (show_base 10 i @ '': '' @ quoted s)) (zip [0 ..< length h] h)))"

section \<open>Mice\<close>

text \<open>The numbers are read by \<open>strtol\<close> with base 0 (\<open>num\<close>).\<close>

definition hmp_mouse_move :: "(string \<Rightarrow> int) \<Rightarrow> string \<Rightarrow> string \<Rightarrow> string option \<Rightarrow> mon_call list" where
  "hmp_mouse_move num dx_str dy_str dz_str =
     [Rel_x (num dx_str), Rel_y (num dy_str)] @
     (case dz_str of
        None \<Rightarrow> []
      | Some z \<Rightarrow> if num z \<noteq> 0 then [Wheel (0 < num z) True, Input_sync, Wheel (0 < num z) False] else []) @
     [Input_sync]"

text \<open>The state is \<open>mouse_button_state\<close>.\<close>

definition hmp_mouse_button :: "nat \<Rightarrow> nat \<Rightarrow> nat \<times> mon_call list" where
  "hmp_mouse_button button_state mouse_button_state =
     (if mouse_button_state = button_state then (mouse_button_state, [])
      else (button_state, [Buttons mouse_button_state button_state, Input_sync]))"

section \<open>Captures\<close>

text \<open>A running capture is a number; the newest is the first.\<close>

definition hmp_info_capture :: "(nat \<Rightarrow> string) \<Rightarrow> nat list \<Rightarrow> string" where
  "hmp_info_capture info capture_head =
     concat (map (\<lambda>(i, s). ''['' @ show_base 10 i @ '']: '' @ info s) (zip [0 ..< length capture_head] capture_head))"

text \<open>The capture destroyed, if any, and the ones left.\<close>

fun hmp_stopcapture :: "int \<Rightarrow> nat list \<Rightarrow> nat option \<times> nat list" where
  "hmp_stopcapture n [] = (None, [])"
| "hmp_stopcapture n (s # ss) =
     (if n = 0 then (Some s, ss)
      else case hmp_stopcapture (n - 1) ss of (d, rest) \<Rightarrow> (d, s # rest))"

text \<open>\<open>start path freq bits nchannels\<close> fails with a value other than 0.\<close>

definition hmp_wavcapture ::
  "(string \<Rightarrow> int \<Rightarrow> int \<Rightarrow> int \<Rightarrow> int) \<Rightarrow> nat \<Rightarrow> string \<Rightarrow> int option \<Rightarrow> int option \<Rightarrow> int option \<Rightarrow> nat list
     \<Rightarrow> nat list \<times> string"
where
  "hmp_wavcapture start s path freq bits nchannels capture_head =
     (let freq = (case freq of None \<Rightarrow> 44100 | Some f \<Rightarrow> f);
          bits = (case bits of None \<Rightarrow> 16 | Some b \<Rightarrow> b);
          nchannels = (case nchannels of None \<Rightarrow> 2 | Some c \<Rightarrow> c)
      in if start path freq bits nchannels \<noteq> 0 then (capture_head, line ''Failed to add wave capture'')
         else (s # capture_head, []))"

lemma stopcapture_nth:
  "hmp_stopcapture n ss =
     (if 0 \<le> n \<and> nat n < length ss then (Some (ss ! nat n), take (nat n) ss @ drop (nat n + 1) ss) else (None, ss))"
proof (induction n ss rule: hmp_stopcapture.induct)
  case (2 n s ss)
  show ?case
  proof (cases "n = 0")
    case False
    have "nat n = Suc (nat (n - 1))" if "0 \<le> n" using that False by simp
    with 2 False show ?thesis by auto
  qed simp
qed simp

section \<open>Access control lists\<close>

record acl =
  default_deny :: bool
  acl_entries :: "(bool \<times> string) list"

definition deny_text :: "bool \<Rightarrow> string" where
  "deny_text d = (if d then ''deny'' else ''allow'')"

definition unknown_list :: "string \<Rightarrow> string" where
  "unknown_list name = line (''acl: unknown list '' @ quoted name)"

definition find_acl :: "(string \<rightharpoonup> acl) \<Rightarrow> string \<Rightarrow> acl option \<times> string" where
  "find_acl acls name = (case acls name of None \<Rightarrow> (None, unknown_list name) | Some a \<Rightarrow> (Some a, []))"

definition hmp_acl_show :: "(string \<rightharpoonup> acl) \<Rightarrow> string \<Rightarrow> string" where
  "hmp_acl_show acls aclname =
     (case find_acl acls aclname of
        (None, t) \<Rightarrow> t
      | (Some a, t) \<Rightarrow> t @ line (''policy: '' @ deny_text (default_deny a)) @
          concat (map (\<lambda>(i, (d, m)). line (show_base 10 i @ '': '' @ deny_text d @ '' '' @ m))
            (zip [1 ..< 1 + length (acl_entries a)] (acl_entries a))))"

text \<open>\<open>reset\<close>, \<open>ins\<close>, \<open>app\<close> and \<open>remove\<close> are the operations of the list library, with the position.\<close>

definition hmp_acl_reset :: "(acl \<Rightarrow> acl) \<Rightarrow> string \<Rightarrow> (string \<rightharpoonup> acl) \<Rightarrow> (string \<rightharpoonup> acl) \<times> string" where
  "hmp_acl_reset reset aclname acls =
     (case find_acl acls aclname of
        (None, t) \<Rightarrow> (acls, t)
      | (Some a, t) \<Rightarrow> (acls(aclname \<mapsto> reset a), line ''acl: removed all rules''))"

definition unknown_policy :: "string \<Rightarrow> string" where
  "unknown_policy policy =
     line (''acl: unknown policy '' @ quoted policy @ '', expected '' @ quoted ''deny'' @ '' or '' @ quoted ''allow'')"

definition hmp_acl_policy :: "string \<Rightarrow> string \<Rightarrow> (string \<rightharpoonup> acl) \<Rightarrow> (string \<rightharpoonup> acl) \<times> string" where
  "hmp_acl_policy aclname policy acls =
     (case find_acl acls aclname of
        (None, t) \<Rightarrow> (acls, t)
      | (Some a, t) \<Rightarrow>
          if policy = ''allow'' then
            (acls(aclname \<mapsto> a\<lparr>default_deny := False\<rparr>), line (''acl: policy set to '' @ quoted ''allow''))
          else if policy = ''deny'' then
            (acls(aclname \<mapsto> a\<lparr>default_deny := True\<rparr>), line (''acl: policy set to '' @ quoted ''deny''))
          else (acls, unknown_policy policy))"

definition hmp_acl_add ::
  "(acl \<Rightarrow> bool \<Rightarrow> string \<Rightarrow> int \<Rightarrow> acl \<times> int) \<Rightarrow> (acl \<Rightarrow> bool \<Rightarrow> string \<Rightarrow> acl \<times> int) \<Rightarrow> string \<Rightarrow> string \<Rightarrow> string
     \<Rightarrow> int option \<Rightarrow> (string \<rightharpoonup> acl) \<Rightarrow> (string \<rightharpoonup> acl) \<times> string"
where
  "hmp_acl_add ins app aclname match policy index acls =
     (case find_acl acls aclname of
        (None, t) \<Rightarrow> (acls, t)
      | (Some a, t) \<Rightarrow>
          if policy \<noteq> ''allow'' \<and> policy \<noteq> ''deny'' then (acls, unknown_policy policy)
          else let deny = (policy = ''deny'');
                   (a, ret) = (case index of None \<Rightarrow> app a deny match | Some i \<Rightarrow> ins a deny match i)
               in (acls(aclname \<mapsto> a),
                   if ret < 0 then line ''acl: unable to add acl entry''
                   else line (''acl: added rule at position '' @ show_dec ret)))"

definition hmp_acl_remove ::
  "(acl \<Rightarrow> string \<Rightarrow> acl \<times> int) \<Rightarrow> string \<Rightarrow> string \<Rightarrow> (string \<rightharpoonup> acl) \<Rightarrow> (string \<rightharpoonup> acl) \<times> string"
where
  "hmp_acl_remove remove aclname match acls =
     (case find_acl acls aclname of
        (None, t) \<Rightarrow> (acls, t)
      | (Some a, t) \<Rightarrow>
          (case remove a match of (a, ret) \<Rightarrow>
             (acls(aclname \<mapsto> a),
              if ret < 0 then line ''acl: no matching acl entry''
              else line (''acl: removed rule at position '' @ show_dec ret))))"

text \<open>A policy once set is the one shown; other lists are untouched, and so are all on an unknown policy.\<close>

lemma acl_policy_shown:
  assumes "acls aclname = Some a"
  shows "hmp_acl_show (fst (hmp_acl_policy aclname (deny_text d) acls)) aclname =
    hmp_acl_show (acls(aclname \<mapsto> a\<lparr>default_deny := d\<rparr>)) aclname"
    and "policy \<notin> {''allow'', ''deny''} \<Longrightarrow> fst (hmp_acl_policy aclname policy acls) = acls"
  using assms by (auto simp: hmp_acl_policy_def find_acl_def deny_text_def)

section \<open>NUMA\<close>

text \<open>CPUs with their node, memory per node in bytes.\<close>

definition hmp_info_numa :: "nat list \<Rightarrow> (nat \<times> nat) list \<Rightarrow> string" where
  "hmp_info_numa node_mem cpus =
     line (show_base 10 (length node_mem) @ '' nodes'') @
     concat (map (\<lambda>i.
       ''node '' @ show_base 10 i @ '' cpus:'' @
       line (concat (map (\<lambda>(c, n). '' '' @ show_base 10 c) (filter (\<lambda>(c, n). n = i) cpus))) @
       line (''node '' @ show_base 10 i @ '' size: '' @ show_base 10 (node_mem ! i div 2 ^ 20) @ '' MB''))
       [0 ..< length node_mem])"

section \<open>The SPICE migration target\<close>

datatype migrate_info_error = Spice_not_used | Missing_port | Undefined_error | Not_spice

text \<open>\<open>using_spice\<close>, and \<open>migrate_info hostname port tls_port subject\<close>, which fails with a value other than 0.\<close>

definition qmp_client_migrate_info ::
  "bool \<Rightarrow> (string \<Rightarrow> int \<Rightarrow> int \<Rightarrow> string option \<Rightarrow> int) \<Rightarrow> string \<Rightarrow> string \<Rightarrow> int option \<Rightarrow> int option \<Rightarrow> string option
     \<Rightarrow> migrate_info_error option"
where
  "qmp_client_migrate_info using_spice migrate_info protocol hostname port tls_port cert_subject =
     (if protocol = ''spice'' then
        if \<not> using_spice then Some Spice_not_used
        else if port = None \<and> tls_port = None then Some Missing_port
        else if migrate_info hostname (case port of None \<Rightarrow> - 1 | Some p \<Rightarrow> p)
                  (case tls_port of None \<Rightarrow> - 1 | Some p \<Rightarrow> p) cert_subject \<noteq> 0 then Some Undefined_error
        else None
      else Some Not_spice)"

section \<open>Keys of block devices\<close>

datatype key_step = Said string | Asked_password | Completed int | Command_prompt

text \<open>
  \<open>has_readline\<close>: the monitor can ask for a password; without, the callback, if any, gets
  \<open>-ENOTTY\<close>.
\<close>

definition monitor_read_bdrv_key_start :: "bool \<Rightarrow> bool \<Rightarrow> string \<Rightarrow> string \<Rightarrow> key_step list \<times> int" where
  "monitor_read_bdrv_key_start readline completion_cb name filename =
     (let said = Said (line (name @ '' ('' @ filename @ '') is encrypted.''))
      in if readline then ([said, Asked_password], 0)
         else ([said, Said (line ''terminal does not support password prompting'')] @
               (if completion_cb then [Completed (- 25)] else []), - 25))"

text \<open>A medium has a name, a file name and whether it wants a key.\<close>

definition monitor_read_block_device_key ::
  "(string \<Rightarrow> (string \<times> string \<times> bool) option option) \<Rightarrow> bool \<Rightarrow> bool \<Rightarrow> string \<Rightarrow> key_step list \<times> int"
where
  "monitor_read_block_device_key blk_by_name readline completion_cb device =
     (case blk_by_name device of
        None \<Rightarrow> ([Said (line (''Device not found '' @ device))], - 1)
      | Some None \<Rightarrow> ([Said (line (''Device '' @ quoted device @ '' has no medium''))], - 1)
      | Some (Some (name, filename, encrypted)) \<Rightarrow>
          if encrypted then monitor_read_bdrv_key_start readline completion_cb name filename
          else (if completion_cb then [Completed 0] else [], 0))"

definition bdrv_password_cb :: "(string \<Rightarrow> string option) \<Rightarrow> bool \<Rightarrow> string \<Rightarrow> key_step list" where
  "bdrv_password_cb add_key completion_cb password =
     (case add_key password of
        Some e \<Rightarrow> [Said e] @ (if completion_cb then [Completed (- 1)] else [])
      | None \<Rightarrow> if completion_cb then [Completed 0] else []) @ [Command_prompt]"

text \<open>
  A given callback is called at most once, and exactly when the key is settled: not while the
  password is still asked for, and not for a device that is not there.
\<close>

lemma key_callback_once:
  "length (filter (\<lambda>s. case s of Completed _ \<Rightarrow> True | _ \<Rightarrow> False)
     (fst (monitor_read_block_device_key blk readline True device))) =
   (case blk device of Some (Some (_, _, e)) \<Rightarrow> if e \<and> readline then 0 else 1 | _ \<Rightarrow> 0)"
  by (auto simp: monitor_read_block_device_key_def monitor_read_bdrv_key_start_def Let_def split: option.split)

end
