(* ===== verification/Qdev_Bus.thy ===== *)
theory Qdev_Bus
  imports Qdev_Find
begin

text \<open>
  Devices on their buses (\<open>hw/core/qdev.c\<close>): creating a device on a bus, moving it to another one and
  taking it off when it is unparented, with the reference counts of both. A device is freed when its
  count falls to 0; \<open>Inl\<close> names a device used after that.
\<close>

section \<open>Devices and buses\<close>

text \<open>A child entry of a bus: its index and the device.\<close>

record dev_tree =
  dev_ref :: "nat \<Rightarrow> nat"
  bus_ref :: "nat \<Rightarrow> nat"
  parent_bus :: "nat \<Rightarrow> nat option"
  children :: "nat \<Rightarrow> (nat \<times> nat) list"
  max_index :: "nat \<Rightarrow> nat"

datatype tree_error = Freed nat

type_synonym 'a tree_result = "tree_error + 'a"

definition object_ref :: "nat \<Rightarrow> dev_tree \<Rightarrow> dev_tree tree_result" where
  "object_ref d t = (if dev_ref t d = 0 then Inl (Freed d) else Inr (t\<lparr>dev_ref := (dev_ref t)(d := dev_ref t d + 1)\<rparr>))"

definition object_unref :: "nat \<Rightarrow> dev_tree \<Rightarrow> dev_tree tree_result" where
  "object_unref d t = (if dev_ref t d = 0 then Inl (Freed d) else Inr (t\<lparr>dev_ref := (dev_ref t)(d := dev_ref t d - 1)\<rparr>))"

definition ref_bus :: "nat \<Rightarrow> dev_tree \<Rightarrow> dev_tree" where
  "ref_bus b t = t\<lparr>bus_ref := (bus_ref t)(b := bus_ref t b + 1)\<rparr>"

definition unref_bus :: "nat \<Rightarrow> dev_tree \<Rightarrow> dev_tree" where
  "unref_bus b t = t\<lparr>bus_ref := (bus_ref t)(b := bus_ref t b - 1)\<rparr>"

text \<open>The first entry of the child is removed; its link property goes with it and drops no reference.\<close>

definition bus_remove_child :: "nat \<Rightarrow> nat \<Rightarrow> dev_tree \<Rightarrow> dev_tree tree_result" where
  "bus_remove_child b child t =
     (if find (\<lambda>k. snd k = child) (children t b) = None then Inr t
      else object_unref child
             (t\<lparr>children := (children t)(b :=
                  takeWhile (\<lambda>k. snd k \<noteq> child) (children t b) @ tl (dropWhile (\<lambda>k. snd k \<noteq> child) (children t b)))\<rparr>))"

definition bus_add_child :: "nat \<Rightarrow> nat \<Rightarrow> dev_tree \<Rightarrow> dev_tree tree_result" where
  "bus_add_child b child t =
     bindR (object_ref child t)
       (\<lambda>t. Inr (t\<lparr>children := (children t)(b := (max_index t b, child) # children t b),
                   max_index := (max_index t)(b := max_index t b + 1)\<rparr>))"

definition qdev_set_parent_bus :: "nat \<Rightarrow> nat \<Rightarrow> dev_tree \<Rightarrow> dev_tree tree_result" where
  "qdev_set_parent_bus dev b t =
     (let old = parent_bus t dev
      in bindR (case old of
             None \<Rightarrow> Inr t
           | Some ob \<Rightarrow>
               bindR (object_ref dev t)
                 (\<lambda>t. bindR (bus_remove_child ob dev t) (\<lambda>t. Inr (unref_bus ob t))))
         (\<lambda>t. bindR (bus_add_child b dev (ref_bus b (t\<lparr>parent_bus := (parent_bus t)(dev := Some b)\<rparr>)))
           (\<lambda>t. if old = None then Inr t else object_unref dev t)))"

text \<open>
  \<open>qdev_try_create\<close> once the class is known: the new device \<open>dev\<close> has one reference, which the bus
  takes over. \<open>sysbus\<close> is the default bus; only a \<open>SysBusDevice\<close> may go there.
\<close>

datatype create_error = Tree tree_error | Not_a_sysbus_device

definition qdev_try_create ::
  "(string \<Rightarrow> bool) \<Rightarrow> (string \<Rightarrow> bool) \<Rightarrow> nat \<Rightarrow> nat \<Rightarrow> nat option \<Rightarrow> string \<Rightarrow> dev_tree
     \<Rightarrow> create_error + dev_tree \<times> nat option"
where
  "qdev_try_create known is_sysbus_device sysbus dev b ty t =
     (if \<not> known ty then Inr (t, None)
      else if b = None \<and> \<not> is_sysbus_device ty then Inl Not_a_sysbus_device
      else case bindR (qdev_set_parent_bus dev (case b of None \<Rightarrow> sysbus | Some b \<Rightarrow> b)
                        (t\<lparr>dev_ref := (dev_ref t)(dev := 1), parent_bus := (parent_bus t)(dev := None)\<rparr>))
                      (object_unref dev) of
          Inl e \<Rightarrow> Inl (Tree e)
        | Inr t \<Rightarrow> Inr (t, Some dev))"

text \<open>\<open>None\<close> is the abort on an unknown device.\<close>

definition qdev_create where
  "qdev_create known is_sysbus_device sysbus dev b ty t =
     (case qdev_try_create known is_sysbus_device sysbus dev b ty t of
        Inl e \<Rightarrow> None | Inr (t, None) \<Rightarrow> None | Inr (t, Some d) \<Rightarrow> Some (t, d))"

text \<open>The part of \<open>device_unparent\<close> that takes the device off its bus.\<close>

definition leave_bus :: "nat \<Rightarrow> dev_tree \<Rightarrow> dev_tree tree_result" where
  "leave_bus dev t =
     (case parent_bus t dev of
        None \<Rightarrow> Inr t
      | Some b \<Rightarrow> bindR (bus_remove_child b dev t)
                   (\<lambda>t. if dev_ref t dev = 0 then Inl (Freed dev)
                        else Inr ((unref_bus b t)\<lparr>parent_bus := (parent_bus t)(dev := None)\<rparr>)))"

section \<open>The abstract tree\<close>

text \<open>
  \<open>ext\<close> counts the references held from outside. Every bus lists exactly the devices whose parent it
  is, each once and under an index of its own, and is referenced by each.
\<close>

definition tree_ok :: "(nat \<Rightarrow> nat) \<Rightarrow> (nat \<Rightarrow> nat) \<Rightarrow> dev_tree \<Rightarrow> bool" where
  "tree_ok ext ext_bus t \<longleftrightarrow>
     (\<forall>b d. d \<in> snd ` set (children t b) \<longleftrightarrow> parent_bus t d = Some b) \<and>
     (\<forall>b. distinct (map snd (children t b)) \<and> distinct (map fst (children t b)) \<and>
          (\<forall>i \<in> fst ` set (children t b). i < max_index t b) \<and>
          bus_ref t b = ext_bus b + length (children t b)) \<and>
     (\<forall>d. dev_ref t d = ext d + of_bool (parent_bus t d \<noteq> None))"

lemma filter_out: "d \<notin> snd ` set ks \<Longrightarrow> filter (\<lambda>x. snd x \<noteq> d) ks = ks"
  by (induction ks) auto

lemma snd_filter_out: "snd ` set (filter (\<lambda>x. snd x \<noteq> d) ks) = snd ` set ks - {d}"
  by (induction ks) auto

lemma remove_child_list:
  assumes "distinct (map snd ks)" and "k \<in> set ks"
  shows "takeWhile (\<lambda>x. snd x \<noteq> snd k) ks @ tl (dropWhile (\<lambda>x. snd x \<noteq> snd k) ks) = filter (\<lambda>x. snd x \<noteq> snd k) ks"
  using assms
proof (induction ks)
  case (Cons x ks)
  show ?case
  proof (cases "snd x = snd k")
    case True
    then have "filter (\<lambda>x. snd x \<noteq> snd k) ks = ks" using Cons.prems(1) by (intro filter_out) simp
    with True show ?thesis by simp
  next
    case False
    with Cons show ?thesis by auto
  qed
qed simp

lemma length_filter_out:
  "distinct (map snd ks) \<Longrightarrow> d \<in> snd ` set ks \<Longrightarrow> Suc (length (filter (\<lambda>x. snd x \<noteq> d) ks)) = length ks"
proof (induction ks)
  case (Cons x ks)
  show ?case
  proof (cases "snd x = d")
    case True
    then have "filter (\<lambda>x. snd x \<noteq> d) ks = ks" using Cons.prems(1) by (intro filter_out) simp
    with True show ?thesis by simp
  next
    case False
    with Cons show ?thesis by auto
  qed
qed simp

lemma bus_remove_child_ok:
  assumes ok: "tree_ok ext ext_bus t" and p: "parent_bus t d = Some b"
  shows "bus_remove_child b d t =
    object_unref d (t\<lparr>children := (children t)(b := filter (\<lambda>x. snd x \<noteq> d) (children t b))\<rparr>)"
proof -
  have "d \<in> snd ` set (children t b)" and dist: "distinct (map snd (children t b))" using ok p by (auto simp: tree_ok_def)
  then obtain k where k: "k \<in> set (children t b)" "d = snd k" by blast
  then have "find (\<lambda>k. snd k = d) (children t b) \<noteq> None" by (simp only: find_None_iff) blast
  then show ?thesis
    unfolding bus_remove_child_def k(2) remove_child_list [OF dist k(1)] by (rule if_not_P)
qed


lemma ok_list:
  assumes "tree_ok ext ext_bus t" and "parent_bus t d = Some b"
  shows "d \<in> snd ` set (children t b)" "distinct (map snd (children t b))" "dev_ref t d = ext d + 1"
    "Suc (length (filter (\<lambda>x. snd x \<noteq> d) (children t b))) = length (children t b)"
proof -
  show *: "d \<in> snd ` set (children t b)" "distinct (map snd (children t b))" "dev_ref t d = ext d + 1"
    using assms by (auto simp: tree_ok_def)
  show "Suc (length (filter (\<lambda>x. snd x \<noteq> d) (children t b))) = length (children t b)"
    by (rule length_filter_out [OF *(2,1)])
qed

text \<open>The tree after a device left its bus.\<close>

definition detached :: "nat \<Rightarrow> nat \<Rightarrow> dev_tree \<Rightarrow> dev_tree" where
  "detached d b t = t\<lparr>children := (children t)(b := filter (\<lambda>x. snd x \<noteq> d) (children t b)),
     dev_ref := (dev_ref t)(d := dev_ref t d - 1), bus_ref := (bus_ref t)(b := bus_ref t b - 1),
     parent_bus := (parent_bus t)(d := None)\<rparr>"

definition attached :: "nat \<Rightarrow> nat \<Rightarrow> dev_tree \<Rightarrow> dev_tree" where
  "attached d b t = t\<lparr>children := (children t)(b := (max_index t b, d) # children t b),
     max_index := (max_index t)(b := max_index t b + 1),
     dev_ref := (dev_ref t)(d := dev_ref t d + 1), bus_ref := (bus_ref t)(b := bus_ref t b + 1),
     parent_bus := (parent_bus t)(d := Some b)\<rparr>"

lemma detached_ok:
  assumes ok: "tree_ok ext ext_bus t" and p: "parent_bus t d = Some b"
  shows "tree_ok ext ext_bus (detached d b t)"
proof -
  have mem: "x \<in> snd ` set (children (detached d b t) c) \<longleftrightarrow> parent_bus (detached d b t) x = Some c" for x c
    using ok p unfolding tree_ok_def
    by (cases "c = b"; cases "x = d") (simp_all add: detached_def snd_filter_out del: set_filter)
  have lists: "distinct (map snd (children (detached d b t) c)) \<and> distinct (map fst (children (detached d b t) c)) \<and>
      (\<forall>i \<in> fst ` set (children (detached d b t) c). i < max_index (detached d b t) c)" for c
    using ok by (auto simp: tree_ok_def detached_def distinct_map_filter)
  have "bus_ref t c = ext_bus c + length (children t c)" for c using ok by (simp add: tree_ok_def)
  then have refs: "bus_ref (detached d b t) c = ext_bus c + length (children (detached d b t) c)" for c
    using ok_list(4) [OF ok p] by (auto simp: detached_def)
  have "dev_ref (detached d b t) x = ext x + of_bool (parent_bus (detached d b t) x \<noteq> None)" for x
    using ok p by (auto simp: tree_ok_def detached_def)
  with mem lists refs show ?thesis unfolding tree_ok_def by blast
qed

lemma attached_ok:
  assumes ok: "tree_ok ext ext_bus t" and p: "parent_bus t d = None"
  shows "tree_ok ext ext_bus (attached d b t)"
proof -
  have no: "(i, d) \<notin> set (children t c)" for i c
    using ok p unfolding tree_ok_def by (metis image_eqI option.distinct(1) snd_conv)
  have mem: "x \<in> snd ` set (children (attached d b t) c) \<longleftrightarrow> parent_bus (attached d b t) x = Some c" for x c
  proof (cases "x = d")
    case True
    with no show ?thesis by (auto simp: attached_def)
  next
    case False
    with ok show ?thesis by (auto simp: tree_ok_def attached_def)
  qed
  have lists: "distinct (map snd (children (attached d b t) c)) \<and> distinct (map fst (children (attached d b t) c)) \<and>
      (\<forall>i \<in> fst ` set (children (attached d b t) c). i < max_index (attached d b t) c)" for c
  proof -
    have "\<forall>i \<in> fst ` set (children t b). i < max_index t b" using ok by (simp add: tree_ok_def)
    then have "max_index t b \<notin> fst ` set (children t b)" by blast
    moreover have "d \<notin> snd ` set (children t b)" using no by auto
    ultimately show ?thesis using ok by (auto simp: tree_ok_def attached_def less_Suc_eq)
  qed
  have refs: "bus_ref (attached d b t) c = ext_bus c + length (children (attached d b t) c)" for c
    using ok by (simp add: tree_ok_def attached_def)
  have "dev_ref (attached d b t) x = ext x + of_bool (parent_bus (attached d b t) x \<noteq> None)" for x
    using ok p by (auto simp: tree_ok_def attached_def)
  with mem lists refs show ?thesis unfolding tree_ok_def by blast
qed

section \<open>Operations\<close>

lemma set_parent_bus_fresh:
  assumes "parent_bus t d = None" and "0 < dev_ref t d"
  shows "qdev_set_parent_bus d b t = Inr (attached d b t)"
  using assms
  by (simp add: qdev_set_parent_bus_def bus_add_child_def object_ref_def ref_bus_def attached_def)

lemma set_parent_bus_move:
  assumes ok: "tree_ok ext ext_bus t" and p: "parent_bus t d = Some ob"
  shows "qdev_set_parent_bus d b t = Inr (attached d b (detached d ob t))"
proof -
  let ?u = "t\<lparr>dev_ref := (dev_ref t)(d := dev_ref t d + 1)\<rparr>"
  have r: "0 < dev_ref t d" using ok_list(3) [OF ok p] by simp
  have "tree_ok (ext(d := ext d + 1)) ext_bus ?u" using ok by (auto simp: tree_ok_def)
  from bus_remove_child_ok [OF this, of d ob] p
  have rm: "bus_remove_child ob d ?u = object_unref d (?u\<lparr>children := (children t)(ob := filter (\<lambda>x. snd x \<noteq> d) (children t ob))\<rparr>)"
    by simp
  have eq: "(dev_ref t)(d := Suc (dev_ref t d - Suc 0)) = dev_ref t" using r by auto
  show ?thesis
    using p r rm
    by (simp add: qdev_set_parent_bus_def bus_add_child_def object_ref_def object_unref_def ref_bus_def unref_bus_def
        attached_def detached_def eq)
qed

lemma leave_bus_ok:
  assumes ok: "tree_ok ext ext_bus t" and p: "parent_bus t d = Some b" and "0 < ext d"
  shows "leave_bus d t = Inr (detached d b t)"
  using assms(3) ok_list(3) [OF ok p]
  by (simp add: leave_bus_def p bus_remove_child_ok [OF ok p] object_unref_def unref_bus_def detached_def)

section \<open>The bus tree is a map\<close>

text \<open>
  What the rest of the program does to a device: create it on a bus, move it, unparent it, and take
  and drop references. The caller of \<open>device_unparent\<close> holds one.
\<close>

datatype bus_op = Create nat nat | Move nat nat | Unparent nat | Hold nat | Release nat

fun tree_op :: "bus_op \<Rightarrow> dev_tree \<Rightarrow> dev_tree tree_result" where
  "tree_op (Create d b) t =
     bindR (qdev_set_parent_bus d b (t\<lparr>dev_ref := (dev_ref t)(d := 1), parent_bus := (parent_bus t)(d := None)\<rparr>))
       (object_unref d)"
| "tree_op (Move d b) t = qdev_set_parent_bus d b t"
| "tree_op (Unparent d) t = leave_bus d t"
| "tree_op (Hold d) t = object_ref d t"
| "tree_op (Release d) t = object_unref d t"

text \<open>The abstract state: which bus a device is on, and how many references the callers hold.\<close>

fun map_op :: "bus_op \<Rightarrow> (nat \<rightharpoonup> nat) \<times> (nat \<Rightarrow> nat) \<Rightarrow> (nat \<rightharpoonup> nat) \<times> (nat \<Rightarrow> nat)" where
  "map_op (Create d b) (p, ext) = (p(d \<mapsto> b), ext)"
| "map_op (Move d b) (p, ext) = (p(d \<mapsto> b), ext)"
| "map_op (Unparent d) (p, ext) = (p(d := None), ext)"
| "map_op (Hold d) (p, ext) = (p, ext(d := ext d + 1))"
| "map_op (Release d) (p, ext) = (p, ext(d := ext d - 1))"

fun allowed :: "bus_op \<Rightarrow> (nat \<rightharpoonup> nat) \<times> (nat \<Rightarrow> nat) \<Rightarrow> bool" where
  "allowed (Create d b) (p, ext) \<longleftrightarrow> p d = None \<and> ext d = 0"
| "allowed (Move d b) (p, ext) \<longleftrightarrow> p d \<noteq> None \<or> 0 < ext d"
| "allowed (Unparent d) (p, ext) \<longleftrightarrow> 0 < ext d"
| "allowed (Hold d) (p, ext) \<longleftrightarrow> p d \<noteq> None \<or> 0 < ext d"
| "allowed (Release d) (p, ext) \<longleftrightarrow> 0 < ext d"

fun all_allowed :: "bus_op list \<Rightarrow> (nat \<rightharpoonup> nat) \<times> (nat \<Rightarrow> nat) \<Rightarrow> bool" where
  "all_allowed [] a \<longleftrightarrow> True"
| "all_allowed (x # xs) a \<longleftrightarrow> allowed x a \<and> all_allowed xs (map_op x a)"

definition refines :: "(nat \<Rightarrow> nat) \<Rightarrow> dev_tree \<Rightarrow> (nat \<rightharpoonup> nat) \<times> (nat \<Rightarrow> nat) \<Rightarrow> bool" where
  "refines ext_bus t a \<longleftrightarrow> parent_bus t = fst a \<and> tree_ok (snd a) ext_bus t"

lemma parent_simps [simp]:
  "parent_bus (attached d b t) = (parent_bus t)(d \<mapsto> b)" "parent_bus (detached d b t) = (parent_bus t)(d := None)"
  by (simp_all add: attached_def detached_def)

lemma tree_op_refines:
  assumes "refines ext_bus t (p, ext)" and "allowed x (p, ext)"
  shows "\<exists>t'. tree_op x t = Inr t' \<and> refines ext_bus t' (map_op x (p, ext))"
proof -
  have p: "p = parent_bus t" and ok: "tree_ok ext ext_bus t" using assms(1) by (auto simp: refines_def)
  have refs: "dev_ref t d = ext d + of_bool (p d \<noteq> None)" for d using ok p by (simp add: tree_ok_def)
  show ?thesis
  proof (cases x)
    case (Create d b)
    then have new: "p d = None" "ext d = 0" using assms(2) by auto
    let ?u = "t\<lparr>dev_ref := (dev_ref t)(d := 1), parent_bus := (parent_bus t)(d := None)\<rparr>"
    have "(parent_bus t)(d := None) = parent_bus t" using new(1) p by auto
    then have eq: "(attached d b ?u)\<lparr>dev_ref := (dev_ref (attached d b ?u))(d := 1)\<rparr> = attached d b t"
      using refs [of d] new by (simp add: attached_def)
    have "qdev_set_parent_bus d b ?u = Inr (attached d b ?u)" by (rule set_parent_bus_fresh) simp_all
    then have "tree_op x t = Inr (attached d b t)" using Create eq by (simp add: object_unref_def attached_def)
    with attached_ok [OF ok, of d b] new p Create show ?thesis by (simp add: refines_def)
  next
    case (Move d b)
    show ?thesis
    proof (cases "p d")
      case None
      then have "0 < dev_ref t d" using assms(2) Move refs by simp
      with None Move p attached_ok [OF ok, of d b] set_parent_bus_fresh [of t d b] show ?thesis by (simp add: refines_def)
    next
      case (Some ob)
      with Move p attached_ok [OF detached_ok [OF ok, of d ob], of d b] set_parent_bus_move [OF ok, of d ob b]
      show ?thesis by (simp add: refines_def)
    qed
  next
    case (Unparent d)
    show ?thesis
    proof (cases "p d")
      case None
      then have "p(d := None) = p" by auto
      with None Unparent p ok show ?thesis by (simp add: refines_def leave_bus_def)
    next
      case (Some b)
      with Unparent p assms(2) detached_ok [OF ok, of d b] leave_bus_ok [OF ok, of d b]
      show ?thesis by (simp add: refines_def)
    qed
  next
    case (Hold d)
    then have "0 < dev_ref t d" using assms(2) refs by auto
    with Hold p ok show ?thesis by (auto simp: refines_def object_ref_def tree_ok_def)
  next
    case (Release d)
    then have "0 < dev_ref t d" "0 < ext d" using assms(2) refs by auto
    with Release p ok show ?thesis by (auto simp: refines_def object_unref_def tree_ok_def)
  qed
qed

lemma tree_ops_refine:
  "refines ext_bus t a \<Longrightarrow> all_allowed ops a \<Longrightarrow>
     \<exists>t'. foldR tree_op ops t = Inr t' \<and> refines ext_bus t' (fold map_op ops a)"
proof (induction ops arbitrary: t a)
  case (Cons x ops)
  obtain p ext where a: "a = (p, ext)" by fastforce
  with Cons.prems tree_op_refines [of ext_bus t p ext x]
  obtain t' where "tree_op x t = Inr t'" "refines ext_bus t' (map_op x a)" by auto
  with Cons.IH [of t' "map_op x a"] Cons.prems(2) show ?case by simp
qed simp

text \<open>C37: However devices are created, moved between buses, unparented and referenced (by callers that hold
  what they use), no freed device is ever touched, and the tree is at every moment the map from
  devices to buses the operations say: every bus lists exactly the devices whose parent it is, each
  once and under an index of its own, and the counts of devices and buses are the references held
  from outside and those of the tree.\<close>

theorem bus_tree_refines_map:
  assumes "refines ext_bus t a" and "all_allowed ops a"
  shows "\<exists>t'. foldR tree_op ops t = Inr t' \<and> refines ext_bus t' (fold map_op ops a)"
  using assms by (rule tree_ops_refine)

definition no_devices :: dev_tree where
  "no_devices = \<lparr>dev_ref = (\<lambda>_. 0), bus_ref = (\<lambda>_. 1), parent_bus = (\<lambda>_. None), children = (\<lambda>_. []), max_index = (\<lambda>_. 0)\<rparr>"

lemma no_devices_refines: "refines (\<lambda>_. 1) no_devices (Map.empty, \<lambda>_. 0)"
  by (simp add: refines_def tree_ok_def no_devices_def)

theorem bus_tree_refines_map_witness:
  "\<exists>t. foldR tree_op [Create 7 0, Create 8 0, Move 7 1, Hold 8, Unparent 8, Release 8] no_devices = Inr t \<and>
     refines (\<lambda>_. 1) t ([7 \<mapsto> 1], \<lambda>_. 0)"
proof -
  have "fold map_op [Create 7 0, Create 8 0, Move 7 1, Hold 8, Unparent 8, Release 8] (Map.empty, \<lambda>_. 0) = ([7 \<mapsto> 1], \<lambda>_. 0)"
    by (auto simp: fun_eq_iff)
  with bus_tree_refines_map [OF no_devices_refines, of "[Create 7 0, Create 8 0, Move 7 1, Hold 8, Unparent 8, Release 8]"]
  show ?thesis by simp
qed

section \<open>Indices\<close>

text \<open>How often a device was put on the bus.\<close>

fun plugs :: "nat \<Rightarrow> bus_op list \<Rightarrow> nat" where
  "plugs b [] = 0"
| "plugs b (x # xs) = (case x of Create _ c \<Rightarrow> of_bool (c = b) | Move _ c \<Rightarrow> of_bool (c = b) | _ \<Rightarrow> 0) + plugs b xs"

lemma object_ref_index:
  "object_ref d t = Inr t' \<Longrightarrow> max_index t' = max_index t" "object_unref d t = Inr t' \<Longrightarrow> max_index t' = max_index t"
  by (auto simp: object_ref_def object_unref_def split: if_splits)

lemma ref_bus_index [simp]: "max_index (ref_bus b t) = max_index t" "max_index (unref_bus b t) = max_index t"
  by (simp_all add: ref_bus_def unref_bus_def)

lemma remove_child_index: "bus_remove_child b d t = Inr t' \<Longrightarrow> max_index t' = max_index t"
  unfolding bus_remove_child_def by (auto split: if_splits dest: object_ref_index)

lemma add_child_index: "bus_add_child b d t = Inr t' \<Longrightarrow> max_index t' = (max_index t)(b := max_index t b + 1)"
  unfolding bus_add_child_def by (auto elim!: bindR_InrE dest: object_ref_index)

lemma set_parent_bus_index:
  "qdev_set_parent_bus d b t = Inr t' \<Longrightarrow> max_index t' = (max_index t)(b := max_index t b + 1)"
  unfolding qdev_set_parent_bus_def
  by (auto simp: Let_def elim!: bindR_InrE split: option.splits if_splits
      dest!: object_ref_index add_child_index remove_child_index)

lemma tree_op_index:
  "tree_op x t = Inr t' \<Longrightarrow> max_index t' b = max_index t b + plugs b [x]"
  by (cases x)
    (auto simp: leave_bus_def elim!: bindR_InrE split: option.splits if_splits
      dest!: object_ref_index remove_child_index set_parent_bus_index)

lemma ops_index: "foldR tree_op ops t = Inr t' \<Longrightarrow> max_index t' b = max_index t b + plugs b ops"
proof (induction ops arbitrary: t)
  case (Cons x ops)
  from Cons.prems obtain u where "tree_op x t = Inr u" "foldR tree_op ops u = Inr t'" by (auto elim: bindR_InrE)
  with Cons.IH tree_op_index [of x t u b] show ?case by simp
qed simp

text \<open>A bus that was once filled stays full: the index a device gets on its bus is never given back, and
  \<open>qbus_is_full\<close> compares the next index with the number of places. After as many devices as the
  bus has places were put on it, in any history, the monitor finds no room on it, even when all of
  them are gone.\<close>

theorem emptied_bus_stays_full:
  assumes "foldR tree_op ops no_devices = Inr t" and "0 < places" and "places \<le> plugs b ops"
  shows "qbus_is_full (Bus b name ty (max_index t b) places hotpluggable kids)"
  using ops_index [OF assms(1), of b] assms(2,3) by (simp add: qbus_is_full_def no_devices_def)

theorem emptied_bus_stays_full_witness:
  "\<exists>t. foldR tree_op [Create 7 0, Hold 7, Unparent 7, Release 7] no_devices = Inr t \<and> children t 0 = [] \<and>
     qbus_is_full (Bus 0 ''usb-bus.0'' ''usb-bus'' (max_index t 0) 1 True [])"
proof -
  obtain t where t: "foldR tree_op [Create 7 0, Hold 7, Unparent 7, Release 7] no_devices = Inr t"
      "refines (\<lambda>_. 1) t (fold map_op [Create 7 0, Hold 7, Unparent 7, Release 7] (Map.empty, \<lambda>_. 0))"
    using tree_ops_refine [OF no_devices_refines, of "[Create 7 0, Hold 7, Unparent 7, Release 7]"] by auto
  then have "parent_bus t = Map.empty" by (simp add: refines_def)
  then have "children t 0 = []" using t(2) by (auto simp: refines_def tree_ok_def)
  with emptied_bus_stays_full [OF t(1), of 1 0] t(1) show ?thesis by auto
qed

end
