(* ===== verification/Qdev_Path.thy ===== *)
theory Qdev_Path
  imports Prelude
begin

text \<open>
  Firmware paths and walks (\<open>hw/core/qdev.c\<close>): the path of a device in its buffer of 128 bytes, the
  order in which a device and the buses below it are visited, and the check and the start of an
  unplug.
\<close>

section \<open>Firmware paths\<close>

text \<open>
  A device above its bus: what the handlers above it and its bus name it (\<open>None\<close> when neither does).
  The list goes from the device to the root; the device without a bus at its end is left out.
\<close>

record fw_node =
  handler_paths :: "string option list"
  bus_path :: "(string option) option"

fun first_some :: "'a option list \<Rightarrow> 'a option" where
  "first_some [] = None"
| "first_some (x # xs) = (case x of None \<Rightarrow> first_some xs | Some _ \<Rightarrow> x)"

text \<open>The ancestors are asked in turn until one answers.\<close>

definition qdev_get_fw_dev_path_from_handler :: "fw_node \<Rightarrow> string option" where
  "qdev_get_fw_dev_path_from_handler n = first_some (handler_paths n)"

definition bus_get_fw_dev_path :: "fw_node \<Rightarrow> string option" where
  "bus_get_fw_dev_path n = (case bus_path n of None \<Rightarrow> None | Some f \<Rightarrow> f)"

definition fw_component :: "fw_node \<Rightarrow> string option" where
  "fw_component n =
     (case qdev_get_fw_dev_path_from_handler n of None \<Rightarrow> bus_get_fw_dev_path n | Some d \<Rightarrow> Some d)"

text \<open>
  \<open>snprintf(p + l, size - l, s)\<close> on the buffer \<open>p\<close>, whose first \<open>length b\<close> bytes are text: \<open>None\<close> is
  a write behind its end, for which a size below 0, turned unsigned, leaves room.
\<close>

definition snprintf_at :: "nat \<Rightarrow> string \<times> nat \<Rightarrow> string \<Rightarrow> (string \<times> nat) option" where
  "snprintf_at sz p s =
     (case p of (b, l) \<Rightarrow>
        if l < sz then Some (take l b @ take (sz - 1 - l) s, l + length s)
        else if l = sz then Some (b, l + length s)
        else None)"

fun qdev_get_fw_dev_path_helper :: "nat \<Rightarrow> fw_node list \<Rightarrow> (string \<times> nat) option" where
  "qdev_get_fw_dev_path_helper sz [] = snprintf_at sz ([], 0) ''/''"
| "qdev_get_fw_dev_path_helper sz (n # up) =
     Option.bind (qdev_get_fw_dev_path_helper sz up)
       (\<lambda>p. case fw_component n of
          None \<Rightarrow> Some p
        | Some d \<Rightarrow> Option.bind (snprintf_at sz p d) (\<lambda>p. snprintf_at sz p ''/''))"

text \<open>The terminator replaces the last character, also outside the buffer.\<close>

definition qdev_get_fw_dev_path :: "fw_node list \<Rightarrow> string option" where
  "qdev_get_fw_dev_path dev =
     Option.bind (qdev_get_fw_dev_path_helper 128 dev)
       (\<lambda>(b, l). if l - 1 < 128 then Some (take (l - 1) b) else None)"

text \<open>The path meant.\<close>

fun full_path :: "fw_node list \<Rightarrow> string" where
  "full_path [] = ''/''"
| "full_path (n # up) = full_path up @ (case fw_component n of None \<Rightarrow> [] | Some d \<Rightarrow> d @ ''/'')"

lemma full_path_pos: "1 \<le> length (full_path dev)"
  by (induction dev rule: full_path.induct) auto

text \<open>What the buffer holds when nothing was written behind it.\<close>

lemma snprintf_prefix:
  assumes "0 < sz"
  shows "snprintf_at sz (take (sz - 1) t, length t) s =
    (if length t \<le> sz then Some (take (sz - 1) (t @ s), length (t @ s)) else None)"
  using assms by (auto simp: snprintf_at_def min_def)

lemma helper_prefix:
  assumes "0 < sz"
  shows "qdev_get_fw_dev_path_helper sz dev =
      Some (take (sz - 1) (full_path dev), length (full_path dev)) \<or>
    qdev_get_fw_dev_path_helper sz dev = None \<and> sz < length (full_path dev)"
proof (induction dev)
  case Nil
  from snprintf_prefix [OF assms, of "[]" "''/''"] show ?case by simp
next
  case (Cons n up)
  show ?case
  proof (cases "fw_component n")
    case None
    with Cons show ?thesis by auto
  next
    case (Some d)
    from Cons show ?thesis
    proof
      assume up: "qdev_get_fw_dev_path_helper sz up = Some (take (sz - 1) (full_path up), length (full_path up))"
      note w = snprintf_prefix [OF assms, of "full_path up" d] snprintf_prefix [OF assms, of "full_path up @ d" "''/''"]
      consider "length (full_path up @ d) \<le> sz" | "length (full_path up) \<le> sz" "sz < length (full_path up @ d)"
        | "sz < length (full_path up)" by linarith
      then show ?thesis
      proof cases
        case 1
        then have "length (full_path up) \<le> sz" by simp
        with 1 w Some up show ?thesis by (simp del: take_append length_append)
      next
        case 2
        then have "sz < length (full_path up @ d @ ''/'')" by simp
        with 2 w Some up show ?thesis by (simp del: take_append length_append)
      next
        case 3
        then have "\<not> length (full_path up) \<le> sz" "sz < length (full_path up @ d @ ''/'')" by simp_all
        with w(1) Some up show ?thesis by (simp del: take_append length_append)
      qed
    next
      assume "qdev_get_fw_dev_path_helper sz up = None \<and> sz < length (full_path up)"
      with Some show ?thesis by simp
    qed
  qed
qed

text \<open>C38: The firmware path of a device is the components from the root on, each behind a slash, as long as
  the whole path (with a slash at its end) has at most 128 characters; for every longer one, which a
  deep enough bus tree gives, the program writes behind the buffer on its stack: the lengths added
  up are those \<open>snprintf\<close> would have written.\<close>

theorem fw_path_or_overrun:
  "qdev_get_fw_dev_path dev = (if length (full_path dev) \<le> 128 then Some (butlast (full_path dev)) else None)"
  using helper_prefix [of 128 dev] full_path_pos [of dev]
  by (auto simp: qdev_get_fw_dev_path_def butlast_conv_take min_def)

section \<open>Walks\<close>

text \<open>
  \<open>below\<close> walks a child bus; a callback is \<open>None\<close> when the caller gives none, and gives the error and
  the new state. The walk stops at the first error of a device callback and at a negative one from
  below.
\<close>

type_synonym ('a, 's) walker = "'a \<Rightarrow> 's \<Rightarrow> int \<times> 's"

definition run_walker :: "('a, 's) walker option \<Rightarrow> ('a, 's) walker" where
  "run_walker f x s = (case f of None \<Rightarrow> (0, s) | Some g \<Rightarrow> g x s)"

fun walk_buses :: "('b, 's) walker \<Rightarrow> 'b list \<Rightarrow> 's \<Rightarrow> int \<times> 's" where
  "walk_buses below [] s = (0, s)"
| "walk_buses below (b # bs) s = (case below b s of (err, s) \<Rightarrow> if err < 0 then (err, s) else walk_buses below bs s)"

definition qdev_walk_children ::
  "('d, 's) walker option \<Rightarrow> ('d, 's) walker option \<Rightarrow> ('b, 's) walker \<Rightarrow> ('d \<Rightarrow> 'b list) \<Rightarrow> ('d, 's) walker"
where
  "qdev_walk_children pre post below child_bus dev s =
     (case run_walker pre dev s of (err, s) \<Rightarrow>
        if err \<noteq> 0 then (err, s)
        else case walk_buses below (child_bus dev) s of (err, s) \<Rightarrow>
          if err < 0 then (err, s) else run_walker post dev s)"

text \<open>Resetting visits the buses below a device first, in post order.\<close>

definition qdev_reset_all :: "('d \<Rightarrow> 's \<Rightarrow> 's) \<Rightarrow> ('b, 's) walker \<Rightarrow> ('d \<Rightarrow> 'b list) \<Rightarrow> 'd \<Rightarrow> 's \<Rightarrow> 's" where
  "qdev_reset_all reset below child_bus dev s =
     snd (qdev_walk_children None (Some (\<lambda>d s. (0, reset d s))) below child_bus dev s)"

lemma reset_all_order:
  assumes "\<And>b s. below b s = (0, f b s)"
  shows "qdev_reset_all reset below child_bus dev s = reset dev (fold f (child_bus dev) s)"
proof -
  have "walk_buses below bs s = (0, fold f bs s)" for bs
    using assms by (induction bs arbitrary: s) simp_all
  then show ?thesis by (simp add: qdev_reset_all_def qdev_walk_children_def run_walker_def)
qed

section \<open>Unplugging\<close>

record hot_device =
  on_bus :: bool
  bus_allows :: bool
  bus_handler :: "nat option"
  class_hotpluggable :: bool

text \<open>\<open>machine\<close> is \<open>None\<close> when the machine object is no machine, or its class has no callback.\<close>

definition qdev_get_hotplug_handler :: "(hot_device \<Rightarrow> nat option) option \<Rightarrow> hot_device \<Rightarrow> nat option" where
  "qdev_get_hotplug_handler machine dev =
     (if on_bus dev \<and> bus_handler dev \<noteq> None then bus_handler dev
      else case machine of None \<Rightarrow> None | Some get \<Rightarrow> get dev)"

definition device_get_hotpluggable :: "hot_device \<Rightarrow> bool" where
  "device_get_hotpluggable dev \<longleftrightarrow> class_hotpluggable dev \<and> (\<not> on_bus dev \<or> bus_allows dev)"

datatype unplug = Bus_no_hotplug | Device_no_hotplug | No_handler | Request_unplug nat | Unplug_now nat

text \<open>\<open>asks h\<close>: handler \<open>h\<close> has \<open>unplug_request\<close>; the flag is \<open>qdev_hot_removed\<close>.\<close>

definition qdev_unplug :: "(nat \<Rightarrow> bool) \<Rightarrow> (hot_device \<Rightarrow> nat option) option \<Rightarrow> hot_device \<Rightarrow> bool \<Rightarrow> bool \<times> unplug" where
  "qdev_unplug asks machine dev removed =
     (if on_bus dev \<and> \<not> bus_allows dev then (removed, Bus_no_hotplug)
      else if \<not> class_hotpluggable dev then (removed, Device_no_hotplug)
      else (True, case qdev_get_hotplug_handler machine dev of
                    None \<Rightarrow> No_handler
                  | Some h \<Rightarrow> if asks h then Request_unplug h else Unplug_now h))"

text \<open>An unplug is started exactly for the devices whose property \<open>hotpluggable\<close> is true.\<close>

lemma unplug_iff_hotpluggable:
  "snd (qdev_unplug asks machine dev removed) \<notin> {Bus_no_hotplug, Device_no_hotplug} \<longleftrightarrow> device_get_hotpluggable dev"
  by (auto simp: qdev_unplug_def device_get_hotpluggable_def split: option.splits)

definition qdev_machine_modified :: "bool \<Rightarrow> bool \<Rightarrow> bool" where
  "qdev_machine_modified hot_added hot_removed \<longleftrightarrow> hot_added \<or> hot_removed"

end
