(* ===== verification/Qdev_Gpio.thy ===== *)
theory Qdev_Gpio
  imports Prelude
begin

text \<open>
  Interrupt lines of a device (\<open>hw/core/qdev.c\<close>): named groups of inputs and outputs, connecting an
  output to an input of another device and intercepting it. A line is a number; \<open>Inl\<close> is a failed assertion or the abort on an error
  (\<open>error_abort\<close>). Properties are found by group and index (\<open>name[index]\<close>).
\<close>

section \<open>Groups\<close>

text \<open>The name \<open>NULL\<close> is a name of its own.\<close>

record gpio_list =
  gl_name :: "string option"
  gl_in :: "nat list"
  num_out :: nat

datatype gpio_prop = Child nat | Link "nat option"

type_synonym prop_name = "string \<times> nat"

record gpio_dev =
  gpios :: "gpio_list list"
  dev_props :: "prop_name \<rightharpoonup> gpio_prop"

datatype gpio_error = Assertion | Property_exists | No_such_property

definition lookup_gpio :: "string option \<Rightarrow> gpio_dev \<Rightarrow> gpio_list option" where
  "lookup_gpio name dev = find (\<lambda>g. gl_name g = name) (gpios dev)"

text \<open>A group not there is created in front.\<close>

definition qdev_get_named_gpio_list :: "string option \<Rightarrow> gpio_dev \<Rightarrow> gpio_list \<times> gpio_dev" where
  "qdev_get_named_gpio_list name dev =
     (case lookup_gpio name dev of
        Some g \<Rightarrow> (g, dev)
      | None \<Rightarrow> let g = \<lparr>gl_name = name, gl_in = [], num_out = 0\<rparr> in (g, dev\<lparr>gpios := g # gpios dev\<rparr>))"

fun update_gpio :: "string option \<Rightarrow> (gpio_list \<Rightarrow> gpio_list) \<Rightarrow> gpio_list list \<Rightarrow> gpio_list list" where
  "update_gpio name f [] = []"
| "update_gpio name f (g # gs) = (if gl_name g = name then f g # gs else g # update_gpio name f gs)"

definition name_in :: "string option \<Rightarrow> string" where
  "name_in name = (case name of None \<Rightarrow> ''unnamed-gpio-in'' | Some n \<Rightarrow> n)"

definition name_out :: "string option \<Rightarrow> string" where
  "name_out name = (case name of None \<Rightarrow> ''unnamed-gpio-out'' | Some n \<Rightarrow> n)"

definition add_prop :: "prop_name \<Rightarrow> gpio_prop \<Rightarrow> gpio_dev \<Rightarrow> gpio_error + gpio_dev" where
  "add_prop p v dev =
     (if dev_props dev p \<noteq> None then Inl Property_exists else Inr (dev\<lparr>dev_props := (dev_props dev)(p \<mapsto> v)\<rparr>))"

text \<open>\<open>irqs\<close> are the \<open>n\<close> new lines \<open>qemu_extend_irqs\<close> makes.\<close>

definition qdev_init_gpio_in_named :: "nat list \<Rightarrow> string option \<Rightarrow> gpio_dev \<Rightarrow> gpio_error + gpio_dev" where
  "qdev_init_gpio_in_named irqs name dev =
     (case qdev_get_named_gpio_list name dev of (g, dev) \<Rightarrow>
        if num_out g \<noteq> 0 \<and> name \<noteq> None then Inl Assertion
        else let dev = dev\<lparr>gpios := update_gpio name (\<lambda>g. g\<lparr>gl_in := gl_in g @ irqs\<rparr>) (gpios dev)\<rparr>
             in foldR (\<lambda>(i, irq). add_prop (name_in name, i) (Child irq))
                  (zip [length (gl_in g) ..< length (gl_in g) + length irqs] irqs) dev)"

definition qdev_init_gpio_in :: "nat list \<Rightarrow> gpio_dev \<Rightarrow> gpio_error + gpio_dev" where
  "qdev_init_gpio_in irqs dev = qdev_init_gpio_in_named irqs None dev"

definition qdev_init_gpio_out_named :: "nat \<Rightarrow> string option \<Rightarrow> gpio_dev \<Rightarrow> gpio_error + gpio_dev" where
  "qdev_init_gpio_out_named n name dev =
     (case qdev_get_named_gpio_list name dev of (g, dev) \<Rightarrow>
        if gl_in g \<noteq> [] \<and> name \<noteq> None then Inl Assertion
        else bindR (foldR (\<lambda>i. add_prop (name_out name, i) (Link None)) [num_out g ..< num_out g + n] dev)
               (\<lambda>dev. Inr (dev\<lparr>gpios := update_gpio name (\<lambda>g. g\<lparr>num_out := num_out g + n\<rparr>) (gpios dev)\<rparr>)))"

definition qdev_init_gpio_out :: "nat \<Rightarrow> gpio_dev \<Rightarrow> gpio_error + gpio_dev" where
  "qdev_init_gpio_out n dev = qdev_init_gpio_out_named n None dev"

definition qdev_get_gpio_in_named :: "string option \<Rightarrow> int \<Rightarrow> gpio_dev \<Rightarrow> gpio_error + nat \<times> gpio_dev" where
  "qdev_get_gpio_in_named name n dev =
     (case qdev_get_named_gpio_list name dev of (g, dev) \<Rightarrow>
        if 0 \<le> n \<and> n < int (length (gl_in g)) then Inr (gl_in g ! nat n, dev) else Inl Assertion)"

definition qdev_get_gpio_in :: "int \<Rightarrow> gpio_dev \<Rightarrow> gpio_error + nat \<times> gpio_dev" where
  "qdev_get_gpio_in n dev = qdev_get_gpio_in_named None n dev"

section \<open>Connections\<close>

text \<open>Setting a link that is not there, or a property that is no link, is an error.\<close>

definition set_link :: "prop_name \<Rightarrow> nat option \<Rightarrow> gpio_dev \<Rightarrow> gpio_error + gpio_dev" where
  "set_link p v dev =
     (case dev_props dev p of
        Some (Link _) \<Rightarrow> Inr (dev\<lparr>dev_props := (dev_props dev)(p \<mapsto> Link v)\<rparr>)
      | _ \<Rightarrow> Inl No_such_property)"

definition get_link :: "prop_name \<Rightarrow> gpio_dev \<Rightarrow> nat option" where
  "get_link p dev = (case dev_props dev p of Some (Link v) \<Rightarrow> v | Some (Child c) \<Rightarrow> Some c | _ \<Rightarrow> None)"

definition qdev_connect_gpio_out_named :: "string option \<Rightarrow> nat \<Rightarrow> nat option \<Rightarrow> gpio_dev \<Rightarrow> gpio_error + gpio_dev" where
  "qdev_connect_gpio_out_named name n pin dev = set_link (name_out name, n) pin dev"

definition qdev_connect_gpio_out :: "nat \<Rightarrow> nat option \<Rightarrow> gpio_dev \<Rightarrow> gpio_error + gpio_dev" where
  "qdev_connect_gpio_out n pin dev = qdev_connect_gpio_out_named None n pin dev"

definition qdev_get_gpio_out_connector :: "string option \<Rightarrow> nat \<Rightarrow> gpio_dev \<Rightarrow> nat option" where
  "qdev_get_gpio_out_connector name n dev = get_link (name_out name, n) dev"

text \<open>Errors of this disconnection are ignored.\<close>

definition qdev_disconnect_gpio_out_named :: "string option \<Rightarrow> nat \<Rightarrow> gpio_dev \<Rightarrow> nat option \<times> gpio_dev" where
  "qdev_disconnect_gpio_out_named name n dev =
     (let ret = get_link (name_out name, n) dev
      in (ret, if ret = None then dev
               else case set_link (name_out name, n) None dev of Inl _ \<Rightarrow> dev | Inr dev \<Rightarrow> dev))"

definition qdev_intercept_gpio_out ::
  "nat option \<Rightarrow> string option \<Rightarrow> nat \<Rightarrow> gpio_dev \<Rightarrow> gpio_error + nat option \<times> gpio_dev"
where
  "qdev_intercept_gpio_out icpt name n dev =
     (case qdev_disconnect_gpio_out_named name n dev of (disconnected, dev) \<Rightarrow>
        bindR (qdev_connect_gpio_out_named name n icpt dev) (\<lambda>dev. Inr (disconnected, dev)))"

text \<open>\<open>device_finalize\<close> frees the inputs of every group; the outputs belong to the other end.\<close>

definition device_finalize :: "gpio_dev \<Rightarrow> nat list \<times> gpio_dev" where
  "device_finalize dev = (concat (map gl_in (gpios dev)), dev\<lparr>gpios := []\<rparr>)"

section \<open>Lines and their properties\<close>

lemma update_gpio_lookup:
  "find (\<lambda>g. gl_name g = name) gs = Some g \<Longrightarrow> gl_name (f g) = name \<Longrightarrow>
     find (\<lambda>g. gl_name g = name) (update_gpio name f gs) = Some (f g)"
  by (induction gs) (auto split: if_splits)

lemma get_named_lookup: "qdev_get_named_gpio_list name dev = (g, dev') \<Longrightarrow> lookup_gpio name dev' = Some g \<and> gl_name g = name"
  by (auto simp: qdev_get_named_gpio_list_def lookup_gpio_def Let_def find_Some_iff split: option.splits)

lemma add_props_keep:
  "foldR (\<lambda>x. add_prop (f x) (h x)) xs dev = Inr dev' \<Longrightarrow>
     gpios dev' = gpios dev \<and> (dev_props dev p \<noteq> None \<longrightarrow> dev_props dev' p = dev_props dev p)"
proof (induction xs arbitrary: dev)
  case (Cons x xs)
  then obtain d where d: "add_prop (f x) (h x) dev = Inr d" "foldR (\<lambda>x. add_prop (f x) (h x)) xs d = Inr dev'"
    by (auto elim: bindR_InrE)
  from d(1) have "gpios d = gpios dev" "dev_props dev p \<noteq> None \<longrightarrow> dev_props d p = dev_props dev p"
    by (auto simp: add_prop_def split: if_splits)
  with Cons.IH [OF d(2)] show ?case by auto
qed simp

lemma add_props_added:
  "foldR (\<lambda>x. add_prop (f x) (h x)) xs dev = Inr dev' \<Longrightarrow> x \<in> set xs \<Longrightarrow> dev_props dev' (f x) = Some (h x)"
proof (induction xs arbitrary: dev)
  case (Cons y ys)
  then obtain d where d: "add_prop (f y) (h y) dev = Inr d" "foldR (\<lambda>x. add_prop (f x) (h x)) ys d = Inr dev'"
    by (auto elim: bindR_InrE)
  from d(1) have "dev_props d (f y) = Some (h y)" by (auto simp: add_prop_def split: if_splits)
  with Cons add_props_keep [OF d(2), of "f y"] d(2) show ?case by auto
qed simp

text \<open>The lines made are the ones found, in order, behind those the group had, each a child of the device.\<close>

lemma init_gpio_in_found:
  assumes "qdev_init_gpio_in_named irqs name dev = Inr dev'" and "i < length irqs"
    and "qdev_get_named_gpio_list name dev = (g, dev0)"
  shows "qdev_get_gpio_in_named name (int (length (gl_in g) + i)) dev' = Inr (irqs ! i, dev') \<and>
    dev_props dev' (name_in name, length (gl_in g) + i) = Some (Child (irqs ! i))"
proof -
  let ?d = "dev0\<lparr>gpios := update_gpio name (\<lambda>g. g\<lparr>gl_in := gl_in g @ irqs\<rparr>) (gpios dev0)\<rparr>"
  let ?l = "zip [length (gl_in g) ..< length (gl_in g) + length irqs] irqs"
  have f: "foldR (\<lambda>x. add_prop (name_in name, fst x) (Child (snd x))) ?l ?d = Inr dev'"
    using assms(1,3) by (auto simp: qdev_init_gpio_in_named_def Let_def case_prod_beta' split: if_splits)
  note n = get_named_lookup [OF assms(3)]
  then have "lookup_gpio name ?d = Some (g\<lparr>gl_in := gl_in g @ irqs\<rparr>)"
    using update_gpio_lookup [of name "gpios dev0" g "\<lambda>g. g\<lparr>gl_in := gl_in g @ irqs\<rparr>"] by (simp add: lookup_gpio_def)
  then have "lookup_gpio name dev' = Some (g\<lparr>gl_in := gl_in g @ irqs\<rparr>)"
    using add_props_keep [OF f] by (simp add: lookup_gpio_def)
  moreover have "(length (gl_in g) + i, irqs ! i) \<in> set ?l" using assms(2) by (force simp: in_set_zip)
  ultimately show ?thesis
    using add_props_added [OF f, of "(length (gl_in g) + i, irqs ! i)"] assms(2)
    by (simp add: qdev_get_gpio_in_named_def qdev_get_named_gpio_list_def nth_append nat_int_add)
qed

text \<open>
  Intercepting a connected output gives the line it went to and leaves it connected to the
  interceptor; connecting the old line again restores the device.
\<close>

lemma intercept_restores:
  assumes "dev_props dev (name_out name, n) = Some (Link (Some pin))"
  shows "\<exists>dev'. qdev_intercept_gpio_out icpt name n dev = Inr (Some pin, dev') \<and>
    qdev_get_gpio_out_connector name n dev' = icpt \<and> qdev_connect_gpio_out_named name n (Some pin) dev' = Inr dev"
proof -
  have "(dev_props dev)((name_out name, n) \<mapsto> Link (Some pin)) = dev_props dev" using assms by auto
  then show ?thesis
    using assms
    by (simp add: qdev_intercept_gpio_out_def qdev_disconnect_gpio_out_named_def qdev_connect_gpio_out_named_def
        qdev_get_gpio_out_connector_def get_link_def set_link_def Let_def)
qed

end
