(* ===== verification/Qdev_Props.thy ===== *)
theory Qdev_Props
  imports Qdev_Path
begin

text \<open>
  The making of a device object (\<open>hw/core/qdev.c\<close>): its static and legacy properties with their
  defaults, the flags of its class, the listeners, and creation during machine start-up. The object
  model is the list of properties added, with their types and values; an error passed to
  \<open>error_abort\<close> is \<open>Inl\<close>.
\<close>

section \<open>Properties\<close>

datatype qtype = QTYPE_NONE | QTYPE_QBOOL | QTYPE_QINT | QTYPE_QSTRING

record prop_info =
  info_name :: string
  info_description :: "string option"
  enum_table :: "string list option"
  has_print :: bool
  has_get :: bool
  has_set :: bool

record property =
  prop_name :: string
  prop_type :: prop_info
  prop_qtype :: qtype
  defval :: int

datatype prop_value = Bool_value bool | Str_value string | Int_value int | Bus_link

record dev_object =
  obj_props :: "(string \<times> string) list"
  obj_values :: "string \<rightharpoonup> prop_value"
  obj_descriptions :: "string \<rightharpoonup> string option"
  hotplugged :: bool
  realized :: bool
  instance_id_alias :: int
  alias_required :: int

datatype prop_error = Duplicate string | Not_writable string | Bad_default string

definition object_property_add :: "string \<Rightarrow> string \<Rightarrow> dev_object \<Rightarrow> prop_error + dev_object" where
  "object_property_add name ty obj =
     (if name \<in> fst ` set (obj_props obj) then Inl (Duplicate name)
      else Inr (obj\<lparr>obj_props := obj_props obj @ [(name, ty)]\<rparr>))"

text \<open>\<open>Inr None\<close> of a default is none to set; an enumeration is set by the name of the value.\<close>

definition default_value :: "property \<Rightarrow> prop_error + prop_value option" where
  "default_value p =
     (if prop_qtype p = QTYPE_NONE then Inr None
      else if prop_qtype p = QTYPE_QBOOL then Inr (Some (Bool_value (defval p \<noteq> 0)))
      else case enum_table (prop_type p) of
          Some names \<Rightarrow>
            if 0 \<le> defval p \<and> defval p < int (length names) then Inr (Some (Str_value (names ! nat (defval p))))
            else Inl (Bad_default (prop_name p))
        | None \<Rightarrow> Inr (if prop_qtype p = QTYPE_QINT then Some (Int_value (defval p)) else None))"

definition qdev_property_add_static :: "property \<Rightarrow> dev_object \<Rightarrow> prop_error + dev_object" where
  "qdev_property_add_static p obj =
     (if \<not> has_get (prop_type p) \<and> \<not> has_set (prop_type p) then Inr obj
      else bindR (object_property_add (prop_name p) (info_name (prop_type p)) obj)
        (\<lambda>obj. let obj = obj\<lparr>obj_descriptions := (obj_descriptions obj)(prop_name p \<mapsto> info_description (prop_type p))\<rparr>
               in bindR (default_value p)
                 (\<lambda>v. case v of
                    None \<Rightarrow> Inr obj
                  | Some v \<Rightarrow> if \<not> has_set (prop_type p) then Inl (Not_writable (prop_name p))
                             else Inr (obj\<lparr>obj_values := (obj_values obj)(prop_name p \<mapsto> v)\<rparr>))))"

definition qdev_property_add_legacy :: "property \<Rightarrow> dev_object \<Rightarrow> prop_error + dev_object" where
  "qdev_property_add_legacy p obj =
     (if \<not> has_print (prop_type p) \<and> has_get (prop_type p) then Inr obj
      else object_property_add (''legacy-'' @ prop_name p) ''str'' obj)"

text \<open>\<open>chain\<close> are the properties of the class and its ancestors below \<open>TYPE_DEVICE\<close>, the class first.\<close>

definition device_initfn :: "bool \<Rightarrow> property list list \<Rightarrow> dev_object \<Rightarrow> prop_error + dev_object" where
  "device_initfn hotplug chain obj =
     (let obj = obj\<lparr>hotplugged := hotplugged obj \<or> hotplug, instance_id_alias := - 1, realized := False\<rparr>;
          obj = (case object_property_add ''realized'' ''bool'' obj of Inl _ \<Rightarrow> obj | Inr o' \<Rightarrow> o');
          obj = (case object_property_add ''hotpluggable'' ''bool'' obj of Inl _ \<Rightarrow> obj | Inr o' \<Rightarrow> o')
      in bindR (object_property_add ''hotplugged'' ''bool'' obj)
           (\<lambda>obj. bindR (foldR (\<lambda>p obj. bindR (qdev_property_add_legacy p obj) (qdev_property_add_static p)) (concat chain) obj)
             (object_property_add ''parent_bus'' ''link<bus>'')))"

definition qdev_alias_all_properties :: "property list list \<Rightarrow> dev_object \<Rightarrow> prop_error + dev_object" where
  "qdev_alias_all_properties chain source =
     foldR (\<lambda>p. object_property_add (prop_name p) (info_name (prop_type p))) (concat chain) source"

text \<open>The flags of the class a device class starts with.\<close>

definition device_class_init :: "bool \<times> bool" where
  "device_class_init = (let hotpluggable = True; user_creatable = True in (hotpluggable, user_creatable))"

definition device_set_hotplugged :: "bool \<Rightarrow> dev_object \<Rightarrow> dev_object" where
  "device_set_hotplugged v obj = obj\<lparr>hotplugged := v\<rparr>"

definition device_get_hotplugged :: "dev_object \<Rightarrow> bool" where
  "device_get_hotplugged obj = hotplugged obj"

definition device_get_realized :: "dev_object \<Rightarrow> bool" where
  "device_get_realized obj = realized obj"

text \<open>\<open>None\<close> is the failed assertion on a realized device.\<close>

definition qdev_set_legacy_instance_id :: "int \<Rightarrow> int \<Rightarrow> dev_object \<Rightarrow> dev_object option" where
  "qdev_set_legacy_instance_id alias_id version obj =
     (if realized obj then None else Some (obj\<lparr>instance_id_alias := alias_id, alias_required := version\<rparr>))"

section \<open>Realizing by the class callbacks\<close>

text \<open>\<open>dc->init\<close> and \<open>dc->exit\<close> when the class has them; \<open>Some\<close> is the error set.\<close>

definition device_realize :: "(dev_object \<Rightarrow> int) option \<Rightarrow> dev_object \<Rightarrow> string option" where
  "device_realize init obj =
     (case init of None \<Rightarrow> None | Some f \<Rightarrow> if f obj < 0 then Some ''Device initialization failed.'' else None)"

definition device_unrealize :: "(dev_object \<Rightarrow> int) option \<Rightarrow> dev_object \<Rightarrow> string option" where
  "device_unrealize exit obj =
     (case exit of None \<Rightarrow> None | Some f \<Rightarrow> if f obj < 0 then Some ''Device exit failed.'' else None)"

datatype exit_reason = Assertion_failed | Exit_1 string

text \<open>\<open>set_realized\<close> sets the property; the program ends when that fails.\<close>

definition qdev_init_nofail :: "(dev_object \<Rightarrow> dev_object \<times> string option) \<Rightarrow> dev_object \<Rightarrow> exit_reason + dev_object" where
  "qdev_init_nofail set_realized obj =
     (if realized obj then Inl Assertion_failed
      else case set_realized obj of (obj, None) \<Rightarrow> Inr obj | (obj, Some e) \<Rightarrow> Inl (Exit_1 e))"

section \<open>Listeners\<close>

text \<open>A listener and which callbacks it has; a registration replays the devices there are.\<close>

record listener =
  listener_id :: nat
  on_realize :: bool
  on_unrealize :: bool

definition device_listener_register :: "nat list \<Rightarrow> listener \<Rightarrow> listener list \<Rightarrow> (nat \<times> nat) list \<times> listener list" where
  "device_listener_register devices l ls =
     (let ls = ls @ [l]
      in (concat (map (\<lambda>d. map (\<lambda>x. (listener_id x, d)) (filter on_realize ls)) devices), ls))"

definition device_listener_unregister :: "listener \<Rightarrow> listener list \<Rightarrow> listener list" where
  "device_listener_unregister l ls = remove1 l ls"

definition call_forward :: "(listener \<Rightarrow> bool) \<Rightarrow> nat \<Rightarrow> listener list \<Rightarrow> (nat \<times> nat) list" where
  "call_forward has d ls = map (\<lambda>x. (listener_id x, d)) (filter has ls)"

definition call_reverse :: "(listener \<Rightarrow> bool) \<Rightarrow> nat \<Rightarrow> listener list \<Rightarrow> (nat \<times> nat) list" where
  "call_reverse has d ls = map (\<lambda>x. (listener_id x, d)) (filter has (rev ls))"

section \<open>Devices that can be unplugged\<close>

definition qdev_build_hotpluggable_device_list :: "(nat \<times> bool \<times> hot_device) option list \<Rightarrow> nat list" where
  "qdev_build_hotpluggable_device_list peripheral =
     map fst (filter (\<lambda>(_, r, d). r \<and> device_get_hotpluggable d) (List.map_filter id peripheral))"

section \<open>Every property has its default\<close>

definition prop_names :: "dev_object \<Rightarrow> string set" where
  "prop_names obj = fst ` set (obj_props obj)"

lemma property_add_props:
  "object_property_add n ty obj = Inr obj' \<Longrightarrow>
     n \<notin> prop_names obj \<and> prop_names obj' = insert n (prop_names obj) \<and> obj_values obj' = obj_values obj"
  by (auto simp: object_property_add_def prop_names_def split: if_splits)

lemma prop_names_update [simp]:
  "prop_names (obj\<lparr>obj_descriptions := d\<rparr>) = prop_names obj" "prop_names (obj\<lparr>obj_values := v\<rparr>) = prop_names obj"
  by (simp_all add: prop_names_def)

lemma add_static_props:
  assumes "qdev_property_add_static p obj = Inr obj'"
  shows "prop_names obj \<subseteq> prop_names obj'"
    and "n \<in> prop_names obj \<Longrightarrow> obj_values obj' n = obj_values obj n"
    and "has_get (prop_type p) \<or> has_set (prop_type p) \<Longrightarrow> prop_name p \<in> prop_names obj' \<and>
      (\<forall>v. default_value p = Inr (Some v) \<longrightarrow> obj_values obj' (prop_name p) = Some v)"
  using assms
  by (auto simp: qdev_property_add_static_def Let_def elim!: bindR_InrE dest!: property_add_props
      split: if_splits option.splits)

lemma add_legacy_props:
  assumes "qdev_property_add_legacy p obj = Inr obj'"
  shows "prop_names obj \<subseteq> prop_names obj' \<and> obj_values obj' = obj_values obj"
  using assms by (auto simp: qdev_property_add_legacy_def dest!: property_add_props split: if_splits)

definition has_default :: "property \<Rightarrow> dev_object \<Rightarrow> bool" where
  "has_default p obj \<longleftrightarrow> (has_get (prop_type p) \<or> has_set (prop_type p) \<longrightarrow>
     prop_name p \<in> prop_names obj \<and> (\<forall>v. default_value p = Inr (Some v) \<longrightarrow> obj_values obj (prop_name p) = Some v))"

abbreviation add_both :: "property \<Rightarrow> dev_object \<Rightarrow> prop_error + dev_object" where
  "add_both p obj \<equiv> bindR (qdev_property_add_legacy p obj) (qdev_property_add_static p)"

lemma add_both_keeps: "add_both p obj = Inr obj' \<Longrightarrow> has_default q obj \<Longrightarrow> has_default q obj'"
proof (erule bindR_InrE)
  fix u assume u: "qdev_property_add_legacy p obj = Inr u" "qdev_property_add_static p u = Inr obj'" and q: "has_default q obj"
  from add_legacy_props [OF u(1)] q have "has_default q u" by (auto simp: has_default_def)
  moreover have "prop_name q \<in> prop_names u \<Longrightarrow> prop_name q \<in> prop_names obj'"
    using add_static_props(1) [OF u(2)] by blast
  ultimately show "has_default q obj'"
    using add_static_props(2) [OF u(2), of "prop_name q"] by (simp add: has_default_def)
qed

lemma add_both_adds: "add_both p obj = Inr obj' \<Longrightarrow> has_default p obj'"
  using add_static_props(3) by (auto simp: has_default_def elim!: bindR_InrE)

lemma add_all_defaults:
  "foldR add_both ps obj = Inr obj' \<Longrightarrow> p \<in> set ps \<or> has_default p obj \<Longrightarrow> has_default p obj'"
proof (induction ps arbitrary: obj)
  case (Cons x ps)
  then obtain u where u: "add_both x obj = Inr u" "foldR add_both ps u = Inr obj'" by (auto elim: bindR_InrE)
  with Cons.prems(2) add_both_keeps [OF u(1)] add_both_adds [OF u(1)] show ?case by (intro Cons.IH [OF u(2)]) auto
qed simp

text \<open>A device that could be made has every static property of its classes, with the default each declares.\<close>

theorem device_has_defaults:
  assumes "device_initfn hotplug chain obj = Inr dev" and "p \<in> set (concat chain)"
    and "has_get (prop_type p) \<or> has_set (prop_type p)" and "default_value p = Inr (Some v)"
  shows "prop_name p \<in> prop_names dev \<and> obj_values dev (prop_name p) = Some v"
proof -
  obtain u w where "foldR add_both (concat chain) u = Inr w" "object_property_add ''parent_bus'' ''link<bus>'' w = Inr dev"
    using assms(1) by (auto simp: device_initfn_def Let_def elim!: bindR_InrE)
  with add_all_defaults [of "concat chain" u w p] assms(2-4) show ?thesis
    by (auto simp: has_default_def dest!: property_add_props)
qed

end
