(* ===== verification/Qdev_Print.thy ===== *)
theory Qdev_Print
  imports Qdev_Find Mon_Cmds "HOL-Library.List_Lexorder"
begin

text \<open>
  Printing devices (\<open>qdev-monitor.c\<close>): the list of device classes, the help of a device, the candidates
  named in the errors of the bus search, and the trees of buses and objects. The text is a function of
  the classes, of the tree and of what the object model gives for a property.
\<close>

section \<open>The device classes\<close>

definition DEVICE_CATEGORY_MAX :: nat where "DEVICE_CATEGORY_MAX = 9"

record devinfo =
  class_name :: string
  class_bus_type :: "string option"
  class_text :: "string option"
  user_creatable :: bool
  categories :: "nat set"

definition in_dquotes :: "string \<Rightarrow> string" where
  "in_dquotes s = CHR 0x22 # s @ [CHR 0x22]"

definition qdev_print_devinfo :: "bool \<Rightarrow> devinfo \<Rightarrow> string" where
  "qdev_print_devinfo s390x dc =
     line (''name '' @ in_dquotes (class_name dc) @
       (case class_bus_type dc of None \<Rightarrow> [] | Some b \<Rightarrow> '', bus '' @ b) @
       (case qdev_class_get_alias s390x (class_name dc) of None \<Rightarrow> [] | Some a \<Rightarrow> '', alias '' @ in_dquotes a) @
       (case class_text dc of None \<Rightarrow> [] | Some d \<Rightarrow> '', desc '' @ in_dquotes d) @
       (if user_creatable dc then [] else '', no-user''))"

text \<open>The order of \<open>strcasecmp\<close>.\<close>

definition devinfo_key :: "devinfo \<Rightarrow> nat list" where
  "devinfo_key dc = map (\<lambda>c. let n = of_char c in if 65 \<le> n \<and> n \<le> 90 then n + 32 else n) (class_name dc)"

definition cat_name :: "string list" where
  "cat_name = [''Controller/Bridge/Hub'', ''USB'', ''Storage'', ''Network'', ''Input'', ''Display'', ''Sound'', ''Misc'',
     ''CPU'', ''Uncategorized'']"

text \<open>The classes of a category, the last one for those without any.\<close>

definition listed_in :: "bool \<Rightarrow> nat \<Rightarrow> devinfo \<Rightarrow> bool" where
  "listed_in show_no_user i dc \<longleftrightarrow>
     (if i < DEVICE_CATEGORY_MAX then i \<in> categories dc else \<forall>j \<in> {..< DEVICE_CATEGORY_MAX}. j \<notin> categories dc) \<and>
     (show_no_user \<or> user_creatable dc)"

definition devinfo_sections :: "bool \<Rightarrow> devinfo list \<Rightarrow> (nat \<times> devinfo list) list" where
  "devinfo_sections show_no_user classes =
     (let list = sort_key devinfo_key classes
      in map (\<lambda>i. (i, filter (listed_in show_no_user i) list)) [0 ..< DEVICE_CATEGORY_MAX + 1])"

definition qdev_print_devinfos :: "bool \<Rightarrow> bool \<Rightarrow> devinfo list \<Rightarrow> string" where
  "qdev_print_devinfos s390x show_no_user classes =
     concat (map (\<lambda>(i, dcs).
       (if dcs = [] then [] else (if i = 0 then [] else line []) @ line (cat_name ! i @ '' devices:'')) @
       concat (map (qdev_print_devinfo s390x) dcs)) (devinfo_sections show_no_user classes))"

definition hmp_info_qdm :: "bool \<Rightarrow> devinfo list \<Rightarrow> string" where
  "hmp_info_qdm s390x classes = qdev_print_devinfos s390x True classes"

text \<open>Every class that may be shown is listed, and in the section of each of its categories.\<close>

lemma devinfos_complete:
  assumes "categories dc \<subseteq> {..< DEVICE_CATEGORY_MAX}"
  shows "(\<exists>(i, dcs) \<in> set (devinfo_sections show_no_user classes). dc \<in> set dcs) \<longleftrightarrow>
    dc \<in> set classes \<and> (show_no_user \<or> user_creatable dc)"
proof -
  have "(\<exists>(i, dcs) \<in> set (devinfo_sections show_no_user classes). dc \<in> set dcs) \<longleftrightarrow>
      dc \<in> set classes \<and> (\<exists>i < DEVICE_CATEGORY_MAX + 1. listed_in show_no_user i dc)"
    by (auto simp: devinfo_sections_def Let_def simp del: upt_Suc)
  moreover have "(\<exists>i < DEVICE_CATEGORY_MAX + 1. listed_in show_no_user i dc) \<longleftrightarrow> show_no_user \<or> user_creatable dc"
  proof (cases "categories dc = {}")
    case True
    then have "listed_in show_no_user DEVICE_CATEGORY_MAX dc \<longleftrightarrow> show_no_user \<or> user_creatable dc" by (simp add: listed_in_def)
    then show ?thesis by (auto simp: listed_in_def)
  next
    case False
    with assms obtain i where "i \<in> categories dc" "i < DEVICE_CATEGORY_MAX" by blast
    then show ?thesis by (auto simp: listed_in_def intro!: exI [of _ i])
  qed
  ultimately show ?thesis by simp
qed

section \<open>The help of a device\<close>

text \<open>
  \<open>driver\<close> is the option of that name and \<open>help_opt\<close> tells whether help is asked for among the options;
  \<open>is_help\<close> recognizes the words for help, \<open>class_exists\<close> a class by its name. The flag returned ends
  the addition of the device.
\<close>

definition qdev_device_help ::
  "bool \<Rightarrow> devinfo list \<Rightarrow> (string \<Rightarrow> bool) \<Rightarrow> (string \<Rightarrow> bool) \<Rightarrow> (string \<Rightarrow> string + (string \<times> string \<times> string option) list)
     \<Rightarrow> (string \<Rightarrow> string) \<Rightarrow> string option \<Rightarrow> bool \<Rightarrow> bool \<times> string"
where
  "qdev_device_help s390x classes is_help class_exists properties report driver help_opt =
     (case driver of
        None \<Rightarrow> (False, [])
      | Some d \<Rightarrow>
          if is_help d then (True, qdev_print_devinfos s390x False classes)
          else if \<not> help_opt then (False, [])
          else let d = (if class_exists d then d else case find_typename_by_alias s390x d of None \<Rightarrow> d | Some t \<Rightarrow> t)
               in (True, case properties d of
                     Inl e \<Rightarrow> report e
                   | Inr props \<Rightarrow> concat (map (\<lambda>(n, t, desc).
                       line (d @ ''.'' @ n @ ''='' @ t @ (case desc of None \<Rightarrow> [] | Some x \<Rightarrow> '' ('' @ x @ '')''))) props)))"

section \<open>Candidates\<close>

definition separated :: "string list \<Rightarrow> string" where
  "separated xs = concat (map (\<lambda>(i, x). (if i = 0 then '' '' else '', '') @ x) (zip [0 ..< length xs] xs))"

definition qbus_list_bus :: "dev \<Rightarrow> string" where
  "qbus_list_bus d =
     line (''child buses at '' @ in_dquotes (case dev_id d of Some i \<Rightarrow> i | None \<Rightarrow> dev_type d) @ '':'' @
       separated (map (\<lambda>b. in_dquotes (bus_name b)) (child_buses d)))"

definition qbus_list_dev :: "bus \<Rightarrow> string" where
  "qbus_list_dev b =
     line (''devices at '' @ in_dquotes (bus_name b) @ '':'' @
       separated (map (\<lambda>d. in_dquotes (dev_type d) @ (case dev_id d of None \<Rightarrow> [] | Some i \<Rightarrow> ''/'' @ in_dquotes i)) (bus_kids b)))"

section \<open>Names of devices\<close>

text \<open>
  The name given, the identifier of the device and the counter of the anonymous ones: the new
  identifier, whether the device becomes a child of the peripherals or of the anonymous ones, under
  which name, and the counter. A failure to add the child is ignored.
\<close>

definition qdev_set_id :: "string option \<Rightarrow> string option \<Rightarrow> nat \<Rightarrow> string option \<times> (bool \<times> string) \<times> nat" where
  "qdev_set_id name old_id anon_count =
     (let i = (case name of Some n \<Rightarrow> Some n | None \<Rightarrow> old_id)
      in case i of
           Some n \<Rightarrow> (i, (True, n), anon_count)
         | None \<Rightarrow> (i, (False, ''device['' @ show_base 10 anon_count @ '']''), anon_count + 1))"

section \<open>The device tree\<close>

text \<open>
  A property of a device: its name, the result of reading its legacy property if there is one, and of
  printing the property itself; \<open>None\<close> is an error. A device carries its lines as name and numbers, the
  properties of its classes from its own up to but without the base class, and what the bus of its
  parent prints of it at an indentation.
\<close>

record printed_property =
  property_name :: string
  legacy_value :: "string option option"
  plain_value :: "string option"

datatype pdev =
  Pdev string "string option" "(string option \<times> nat \<times> nat) list" "printed_property list list" "nat \<Rightarrow> string" "pbus list"
and pbus = Pbus string string "pdev list"

definition qdev_printf :: "nat \<Rightarrow> string \<Rightarrow> string" where
  "qdev_printf indent t = replicate indent CHR '' '' @ line t"

definition qdev_print_props :: "printed_property list \<Rightarrow> nat \<Rightarrow> string" where
  "qdev_print_props props indent =
     concat (map (\<lambda>p. case (case legacy_value p of Some v \<Rightarrow> v | None \<Rightarrow> plain_value p) of
         None \<Rightarrow> []
       | Some v \<Rightarrow> qdev_printf indent (property_name p @ '' = '' @ (if v = [] then ''<null>'' else v))) props)"

definition gpio_text :: "nat \<Rightarrow> string option \<times> nat \<times> nat \<Rightarrow> string" where
  "gpio_text indent g =
     (case g of (name, num_in, num_out) \<Rightarrow>
        let n = in_dquotes (case name of None \<Rightarrow> [] | Some n \<Rightarrow> n)
        in (if num_in \<noteq> 0 then qdev_printf indent (''gpio-in '' @ n @ '' '' @ show_base 10 num_in) else []) @
           (if num_out \<noteq> 0 then qdev_printf indent (''gpio-out '' @ n @ '' '' @ show_base 10 num_out) else []))"

fun qdev_print :: "pdev \<Rightarrow> nat \<Rightarrow> string" and qbus_print :: "pbus \<Rightarrow> nat \<Rightarrow> string" where
  "qdev_print (Pdev ty i gpios classes bus_print_dev buses) indent =
     qdev_printf indent (''dev: '' @ ty @ '', id '' @ in_dquotes (case i of None \<Rightarrow> [] | Some n \<Rightarrow> n)) @
     concat (map (gpio_text (indent + 2)) gpios) @
     concat (map (\<lambda>props. qdev_print_props props (indent + 2)) classes) @
     bus_print_dev (indent + 2) @
     concat (map (\<lambda>b. qbus_print b (indent + 2)) buses)"
| "qbus_print (Pbus name ty kids) indent =
     qdev_printf indent (''bus: '' @ name) @ qdev_printf (indent + 2) (''type '' @ ty) @
     concat (map (\<lambda>d. qdev_print d (indent + 2)) kids)"

definition hmp_info_qtree :: "pbus option \<Rightarrow> string" where
  "hmp_info_qtree sysbus = (case sysbus of None \<Rightarrow> [] | Some b \<Rightarrow> qbus_print b 0)"

section \<open>The object tree\<close>

text \<open>An object: whether it is the root, its name, its type and its children.\<close>

datatype qom_object = Qom_object bool string string "qom_object list"

fun print_qom_composition :: "qom_object \<Rightarrow> nat \<Rightarrow> string" where
  "print_qom_composition (Qom_object is_root name ty children) indent =
     replicate indent CHR '' '' @ line (''/'' @ (if is_root then [] else name) @ '' ('' @ ty @ '')'') @
     concat (map (\<lambda>c. print_qom_composition c (indent + 2)) children)"

definition hmp_info_qom_tree :: "qom_object \<Rightarrow> (string \<Rightarrow> (qom_object \<times> bool) option) \<Rightarrow> string option \<Rightarrow> string" where
  "hmp_info_qom_tree machine resolve path =
     (case path of
        None \<Rightarrow> print_qom_composition machine 0
      | Some p \<Rightarrow> (case resolve p of
          None \<Rightarrow> line (''Path '' @ quoted p @ '' could not be resolved.'')
        | Some (obj, ambiguous) \<Rightarrow>
            if ambiguous then line (''Warning: Path '' @ quoted p @ '' is ambiguous.'') else print_qom_composition obj 0))"

text \<open>The objects with their depths in preorder, which the indentation shows.\<close>

fun qom_lines :: "nat \<Rightarrow> qom_object \<Rightarrow> (nat \<times> string) list" where
  "qom_lines depth (Qom_object is_root name ty children) =
     (depth, ''/'' @ (if is_root then [] else name) @ '' ('' @ ty @ '')'') # concat (map (qom_lines (depth + 1)) children)"

lemma qom_composition_preorder:
  "print_qom_composition obj (2 * depth) = concat (map (\<lambda>(d, t). qdev_printf (2 * d) t) (qom_lines depth obj))"
proof (induction obj arbitrary: depth)
  case (Qom_object is_root name ty children)
  have "concat (map (\<lambda>c. print_qom_composition c (2 * depth + 2)) cs) =
      concat (map (\<lambda>(d, t). qdev_printf (2 * d) t) (concat (map (qom_lines (depth + 1)) cs)))" if "set cs \<subseteq> set children" for cs
    using that Qom_object [of _ "depth + 1"] by (induction cs) simp_all
  from this [of children] show ?case by (simp add: qdev_printf_def)
qed

end
