(* ===== verification/Hmp_Base.thy ===== *)
theory Hmp_Base
  imports Mon_Session_Props Mon_Cmds
begin

text \<open>
  The commands of the human monitor that hand their arguments to a QMP command (\<open>hmp.c\<close>): the calls
  they make, the reporting of errors, and the commands that do nothing else. A command works on all
  monitors; what is printed goes to its own monitor \<open>m\<close>, errors to the current one. The QMP commands,
  which may change anything and may set an error, and the text \<open>error_report\<close> makes of a message and
  the texts of \<open>qerror.h\<close> are the environment. Numbers of type double are of the type \<open>'d\<close>.
\<close>

section \<open>Calls\<close>

datatype mirror_sync = Sync_full | Sync_top
datatype new_image_mode = Image_existing | Image_absolute_paths
datatype dump_format = Format_elf | Format_kdump_zlib | Format_kdump_lzo | Format_kdump_snappy

datatype key_value = Key_number int | Key_qcode nat

text \<open>\<open>MigrationParameters\<close>: for each parameter whether it is given, and its value.\<close>

record migration_parameters =
  has_compress_level :: bool
  compress_level :: int
  has_compress_threads :: bool
  compress_threads :: int
  has_decompress_threads :: bool
  decompress_threads :: int
  has_cpu_throttle_initial :: bool
  cpu_throttle_initial :: int
  has_cpu_throttle_increment :: bool
  cpu_throttle_increment :: int
  has_tls_creds :: bool
  tls_creds :: string
  has_tls_hostname :: bool
  tls_hostname :: string
  has_max_bandwidth :: bool
  max_bandwidth :: int
  has_downtime_limit :: bool
  downtime_limit :: int
  has_x_checkpoint_delay :: bool
  x_checkpoint_delay :: int

text \<open>\<open>None\<close> stands for an argument that is not given (a \<open>has_\<close> flag that is false).\<close>

datatype image_call =
    Drive_mirror string string "string option" mirror_sync new_image_mode bool
  | Drive_backup string string "string option" mirror_sync new_image_mode "bool option"
  | Snapshot_sync string string "string option" new_image_mode
  | Snapshot_internal string string
  | Snapshot_delete_internal string "string option" string
  | Nbd_start string | Nbd_add string bool | Nbd_stop

datatype block_call =
    Block_passwd string string | Block_resize string int
  | Eject string bool | Qmp_change string string "string option"
  | Change_medium string string "string option" "nat option"
  | Set_io_throttle string int int int int int int
  | Block_stream string "string option" "int option" | Job_set_speed string int | Job_cancel string bool
  | Job_pause string | Job_resume string | Job_complete string

datatype 'd migration_call =
    Migrate string "bool option" "bool option" | Migrate_cancel | Migrate_incoming string
  | Migrate_set_downtime 'd | Migrate_set_cache_size int | Migrate_set_speed int
  | Migrate_set_capabilities "(nat \<times> bool) list" | Migrate_set_parameters migration_parameters
  | Client_migrate_info string string "int option" "int option" "string option"
  | Migrate_start_postcopy | Colo_lost_heartbeat

datatype 'd device_call =
    Set_link string bool | Balloon int | Device_add "(string \<times> 'd qobject) list" | Device_del string
  | Netdev_del string | Getfd string | Closefd string | Cpu_add int | Chardev_remove string
  | Object_del string | Ringbuf_write string string

datatype machine_call =
    Inject_nmi | Quit | Stop | Cont | System_reset | System_powerdown | System_wakeup
  | Memsave u64 u32 string int | Pmemsave u64 u32 string
  | Dump_guest_memory bool string bool "int option" "int option" dump_format

datatype console_call =
    Send_key "key_value list" "int option" | Screendump string
  | Set_password string string "string option" | Expire_password string string
  | Change_vnc_password string

datatype 'd qmp_call =
    Image image_call | Block block_call | Migration "'d migration_call" | Device "'d device_call"
  | Machine machine_call | Console console_call

record ('a, 'w, 'd) hmp_env =
  qmp :: "'d qmp_call \<Rightarrow> ('a, 'w) monitors \<Rightarrow> ('a, 'w) monitors \<times> string option"
  error_text :: "string \<Rightarrow> string"
  invalid_parameter :: "string \<Rightarrow> string"
  missing_parameter :: "string \<Rightarrow> string"

text \<open>\<open>monitor_printf\<close> on the monitor \<open>m\<close>, and \<open>error_report\<close> or \<open>error_report_err\<close>.\<close>

definition say :: "nat \<Rightarrow> string \<Rightarrow> ('a, 'w) monitors \<Rightarrow> ('a, 'w) monitors" where
  "say m t s = upd_session m (print_text t) s"

definition error_report :: "('a, 'w, 'd) hmp_env \<Rightarrow> string \<Rightarrow> ('a, 'w) monitors \<Rightarrow> ('a, 'w) monitors" where
  "error_report E e s = error_vprintf (error_text E e) s"

definition hmp_handle_error :: "('a, 'w, 'd) hmp_env \<Rightarrow> string option \<Rightarrow> ('a, 'w) monitors \<Rightarrow> ('a, 'w) monitors" where
  "hmp_handle_error E err s = (case err of None \<Rightarrow> s | Some e \<Rightarrow> error_report E e s)"

text \<open>A call whose error is reported, and one whose error is dropped.\<close>

definition run_qmp :: "('a, 'w, 'd) hmp_env \<Rightarrow> 'd qmp_call \<Rightarrow> ('a, 'w) monitors \<Rightarrow> ('a, 'w) monitors" where
  "run_qmp E c s = (let (s, err) = qmp E c s in hmp_handle_error E err s)"

definition try_qmp :: "('a, 'w, 'd) hmp_env \<Rightarrow> 'd qmp_call \<Rightarrow> ('a, 'w) monitors \<Rightarrow> ('a, 'w) monitors" where
  "try_qmp E c s = fst (qmp E c s)"

section \<open>The contract of a command\<close>

text \<open>
  \<open>calls_keep m\<close> says of an environment that the QMP commands leave the reading of the monitor \<open>m\<close>
  alone; the commands then suspend it the number of times given and change nothing else of it.
\<close>

named_theorems hmp_keeps

definition calls_keep :: "('a, 'w, 'd) hmp_env \<Rightarrow> nat \<Rightarrow> bool" where
  "calls_keep E m \<longleftrightarrow> (\<forall>c s. m < length (mons s) \<longrightarrow> suspends m 0 s (fst (qmp E c s)))"

lemma say_keeps [hmp_keeps]: "m < length (mons s) \<Longrightarrow> suspends m 0 s (say n t s)"
  by (cases "n = m") (auto simp: say_def suspends_def print_text_def send_def upd_session_def)

lemma error_report_keeps [hmp_keeps]: "m < length (mons s) \<Longrightarrow> suspends m 0 s (error_report E e s)"
  using say_keeps [of m s "the (cur_mon s)"]
  by (auto simp: error_report_def error_vprintf_def say_def suspends_def split: option.split)

lemma handle_error_keeps [hmp_keeps]: "m < length (mons s) \<Longrightarrow> suspends m 0 s (hmp_handle_error E err s)"
  by (cases err) (simp_all add: hmp_handle_error_def error_report_keeps, simp add: suspends_def)

lemma suspends_trans: "suspends m j s t \<Longrightarrow> suspends m k t u \<Longrightarrow> suspends m (j + k) s u"
  by (auto simp: suspends_def)

lemma try_qmp_keeps [hmp_keeps]: "calls_keep E m \<Longrightarrow> m < length (mons s) \<Longrightarrow> suspends m 0 s (try_qmp E c s)"
  by (simp add: try_qmp_def calls_keep_def)

lemma run_qmp_keeps [hmp_keeps]:
  assumes "calls_keep E m" "m < length (mons s)"
  shows "suspends m 0 s (run_qmp E c s)"
proof -
  obtain t err where q: "qmp E c s = (t, err)" by fastforce
  with assms have t: "suspends m 0 s t" unfolding calls_keep_def by (metis fst_conv)
  then have "m < length (mons t)" by (simp add: suspends_def)
  then have "suspends m 0 t (hmp_handle_error E err t)" by (rule handle_error_keeps)
  from suspends_trans [OF t this] show ?thesis by (simp add: run_qmp_def q)
qed

lemma suspends_refl [hmp_keeps]: "m < length (mons s) \<Longrightarrow> suspends m 0 s s"
  by (simp add: suspends_def)

lemma suspends_then: "suspends m 0 s t \<Longrightarrow> (m < length (mons t) \<Longrightarrow> suspends m k t u) \<Longrightarrow> suspends m k s u"
  by (auto simp: suspends_def)

section \<open>Commands that do not wait\<close>

text \<open>
  The interface of the commands: whatever the QMP commands answer, running one leaves the suspensions
  of every monitor alone, so a monitor with a line editor reads after the command exactly if it read
  before.
\<close>

locale quiet_command =
  fixes cmd :: "('a, 'w, 'd) hmp_env \<Rightarrow> ('a, 'w) monitors \<Rightarrow> ('a, 'w) monitors"
  assumes keeps: "calls_keep E m \<Longrightarrow> m < length (mons s) \<Longrightarrow> suspends m 0 s (cmd E s)"
begin

lemma reads_after:
  assumes "calls_keep E m" "m < length (mons s)" "has_readline (session_of m s)"
  shows "monitor_can_read (session_of m (monitor_command_cb (\<lambda>_ _. cmd E) m cmdline s)) = monitor_can_read (session_of m s)"
proof -
  have "suspends m 0 (fst (monitor_suspend m s)) (cmd E (fst (monitor_suspend m s)))"
    using assms by (intro keeps) simp_all
  with assms show ?thesis by (simp add: monitor_command_cb_def suspends_def monitor_can_read_def)
qed

lemma session_goes_on:
  assumes "calls_keep E m" "hmp_session version (\<lambda>_ _. cmd E) m s0 s p" "m < length (mons s)" "reset_seen (session_of m s)"
  shows "hmp_session version (\<lambda>_ _. cmd E) m s0 (monitor_command_cb (\<lambda>_ _. cmd E) m cmdline s) p"
proof -
  have "suspends m 0 (fst (monitor_suspend m s)) (cmd E (fst (monitor_suspend m s)))"
    using assms(1,3) by (intro keeps) simp_all
  from hmp_session.command [OF assms(2,4) this] show ?thesis by simp
qed

end

lemma quiet_qmp: "(\<And>E. f E = run_qmp E (c E)) \<Longrightarrow> quiet_command f"
  by unfold_locales (simp add: run_qmp_keeps)

lemma quiet_try: "(\<And>E. f E = try_qmp E (c E)) \<Longrightarrow> quiet_command f"
  by unfold_locales (simp add: try_qmp_keeps)

end
