(* ===== verification/Hmp_Cmds.thy ===== *)
theory Hmp_Cmds
  imports Hmp_Base
begin

text \<open>
  The commands of \<open>hmp.c\<close> that make one QMP call or work on options: the machine, its devices, block
  devices and their jobs, passwords, and the objects made from option lists. An argument that may be
  missing is an option.
\<close>

section \<open>The machine\<close>

definition hmp_quit :: "('a, 'w, 'd) hmp_env \<Rightarrow> nat \<Rightarrow> ('a, 'w) monitors \<Rightarrow> ('a, 'w) monitors" where
  "hmp_quit E m s = try_qmp E (Machine Quit) (fst (monitor_suspend m s))"

definition hmp_stop :: "('a, 'w, 'd) hmp_env \<Rightarrow> ('a, 'w) monitors \<Rightarrow> ('a, 'w) monitors" where
  "hmp_stop E = try_qmp E (Machine Stop)"

definition hmp_system_reset :: "('a, 'w, 'd) hmp_env \<Rightarrow> ('a, 'w) monitors \<Rightarrow> ('a, 'w) monitors" where
  "hmp_system_reset E = try_qmp E (Machine System_reset)"

definition hmp_system_powerdown :: "('a, 'w, 'd) hmp_env \<Rightarrow> ('a, 'w) monitors \<Rightarrow> ('a, 'w) monitors" where
  "hmp_system_powerdown E = try_qmp E (Machine System_powerdown)"

definition hmp_system_wakeup :: "('a, 'w, 'd) hmp_env \<Rightarrow> ('a, 'w) monitors \<Rightarrow> ('a, 'w) monitors" where
  "hmp_system_wakeup E = try_qmp E (Machine System_wakeup)"

definition hmp_nmi :: "('a, 'w, 'd) hmp_env \<Rightarrow> ('a, 'w) monitors \<Rightarrow> ('a, 'w) monitors" where
  "hmp_nmi E = run_qmp E (Machine Inject_nmi)"

text \<open>The 64-bit index becomes an \<open>int\<close>.\<close>

definition hmp_cpu :: "nat list \<Rightarrow> int \<Rightarrow> nat \<Rightarrow> ('a, 'w) monitors \<Rightarrow> ('a, 'w) monitors" where
  "hmp_cpu cpus cpu_index m s =
     (let (s, ret) = monitor_set_cpu cpus (low_int cpu_index) s
      in if ret < 0 then say m (line ''invalid CPU index'') s else s)"

definition hmp_memsave ::
  "('a, 'w, 'd) hmp_env \<Rightarrow> int \<Rightarrow> nat list \<Rightarrow> int \<Rightarrow> string \<Rightarrow> int \<Rightarrow> nat \<Rightarrow> ('a, 'w) monitors \<Rightarrow> ('a, 'w) monitors"
where
  "hmp_memsave E unassigned cpus sz filename val m s =
     (let (s, cpu_index) = monitor_get_cpu_index unassigned cpus s
      in if cpu_index < 0 then say m (line ''No CPU available'') s
         else run_qmp E (Machine (Memsave (word_of_int val) (word_of_int sz) filename cpu_index)) s)"

definition hmp_pmemsave ::
  "('a, 'w, 'd) hmp_env \<Rightarrow> int \<Rightarrow> string \<Rightarrow> int \<Rightarrow> ('a, 'w) monitors \<Rightarrow> ('a, 'w) monitors"
where
  "hmp_pmemsave E sz filename val = run_qmp E (Machine (Pmemsave (word_of_int val) (word_of_int sz) filename))"

section \<open>Devices and descriptors\<close>

definition hmp_set_link :: "('a, 'w, 'd) hmp_env \<Rightarrow> string \<Rightarrow> bool \<Rightarrow> ('a, 'w) monitors \<Rightarrow> ('a, 'w) monitors" where
  "hmp_set_link E name up = run_qmp E (Device (Set_link name up))"

definition hmp_balloon :: "('a, 'w, 'd) hmp_env \<Rightarrow> int \<Rightarrow> ('a, 'w) monitors \<Rightarrow> ('a, 'w) monitors" where
  "hmp_balloon E val = run_qmp E (Device (Balloon val))"

definition hmp_device_add ::
  "('a, 'w, 'd) hmp_env \<Rightarrow> (string \<times> 'd qobject) list \<Rightarrow> ('a, 'w) monitors \<Rightarrow> ('a, 'w) monitors"
where
  "hmp_device_add E qdict = run_qmp E (Device (Device_add qdict))"

definition hmp_device_del :: "('a, 'w, 'd) hmp_env \<Rightarrow> string \<Rightarrow> ('a, 'w) monitors \<Rightarrow> ('a, 'w) monitors" where
  "hmp_device_del E i = run_qmp E (Device (Device_del i))"

definition hmp_netdev_del :: "('a, 'w, 'd) hmp_env \<Rightarrow> string \<Rightarrow> ('a, 'w) monitors \<Rightarrow> ('a, 'w) monitors" where
  "hmp_netdev_del E i = run_qmp E (Device (Netdev_del i))"

definition hmp_getfd :: "('a, 'w, 'd) hmp_env \<Rightarrow> string \<Rightarrow> ('a, 'w) monitors \<Rightarrow> ('a, 'w) monitors" where
  "hmp_getfd E fdname = run_qmp E (Device (Getfd fdname))"

definition hmp_closefd :: "('a, 'w, 'd) hmp_env \<Rightarrow> string \<Rightarrow> ('a, 'w) monitors \<Rightarrow> ('a, 'w) monitors" where
  "hmp_closefd E fdname = run_qmp E (Device (Closefd fdname))"

definition hmp_cpu_add :: "('a, 'w, 'd) hmp_env \<Rightarrow> int \<Rightarrow> ('a, 'w) monitors \<Rightarrow> ('a, 'w) monitors" where
  "hmp_cpu_add E i = run_qmp E (Device (Cpu_add (low_int i)))"

definition hmp_chardev_remove :: "('a, 'w, 'd) hmp_env \<Rightarrow> string \<Rightarrow> ('a, 'w) monitors \<Rightarrow> ('a, 'w) monitors" where
  "hmp_chardev_remove E i = run_qmp E (Device (Chardev_remove i))"

definition hmp_object_del :: "('a, 'w, 'd) hmp_env \<Rightarrow> string \<Rightarrow> ('a, 'w) monitors \<Rightarrow> ('a, 'w) monitors" where
  "hmp_object_del E i = run_qmp E (Device (Object_del i))"

definition hmp_ringbuf_write :: "('a, 'w, 'd) hmp_env \<Rightarrow> string \<Rightarrow> string \<Rightarrow> ('a, 'w) monitors \<Rightarrow> ('a, 'w) monitors" where
  "hmp_ringbuf_write E chardev data = run_qmp E (Device (Ringbuf_write chardev data))"

section \<open>Passwords and the screen\<close>

definition hmp_set_password ::
  "('a, 'w, 'd) hmp_env \<Rightarrow> string \<Rightarrow> string \<Rightarrow> string option \<Rightarrow> ('a, 'w) monitors \<Rightarrow> ('a, 'w) monitors"
where
  "hmp_set_password E protocol password connected = run_qmp E (Console (Set_password protocol password connected))"

definition hmp_expire_password :: "('a, 'w, 'd) hmp_env \<Rightarrow> string \<Rightarrow> string \<Rightarrow> ('a, 'w) monitors \<Rightarrow> ('a, 'w) monitors" where
  "hmp_expire_password E protocol whenstr = run_qmp E (Console (Expire_password protocol whenstr))"

definition hmp_screendump :: "('a, 'w, 'd) hmp_env \<Rightarrow> string \<Rightarrow> ('a, 'w) monitors \<Rightarrow> ('a, 'w) monitors" where
  "hmp_screendump E filename = run_qmp E (Console (Screendump filename))"

section \<open>Block devices and jobs\<close>

definition hmp_block_passwd :: "('a, 'w, 'd) hmp_env \<Rightarrow> string \<Rightarrow> string \<Rightarrow> ('a, 'w) monitors \<Rightarrow> ('a, 'w) monitors" where
  "hmp_block_passwd E device password = run_qmp E (Block (Block_passwd device password))"

definition hmp_block_resize :: "('a, 'w, 'd) hmp_env \<Rightarrow> string \<Rightarrow> int \<Rightarrow> ('a, 'w) monitors \<Rightarrow> ('a, 'w) monitors" where
  "hmp_block_resize E device sz = run_qmp E (Block (Block_resize device sz))"

definition hmp_eject :: "('a, 'w, 'd) hmp_env \<Rightarrow> bool option \<Rightarrow> string \<Rightarrow> ('a, 'w) monitors \<Rightarrow> ('a, 'w) monitors" where
  "hmp_eject E force device = run_qmp E (Block (Eject device (force = Some True)))"

definition hmp_block_set_io_throttle ::
  "('a, 'w, 'd) hmp_env \<Rightarrow> string \<Rightarrow> int \<Rightarrow> int \<Rightarrow> int \<Rightarrow> int \<Rightarrow> int \<Rightarrow> int \<Rightarrow> ('a, 'w) monitors \<Rightarrow> ('a, 'w) monitors"
where
  "hmp_block_set_io_throttle E device bps bps_rd bps_wr iops iops_rd iops_wr =
     run_qmp E (Block (Set_io_throttle device bps bps_rd bps_wr iops iops_rd iops_wr))"

definition hmp_block_stream ::
  "('a, 'w, 'd) hmp_env \<Rightarrow> string \<Rightarrow> string option \<Rightarrow> int option \<Rightarrow> ('a, 'w) monitors \<Rightarrow> ('a, 'w) monitors"
where
  "hmp_block_stream E device base speed = run_qmp E (Block (Block_stream device base speed))"

definition hmp_block_job_set_speed :: "('a, 'w, 'd) hmp_env \<Rightarrow> string \<Rightarrow> int \<Rightarrow> ('a, 'w) monitors \<Rightarrow> ('a, 'w) monitors" where
  "hmp_block_job_set_speed E device speed = run_qmp E (Block (Job_set_speed device speed))"

definition hmp_block_job_cancel :: "('a, 'w, 'd) hmp_env \<Rightarrow> string \<Rightarrow> bool option \<Rightarrow> ('a, 'w) monitors \<Rightarrow> ('a, 'w) monitors" where
  "hmp_block_job_cancel E device force = run_qmp E (Block (Job_cancel device (force = Some True)))"

definition hmp_block_job_pause :: "('a, 'w, 'd) hmp_env \<Rightarrow> string \<Rightarrow> ('a, 'w) monitors \<Rightarrow> ('a, 'w) monitors" where
  "hmp_block_job_pause E device = run_qmp E (Block (Job_pause device))"

definition hmp_block_job_resume :: "('a, 'w, 'd) hmp_env \<Rightarrow> string \<Rightarrow> ('a, 'w) monitors \<Rightarrow> ('a, 'w) monitors" where
  "hmp_block_job_resume E device = run_qmp E (Block (Job_resume device))"

definition hmp_block_job_complete :: "('a, 'w, 'd) hmp_env \<Rightarrow> string \<Rightarrow> ('a, 'w) monitors \<Rightarrow> ('a, 'w) monitors" where
  "hmp_block_job_complete E device = run_qmp E (Block (Job_complete device))"

section \<open>The commands keep the contract\<close>

text \<open>\<open>quit\<close> alone leaves the monitor suspended, for good.\<close>

lemma quit_suspends:
  assumes "calls_keep E m" "m < length (mons s)" "has_readline (session_of m s)"
  shows "suspends m 1 s (hmp_quit E m s)"
proof -
  have "suspends m 1 s (fst (monitor_suspend m s))" using assms by (simp add: suspends_def)
  moreover have "suspends m 0 (fst (monitor_suspend m s)) (hmp_quit E m s)"
    unfolding hmp_quit_def using assms by (intro try_qmp_keeps) simp_all
  ultimately show ?thesis using suspends_trans by fastforce
qed

interpretation stop: quiet_command "hmp_stop"
  by (rule quiet_try) (simp add: hmp_stop_def)

interpretation system_reset: quiet_command "hmp_system_reset"
  by (rule quiet_try) (simp add: hmp_system_reset_def)

interpretation system_powerdown: quiet_command "hmp_system_powerdown"
  by (rule quiet_try) (simp add: hmp_system_powerdown_def)

interpretation system_wakeup: quiet_command "hmp_system_wakeup"
  by (rule quiet_try) (simp add: hmp_system_wakeup_def)

interpretation nmi: quiet_command "hmp_nmi"
  by (rule quiet_qmp) (simp add: hmp_nmi_def)

interpretation pmemsave: quiet_command "\<lambda>E. hmp_pmemsave E sz filename val"
  by (rule quiet_qmp) (simp add: hmp_pmemsave_def)

interpretation set_link: quiet_command "\<lambda>E. hmp_set_link E name up"
  by (rule quiet_qmp) (simp add: hmp_set_link_def)

interpretation balloon: quiet_command "\<lambda>E. hmp_balloon E val"
  by (rule quiet_qmp) (simp add: hmp_balloon_def)

interpretation device_add: quiet_command "\<lambda>E. hmp_device_add E qdict"
  by (rule quiet_qmp) (simp add: hmp_device_add_def)

interpretation device_del: quiet_command "\<lambda>E. hmp_device_del E i"
  by (rule quiet_qmp) (simp add: hmp_device_del_def)

interpretation netdev_del: quiet_command "\<lambda>E. hmp_netdev_del E i"
  by (rule quiet_qmp) (simp add: hmp_netdev_del_def)

interpretation getfd: quiet_command "\<lambda>E. hmp_getfd E fdname"
  by (rule quiet_qmp) (simp add: hmp_getfd_def)

interpretation closefd: quiet_command "\<lambda>E. hmp_closefd E fdname"
  by (rule quiet_qmp) (simp add: hmp_closefd_def)

interpretation cpu_add: quiet_command "\<lambda>E. hmp_cpu_add E i"
  by (rule quiet_qmp) (simp add: hmp_cpu_add_def)

interpretation chardev_remove: quiet_command "\<lambda>E. hmp_chardev_remove E i"
  by (rule quiet_qmp) (simp add: hmp_chardev_remove_def)

interpretation object_del: quiet_command "\<lambda>E. hmp_object_del E i"
  by (rule quiet_qmp) (simp add: hmp_object_del_def)

interpretation ringbuf_write: quiet_command "\<lambda>E. hmp_ringbuf_write E chardev data"
  by (rule quiet_qmp) (simp add: hmp_ringbuf_write_def)

interpretation set_password: quiet_command "\<lambda>E. hmp_set_password E protocol password connected"
  by (rule quiet_qmp) (simp add: hmp_set_password_def)

interpretation expire_password: quiet_command "\<lambda>E. hmp_expire_password E protocol whenstr"
  by (rule quiet_qmp) (simp add: hmp_expire_password_def)

interpretation screendump: quiet_command "\<lambda>E. hmp_screendump E filename"
  by (rule quiet_qmp) (simp add: hmp_screendump_def)

interpretation block_passwd: quiet_command "\<lambda>E. hmp_block_passwd E device password"
  by (rule quiet_qmp) (simp add: hmp_block_passwd_def)

interpretation block_resize: quiet_command "\<lambda>E. hmp_block_resize E device sz"
  by (rule quiet_qmp) (simp add: hmp_block_resize_def)

interpretation eject: quiet_command "\<lambda>E. hmp_eject E force device"
  by (rule quiet_qmp) (simp add: hmp_eject_def)

interpretation block_set_io_throttle: quiet_command "\<lambda>E. hmp_block_set_io_throttle E device bps bps_rd bps_wr iops iops_rd iops_wr"
  by (rule quiet_qmp) (simp add: hmp_block_set_io_throttle_def)

interpretation block_stream: quiet_command "\<lambda>E. hmp_block_stream E device base speed"
  by (rule quiet_qmp) (simp add: hmp_block_stream_def)

interpretation block_job_set_speed: quiet_command "\<lambda>E. hmp_block_job_set_speed E device speed"
  by (rule quiet_qmp) (simp add: hmp_block_job_set_speed_def)

interpretation block_job_cancel: quiet_command "\<lambda>E. hmp_block_job_cancel E device force"
  by (rule quiet_qmp) (simp add: hmp_block_job_cancel_def)

interpretation block_job_pause: quiet_command "\<lambda>E. hmp_block_job_pause E device"
  by (rule quiet_qmp) (simp add: hmp_block_job_pause_def)

interpretation block_job_resume: quiet_command "\<lambda>E. hmp_block_job_resume E device"
  by (rule quiet_qmp) (simp add: hmp_block_job_resume_def)

interpretation block_job_complete: quiet_command "\<lambda>E. hmp_block_job_complete E device"
  by (rule quiet_qmp) (simp add: hmp_block_job_complete_def)

end
