(* ===== verification/Hmp_Migrate.thy ===== *)
theory Hmp_Migrate
  imports Hmp_Base "HOL-Library.Signed_Division"
begin

text \<open>
  Migration from the human monitor (\<open>hmp.c\<close>): starting it, watching it from a timer while the monitor
  is suspended, its capabilities and parameters, and what the \<open>info\<close> commands print of it. The
  enumerations of the schema are generated code: the names of capabilities, parameters and states
  are parameters.
\<close>

section \<open>Starting and watching a migration\<close>

datatype migration_status = Migration_active | Migration_setup | Migration_failed | Migration_other nat

record migration_stats =
  transferred :: u64
  remaining :: u64
  total :: u64

text \<open>\<open>HMPMigrationStatus\<close>; the timer is armed for a time in milliseconds.\<close>

record hmp_migration_status =
  status_mon :: nat
  is_block_migration :: bool
  status_timer :: int

definition hmp_migrate ::
  "('a, 'w, 'd) hmp_env \<Rightarrow> int \<Rightarrow> bool \<Rightarrow> bool \<Rightarrow> bool \<Rightarrow> string \<Rightarrow> nat \<Rightarrow> ('a, 'w) monitors
     \<Rightarrow> ('a, 'w) monitors \<times> hmp_migration_status option"
where
  "hmp_migrate E now detach blk inc uri m s =
     (let (s, err) = qmp E (Migration (Migrate uri (if blk then Some True else None) (if inc then Some True else None))) s
      in case err of
           Some e \<Rightarrow> (error_report E e s, None)
         | None \<Rightarrow>
             if detach then (s, None)
             else let (s, ret) = monitor_suspend m s
                  in if ret < 0
                     then (say m (line ''terminal does not allow synchronous migration, continuing detached'') s, None)
                     else (s, Some \<lparr>status_mon = m, is_block_migration = blk \<or> inc, status_timer = now\<rparr>))"

text \<open>In 64 bits, cut to an \<open>int\<close>; \<open>None\<close> is a division by zero.\<close>

definition disk_progress :: "migration_stats \<Rightarrow> int option" where
  "disk_progress disk =
     (if remaining disk = 0 then Some 100
      else if total disk = 0 then None
      else Some (low_int (sint (transferred disk * 100) sdiv sint (total disk))))"

text \<open>
  The timer handler: \<open>status\<close>, \<open>disk\<close> and \<open>desc\<close> are what \<open>query-migrate\<close> gives. Flushing the output
  changes nothing of the session. Without a result the handler is done and its memory freed.
\<close>

definition hmp_migrate_status_cb ::
  "('a, 'w, 'd) hmp_env \<Rightarrow> int \<Rightarrow> migration_status option \<Rightarrow> migration_stats option \<Rightarrow> string option
     \<Rightarrow> hmp_migration_status \<Rightarrow> ('a, 'w) monitors \<Rightarrow> (('a, 'w) monitors \<times> hmp_migration_status option) option"
where
  "hmp_migrate_status_cb E now status disk desc st s =
     (let m = status_mon st
      in if status = None \<or> status = Some Migration_active \<or> status = Some Migration_setup then
           (case disk of
              None \<Rightarrow> Some (s, Some (st\<lparr>status_timer := now + 1000\<rparr>))
            | Some d \<Rightarrow>
                (case disk_progress d of
                   None \<Rightarrow> None
                 | Some progress \<Rightarrow>
                     Some (say m (''Completed '' @ show_dec progress @ '' %'' @ [CHR 0x0D]) s,
                           Some (st\<lparr>status_timer := now + 1000\<rparr>))))
         else let s = (if is_block_migration st then say m [newline] s else s);
                  s = (case desc of None \<Rightarrow> s | Some e \<Rightarrow> error_report E e s)
              in Some (monitor_resume m s, None))"

section \<open>Migration commands\<close>

definition hmp_migrate_cancel :: "('a, 'w, 'd) hmp_env \<Rightarrow> ('a, 'w) monitors \<Rightarrow> ('a, 'w) monitors" where
  "hmp_migrate_cancel E = try_qmp E (Migration Migrate_cancel)"

definition hmp_migrate_incoming :: "('a, 'w, 'd) hmp_env \<Rightarrow> string \<Rightarrow> ('a, 'w) monitors \<Rightarrow> ('a, 'w) monitors" where
  "hmp_migrate_incoming E uri = run_qmp E (Migration (Migrate_incoming uri))"

definition hmp_migrate_set_downtime :: "('a, 'w, 'd) hmp_env \<Rightarrow> 'd \<Rightarrow> ('a, 'w) monitors \<Rightarrow> ('a, 'w) monitors" where
  "hmp_migrate_set_downtime E val = try_qmp E (Migration (Migrate_set_downtime val))"

definition hmp_migrate_set_cache_size :: "('a, 'w, 'd) hmp_env \<Rightarrow> int \<Rightarrow> ('a, 'w) monitors \<Rightarrow> ('a, 'w) monitors" where
  "hmp_migrate_set_cache_size E val = run_qmp E (Migration (Migrate_set_cache_size val))"

definition hmp_migrate_set_speed :: "('a, 'w, 'd) hmp_env \<Rightarrow> int \<Rightarrow> ('a, 'w) monitors \<Rightarrow> ('a, 'w) monitors" where
  "hmp_migrate_set_speed E val = try_qmp E (Migration (Migrate_set_speed val))"

definition hmp_migrate_start_postcopy :: "('a, 'w, 'd) hmp_env \<Rightarrow> ('a, 'w) monitors \<Rightarrow> ('a, 'w) monitors" where
  "hmp_migrate_start_postcopy E = run_qmp E (Migration Migrate_start_postcopy)"

definition hmp_x_colo_lost_heartbeat :: "('a, 'w, 'd) hmp_env \<Rightarrow> ('a, 'w) monitors \<Rightarrow> ('a, 'w) monitors" where
  "hmp_x_colo_lost_heartbeat E = run_qmp E (Migration Colo_lost_heartbeat)"

text \<open>The ports become \<open>int\<close>s.\<close>

definition hmp_client_migrate_info ::
  "('a, 'w, 'd) hmp_env \<Rightarrow> string \<Rightarrow> string \<Rightarrow> int option \<Rightarrow> int option \<Rightarrow> string option \<Rightarrow> ('a, 'w) monitors
     \<Rightarrow> ('a, 'w) monitors"
where
  "hmp_client_migrate_info E protocol hostname port tls_port cert_subject =
     run_qmp E (Migration (Client_migrate_info protocol hostname (map_option low_int port) (map_option low_int tls_port)
       cert_subject))"

section \<open>Capabilities and parameters\<close>

text \<open>The first place of a name.\<close>

fun first_index :: "string \<Rightarrow> string list \<Rightarrow> nat option" where
  "first_index x [] = None"
| "first_index x (n # ns) = (if x = n then Some 0 else map_option Suc (first_index x ns))"

definition hmp_migrate_set_capability ::
  "('a, 'w, 'd) hmp_env \<Rightarrow> string list \<Rightarrow> string \<Rightarrow> bool \<Rightarrow> ('a, 'w) monitors \<Rightarrow> ('a, 'w) monitors"
where
  "hmp_migrate_set_capability E capability_names cap state s =
     (case first_index cap capability_names of
        Some i \<Rightarrow> run_qmp E (Migration (Migrate_set_capabilities [(i, state)])) s
      | None \<Rightarrow> error_report E (invalid_parameter E cap) s)"

datatype migration_parameter =
    Compress_level | Compress_threads | Decompress_threads | Cpu_throttle_initial | Cpu_throttle_increment
  | Tls_creds | Tls_hostname | Max_bandwidth | Downtime_limit | X_checkpoint_delay | Other_parameter

definition no_parameters :: migration_parameters where
  "no_parameters =
     \<lparr>has_compress_level = False, compress_level = 0, has_compress_threads = False, compress_threads = 0,
      has_decompress_threads = False, decompress_threads = 0, has_cpu_throttle_initial = False,
      cpu_throttle_initial = 0, has_cpu_throttle_increment = False, cpu_throttle_increment = 0,
      has_tls_creds = False, tls_creds = [], has_tls_hostname = False, tls_hostname = [],
      has_max_bandwidth = False, max_bandwidth = 0, has_downtime_limit = False, downtime_limit = 0,
      has_x_checkpoint_delay = False, x_checkpoint_delay = 0\<rparr>"

text \<open>
  The switch over the parameter and the common end of the integer cases: the parameters of the call, or
  the error set. \<open>to_int_arg\<close> and \<open>to_size_arg\<close> stand for \<open>qemu_strtol\<close> and \<open>qemu_strtosz_MiB\<close>, \<open>None\<close> for
  a negative result.
\<close>

definition use_int_value :: "migration_parameter \<Rightarrow> bool" where
  "use_int_value k \<longleftrightarrow> k \<in> {Compress_level, Compress_threads, Decompress_threads, Cpu_throttle_initial,
     Cpu_throttle_increment, Downtime_limit, X_checkpoint_delay}"

definition parameters_to_set ::
  "(string \<Rightarrow> int option) \<Rightarrow> (string \<Rightarrow> nat option) \<Rightarrow> migration_parameter \<Rightarrow> string \<Rightarrow> string + migration_parameters"
where
  "parameters_to_set to_int_arg to_size_arg k valuestr =
     (let p = no_parameters;
          p = (case k of
                 Compress_level \<Rightarrow> p\<lparr>has_compress_level := True\<rparr>
               | Compress_threads \<Rightarrow> p\<lparr>has_compress_threads := True\<rparr>
               | Decompress_threads \<Rightarrow> p\<lparr>has_decompress_threads := True\<rparr>
               | Cpu_throttle_initial \<Rightarrow> p\<lparr>has_cpu_throttle_initial := True\<rparr>
               | Cpu_throttle_increment \<Rightarrow> p\<lparr>has_cpu_throttle_increment := True\<rparr>
               | Tls_creds \<Rightarrow> p\<lparr>has_tls_creds := True, tls_creds := valuestr\<rparr>
               | Tls_hostname \<Rightarrow> p\<lparr>has_tls_hostname := True, tls_hostname := valuestr\<rparr>
               | Max_bandwidth \<Rightarrow> p\<lparr>has_max_bandwidth := True\<rparr>
               | Downtime_limit \<Rightarrow> p\<lparr>has_downtime_limit := True\<rparr>
               | X_checkpoint_delay \<Rightarrow> p\<lparr>has_x_checkpoint_delay := True\<rparr>
               | Other_parameter \<Rightarrow> p)
      in if k = Max_bandwidth then
           (case to_size_arg valuestr of
              None \<Rightarrow> Inl (''Invalid size '' @ valuestr)
            | Some valuebw \<Rightarrow> if 2 ^ 63 - 1 < valuebw then Inl (''Invalid size '' @ valuestr)
                             else Inr (p\<lparr>max_bandwidth := int valuebw\<rparr>))
         else if use_int_value k then
           (case to_int_arg valuestr of
              None \<Rightarrow> Inl (''Unable to parse '' @ quoted valuestr @ '' as an int'')
            | Some v \<Rightarrow> Inr (p\<lparr>compress_level := v, compress_threads := v, decompress_threads := v,
                cpu_throttle_initial := v, cpu_throttle_increment := v, downtime_limit := v, x_checkpoint_delay := v\<rparr>))
         else Inr p)"

definition hmp_migrate_set_parameter ::
  "('a, 'w, 'd) hmp_env \<Rightarrow> (string \<Rightarrow> int option) \<Rightarrow> (string \<Rightarrow> nat option) \<Rightarrow> (migration_parameter \<times> string) list
     \<Rightarrow> string \<Rightarrow> string \<Rightarrow> ('a, 'w) monitors \<Rightarrow> ('a, 'w) monitors"
where
  "hmp_migrate_set_parameter E to_int_arg to_size_arg parameter_names param valuestr s =
     (case List.find (\<lambda>(k, n). param = n) parameter_names of
        None \<Rightarrow> error_report E (invalid_parameter E param) s
      | Some (k, _) \<Rightarrow>
          (case parameters_to_set to_int_arg to_size_arg k valuestr of
             Inl e \<Rightarrow> error_report E e s
           | Inr p \<Rightarrow> run_qmp E (Migration (Migrate_set_parameters p)) s))"

section \<open>The commands keep the contract\<close>

interpretation migrate_cancel: quiet_command "hmp_migrate_cancel"
  by (rule quiet_try) (simp add: hmp_migrate_cancel_def)

interpretation migrate_incoming: quiet_command "\<lambda>E. hmp_migrate_incoming E uri"
  by (rule quiet_qmp) (simp add: hmp_migrate_incoming_def)

interpretation migrate_set_downtime: quiet_command "\<lambda>E. hmp_migrate_set_downtime E val"
  by (rule quiet_try) (simp add: hmp_migrate_set_downtime_def)

interpretation migrate_set_cache_size: quiet_command "\<lambda>E. hmp_migrate_set_cache_size E val"
  by (rule quiet_qmp) (simp add: hmp_migrate_set_cache_size_def)

interpretation migrate_set_speed: quiet_command "\<lambda>E. hmp_migrate_set_speed E val"
  by (rule quiet_try) (simp add: hmp_migrate_set_speed_def)

interpretation migrate_start_postcopy: quiet_command "hmp_migrate_start_postcopy"
  by (rule quiet_qmp) (simp add: hmp_migrate_start_postcopy_def)

interpretation x_colo_lost_heartbeat: quiet_command "hmp_x_colo_lost_heartbeat"
  by (rule quiet_qmp) (simp add: hmp_x_colo_lost_heartbeat_def)

interpretation client_migrate_info: quiet_command "\<lambda>E. hmp_client_migrate_info E protocol hostname port tls_port cert_subject"
  by (rule quiet_qmp) (simp add: hmp_client_migrate_info_def)

end
