(* ===== verification/Hmp_Migrate_Props.thy ===== *)
theory Hmp_Migrate_Props
  imports Hmp_Migrate
begin

text \<open>
  Properties of migration from the human monitor: a migration that is waited for holds the monitor
  suspended exactly until the timer handler sees it ended, and a set command gives the migration
  code exactly the parameter it names.
\<close>

section \<open>Waiting for a migration\<close>

lemma hmp_migrate_suspends:
  assumes "calls_keep E m" "m < length (mons s)" and "hmp_migrate E now detach blk inc uri m s = (t, st)"
  shows "suspends m (if st = None then 0 else 1) s t"
proof -
  obtain u err where q: "qmp E (Migration (Migrate uri (if blk then Some True else None) (if inc then Some True else None))) s = (u, err)"
    by fastforce
  with assms(1,2) have u: "suspends m 0 s u" unfolding calls_keep_def by (metis fst_conv)
  then have m: "m < length (mons u)" by (simp add: suspends_def)
  show ?thesis
  proof (cases err)
    case (Some e)
    then have "t = error_report E e u" "st = None" using assms(3) by (auto simp: hmp_migrate_def q)
    with suspends_then [OF u error_report_keeps] show ?thesis by simp
  next
    case None
    consider "detach" | "\<not> detach" "\<not> has_readline (session_of m u)" | "\<not> detach" "has_readline (session_of m u)" by blast
    then show ?thesis
    proof cases
      case 1
      then have "t = u" "st = None" using assms(3) None by (auto simp: hmp_migrate_def q)
      with u show ?thesis by simp
    next
      case 2
      then have "t = say m (line ''terminal does not allow synchronous migration, continuing detached'') u" "st = None"
        using assms(3) None by (auto simp: hmp_migrate_def q monitor_suspend_def)
      with suspends_then [OF u say_keeps] show ?thesis by simp
    next
      case 3
      then have "t = fst (monitor_suspend m u)" "st \<noteq> None"
        using assms(3) None by (auto simp: hmp_migrate_def q monitor_suspend_def)
      moreover have "suspends m 1 u (fst (monitor_suspend m u))" using m 3 by (simp add: suspends_def)
      ultimately show ?thesis using suspends_trans [OF u] by force
    qed
  qed
qed

text \<open>The answers of \<open>query-migrate\<close> while a migration runs, and one run of the handler per answer.\<close>

type_synonym migrate_answer = "migration_status option \<times> migration_stats option \<times> string option"

definition running :: "migrate_answer \<Rightarrow> bool" where
  "running a \<longleftrightarrow> (case a of (st, disk, _) \<Rightarrow>
     (st = None \<or> st = Some Migration_active \<or> st = Some Migration_setup) \<and>
     (case disk of None \<Rightarrow> True | Some d \<Rightarrow> disk_progress d \<noteq> None))"

fun watch ::
  "('a, 'w, 'd) hmp_env \<Rightarrow> migrate_answer list \<Rightarrow> hmp_migration_status \<Rightarrow> ('a, 'w) monitors
     \<Rightarrow> (('a, 'w) monitors \<times> hmp_migration_status option) option"
where
  "watch E [] st s = Some (s, Some st)"
| "watch E ((status, disk, desc) # as) st s =
     (case hmp_migrate_status_cb E (status_timer st) status disk desc st s of
        None \<Rightarrow> None
      | Some (s, None) \<Rightarrow> Some (s, None)
      | Some (s, Some st) \<Rightarrow> watch E as st s)"

lemma status_cb_running:
  assumes "running (status, disk, desc)" "status_mon st = m" "m < length (mons s)"
  shows "\<exists>t. hmp_migrate_status_cb E now status disk desc st s = Some (t, Some (st\<lparr>status_timer := now + 1000\<rparr>)) \<and>
    suspends m 0 s t"
  using assms say_keeps [of m s m]
  by (cases disk) (auto simp: running_def hmp_migrate_status_cb_def suspends_refl split: option.splits)

lemma status_cb_ended:
  assumes "status = Some x" "x \<noteq> Migration_active" "x \<noteq> Migration_setup" "status_mon st = m" "m < length (mons s)"
  shows "\<exists>t. hmp_migrate_status_cb E now status disk desc st s = Some (monitor_resume m t, None) \<and> suspends m 0 s t"
proof -
  let ?u = "if is_block_migration st then say m [newline] s else s"
  let ?t = "case desc of None \<Rightarrow> ?u | Some e \<Rightarrow> error_report E e ?u"
  have u: "suspends m 0 s ?u" using assms(5) by (simp add: say_keeps suspends_refl)
  then have "m < length (mons ?u)" by (simp only: suspends_def)
  then have "suspends m 0 ?u ?t" by (cases desc) (simp_all only: option.case error_report_keeps suspends_refl)
  from suspends_trans [OF u this] assms show ?thesis
    by (intro exI [of _ ?t]) (simp add: hmp_migrate_status_cb_def Let_def)
qed

lemma watch_running:
  assumes "\<forall>a \<in> set as. running a" "status_mon st = m" "m < length (mons s)"
  shows "\<exists>t st'. (\<forall>bs. watch E (as @ bs) st s = watch E bs st' t) \<and> status_mon st' = m \<and> suspends m 0 s t"
  using assms
proof (induction as arbitrary: st s)
  case Nil
  then show ?case by (auto intro: suspends_refl)
next
  case (Cons a as)
  obtain status disk desc where a: "a = (status, disk, desc)" by (cases a)
  with Cons.prems status_cb_running [of status disk desc st m s E "status_timer st"]
  obtain t where t: "hmp_migrate_status_cb E (status_timer st) status disk desc st s =
      Some (t, Some (st\<lparr>status_timer := status_timer st + 1000\<rparr>))" "suspends m 0 s t" by auto
  then have "m < length (mons t)" by (simp add: suspends_def)
  with Cons.IH [of "st\<lparr>status_timer := status_timer st + 1000\<rparr>" t] Cons.prems
  obtain u st' where u: "\<forall>bs. watch E (as @ bs) (st\<lparr>status_timer := status_timer st + 1000\<rparr>) t = watch E bs st' u"
    "status_mon st' = m" "suspends m 0 t u" by auto
  with t suspends_trans [OF t(2) u(3)] show ?case by (intro exI [of _ u] exI [of _ st']) (simp add: a)
qed

lemma hmp_migrate_status_mon: "hmp_migrate E now detach blk inc uri m s = (t, Some st) \<Longrightarrow> status_mon st = m"
  by (auto simp: hmp_migrate_def Let_def split: prod.splits option.splits if_splits)

lemma resume_prompts:
  "m < length (mons s) \<Longrightarrow> has_readline (session_of m s) \<Longrightarrow> suspend_cnt (session_of m s) = 1 \<Longrightarrow>
    last (sent (session_of m (monitor_resume m s))) = Prompt"
  by (simp add: monitor_resume_def Let_def send_def)

text \<open>C39: A migration started from a human monitor that does not detach keeps this monitor from reading its
  input after the command has returned, through every answer that says that the migration goes on; at the first
  answer that says it has ended, the watching stops, the monitor reads again and shows its prompt.\<close>

theorem migration_holds_monitor:
  assumes keep: "calls_keep E m" and m: "m < length (mons s)" "has_readline (session_of m s)"
    and idle: "monitor_can_read (session_of m s)"
    and start: "hmp_migrate E now False blk inc uri m (fst (monitor_suspend m s)) = (t, Some st)"
    and going: "\<forall>a \<in> set as. running a"
    and ended: "x \<noteq> Migration_active" "x \<noteq> Migration_setup"
  shows "\<exists>u st' v.
    watch E as st (monitor_command_cb (\<lambda>m _ s. fst (hmp_migrate E now False blk inc uri m s)) m cmdline s) = Some (u, Some st') \<and>
    \<not> monitor_can_read (session_of m u) \<and>
    watch E (as @ [(Some x, disk, desc)]) st
      (monitor_command_cb (\<lambda>m _ s. fst (hmp_migrate E now False blk inc uri m s)) m cmdline s) = Some (v, None) \<and>
    monitor_can_read (session_of m v) \<and> last (sent (session_of m v)) = Prompt"
proof -
  let ?s = "fst (monitor_suspend m s)"
  let ?t = "monitor_resume m t"
  have typed: "monitor_command_cb (\<lambda>m _ s. fst (hmp_migrate E now False blk inc uri m s)) m cmdline s = ?t"
    by (simp add: monitor_command_cb_def start)
  have "suspends m 1 ?s t" using hmp_migrate_suspends [OF keep _ start] m by simp
  then have t: "m < length (mons t)" "has_readline (session_of m t)" "suspend_cnt (session_of m t) = 2"
    using m idle by (simp_all add: suspends_def monitor_can_read_def)
  note st = hmp_migrate_status_mon [OF start]
  from t have "m < length (mons ?t)" by simp
  from watch_running [OF going st this, of E] obtain u st' where
    w: "\<forall>bs. watch E (as @ bs) st ?t = watch E bs st' u" "status_mon st' = m" "suspends m 0 ?t u" by blast
  then have u: "m < length (mons u)" "has_readline (session_of m u)" "suspend_cnt (session_of m u) = 1"
    using t by (simp_all add: suspends_def)
  from status_cb_ended [OF refl ended w(2) u(1)] obtain r where
    r: "hmp_migrate_status_cb E (status_timer st') (Some x) disk desc st' u = Some (monitor_resume m r, None)" "suspends m 0 u r"
    by blast
  then have "m < length (mons r)" "has_readline (session_of m r)" "suspend_cnt (session_of m r) = 1"
    using u by (simp_all add: suspends_def)
  then have v: "monitor_can_read (session_of m (monitor_resume m r))" "last (sent (session_of m (monitor_resume m r))) = Prompt"
    by (simp_all add: monitor_can_read_def resume_prompts)
  have "watch E as st ?t = Some (u, Some st')" using spec [OF w(1), of "[]"] by simp
  moreover have "watch E (as @ [(Some x, disk, desc)]) st ?t = Some (monitor_resume m r, None)"
    using spec [OF w(1), of "[(Some x, disk, desc)]"] by (simp add: r)
  moreover have "\<not> monitor_can_read (session_of m u)" using u by (simp add: monitor_can_read_def)
  ultimately show ?thesis unfolding typed using v
    by (intro exI [of _ u] exI [of _ st'] exI [of _ "monitor_resume m r"]) simp
qed

definition demo_hmp :: "(string, nat, nat) hmp_env" where
  "demo_hmp = \<lparr>qmp = (\<lambda>_ s. (s, None)), error_text = line, invalid_parameter = (\<lambda>p. ''Invalid parameter '' @ p),
     missing_parameter = (\<lambda>p. ''Missing parameter '' @ p)\<rparr>"

lemma demo_hmp_keeps: "calls_keep demo_hmp m"
  by (simp add: calls_keep_def demo_hmp_def suspends_def)

abbreviation demo_migrate :: "nat \<Rightarrow> (string, nat) monitors \<Rightarrow> (string, nat) monitors \<times> hmp_migration_status option" where
  "demo_migrate m s \<equiv> hmp_migrate demo_hmp 0 False False False ''tcp:dest:4444'' m s"

theorem migration_holds_monitor_witness:
  "\<exists>v. watch demo_hmp [(Some Migration_setup, None, None), (Some Migration_active, None, None), (Some Migration_failed, None, None)]
      \<lparr>status_mon = 0, is_block_migration = False, status_timer = 0\<rparr>
      (monitor_command_cb (\<lambda>m _ s. fst (demo_migrate m s)) 0 ''migrate tcp:dest:4444'' demo_human) = Some (v, None) \<and>
    monitor_can_read (session_of 0 v)"
proof -
  let ?as = "[(Some Migration_setup, None, None), (Some Migration_active, None, None)] :: migrate_answer list"
  have s: "0 < length (mons demo_human)" "has_readline (session_of 0 demo_human)" "monitor_can_read (session_of 0 demo_human)"
    by (simp_all add: demo_human_def monitor_init_def monitor_read_command_def monitor_data_init_def monitor_can_read_def)
  have start: "demo_migrate 0 (fst (monitor_suspend 0 demo_human)) =
      (fst (monitor_suspend 0 (fst (monitor_suspend 0 demo_human))),
       Some \<lparr>status_mon = 0, is_block_migration = False, status_timer = 0\<rparr>)"
    using s by (simp add: hmp_migrate_def demo_hmp_def monitor_suspend_def)
  have "\<forall>a \<in> set ?as. running a" by (simp add: running_def)
  from migration_holds_monitor [where x = Migration_failed and disk = None and desc = None and cmdline = "''migrate tcp:dest:4444''",
      OF demo_hmp_keeps s start this]
  show ?thesis by auto
qed

section \<open>Capabilities and parameters\<close>

lemma first_index_nth: "distinct ns \<Longrightarrow> i < length ns \<Longrightarrow> first_index (ns ! i) ns = Some i"
proof (induction ns arbitrary: i)
  case (Cons n ns)
  then show ?case by (cases i) auto
qed simp

lemma first_index_none: "first_index x ns = None \<longleftrightarrow> x \<notin> set ns"
  by (induction ns) auto

lemma set_capability_by_name:
  "distinct names \<Longrightarrow> i < length names \<Longrightarrow>
    hmp_migrate_set_capability E names (names ! i) on s = run_qmp E (Migration (Migrate_set_capabilities [(i, on)])) s"
  "cap \<notin> set names \<Longrightarrow> hmp_migrate_set_capability E names cap on s = error_report E (invalid_parameter E cap) s"
  by (simp_all add: hmp_migrate_set_capability_def first_index_nth iffD2 [OF first_index_none])

text \<open>What the migration code reads of a call: the parameters that are given, with their values.\<close>

definition given_parameters :: "migration_parameters \<Rightarrow> (migration_parameter \<times> (string + int)) list" where
  "given_parameters p =
     (if has_compress_level p then [(Compress_level, Inr (compress_level p))] else []) @
     (if has_compress_threads p then [(Compress_threads, Inr (compress_threads p))] else []) @
     (if has_decompress_threads p then [(Decompress_threads, Inr (decompress_threads p))] else []) @
     (if has_cpu_throttle_initial p then [(Cpu_throttle_initial, Inr (cpu_throttle_initial p))] else []) @
     (if has_cpu_throttle_increment p then [(Cpu_throttle_increment, Inr (cpu_throttle_increment p))] else []) @
     (if has_tls_creds p then [(Tls_creds, Inl (tls_creds p))] else []) @
     (if has_tls_hostname p then [(Tls_hostname, Inl (tls_hostname p))] else []) @
     (if has_max_bandwidth p then [(Max_bandwidth, Inr (max_bandwidth p))] else []) @
     (if has_downtime_limit p then [(Downtime_limit, Inr (downtime_limit p))] else []) @
     (if has_x_checkpoint_delay p then [(X_checkpoint_delay, Inr (x_checkpoint_delay p))] else [])"

text \<open>The value a text stands for, by the kind of the parameter.\<close>

definition parameter_value ::
  "(string \<Rightarrow> int option) \<Rightarrow> (string \<Rightarrow> nat option) \<Rightarrow> migration_parameter \<Rightarrow> string \<Rightarrow> (string + int) option"
where
  "parameter_value to_int_arg to_size_arg k v =
     (if k = Tls_creds \<or> k = Tls_hostname then Some (Inl v)
      else if k = Max_bandwidth then
        (case to_size_arg v of Some n \<Rightarrow> if n < 2 ^ 63 then Some (Inr (int n)) else None | None \<Rightarrow> None)
      else map_option Inr (to_int_arg v))"

lemma parameters_to_set_gives:
  assumes "k \<noteq> Other_parameter"
  shows "case parameters_to_set to_int_arg to_size_arg k v of
      Inl e \<Rightarrow> parameter_value to_int_arg to_size_arg k v = None
    | Inr p \<Rightarrow> \<exists>x. parameter_value to_int_arg to_size_arg k v = Some x \<and> given_parameters p = [(k, x)]"
  using assms
  by (cases k) (auto simp: parameters_to_set_def parameter_value_def given_parameters_def no_parameters_def use_int_value_def
    split: option.splits)

lemma unknown_parameter_reported:
  assumes "param \<notin> snd ` set names"
  shows "hmp_migrate_set_parameter E to_int_arg to_size_arg names param v s = error_report E (invalid_parameter E param) s"
proof -
  from assms have "List.find (\<lambda>(k, n). param = n) names = None" by (force simp: find_None_iff)
  then show ?thesis by (simp add: hmp_migrate_set_parameter_def)
qed

text \<open>Setting a migration parameter by name gives the migration code exactly this parameter with the value
  of the text, whatever the generated table of names contains; a text that stands for no value is reported and
  nothing is set.\<close>

theorem set_parameter_gives_one:
  assumes "distinct (map snd names)" and "(k, param) \<in> set names" and "k \<noteq> Other_parameter"
  shows "case parameter_value to_int_arg to_size_arg k v of
      None \<Rightarrow> \<exists>e. hmp_migrate_set_parameter E to_int_arg to_size_arg names param v s = error_report E e s
    | Some x \<Rightarrow> \<exists>p. hmp_migrate_set_parameter E to_int_arg to_size_arg names param v s =
        run_qmp E (Migration (Migrate_set_parameters p)) s \<and> given_parameters p = [(k, x)]"
proof -
  have "List.find (\<lambda>(k, n). param = n) names = Some (k, param)"
    using assms(1,2) by (induction names) (auto simp: image_iff split: prod.splits)
  with parameters_to_set_gives [OF assms(3), of to_int_arg to_size_arg v]
  show "case parameter_value to_int_arg to_size_arg k v of
      None \<Rightarrow> \<exists>e. hmp_migrate_set_parameter E to_int_arg to_size_arg names param v s = error_report E e s
    | Some x \<Rightarrow> \<exists>p. hmp_migrate_set_parameter E to_int_arg to_size_arg names param v s =
        run_qmp E (Migration (Migrate_set_parameters p)) s \<and> given_parameters p = [(k, x)]"
    by (auto simp: hmp_migrate_set_parameter_def split: sum.splits)
qed

definition demo_parameters :: "(migration_parameter \<times> string) list" where
  "demo_parameters = [(Compress_level, ''compress-level''), (Max_bandwidth, ''max-bandwidth''), (Tls_creds, ''tls-creds'')]"

theorem set_parameter_gives_one_witness:
  "\<exists>p. hmp_migrate_set_parameter demo_hmp (\<lambda>_. None) (\<lambda>v. if v = ''1'' then Some 1048576 else None) demo_parameters
      ''max-bandwidth'' ''1'' demo_human = run_qmp demo_hmp (Migration (Migrate_set_parameters p)) demo_human \<and>
    given_parameters p = [(Max_bandwidth, Inr 1048576)]"
  using set_parameter_gives_one [where names = demo_parameters and k = Max_bandwidth and param = "''max-bandwidth''"
      and to_int_arg = "\<lambda>_. None" and to_size_arg = "\<lambda>v. if v = ''1'' then Some 1048576 else None" and v = "''1''"
      and E = demo_hmp and s = demo_human]
  by (simp add: demo_parameters_def parameter_value_def)

end
