(* ===== verification/Hmp_Keys.thy ===== *)
theory Hmp_Keys
  imports Hmp_Base
begin

text \<open>
  Text the human monitor translates (\<open>hmp.c\<close>): the keys of \<open>sendkey\<close> and the contents of a ring
  buffer. The key codes are generated code: \<open>index_from_key\<close> gives the code of a name, \<open>None\<close> for
  \<open>Q_KEY_CODE__MAX\<close>.
\<close>

section \<open>Keys\<close>

text \<open>How far \<open>strtoul\<close> reads a text that starts with \<open>0x\<close>: only the 0 without a digit behind.\<close>

definition number_end :: "string \<Rightarrow> nat" where
  "number_end s =
     (let n = length (takeWhile (\<lambda>c. digit_val 16 c \<noteq> None) (drop 2 s)) in if n = 0 then 1 else 2 + n)"

datatype sendkey_result = Keys "key_value list" | Invalid_key string | Assertion

text \<open>One round: the key named by the first \<open>keyname_len\<close> characters of \<open>keys\<close>.\<close>

definition sendkey_one :: "(string \<Rightarrow> nat option) \<Rightarrow> string \<Rightarrow> nat \<Rightarrow> sendkey_result" where
  "sendkey_one index_from_key keys keyname_len =
     (if take 2 keys = ''0x'' then
        let endp = number_end keys
        in if keyname_len < endp then Assertion
           else if endp \<noteq> keyname_len then Invalid_key (take keyname_len keys)
           else Keys [Key_number (low_int (uint (strtoul 16 keys)))]
      else case index_from_key (take keyname_len keys) of
             None \<Rightarrow> Invalid_key (take keyname_len keys)
           | Some idx \<Rightarrow> Keys [Key_qcode idx])"

text \<open>\<open>acc\<close> is the list built so far.\<close>

function sendkey_loop :: "(string \<Rightarrow> nat option) \<Rightarrow> key_value list \<Rightarrow> string \<Rightarrow> sendkey_result" where
  "sendkey_loop index_from_key acc keys =
     (let n = length (takeWhile (\<lambda>c. c \<noteq> CHR ''-'') keys);
          (key, keyname_len) = (if take 1 keys = ''<'' \<and> n = 1 then (''less'', 4) else (keys, n))
      in case sendkey_one index_from_key key keyname_len of
           Keys v \<Rightarrow> if n < length keys then sendkey_loop index_from_key (acc @ v) (drop (n + 1) keys)
                    else Keys (acc @ v)
         | r \<Rightarrow> r)"
  by pat_completeness auto
termination
  by (relation "measure (\<lambda>(f, acc, keys). length keys)") auto

declare sendkey_loop.simps [simp del]

text \<open>\<open>None\<close> is a failed assertion.\<close>

definition hmp_sendkey ::
  "('a, 'w, 'd) hmp_env \<Rightarrow> (string \<Rightarrow> nat option) \<Rightarrow> string \<Rightarrow> int option \<Rightarrow> nat \<Rightarrow> ('a, 'w) monitors
     \<Rightarrow> ('a, 'w) monitors option"
where
  "hmp_sendkey E index_from_key keys hold_time m s =
     (case sendkey_loop index_from_key [] keys of
        Keys keylist \<Rightarrow> Some (run_qmp E (Console (Send_key keylist (map_option low_int hold_time))) s)
      | Invalid_key k \<Rightarrow> Some (say m (line (''invalid parameter: '' @ k)) s)
      | Assertion \<Rightarrow> None)"

section \<open>Ring buffers\<close>

definition upper_hex :: "char \<Rightarrow> char" where
  "upper_hex c = (if c \<in> {CHR ''a'', CHR ''b'', CHR ''c'', CHR ''d'', CHR ''e'', CHR ''f''} then char_of (of_char c - (32 :: nat)) else c)"

definition ringbuf_char :: "char \<Rightarrow> string" where
  "ringbuf_char ch =
     (if ch = CHR 0x5C then [CHR 0x5C, CHR 0x5C]
      else if of_char ch < (0x20 :: nat) \<and> ch \<noteq> CHR 0x0A \<and> ch \<noteq> CHR 0x09 \<or> ch = CHR 0x7F
      then CHR 0x5C # ''u'' @ map upper_hex (pad CHR ''0'' 4 (show_base 16 (of_char ch)))
      else [ch])"

text \<open>
  \<open>qmp_ringbuf_read\<close> gives the data, up to its terminating 0, or an error. The characters are printed
  one by one.
\<close>

definition hmp_ringbuf_read ::
  "('a, 'w, 'd) hmp_env \<Rightarrow> (string \<Rightarrow> u32 \<Rightarrow> string + string) \<Rightarrow> int \<Rightarrow> string \<Rightarrow> nat \<Rightarrow> ('a, 'w) monitors \<Rightarrow> ('a, 'w) monitors"
where
  "hmp_ringbuf_read E ringbuf sz chardev m s =
     (case ringbuf chardev (word_of_int sz) of
        Inl e \<Rightarrow> error_report E e s
      | Inr data \<Rightarrow> say m [newline] (foldl (\<lambda>s ch. say m (ringbuf_char ch) s) s (takeWhile (\<lambda>c. c \<noteq> CHR 0x00) data)))"

end
