(* ===== verification/Hmp_Keys_Props.thy ===== *)
theory Hmp_Keys_Props
  imports Hmp_Keys Hmp_Migrate_Props
begin

text \<open>
  Properties of the translations: \<open>sendkey\<close> presses exactly the keys its argument joins by hyphens, and
  nothing when one of them is unknown; the text of a ring buffer can be read back.
\<close>

section \<open>Keys\<close>

text \<open>What one word between the hyphens means.\<close>

definition key_word :: "string \<Rightarrow> string" where
  "key_word w = (if w = ''<'' then ''less'' else w)"

definition key_meaning :: "(string \<Rightarrow> nat option) \<Rightarrow> string \<Rightarrow> key_value option" where
  "key_meaning index_from_key w =
     (let k = key_word w
      in if take 2 k = ''0x'' then
           if drop 2 k \<noteq> [] \<and> (\<forall>c \<in> set (drop 2 k). digit_val 16 c \<noteq> None)
           then Some (Key_number (low_int (uint (strtoul 16 k)))) else None
         else map_option Key_qcode (index_from_key k))"

fun join_keys :: "string list \<Rightarrow> string" where
  "join_keys [] = []"
| "join_keys [w] = w"
| "join_keys (w # ws) = w @ CHR ''-'' # join_keys ws"

lemma hyphen_no_digit: "digit_val 16 CHR ''-'' = None"
  by (simp add: digit_val_def)

lemma read_hex_stop: "read_digits b acc (w @ CHR ''-'' # r) = read_digits b acc w" if "b = 16"
  using that by (induction b acc w rule: read_digits.induct) (auto simp: hyphen_no_digit split: option.split)

lemma strtoul_stop:
  assumes "take 2 w = ''0x''" "drop 2 w \<noteq> []" "digit_val 16 (List.hd (drop 2 w)) \<noteq> None"
  shows "strtoul 16 (w @ CHR ''-'' # r) = strtoul 16 w"
proof -
  from assms obtain d v where "w = CHR ''0'' # CHR ''x'' # d # v" "digit_val 16 d \<noteq> None"
    by (cases w rule: remdups_adj.cases) (auto simp: neq_Nil_conv)
  then show ?thesis
    using read_hex_stop [of 16 0 "d # v" r] by (simp add: strtoul_def read_number_def isspace_c_def)
qed

lemma takeWhile_stop:
  assumes "t = [] \<or> (\<exists>r. t = c # r)" and "\<not> P c"
  shows "takeWhile P (v @ t) = takeWhile P v"
  using assms by (induction v) auto

lemma number_end_word:
  assumes "t = [] \<or> (\<exists>r. t = CHR ''-'' # r)" and "2 \<le> length w"
  shows "number_end (w @ t) = (let n = length (takeWhile (\<lambda>c. digit_val 16 c \<noteq> None) (drop 2 w)) in if n = 0 then 1 else 2 + n)"
  using takeWhile_stop [OF assms(1), of "\<lambda>c. digit_val 16 c \<noteq> None" "drop 2 w"] assms(2)
  by (simp add: number_end_def hyphen_no_digit)

lemma takeWhile_length_all: "length (takeWhile P v) = length v \<longleftrightarrow> (\<forall>c \<in> set v. P c)"
  by (metis takeWhile_eq_all_conv append_Nil2 append_eq_append_conv takeWhile_dropWhile_id)

lemma number_word:
  assumes "take 2 w = ''0x''" and "t = [] \<or> (\<exists>r. t = CHR ''-'' # r)"
  shows "sendkey_one index_from_key (w @ t) (length w) =
    (if drop 2 w \<noteq> [] \<and> (\<forall>c \<in> set (drop 2 w). digit_val 16 c \<noteq> None)
     then Keys [Key_number (low_int (uint (strtoul 16 w)))] else Invalid_key w)"
proof -
  define n where "n = length (takeWhile (\<lambda>c. digit_val 16 c \<noteq> None) (drop 2 w))"
  have l: "2 \<le> length w" using arg_cong [OF assms(1), of length] by simp
  then have z: "take 2 (w @ t) = ''0x''" using assms(1) by simp
  have n: "n \<le> length w - 2" using length_takeWhile_le [of _ "drop 2 w"] by (simp add: n_def)
  have e: "number_end (w @ t) = (if n = 0 then 1 else 2 + n)"
    using number_end_word [OF assms(2) l] by (simp only: n_def Let_def)
  have all: "(\<forall>c \<in> set (drop 2 w). digit_val 16 c \<noteq> None) \<longleftrightarrow> n = length w - 2"
    using takeWhile_length_all [of "\<lambda>c. digit_val 16 c \<noteq> None" "drop 2 w"] by (simp only: n_def length_drop)
  have ne: "drop 2 w \<noteq> [] \<longleftrightarrow> length w \<noteq> 2" using l by simp
  show ?thesis
  proof (cases "drop 2 w \<noteq> [] \<and> (\<forall>c \<in> set (drop 2 w). digit_val 16 c \<noteq> None)")
    case True
    with l e all ne have "number_end (w @ t) = length w" by (simp split: if_splits)
    moreover have "strtoul 16 (w @ t) = strtoul 16 w"
      using assms(2) strtoul_stop [OF assms(1)] True by (auto simp: hd_in_set)
    ultimately have "sendkey_one index_from_key (w @ t) (length w) = Keys [Key_number (low_int (uint (strtoul 16 w)))]"
      using z by (simp add: sendkey_one_def)
    then show ?thesis unfolding if_P [OF True] .
  next
    case False
    with all ne have "n \<noteq> length w - 2 \<or> length w = 2" by blast
    with n l e have "number_end (w @ t) \<noteq> length w" "number_end (w @ t) \<le> length w" by (simp_all split: if_splits) linarith+
    then have "sendkey_one index_from_key (w @ t) (length w) = Invalid_key w" using z by (simp add: sendkey_one_def)
    then show ?thesis unfolding if_not_P [OF False] .
  qed
qed

lemma sendkey_one_word:
  assumes "CHR ''-'' \<notin> set w" and "t = [] \<or> (\<exists>r. t = CHR ''-'' # r)"
  shows "sendkey_one index_from_key (w @ t) (length w) =
    (if take 2 w = ''0x'' then
       if drop 2 w \<noteq> [] \<and> (\<forall>c \<in> set (drop 2 w). digit_val 16 c \<noteq> None)
       then Keys [Key_number (low_int (uint (strtoul 16 w)))] else Invalid_key w
     else case index_from_key w of None \<Rightarrow> Invalid_key w | Some i \<Rightarrow> Keys [Key_qcode i])"
proof (cases "take 2 w = ''0x''")
  case True
  with number_word [OF True assms(2)] show ?thesis by simp
next
  case False
  then have "take 2 (w @ t) \<noteq> ''0x''" using assms(2) by (cases w rule: remdups_adj.cases) auto
  with False show ?thesis by (simp add: sendkey_one_def split: option.split)
qed

lemma sendkey_word:
  assumes "CHR ''-'' \<notin> set w" and "t = [] \<or> (\<exists>r. t = CHR ''-'' # r)"
  shows "sendkey_loop index_from_key acc (w @ t) =
    (case key_meaning index_from_key w of
       None \<Rightarrow> Invalid_key (key_word w)
     | Some v \<Rightarrow> if t = [] then Keys (acc @ [v]) else sendkey_loop index_from_key (acc @ [v]) (tl t))"
proof -
  have n: "length (takeWhile (\<lambda>c. c \<noteq> CHR ''-'') (w @ t)) = length w"
    using takeWhile_stop [OF assms(2), of "\<lambda>c. c \<noteq> CHR ''-''" w] takeWhile_length_all [of "\<lambda>c. c \<noteq> CHR ''-''" w] assms(1)
    by auto
  have lt: "take 1 (w @ t) = ''<'' \<and> length w = 1 \<longleftrightarrow> w = ''<''" by (cases w) auto
  have one: "sendkey_one index_from_key (key_word w @ (if w = ''<'' then [] else t)) (length (key_word w)) =
    (case key_meaning index_from_key w of None \<Rightarrow> Invalid_key (key_word w) | Some v \<Rightarrow> Keys [v])"
    using sendkey_one_word [of "key_word w" "if w = ''<'' then [] else t"] assms
    by (auto simp: key_meaning_def Let_def key_word_def split: option.split)
  have rest: "drop (length w + 1) (w @ t) = tl t" by (cases t) auto
  show ?thesis
  proof (cases "w = ''<''")
    case True
    with one have "sendkey_one index_from_key ''less'' 4 =
        (case key_meaning index_from_key w of None \<Rightarrow> Invalid_key (key_word w) | Some v \<Rightarrow> Keys [v])"
      by (simp add: key_word_def numeral_eq_Suc)
    then show ?thesis
      unfolding sendkey_loop.simps [of _ _ "w @ t"] n lt Let_def rest if_P [OF True] prod.case
      by (cases t) (simp_all split: option.split)
  next
    case False
    with one have "sendkey_one index_from_key (w @ t) (length w) =
        (case key_meaning index_from_key w of None \<Rightarrow> Invalid_key (key_word w) | Some v \<Rightarrow> Keys [v])"
      by (simp add: key_word_def)
    then show ?thesis
      unfolding sendkey_loop.simps [of _ _ "w @ t"] n lt Let_def rest if_not_P [OF False] prod.case
      by (cases t) (simp_all split: option.split)
  qed
qed

lemma sendkey_loop_join:
  assumes "ws \<noteq> []" and "\<forall>w \<in> set ws. CHR ''-'' \<notin> set w"
  shows "sendkey_loop index_from_key acc (join_keys ws) =
    (case List.find (\<lambda>w. key_meaning index_from_key w = None) ws of
       Some w \<Rightarrow> Invalid_key (key_word w)
     | None \<Rightarrow> Keys (acc @ map (\<lambda>w. the (key_meaning index_from_key w)) ws))"
  using assms
proof (induction ws arbitrary: acc rule: join_keys.induct)
  case (2 w)
  then show ?case using sendkey_word [of w "[]"] by (auto split: option.splits)
next
  case (3 w v ws)
  have IH: "sendkey_loop index_from_key acc' (join_keys (v # ws)) = (case List.find (\<lambda>w. key_meaning index_from_key w = None) (v # ws) of
       Some w \<Rightarrow> Invalid_key (key_word w)
     | None \<Rightarrow> Keys (acc' @ map (\<lambda>w. the (key_meaning index_from_key w)) (v # ws)))" for acc'
    using "3.prems"(2) by (intro "3.IH") simp_all
  have w: "CHR ''-'' \<notin> set w" using "3.prems"(2) by simp
  show ?case
  proof (cases "key_meaning index_from_key w")
    case None
    with sendkey_word [OF w, of "CHR ''-'' # join_keys (v # ws)"] show ?thesis by simp
  next
    case (Some k)
    with sendkey_word [OF w, of "CHR ''-'' # join_keys (v # ws)"] IH [of "acc @ [k]"] show ?thesis
      by (simp split: option.splits)
  qed
qed simp

text \<open>C40: The keys of a \<open>sendkey\<close> command are the words its argument joins by hyphens, each a name, a number in
  hexadecimal or the sign that is short for less; they are pressed in this order in one call, but when one of
  them is no key, nothing is pressed and the first such word is printed. No assertion fails.\<close>

theorem sendkey_presses_words:
  assumes "ws \<noteq> []" and "\<forall>w \<in> set ws. CHR ''-'' \<notin> set w"
  shows "hmp_sendkey E index_from_key (join_keys ws) hold_time m s = Some (
    case List.find (\<lambda>w. key_meaning index_from_key w = None) ws of
      Some w \<Rightarrow> say m (line (''invalid parameter: '' @ key_word w)) s
    | None \<Rightarrow> run_qmp E (Console (Send_key (map (\<lambda>w. the (key_meaning index_from_key w)) ws) (map_option low_int hold_time))) s)"
  by (simp add: hmp_sendkey_def sendkey_loop_join [OF assms] split: option.split)

definition demo_keys :: "string \<Rightarrow> nat option" where
  "demo_keys w = (if w = ''ctrl'' then Some 29 else if w = ''less'' then Some 86 else None)"

theorem sendkey_presses_words_witness:
  "hmp_sendkey demo_hmp demo_keys ''ctrl-<-0x1f'' None 0 demo_human =
    Some (run_qmp demo_hmp (Console (Send_key [Key_qcode 29, Key_qcode 86, Key_number 31] None)) demo_human) \<and>
   hmp_sendkey demo_hmp demo_keys ''ctrl-0xg'' None 0 demo_human =
    Some (say 0 (line ''invalid parameter: 0xg'') demo_human)"
  using sendkey_presses_words [of "[''ctrl'', ''<'', ''0x1f'']" demo_hmp demo_keys None 0 demo_human]
    sendkey_presses_words [of "[''ctrl'', ''0xg'']" demo_hmp demo_keys None 0 demo_human]
  by (simp add: key_meaning_def key_word_def demo_keys_def digit_val_def strtoul_def read_number_def isspace_c_def low_int_def)

section \<open>Ring buffers\<close>

text \<open>Reading the text back.\<close>

function unescape :: "string \<Rightarrow> string" where
  "unescape [] = []"
| "unescape (c # cs) =
     (if c \<noteq> CHR 0x5C then c # unescape cs
      else if take 1 cs = [CHR 0x5C] then CHR 0x5C # unescape (drop 1 cs)
      else char_of (read_digits 16 0 (take 4 (drop 1 cs))) # unescape (drop 5 cs))"
  by pat_completeness auto
termination
  by (relation "measure length") auto

lemma upper_hex_digit: "d < 16 \<Longrightarrow> digit_val 16 (upper_hex (digit_char d)) = Some d"
  proof -
  have "\<forall>d \<in> set [0 ..< 16]. digit_val 16 (upper_hex (digit_char d)) = Some d"
    by (simp add: upt_rec digit_char_def upper_hex_def digit_val_def)
  then show "d < 16 \<Longrightarrow> digit_val 16 (upper_hex (digit_char d)) = Some d" by simp
qed

lemma escape_digits:
  assumes "n < 256"
  shows "map upper_hex (pad CHR ''0'' 4 (show_base 16 n)) =
    [CHR ''0'', CHR ''0'', upper_hex (digit_char (n div 16)), upper_hex (digit_char (n mod 16))]"
proof (cases "n < 16")
  case True
  then show ?thesis by (simp add: show_base.simps [of 16 n] pad_def upper_hex_def numeral_3_eq_3 digit_char_def)
next
  case False
  with assms have "show_base 16 n = [digit_char (n div 16), digit_char (n mod 16)]"
    by (simp add: show_base.simps [of 16 n] show_base.simps [of 16 "n div 16"] div_less_iff_less_mult)
  then show ?thesis by (simp add: pad_def upper_hex_def numeral_2_eq_2)
qed

lemma zero_digit: "digit_val 16 CHR ''0'' = Some 0"
  by (simp add: digit_val_def)

lemma unescape_char: "unescape (ringbuf_char c @ r) = c # unescape r"
proof -
  have n: "(of_char c :: nat) < 256" by (simp add: nat_of_char_less_256)
  then have "(of_char c :: nat) div 16 < 16" "(of_char c :: nat) mod 16 < 16" by (simp_all add: div_less_iff_less_mult)
  then have v: "read_digits 16 0 [CHR ''0'', CHR ''0'', upper_hex (digit_char (of_char c div 16)), upper_hex (digit_char (of_char c mod 16))] = of_char c"
    by (simp add: upper_hex_digit zero_digit)
  show ?thesis using v by (auto simp: ringbuf_char_def escape_digits [OF n] zero_digit)
qed

lemma unescape_escaped: "unescape (concat (map ringbuf_char data) @ r) = data @ unescape r"
  by (induction data) (simp_all add: unescape_char)

text \<open>What a session was sent as text.\<close>

definition session_text :: "'a session \<Rightarrow> string" where
  "session_text d = concat (map message_text (sent d))"

lemma say_text:
  assumes "m < length (mons s)" "\<not> use_control (session_of m s)"
  shows "session_text (session_of m (say m t s)) = session_text (session_of m s) @ t"
    "m < length (mons (say m t s))" "\<not> use_control (session_of m (say m t s))"
  using assms by (simp_all add: say_def print_text_def send_def session_text_def message_text_def)

lemma say_all_text:
  assumes "m < length (mons s)" "\<not> use_control (session_of m s)"
  shows "session_text (session_of m (foldl (\<lambda>s ch. say m (f ch) s) s data)) = session_text (session_of m s) @ concat (map f data) \<and>
    m < length (mons (foldl (\<lambda>s ch. say m (f ch) s) s data)) \<and>
    \<not> use_control (session_of m (foldl (\<lambda>s ch. say m (f ch) s) s data))"
  using assms by (induction data arbitrary: s) (simp_all add: say_text)

text \<open>Whatever bytes a ring buffer holds, the text the monitor prints for it tells them exactly: undoing
  the escapes gives the data up to the first 0, followed by the newline.\<close>

theorem ringbuf_read_back:
  assumes "m < length (mons s)" "\<not> use_control (session_of m s)"
    and "ringbuf chardev (word_of_int sz) = Inr data"
  shows "\<exists>t. session_text (session_of m (hmp_ringbuf_read E ringbuf sz chardev m s)) = session_text (session_of m s) @ t \<and>
    unescape t = takeWhile (\<lambda>c. c \<noteq> CHR 0x00) data @ [newline]"
  using say_all_text [OF assms(1,2), of ringbuf_char "takeWhile (\<lambda>c. c \<noteq> CHR 0x00) data"]
  by (simp add: hmp_ringbuf_read_def assms(3) say_text unescape_escaped)

theorem ringbuf_read_back_witness:
  "\<exists>t. session_text (session_of 0 (hmp_ringbuf_read demo_hmp (\<lambda>_ _. Inr [CHR 0x1B, CHR 0x5C, CHR ''u'']) 3 ''ring'' 0 demo_human)) =
      session_text (session_of 0 demo_human) @ t \<and> unescape t = [CHR 0x1B, CHR 0x5C, CHR ''u'', newline]"
proof -
  have "0 < length (mons demo_human)" "\<not> use_control (session_of 0 demo_human)"
    by (simp_all add: demo_human_def monitor_init_def monitor_read_command_def monitor_data_init_def send_def)
  from ringbuf_read_back [OF this, of "\<lambda>_ _. Inr [CHR 0x1B, CHR 0x5C, CHR ''u'']" "''ring''" 3 _ demo_hmp] show ?thesis by simp
qed

end
