(* ===== verification/Hmp_Block.thy ===== *)
theory Hmp_Block
  imports Hmp_Base
begin

text \<open>
  Block devices from the human monitor (\<open>hmp.c\<close>): mirrors, backups and snapshots, changing a medium,
  continuing with keys that are missing, the NBD server, dumping the guest's memory, the options of
  objects and network backends, and what \<open>info block\<close> prints.
\<close>

section \<open>Mirrors, backups and snapshots\<close>

text \<open>\<open>qdict_get_str\<close> aborts without the key, so the target is given; the test of the code stays.\<close>

definition image_mode :: "bool option \<Rightarrow> new_image_mode" where
  "image_mode reuse = (if reuse = Some True then Image_existing else Image_absolute_paths)"

definition sync_mode :: "bool option \<Rightarrow> mirror_sync" where
  "sync_mode full = (if full = Some True then Sync_full else Sync_top)"

definition hmp_drive_mirror ::
  "('a, 'w, 'd) hmp_env \<Rightarrow> string \<Rightarrow> string option \<Rightarrow> string option \<Rightarrow> bool option \<Rightarrow> bool option
     \<Rightarrow> ('a, 'w) monitors \<Rightarrow> ('a, 'w) monitors"
where
  "hmp_drive_mirror E device filename format reuse full s =
     (case filename of
        None \<Rightarrow> hmp_handle_error E (Some (missing_parameter E ''target'')) s
      | Some target \<Rightarrow> run_qmp E (Image (Drive_mirror device target format (sync_mode full) (image_mode reuse) True)) s)"

definition hmp_drive_backup ::
  "('a, 'w, 'd) hmp_env \<Rightarrow> string \<Rightarrow> string option \<Rightarrow> string option \<Rightarrow> bool option \<Rightarrow> bool option \<Rightarrow> bool option
     \<Rightarrow> ('a, 'w) monitors \<Rightarrow> ('a, 'w) monitors"
where
  "hmp_drive_backup E device filename format reuse full compress s =
     (case filename of
        None \<Rightarrow> hmp_handle_error E (Some (missing_parameter E ''target'')) s
      | Some target \<Rightarrow>
          run_qmp E (Image (Drive_backup device target format (sync_mode full) (image_mode reuse)
            (if compress = Some True then Some True else None))) s)"

definition hmp_snapshot_blkdev ::
  "('a, 'w, 'd) hmp_env \<Rightarrow> string \<Rightarrow> string option \<Rightarrow> string option \<Rightarrow> bool option \<Rightarrow> ('a, 'w) monitors \<Rightarrow> ('a, 'w) monitors"
where
  "hmp_snapshot_blkdev E device filename format reuse s =
     (case filename of
        None \<Rightarrow> hmp_handle_error E (Some (missing_parameter E ''snapshot-file'')) s
      | Some snapshot \<Rightarrow> run_qmp E (Image (Snapshot_sync device snapshot format (image_mode reuse))) s)"

definition hmp_snapshot_blkdev_internal ::
  "('a, 'w, 'd) hmp_env \<Rightarrow> string \<Rightarrow> string \<Rightarrow> ('a, 'w) monitors \<Rightarrow> ('a, 'w) monitors"
where
  "hmp_snapshot_blkdev_internal E device name = run_qmp E (Image (Snapshot_internal device name))"

definition hmp_snapshot_delete_blkdev_internal ::
  "('a, 'w, 'd) hmp_env \<Rightarrow> string \<Rightarrow> string \<Rightarrow> string option \<Rightarrow> ('a, 'w) monitors \<Rightarrow> ('a, 'w) monitors"
where
  "hmp_snapshot_delete_blkdev_internal E device name i = run_qmp E (Image (Snapshot_delete_internal device i name))"

section \<open>Continuing and changing media\<close>

text \<open>
  The steps of asking for a key: \<open>cb\<close> is the completion, called with the result; asking for a
  password switches the line editor over.
\<close>

fun key_steps ::
  "(int \<Rightarrow> ('a, 'w) monitors \<Rightarrow> ('a, 'w) monitors) \<Rightarrow> nat \<Rightarrow> key_step list \<Rightarrow> ('a, 'w) monitors \<Rightarrow> ('a, 'w) monitors"
where
  "key_steps cb m [] s = s"
| "key_steps cb m (Said t # ks) s = key_steps cb m ks (say m t s)"
| "key_steps cb m (Asked_password # ks) s = key_steps cb m ks s"
| "key_steps cb m (Completed r # ks) s = key_steps cb m ks (cb r s)"
| "key_steps cb m (Command_prompt # ks) s = key_steps cb m ks (upd_session m (monitor_read_command True) s)"

type_synonym media = "string \<Rightarrow> (string \<times> string \<times> bool) option option"

definition hmp_cont_cb :: "('a, 'w, 'd) hmp_env \<Rightarrow> int \<Rightarrow> ('a, 'w) monitors \<Rightarrow> ('a, 'w) monitors" where
  "hmp_cont_cb E err s = (if err = 0 then try_qmp E (Machine Cont) s else s)"

text \<open>A block device: its name and, with a medium, whether the key of the medium is missing.\<close>

definition key_is_missing :: "string \<times> bool option \<Rightarrow> bool" where
  "key_is_missing bdev \<longleftrightarrow> snd bdev = Some True"

definition hmp_cont ::
  "('a, 'w, 'd) hmp_env \<Rightarrow> (string \<times> bool option) list \<Rightarrow> media \<Rightarrow> nat \<Rightarrow> ('a, 'w) monitors \<Rightarrow> ('a, 'w) monitors"
where
  "hmp_cont E bdev_list media m s =
     (case List.find key_is_missing bdev_list of
        Some bdev \<Rightarrow>
          key_steps (hmp_cont_cb E) m
            (fst (monitor_read_block_device_key media (has_readline (session_of m s)) True (fst bdev))) s
      | None \<Rightarrow> run_qmp E (Machine Cont) s)"

definition hmp_change_read_arg :: "('a, 'w, 'd) hmp_env \<Rightarrow> string \<Rightarrow> nat \<Rightarrow> ('a, 'w) monitors \<Rightarrow> ('a, 'w) monitors" where
  "hmp_change_read_arg E password m s =
     upd_session m (monitor_read_command True) (try_qmp E (Console (Change_vnc_password password)) s)"

text \<open>
  \<open>parse\<close> reads the read-only mode, \<open>encrypted\<close> tells the errors of the class \<open>DeviceEncrypted\<close>. The
  flag returned is whether a password is being asked for on behalf of VNC.
\<close>

definition hmp_change ::
  "('a, 'w, 'd) hmp_env \<Rightarrow> (string \<Rightarrow> string + nat) \<Rightarrow> (string \<Rightarrow> bool) \<Rightarrow> media \<Rightarrow> string \<Rightarrow> string \<Rightarrow> string option
     \<Rightarrow> string option \<Rightarrow> nat \<Rightarrow> ('a, 'w) monitors \<Rightarrow> ('a, 'w) monitors \<times> bool"
where
  "hmp_change E parse encrypted media device target arg read_only m s =
     (if device = ''vnc'' then
        if read_only \<noteq> None then
          (say m (line (''Parameter '' @ quoted ''read-only-mode'' @ '' is invalid for VNC'')) s, False)
        else if (target = ''passwd'' \<or> target = ''password'') \<and> arg = None then
          (let (d, r) = monitor_read_password (session_of m s) in (upd_session m (\<lambda>_. d) s, r = 0))
        else (run_qmp E (Block (Qmp_change ''vnc'' target arg)) s, False)
      else
        case (case read_only of None \<Rightarrow> Inr None | Some r \<Rightarrow> map_sum id Some (parse r)) of
          Inl e \<Rightarrow> (hmp_handle_error E (Some e) s, False)
        | Inr mode \<Rightarrow>
            let (s, err) = qmp E (Block (Change_medium device target arg mode)) s
            in (case err of
                  Some e \<Rightarrow>
                    if encrypted e then
                      key_steps (\<lambda>_ s. s) m (fst (monitor_read_block_device_key media (has_readline (session_of m s)) False device)) s
                    else hmp_handle_error E err s
                | None \<Rightarrow> s, False))"

section \<open>The NBD server\<close>

text \<open>Devices come with whether they have a medium.\<close>

fun nbd_add_all ::
  "('a, 'w, 'd) hmp_env \<Rightarrow> bool \<Rightarrow> (string \<times> bool) list \<Rightarrow> ('a, 'w) monitors \<Rightarrow> ('a, 'w) monitors \<times> string option"
where
  "nbd_add_all E writable [] s = (s, None)"
| "nbd_add_all E writable ((device, inserted) # infos) s =
     (if \<not> inserted then nbd_add_all E writable infos s
      else let (s, err) = qmp E (Image (Nbd_add device writable)) s
           in case err of
                Some e \<Rightarrow> (try_qmp E (Image Nbd_stop) s, Some e)
              | None \<Rightarrow> nbd_add_all E writable infos s)"

text \<open>\<open>socket_parse\<close> refuses some addresses.\<close>

definition hmp_nbd_server_start ::
  "('a, 'w, 'd) hmp_env \<Rightarrow> (string \<Rightarrow> string option) \<Rightarrow> (('a, 'w) monitors \<Rightarrow> (string \<times> bool) list) \<Rightarrow> string
     \<Rightarrow> bool option \<Rightarrow> bool option \<Rightarrow> ('a, 'w) monitors \<Rightarrow> ('a, 'w) monitors"
where
  "hmp_nbd_server_start E socket_error query_block uri writable_opt all_opt s =
     (let writable = writable_opt = Some True; all = all_opt = Some True
      in if writable \<and> \<not> all then hmp_handle_error E (Some ''-w only valid together with -a'') s
         else case socket_error uri of
           Some e \<Rightarrow> hmp_handle_error E (Some e) s
         | None \<Rightarrow>
             let (s, err) = qmp E (Image (Nbd_start uri)) s
             in if err \<noteq> None then hmp_handle_error E err s
                else if \<not> all then s
                else let (s, err) = nbd_add_all E writable (query_block s) s in hmp_handle_error E err s)"

definition hmp_nbd_server_add ::
  "('a, 'w, 'd) hmp_env \<Rightarrow> string \<Rightarrow> bool option \<Rightarrow> ('a, 'w) monitors \<Rightarrow> ('a, 'w) monitors"
where
  "hmp_nbd_server_add E device writable = run_qmp E (Image (Nbd_add device (writable = Some True)))"

definition hmp_nbd_server_stop :: "('a, 'w, 'd) hmp_env \<Rightarrow> ('a, 'w) monitors \<Rightarrow> ('a, 'w) monitors" where
  "hmp_nbd_server_stop E = run_qmp E (Image Nbd_stop)"

section \<open>Dumping the guest's memory\<close>

definition hmp_dump_guest_memory ::
  "('a, 'w, 'd) hmp_env \<Rightarrow> bool option \<Rightarrow> bool option \<Rightarrow> bool option \<Rightarrow> bool option \<Rightarrow> string \<Rightarrow> int option \<Rightarrow> int option
     \<Rightarrow> bool option \<Rightarrow> ('a, 'w) monitors \<Rightarrow> ('a, 'w) monitors"
where
  "hmp_dump_guest_memory E paging zlib lzo snappy file_name begin_at len detach s =
     (let zlib = zlib = Some True; lzo = lzo = Some True; snappy = snappy = Some True
      in if of_bool zlib + of_bool lzo + of_bool snappy > (1 :: nat) then
           hmp_handle_error E (Some (''only one of '' @ quoted ''-z|-l|-s'' @ '' can be set'')) s
         else run_qmp E (Machine (Dump_guest_memory (paging = Some True) (''file:'' @ file_name) (detach = Some True) begin_at len
             (if snappy then Format_kdump_snappy else if lzo then Format_kdump_lzo
              else if zlib then Format_kdump_zlib else Format_elf))) s)"

section \<open>Options\<close>

text \<open>What the commands that work on option lists do, in order; an options list is of the type \<open>'o\<close>.\<close>

datatype 'o opts_step =
    Opts_made 'o | Opts_deleted 'o | Netdev_made 'o | Object_made 'o | Object_unref | Chardev_made 'o

text \<open>The result of \<open>qemu_opts_from_qdict\<close> is given; \<open>add\<close> may fail.\<close>

definition hmp_netdev_add :: "string + 'o \<Rightarrow> ('o \<Rightarrow> string option) \<Rightarrow> 'o opts_step list \<times> string option" where
  "hmp_netdev_add opts add =
     (case opts of
        Inl e \<Rightarrow> ([], Some e)
      | Inr o' \<Rightarrow> (case add o' of
           Some e \<Rightarrow> ([Opts_made o', Opts_deleted o'], Some e)
         | None \<Rightarrow> ([Opts_made o', Netdev_made o'], None)))"

definition hmp_object_add :: "string + 'o \<Rightarrow> ('o \<Rightarrow> string option) \<Rightarrow> 'o opts_step list \<times> string option" where
  "hmp_object_add opts add =
     (case opts of
        Inl e \<Rightarrow> ([], Some e)
      | Inr o' \<Rightarrow> (case add o' of
           Some e \<Rightarrow> ([Opts_made o', Opts_deleted o'], Some e)
         | None \<Rightarrow> ([Opts_made o', Object_made o', Opts_deleted o', Object_unref], None)))"

text \<open>\<open>None\<close>: the text does not parse.\<close>

definition hmp_chardev_add :: "'o option \<Rightarrow> ('o \<Rightarrow> string option) \<Rightarrow> 'o opts_step list \<times> string option" where
  "hmp_chardev_add opts add =
     (case opts of
        None \<Rightarrow> ([], Some ''Parsing chardev args failed'')
      | Some o' \<Rightarrow> (case add o' of
           Some e \<Rightarrow> ([Opts_made o', Opts_deleted o'], Some e)
         | None \<Rightarrow> ([Opts_made o', Chardev_made o', Opts_deleted o'], None)))"

text \<open>
  \<open>qemu-io\<close>: a block backend is found by its name, or a temporary one is made for the node of that
  name, which may fail to be attached. The steps name the backend.
\<close>

datatype io_step = Io_new | Io_acquire | Io_command string | Io_release | Io_unref

definition hmp_qemu_io ::
  "(string \<Rightarrow> bool) \<Rightarrow> (string \<Rightarrow> string option) \<Rightarrow> string option \<Rightarrow> string \<Rightarrow> string \<Rightarrow> io_step list \<times> string option"
where
  "hmp_qemu_io blk_by_name lookup_error attach_error device command =
     (if blk_by_name device then ([Io_acquire, Io_command command, Io_release], None)
      else case lookup_error device of
          Some e \<Rightarrow> ([], Some e)
        | None \<Rightarrow> (case attach_error of
            Some e \<Rightarrow> ([Io_new, Io_unref], Some e)
          | None \<Rightarrow> ([Io_new, Io_acquire, Io_command command, Io_release, Io_unref], None)))"

section \<open>What is printed\<close>

datatype io_status = Io_ok | Io_failing string

text \<open>
  \<open>BlockDeviceInfo\<close>; \<open>throttle\<close> holds the 13 numbers, of which \<open>bps\<close>, \<open>bps_rd\<close>, \<open>bps_wr\<close> and \<open>iops\<close>,
  \<open>iops_rd\<close>, \<open>iops_wr\<close> are the numbers 0 to 2 and 6 to 8. \<open>images\<close> is what \<open>bdrv_image_info_dump\<close>
  prints of the image and of the chain of images behind it.
\<close>

record inserted_info =
  node_name :: "string option"
  ins_file :: string
  ins_drv :: string
  ins_ro :: bool
  ins_encrypted :: bool
  cache_writeback :: bool
  cache_direct :: bool
  cache_no_flush :: bool
  backing_file :: "(string \<times> int) option"
  detect_zeroes :: "string option"
  throttle :: "int list"
  throttle_group :: string
  images :: "string list"

record block_info =
  blk_device :: string
  blk_inserted :: "inserted_info option"
  blk_io_status :: "io_status option"
  blk_removable :: bool
  blk_locked :: bool
  blk_tray_open :: bool

definition throttle_names :: "string list" where
  "throttle_names = ['' bps='', '' bps_rd='', '' bps_wr='', '' bps_max='', '' bps_rd_max='', '' bps_wr_max='',
     '' iops='', '' iops_rd='', '' iops_wr='', '' iops_max='', '' iops_rd_max='', '' iops_wr_max='', '' iops_size='']"

definition inserted_text :: "bool \<Rightarrow> inserted_info \<Rightarrow> string" where
  "inserted_text verbose d =
     line (''    Cache mode:       '' @ (if cache_writeback d then ''writeback'' else ''writethrough'') @
       (if cache_direct d then '', direct'' else []) @ (if cache_no_flush d then '', ignore flushes'' else [])) @
     (case backing_file d of None \<Rightarrow> []
      | Some (f, depth) \<Rightarrow> line (''    Backing file:     '' @ f @ '' (chain depth: '' @ show_dec depth @ '')'')) @
     (case detect_zeroes d of None \<Rightarrow> [] | Some z \<Rightarrow> line (''    Detect zeroes:    '' @ z)) @
     (if \<exists>i \<in> {0, 1, 2, 6, 7, 8}. throttle d ! i \<noteq> 0
      then line (''    I/O throttling:  '' @ concat (map2 (\<lambda>n v. n @ show_dec v) throttle_names (throttle d)) @
             '' group='' @ throttle_group d)
      else []) @
     (if verbose then line [] @ line ''Images:'' @ concat (images d) else [])"

text \<open>\<open>None\<close> stands for a failed assertion.\<close>

definition print_block_info :: "block_info option \<Rightarrow> inserted_info option \<Rightarrow> bool \<Rightarrow> string option" where
  "print_block_info info inserted verbose =
     (if (case info of Some b \<Rightarrow> blk_inserted b \<noteq> None \<and> blk_inserted b \<noteq> inserted | None \<Rightarrow> inserted = None) then None
      else Some (
        (case info of
           Some b \<Rightarrow> blk_device b @
             (case inserted of Some d \<Rightarrow> (case node_name d of Some n \<Rightarrow> '' ('' @ n @ '')'' | None \<Rightarrow> []) | None \<Rightarrow> [])
         | None \<Rightarrow> (case node_name (the inserted) of Some n \<Rightarrow> n | None \<Rightarrow> ''<anonymous>'')) @
        (case inserted of
           Some d \<Rightarrow> line ('': '' @ ins_file d @ '' ('' @ ins_drv d @ (if ins_ro d then '', read-only'' else []) @
             (if ins_encrypted d then '', encrypted'' else []) @ '')'')
         | None \<Rightarrow> line '': [not inserted]'') @
        (case info of
           None \<Rightarrow> []
         | Some b \<Rightarrow>
             (case blk_io_status b of Some (Io_failing st) \<Rightarrow> line (''    I/O status:       '' @ st) | _ \<Rightarrow> []) @
             (if blk_removable b
              then line (''    Removable device: '' @ (if blk_locked b then [] else ''not '') @ ''locked, tray '' @
                (if blk_tray_open b then ''open'' else ''closed''))
              else [])) @
        (case inserted of None \<Rightarrow> [] | Some d \<Rightarrow> inserted_text verbose d)))"

text \<open>A list of entries with an empty line before each one printed but the first of the list.\<close>

fun print_entries :: "('b \<Rightarrow> bool) \<Rightarrow> ('b \<Rightarrow> string option) \<Rightarrow> bool \<Rightarrow> 'b list \<Rightarrow> string option" where
  "print_entries wanted pr at_head [] = Some []"
| "print_entries wanted pr at_head (b # bs) =
     (if \<not> wanted b then print_entries wanted pr False bs
      else Option.bind (pr b) (\<lambda>t. map_option (\<lambda>r. (if at_head then [] else [newline]) @ t @ r)
             (print_entries wanted pr False bs)))"

text \<open>The nodes are asked for when no backend was printed, which a missing device and flag rule out.\<close>

definition hmp_info_block ::
  "block_info list \<Rightarrow> inserted_info list \<Rightarrow> string option \<Rightarrow> bool option \<Rightarrow> bool option \<Rightarrow> string option"
where
  "hmp_info_block block_list nodes_list device verbose_opt nodes_opt =
     (let verbose = verbose_opt = Some True; nodes = nodes_opt = Some True;
          block_list = (if nodes then [] else block_list);
          wanted = (\<lambda>b. device = None \<or> device = Some (blk_device b))
      in Option.bind (print_entries wanted (\<lambda>b. print_block_info (Some b) (blk_inserted b) verbose) True block_list)
           (\<lambda>t. if device = None \<and> \<not> nodes \<or> (\<exists>b \<in> set block_list. wanted b) then Some t
                else if \<exists>d \<in> set nodes_list. node_name d = None then None
                else map_option (\<lambda>u. t @ u)
                  (print_entries (\<lambda>d. device = None \<or> device = node_name d) (\<lambda>d. print_block_info None (Some d) verbose)
                    True nodes_list)))"

section \<open>The commands keep the contract\<close>

interpretation snapshot_blkdev_internal: quiet_command "\<lambda>E. hmp_snapshot_blkdev_internal E device name"
  by (rule quiet_qmp) (simp add: hmp_snapshot_blkdev_internal_def)

interpretation snapshot_delete_blkdev_internal: quiet_command "\<lambda>E. hmp_snapshot_delete_blkdev_internal E device name i"
  by (rule quiet_qmp) (simp add: hmp_snapshot_delete_blkdev_internal_def)

interpretation nbd_server_add: quiet_command "\<lambda>E. hmp_nbd_server_add E device writable"
  by (rule quiet_qmp) (simp add: hmp_nbd_server_add_def)

interpretation nbd_server_stop: quiet_command "hmp_nbd_server_stop"
  by (rule quiet_qmp) (simp add: hmp_nbd_server_stop_def)

end
