(* ===== verification/Hmp_Block_Props.thy ===== *)
theory Hmp_Block_Props
  imports Hmp_Block Hmp_Keys_Props
begin

text \<open>
  Properties of the block commands: the NBD server offers all media or is stopped, the machine does
  not go on while a key is missing, option lists are released, and \<open>info block\<close> shows the device
  asked for.
\<close>

section \<open>The NBD server\<close>

text \<open>Adding all goes through every device with a medium, in order, or ends with stopping the server.\<close>

lemma nbd_all_or_stopped:
  "case nbd_add_all E writable infos s of
     (t, None) \<Rightarrow> t = foldl (\<lambda>s d. try_qmp E (Image (Nbd_add d writable)) s) s (map fst (filter snd infos))
   | (t, Some e) \<Rightarrow> \<exists>k u. k < length (filter snd infos) \<and>
       u = foldl (\<lambda>s d. try_qmp E (Image (Nbd_add d writable)) s) s (map fst (take (k + 1) (filter snd infos))) \<and>
       t = try_qmp E (Image Nbd_stop) u"
proof (induction infos arbitrary: s)
  case (Cons i infos)
  obtain d ins where i: "i = (d, ins)" by fastforce
  obtain u err where q: "qmp E (Image (Nbd_add d writable)) s = (u, err)" by fastforce
  then have u: "try_qmp E (Image (Nbd_add d writable)) s = u" by (simp add: try_qmp_def)
  show ?case
  proof (cases "ins \<and> err = None")
    case True
    show ?thesis
    proof (cases "nbd_add_all E writable infos u")
      case (Pair t r)
      show ?thesis
      proof (cases r)
        case None
        with Cons [of u] Pair True show ?thesis by (simp add: i q u)
      next
        case (Some e)
        with Cons [of u] Pair obtain k where
          "k < length (filter snd infos)"
          "t = try_qmp E (Image Nbd_stop) (foldl (\<lambda>s d. try_qmp E (Image (Nbd_add d writable)) s) u (map fst (take (k + 1) (filter snd infos))))"
          by auto
        with Pair Some True show ?thesis by (simp add: i q u exI [of _ "Suc k"])
      qed
    qed
  next
    case False
    show ?thesis
    proof (cases ins)
      case False
      have "nbd_add_all E writable (i # infos) s = nbd_add_all E writable infos s"
        "filter snd (i # infos) = filter snd infos" using False by (simp_all add: i)
      with Cons [of s] show ?thesis by (simp only:)
    next
      case True
      with False obtain e where "err = Some e" by (cases err) auto
      with True show ?thesis by (simp add: i q u exI [of _ 0])
    qed
  qed
qed simp

section \<open>Continuing\<close>

lemma cont_waits_for_key:
  assumes "List.find key_is_missing bdevs = Some bdev" and "media (fst bdev) = Some (Some (name, file_name, True))"
    and "has_readline (session_of m s)"
  shows "hmp_cont E bdevs media m s = say m (line (name @ '' ('' @ file_name @ '') is encrypted.'')) s"
  using assms by (simp add: hmp_cont_def monitor_read_block_device_key_def monitor_read_bdrv_key_start_def)

lemma cont_without_keys: "\<forall>b \<in> set bdevs. \<not> key_is_missing b \<Longrightarrow> hmp_cont E bdevs media m s = run_qmp E (Machine Cont) s"
proof -
  assume "\<forall>b \<in> set bdevs. \<not> key_is_missing b"
  then have "List.find key_is_missing bdevs = None" by (simp add: find_None_iff)
  then show ?thesis by (simp add: hmp_cont_def)
qed

section \<open>Options\<close>

text \<open>The options made and not deleted: only those a network backend keeps.\<close>

definition opts_kept :: "'o opts_step list \<Rightarrow> nat" where
  "opts_kept steps = length (filter (\<lambda>x. case x of Opts_made _ \<Rightarrow> True | _ \<Rightarrow> False) steps)
     - length (filter (\<lambda>x. case x of Opts_deleted _ \<Rightarrow> True | _ \<Rightarrow> False) steps)"

lemma opts_released:
  "hmp_netdev_add opts add = (steps, err) \<Longrightarrow> opts_kept steps = (if err = None then 1 else 0)"
  "hmp_object_add opts add = (steps, err) \<Longrightarrow> opts_kept steps = 0"
  "hmp_chardev_add copts add = (steps, err) \<Longrightarrow> opts_kept steps = 0"
  by (auto simp: hmp_netdev_add_def hmp_object_add_def hmp_chardev_add_def opts_kept_def split: sum.splits option.splits)

lemma qemu_io_balanced:
  "hmp_qemu_io blk lookup attach device command = (steps, err) \<Longrightarrow>
    count_list steps Io_new = count_list steps Io_unref \<and> count_list steps Io_acquire = count_list steps Io_release \<and>
    (err = None \<longleftrightarrow> Io_command command \<in> set steps)"
  by (auto simp: hmp_qemu_io_def split: if_splits option.splits dest: sym)

section \<open>What is printed\<close>

lemma print_entries_none: "\<forall>b \<in> set bs. \<not> wanted b \<Longrightarrow> print_entries wanted pr first_one bs = Some []"
  by (induction bs arbitrary: first_one) auto

text \<open>A device asked for by name is shown alone; it starts with an empty line unless it is the first of all.\<close>

lemma print_entries_one:
  assumes "wanted b" "\<forall>c \<in> set (as @ bs). \<not> wanted c" "pr b = Some t"
  shows "print_entries wanted pr first_one (as @ b # bs) = Some ((if first_one \<and> as = [] then [] else [newline]) @ t)"
  using assms by (induction as arbitrary: first_one) (auto simp: print_entries_none)

lemma info_block_shows_device:
  assumes "blk_device b = device" "\<forall>c \<in> set (as @ bs). blk_device c \<noteq> device"
  shows "\<exists>t. print_block_info (Some b) (blk_inserted b) verbose = Some t \<and>
    hmp_info_block (as @ b # bs) nodes (Some device) (Some verbose) None = Some ((if as = [] then [] else [newline]) @ t)"
proof -
  obtain t where t: "print_block_info (Some b) (blk_inserted b) verbose = Some t"
    by (cases "blk_inserted b") (simp_all add: print_block_info_def)
  have "print_entries (\<lambda>b. device = blk_device b) (\<lambda>b. print_block_info (Some b) (blk_inserted b) verbose) True (as @ b # bs) =
      Some ((if True \<and> as = [] then [] else [newline]) @ t)"
    using assms t by (intro print_entries_one) auto
  then have "hmp_info_block (as @ b # bs) nodes (Some device) (Some verbose) None = Some ((if as = [] then [] else [newline]) @ t)"
    using assms(1) by (simp add: hmp_info_block_def Let_def)
  with t show ?thesis by blast
qed

lemma info_block_node:
  assumes "\<forall>b \<in> set blocks. blk_device b \<noteq> device" "\<forall>d \<in> set nodes. node_name d \<noteq> None"
  shows "hmp_info_block blocks nodes (Some device) verbose None =
    print_entries (\<lambda>d. Some device = node_name d) (\<lambda>d. print_block_info None (Some d) (verbose = Some True)) True nodes"
proof -
  have "print_entries (\<lambda>b. device = blk_device b) (\<lambda>b. print_block_info (Some b) (blk_inserted b) (verbose = Some True)) True blocks = Some []"
    using assms(1) by (intro print_entries_none) auto
  moreover have "\<not> (\<exists>b \<in> set blocks. device = blk_device b)" "(\<exists>d \<in> set nodes. node_name d = None) = False" using assms by auto
  moreover have "map_option ((@) []) y = y" for y :: "string option" by (cases y) simp_all
  ultimately show ?thesis by (auto simp: hmp_info_block_def)
qed

end
