(* ===== verification/Hmp_Info.thy ===== *)
theory Hmp_Info
  imports Hmp_Migrate
begin

text \<open>
  What the \<open>info\<close> commands of the human monitor print (\<open>hmp.c\<close>): the text as a function of the answer
  of the QMP query. Names of generated enumerations come as strings, 64-bit numbers as words where
  they are printed unsigned or are shifted and as integers otherwise; \<open>fixed2\<close> prints a double with two
  digits.
\<close>

section \<open>The machine\<close>

definition hmp_info_name :: "string option \<Rightarrow> string" where
  "hmp_info_name name = (case name of None \<Rightarrow> [] | Some n \<Rightarrow> line n)"

definition hmp_info_version :: "int \<Rightarrow> int \<Rightarrow> int \<Rightarrow> string \<Rightarrow> string" where
  "hmp_info_version major minor micro package =
     line (show_dec major @ ''.'' @ show_dec minor @ ''.'' @ show_dec micro @ package)"

definition hmp_info_kvm :: "bool \<Rightarrow> bool \<Rightarrow> string" where
  "hmp_info_kvm present enabled =
     ''kvm support: '' @ line (if present then if enabled then ''enabled'' else ''disabled'' else ''not compiled'')"

datatype run_state = Run_state_paused | Run_state_other string

definition hmp_info_status :: "bool \<Rightarrow> bool \<Rightarrow> run_state \<Rightarrow> string" where
  "hmp_info_status running singlestep status =
     ''VM status: '' @ (if running then ''running'' else ''paused'') @
     (if singlestep then '' (single step mode)'' else []) @
     (case status of Run_state_paused \<Rightarrow> [] | Run_state_other n \<Rightarrow> if running then [] else '' ('' @ n @ '')'') @ [newline]"

definition hmp_info_uuid :: "string \<Rightarrow> string" where
  "hmp_info_uuid uuid = line uuid"

definition hmp_info_chardev :: "(string \<times> string) list \<Rightarrow> string" where
  "hmp_info_chardev infos = concat (map (\<lambda>(label, file_name). line (label @ '': filename='' @ file_name)) infos)"

record mouse_info =
  mouse_current :: bool
  mouse_index :: int
  mouse_name :: string
  mouse_absolute :: bool

definition hmp_info_mice :: "mouse_info list \<Rightarrow> string" where
  "hmp_info_mice mice_list =
     (if mice_list = [] then line ''No mouse devices connected''
      else concat (map (\<lambda>mouse. line ((if mouse_current mouse then CHR ''*'' else CHR '' '') # '' Mouse #'' @
             show_dec (mouse_index mouse) @ '': '' @ mouse_name mouse @ (if mouse_absolute mouse then '' (absolute)'' else [])))
           mice_list))"

text \<open>\<open>regs\<close> are the program counters printed for the architecture, with their labels.\<close>

record cpu_info =
  cpu_number :: int
  cpu_regs :: "(string \<times> u64) list"
  cpu_halted :: bool
  cpu_thread_id :: int

definition cpu_text :: "int \<Rightarrow> cpu_info \<Rightarrow> string" where
  "cpu_text current cpu =
     (if cpu_number cpu = current then CHR ''*'' else CHR '' '') # '' CPU #'' @ show_dec (cpu_number cpu) @ '':'' @
     concat (map (\<lambda>(label, pc). '' '' @ label @ ''=0x'' @ hex16 pc) (cpu_regs cpu)) @
     (if cpu_halted cpu then '' (halted)'' else []) @ line ('' thread_id='' @ show_dec (cpu_thread_id cpu))"

text \<open>The current CPU is asked for each entry, which may select the first one.\<close>

fun hmp_info_cpus :: "int \<Rightarrow> nat list \<Rightarrow> nat \<Rightarrow> cpu_info list \<Rightarrow> ('a, 'w) monitors \<Rightarrow> ('a, 'w) monitors" where
  "hmp_info_cpus unassigned cpus m [] s = s"
| "hmp_info_cpus unassigned cpus m (cpu # list) s =
     (let (s, current) = monitor_get_cpu_index unassigned cpus s
      in hmp_info_cpus unassigned cpus m list (say m (cpu_text current cpu) s))"

section \<open>Migration\<close>

definition capabilities_text :: "(string \<times> bool) list \<Rightarrow> string" where
  "capabilities_text caps =
     (if caps = [] then []
      else line (''capabilities: '' @ concat (map (\<lambda>(n, on). n @ '': '' @ (if on then ''on'' else ''off'') @ '' '') caps)))"

definition hmp_info_migrate_capabilities :: "(string \<times> bool) list \<Rightarrow> string" where
  "hmp_info_migrate_capabilities caps = capabilities_text caps"

definition kbytes :: "u64 \<Rightarrow> string" where
  "kbytes w = show_base 10 (unat (signed_drop_bit 10 w))"

definition unsigned_text :: "u64 \<Rightarrow> string" where
  "unsigned_text w = show_base 10 (unat w)"

record 'd ram_stats = migration_stats +
  mbps :: 'd
  duplicate :: u64
  skipped :: u64
  normal :: u64
  normal_bytes :: u64
  dirty_sync_count :: u64
  dirty_pages_rate :: u64
  postcopy_requests :: u64

record 'd xbzrle_stats =
  cache_size :: u64
  xbzrle_bytes :: u64
  xbzrle_pages :: u64
  cache_miss :: u64
  cache_miss_rate :: 'd
  xbzrle_overflow :: u64

record 'd migration_info =
  info_status :: "(migration_status \<times> string) option"
  error_desc :: "string option"
  total_time :: u64
  expected_downtime :: "u64 option"
  downtime :: "u64 option"
  setup_time :: "u64 option"
  info_ram :: "'d ram_stats option"
  info_disk :: "migration_stats option"
  xbzrle_cache :: "'d xbzrle_stats option"
  cpu_throttle_percentage :: "u64 option"

definition status_text :: "'d migration_info \<Rightarrow> string" where
  "status_text info =
     (case info_status info of
        None \<Rightarrow> []
      | Some (st, n) \<Rightarrow>
          line (''Migration status: '' @ n @
            (case error_desc info of Some e \<Rightarrow> if st = Migration_failed then '' ('' @ e @ '')'' else [] | None \<Rightarrow> [])) @
          line (''total time: '' @ unsigned_text (total_time info) @ '' milliseconds'') @
          (case expected_downtime info of None \<Rightarrow> []
           | Some t \<Rightarrow> line (''expected downtime: '' @ unsigned_text t @ '' milliseconds'')) @
          (case downtime info of None \<Rightarrow> [] | Some t \<Rightarrow> line (''downtime: '' @ unsigned_text t @ '' milliseconds'')) @
          (case setup_time info of None \<Rightarrow> [] | Some t \<Rightarrow> line (''setup: '' @ unsigned_text t @ '' milliseconds'')))"

definition ram_text :: "('d \<Rightarrow> string) \<Rightarrow> 'd ram_stats \<Rightarrow> string" where
  "ram_text fixed2 r =
     line (''transferred ram: '' @ kbytes (transferred r) @ '' kbytes'') @
     line (''throughput: '' @ fixed2 (mbps r) @ '' mbps'') @
     line (''remaining ram: '' @ kbytes (remaining r) @ '' kbytes'') @
     line (''total ram: '' @ kbytes (total r) @ '' kbytes'') @
     line (''duplicate: '' @ unsigned_text (duplicate r) @ '' pages'') @
     line (''skipped: '' @ unsigned_text (skipped r) @ '' pages'') @
     line (''normal: '' @ unsigned_text (normal r) @ '' pages'') @
     line (''normal bytes: '' @ kbytes (normal_bytes r) @ '' kbytes'') @
     line (''dirty sync count: '' @ unsigned_text (dirty_sync_count r)) @
     (if dirty_pages_rate r \<noteq> 0 then line (''dirty pages rate: '' @ unsigned_text (dirty_pages_rate r) @ '' pages'') else []) @
     (if postcopy_requests r \<noteq> 0 then line (''postcopy request count: '' @ unsigned_text (postcopy_requests r)) else [])"

definition disk_text :: "migration_stats \<Rightarrow> string" where
  "disk_text d =
     line (''transferred disk: '' @ kbytes (transferred d) @ '' kbytes'') @
     line (''remaining disk: '' @ kbytes (remaining d) @ '' kbytes'') @
     line (''total disk: '' @ kbytes (total d) @ '' kbytes'')"

definition xbzrle_text :: "('d \<Rightarrow> string) \<Rightarrow> 'd xbzrle_stats \<Rightarrow> string" where
  "xbzrle_text fixed2 x =
     line (''cache size: '' @ unsigned_text (cache_size x) @ '' bytes'') @
     line (''xbzrle transferred: '' @ kbytes (xbzrle_bytes x) @ '' kbytes'') @
     line (''xbzrle pages: '' @ unsigned_text (xbzrle_pages x) @ '' pages'') @
     line (''xbzrle cache miss: '' @ unsigned_text (cache_miss x)) @
     line (''xbzrle cache miss rate: '' @ fixed2 (cache_miss_rate x)) @
     line (''xbzrle overflow : '' @ unsigned_text (xbzrle_overflow x))"

definition hmp_info_migrate :: "('d \<Rightarrow> string) \<Rightarrow> 'd migration_info \<Rightarrow> (string \<times> bool) list \<Rightarrow> string" where
  "hmp_info_migrate fixed2 info caps =
     (if info_status info \<noteq> None then capabilities_text caps else []) @
     status_text info @
     (case info_ram info of None \<Rightarrow> [] | Some r \<Rightarrow> ram_text fixed2 r) @
     (case info_disk info of None \<Rightarrow> [] | Some d \<Rightarrow> disk_text d) @
     (case xbzrle_cache info of None \<Rightarrow> [] | Some x \<Rightarrow> xbzrle_text fixed2 x) @
     (case cpu_throttle_percentage info of None \<Rightarrow> []
      | Some p \<Rightarrow> line (''cpu throttle percentage: '' @ unsigned_text p))"

text \<open>\<open>name\<close> is \<open>MigrationParameter_lookup\<close>; \<open>None\<close> is a failed assertion.\<close>

definition hmp_info_migrate_parameters ::
  "(migration_parameter \<Rightarrow> string) \<Rightarrow> migration_parameters option \<Rightarrow> string option"
where
  "hmp_info_migrate_parameters name params =
     (case params of
        None \<Rightarrow> Some []
      | Some p \<Rightarrow>
          if has_compress_level p \<and> has_compress_threads p \<and> has_decompress_threads p \<and> has_cpu_throttle_initial p \<and>
             has_cpu_throttle_increment p \<and> has_max_bandwidth p \<and> has_downtime_limit p \<and> has_x_checkpoint_delay p
          then Some (line (''parameters:'' @
            '' '' @ name Compress_level @ '': '' @ show_dec (compress_level p) @
            '' '' @ name Compress_threads @ '': '' @ show_dec (compress_threads p) @
            '' '' @ name Decompress_threads @ '': '' @ show_dec (decompress_threads p) @
            '' '' @ name Cpu_throttle_initial @ '': '' @ show_dec (cpu_throttle_initial p) @
            '' '' @ name Cpu_throttle_increment @ '': '' @ show_dec (cpu_throttle_increment p) @
            '' '' @ name Tls_creds @ '': '' @ quoted (if has_tls_creds p then tls_creds p else []) @
            '' '' @ name Tls_hostname @ '': '' @ quoted (if has_tls_hostname p then tls_hostname p else []) @
            '' '' @ name Max_bandwidth @ '': '' @ show_dec (max_bandwidth p) @ '' bytes/second'' @
            '' '' @ name Downtime_limit @ '': '' @ show_dec (downtime_limit p) @ '' milliseconds'' @
            '' '' @ name X_checkpoint_delay @ '': '' @ show_dec (x_checkpoint_delay p)))
          else None)"

definition hmp_info_migrate_cache_size :: "u64 \<Rightarrow> string" where
  "hmp_info_migrate_cache_size sz = line (''xbzrel cache size: '' @ show_dec (sint (signed_drop_bit 10 sz)) @ '' kbytes'')"

end
