(* ===== verification/Hmp_Info_Dev.thy ===== *)
theory Hmp_Info_Dev
  imports Hmp_Info
begin

text \<open>
  The \<open>info\<close> commands about devices (\<open>hmp.c\<close>): block statistics and jobs, VNC and SPICE, the PCI tree,
  interrupt controllers, memory, threads, CPUs that can be plugged in, and the object tree. The text
  is a function of the answer of the QMP query; an answer that may be an error is a sum.
\<close>

section \<open>Block devices\<close>

definition blockstats_names :: "string list" where
  "blockstats_names = ['' rd_bytes='', '' wr_bytes='', '' rd_operations='', '' wr_operations='', '' flush_operations='',
     '' wr_total_time_ns='', '' rd_total_time_ns='', '' flush_total_time_ns='', '' rd_merged='', '' wr_merged='',
     '' idle_time_ns='']"

text \<open>The eleven numbers of an entry in the order of the names.\<close>

definition hmp_info_blockstats :: "(string option \<times> int list) list \<Rightarrow> string" where
  "hmp_info_blockstats stats_list =
     concat (map (\<lambda>(device, stats). case device of
         None \<Rightarrow> []
       | Some d \<Rightarrow> line (d @ '':'' @ concat (map2 (\<lambda>n v. n @ show_dec v) blockstats_names stats))) stats_list)"

record job_info =
  job_type :: string
  job_device :: string
  job_offset :: int
  job_len :: int
  job_speed :: int

definition hmp_info_block_jobs :: "job_info list \<Rightarrow> string" where
  "hmp_info_block_jobs list =
     (if list = [] then line ''No active jobs''
      else concat (map (\<lambda>j.
        line ((if job_type j = ''stream'' then ''Streaming device '' else ''Type '' @ job_type j @ '', device '') @
          job_device j @ '': Completed '' @ show_dec (job_offset j) @ '' of '' @ show_dec (job_len j) @
          '' bytes, speed limit '' @ show_dec (job_speed j) @ '' bytes/s'')) list))"

section \<open>VNC and SPICE\<close>

record vnc_client =
  vnc_host :: string
  vnc_service :: string
  x509_dname :: "string option"
  sasl_username :: "string option"

record vnc_info =
  vnc_enabled :: bool
  vnc_address :: "(string \<times> string) option"
  vnc_auth :: "string option"
  vnc_clients :: "vnc_client list"

text \<open>\<open>vnc_address\<close> holds host and service when both are known.\<close>

definition hmp_info_vnc :: "(string \<Rightarrow> string) \<Rightarrow> string + vnc_info \<Rightarrow> string" where
  "hmp_info_vnc report answer =
     (case answer of
        Inl e \<Rightarrow> report e
      | Inr info \<Rightarrow>
          if \<not> vnc_enabled info then line ''Server: disabled''
          else line ''Server:'' @
            (case vnc_address info of None \<Rightarrow> [] | Some (h, p) \<Rightarrow> line (''     address: '' @ h @ '':'' @ p)) @
            (case vnc_auth info of None \<Rightarrow> [] | Some a \<Rightarrow> line (''        auth: '' @ a)) @
            (if vnc_clients info = [] then line ''Client: none''
             else concat (map (\<lambda>c.
               line ''Client:'' @ line (''     address: '' @ vnc_host c @ '':'' @ vnc_service c) @
               line (''  x509_dname: '' @ (case x509_dname c of None \<Rightarrow> ''none'' | Some n \<Rightarrow> n)) @
               line (''    username: '' @ (case sasl_username c of None \<Rightarrow> ''none'' | Some n \<Rightarrow> n))) (vnc_clients info))))"

record spice_channel =
  chan_host :: string
  chan_port :: string
  chan_tls :: bool
  connection_id :: int
  channel_type :: int
  channel_id :: int

record spice_info =
  spice_enabled :: bool
  spice_host :: string
  spice_port :: "int option"
  spice_tls_port :: "int option"
  spice_migrated :: bool
  spice_auth :: string
  compiled_version :: string
  mouse_mode :: string
  spice_channels :: "spice_channel list"

text \<open>\<open>channel_names\<close> is the table by the constants of the SPICE headers, with holes.\<close>

definition channel_name :: "string option list \<Rightarrow> int \<Rightarrow> string" where
  "channel_name channel_names t =
     (if 0 < t \<and> t < int (length channel_names)
      then (case channel_names ! nat t of Some n \<Rightarrow> n | None \<Rightarrow> ''unknown'') else ''unknown'')"

definition hmp_info_spice :: "string option list \<Rightarrow> spice_info \<Rightarrow> string" where
  "hmp_info_spice channel_names info =
     (if \<not> spice_enabled info then line ''Server: disabled''
      else line ''Server:'' @
        (case spice_port info of None \<Rightarrow> []
         | Some p \<Rightarrow> line (''     address: '' @ spice_host info @ '':'' @ show_dec p)) @
        (case spice_tls_port info of None \<Rightarrow> []
         | Some p \<Rightarrow> line (''     address: '' @ spice_host info @ '':'' @ show_dec p @ '' [tls]'')) @
        line (''    migrated: '' @ (if spice_migrated info then ''true'' else ''false'')) @
        line (''        auth: '' @ spice_auth info) @
        line (''    compiled: '' @ compiled_version info) @
        line (''  mouse-mode: '' @ mouse_mode info) @
        (if spice_channels info = [] then line ''Channels: none''
         else concat (map (\<lambda>c.
           line ''Channel:'' @
           line (''     address: '' @ chan_host c @ '':'' @ chan_port c @ (if chan_tls c then '' [tls]'' else [])) @
           line (''     session: '' @ show_dec (connection_id c)) @
           line (''     channel: '' @ show_dec (channel_type c) @ '':'' @ show_dec (channel_id c)) @
           line (''     channel name: '' @ channel_name channel_names (channel_type c))) (spice_channels info))))"

definition hmp_info_balloon :: "(string \<Rightarrow> string) \<Rightarrow> string + u64 \<Rightarrow> string" where
  "hmp_info_balloon report answer =
     (case answer of
        Inl e \<Rightarrow> report e
      | Inr actual \<Rightarrow> line (''balloon: actual='' @ show_dec (sint (signed_drop_bit 20 actual))))"

section \<open>The PCI tree\<close>

record pci_region =
  region_bar :: int
  region_io :: bool
  region_address :: u64
  region_size :: u64
  mem_type_64 :: bool
  region_prefetch :: bool

record pci_bridge_info =
  bus_number :: int
  bus_secondary :: int
  bus_subordinate :: int
  io_range :: "u64 \<times> u64"
  memory_range :: "u64 \<times> u64"
  prefetchable_range :: "u64 \<times> u64"

record pci_function =
  pci_bus :: int
  pci_slot :: int
  pci_fn :: int
  class_desc :: "string option"
  q_class :: int
  pci_vendor :: u64
  pci_device :: u64
  pci_irq :: "int option"
  pci_regions :: "pci_region list"
  pci_qdev_id :: string

text \<open>A function with the bridge behind it, if it is one, and the functions behind the bridge.\<close>

datatype pci_node = Pci_node pci_function "pci_bridge_info option" "pci_node list"

definition hex_fill :: "nat \<Rightarrow> u64 \<Rightarrow> string" where
  "hex_fill w a = pad CHR ''0'' w (show_base 16 (unat a))"

definition range_text :: "string \<Rightarrow> nat \<Rightarrow> u64 \<times> u64 \<Rightarrow> string" where
  "range_text label w r = line (''      '' @ label @ '' [0x'' @ hex_fill w (fst r) @ '', 0x'' @ hex_fill w (snd r) @ '']'')"

definition region_text :: "pci_region \<Rightarrow> string" where
  "region_text r =
     ''      BAR'' @ show_dec (region_bar r) @ '': '' @
     line (if region_io r
       then ''I/O at 0x'' @ hex_fill 4 (region_address r) @ '' [0x'' @ hex_fill 4 (region_address r + region_size r - 1) @ ''].''
       else (if mem_type_64 r then ''64'' else ''32'') @ '' bit'' @ (if region_prefetch r then '' prefetchable'' else []) @
         '' memory at 0x'' @ hex_fill 8 (region_address r) @ '' [0x'' @ hex_fill 8 (region_address r + region_size r - 1) @ ''].'')"

definition bridge_text :: "pci_bridge_info \<Rightarrow> string" where
  "bridge_text b =
     line (''      BUS '' @ show_dec (bus_number b) @ ''.'') @
     line (''      secondary bus '' @ show_dec (bus_secondary b) @ ''.'') @
     line (''      subordinate bus '' @ show_dec (bus_subordinate b) @ ''.'') @
     range_text ''IO range'' 4 (io_range b) @
     range_text ''memory range'' 8 (memory_range b) @
     range_text ''prefetchable memory range'' 8 (prefetchable_range b)"

definition function_text :: "pci_function \<Rightarrow> pci_bridge_info option \<Rightarrow> string" where
  "function_text dev bridge =
     ''  Bus '' @ pad CHR '' '' 2 (show_dec (pci_bus dev)) @ '', '' @
     line (''device '' @ pad CHR '' '' 3 (show_dec (pci_slot dev)) @ '', function '' @ show_dec (pci_fn dev) @ '':'') @
     ''    '' @
     (case class_desc dev of Some t \<Rightarrow> t | None \<Rightarrow> ''Class '' @ pad CHR ''0'' 4 (show_dec (q_class dev))) @
     line ('': PCI device '' @ hex_fill 4 (pci_vendor dev) @ '':'' @ hex_fill 4 (pci_device dev)) @
     (case pci_irq dev of None \<Rightarrow> [] | Some i \<Rightarrow> line (''      IRQ '' @ show_dec i @ ''.'')) @
     (case bridge of None \<Rightarrow> [] | Some b \<Rightarrow> bridge_text b) @
     concat (map region_text (pci_regions dev)) @
     line (''      id '' @ [CHR 0x22] @ pci_qdev_id dev @ [CHR 0x22])"

fun hmp_info_pci_device :: "pci_node \<Rightarrow> string" where
  "hmp_info_pci_device (Pci_node dev bridge children) =
     function_text dev bridge @
     (case bridge of None \<Rightarrow> [] | Some _ \<Rightarrow> concat (map hmp_info_pci_device children))"

definition hmp_info_pci :: "string + pci_node list list \<Rightarrow> string" where
  "hmp_info_pci answer =
     (case answer of
        Inl _ \<Rightarrow> line ''PCI devices not supported''
      | Inr buses \<Rightarrow> concat (map (\<lambda>devs. concat (map hmp_info_pci_device devs)) buses))"

section \<open>Interrupt controllers\<close>

text \<open>
  An object of the tree: its type name and, when it provides interrupt statistics, what they are (\<open>None\<close>
  without the function or when it fails) and what \<open>print_info\<close> prints.
\<close>

record intc_object =
  type_name :: string
  statistics :: "u64 list option"
  print_info :: "string option"

definition hmp_info_irq_foreach :: "intc_object option \<Rightarrow> string" where
  "hmp_info_irq_foreach obj =
     (case obj of
        None \<Rightarrow> []
      | Some k \<Rightarrow> (case statistics k of
          None \<Rightarrow> line (''IRQ statistics not available for '' @ type_name k @ ''.'')
        | Some irq_counts \<Rightarrow>
            if irq_counts = [] then []
            else line (''IRQ statistics for '' @ type_name k @ '':'') @
              concat (map (\<lambda>(i, n). if n = 0 then [] else line (pad CHR '' '' 2 (show_base 10 i) @ '': '' @ show_dec (sint n)))
                (zip [0 ..< length irq_counts] irq_counts))))"

definition hmp_info_pic_foreach :: "intc_object option \<Rightarrow> string" where
  "hmp_info_pic_foreach obj =
     (case obj of
        None \<Rightarrow> []
      | Some k \<Rightarrow> (case print_info k of
          Some t \<Rightarrow> t
        | None \<Rightarrow> line (''Interrupt controller information not available for '' @ type_name k @ ''.'')))"

text \<open>The objects below the root in the order of \<open>object_child_foreach_recursive\<close>.\<close>

definition hmp_info_irq :: "(intc_object option) list \<Rightarrow> string" where
  "hmp_info_irq objects = concat (map hmp_info_irq_foreach objects)"

definition hmp_info_pic :: "(intc_object option) list \<Rightarrow> string" where
  "hmp_info_pic objects = concat (map hmp_info_pic_foreach objects)"

end
