(* ===== verification/Hmp_Info_Misc.thy ===== *)
theory Hmp_Info_Misc
  imports Hmp_Info_Dev
begin

text \<open>
  The remaining commands of \<open>hmp.c\<close> that print: trusted platform modules, memory, threads, CPUs that
  can be plugged in, dumps, the object tree, and the tables of the Rocker switch. \<open>report\<close> is the text
  printed for an error.
\<close>

section \<open>Modules, memory and threads\<close>

text \<open>A module: its model, its name, the name of its type and, for the passthrough type, its two paths.\<close>

record tpm_info =
  tpm_model :: string
  tpm_id :: string
  tpm_type :: string
  tpm_paths :: "(string option \<times> string option) option"

definition path_text :: "string \<Rightarrow> string option \<Rightarrow> string" where
  "path_text label p = (case p of None \<Rightarrow> [] | Some t \<Rightarrow> label @ t)"

definition hmp_info_tpm :: "string + tpm_info list \<Rightarrow> string" where
  "hmp_info_tpm answer =
     (case answer of
        Inl _ \<Rightarrow> line ''TPM device not supported''
      | Inr infos \<Rightarrow>
          (if infos = [] then [] else line ''TPM device:'') @
          concat (map (\<lambda>(c, ti).
            line ('' tpm'' @ show_base 10 c @ '': model='' @ tpm_model ti) @
            line (''  '' @ [CHR 0x5C] @ '' '' @ tpm_id ti @ '': type='' @ tpm_type ti @
              (case tpm_paths ti of None \<Rightarrow> []
               | Some (p, cancel) \<Rightarrow> path_text '',path='' p @ path_text '',cancel-path='' cancel)))
            (zip [0 ..< length infos] infos)))"

abbreviation truth :: "bool \<Rightarrow> string" where
  "truth b \<equiv> (if b then ''true'' else ''false'')"

text \<open>\<open>host_nodes\<close> is the text the visitor makes of the node numbers.\<close>

record memdev_info =
  memdev_id :: string
  memdev_size :: int
  memdev_merge :: bool
  memdev_dump :: bool
  memdev_prealloc :: bool
  memdev_policy :: string
  host_nodes :: string

text \<open>An error of the query leaves an empty list and is not reported.\<close>

definition hmp_info_memdev :: "string + memdev_info list \<Rightarrow> string" where
  "hmp_info_memdev answer =
     concat (map (\<lambda>m.
       line (''memory backend: '' @ memdev_id m) @ line (''  size:  '' @ show_dec (memdev_size m)) @
       line (''  merge: '' @ truth (memdev_merge m)) @ line (''  dump: '' @ truth (memdev_dump m)) @
       line (''  prealloc: '' @ truth (memdev_prealloc m)) @ line (''  policy: '' @ memdev_policy m) @
       line (''  host nodes: '' @ host_nodes m)) (case answer of Inl _ \<Rightarrow> [] | Inr l \<Rightarrow> l)) @ [newline]"

record dimm_info =
  dimm_kind :: string
  dimm_id :: "string option"
  dimm_addr :: u64
  dimm_slot :: int
  dimm_node :: int
  dimm_size :: u64
  dimm_memdev :: string
  dimm_hotplugged :: bool
  dimm_hotpluggable :: bool

text \<open>Entries without a value or of another kind are \<open>None\<close>.\<close>

definition hmp_info_memory_devices :: "string + dimm_info option list \<Rightarrow> string" where
  "hmp_info_memory_devices answer =
     concat (map (\<lambda>v. case v of None \<Rightarrow> [] | Some di \<Rightarrow>
       line (''Memory device ['' @ dimm_kind di @ '']: '' @ [CHR 0x22] @
         (case dimm_id di of None \<Rightarrow> [] | Some i \<Rightarrow> i) @ [CHR 0x22]) @
       line (''  addr: 0x'' @ show_base 16 (unat (dimm_addr di))) @ line (''  slot: '' @ show_dec (dimm_slot di)) @
       line (''  node: '' @ show_dec (dimm_node di)) @ line (''  size: '' @ unsigned_text (dimm_size di)) @
       line (''  memdev: '' @ dimm_memdev di) @ line (''  hotplugged: '' @ truth (dimm_hotplugged di)) @
       line (''  hotpluggable: '' @ truth (dimm_hotpluggable di))) (case answer of Inl _ \<Rightarrow> [] | Inr l \<Rightarrow> l))"

record iothread_info =
  iothread_id :: string
  iothread_thread_id :: int
  poll_max_ns :: int
  poll_grow :: int
  poll_shrink :: int

definition hmp_info_iothreads :: "iothread_info list \<Rightarrow> string" where
  "hmp_info_iothreads list =
     concat (map (\<lambda>t. line (iothread_id t @ '':'') @ line (''  thread_id='' @ show_dec (iothread_thread_id t)) @
       line (''  poll-max-ns='' @ show_dec (poll_max_ns t)) @ line (''  poll-grow='' @ show_dec (poll_grow t)) @
       line (''  poll-shrink='' @ show_dec (poll_shrink t))) list)"

record hotpluggable_cpu =
  hcpu_type :: string
  vcpus_count :: u64
  hcpu_qom_path :: "string option"
  hcpu_node_id :: "u64 option"
  hcpu_socket_id :: "u64 option"
  hcpu_core_id :: "u64 option"
  hcpu_thread_id :: "u64 option"

definition dquoted :: "string \<Rightarrow> string" where
  "dquoted s = CHR 0x22 # s @ [CHR 0x22]"

definition property_text :: "string \<Rightarrow> u64 option \<Rightarrow> string" where
  "property_text label v = (case v of None \<Rightarrow> [] | Some n \<Rightarrow> line (''    '' @ label @ '': '' @ dquoted (unsigned_text n)))"

definition hmp_hotpluggable_cpus :: "(string \<Rightarrow> string) \<Rightarrow> string + hotpluggable_cpu list \<Rightarrow> string" where
  "hmp_hotpluggable_cpus report answer =
     (case answer of
        Inl e \<Rightarrow> report e
      | Inr l \<Rightarrow> line ''Hotpluggable CPUs:'' @
          concat (map (\<lambda>c.
            line (''  type: '' @ dquoted (hcpu_type c)) @ line (''  vcpus_count: '' @ dquoted (unsigned_text (vcpus_count c))) @
            (case hcpu_qom_path c of None \<Rightarrow> [] | Some p \<Rightarrow> line (''  qom_path: '' @ dquoted p)) @
            line ''  CPUInstance Properties:'' @
            property_text ''node-id'' (hcpu_node_id c) @ property_text ''socket-id'' (hcpu_socket_id c) @
            property_text ''core-id'' (hcpu_core_id c) @ property_text ''thread-id'' (hcpu_thread_id c)) l))"

definition hmp_info_vm_generation_id :: "(string \<Rightarrow> string) \<Rightarrow> string + string \<Rightarrow> string" where
  "hmp_info_vm_generation_id report answer = (case answer of Inl e \<Rightarrow> report e | Inr guid \<Rightarrow> line guid)"

text \<open>\<open>percent completed total\<close> is the quotient in single precision, as text; \<open>None\<close> is a failed assertion.\<close>

definition hmp_info_dump :: "(int \<Rightarrow> int \<Rightarrow> string) \<Rightarrow> bool \<Rightarrow> string \<Rightarrow> int \<Rightarrow> int \<Rightarrow> string option" where
  "hmp_info_dump percent active status_name completed total_size =
     (if active \<and> total_size = 0 then None
      else Some (line (''Status: '' @ status_name) @
        (if active then line (''Finished: '' @ percent completed total_size @ '' %'') else [])))"

section \<open>The object tree\<close>

definition hmp_qom_list :: "(string \<Rightarrow> string) \<Rightarrow> (string \<Rightarrow> string + (string \<times> string) list) \<Rightarrow> string option \<Rightarrow> string" where
  "hmp_qom_list report qom_list path =
     (case path of
        None \<Rightarrow> line ''/''
      | Some p \<Rightarrow> (case qom_list p of
          Inl e \<Rightarrow> report e
        | Inr l \<Rightarrow> concat (map (\<lambda>(name, ty). line (name @ '' ('' @ ty @ '')'')) l)))"

text \<open>
  \<open>resolve\<close> gives the object and whether the path is ambiguous; \<open>parse\<close> sets the property, which may
  fail. The property set, if the object was found, and the text.
\<close>

definition hmp_qom_set ::
  "(string \<Rightarrow> string) \<Rightarrow> (string \<Rightarrow> ('o \<times> bool) option) \<Rightarrow> ('o \<Rightarrow> string \<Rightarrow> string \<Rightarrow> string option) \<Rightarrow> string \<Rightarrow> string
     \<Rightarrow> string \<Rightarrow> ('o \<times> string \<times> string) option \<times> string"
where
  "hmp_qom_set report resolve parse path property val =
     (case resolve path of
        None \<Rightarrow> (None, report (''Device '' @ quoted path @ '' not found''))
      | Some (obj, ambiguous) \<Rightarrow>
          (Some (obj, property, val),
           (if ambiguous then line (''Warning: Path '' @ quoted path @ '' is ambiguous'') else []) @
           (case parse obj property val of None \<Rightarrow> [] | Some e \<Rightarrow> report e)))"

section \<open>The Rocker switch\<close>

definition hmp_rocker :: "(string \<Rightarrow> string) \<Rightarrow> string + string \<times> u64 \<times> u32 \<Rightarrow> string" where
  "hmp_rocker report answer =
     (case answer of
        Inl e \<Rightarrow> report e
      | Inr (name, i, ports) \<Rightarrow>
          line (''name: '' @ name) @ line (''id: 0x'' @ show_base 16 (unat i)) @ line (''ports: '' @ show_dec (sint ports)))"

record rocker_port =
  port_name :: string
  port_enabled :: bool
  port_link_up :: bool
  port_speed :: int
  port_duplex :: bool
  port_autoneg :: bool

text \<open>\<open>%-4s\<close> fills on the right.\<close>

definition pad_right :: "nat \<Rightarrow> string \<Rightarrow> string" where
  "pad_right w s = s @ replicate (w - length s) CHR '' ''"

definition hmp_rocker_ports :: "(string \<Rightarrow> string) \<Rightarrow> string + rocker_port list \<Rightarrow> string" where
  "hmp_rocker_ports report answer =
     (case answer of
        Inl e \<Rightarrow> report e
      | Inr l \<Rightarrow> line ''            ena/    speed/ auto'' @ line ''      port  link    duplex neg?'' @
          concat (map (\<lambda>p. line (pad CHR '' '' 10 (port_name p) @ ''  '' @
            pad_right 4 (if port_enabled p then if port_link_up p then ''up'' else ''down'' else ''!ena'') @ ''   '' @
            pad_right 3 (if port_speed p = 10000 then ''10G'' else ''??'') @ ''  '' @
            pad CHR '' '' 2 (if port_duplex p then ''FD'' else ''HD'') @ ''  '' @
            pad_right 3 (if port_autoneg p then ''Yes'' else ''No''))) l))"

text \<open>
  A flow of the OF-DPA tables: the key fields that are given, each with the mask field of its name if
  that is given too.
\<close>

record rocker_flow =
  flow_priority :: u32
  flow_tbl_id :: u32
  flow_hits :: u64
  key_in_pport :: "(u32 \<times> u32 option) option"
  key_vlan_id :: "(u16 \<times> u16 option) option"
  key_tunnel_id :: "(u32 \<times> u32 option) option"
  key_eth_type :: "u16 option"
  key_eth_src :: "(string \<times> string option) option"
  key_eth_dst :: "(string \<times> string option) option"
  key_ip_proto :: "(u8 \<times> u8 option) option"
  key_ip_tos :: "(u8 \<times> u8 option) option"
  key_ip_dst :: "string option"
  action_goto_tbl :: "u32 option"
  action_group_id :: "u32 option"
  action_new_vlan_id :: "u16 option"

definition dec_field :: "string \<Rightarrow> ('l::len word \<Rightarrow> int) \<Rightarrow> ('l word \<times> 'l word option) option \<Rightarrow> string" where
  "dec_field label val f =
     (case f of
        None \<Rightarrow> []
      | Some (v, msk) \<Rightarrow> '' '' @ label @ '' '' @ show_dec (val v) @
          (case msk of None \<Rightarrow> [] | Some k \<Rightarrow> ''(0x'' @ show_base 16 (unat k) @ '')''))"

definition eth_type_text :: "u16 \<Rightarrow> string" where
  "eth_type_text t =
     (if t = 0x0806 then '' ARP'' else if t = 0x0800 then '' IP'' else if t = 0x86dd then '' IPv6''
      else if t = 0x8809 then '' LACP'' else if t = 0x88cc then '' LLDP''
      else '' eth type 0x'' @ pad CHR ''0'' 4 (show_base 16 (unat t)))"

definition eth_addr_text :: "string \<Rightarrow> (string \<times> string option) option \<Rightarrow> string" where
  "eth_addr_text label f =
     (case f of
        None \<Rightarrow> []
      | Some (a, msk) \<Rightarrow> '' '' @ label @ '' '' @
          (if a = ''01:00:00:00:00:00'' \<and> msk = Some ''01:00:00:00:00:00'' then ''<any mcast/bcast>''
           else if a = ''00:00:00:00:00:00'' \<and> msk = Some ''01:00:00:00:00:00'' then ''<any ucast>''
           else a @ (case msk of None \<Rightarrow> [] | Some k \<Rightarrow> ''('' @ k @ '')'')))"

definition swap16 :: "u16 \<Rightarrow> u16" where
  "swap16 v = or (push_bit 8 v) (drop_bit 8 v)"

text \<open>On a little endian machine \<open>ntohs\<close> swaps the bytes; \<open>VLAN_VID_MASK\<close> keeps twelve bits.\<close>

definition flow_text :: "rocker_flow \<Rightarrow> string" where
  "flow_text f =
     pad_right 4 (show_dec (sint (flow_priority f))) @ '' '' @ pad_right 3 (show_dec (sint (flow_tbl_id f))) @ '' '' @
     (if flow_hits f \<noteq> 0 then pad_right 4 (unsigned_text (flow_hits f)) else ''    '') @
     dec_field ''pport'' sint (key_in_pport f) @
     dec_field ''vlan'' (\<lambda>v. uint (and v 0xfff)) (key_vlan_id f) @
     dec_field ''tunnel'' sint (key_tunnel_id f) @
     (case key_eth_type f of None \<Rightarrow> [] | Some t \<Rightarrow> eth_type_text t) @
     eth_addr_text ''src'' (key_eth_src f) @ eth_addr_text ''dst'' (key_eth_dst f) @
     dec_field ''proto'' uint (key_ip_proto f) @ dec_field ''TOS'' uint (key_ip_tos f) @
     (case key_ip_dst f of None \<Rightarrow> [] | Some d \<Rightarrow> '' dst '' @ d) @
     (if action_goto_tbl f \<noteq> None \<or> action_group_id f \<noteq> None \<or> action_new_vlan_id f \<noteq> None then '' -->'' else []) @
     (case action_new_vlan_id f of None \<Rightarrow> [] | Some v \<Rightarrow> '' apply new vlan '' @ show_dec (uint (swap16 v))) @
     (case action_group_id f of None \<Rightarrow> [] | Some g \<Rightarrow> '' write group 0x'' @ pad CHR ''0'' 8 (show_base 16 (unat g))) @
     (case action_goto_tbl f of None \<Rightarrow> [] | Some t \<Rightarrow> '' goto tbl '' @ show_dec (sint t)) @ [newline]"

text \<open>The table, -1 for all: the query gets it only when it is not all ones.\<close>

definition hmp_rocker_of_dpa_flows ::
  "(string \<Rightarrow> string) \<Rightarrow> (u32 option \<Rightarrow> string + rocker_flow list) \<Rightarrow> int option \<Rightarrow> string"
where
  "hmp_rocker_of_dpa_flows report query tbl_id =
     (let t = word_of_int (case tbl_id of None \<Rightarrow> - 1 | Some i \<Rightarrow> i) :: u32
      in case query (if t \<noteq> - 1 then Some t else None) of
           Inl e \<Rightarrow> report e
         | Inr l \<Rightarrow> line ''prio tbl hits key(mask) --> actions'' @ concat (map flow_text l))"

record rocker_group =
  group_ident :: u32
  group_type :: u8
  group_vlan_id :: "u16 option"
  group_pport :: "u32 option"
  group_index :: "u32 option"
  group_set_vlan_id :: "u16 option"
  set_eth_src :: "string option"
  set_eth_dst :: "string option"
  ttl_check :: "u8 option"
  group_ref :: "u32 option"
  pop_vlan :: "u8 option"
  out_pport :: "u32 option"
  group_refs :: "u32 list option"

definition group_types :: "string list" where
  "group_types = [''L2 interface'', ''L2 rewrite'', ''L3 unicast'', ''L2 multicast'', ''L2 flood'', ''L3 interface'',
     ''L3 multicast'', ''L3 ECMP'', ''L2 overlay'']"

definition group_type_text :: "u8 \<Rightarrow> string" where
  "group_type_text t = (if unat t < 9 then group_types ! unat t else ''unknown'')"

definition hex8 :: "u32 \<Rightarrow> string" where
  "hex8 a = ''0x'' @ pad CHR ''0'' 8 (show_base 16 (unat a))"

fun comma_hex :: "u32 list \<Rightarrow> string" where
  "comma_hex [] = []"
| "comma_hex [i] = hex8 i"
| "comma_hex (i # ids) = hex8 i @ '','' @ comma_hex ids"

text \<open>The word set is printed once, before the first change of the packet; \<open>seen\<close> tells that it was.\<close>

definition rewrite_text :: "rocker_group \<Rightarrow> string" where
  "rewrite_text g =
     (let (seen, t) = (case group_set_vlan_id g of
            Some v \<Rightarrow> if v \<noteq> 0 then (True, '' set vlan '' @ show_dec (uint (and v 0xfff))) else (False, [])
          | None \<Rightarrow> (False, []));
          (seen, t) = (case set_eth_src g of
            Some a \<Rightarrow> (True, t @ (if seen then [] else '' set'') @ '' src '' @ a) | None \<Rightarrow> (seen, t))
      in case set_eth_dst g of
           Some a \<Rightarrow> t @ (if seen then [] else '' set'') @ '' dst '' @ a | None \<Rightarrow> t)"

definition group_text :: "rocker_group \<Rightarrow> string" where
  "group_text g =
     hex8 (group_ident g) @ '' (type '' @ group_type_text (group_type g) @
     (case group_vlan_id g of None \<Rightarrow> [] | Some v \<Rightarrow> '' vlan '' @ show_dec (uint v)) @
     (case group_pport g of None \<Rightarrow> [] | Some v \<Rightarrow> '' pport '' @ show_dec (sint v)) @
     (case group_index g of None \<Rightarrow> [] | Some v \<Rightarrow> '' index '' @ show_dec (sint v)) @ '') -->'' @
     rewrite_text g @
     (case ttl_check g of Some v \<Rightarrow> if v \<noteq> 0 then '' check TTL'' else [] | None \<Rightarrow> []) @
     (case group_ref g of Some v \<Rightarrow> if v \<noteq> 0 then '' group id '' @ hex8 v else [] | None \<Rightarrow> []) @
     (case pop_vlan g of Some v \<Rightarrow> if v \<noteq> 0 then '' pop vlan'' else [] | None \<Rightarrow> []) @
     (case out_pport g of Some v \<Rightarrow> '' out pport '' @ show_dec (sint v) | None \<Rightarrow> []) @
     (case group_refs g of Some ids \<Rightarrow> '' groups ['' @ comma_hex ids @ '']'' | None \<Rightarrow> []) @ [newline]"

text \<open>The type, an eight bit number, 9 for all.\<close>

definition hmp_rocker_of_dpa_groups ::
  "(string \<Rightarrow> string) \<Rightarrow> (u8 option \<Rightarrow> string + rocker_group list) \<Rightarrow> int option \<Rightarrow> string"
where
  "hmp_rocker_of_dpa_groups report query ty =
     (let t = word_of_int (case ty of None \<Rightarrow> 9 | Some i \<Rightarrow> i) :: u8
      in case query (if t \<noteq> 9 then Some t else None) of
           Inl e \<Rightarrow> report e
         | Inr l \<Rightarrow> line ''id (decode) --> buckets'' @ concat (map group_text l))"

section \<open>What holds of the printing\<close>

text \<open>The functions of a PCI tree in preorder; what is listed behind a function that is no bridge is not shown.\<close>

fun pci_functions :: "pci_node \<Rightarrow> (pci_function \<times> pci_bridge_info option) list" where
  "pci_functions (Pci_node dev bridge children) =
     (dev, bridge) # (case bridge of None \<Rightarrow> [] | Some _ \<Rightarrow> concat (map pci_functions children))"

lemma concat_flat: "concat (map (\<lambda>n. concat (map g (f n))) xs) = concat (map g (concat (map f xs)))"
  by (induction xs) simp_all

lemma info_pci_device_preorder: "hmp_info_pci_device n = concat (map (\<lambda>(d, b). function_text d b) (pci_functions n))"
proof (induction n)
  case (Pci_node dev bridge children)
  then have "map hmp_info_pci_device children = map (\<lambda>n. concat (map (\<lambda>(d, b). function_text d b) (pci_functions n))) children"
    by (intro map_cong) simp_all
  then have "concat (map hmp_info_pci_device children) = concat (map (\<lambda>(d, b). function_text d b) (concat (map pci_functions children)))"
    by (simp only: concat_flat)
  then show ?case by (simp split: option.split)
qed

lemma info_pci_shows_all:
  "hmp_info_pci (Inr buses) = concat (map (\<lambda>(d, b). function_text d b) (concat (map pci_functions (concat buses))))"
proof -
  have "hmp_info_pci_device = (\<lambda>n. concat (map (\<lambda>(d, b). function_text d b) (pci_functions n)))"
    by (rule ext) (rule info_pci_device_preorder)
  then have "hmp_info_pci (Inr buses) =
      concat (map (\<lambda>devs. concat (map (\<lambda>n. concat (map (\<lambda>(d, b). function_text d b) (pci_functions n))) devs)) buses)"
    by (simp add: hmp_info_pci_def)
  also have "\<dots> = concat (map (\<lambda>n. concat (map (\<lambda>(d, b). function_text d b) (pci_functions n))) (concat buses))"
    by (induction buses) simp_all
  finally show ?thesis by (simp only: concat_flat)
qed

end
