(* ===== verification/Spec2Isabelle.thy ===== *)
theory Spec2Isabelle
  imports Run_Did Vmcs Vmx Source_Agent Guest_Agent Dest_Agent Osnet_Handlers Qdev_Add Vfio_Irq_Props Vfio_Region Vfio_Rom Vfio_Reset_Props
    Vfio_Config_Props Vfio_Write_Props Vfio_Guest Vfio_Life_Props Vfio_Vga
    Mon_Args_Props Mon_Expr_Props Mon_Fdset_Props Mon_Event_Props Mon_Out
    Mon_Complete_Props Mon_Session_Props Mon_Memory_Props Mon_Cmds Qdev_Bus Qdev_Path Qdev_Gpio Qdev_Props
    Qdev_Print Hmp_Cmds Hmp_Migrate_Props Hmp_Keys_Props Hmp_Block_Props Hmp_Info_Misc
begin

text \<open>
  \<^bold>\<open>Direct interrupt delivery and live migration for passthrough devices.\<close>

  The repository lets a guest deliver its own timer and inter-processor interrupts without leaving the
  guest (DID), and migrates a guest that owns a network function by taking the device away and
  plugging it in again in two halves. Its code has four parts, all modelled here.

  \<^item> A kernel module in the guest (\<open>code/guest-share-pid/did.c\<close>, \<open>did.h\<close>) replaces the clock event
    handler and six functions of the guest's \<open>apic\<close>, posts interrupts into descriptors it shares
    with the hypervisor by hypercalls, and is driven by ioctls from \<open>run_did.c\<close>. Two more pairs of
    driver and program read and write VMCS fields and switch the interception of x2APIC registers
    (\<open>code/vmcs-configuration\<close>, \<open>code/vmx-configuration\<close>).
  \<^item> Four migration agents (\<open>code/live-migration-automation/*-migration-agent\<close>) on the source, in the
    guest and on the destination tell each other over TCP when to prepare, migrate and hot plug, and run
    scripts.
  \<^item> A modified QEMU 2.9.1: \<open>hw/vfio/pci.c\<close> passes the device to the guest, \<open>hw/core/qdev.c\<close> and
    \<open>qdev-monitor.c\<close> create and realize devices, here also in a top and a bottom half.
  \<^item> The monitor of that QEMU (\<open>monitor.c\<close>, \<open>hmp.c\<close>) carries the commands, among them the new ones for
    the split hotplug, from people and from the agents' scripts.

  \<^bold>\<open>Conventions.\<close> C integers that may wrap are words or are reduced where the code wraps (QEMU is built
  with \<open>-fwrapv\<close>); an undefined access, a failed assertion or a lost descriptor is a value \<open>Inl\<close> or
  \<open>None\<close>, sequenced by \<open>bindR\<close>. Code outside the repository (the kernel, the hypervisor, KVM, the PCI
  core, sockets, the QMP commands, the JSON and line editor libraries, generated tables) is a parameter;
  where its answers may vary it answers from the history of the calls made, so a theorem for every
  parameter covers every behaviour. Promises such a parameter must keep are hypotheses of the theorem
  that needs them, and its witness instantiates them.

  \<^bold>\<open>Shared theories.\<close> \<open>Prelude\<close>: faults, word types, loops over lists. \<open>C_Lib\<close>: \<open>strtoul\<close>, \<open>atoi\<close>,
  \<open>ioctl\<close> and the locale \<open>ioctl_device\<close>, the contract of a driver, interpreted for the three drivers.
  \<open>Hook\<close>: the locale \<open>saved_hook\<close>, a function pointer replaced and restored, interpreted for the
  timer handler, the clock factor and the \<open>apic\<close>. \<open>Bytes\<close>: little-endian numbers in buffers.

  \<^bold>\<open>The guest module.\<close> \<open>Did_State\<close> (state and environment), \<open>Did_Timer\<close> (handler, \<open>pi_set_timer\<close> and the
  hypercalls of direct timer delivery), \<open>Did_Ipi\<close> (the six \<open>did_send_IPI*\<close> functions and their
  installation), \<open>Did_Module\<close> (allocation, x2APIC ids, page walk, ioctl dispatcher, \<open>my_init\<close> and
  \<open>my_exit\<close>). \<open>Did_Frame\<close> shows what each operation leaves alone, \<open>Did_Dtid\<close> what set-up and removal
  leave behind. \<open>Did_Props\<close> and \<open>Did_Ipi_Props\<close>: set-up and removal restore the clock event device; an
  IPI posts exactly its bits and notifies each target once; after any ioctls the pages freed are, in
  order, the answers the allocator gave, failed allocations included. The fuel of \<open>call_ipi\<close> and \<open>call_handler\<close> is stack depth: two frames are enough when the saved
  pointers are the kernel's (\<open>call_ipi_enough\<close>), and no amount is enough when the module saved its own
  function, which installing twice brings about. \<open>Run_Did\<close>, \<open>Vmcs\<close>, \<open>Vmx\<close>: the programs against their
  drivers' dispatchers; of the hypervisor only the one VMCS field that is written is assumed to keep
  its low bits.

  \<^bold>\<open>The agents.\<close> \<open>Agent\<close> has the system calls, the environment and programs with a trace of calls;
  \<open>Source_Agent\<close> (both variants), \<open>Guest_Agent\<close>, \<open>Dest_Agent\<close> are the \<open>main\<close> functions. Their endless
  loops take fuel, one unit for a turn or a try to connect; that enough fuel gives the end is proved
  for every environment that lets them connect. The properties fix the order of messages and scripts and how each agent
  ends, by overflow of its message buffer included.

  \<^bold>\<open>QEMU devices.\<close> \<open>Qdev_Realize\<close>: \<open>device_set_realized\<close>, its halves and \<open>device_unparent\<close>; the halves
  together make the calls the whole makes, with the reset moved, and what differs when a call fails is
  spelt out; a failed realize gives back all but what the code never undoes (the listeners' and the
  hotplug handler's calls, and what a failing unrealize leaves).
  \<open>Osnet_Handlers\<close>: the monitor commands of the halves, which lose errors. \<open>Qdev_Find\<close> and \<open>Qdev_Add\<close>:
  aliases, bus search and paths, \<open>device_add\<close> and its split variant, refinement and release of objects.
  \<open>Qdev_Bus\<close>: devices on buses with reference counts, refining a map from devices to buses. \<open>Qdev_Path\<close>
  (firmware paths in 128 bytes, walks, unplug), \<open>Qdev_Gpio\<close> (interrupt lines), \<open>Qdev_Props\<close> (objects,
  properties, listeners), \<open>Qdev_Print\<close> (listings, trees in preorder).

  \<^bold>\<open>QEMU VFIO.\<close> \<open>Vfio_State\<close> and \<open>Vfio_Irq\<close> are the interrupt code: INTx, MSI, MSI-X and the KVM bypass.
  The mutual recursion through \<open>vfio_disable_interrupts\<close> takes fuel 2: it is entered again only with the
  mode off, and more fuel gives the same (\<open>disable_nesting_bounded\<close> in \<open>Vfio_Irq_Props\<close>); the rounds of
  \<open>vfio_msi_enable\<close> are bounded by the vectors first asked for, because a grant is smaller each time.
  \<open>Vfio_Modes\<close>, \<open>Vfio_Accounting\<close> and \<open>Vfio_Reach\<close> hold the invariants of the modes: every descriptor,
  route and irqfd held is owned by the mode that uses it, whichever calls into the host fail (the host
  only never gives out descriptor 0, which a failed notifier also has). \<open>Vfio_Config\<close>, \<open>Vfio_Caps\<close>,
  \<open>Vfio_Config_Props\<close>: configuration reads and the capability lists; the walks take 256 and 1024
  steps, more than a list without a cycle can have, and a cycle is the fault \<open>Out_Of_Fuel\<close>.
  \<open>Vfio_Write\<close>, \<open>Vfio_Notes\<close>, \<open>Vfio_Write_Props\<close>: guest writes, safe unless MSI and MSI-X are on
  together. \<open>Vfio_Guest\<close>: all that can happen to a realized device (guest writes and mask bits,
  interrupts, end-of-interrupts, the timer, routing, resets), with no condition on the mode but the
  rule that the guest does not have MSI and MSI-X enabled together; the invariants hold in every state
  these reach. \<open>Vfio_Region\<close>, \<open>Vfio_Rom\<close>, \<open>Vfio_Vga\<close>, \<open>Vfio_Reset\<close>, \<open>Vfio_Reset_Props\<close>: BARs around the
  MSI-X table, the ROM and its checksum, VGA ranges, hot resets. \<open>Vfio_Life\<close>, \<open>Vfio_Ledger\<close>,
  \<open>Vfio_Life_Demo\<close>, \<open>Vfio_Life_Props\<close>: realize, exit and finalize with everything obtained and given
  back but the copy of the graphics OpRegion, which is leaked on purpose, and what each error path
  leaks.

  \<^bold>\<open>The monitor.\<close> \<open>Mon_Str\<close>: strings and command lines. \<open>Mon_Expr\<close>, \<open>Mon_Expr_Fuel\<close>, \<open>Mon_Expr_Props\<close>:
  integer expressions; \<open>expr_fuel\<close> (four units a character and four more) is enough for every text.
  \<open>Mon_Args\<close> and \<open>Mon_Args_Props\<close>: arguments by type strings into typed dictionaries, for
  all documented letters, the option lists of \<open>O\<close> as parameters. \<open>Mon_Complete\<close> and
  \<open>Mon_Complete_Props\<close>: help and completion; the locale \<open>completion_function\<close> is interpreted for every
  function of the command table but the two of trace events, which have the weaker contract
  \<open>listing_function\<close>; two loops that may not end are partial functions, with a theorem
  for when they do. \<open>Mon_Fdset\<close>, \<open>Mon_Fdset_Props\<close>: descriptors passed to QEMU, counted and refined to a
  map. \<open>Mon_Event\<close>, \<open>Mon_Event_Props\<close>: the rate limit of events over all interleavings. \<open>Mon_Out\<close>: the
  output buffer over a backend that takes any number of bytes. \<open>Mon_Session\<close>, \<open>Mon_Session_Props\<close>: QMP
  negotiation and answers, and when a human monitor reads. \<open>Mon_Memory\<close>, \<open>Mon_Memory_Props\<close>: dumps and
  checksums, for targets with 64-bit addresses. \<open>Mon_Cmds\<close>: small commands.

  \<^bold>\<open>The human commands.\<close> \<open>Hmp_Base\<close> has the calls, the reporting of errors and the locale
  \<open>quiet_command\<close>: a command that leaves the reading of every monitor alone; \<open>Hmp_Cmds\<close>,
  \<open>Hmp_Migrate\<close> and \<open>Hmp_Block\<close> interpret it for their commands of one call. \<open>Hmp_Migrate_Props\<close>: a
  migration holds its monitor until its timer handler sees the end, and exactly so long; parameters are
  set one at a time. \<open>Hmp_Keys\<close>, \<open>Hmp_Keys_Props\<close>: keys and ring buffers as text, read back.
  \<open>Hmp_Block_Props\<close>: the NBD server offers all media or none. \<open>Hmp_Info\<close>, \<open>Hmp_Info_Dev\<close>,
  \<open>Hmp_Info_Misc\<close>: what the \<open>info\<close> commands print.

  \<^bold>\<open>How the parts meet.\<close> The programs run against the drivers' own dispatchers; \<open>device_add\<close> is the split
  addition followed by both halves; the life of a VFIO device contains any activity of its guest,
  whose writes drive the interrupt modes; commands of \<open>hmp.c\<close> run as lines of the human
  sessions of \<open>Mon_Session\<close>, whose output goes through the buffer of \<open>Mon_Out\<close>.

  \<^bold>\<open>Not modelled.\<close> BAR registration and device quirks (calls into code outside the repository);
  \<open>qdev_pass_gpios\<close>, which needs the alias properties of the object model; in \<open>monitor.c\<close> the commands
  that only hand on one library call without an argument of their own, and static tables; the field
  numbers of \<open>vmcs_field.h\<close> and \<open>vmx_field.h\<close>, which no compiled code uses; shell scripts, data and papers.
\<close>

end
